(* ===== verification/Prelude.thy ===== *)
theory Prelude
  imports Main "HOL-Library.Word"
begin

text \<open>
  Shared vocabulary of the development: the machine integers of the C sources as words of
  their width, C strings as byte lists without the terminating zero, little-endian byte
  sequences and the facts about them, and the named collections the component theories
  add their hints to.
\<close>

unbundle bit_operations_syntax

type_synonym u8 = "8 word"
type_synonym u16 = "16 word"
type_synonym u32 = "32 word"
type_synonym u64 = "64 word"

text \<open>Signed integers are words of the same width; \<open>sint\<close> reads them.\<close>

type_synonym i8 = "8 word"
type_synonym i32 = "32 word"
type_synonym i64 = "64 word"

type_synonym cstr = "u8 list"

named_theorems emit_simps \<open>rewrite rules for the instruction byte emitters\<close>
named_theorems enc_defs \<open>definitions of the instruction-family encoders\<close>
named_theorems reg_simps \<open>facts about register indices and widths\<close>
named_theorems le_simps \<open>little-endian byte sequences\<close>

section \<open>Little-endian values\<close>

text \<open>\<open>le_bytes n w\<close> is the \<open>n\<close>-byte little-endian image of a word.\<close>

fun le_bytes :: "nat \<Rightarrow> 'a::len word \<Rightarrow> u8 list" where
  "le_bytes 0 w = []"
| "le_bytes (Suc n) w = ucast w # le_bytes n (drop_bit 8 w)"

text \<open>The natural number a little-endian byte sequence stands for.\<close>

fun le_nat :: "u8 list \<Rightarrow> nat" where
  "le_nat [] = 0"
| "le_nat (b # bs) = unat b + 256 * le_nat bs"

lemma length_le_bytes [simp]: "length (le_bytes n w) = n"
  by (induction n arbitrary: w) auto

lemma unat_ucast_u8: "unat (ucast (w :: 'a::len word) :: u8) = unat w mod 256"
  by (simp add: unsigned_ucast_eq take_bit_eq_mod)

lemma unat_drop_bit_8: "unat (drop_bit 8 (w :: 'a::len word)) = unat w div 256"
  by (simp only: unat_drop_bit_eq) (simp add: drop_bit_eq_div)

lemma le_nat_le_bytes: "le_nat (le_bytes n w) = unat w mod 256 ^ n"
proof (induction n arbitrary: w)
  case 0
  then show ?case by simp
next
  case (Suc n)
  have "unat w mod 256 ^ Suc n = unat w mod 256 + 256 * (unat w div 256 mod 256 ^ n)"
    by (simp add: mod_mult2_eq)
  then show ?case
    by (simp add: Suc.IH unat_ucast_u8 unat_drop_bit_8)
qed

lemma le_nat_bound: "le_nat bs < 256 ^ length bs"
proof (induction bs)
  case Nil
  then show ?case by simp
next
  case (Cons b bs)
  have "unat b < 256" using unsigned_less [of b] by simp
  moreover have "le_nat bs + 1 \<le> 256 ^ length bs" using Cons.IH by simp
  then have "256 * (le_nat bs + 1) \<le> 256 * 256 ^ length bs" by (rule mult_le_mono2)
  ultimately show ?case by simp
qed

text \<open>A word is recovered from its full little-endian image.\<close>

lemma word_of_le_bytes:
  assumes "LENGTH('a::len) = 8 * n"
  shows "word_of_nat (le_nat (le_bytes n (w :: 'a word))) = w"
proof -
  have "256 ^ n = (2::nat) ^ LENGTH('a)" by (simp add: assms power_mult)
  then have "unat w mod 256 ^ n = unat w" using unsigned_less [of w] by simp
  then show ?thesis by (simp add: le_nat_le_bytes)
qed

lemma le_bytes_inj:
  assumes "le_bytes n (v :: 'a::len word) = le_bytes n w" "LENGTH('a) = 8 * n"
  shows "v = w"
  using assms(1) word_of_le_bytes [OF assms(2)] by metis

text \<open>
  The C code shifts signed values (\<open>(uint8_t)(v >> 8)\<close>), an arithmetic shift. As long as the
  byte lies inside the word it is the byte of the logical shift.
\<close>

lemma ucast_signed_drop_bit_u8:
  assumes "n + 8 \<le> LENGTH('a::len)"
  shows "(ucast (signed_drop_bit n (w :: 'a word)) :: u8) = ucast (drop_bit n w)"
  using assms
  by (intro bit_word_eqI) (auto simp: bit_ucast_iff bit_signed_drop_bit_iff bit_drop_bit_eq)

lemma sdb_bytes_u32 [le_simps]:
  "[ucast v, ucast (signed_drop_bit 8 v), ucast (signed_drop_bit 16 v),
    ucast (signed_drop_bit 24 v)] = le_bytes 4 (v :: u32)"
  by (simp add: ucast_signed_drop_bit_u8 numeral_eq_Suc)

lemma sdb_bytes_u16 [le_simps]:
  "[ucast v, ucast (signed_drop_bit 8 v)] = le_bytes 2 (ucast (v :: u64) :: u16)"
proof -
  have "(ucast (drop_bit 8 v) :: u8) = ucast (drop_bit 8 (ucast v :: u16))"
    by (intro bit_word_eqI) (simp add: bit_ucast_iff bit_drop_bit_eq)
  moreover have "(ucast v :: u8) = ucast (ucast v :: u16)"
    by (intro bit_word_eqI) (simp add: bit_ucast_iff)
  ultimately show ?thesis by (simp add: ucast_signed_drop_bit_u8 numeral_eq_Suc)
qed

text \<open>A statement about all bytes by evaluation at the 256 of them.\<close>

lemma all_u8:
  assumes "list_all (\<lambda>n. P (word_of_nat n)) [0..<256]"
  shows "P (b :: u8)"
proof -
  have "unat b < 256" using unsigned_less [of b] by simp
  then have "P (word_of_nat (unat b))" using assms unfolding list_all_iff by fastforce
  then show ?thesis by simp
qed

section \<open>Lists and options\<close>

lemma take_append_exact [simp]: "length xs = n \<Longrightarrow> take n (xs @ ys) = xs"
  by simp

lemma drop_append_exact [simp]: "length xs = n \<Longrightarrow> drop n (xs @ ys) = ys"
  by simp

section \<open>Decimal output\<close>

text \<open>What \<^verbatim>\<open>printf\<close> writes for \<^verbatim>\<open>%d\<close> and \<^verbatim>\<open>%zu\<close>.\<close>

fun print_nat :: "nat \<Rightarrow> u8 list" where
  "print_nat n = (if n < 10 then [word_of_nat (48 + n)]
                  else print_nat (n div 10) @ [word_of_nat (48 + n mod 10)])"

declare print_nat.simps [simp del]

definition print_int :: "int \<Rightarrow> u8 list" where
  "print_int i = (if i < 0 then 0x2D # print_nat (nat (- i)) else print_nat (nat i))"

end
