(* ===== verification/Encoder_Types.thy ===== *)
theory Encoder_Types
  imports Prelude
begin

text \<open>
  The data types of \<^verbatim>\<open>src/src/encoder/encoder.h\<close>: register identities, opcodes, operands and the
  encoder's result. The two big enums are datatypes with the source's constructors; the
  numbers C gives the register enumerators, which the code compares and subtracts, are
  \<open>reg_code\<close>, and the order of type \<open>RegId\<close> is the order of these numbers.
\<close>

section \<open>Registers\<close>

text \<open>\<^verbatim>\<open>RegId\<close>: five blocks of sixteen registers and the invalid marker.\<close>

datatype (plugins only: code) RegId =
  REG_RAX | REG_RCX | REG_RDX | REG_RBX | REG_RSP | REG_RBP | REG_RSI | REG_RDI | REG_R8 |
  REG_R9 | REG_R10 | REG_R11 | REG_R12 | REG_R13 | REG_R14 | REG_R15 | REG_EAX | REG_ECX |
  REG_EDX | REG_EBX | REG_ESP | REG_EBP | REG_ESI | REG_EDI | REG_R8D | REG_R9D |
  REG_R10D | REG_R11D | REG_R12D | REG_R13D | REG_R14D | REG_R15D | REG_AX | REG_CX |
  REG_DX | REG_BX | REG_SP | REG_BP | REG_SI | REG_DI | REG_R8W | REG_R9W | REG_R10W |
  REG_R11W | REG_R12W | REG_R13W | REG_R14W | REG_R15W | REG_AL | REG_CL | REG_DL |
  REG_BL | REG_SPL | REG_BPL | REG_SIL | REG_DIL | REG_R8B | REG_R9B | REG_R10B |
  REG_R11B | REG_R12B | REG_R13B | REG_R14B | REG_R15B | REG_XMM0 | REG_XMM1 | REG_XMM2 |
  REG_XMM3 | REG_XMM4 | REG_XMM5 | REG_XMM6 | REG_XMM7 | REG_XMM8 | REG_XMM9 | REG_XMM10 |
  REG_XMM11 | REG_XMM12 | REG_XMM13 | REG_XMM14 | REG_XMM15 | REG_INVALID

text \<open>The enumerators in declaration order, without \<open>REG_INVALID\<close>.\<close>

definition all_regs :: "RegId list" where
  "all_regs = [
    REG_RAX, REG_RCX, REG_RDX, REG_RBX, REG_RSP, REG_RBP, REG_RSI, REG_RDI, REG_R8, REG_R9,
    REG_R10, REG_R11, REG_R12, REG_R13, REG_R14, REG_R15, REG_EAX, REG_ECX, REG_EDX,
    REG_EBX, REG_ESP, REG_EBP, REG_ESI, REG_EDI, REG_R8D, REG_R9D, REG_R10D, REG_R11D,
    REG_R12D, REG_R13D, REG_R14D, REG_R15D, REG_AX, REG_CX, REG_DX, REG_BX, REG_SP, REG_BP,
    REG_SI, REG_DI, REG_R8W, REG_R9W, REG_R10W, REG_R11W, REG_R12W, REG_R13W, REG_R14W,
    REG_R15W, REG_AL, REG_CL, REG_DL, REG_BL, REG_SPL, REG_BPL, REG_SIL, REG_DIL, REG_R8B,
    REG_R9B, REG_R10B, REG_R11B, REG_R12B, REG_R13B, REG_R14B, REG_R15B, REG_XMM0,
    REG_XMM1, REG_XMM2, REG_XMM3, REG_XMM4, REG_XMM5, REG_XMM6, REG_XMM7, REG_XMM8,
    REG_XMM9, REG_XMM10, REG_XMM11, REG_XMM12, REG_XMM13, REG_XMM14, REG_XMM15]"

text \<open>The enumerator values: 0 to 79, and 0xFF for \<open>REG_INVALID\<close>.\<close>

primrec reg_code :: "RegId \<Rightarrow> nat" where
  "reg_code REG_RAX = 0"
| "reg_code REG_RCX = 1"
| "reg_code REG_RDX = 2"
| "reg_code REG_RBX = 3"
| "reg_code REG_RSP = 4"
| "reg_code REG_RBP = 5"
| "reg_code REG_RSI = 6"
| "reg_code REG_RDI = 7"
| "reg_code REG_R8 = 8"
| "reg_code REG_R9 = 9"
| "reg_code REG_R10 = 10"
| "reg_code REG_R11 = 11"
| "reg_code REG_R12 = 12"
| "reg_code REG_R13 = 13"
| "reg_code REG_R14 = 14"
| "reg_code REG_R15 = 15"
| "reg_code REG_EAX = 16"
| "reg_code REG_ECX = 17"
| "reg_code REG_EDX = 18"
| "reg_code REG_EBX = 19"
| "reg_code REG_ESP = 20"
| "reg_code REG_EBP = 21"
| "reg_code REG_ESI = 22"
| "reg_code REG_EDI = 23"
| "reg_code REG_R8D = 24"
| "reg_code REG_R9D = 25"
| "reg_code REG_R10D = 26"
| "reg_code REG_R11D = 27"
| "reg_code REG_R12D = 28"
| "reg_code REG_R13D = 29"
| "reg_code REG_R14D = 30"
| "reg_code REG_R15D = 31"
| "reg_code REG_AX = 32"
| "reg_code REG_CX = 33"
| "reg_code REG_DX = 34"
| "reg_code REG_BX = 35"
| "reg_code REG_SP = 36"
| "reg_code REG_BP = 37"
| "reg_code REG_SI = 38"
| "reg_code REG_DI = 39"
| "reg_code REG_R8W = 40"
| "reg_code REG_R9W = 41"
| "reg_code REG_R10W = 42"
| "reg_code REG_R11W = 43"
| "reg_code REG_R12W = 44"
| "reg_code REG_R13W = 45"
| "reg_code REG_R14W = 46"
| "reg_code REG_R15W = 47"
| "reg_code REG_AL = 48"
| "reg_code REG_CL = 49"
| "reg_code REG_DL = 50"
| "reg_code REG_BL = 51"
| "reg_code REG_SPL = 52"
| "reg_code REG_BPL = 53"
| "reg_code REG_SIL = 54"
| "reg_code REG_DIL = 55"
| "reg_code REG_R8B = 56"
| "reg_code REG_R9B = 57"
| "reg_code REG_R10B = 58"
| "reg_code REG_R11B = 59"
| "reg_code REG_R12B = 60"
| "reg_code REG_R13B = 61"
| "reg_code REG_R14B = 62"
| "reg_code REG_R15B = 63"
| "reg_code REG_XMM0 = 64"
| "reg_code REG_XMM1 = 65"
| "reg_code REG_XMM2 = 66"
| "reg_code REG_XMM3 = 67"
| "reg_code REG_XMM4 = 68"
| "reg_code REG_XMM5 = 69"
| "reg_code REG_XMM6 = 70"
| "reg_code REG_XMM7 = 71"
| "reg_code REG_XMM8 = 72"
| "reg_code REG_XMM9 = 73"
| "reg_code REG_XMM10 = 74"
| "reg_code REG_XMM11 = 75"
| "reg_code REG_XMM12 = 76"
| "reg_code REG_XMM13 = 77"
| "reg_code REG_XMM14 = 78"
| "reg_code REG_XMM15 = 79"
| "reg_code REG_INVALID = 255"

definition reg_of_code :: "nat \<Rightarrow> RegId" where
  "reg_of_code n = (if n < 80 then all_regs ! n else REG_INVALID)"

lemma length_all_regs [simp]: "length all_regs = 80"
  by (simp add: all_regs_def)

lemma reg_of_code_code [simp]: "reg_of_code (reg_code r) = r"
  by (cases r) (simp_all add: reg_of_code_def all_regs_def)

lemma reg_code_inj: "reg_code a = reg_code b \<longleftrightarrow> a = b"
  using reg_of_code_code [of a] reg_of_code_code [of b] by metis

text \<open>The comparisons of C on the enum are the order of type \<open>RegId\<close>.\<close>

instantiation RegId :: linorder
begin

definition less_eq_RegId :: "RegId \<Rightarrow> RegId \<Rightarrow> bool" where
  "less_eq_RegId a b \<longleftrightarrow> reg_code a \<le> reg_code b"

definition less_RegId :: "RegId \<Rightarrow> RegId \<Rightarrow> bool" where
  "less_RegId a b \<longleftrightarrow> reg_code a < reg_code b"

instance
  by standard (auto simp: less_eq_RegId_def less_RegId_def reg_code_inj)

end

lemmas reg_order = less_eq_RegId_def less_RegId_def

section \<open>Operands\<close>

text \<open>
  \<^verbatim>\<open>Operand\<close>: the tagged union, one constructor per \<^verbatim>\<open>OperandKind\<close> with the union member that
  kind reads. \<open>OP_MEM_REG\<close> has a base only (the parser stores displacement 0 and the encoder
  ignores it); labels are C strings; a string literal is its decoded bytes.
\<close>

datatype Operand =
    OP_NONE
  | OP_REG RegId
  | OP_IMM i64
  | OP_MEM_REG RegId
  | OP_MEM_DISP RegId i32
  | OP_MEM_RIP_LABEL cstr
  | OP_LABEL cstr
  | OP_STRING cstr

section \<open>Opcodes\<close>

datatype (plugins only: code) OpcodeEnum =
  OPCODE_MOV | OPCODE_PUSH | OPCODE_POP | OPCODE_LEA | OPCODE_MOVZX | OPCODE_MOVSX |
  OPCODE_ADD | OPCODE_SUB | OPCODE_IMUL | OPCODE_IDIV | OPCODE_DIV | OPCODE_CQO |
  OPCODE_INC | OPCODE_DEC | OPCODE_NEG | OPCODE_ADDSD | OPCODE_SUBSD | OPCODE_MULSD |
  OPCODE_DIVSD | OPCODE_UCOMISD | OPCODE_XORPD | OPCODE_CVTSI2SD | OPCODE_CVTTSD2SI |
  OPCODE_AND | OPCODE_OR | OPCODE_XOR | OPCODE_NOT | OPCODE_SHL | OPCODE_SHR | OPCODE_SAR |
  OPCODE_CMP | OPCODE_TEST | OPCODE_SETE | OPCODE_SETNE | OPCODE_SETG | OPCODE_SETL |
  OPCODE_SETGE | OPCODE_SETLE | OPCODE_SETA | OPCODE_SETB | OPCODE_SETAE | OPCODE_SETBE |
  OPCODE_SETP | OPCODE_SETNP | OPCODE_JMP | OPCODE_CALL | OPCODE_RET | OPCODE_JE |
  OPCODE_JNE | OPCODE_JG | OPCODE_JGE | OPCODE_JL | OPCODE_JLE | OPCODE_JZ | OPCODE_JNZ |
  OPCODE_JS | OPCODE_JNS | OPCODE_SYSCALL | OPCODE_NOP | OPCODE_RDTSC | OPCODE_HLT |
  OPCODE_INT | OPCODE_INVALID

section \<open>Encoder result\<close>

text \<open>
  \<^verbatim>\<open>EncodedInstruction\<close>: \<open>enc_bytes\<close> is the prefix of length \<^verbatim>\<open>len\<close> of the 15-byte array, so
  \<^verbatim>\<open>len\<close> is its length. No encoder sets \<^verbatim>\<open>needs_reloc\<close> or \<^verbatim>\<open>reloc_sym\<close>.
\<close>

record EncodedInstruction =
  enc_bytes :: "u8 list"
  enc_error :: bool
  needs_reloc :: bool
  reloc_sym :: "cstr option"

abbreviation enc_len :: "EncodedInstruction \<Rightarrow> nat" where
  "enc_len e \<equiv> length (enc_bytes e)"

definition MAX_INSTRUCTION_BYTES :: nat where
  "MAX_INSTRUCTION_BYTES = 15"

end
