(* ===== verification/ModRM.thy ===== *)
theory ModRM
  imports Encoder_Types
begin

text \<open>
  Register metadata, ModRM, SIB and REX bytes: \<^verbatim>\<open>src/src/encoder/modrm.c\<close> and
  \<^verbatim>\<open>src/src/encoder/rex.c\<close>. C \<^verbatim>\<open>int\<close> values are HOL integers; the byte builders truncate to
  eight bits as the casts do. The lemmas say that a register is determined by its width and
  its index, that the index splits into the three ModRM bits and the REX extension bit, and
  that the fields of a ModRM, SIB or REX byte can be read back.
\<close>

section \<open>Register metadata (modrm.c)\<close>

definition reg_index :: "RegId \<Rightarrow> int" where
  "reg_index r =
     (if REG_RAX \<le> r \<and> r \<le> REG_R15 then int (reg_code r) - int (reg_code REG_RAX)
      else if REG_EAX \<le> r \<and> r \<le> REG_R15D then int (reg_code r) - int (reg_code REG_EAX)
      else if REG_AX \<le> r \<and> r \<le> REG_R15W then int (reg_code r) - int (reg_code REG_AX)
      else if REG_AL \<le> r \<and> r \<le> REG_R15B then int (reg_code r) - int (reg_code REG_AL)
      else if REG_XMM0 \<le> r \<and> r \<le> REG_XMM15 then int (reg_code r) - int (reg_code REG_XMM0)
      else -1)"

definition reg_width_bits :: "RegId \<Rightarrow> int" where
  "reg_width_bits r =
     (if REG_RAX \<le> r \<and> r \<le> REG_R15 then 64
      else if REG_EAX \<le> r \<and> r \<le> REG_R15D then 32
      else if REG_AX \<le> r \<and> r \<le> REG_R15W then 16
      else if REG_AL \<le> r \<and> r \<le> REG_R15B then 8
      else if REG_XMM0 \<le> r \<and> r \<le> REG_XMM15 then 128
      else 0)"

definition reg_is_gpr :: "RegId \<Rightarrow> bool" where
  "reg_is_gpr r \<longleftrightarrow> REG_RAX \<le> r \<and> r \<le> REG_R15B"

definition reg_is_xmm :: "RegId \<Rightarrow> bool" where
  "reg_is_xmm r \<longleftrightarrow> REG_XMM0 \<le> r \<and> r \<le> REG_XMM15"

definition reg_needs_rex :: "RegId \<Rightarrow> bool" where
  "reg_needs_rex r \<longleftrightarrow> reg_index r \<ge> 8"

definition reg_requires_rex_byte :: "RegId \<Rightarrow> bool" where
  "reg_requires_rex_byte r \<longleftrightarrow> reg_width_bits r = 8 \<and> reg_index r \<ge> 4"

definition reg_field :: "RegId \<Rightarrow> int" where
  "reg_field r = (if reg_index r \<ge> 0 then reg_index r mod 8 else 0)"

section \<open>Byte builders\<close>

definition modrm_byte :: "int \<Rightarrow> int \<Rightarrow> int \<Rightarrow> u8" where
  "modrm_byte md rg rm =
     word_of_int (push_bit 6 (md AND 3) OR push_bit 3 (rg AND 7) OR (rm AND 7))"

definition sib_byte :: "int \<Rightarrow> int \<Rightarrow> int \<Rightarrow> u8" where
  "sib_byte scale idx base =
     word_of_int (push_bit 6 (scale AND 3) OR push_bit 3 (idx AND 7) OR (base AND 7))"

definition rex_byte :: "bool \<Rightarrow> bool \<Rightarrow> bool \<Rightarrow> bool \<Rightarrow> u8" where
  "rex_byte w r x b =
     (0x40 OR (if w then 0x08 else 0) OR (if r then 0x04 else 0)
           OR (if x then 0x02 else 0) OR (if b then 0x01 else 0))"

definition rex_required :: "bool \<Rightarrow> bool \<Rightarrow> bool \<Rightarrow> bool \<Rightarrow> bool" where
  "rex_required w r x b \<longleftrightarrow> w \<or> r \<or> x \<or> b"

section \<open>Facts about registers\<close>

lemma reg_index_range: "- 1 \<le> reg_index r \<and> reg_index r \<le> 15"
  by (auto simp: reg_index_def reg_order)

lemma reg_field_range: "0 \<le> reg_field r \<and> reg_field r \<le> 7"
  by (simp add: reg_field_def) (use pos_mod_bound [of 8 "reg_index r"] in linarith)

lemma reg_code_range: "reg_code r < 80 \<or> r = REG_INVALID"
  by (cases r) simp_all

lemma reg_width_values:
  "reg_width_bits r \<in> {0, 8, 16, 32, 64, 128}"
  by (simp add: reg_width_bits_def)

lemma reg_index_valid: "reg_width_bits r \<noteq> 0 \<Longrightarrow> 0 \<le> reg_index r"
  by (auto simp: reg_width_bits_def reg_index_def reg_order split: if_splits)

lemma reg_index_split:
  assumes "reg_width_bits r \<noteq> 0"
  shows "reg_index r = (if reg_needs_rex r then 8 else 0) + reg_field r"
proof -
  have "0 \<le> reg_index r" "reg_index r \<le> 15"
    using reg_index_valid [OF assms] reg_index_range [of r] by auto
  then show ?thesis by (auto simp: reg_needs_rex_def reg_field_def) presburger+
qed

lemma reg_eqI:
  assumes "reg_width_bits a = reg_width_bits b" "reg_index a = reg_index b"
    "reg_width_bits a \<noteq> 0"
  shows "a = b"
proof -
  have "reg_code a = reg_code b"
    using assms by (auto simp: reg_width_bits_def reg_index_def reg_order split: if_splits)
  then show ?thesis by (simp add: reg_code_inj)
qed

lemma reg_is_gpr_width: "reg_is_gpr r \<longleftrightarrow> reg_width_bits r \<in> {8, 16, 32, 64}"
  by (auto simp: reg_is_gpr_def reg_width_bits_def reg_order)

lemma reg_is_xmm_width: "reg_is_xmm r \<longleftrightarrow> reg_width_bits r = 128"
  by (auto simp: reg_is_xmm_def reg_width_bits_def reg_order)

lemma reg_invalid_facts [reg_simps]:
  "reg_width_bits REG_INVALID = 0" "reg_index REG_INVALID = -1"
  "reg_field REG_INVALID = 0" "\<not> reg_needs_rex REG_INVALID"
  by (simp_all add: reg_width_bits_def reg_index_def reg_field_def reg_needs_rex_def reg_order)

section \<open>Reading the bytes back\<close>

text \<open>The architecture's view of a byte: three bit fields of a ModRM or SIB byte, four REX flags.\<close>

definition bits_hi :: "u8 \<Rightarrow> int" where "bits_hi b = uint (drop_bit 6 b)"
definition bits_mid :: "u8 \<Rightarrow> int" where "bits_mid b = uint (drop_bit 3 b AND 7)"
definition bits_lo :: "u8 \<Rightarrow> int" where "bits_lo b = uint (b AND 7)"

lemma uint_modrm:
  "uint (modrm_byte md rg rm) =
     push_bit 6 (take_bit 2 md) OR push_bit 3 (take_bit 3 rg) OR take_bit 3 rm"
proof -
  have m: "x AND 3 = take_bit 2 x" "x AND 7 = take_bit 3 x" for x :: int
    by (simp_all add: take_bit_eq_mask mask_numeral)
  show ?thesis
    unfolding modrm_byte_def m
    by (rule bit_eqI) (auto simp: uint_word_of_int_eq bit_simps)
qed

lemma sib_is_modrm: "sib_byte s i b = modrm_byte s i b"
  by (simp add: sib_byte_def modrm_byte_def)

lemma bits_modrm [simp]:
  "bits_hi (modrm_byte md rg rm) = md mod 4"
  "bits_mid (modrm_byte md rg rm) = rg mod 8"
  "bits_lo (modrm_byte md rg rm) = rm mod 8"
proof -
  have mw: "uint (w AND 7) = take_bit 3 (uint w)" for w :: u8
    by (rule bit_eqI) (auto simp: bit_simps take_bit_eq_mask mask_numeral uint_and)
  have "bits_hi (modrm_byte md rg rm) = take_bit 2 md"
    unfolding bits_hi_def unsigned_drop_bit_eq uint_modrm
    by (rule bit_eqI) (auto simp: bit_simps)
  then show "bits_hi (modrm_byte md rg rm) = md mod 4" by (simp add: take_bit_eq_mod)
  have "bits_mid (modrm_byte md rg rm) = take_bit 3 rg"
    unfolding bits_mid_def mw unsigned_drop_bit_eq uint_modrm
    by (rule bit_eqI) (auto simp: bit_simps)
  then show "bits_mid (modrm_byte md rg rm) = rg mod 8" by (simp add: take_bit_eq_mod)
  have "bits_lo (modrm_byte md rg rm) = take_bit 3 rm"
    unfolding bits_lo_def mw uint_modrm
    by (rule bit_eqI) (auto simp: bit_simps)
  then show "bits_lo (modrm_byte md rg rm) = rm mod 8" by (simp add: take_bit_eq_mod)
qed

lemma bits_sib [simp]:
  "bits_hi (sib_byte s i b) = s mod 4"
  "bits_mid (sib_byte s i b) = i mod 8"
  "bits_lo (sib_byte s i b) = b mod 8"
  by (simp_all add: sib_is_modrm)

text \<open>A REX byte is 0x40 to 0x4F and carries its four flags in bits 3 to 0.\<close>

definition is_rex :: "u8 \<Rightarrow> bool" where "is_rex b \<longleftrightarrow> b AND 0xF0 = 0x40"
definition rex_flag_w :: "u8 \<Rightarrow> bool" where "rex_flag_w b \<longleftrightarrow> bit b 3"
definition rex_flag_r :: "u8 \<Rightarrow> bool" where "rex_flag_r b \<longleftrightarrow> bit b 2"
definition rex_flag_x :: "u8 \<Rightarrow> bool" where "rex_flag_x b \<longleftrightarrow> bit b 1"
definition rex_flag_b :: "u8 \<Rightarrow> bool" where "rex_flag_b b \<longleftrightarrow> bit b 0"

lemma rex_byte_fields [simp]:
  "is_rex (rex_byte w r x b)"
  "rex_flag_w (rex_byte w r x b) = w" "rex_flag_r (rex_byte w r x b) = r"
  "rex_flag_x (rex_byte w r x b) = x" "rex_flag_b (rex_byte w r x b) = b"
  by (cases w; cases r; cases x; cases b;
      simp add: is_rex_def rex_byte_def rex_flag_w_def rex_flag_r_def rex_flag_x_def rex_flag_b_def)+

end
