(* ===== verification/Immediate.thy ===== *)
theory Immediate
  imports Prelude
begin

text \<open>
  Immediate range checks and little-endian stores: \<^verbatim>\<open>src/src/encoder/immediate.c\<close>. The
  buffer argument of the stores is the list of bytes it points to; a store writes in place and
  returns the number of bytes written.
\<close>

definition immediate_fits_i8 :: "i64 \<Rightarrow> bool" where
  "immediate_fits_i8 val \<longleftrightarrow> sint val \<ge> - 128 \<and> sint val \<le> 127"

definition immediate_fits_i32 :: "i64 \<Rightarrow> bool" where
  "immediate_fits_i32 val \<longleftrightarrow> sint val \<ge> - (2 ^ 31) \<and> sint val \<le> 2 ^ 31 - 1"

definition immediate_fits_u8 :: "i64 \<Rightarrow> bool" where
  "immediate_fits_u8 val \<longleftrightarrow> sint val \<ge> 0 \<and> sint val \<le> 255"

definition emit_imm8 :: "u8 list \<Rightarrow> i8 \<Rightarrow> u8 list \<times> nat" where
  "emit_imm8 buf val = (buf[0 := val], 1)"

definition emit_imm32 :: "u8 list \<Rightarrow> i32 \<Rightarrow> u8 list \<times> nat" where
  "emit_imm32 buf val =
     (buf[0 := ucast val,
          1 := ucast (signed_drop_bit 8 val),
          2 := ucast (signed_drop_bit 16 val),
          3 := ucast (signed_drop_bit 24 val)], 4)"

definition emit_imm64 :: "u8 list \<Rightarrow> i64 \<Rightarrow> u8 list \<times> nat" where
  "emit_imm64 buf val =
     (buf[0 := ucast val,
          1 := ucast (signed_drop_bit 8 val),
          2 := ucast (signed_drop_bit 16 val),
          3 := ucast (signed_drop_bit 24 val),
          4 := ucast (signed_drop_bit 32 val),
          5 := ucast (signed_drop_bit 40 val),
          6 := ucast (signed_drop_bit 48 val),
          7 := ucast (signed_drop_bit 56 val)], 8)"

section \<open>What a range check guarantees\<close>

text \<open>
  A value that passes a check survives the truncation the encoder then applies: reading the
  truncated bytes back with the width's sign gives the value.
\<close>

lemma sint_ucast_id:
  fixes v :: i64
  assumes "- (2 ^ (LENGTH('b::len) - 1)) \<le> sint v" "sint v < 2 ^ (LENGTH('b) - 1)"
    "LENGTH('b) \<le> 64"
  shows "sint (ucast v :: 'b word) = sint v"
proof -
  have "(ucast v :: 'b word) = word_of_int (sint v)"
  proof (rule bit_word_eqI)
    fix n assume "n < LENGTH('b)"
    with assms(3) have "min n 63 = n" by simp
    with \<open>n < LENGTH('b)\<close> show "bit (ucast v :: 'b word) n = bit (word_of_int (sint v) :: 'b word) n"
      by (simp add: bit_simps bit_sint_iff)
  qed
  then have "sint (ucast v :: 'b word) = signed_take_bit (LENGTH('b) - 1) (sint v)"
    by (simp only: sint_sbintrunc')
  also have "\<dots> = sint v"
    using assms by (intro signed_take_bit_int_eq_self) auto
  finally show ?thesis .
qed

lemma fits_i8_sint:
  "immediate_fits_i8 v \<Longrightarrow> sint (ucast v :: i8) = sint v"
  by (rule sint_ucast_id) (simp_all add: immediate_fits_i8_def)

lemma fits_i32_sint:
  "immediate_fits_i32 v \<Longrightarrow> sint (ucast v :: i32) = sint v"
  by (rule sint_ucast_id) (simp_all add: immediate_fits_i32_def)

lemma fits_u8_uint:
  assumes "immediate_fits_u8 v"
  shows "uint (ucast v :: u8) = sint v"
proof -
  have "uint (ucast v :: u8) = sint v mod 256"
  proof -
    have "uint (ucast v :: u8) = take_bit 8 (uint v)" by (simp only: unsigned_ucast_eq) simp
    also have "uint v = take_bit 64 (sint v)" by (simp only: uint_sint) simp
    finally show ?thesis by (simp add: take_bit_eq_mod mod_mod_cancel)
  qed
  then show ?thesis using assms by (simp add: immediate_fits_u8_def)
qed

section \<open>The stores are little-endian\<close>

lemma sdb_bytes_u64 [le_simps]:
  "[ucast v, ucast (signed_drop_bit 8 v), ucast (signed_drop_bit 16 v),
    ucast (signed_drop_bit 24 v), ucast (signed_drop_bit 32 v), ucast (signed_drop_bit 40 v),
    ucast (signed_drop_bit 48 v), ucast (signed_drop_bit 56 v)] = le_bytes 8 (v :: u64)"
  by (simp add: ucast_signed_drop_bit_u8 numeral_eq_Suc)

lemma emit_imm32_le:
  assumes "4 \<le> length buf"
  shows "emit_imm32 buf v = (le_bytes 4 v @ drop 4 buf, 4)"
proof -
  obtain a b c d rest where buf: "buf = a # b # c # d # rest"
    using assms by (auto simp: numeral_eq_Suc Suc_le_length_iff)
  show ?thesis
    unfolding emit_imm32_def buf sdb_bytes_u32 [symmetric] by simp
qed

lemma emit_imm64_le:
  assumes "8 \<le> length buf"
  shows "emit_imm64 buf v = (le_bytes 8 v @ drop 8 buf, 8)"
proof -
  obtain a b c d e f g h rest where buf: "buf = a # b # c # d # e # f # g # h # rest"
    using assms by (auto simp: numeral_eq_Suc Suc_le_length_iff)
  show ?thesis
    unfolding emit_imm64_def buf sdb_bytes_u64 [symmetric] by simp
qed

end
