(* ===== verification/Emit.thy ===== *)
theory Emit
  imports ModRM Immediate
begin

text \<open>
  The emission helpers of \<^verbatim>\<open>src/src/encoder/table.c\<close>. \<^verbatim>\<open>Buf\<close> is a 15-byte array with a
  fill count; its model is the list of the bytes written so far, and \<open>emit\<close> drops a byte when
  fifteen are present, as the C guard does. The lemmas of the second half give every helper a
  closed form: what it appends, capped at fifteen bytes.
\<close>

type_synonym buf = "u8 list"

section \<open>Emit helpers\<close>

definition empty_buf :: buf where "empty_buf = []"

definition emit :: "buf \<Rightarrow> u8 \<Rightarrow> buf" where
  "emit b byte = (if length b < MAX_INSTRUCTION_BYTES then b @ [byte] else b)"

definition rex_r :: "RegId \<Rightarrow> bool" where "rex_r r \<longleftrightarrow> reg_needs_rex r"

definition rex_b :: "RegId \<Rightarrow> bool" where "rex_b r \<longleftrightarrow> reg_needs_rex r"

definition emit_rex :: "buf \<Rightarrow> bool \<Rightarrow> bool \<Rightarrow> bool \<Rightarrow> bool \<Rightarrow> buf" where
  "emit_rex b w r x bp = (if rex_required w r x bp then emit b (rex_byte w r x bp) else b)"

definition emit_rex_for_width :: "buf \<Rightarrow> int \<Rightarrow> RegId \<Rightarrow> RegId \<Rightarrow> buf" where
  "emit_rex_for_width b width rgf rmf =
     (let r = (rgf \<noteq> REG_INVALID \<and> rex_r rgf);
          bp = (rmf \<noteq> REG_INVALID \<and> rex_b rmf);
          force = (width = 8 \<and>
                   ((rgf \<noteq> REG_INVALID \<and> reg_requires_rex_byte rgf) \<or>
                    (rmf \<noteq> REG_INVALID \<and> reg_requires_rex_byte rmf)))
      in if force \<or> rex_required (width = 64) r False bp
         then emit b (rex_byte (width = 64) r False bp) else b)"

definition emit_width_prefix :: "buf \<Rightarrow> int \<Rightarrow> buf" where
  "emit_width_prefix b width = (if width = 16 then emit b 0x66 else b)"

definition valid_integer_width :: "int \<Rightarrow> bool" where
  "valid_integer_width width \<longleftrightarrow> width = 8 \<or> width = 16 \<or> width = 32 \<or> width = 64"

definition same_register_width :: "RegId \<Rightarrow> RegId \<Rightarrow> bool" where
  "same_register_width left right =
     (let width = reg_width_bits left
      in valid_integer_width width \<and> reg_width_bits right = width)"

definition emit_rex_for_extension :: "buf \<Rightarrow> int \<Rightarrow> RegId \<Rightarrow> RegId \<Rightarrow> buf" where
  "emit_rex_for_extension b destination_width destination source =
     (let force = (reg_width_bits source = 8 \<and> reg_requires_rex_byte source);
          r = rex_r destination;
          bp = rex_b source
      in if force \<or> rex_required (destination_width = 64) r False bp
         then emit b (rex_byte (destination_width = 64) r False bp) else b)"

definition emit32 :: "buf \<Rightarrow> i32 \<Rightarrow> buf" where
  "emit32 b v =
     emit (emit (emit (emit b (ucast v)) (ucast (signed_drop_bit 8 v)))
       (ucast (signed_drop_bit 16 v))) (ucast (signed_drop_bit 24 v))"

definition emit64 :: "buf \<Rightarrow> i64 \<Rightarrow> buf" where
  "emit64 b v = foldl (\<lambda>b i. emit b (ucast (signed_drop_bit (i * 8) v))) b [0..<8]"

definition make_error :: EncodedInstruction where
  "make_error = \<lparr>enc_bytes = [], enc_error = True, needs_reloc = False, reloc_sym = None\<rparr>"

definition from_buf :: "buf \<Rightarrow> EncodedInstruction" where
  "from_buf b = \<lparr>enc_bytes = b, enc_error = False, needs_reloc = False, reloc_sym = None\<rparr>"

section \<open>Operand helpers\<close>

definition rf :: "RegId \<Rightarrow> int" where "rf r = reg_field r"

fun operand_is_mem :: "Operand \<Rightarrow> bool" where
  "operand_is_mem (OP_MEM_REG _) = True"
| "operand_is_mem (OP_MEM_DISP _ _) = True"
| "operand_is_mem _ = False"

fun operand_disp :: "Operand \<Rightarrow> i32" where
  "operand_disp (OP_MEM_DISP _ d) = d"
| "operand_disp _ = 0"

text \<open>\<^verbatim>\<open>op->mem.base\<close>; read by the code only for the two memory kinds.\<close>

fun mem_base :: "Operand \<Rightarrow> RegId" where
  "mem_base (OP_MEM_REG base) = base"
| "mem_base (OP_MEM_DISP base _) = base"
| "mem_base _ = REG_INVALID"

section \<open>ModRM encoders\<close>

definition emit_rr :: "buf \<Rightarrow> u8 \<Rightarrow> RegId \<Rightarrow> RegId \<Rightarrow> int \<Rightarrow> buf" where
  "emit_rr b opcode dst src width =
     emit (emit (emit_rex_for_width (emit_width_prefix b width) width src dst) opcode)
       (modrm_byte 3 (rf src) (rf dst))"

definition emit_mem_address :: "buf \<Rightarrow> int \<Rightarrow> RegId \<Rightarrow> i32 \<Rightarrow> buf" where
  "emit_mem_address b modrm_reg base disp =
     (let need_sib = (rf base = 4);
          rm_field = (if need_sib then 4 else rf base);
          sib = (\<lambda>b. if need_sib then emit b (sib_byte 0 4 (rf base)) else b)
      in if disp = 0 \<and> rf base \<noteq> 5 then
           sib (emit b (modrm_byte 0 modrm_reg rm_field))
         else if - 128 \<le> sint disp \<and> sint disp \<le> 127 then
           emit (sib (emit b (modrm_byte 1 modrm_reg rm_field))) (ucast disp)
         else
           emit32 (sib (emit b (modrm_byte 2 modrm_reg rm_field))) disp)"

definition emit_mem :: "buf \<Rightarrow> u8 \<Rightarrow> RegId \<Rightarrow> RegId \<Rightarrow> i32 \<Rightarrow> int \<Rightarrow> buf" where
  "emit_mem b opcode rgf base disp width =
     emit_mem_address
       (emit (emit_rex_for_width (emit_width_prefix b width) width rgf base) opcode)
       (rf rgf) base disp"

definition emit_rip_relative_mem :: "buf \<Rightarrow> u8 \<Rightarrow> RegId \<Rightarrow> int \<Rightarrow> buf" where
  "emit_rip_relative_mem b opcode rgf width =
     emit32
       (emit (emit (emit_rex_for_width (emit_width_prefix b width) width rgf REG_INVALID) opcode)
         (modrm_byte 0 (rf rgf) 5)) 0"

section \<open>Closed forms\<close>

text \<open>A buffer filled from the list \<open>xs\<close> holds its first fifteen bytes.\<close>

definition capped :: "u8 list \<Rightarrow> buf" where
  "capped xs = take MAX_INSTRUCTION_BYTES xs"

lemma empty_buf_capped [emit_simps]: "empty_buf = capped []"
  by (simp add: empty_buf_def capped_def)

lemma emit_capped [emit_simps]: "emit (capped xs) b = capped (xs @ [b])"
  by (auto simp: emit_def capped_def min_def)

lemma capped_id: "length xs \<le> MAX_INSTRUCTION_BYTES \<Longrightarrow> capped xs = xs"
  by (simp add: capped_def)

text \<open>What each helper appends.\<close>

definition prefix_bytes :: "int \<Rightarrow> u8 list" where
  "prefix_bytes width = (if width = 16 then [0x66] else [])"

definition opt_rex :: "bool \<Rightarrow> u8 \<Rightarrow> u8 list" where
  "opt_rex c b = (if c then [b] else [])"

definition rex_bytes :: "int \<Rightarrow> RegId \<Rightarrow> RegId \<Rightarrow> u8 list" where
  "rex_bytes width rgf rmf =
     opt_rex (width = 8 \<and> (reg_requires_rex_byte rgf \<or> reg_requires_rex_byte rmf)
              \<or> rex_required (width = 64) (reg_needs_rex rgf) False (reg_needs_rex rmf))
       (rex_byte (width = 64) (reg_needs_rex rgf) False (reg_needs_rex rmf))"

definition mem_bytes :: "int \<Rightarrow> RegId \<Rightarrow> i32 \<Rightarrow> u8 list" where
  "mem_bytes rg base disp =
     (let md = (if disp = 0 \<and> rf base \<noteq> 5 then 0
                else if - 128 \<le> sint disp \<and> sint disp \<le> 127 then 1 else 2)
      in [modrm_byte md rg (rf base)]
         @ (if rf base = 4 then [sib_byte 0 4 4] else [])
         @ (if md = 0 then [] else if md = 1 then [ucast disp] else le_bytes 4 disp))"

lemma emit_width_prefix_capped [emit_simps]:
  "emit_width_prefix (capped xs) w = capped (xs @ prefix_bytes w)"
  by (simp add: emit_width_prefix_def prefix_bytes_def emit_simps)

lemma emit_rex_capped [emit_simps]:
  "emit_rex (capped xs) w r x b
     = capped (xs @ opt_rex (rex_required w r x b) (rex_byte w r x b))"
  by (simp add: emit_rex_def opt_rex_def emit_simps)

lemma requires_rex_invalid [simp]: "\<not> reg_requires_rex_byte REG_INVALID"
  by (simp add: reg_requires_rex_byte_def reg_simps)

lemma emit_rex_for_width_capped [emit_simps]:
  "emit_rex_for_width (capped xs) w rgf rmf = capped (xs @ rex_bytes w rgf rmf)"
proof -
  have "(r \<noteq> REG_INVALID \<and> rex_r r) = reg_needs_rex r"
    "(r \<noteq> REG_INVALID \<and> rex_b r) = reg_needs_rex r"
    "(r \<noteq> REG_INVALID \<and> reg_requires_rex_byte r) = reg_requires_rex_byte r" for r
    by (auto simp: rex_r_def rex_b_def reg_simps)
  then show ?thesis
    by (simp only: emit_rex_for_width_def rex_bytes_def Let_def opt_rex_def)
      (auto simp: emit_simps)
qed

lemma emit_rex_for_extension_capped [emit_simps]:
  "emit_rex_for_extension (capped xs) w d s =
     capped (xs @ opt_rex (reg_requires_rex_byte s
                           \<or> rex_required (w = 64) (reg_needs_rex d) False (reg_needs_rex s))
                    (rex_byte (w = 64) (reg_needs_rex d) False (reg_needs_rex s)))"
  by (auto simp: emit_rex_for_extension_def Let_def opt_rex_def emit_simps rex_r_def rex_b_def
      reg_requires_rex_byte_def)

lemma emit32_capped [emit_simps]: "emit32 (capped xs) v = capped (xs @ le_bytes 4 v)"
  by (simp add: emit32_def emit_simps flip: sdb_bytes_u32)

lemma emit64_capped [emit_simps]: "emit64 (capped xs) v = capped (xs @ le_bytes 8 v)"
  by (simp add: emit64_def emit_simps upt_rec flip: sdb_bytes_u64)

lemma emit_mem_address_capped [emit_simps]:
  "emit_mem_address (capped xs) rg base disp = capped (xs @ mem_bytes rg base disp)"
  by (simp add: emit_mem_address_def mem_bytes_def Let_def emit_simps)

lemma emit_rr_capped [emit_simps]:
  "emit_rr (capped xs) opc dst src w =
     capped (xs @ prefix_bytes w @ rex_bytes w src dst @ [opc, modrm_byte 3 (rf src) (rf dst)])"
  by (simp add: emit_rr_def emit_simps)

lemma emit_mem_capped [emit_simps]:
  "emit_mem (capped xs) opc rgf base disp w =
     capped (xs @ prefix_bytes w @ rex_bytes w rgf base @ [opc] @ mem_bytes (rf rgf) base disp)"
  by (simp add: emit_mem_def emit_simps)

lemma emit_rip_relative_mem_capped [emit_simps]:
  "emit_rip_relative_mem (capped xs) opc rgf w =
     capped (xs @ prefix_bytes w @ rex_bytes w rgf REG_INVALID @
             [opc, modrm_byte 0 (rf rgf) 5] @ le_bytes 4 (0 :: i32))"
  by (simp add: emit_rip_relative_mem_def emit_simps)

lemma length_prefix_bytes: "length (prefix_bytes w) \<le> 1"
  by (simp add: prefix_bytes_def)

lemma length_opt_rex: "length (opt_rex c b) \<le> 1"
  by (simp add: opt_rex_def)

lemma length_rex_bytes: "length (rex_bytes w r m) \<le> 1"
  unfolding rex_bytes_def by (rule length_opt_rex)

lemma length_mem_bytes: "length (mem_bytes rg base disp) \<le> 6"
  by (simp add: mem_bytes_def Let_def)

end
