(* ===== verification/Encoder_Families.thy ===== *)
theory Encoder_Families
  imports Emit
begin

text \<open>
  The instruction-family encoders \<^verbatim>\<open>enc_*\<close> of \<^verbatim>\<open>src/src/encoder/table.c\<close>. The operand array
  and its count are a list, so \<^verbatim>\<open>n != 2\<close> is the failed list pattern; the tests on operand kinds
  are case distinctions in the order of the source, and every early return is a branch.
\<close>

section \<open>Range tests of the immediates\<close>

definition out_of_range8 :: "i64 \<Rightarrow> bool" where
  "out_of_range8 v \<longleftrightarrow> sint v < - 128 \<or> sint v > 255"

definition out_of_range16 :: "i64 \<Rightarrow> bool" where
  "out_of_range16 v \<longleftrightarrow> sint v < - 32768 \<or> sint v > 65535"

definition out_of_range32 :: "i64 \<Rightarrow> bool" where
  "out_of_range32 v \<longleftrightarrow> sint v < - (2 ^ 31) \<or> (sint v \<ge> 0 \<and> uint v > 2 ^ 32 - 1)"

section \<open>MOV\<close>

definition enc_mov_imm :: "RegId \<Rightarrow> i64 \<Rightarrow> EncodedInstruction" where
  "enc_mov_imm d v =
     (let width = reg_width_bits d; b = empty_buf in
      if \<not> valid_integer_width width then make_error
      else if width = 8 then
        if out_of_range8 v then make_error
        else from_buf (emit (emit (emit_rex_for_width b width REG_INVALID d)
               (word_of_int (0xB0 + rf d))) (ucast v))
      else if width = 16 then
        if out_of_range16 v then make_error
        else from_buf (emit (emit (emit (emit_rex_for_width (emit_width_prefix b width)
               width REG_INVALID d) (word_of_int (0xB8 + rf d))) (ucast v))
               (ucast (signed_drop_bit 8 v)))
      else if width = 32 then
        if out_of_range32 v then make_error
        else from_buf (emit32 (emit (emit_rex_for_width b width REG_INVALID d)
               (word_of_int (0xB8 + rf d))) (ucast v))
      else if immediate_fits_i32 v then
        from_buf (emit32 (emit (emit (emit_rex_for_width b width REG_INVALID d) 0xC7)
               (modrm_byte 3 0 (rf d))) (ucast v))
      else
        from_buf (emit64 (emit (emit_rex_for_width b width REG_INVALID d)
               (word_of_int (0xB8 + rf d))) v))"

definition enc_mov_reg_mem :: "RegId \<Rightarrow> Operand \<Rightarrow> EncodedInstruction" where
  "enc_mov_reg_mem d src =
     (let width = reg_width_bits d in
      if \<not> valid_integer_width width \<or> reg_width_bits (mem_base src) \<noteq> 64 then make_error
      else from_buf (emit_mem empty_buf (if width = 8 then 0x8A else 0x8B)
             d (mem_base src) (operand_disp src) width))"

definition enc_mov_mem_reg :: "Operand \<Rightarrow> RegId \<Rightarrow> EncodedInstruction" where
  "enc_mov_mem_reg dst s =
     (let width = reg_width_bits s in
      if \<not> valid_integer_width width \<or> reg_width_bits (mem_base dst) \<noteq> 64 then make_error
      else from_buf (emit_mem empty_buf (if width = 8 then 0x88 else 0x89)
             s (mem_base dst) (operand_disp dst) width))"

definition enc_mov :: "Operand list \<Rightarrow> EncodedInstruction" where
  "enc_mov ops = (case ops of [dst, src] \<Rightarrow>
     (case (dst, src) of
        (OP_REG d, OP_IMM v) \<Rightarrow> enc_mov_imm d v
      | (OP_REG d, OP_LABEL _) \<Rightarrow>
          if reg_width_bits d \<noteq> 64 then make_error
          else from_buf (emit64 (emit (emit_rex_for_width empty_buf 64 REG_INVALID d)
                 (word_of_int (0xB8 + rf d))) 0)
      | (OP_REG d, OP_REG s) \<Rightarrow>
          if \<not> same_register_width d s then make_error
          else (let width = reg_width_bits d in
                from_buf (emit_rr empty_buf (if width = 8 then 0x88 else 0x89) d s width))
      | (OP_REG d, OP_MEM_REG _) \<Rightarrow> enc_mov_reg_mem d src
      | (OP_REG d, OP_MEM_DISP _ _) \<Rightarrow> enc_mov_reg_mem d src
      | (OP_REG d, OP_MEM_RIP_LABEL _) \<Rightarrow>
          (let width = reg_width_bits d in
           if \<not> valid_integer_width width then make_error
           else from_buf (emit_rip_relative_mem empty_buf
                  (if width = 8 then 0x8A else 0x8B) d width))
      | (OP_MEM_REG _, OP_REG s) \<Rightarrow> enc_mov_mem_reg dst s
      | (OP_MEM_DISP _ _, OP_REG s) \<Rightarrow> enc_mov_mem_reg dst s
      | (OP_MEM_RIP_LABEL _, OP_REG s) \<Rightarrow>
          (let width = reg_width_bits s in
           if \<not> valid_integer_width width then make_error
           else from_buf (emit_rip_relative_mem empty_buf
                  (if width = 8 then 0x88 else 0x89) s width))
      | _ \<Rightarrow> make_error)
   | _ \<Rightarrow> make_error)"

section \<open>MOVZX and MOVSX\<close>

definition movx_supported :: "int \<Rightarrow> int \<Rightarrow> bool \<Rightarrow> bool" where
  "movx_supported destination_width source_width sign_extend \<longleftrightarrow>
     source_width = 8 \<and> (destination_width = 16 \<or> destination_width = 32 \<or> destination_width = 64)
     \<or> source_width = 16 \<and> (destination_width = 32 \<or> destination_width = 64)
     \<or> sign_extend \<and> source_width = 32 \<and> destination_width = 64"

definition enc_movx :: "Operand list \<Rightarrow> bool \<Rightarrow> EncodedInstruction" where
  "enc_movx ops sign_extend = (case ops of [OP_REG d, OP_REG s] \<Rightarrow>
     (let destination_width = reg_width_bits d; source_width = reg_width_bits s in
      if \<not> movx_supported destination_width source_width sign_extend then make_error
      else
        (let b = emit_rex_for_extension (emit_width_prefix empty_buf destination_width)
                   destination_width d s;
             b = (if sign_extend \<and> source_width = 32 then emit b 0x63
                  else if source_width = 8
                       then emit (emit b 0x0F) (if sign_extend then 0xBE else 0xB6)
                       else emit (emit b 0x0F) (if sign_extend then 0xBF else 0xB7))
         in from_buf (emit b (modrm_byte 3 (rf d) (rf s)))))
   | _ \<Rightarrow> make_error)"

section \<open>PUSH and POP\<close>

definition enc_push :: "Operand list \<Rightarrow> EncodedInstruction" where
  "enc_push ops = (case ops of [OP_REG r] \<Rightarrow>
     if reg_width_bits r \<noteq> 64 then make_error
     else from_buf (emit
            (if rex_b r then emit empty_buf (rex_byte False False False True) else empty_buf)
            (word_of_int (0x50 + rf r)))
   | _ \<Rightarrow> make_error)"

definition enc_pop :: "Operand list \<Rightarrow> EncodedInstruction" where
  "enc_pop ops = (case ops of [OP_REG r] \<Rightarrow>
     if reg_width_bits r \<noteq> 64 then make_error
     else from_buf (emit
            (if rex_b r then emit empty_buf (rex_byte False False False True) else empty_buf)
            (word_of_int (0x58 + rf r)))
   | _ \<Rightarrow> make_error)"

section \<open>ADD, SUB, AND, OR, XOR, CMP\<close>

text \<open>The width-dependent rejection of an immediate, shared by ALU, TEST and IMUL.\<close>

definition imm_rejected :: "int \<Rightarrow> i64 \<Rightarrow> bool" where
  "imm_rejected width v \<longleftrightarrow>
     width = 64 \<and> \<not> immediate_fits_i32 v
     \<or> width = 32 \<and> out_of_range32 v
     \<or> width = 16 \<and> out_of_range16 v
     \<or> width = 8 \<and> out_of_range8 v"

definition enc_alu_imm :: "RegId \<Rightarrow> i64 \<Rightarrow> u8 \<Rightarrow> EncodedInstruction" where
  "enc_alu_imm d v ri_ext =
     (let width = reg_width_bits d in
      if \<not> valid_integer_width width then make_error
      else if imm_rejected width v then make_error
      else
        (let b = emit_rex_for_width (emit_width_prefix empty_buf width) width REG_INVALID d;
             m = modrm_byte 3 (uint ri_ext) (rf d)
         in if width = 8 then from_buf (emit (emit (emit b 0x80) m) (ucast v))
            else if immediate_fits_i8 v then from_buf (emit (emit (emit b 0x83) m) (ucast v))
            else if width = 16 then
              from_buf (emit (emit (emit (emit b 0x81) m) (ucast v)) (ucast (signed_drop_bit 8 v)))
            else from_buf (emit32 (emit (emit b 0x81) m) (ucast v))))"

definition enc_alu_mem :: "RegId \<Rightarrow> Operand \<Rightarrow> u8 \<Rightarrow> EncodedInstruction" where
  "enc_alu_mem d src op_rr =
     (let width = reg_width_bits d in
      if \<not> valid_integer_width width \<or> reg_width_bits (mem_base src) \<noteq> 64 then make_error
      else
        (let store_opcode = (if width = 8 then op_rr - 1 else op_rr)
         in from_buf (emit_mem empty_buf (store_opcode + 2) d (mem_base src)
              (operand_disp src) width)))"

definition enc_alu :: "Operand list \<Rightarrow> u8 \<Rightarrow> u8 \<Rightarrow> EncodedInstruction" where
  "enc_alu ops op_rr ri_ext = (case ops of [dst, src] \<Rightarrow>
     (case (dst, src) of
        (OP_REG d, OP_REG s) \<Rightarrow>
          if \<not> same_register_width d s then make_error
          else (let width = reg_width_bits d in
                from_buf (emit_rr empty_buf (if width = 8 then op_rr - 1 else op_rr) d s width))
      | (OP_REG d, OP_IMM v) \<Rightarrow> enc_alu_imm d v ri_ext
      | (OP_REG d, OP_MEM_REG _) \<Rightarrow> enc_alu_mem d src op_rr
      | (OP_REG d, OP_MEM_DISP _ _) \<Rightarrow> enc_alu_mem d src op_rr
      | _ \<Rightarrow> make_error)
   | _ \<Rightarrow> make_error)"

section \<open>INC, DEC, NEG, NOT\<close>

definition enc_unary :: "Operand list \<Rightarrow> u8 \<Rightarrow> EncodedInstruction" where
  "enc_unary ops ext = (case ops of [OP_REG r] \<Rightarrow>
     (let width = reg_width_bits r in
      if \<not> valid_integer_width width then make_error
      else
        (let b = emit (emit_rex_for_width (emit_width_prefix empty_buf width) width
                   REG_INVALID r) (if width = 8 then 0xFE else 0xFF)
         in if ext = 0 \<or> ext = 1 then from_buf (emit b (modrm_byte 3 (uint ext) (rf r)))
            else
              (let b = empty_buf;
                   b = emit (emit_rex_for_width (emit_width_prefix b width) width
                         REG_INVALID r) (if width = 8 then 0xF6 else 0xF7)
               in from_buf (emit b (modrm_byte 3 (uint ext) (rf r))))))
   | _ \<Rightarrow> make_error)"

section \<open>IMUL, IDIV, DIV, CQO\<close>

definition enc_imul2 :: "RegId \<Rightarrow> Operand \<Rightarrow> EncodedInstruction" where
  "enc_imul2 d src =
     (let width = reg_width_bits d in
      if width = 8 then make_error
      else if \<not> valid_integer_width width then make_error
      else (case src of
        OP_REG s \<Rightarrow>
          if \<not> same_register_width d s then make_error
          else from_buf (emit (emit (emit (emit_rex_for_width
                 (emit_width_prefix empty_buf width) width d s) 0x0F) 0xAF)
                 (modrm_byte 3 (rf d) (rf s)))
      | _ \<Rightarrow>
          if reg_width_bits (mem_base src) \<noteq> 64 then make_error
          else from_buf (emit_mem_address (emit (emit (emit_rex_for_width
                 (emit_width_prefix empty_buf width) width d (mem_base src)) 0x0F) 0xAF)
                 (rf d) (mem_base src) (operand_disp src))))"

definition enc_imul3 :: "RegId \<Rightarrow> RegId \<Rightarrow> i64 \<Rightarrow> EncodedInstruction" where
  "enc_imul3 d s v =
     (if \<not> same_register_width d s then make_error
      else
        (let width = reg_width_bits d in
         if width = 8 then make_error
         else if imm_rejected width v then make_error
         else
           (let b = emit_rex_for_width (emit_width_prefix empty_buf width) width d s;
                m = modrm_byte 3 (rf d) (rf s)
            in if immediate_fits_i8 v then from_buf (emit (emit (emit b 0x6B) m) (ucast v))
               else if width = 16 then
                 from_buf (emit (emit (emit (emit b 0x69) m) (ucast v))
                   (ucast (signed_drop_bit 8 v)))
               else from_buf (emit32 (emit (emit b 0x69) m) (ucast v)))))"

definition enc_imul :: "Operand list \<Rightarrow> EncodedInstruction" where
  "enc_imul ops = (case ops of
     [OP_REG d, src] \<Rightarrow>
       (case src of
          OP_REG _ \<Rightarrow> enc_imul2 d src
        | OP_MEM_REG _ \<Rightarrow> enc_imul2 d src
        | OP_MEM_DISP _ _ \<Rightarrow> enc_imul2 d src
        | _ \<Rightarrow> make_error)
   | [OP_REG d, OP_REG s, OP_IMM v] \<Rightarrow> enc_imul3 d s v
   | _ \<Rightarrow> make_error)"

definition enc_divide :: "Operand list \<Rightarrow> u8 \<Rightarrow> EncodedInstruction" where
  "enc_divide ops ext = (case ops of [OP_REG r] \<Rightarrow>
     (let width = reg_width_bits r in
      if \<not> valid_integer_width width then make_error
      else from_buf (emit (emit (emit_rex_for_width (emit_width_prefix empty_buf width) width
             REG_INVALID r) (if width = 8 then 0xF6 else 0xF7))
             (modrm_byte 3 (uint ext) (rf r))))
   | _ \<Rightarrow> make_error)"

definition enc_idiv :: "Operand list \<Rightarrow> EncodedInstruction" where
  "enc_idiv ops = enc_divide ops 7"

definition enc_div :: "Operand list \<Rightarrow> EncodedInstruction" where
  "enc_div ops = enc_divide ops 6"

definition enc_cqo :: "Operand list \<Rightarrow> EncodedInstruction" where
  "enc_cqo ops = (if length ops \<noteq> 0 then make_error
                  else from_buf (emit (emit empty_buf 0x48) 0x99))"

section \<open>SHL, SHR, SAR\<close>

definition enc_shift :: "Operand list \<Rightarrow> u8 \<Rightarrow> EncodedInstruction" where
  "enc_shift ops ext = (case ops of [OP_REG r, count] \<Rightarrow>
     (let width = reg_width_bits r in
      if \<not> valid_integer_width width then make_error
      else
        (let b = emit_rex_for_width (emit_width_prefix empty_buf width) width REG_INVALID r;
             m = modrm_byte 3 (uint ext) (rf r)
         in (case count of
               OP_IMM v \<Rightarrow>
                 if \<not> immediate_fits_u8 v then make_error
                 else if v = 1 then from_buf (emit (emit b (if width = 8 then 0xD0 else 0xD1)) m)
                 else from_buf (emit (emit (emit b (if width = 8 then 0xC0 else 0xC1)) m) (ucast v))
             | OP_REG c \<Rightarrow>
                 if c = REG_CL \<or> c = REG_RCX
                 then from_buf (emit (emit b (if width = 8 then 0xD2 else 0xD3)) m)
                 else make_error
             | _ \<Rightarrow> make_error)))
   | _ \<Rightarrow> make_error)"

section \<open>TEST and SETcc\<close>

definition enc_test_imm :: "RegId \<Rightarrow> i64 \<Rightarrow> EncodedInstruction" where
  "enc_test_imm d v =
     (let width = reg_width_bits d in
      if \<not> valid_integer_width width then make_error
      else if imm_rejected width v then make_error
      else
        (let b = emit (emit (emit_rex_for_width (emit_width_prefix empty_buf width) width
                   REG_INVALID d) (if width = 8 then 0xF6 else 0xF7)) (modrm_byte 3 0 (rf d))
         in if width = 8 then from_buf (emit b (ucast v))
            else if width = 16 then
              from_buf (emit (emit b (ucast v)) (ucast (signed_drop_bit 8 v)))
            else from_buf (emit32 b (ucast v))))"

definition enc_test :: "Operand list \<Rightarrow> EncodedInstruction" where
  "enc_test ops = (case ops of
     [OP_REG d, OP_REG s] \<Rightarrow>
       if \<not> same_register_width d s then make_error
       else (let width = reg_width_bits d in
             from_buf (emit_rr empty_buf (if width = 8 then 0x84 else 0x85) d s width))
   | [OP_REG d, OP_IMM v] \<Rightarrow> enc_test_imm d v
   | _ \<Rightarrow> make_error)"

definition enc_setcc :: "Operand list \<Rightarrow> u8 \<Rightarrow> EncodedInstruction" where
  "enc_setcc ops opcode2 = (case ops of
     [dst] \<Rightarrow>
       (case dst of
          OP_REG r \<Rightarrow>
            if reg_width_bits r \<noteq> 8 then make_error
            else from_buf (emit (emit (emit (emit_rex_for_width empty_buf 8 REG_INVALID r)
                   0x0F) opcode2) (modrm_byte 3 0 (rf r)))
        | _ \<Rightarrow>
            if operand_is_mem dst then
              (if reg_width_bits (mem_base dst) \<noteq> 64 then make_error
               else from_buf (emit_mem_address (emit (emit
                      (emit_rex_for_width empty_buf 8 REG_INVALID (mem_base dst)) 0x0F) opcode2)
                      0 (mem_base dst) (operand_disp dst)))
            else make_error)
   | _ \<Rightarrow> make_error)"

section \<open>Control flow\<close>

text \<open>JMP and CALL differ in the register form's /digit and the relative form's opcode.\<close>

definition enc_jmp :: "Operand list \<Rightarrow> i64 \<Rightarrow> EncodedInstruction" where
  "enc_jmp ops resolved_disp = (case ops of
     [OP_REG r] \<Rightarrow>
       if reg_width_bits r \<noteq> 64 then make_error
       else from_buf (emit (emit (emit_rex empty_buf False False False (rex_b r)) 0xFF)
              (modrm_byte 3 4 (rf r)))
   | [OP_LABEL _] \<Rightarrow>
       if \<not> immediate_fits_i32 resolved_disp then make_error
       else from_buf (emit32 (emit empty_buf 0xE9) (ucast resolved_disp))
   | _ \<Rightarrow> make_error)"

definition enc_call :: "Operand list \<Rightarrow> i64 \<Rightarrow> EncodedInstruction" where
  "enc_call ops resolved_disp = (case ops of
     [OP_REG r] \<Rightarrow>
       if reg_width_bits r \<noteq> 64 then make_error
       else from_buf (emit (emit (emit_rex empty_buf False False False (rex_b r)) 0xFF)
              (modrm_byte 3 2 (rf r)))
   | [OP_LABEL _] \<Rightarrow>
       if \<not> immediate_fits_i32 resolved_disp then make_error
       else from_buf (emit32 (emit empty_buf 0xE8) (ucast resolved_disp))
   | _ \<Rightarrow> make_error)"

definition enc_jcc :: "Operand list \<Rightarrow> i64 \<Rightarrow> u8 \<Rightarrow> EncodedInstruction" where
  "enc_jcc ops disp opcode2 = (case ops of
     [OP_LABEL _] \<Rightarrow>
       if \<not> immediate_fits_i32 disp then make_error
       else from_buf (emit32 (emit (emit empty_buf 0x0F) opcode2) (ucast disp))
   | _ \<Rightarrow> make_error)"

definition enc_ret :: EncodedInstruction where
  "enc_ret = from_buf (emit empty_buf 0xC3)"

section \<open>System instructions\<close>

definition enc_nop :: EncodedInstruction where
  "enc_nop = from_buf (emit empty_buf 0x90)"

definition enc_rdtsc :: EncodedInstruction where
  "enc_rdtsc = from_buf (emit (emit empty_buf 0x0F) 0x31)"

definition enc_hlt :: EncodedInstruction where
  "enc_hlt = from_buf (emit empty_buf 0xF4)"

definition enc_syscall :: EncodedInstruction where
  "enc_syscall = from_buf (emit (emit empty_buf 0x0F) 0x05)"

definition enc_int :: "Operand list \<Rightarrow> EncodedInstruction" where
  "enc_int ops = (case ops of
     [OP_IMM v] \<Rightarrow>
       if \<not> immediate_fits_u8 v then make_error
       else from_buf (emit (emit empty_buf 0xCD) (ucast v))
   | _ \<Rightarrow> make_error)"

section \<open>LEA\<close>

definition enc_lea :: "Operand list \<Rightarrow> EncodedInstruction" where
  "enc_lea ops = (case ops of
     [OP_REG d, src] \<Rightarrow>
       (case src of
          OP_MEM_RIP_LABEL _ \<Rightarrow>
            if reg_width_bits d \<noteq> 64 then make_error
            else from_buf (emit_rip_relative_mem empty_buf 0x8D d 64)
        | _ \<Rightarrow>
            if \<not> operand_is_mem src then make_error
            else if reg_width_bits d \<noteq> 64 \<or> reg_width_bits (mem_base src) \<noteq> 64 then make_error
            else from_buf (emit_mem empty_buf 0x8D d (mem_base src) (operand_disp src) 64))
   | _ \<Rightarrow> make_error)"

end
