(* ===== verification/Sse2.thy ===== *)
theory Sse2
  imports Emit
begin

text \<open>
  The scalar SSE2 encoders: \<^verbatim>\<open>src/src/encoder/sse2.c\<close>. The file has its own buffer and
  emission helpers; they are modelled as written and shown equal to those of \<^verbatim>\<open>table.c\<close>.
\<close>

section \<open>Buffer and helpers\<close>

definition sse_emit :: "buf \<Rightarrow> u8 \<Rightarrow> buf" where
  "sse_emit buffer byte = (if length buffer < MAX_INSTRUCTION_BYTES then buffer @ [byte] else buffer)"

definition sse_emit32 :: "buf \<Rightarrow> i32 \<Rightarrow> buf" where
  "sse_emit32 buffer value =
     sse_emit (sse_emit (sse_emit (sse_emit buffer (ucast value)) (ucast (signed_drop_bit 8 value)))
       (ucast (signed_drop_bit 16 value))) (ucast (signed_drop_bit 24 value))"

definition sse_error :: EncodedInstruction where
  "sse_error = \<lparr>enc_bytes = [], enc_error = True, needs_reloc = False, reloc_sym = None\<rparr>"

definition sse_result :: "buf \<Rightarrow> EncodedInstruction" where
  "sse_result buffer =
     \<lparr>enc_bytes = buffer, enc_error = False, needs_reloc = False, reloc_sym = None\<rparr>"

fun operand_is_memory :: "Operand \<Rightarrow> bool" where
  "operand_is_memory (OP_MEM_REG _) = True"
| "operand_is_memory (OP_MEM_DISP _ _) = True"
| "operand_is_memory _ = False"

fun operand_displacement :: "Operand \<Rightarrow> i32" where
  "operand_displacement (OP_MEM_DISP _ d) = d"
| "operand_displacement _ = 0"

definition emit_rex_if_needed :: "buf \<Rightarrow> bool \<Rightarrow> RegId \<Rightarrow> RegId \<Rightarrow> buf" where
  "emit_rex_if_needed buffer width64 rgf rmf =
     (let rex_r = (rgf \<noteq> REG_INVALID \<and> reg_needs_rex rgf);
          rex_b = (rmf \<noteq> REG_INVALID \<and> reg_needs_rex rmf)
      in if rex_required width64 rex_r False rex_b
         then sse_emit buffer (rex_byte width64 rex_r False rex_b) else buffer)"

definition emit_memory_address :: "buf \<Rightarrow> int \<Rightarrow> RegId \<Rightarrow> i32 \<Rightarrow> buf" where
  "emit_memory_address buffer modrm_reg base displacement =
     (let base_field = reg_field base;
          needs_sib = (base_field = 4);
          rm_field = (if needs_sib then 4 else base_field);
          sib = (\<lambda>b. if needs_sib then sse_emit b (sib_byte 0 4 base_field) else b)
      in if displacement = 0 \<and> base_field \<noteq> 5 then
           sib (sse_emit buffer (modrm_byte 0 modrm_reg rm_field))
         else if - 128 \<le> sint displacement \<and> sint displacement \<le> 127 then
           sse_emit (sib (sse_emit buffer (modrm_byte 1 modrm_reg rm_field))) (ucast displacement)
         else
           sse_emit32 (sib (sse_emit buffer (modrm_byte 2 modrm_reg rm_field))) displacement)"

definition valid_memory_base :: "Operand \<Rightarrow> bool" where
  "valid_memory_base operand \<longleftrightarrow>
     operand_is_memory operand \<and> reg_is_gpr (mem_base operand)
     \<and> reg_width_bits (mem_base operand) = 64"

section \<open>Moves\<close>

text \<open>\<open>ops\<close> of length 0 stands for the \<^verbatim>\<open>NULL\<close> and \<^verbatim>\<open>op_count <= 0\<close> cases.\<close>

definition sse2_operands_use_xmm :: "Operand list \<Rightarrow> bool" where
  "sse2_operands_use_xmm ops =
     list_ex (\<lambda>opd. case opd of OP_REG r \<Rightarrow> reg_is_xmm r | _ \<Rightarrow> False) ops"

fun is_xmm_operand :: "Operand \<Rightarrow> bool" where
  "is_xmm_operand (OP_REG r) = reg_is_xmm r"
| "is_xmm_operand _ = False"

fun is_gpr64_operand :: "Operand \<Rightarrow> bool" where
  "is_gpr64_operand (OP_REG r) = (reg_is_gpr r \<and> reg_width_bits r = 64)"
| "is_gpr64_operand _ = False"

fun op_reg :: "Operand \<Rightarrow> RegId" where
  "op_reg (OP_REG r) = r"
| "op_reg _ = REG_INVALID"

definition sse2_encode_move :: "Operand list \<Rightarrow> EncodedInstruction" where
  "sse2_encode_move ops = (case ops of [destination, source] \<Rightarrow>
     (if is_xmm_operand destination \<and> is_xmm_operand source then
        sse_result (sse_emit (sse_emit (sse_emit (emit_rex_if_needed (sse_emit empty_buf 0xF3) False
          (op_reg destination) (op_reg source)) 0x0F) 0x7E)
          (modrm_byte 3 (reg_field (op_reg destination)) (reg_field (op_reg source))))
      else if is_xmm_operand destination \<and> is_gpr64_operand source then
        sse_result (sse_emit (sse_emit (sse_emit (emit_rex_if_needed (sse_emit empty_buf 0x66) True
          (op_reg destination) (op_reg source)) 0x0F) 0x6E)
          (modrm_byte 3 (reg_field (op_reg destination)) (reg_field (op_reg source))))
      else if is_xmm_operand destination \<and> valid_memory_base source then
        sse_result (emit_memory_address (sse_emit (sse_emit (emit_rex_if_needed (sse_emit empty_buf 0xF3)
          False (op_reg destination) (mem_base source)) 0x0F) 0x7E)
          (reg_field (op_reg destination)) (mem_base source) (operand_displacement source))
      else if is_gpr64_operand destination \<and> is_xmm_operand source then
        sse_result (sse_emit (sse_emit (sse_emit (emit_rex_if_needed (sse_emit empty_buf 0x66) True
          (op_reg source) (op_reg destination)) 0x0F) 0x7E)
          (modrm_byte 3 (reg_field (op_reg source)) (reg_field (op_reg destination))))
      else if valid_memory_base destination \<and> is_xmm_operand source then
        sse_result (emit_memory_address (sse_emit (sse_emit (emit_rex_if_needed (sse_emit empty_buf 0x66)
          False (op_reg source) (mem_base destination)) 0x0F) 0xD6)
          (reg_field (op_reg source)) (mem_base destination) (operand_displacement destination))
      else sse_error)
   | _ \<Rightarrow> sse_error)"

section \<open>Arithmetic and conversions\<close>

definition encode_xmm_binary :: "Operand list \<Rightarrow> u8 \<Rightarrow> u8 \<Rightarrow> EncodedInstruction" where
  "encode_xmm_binary ops prefix opcode = (case ops of [OP_REG d, OP_REG s] \<Rightarrow>
     (if \<not> reg_is_xmm d \<or> \<not> reg_is_xmm s then sse_error
      else sse_result (sse_emit (sse_emit (sse_emit (emit_rex_if_needed (sse_emit empty_buf prefix) False
             d s) 0x0F) opcode) (modrm_byte 3 (reg_field d) (reg_field s))))
   | _ \<Rightarrow> sse_error)"

definition encode_cvtsi2sd :: "Operand list \<Rightarrow> EncodedInstruction" where
  "encode_cvtsi2sd ops = (case ops of [OP_REG d, OP_REG s] \<Rightarrow>
     (if \<not> reg_is_xmm d \<or> \<not> reg_is_gpr s then sse_error
      else (let source_width = reg_width_bits s in
        if source_width \<noteq> 32 \<and> source_width \<noteq> 64 then sse_error
        else sse_result (sse_emit (sse_emit (sse_emit (emit_rex_if_needed (sse_emit empty_buf 0xF2)
               (source_width = 64) d s) 0x0F) 0x2A) (modrm_byte 3 (reg_field d) (reg_field s)))))
   | _ \<Rightarrow> sse_error)"

definition encode_cvttsd2si :: "Operand list \<Rightarrow> EncodedInstruction" where
  "encode_cvttsd2si ops = (case ops of [OP_REG d, OP_REG s] \<Rightarrow>
     (if \<not> reg_is_gpr d \<or> \<not> reg_is_xmm s then sse_error
      else (let destination_width = reg_width_bits d in
        if destination_width \<noteq> 32 \<and> destination_width \<noteq> 64 then sse_error
        else sse_result (sse_emit (sse_emit (sse_emit (emit_rex_if_needed (sse_emit empty_buf 0xF2)
               (destination_width = 64) d s) 0x0F) 0x2C)
               (modrm_byte 3 (reg_field d) (reg_field s)))))
   | _ \<Rightarrow> sse_error)"

definition sse2_encode :: "OpcodeEnum \<Rightarrow> Operand list \<Rightarrow> EncodedInstruction" where
  "sse2_encode opcode ops = (case opcode of
     OPCODE_ADDSD \<Rightarrow> encode_xmm_binary ops 0xF2 0x58
   | OPCODE_SUBSD \<Rightarrow> encode_xmm_binary ops 0xF2 0x5C
   | OPCODE_MULSD \<Rightarrow> encode_xmm_binary ops 0xF2 0x59
   | OPCODE_DIVSD \<Rightarrow> encode_xmm_binary ops 0xF2 0x5E
   | OPCODE_UCOMISD \<Rightarrow> encode_xmm_binary ops 0x66 0x2E
   | OPCODE_XORPD \<Rightarrow> encode_xmm_binary ops 0x66 0x57
   | OPCODE_CVTSI2SD \<Rightarrow> encode_cvtsi2sd ops
   | OPCODE_CVTTSD2SI \<Rightarrow> encode_cvttsd2si ops
   | _ \<Rightarrow> sse_error)"

section \<open>Agreement with the helpers of table.c\<close>

lemma sse_emit_eq [emit_simps]: "sse_emit = emit"
  by (simp add: fun_eq_iff sse_emit_def emit_def)

lemma sse_emit32_eq [emit_simps]: "sse_emit32 = emit32"
  by (simp add: fun_eq_iff sse_emit32_def emit32_def sse_emit_eq)

lemma emit_memory_address_eq [emit_simps]: "emit_memory_address = emit_mem_address"
  by (simp add: fun_eq_iff emit_memory_address_def emit_mem_address_def rf_def sse_emit_eq
      sse_emit32_eq Let_def)

lemma sse_error_eq [emit_simps]: "sse_error = make_error"
  by (simp add: sse_error_def make_error_def)

lemma sse_result_eq [emit_simps]: "sse_result = from_buf"
  by (simp add: fun_eq_iff sse_result_def from_buf_def)

lemma operand_is_memory_eq [simp]: "operand_is_memory = operand_is_mem"
proof
  show "operand_is_memory x = operand_is_mem x" for x by (cases x) simp_all
qed

lemma operand_displacement_eq [simp]: "operand_displacement = operand_disp"
proof
  show "operand_displacement x = operand_disp x" for x by (cases x) simp_all
qed

lemma emit_rex_if_needed_capped [emit_simps]:
  "emit_rex_if_needed (capped xs) w rgf rmf =
     capped (xs @ opt_rex (rex_required w (reg_needs_rex rgf) False (reg_needs_rex rmf))
                    (rex_byte w (reg_needs_rex rgf) False (reg_needs_rex rmf)))"
proof -
  have "(r \<noteq> REG_INVALID \<and> reg_needs_rex r) = reg_needs_rex r" for r
    by (auto simp: reg_simps)
  then show ?thesis
    by (auto simp: emit_rex_if_needed_def Let_def opt_rex_def emit_simps)
qed

end
