(* ===== verification/Encoder.thy ===== *)
theory Encoder
  imports Encoder_Families Sse2
begin

text \<open>
  The public API of the encoder, \<^verbatim>\<open>encoder_encode\<close> (called by pass 2) and
  \<^verbatim>\<open>encoder_instruction_size\<close> (called by both passes), in \<^verbatim>\<open>src/src/encoder/table.c\<close>.
\<close>

definition encoder_encode :: "OpcodeEnum \<Rightarrow> Operand list \<Rightarrow> i64 \<Rightarrow> EncodedInstruction" where
  "encoder_encode opcode ops resolved_target = (case opcode of
     OPCODE_MOV \<Rightarrow> if sse2_operands_use_xmm ops then sse2_encode_move ops else enc_mov ops
   | OPCODE_PUSH \<Rightarrow> enc_push ops
   | OPCODE_POP \<Rightarrow> enc_pop ops
   | OPCODE_LEA \<Rightarrow> enc_lea ops
   | OPCODE_MOVZX \<Rightarrow> enc_movx ops False
   | OPCODE_MOVSX \<Rightarrow> enc_movx ops True
   | OPCODE_ADD \<Rightarrow> enc_alu ops 0x01 0
   | OPCODE_SUB \<Rightarrow> enc_alu ops 0x29 5
   | OPCODE_AND \<Rightarrow> enc_alu ops 0x21 4
   | OPCODE_OR \<Rightarrow> enc_alu ops 0x09 1
   | OPCODE_XOR \<Rightarrow> enc_alu ops 0x31 6
   | OPCODE_CMP \<Rightarrow> enc_alu ops 0x39 7
   | OPCODE_IMUL \<Rightarrow> enc_imul ops
   | OPCODE_IDIV \<Rightarrow> enc_idiv ops
   | OPCODE_DIV \<Rightarrow> enc_div ops
   | OPCODE_CQO \<Rightarrow> enc_cqo ops
   | OPCODE_INC \<Rightarrow> enc_unary ops 0
   | OPCODE_DEC \<Rightarrow> enc_unary ops 1
   | OPCODE_NEG \<Rightarrow> enc_unary ops 3
   | OPCODE_NOT \<Rightarrow> enc_unary ops 2
   | OPCODE_ADDSD \<Rightarrow> sse2_encode opcode ops
   | OPCODE_SUBSD \<Rightarrow> sse2_encode opcode ops
   | OPCODE_MULSD \<Rightarrow> sse2_encode opcode ops
   | OPCODE_DIVSD \<Rightarrow> sse2_encode opcode ops
   | OPCODE_UCOMISD \<Rightarrow> sse2_encode opcode ops
   | OPCODE_XORPD \<Rightarrow> sse2_encode opcode ops
   | OPCODE_CVTSI2SD \<Rightarrow> sse2_encode opcode ops
   | OPCODE_CVTTSD2SI \<Rightarrow> sse2_encode opcode ops
   | OPCODE_TEST \<Rightarrow> enc_test ops
   | OPCODE_SETE \<Rightarrow> enc_setcc ops 0x94
   | OPCODE_SETNE \<Rightarrow> enc_setcc ops 0x95
   | OPCODE_SETG \<Rightarrow> enc_setcc ops 0x9F
   | OPCODE_SETL \<Rightarrow> enc_setcc ops 0x9C
   | OPCODE_SETGE \<Rightarrow> enc_setcc ops 0x9D
   | OPCODE_SETLE \<Rightarrow> enc_setcc ops 0x9E
   | OPCODE_SETA \<Rightarrow> enc_setcc ops 0x97
   | OPCODE_SETB \<Rightarrow> enc_setcc ops 0x92
   | OPCODE_SETAE \<Rightarrow> enc_setcc ops 0x93
   | OPCODE_SETBE \<Rightarrow> enc_setcc ops 0x96
   | OPCODE_SETP \<Rightarrow> enc_setcc ops 0x9A
   | OPCODE_SETNP \<Rightarrow> enc_setcc ops 0x9B
   | OPCODE_SHL \<Rightarrow> enc_shift ops 4
   | OPCODE_SHR \<Rightarrow> enc_shift ops 5
   | OPCODE_SAR \<Rightarrow> enc_shift ops 7
   | OPCODE_JMP \<Rightarrow> enc_jmp ops resolved_target
   | OPCODE_CALL \<Rightarrow> enc_call ops resolved_target
   | OPCODE_RET \<Rightarrow> enc_ret
   | OPCODE_JE \<Rightarrow> enc_jcc ops resolved_target 0x84
   | OPCODE_JNE \<Rightarrow> enc_jcc ops resolved_target 0x85
   | OPCODE_JG \<Rightarrow> enc_jcc ops resolved_target 0x8F
   | OPCODE_JGE \<Rightarrow> enc_jcc ops resolved_target 0x8D
   | OPCODE_JL \<Rightarrow> enc_jcc ops resolved_target 0x8C
   | OPCODE_JLE \<Rightarrow> enc_jcc ops resolved_target 0x8E
   | OPCODE_JZ \<Rightarrow> enc_jcc ops resolved_target 0x84
   | OPCODE_JNZ \<Rightarrow> enc_jcc ops resolved_target 0x85
   | OPCODE_JS \<Rightarrow> enc_jcc ops resolved_target 0x88
   | OPCODE_JNS \<Rightarrow> enc_jcc ops resolved_target 0x89
   | OPCODE_SYSCALL \<Rightarrow> enc_syscall
   | OPCODE_NOP \<Rightarrow> enc_nop
   | OPCODE_RDTSC \<Rightarrow> enc_rdtsc
   | OPCODE_HLT \<Rightarrow> enc_hlt
   | OPCODE_INT \<Rightarrow> enc_int ops
   | _ \<Rightarrow> make_error)"

text \<open>\<^verbatim>\<open>encoded.error ? MAX_INSTRUCTION_BYTES : encoded.len\<close>\<close>

definition size_of :: "EncodedInstruction \<Rightarrow> nat" where
  "size_of encoded = (if enc_error encoded then MAX_INSTRUCTION_BYTES else enc_len encoded)"

definition size_mov :: "Operand list \<Rightarrow> nat" where
  "size_mov ops = size_of (enc_mov ops)"

definition size_alu :: "Operand list \<Rightarrow> u8 \<Rightarrow> u8 \<Rightarrow> nat" where
  "size_alu ops op_rr ri_ext = size_of (enc_alu ops op_rr ri_ext)"

definition size_shift :: "Operand list \<Rightarrow> nat" where
  "size_shift ops = size_of (enc_shift ops 4)"

text \<open>The sizes of PUSH/POP and of JMP/CALL are computed without encoding.\<close>

definition size_push_pop :: "Operand list \<Rightarrow> nat" where
  "size_push_pop ops = (case ops of
     [OP_REG r] \<Rightarrow> if reg_width_bits r \<noteq> 64 then MAX_INSTRUCTION_BYTES
                   else if reg_needs_rex r then 2 else 1
   | _ \<Rightarrow> MAX_INSTRUCTION_BYTES)"

definition size_jmp_call :: "Operand list \<Rightarrow> nat" where
  "size_jmp_call ops = (case ops of
     [OP_REG r] \<Rightarrow> if reg_width_bits r \<noteq> 64 then MAX_INSTRUCTION_BYTES
                   else if reg_needs_rex r then 3 else 2
   | _ \<Rightarrow> 5)"

definition size_int :: "Operand list \<Rightarrow> nat" where
  "size_int ops = (case ops of
     [OP_IMM v] \<Rightarrow> if immediate_fits_u8 v then 2 else MAX_INSTRUCTION_BYTES
   | _ \<Rightarrow> MAX_INSTRUCTION_BYTES)"

definition encoder_instruction_size :: "OpcodeEnum \<Rightarrow> Operand list \<Rightarrow> nat" where
  "encoder_instruction_size opcode ops = (case opcode of
     OPCODE_MOV \<Rightarrow> if \<not> sse2_operands_use_xmm ops then size_mov ops else size_of (sse2_encode_move ops)
   | OPCODE_PUSH \<Rightarrow> size_push_pop ops
   | OPCODE_POP \<Rightarrow> size_push_pop ops
   | OPCODE_LEA \<Rightarrow> size_of (enc_lea ops)
   | OPCODE_MOVZX \<Rightarrow> size_of (enc_movx ops False)
   | OPCODE_MOVSX \<Rightarrow> size_of (enc_movx ops True)
   | OPCODE_ADD \<Rightarrow> size_alu ops 0x01 0
   | OPCODE_SUB \<Rightarrow> size_alu ops 0x29 5
   | OPCODE_AND \<Rightarrow> size_alu ops 0x21 4
   | OPCODE_OR \<Rightarrow> size_alu ops 0x09 1
   | OPCODE_XOR \<Rightarrow> size_alu ops 0x31 6
   | OPCODE_CMP \<Rightarrow> size_alu ops 0x39 7
   | OPCODE_IMUL \<Rightarrow> size_of (enc_imul ops)
   | OPCODE_IDIV \<Rightarrow> size_of (enc_idiv ops)
   | OPCODE_DIV \<Rightarrow> size_of (enc_div ops)
   | OPCODE_CQO \<Rightarrow> size_of (enc_cqo ops)
   | OPCODE_INC \<Rightarrow> size_of (enc_unary ops 0)
   | OPCODE_DEC \<Rightarrow> size_of (enc_unary ops 1)
   | OPCODE_NEG \<Rightarrow> size_of (enc_unary ops 3)
   | OPCODE_NOT \<Rightarrow> size_of (enc_unary ops 2)
   | OPCODE_ADDSD \<Rightarrow> size_of (sse2_encode opcode ops)
   | OPCODE_SUBSD \<Rightarrow> size_of (sse2_encode opcode ops)
   | OPCODE_MULSD \<Rightarrow> size_of (sse2_encode opcode ops)
   | OPCODE_DIVSD \<Rightarrow> size_of (sse2_encode opcode ops)
   | OPCODE_UCOMISD \<Rightarrow> size_of (sse2_encode opcode ops)
   | OPCODE_XORPD \<Rightarrow> size_of (sse2_encode opcode ops)
   | OPCODE_CVTSI2SD \<Rightarrow> size_of (sse2_encode opcode ops)
   | OPCODE_CVTTSD2SI \<Rightarrow> size_of (sse2_encode opcode ops)
   | OPCODE_TEST \<Rightarrow> size_of (enc_test ops)
   | OPCODE_SETE \<Rightarrow> size_of (enc_setcc ops 0x94)
   | OPCODE_SETNE \<Rightarrow> size_of (enc_setcc ops 0x95)
   | OPCODE_SETG \<Rightarrow> size_of (enc_setcc ops 0x9F)
   | OPCODE_SETL \<Rightarrow> size_of (enc_setcc ops 0x9C)
   | OPCODE_SETGE \<Rightarrow> size_of (enc_setcc ops 0x9D)
   | OPCODE_SETLE \<Rightarrow> size_of (enc_setcc ops 0x9E)
   | OPCODE_SETA \<Rightarrow> size_of (enc_setcc ops 0x97)
   | OPCODE_SETB \<Rightarrow> size_of (enc_setcc ops 0x92)
   | OPCODE_SETAE \<Rightarrow> size_of (enc_setcc ops 0x93)
   | OPCODE_SETBE \<Rightarrow> size_of (enc_setcc ops 0x96)
   | OPCODE_SETP \<Rightarrow> size_of (enc_setcc ops 0x9A)
   | OPCODE_SETNP \<Rightarrow> size_of (enc_setcc ops 0x9B)
   | OPCODE_SHL \<Rightarrow> size_shift ops
   | OPCODE_SHR \<Rightarrow> size_shift ops
   | OPCODE_SAR \<Rightarrow> size_shift ops
   | OPCODE_JMP \<Rightarrow> size_jmp_call ops
   | OPCODE_CALL \<Rightarrow> size_jmp_call ops
   | OPCODE_RET \<Rightarrow> 1
   | OPCODE_JE \<Rightarrow> 6
   | OPCODE_JNE \<Rightarrow> 6
   | OPCODE_JG \<Rightarrow> 6
   | OPCODE_JGE \<Rightarrow> 6
   | OPCODE_JL \<Rightarrow> 6
   | OPCODE_JLE \<Rightarrow> 6
   | OPCODE_JZ \<Rightarrow> 6
   | OPCODE_JNZ \<Rightarrow> 6
   | OPCODE_JS \<Rightarrow> 6
   | OPCODE_JNS \<Rightarrow> 6
   | OPCODE_SYSCALL \<Rightarrow> 2
   | OPCODE_NOP \<Rightarrow> 1
   | OPCODE_RDTSC \<Rightarrow> 2
   | OPCODE_HLT \<Rightarrow> 1
   | OPCODE_INT \<Rightarrow> size_int ops
   | _ \<Rightarrow> MAX_INSTRUCTION_BYTES)"

end
