(* ===== verification/X86_Decode.thy ===== *)
theory X86_Decode
  imports Encoder_Types ModRM
begin

text \<open>
  The specification side of the encoder: a decoder for the part of the x86-64 instruction set
  the assembler emits, written from the instruction format (prefix, REX, opcode, ModRM, SIB,
  displacement, immediate) and independent of the encoder. It splits a byte stream into the
  fields of its first instruction (\<open>split_insn\<close>) and reads the fields as an operation with
  operands (\<open>read_insn\<close>). Nothing here models code of the repository.
\<close>

section \<open>Instruction fields\<close>

record raw =
  r_pfx :: "u8 list"
  r_rex :: "u8 list"
  r_opc :: "u8 list"
  r_mrm :: "u8 list"
  r_imm :: "u8 list"

definition raw_bytes :: "raw \<Rightarrow> u8 list" where
  "raw_bytes x = r_pfx x @ r_rex x @ r_opc x @ r_mrm x @ r_imm x"

definition is_legacy :: "u8 \<Rightarrow> bool" where
  "is_legacy b \<longleftrightarrow> b = 0x66 \<or> b = 0xF2 \<or> b = 0xF3"

text \<open>
  Immediate kinds: none, one byte, four bytes, operand-size up to four bytes, full operand size,
  and the two forms of group 3 that carry an immediate only for /0 and /1.
\<close>

datatype imm_kind = I0 | I8 | I32 | Iz | Iv | I8_test | Iz_test

definition info1 :: "u8 \<Rightarrow> (bool \<times> imm_kind) option" where
  "info1 b =
     (if b AND 0xC4 = 0 then Some (True, I0)
      else if b AND 0xF0 = 0x50 then Some (False, I0)
      else if b AND 0xF8 = 0xB0 then Some (False, I8)
      else if b AND 0xF8 = 0xB8 then Some (False, Iv)
      else if b \<in> {0x63, 0x84, 0x85, 0x88, 0x89, 0x8A, 0x8B, 0x8D, 0xD0, 0xD1, 0xD2, 0xD3,
                   0xFE, 0xFF} then Some (True, I0)
      else if b \<in> {0x69, 0x81, 0xC7} then Some (True, Iz)
      else if b \<in> {0x6B, 0x80, 0x83, 0xC0, 0xC1} then Some (True, I8)
      else if b \<in> {0x90, 0x99, 0xC3, 0xF4} then Some (False, I0)
      else if b = 0xCD then Some (False, I8)
      else if b = 0xE8 \<or> b = 0xE9 then Some (False, I32)
      else if b = 0xF6 then Some (True, I8_test)
      else if b = 0xF7 then Some (True, Iz_test)
      else None)"

text \<open>Two-byte opcodes 0F xx.\<close>

definition info2 :: "u8 \<Rightarrow> (bool \<times> imm_kind) option" where
  "info2 b =
     (if b = 0x05 \<or> b = 0x31 then Some (False, I0)
      else if b AND 0xF0 = 0x80 then Some (False, I32)
      else if b AND 0xF0 = 0x90 then Some (True, I0)
      else if b \<in> {0xAF, 0xB6, 0xB7, 0xBE, 0xBF, 0x2A, 0x2C, 0x2E, 0x57, 0x58, 0x59, 0x5C, 0x5E,
                   0x6E, 0x7E, 0xD6} then Some (True, I0)
      else None)"

fun opcode_info :: "u8 list \<Rightarrow> (bool \<times> imm_kind) option" where
  "opcode_info [b] = info1 b"
| "opcode_info [e, b] = (if e = 0x0F then info2 b else None)"
| "opcode_info _ = None"

text \<open>Bytes of ModRM, SIB and displacement, from the first one or two bytes.\<close>

definition disp_size :: "int \<Rightarrow> bool \<Rightarrow> nat" where
  "disp_size md no_base = (if md = 1 then 1 else if md = 2 then 4 else if no_base then 4 else 0)"

fun mrm_size :: "u8 list \<Rightarrow> nat option" where
  "mrm_size [] = None"
| "mrm_size (m # r) =
     (if bits_hi m = 3 then Some 1
      else if bits_lo m = 4 then
        (case r of [] \<Rightarrow> None | s # _ \<Rightarrow> Some (2 + disp_size (bits_hi m) (bits_lo s = 5)))
      else Some (1 + disp_size (bits_hi m) (bits_lo m = 5)))"

fun imm_size :: "imm_kind \<Rightarrow> bool \<Rightarrow> bool \<Rightarrow> int \<Rightarrow> nat" where
  "imm_size I0 o16 w rg = 0"
| "imm_size I8 o16 w rg = 1"
| "imm_size I32 o16 w rg = 4"
| "imm_size Iz o16 w rg = (if o16 then 2 else 4)"
| "imm_size Iv o16 w rg = (if w then 8 else if o16 then 2 else 4)"
| "imm_size I8_test o16 w rg = (if rg = 0 \<or> rg = 1 then 1 else 0)"
| "imm_size Iz_test o16 w rg = (if rg = 0 \<or> rg = 1 then (if o16 then 2 else 4) else 0)"

section \<open>Splitting\<close>

definition take_one :: "(u8 \<Rightarrow> bool) \<Rightarrow> u8 list \<Rightarrow> u8 list \<times> u8 list" where
  "take_one P bs = (case bs of b # r \<Rightarrow> if P b then ([b], r) else ([], bs) | [] \<Rightarrow> ([], []))"

definition take_opcode :: "u8 list \<Rightarrow> u8 list \<times> u8 list" where
  "take_opcode bs = (case bs of
     [] \<Rightarrow> ([], [])
   | b # r \<Rightarrow> if b = 0x0F then (case r of [] \<Rightarrow> ([b], []) | c # r' \<Rightarrow> ([b, c], r')) else ([b], r))"

definition has16 :: "u8 list \<Rightarrow> bool" where "has16 pfx = (0x66 \<in> set pfx)"
definition has_w :: "u8 list \<Rightarrow> bool" where "has_w rex = list_ex rex_flag_w rex"

definition take_mrm :: "bool \<Rightarrow> u8 list \<Rightarrow> (u8 list \<times> u8 list) option" where
  "take_mrm present bs =
     (if \<not> present then Some ([], bs)
      else (case mrm_size bs of
          None \<Rightarrow> None
        | Some n \<Rightarrow> if n \<le> length bs then Some (take n bs, drop n bs) else None))"

definition mrm_reg :: "u8 list \<Rightarrow> int" where
  "mrm_reg mrm = (case mrm of [] \<Rightarrow> 0 | m # _ \<Rightarrow> bits_mid m)"

definition split_insn :: "u8 list \<Rightarrow> (raw \<times> u8 list) option" where
  "split_insn bs =
     (let (pfx, bs) = take_one is_legacy bs;
          (rex, bs) = take_one is_rex bs;
          (opc, bs) = take_opcode bs
      in case opcode_info opc of
           None \<Rightarrow> None
         | Some (m, k) \<Rightarrow>
             (case take_mrm m bs of
                None \<Rightarrow> None
              | Some (mrm, bs) \<Rightarrow>
                  (let n = imm_size k (has16 pfx) (has_w rex) (mrm_reg mrm)
                   in if n \<le> length bs
                      then Some (\<lparr>r_pfx = pfx, r_rex = rex, r_opc = opc, r_mrm = mrm,
                                  r_imm = take n bs\<rparr>, drop n bs)
                      else None)))"

text \<open>The length of the first instruction of a stream.\<close>

definition insn_length :: "u8 list \<Rightarrow> nat option" where
  "insn_length bs = map_option (\<lambda>(x, rest). length bs - length rest) (split_insn bs)"

section \<open>Well-formed fields\<close>

definition wf_raw :: "raw \<Rightarrow> bool" where
  "wf_raw x \<longleftrightarrow>
     length (r_pfx x) \<le> 1 \<and> list_all is_legacy (r_pfx x)
     \<and> length (r_rex x) \<le> 1 \<and> list_all is_rex (r_rex x)
     \<and> (case opcode_info (r_opc x) of
           None \<Rightarrow> False
         | Some (m, k) \<Rightarrow>
             (if m then mrm_size (r_mrm x) = Some (length (r_mrm x)) else r_mrm x = [])
             \<and> length (r_imm x) = imm_size k (has16 (r_pfx x)) (has_w (r_rex x)) (mrm_reg (r_mrm x)))"

section \<open>Splitting inverts concatenation\<close>

lemma is_rex_range: "is_rex b \<Longrightarrow> b \<in> word_of_nat ` {64..<80}"
proof -
  have "is_rex b \<longrightarrow> 64 \<le> unat b \<and> unat b < 80"
    by (rule all_u8) (simp add: is_rex_def upt_rec)
  then show "is_rex b \<Longrightarrow> b \<in> word_of_nat ` {64..<80}"
    by (intro image_eqI [of _ _ "unat b"]) auto
qed

lemma info1_rex:
  assumes "is_rex b"
  shows "info1 b = None"
proof -
  have "list_all (\<lambda>n. info1 (word_of_nat n) = None) [64..<80]"
    by (simp add: info1_def upt_rec)
  then have none: "\<And>n. 64 \<le> n \<Longrightarrow> n < 80 \<Longrightarrow> info1 (word_of_nat n) = None"
    unfolding list_all_iff by (metis atLeastLessThan_iff atLeastLessThan_upt)
  obtain n where "b = word_of_nat n" "64 \<le> n" "n < 80"
    using is_rex_range [OF assms] by (auto simp only: image_iff atLeastLessThan_iff)
  then show ?thesis using none by metis
qed

lemma info1_opcode:
  "info1 b \<noteq> None \<longrightarrow> \<not> is_legacy b \<and> \<not> is_rex b \<and> b \<noteq> 0x0F"
proof -
  have "info1 0x66 = None" "info1 0xF2 = None" "info1 0xF3 = None" "info1 0x0F = None"
    by (simp_all add: info1_def)
  then show ?thesis using info1_rex [of b] by (auto simp: is_legacy_def)
qed

lemma opcode_info_head:
  assumes "opcode_info opc \<noteq> None"
  obtains b r where "opc = b # r" "\<not> is_legacy b" "\<not> is_rex b" "take_opcode (opc @ rest) = (opc, rest)"
proof -
  have "\<not> is_legacy 0x0F" "\<not> is_rex 0x0F" by (simp_all add: is_legacy_def is_rex_def)
  then show ?thesis
    using that assms info1_opcode
    by (cases opc rule: opcode_info.cases) (auto simp: take_opcode_def split: if_splits)
qed

lemma take_one_exact:
  assumes "length xs \<le> 1" "list_all P xs" "xs = [] \<longrightarrow> (case r of [] \<Rightarrow> True | b # _ \<Rightarrow> \<not> P b)"
  shows "take_one P (xs @ r) = (xs, r)"
  using assms by (cases xs) (auto simp: take_one_def split: list.splits)

lemma mrm_size_append:
  assumes "mrm_size mrm = Some (length mrm)"
  shows "mrm_size (mrm @ r) = Some (length mrm)"
  using assms
  by (cases mrm rule: mrm_size.cases) (auto split: if_splits list.splits simp: disp_size_def)

lemma mrm_reg_append: "mrm \<noteq> [] \<Longrightarrow> mrm_reg (mrm @ r) = mrm_reg mrm"
  by (cases mrm) (simp_all add: mrm_reg_def)

lemma split_raw_bytes:
  assumes "wf_raw x"
  shows "split_insn (raw_bytes x @ rest) = Some (x, rest)"
proof -
  obtain m k where info: "opcode_info (r_opc x) = Some (m, k)"
    and mrm: "if m then mrm_size (r_mrm x) = Some (length (r_mrm x)) else r_mrm x = []"
    and imm: "length (r_imm x) = imm_size k (has16 (r_pfx x)) (has_w (r_rex x)) (mrm_reg (r_mrm x))"
    and len: "length (r_pfx x) \<le> 1" "list_all is_legacy (r_pfx x)"
      "length (r_rex x) \<le> 1" "list_all is_rex (r_rex x)"
    using assms by (auto simp: wf_raw_def split: option.splits)
  define tl where "tl = r_mrm x @ r_imm x @ rest"
  obtain b r where b: "r_opc x = b # r" "\<not> is_legacy b" "\<not> is_rex b"
    and opc: "take_opcode (r_opc x @ tl) = (r_opc x, tl)"
    using opcode_info_head [of "r_opc x" tl] info by auto
  have not_leg: "is_rex c \<Longrightarrow> \<not> is_legacy c" for c
    by (auto simp: is_legacy_def is_rex_def)
  have p: "take_one is_legacy (r_pfx x @ r_rex x @ r_opc x @ tl) = (r_pfx x, r_rex x @ r_opc x @ tl)"
    using len b not_leg by (intro take_one_exact) (cases "r_rex x"; auto)+
  have q: "take_one is_rex (r_rex x @ r_opc x @ tl) = (r_rex x, r_opc x @ tl)"
    using len b by (intro take_one_exact) auto
  have t: "take_mrm m tl = Some (r_mrm x, r_imm x @ rest)"
    using mrm mrm_size_append [of "r_mrm x" "r_imm x @ rest"]
    by (auto simp: take_mrm_def tl_def split: if_splits)
  show ?thesis
    using imm by (simp add: split_insn_def raw_bytes_def p q opc info t flip: tl_def)
qed

lemma mrm_size_le: "mrm_size bs = Some n \<Longrightarrow> 1 \<le> n \<and> n \<le> 6"
  by (cases bs rule: mrm_size.cases) (auto simp: disp_size_def split: if_splits list.splits)

lemma imm_size_le: "imm_size k a w rg \<le> (if k = Iv then 8 else 4)"
  by (cases k) auto

lemma info_Iv: "opcode_info opc = Some (m, Iv) \<Longrightarrow> \<not> m"
  by (cases opc rule: opcode_info.cases) (auto simp: info1_def info2_def split: if_splits)

lemma opcode_info_length: "opcode_info opc = Some v \<Longrightarrow> 1 \<le> length opc \<and> length opc \<le> 2"
  by (cases opc rule: opcode_info.cases) (auto split: if_splits)

lemma wf_raw_length:
  assumes "wf_raw x"
  shows "1 \<le> length (raw_bytes x) \<and> length (raw_bytes x) \<le> 14"
proof -
  obtain m k where info: "opcode_info (r_opc x) = Some (m, k)"
    and mrm: "if m then mrm_size (r_mrm x) = Some (length (r_mrm x)) else r_mrm x = []"
    and imm: "length (r_imm x) = imm_size k (has16 (r_pfx x)) (has_w (r_rex x)) (mrm_reg (r_mrm x))"
    and len: "length (r_pfx x) \<le> 1" "length (r_rex x) \<le> 1"
    using assms by (auto simp: wf_raw_def split: option.splits)
  have i: "length (r_imm x) \<le> (if k = Iv then 8 else 4)"
    unfolding imm by (rule imm_size_le)
  have "length (r_mrm x) + length (r_imm x) \<le> 10"
    using i mrm mrm_size_le [of "r_mrm x" "length (r_mrm x)"] info_Iv [of "r_opc x" m] info
    by (auto split: if_splits)
  then show ?thesis
    using len opcode_info_length [OF info] by (simp add: raw_bytes_def)
qed

lemma insn_length_raw:
  "wf_raw x \<Longrightarrow> insn_length (raw_bytes x @ rest) = Some (length (raw_bytes x))"
  by (simp add: insn_length_def split_raw_bytes)

section \<open>Reading the fields\<close>

text \<open>
  Operands as the processor sees them: a register by width and number, a base-plus-displacement
  or instruction-pointer-relative address, an immediate at the operand width (as an unsigned
  value), a relative branch target. Without REX the byte registers 4 to 7 are AH, CH, DH and
  BH, which the assembler does not name: reading them fails.
\<close>

datatype aop = AReg int int | AMem int int | ARip int | AImm int | ARel int

definition le_signed :: "u8 list \<Rightarrow> int" where
  "le_signed bs = (let n = int (le_nat bs); m = 256 ^ length bs in if m \<le> 2 * n then n - m else n)"

definition hi8 :: "bool \<Rightarrow> int" where "hi8 c = (if c then 8 else 0)"

definition areg :: "raw \<Rightarrow> int \<Rightarrow> int \<Rightarrow> aop option" where
  "areg x w i = (if w = 8 \<and> r_rex x = [] \<and> 4 \<le> i then None else Some (AReg w i))"

definition reg_opnd :: "raw \<Rightarrow> int \<Rightarrow> aop option" where
  "reg_opnd x w = areg x w (mrm_reg (r_mrm x) + hi8 (list_ex rex_flag_r (r_rex x)))"

definition rm_opnd :: "raw \<Rightarrow> int \<Rightarrow> aop option" where
  "rm_opnd x w = (case r_mrm x of [] \<Rightarrow> None | m # t \<Rightarrow>
     (let b = hi8 (list_ex rex_flag_b (r_rex x)) in
      if bits_hi m = 3 then areg x w (bits_lo m + b)
      else if bits_lo m = 4 then
        (case t of [] \<Rightarrow> None | s # d \<Rightarrow>
           if bits_mid s = 4 \<and> \<not> list_ex rex_flag_x (r_rex x)
              \<and> \<not> (bits_hi m = 0 \<and> bits_lo s = 5)
           then Some (AMem (bits_lo s + b) (le_signed d)) else None)
      else if bits_hi m = 0 \<and> bits_lo m = 5 then Some (ARip (le_signed t))
      else Some (AMem (bits_lo m + b) (le_signed t))))"

definition op_reg_opnd :: "raw \<Rightarrow> int \<Rightarrow> u8 \<Rightarrow> aop option" where
  "op_reg_opnd x w b = areg x w (bits_lo b + hi8 (list_ex rex_flag_b (r_rex x)))"

definition opsize :: "raw \<Rightarrow> int" where
  "opsize x = (if has_w (r_rex x) then 64 else if has16 (r_pfx x) then 16 else 32)"

definition opsize_of :: "raw \<Rightarrow> u8 \<Rightarrow> int" where
  "opsize_of x b = (if bit b 0 then opsize x else 8)"

definition imm_opnd :: "raw \<Rightarrow> int \<Rightarrow> aop option" where
  "imm_opnd x w = Some (AImm (le_signed (r_imm x) mod 2 ^ nat w))"

definition rel_opnd :: "raw \<Rightarrow> aop option" where
  "rel_opnd x = Some (ARel (le_signed (r_imm x)))"

type_synonym insn = "OpcodeEnum \<times> aop list"

definition ins :: "OpcodeEnum \<Rightarrow> aop option list \<Rightarrow> insn option" where
  "ins m ops = map_option (Pair m) (those ops)"

definition alu_op :: "int \<Rightarrow> OpcodeEnum option" where
  "alu_op n = (if n = 0 then Some OPCODE_ADD else if n = 1 then Some OPCODE_OR
     else if n = 4 then Some OPCODE_AND else if n = 5 then Some OPCODE_SUB
     else if n = 6 then Some OPCODE_XOR else if n = 7 then Some OPCODE_CMP else None)"

definition shift_op :: "int \<Rightarrow> OpcodeEnum option" where
  "shift_op n = (if n = 4 then Some OPCODE_SHL else if n = 5 then Some OPCODE_SHR
     else if n = 7 then Some OPCODE_SAR else None)"

definition read_group3 :: "raw \<Rightarrow> int \<Rightarrow> insn option" where
  "read_group3 x w =
     (let n = mrm_reg (r_mrm x); rm = rm_opnd x w in
      if n = 0 then ins OPCODE_TEST [rm, imm_opnd x w]
      else if n = 2 then ins OPCODE_NOT [rm]
      else if n = 3 then ins OPCODE_NEG [rm]
      else if n = 6 then ins OPCODE_DIV [rm]
      else if n = 7 then ins OPCODE_IDIV [rm] else None)"

definition read_group45 :: "raw \<Rightarrow> int \<Rightarrow> insn option" where
  "read_group45 x w =
     (let n = mrm_reg (r_mrm x) in
      if n = 0 then ins OPCODE_INC [rm_opnd x w]
      else if n = 1 then ins OPCODE_DEC [rm_opnd x w]
      else if n = 2 \<and> w \<noteq> 8 then ins OPCODE_CALL [rm_opnd x 64]
      else if n = 4 \<and> w \<noteq> 8 then ins OPCODE_JMP [rm_opnd x 64] else None)"

definition read_insn1 :: "raw \<Rightarrow> u8 \<Rightarrow> insn option" where
  "read_insn1 x b =
     (let w = opsize_of x b; z = opsize x; rm = rm_opnd x w; rg = reg_opnd x w; im = imm_opnd x w;
          n = mrm_reg (r_mrm x)
      in
      if b AND 0xC4 = 0 then
        Option.bind (alu_op (uint (drop_bit 3 b)))
          (\<lambda>m. ins m (if bit b 1 then [rg, rm] else [rm, rg]))
      else if b AND 0xF8 = 0x50 then ins OPCODE_PUSH [op_reg_opnd x 64 b]
      else if b AND 0xF8 = 0x58 then ins OPCODE_POP [op_reg_opnd x 64 b]
      else if b AND 0xF8 = 0xB0 then ins OPCODE_MOV [op_reg_opnd x 8 b, imm_opnd x 8]
      else if b AND 0xF8 = 0xB8 then ins OPCODE_MOV [op_reg_opnd x z b, imm_opnd x z]
      else if b = 0x63 then (if z = 64 then ins OPCODE_MOVSX [rg, rm_opnd x 32] else None)
      else if b = 0x69 \<or> b = 0x6B then ins OPCODE_IMUL [reg_opnd x z, rm_opnd x z, imm_opnd x z]
      else if b = 0x80 \<or> b = 0x81 \<or> b = 0x83 then
        Option.bind (alu_op n) (\<lambda>m. ins m [rm, im])
      else if b = 0x84 \<or> b = 0x85 then ins OPCODE_TEST [rm, rg]
      else if b = 0x88 \<or> b = 0x89 then ins OPCODE_MOV [rm, rg]
      else if b = 0x8A \<or> b = 0x8B then ins OPCODE_MOV [rg, rm]
      else if b = 0x8D then ins OPCODE_LEA [rg, rm]
      else if b = 0x90 then ins OPCODE_NOP []
      else if b = 0x99 then (if z = 64 then ins OPCODE_CQO [] else None)
      else if b = 0xC0 \<or> b = 0xC1 then
        Option.bind (shift_op n) (\<lambda>m. ins m [rm, imm_opnd x 8])
      else if b = 0xD0 \<or> b = 0xD1 then Option.bind (shift_op n) (\<lambda>m. ins m [rm, Some (AImm 1)])
      else if b = 0xD2 \<or> b = 0xD3 then Option.bind (shift_op n) (\<lambda>m. ins m [rm, Some (AReg 8 1)])
      else if b = 0xC3 then ins OPCODE_RET []
      else if b = 0xC7 then (if n = 0 then ins OPCODE_MOV [rm, im] else None)
      else if b = 0xCD then ins OPCODE_INT [imm_opnd x 8]
      else if b = 0xE8 then ins OPCODE_CALL [rel_opnd x]
      else if b = 0xE9 then ins OPCODE_JMP [rel_opnd x]
      else if b = 0xF4 then ins OPCODE_HLT []
      else if b = 0xF6 \<or> b = 0xF7 then read_group3 x w
      else if b = 0xFE \<or> b = 0xFF then read_group45 x w
      else None)"

text \<open>Condition codes of \<open>0F 8x\<close> and \<open>0F 9x\<close>, as far as the assembler names them.\<close>

definition jcc_op :: "int \<Rightarrow> OpcodeEnum option" where
  "jcc_op n = (if n = 4 then Some OPCODE_JE else if n = 5 then Some OPCODE_JNE
     else if n = 8 then Some OPCODE_JS else if n = 9 then Some OPCODE_JNS
     else if n = 12 then Some OPCODE_JL else if n = 13 then Some OPCODE_JGE
     else if n = 14 then Some OPCODE_JLE else if n = 15 then Some OPCODE_JG else None)"

definition setcc_op :: "int \<Rightarrow> OpcodeEnum option" where
  "setcc_op n = (if n = 2 then Some OPCODE_SETB else if n = 3 then Some OPCODE_SETAE
     else if n = 4 then Some OPCODE_SETE else if n = 5 then Some OPCODE_SETNE
     else if n = 6 then Some OPCODE_SETBE else if n = 7 then Some OPCODE_SETA
     else if n = 10 then Some OPCODE_SETP else if n = 11 then Some OPCODE_SETNP
     else if n = 12 then Some OPCODE_SETL else if n = 13 then Some OPCODE_SETGE
     else if n = 14 then Some OPCODE_SETLE else if n = 15 then Some OPCODE_SETG else None)"

text \<open>The scalar double instructions: the mandatory prefix is part of the opcode.\<close>

definition read_sse :: "raw \<Rightarrow> u8 \<Rightarrow> u8 \<Rightarrow> insn option" where
  "read_sse x p b =
     (let xr = reg_opnd x 128; xm = rm_opnd x 128; w = has_w (r_rex x);
          gw = (if w then 64 else 32)
      in
      if p = 0xF2 \<and> b = 0x58 then ins OPCODE_ADDSD [xr, xm]
      else if p = 0xF2 \<and> b = 0x5C then ins OPCODE_SUBSD [xr, xm]
      else if p = 0xF2 \<and> b = 0x59 then ins OPCODE_MULSD [xr, xm]
      else if p = 0xF2 \<and> b = 0x5E then ins OPCODE_DIVSD [xr, xm]
      else if p = 0xF2 \<and> b = 0x2A then ins OPCODE_CVTSI2SD [xr, rm_opnd x gw]
      else if p = 0xF2 \<and> b = 0x2C then ins OPCODE_CVTTSD2SI [reg_opnd x gw, xm]
      else if p = 0x66 \<and> b = 0x2E then ins OPCODE_UCOMISD [xr, xm]
      else if p = 0x66 \<and> b = 0x57 then ins OPCODE_XORPD [xr, xm]
      else if p = 0xF3 \<and> b = 0x7E then ins OPCODE_MOV [xr, xm]
      else if p = 0x66 \<and> b = 0x6E \<and> w then ins OPCODE_MOV [xr, rm_opnd x 64]
      else if p = 0x66 \<and> b = 0x7E \<and> w then ins OPCODE_MOV [rm_opnd x 64, xr]
      else if p = 0x66 \<and> b = 0xD6 then ins OPCODE_MOV [xm, xr]
      else None)"

definition is_sse2_opcode :: "u8 \<Rightarrow> bool" where
  "is_sse2_opcode b \<longleftrightarrow>
     b \<in> {0x2A, 0x2C, 0x2E, 0x57, 0x58, 0x59, 0x5C, 0x5E, 0x6E, 0x7E, 0xD6}"

definition read_insn2 :: "raw \<Rightarrow> u8 \<Rightarrow> insn option" where
  "read_insn2 x b =
     (let z = opsize x; rg = reg_opnd x z; c = uint (b AND 0x0F) in
      if is_sse2_opcode b then (case r_pfx x of [p] \<Rightarrow> read_sse x p b | _ \<Rightarrow> None)
      else if b = 0x05 then ins OPCODE_SYSCALL []
      else if b = 0x31 then ins OPCODE_RDTSC []
      else if b AND 0xF0 = 0x80 then Option.bind (jcc_op c) (\<lambda>m. ins m [rel_opnd x])
      else if b AND 0xF0 = 0x90 then Option.bind (setcc_op c) (\<lambda>m. ins m [rm_opnd x 8])
      else if b = 0xAF then ins OPCODE_IMUL [rg, rm_opnd x z]
      else if b = 0xB6 then ins OPCODE_MOVZX [rg, rm_opnd x 8]
      else if b = 0xB7 then ins OPCODE_MOVZX [rg, rm_opnd x 16]
      else if b = 0xBE then ins OPCODE_MOVSX [rg, rm_opnd x 8]
      else if b = 0xBF then ins OPCODE_MOVSX [rg, rm_opnd x 16]
      else None)"

definition read_insn :: "raw \<Rightarrow> insn option" where
  "read_insn x = (case r_opc x of
     [b] \<Rightarrow> if r_pfx x = [] \<or> r_pfx x = [0x66] then read_insn1 x b else None
   | [e, b] \<Rightarrow> if e = 0x0F then read_insn2 x b else None
   | _ \<Rightarrow> None)"

text \<open>Decode the first instruction of a stream; the rest of the stream is returned.\<close>

definition x86_decode :: "u8 list \<Rightarrow> (insn \<times> u8 list) option" where
  "x86_decode bs = (case split_insn bs of
     None \<Rightarrow> None | Some (x, rest) \<Rightarrow> map_option (\<lambda>i. (i, rest)) (read_insn x))"

lemma x86_decode_raw:
  assumes "wf_raw x" "read_insn x = Some i"
  shows "x86_decode (raw_bytes x @ rest) = Some (i, rest)"
  using assms by (simp add: x86_decode_def split_raw_bytes)

text \<open>Linear disassembly: decode up to \<open>n\<close> instructions until the stream is used up.\<close>

fun decode_stream :: "nat \<Rightarrow> u8 list \<Rightarrow> insn list option" where
  "decode_stream n [] = Some []"
| "decode_stream 0 (b # bs) = None"
| "decode_stream (Suc n) (b # bs) =
     (case x86_decode (b # bs) of
        None \<Rightarrow> None
      | Some (i, rest) \<Rightarrow> map_option ((#) i) (decode_stream n rest))"

end
