(* ===== verification/Encoder_Decode.thy ===== *)
theory Encoder_Decode
  imports Encoder X86_Decode
begin

text \<open>
  The encoder against the decoder of \<open>X86_Decode\<close>. \<open>denote\<close> says what an opcode with operands
  means as a processor instruction; \<open>encodes e i\<close> says that the bytes of a result are
  well-formed instruction fields that read as \<open>i\<close>. One lemma per instruction family shows
  \<open>encodes\<close> whenever the encoder does not fail.
\<close>

named_theorems fam \<open>facts the family proofs share\<close>

section \<open>The meaning of operands\<close>

fun denote_op :: "int \<Rightarrow> Operand \<Rightarrow> aop" where
  "denote_op w (OP_REG r) = AReg (reg_width_bits r) (reg_index r)"
| "denote_op w (OP_IMM v) = AImm (sint v mod 2 ^ nat w)"
| "denote_op w (OP_MEM_REG b) = AMem (reg_index b) 0"
| "denote_op w (OP_MEM_DISP b d) = AMem (reg_index b) (sint d)"
| "denote_op w (OP_MEM_RIP_LABEL s) = ARip 0"
| "denote_op w _ = AImm 0"

section \<open>Raw instructions as the emitters build them\<close>

definition mk :: "u8 list \<Rightarrow> bool \<Rightarrow> bool \<Rightarrow> bool \<Rightarrow> bool \<Rightarrow> u8 list \<Rightarrow> u8 list \<Rightarrow> u8 list \<Rightarrow> raw" where
  "mk pfx c w r b opc mrm imm =
     \<lparr>r_pfx = pfx, r_rex = opt_rex c (rex_byte w r False b), r_opc = opc, r_mrm = mrm, r_imm = imm\<rparr>"

lemma mk_sel [simp]:
  "r_pfx (mk pfx c w r b opc mrm imm) = pfx" "r_opc (mk pfx c w r b opc mrm imm) = opc"
  "r_rex (mk pfx c w r b opc mrm imm) = opt_rex c (rex_byte w r False b)"
  "r_mrm (mk pfx c w r b opc mrm imm) = mrm" "r_imm (mk pfx c w r b opc mrm imm) = imm"
  by (simp_all add: mk_def)

lemma raw_bytes_mk:
  "raw_bytes (mk pfx c w r b opc mrm imm) =
     pfx @ opt_rex c (rex_byte w r False b) @ opc @ mrm @ imm"
  by (simp add: raw_bytes_def)

lemma opt_rex_facts [simp]:
  "length (opt_rex c x) = (if c then 1 else 0)" "opt_rex c x = [] \<longleftrightarrow> \<not> c"
  "list_all P (opt_rex c x) \<longleftrightarrow> (c \<longrightarrow> P x)" "list_ex P (opt_rex c x) \<longleftrightarrow> c \<and> P x"
  by (simp_all add: opt_rex_def)

lemma has_w_opt_rex [simp]: "has_w (opt_rex c (rex_byte w r False b)) \<longleftrightarrow> c \<and> w"
  by (simp add: has_w_def)

lemma prefix_facts [simp]:
  "has16 (prefix_bytes w) \<longleftrightarrow> w = 16" "length (prefix_bytes w) = (if w = 16 then 1 else 0)"
  "list_all is_legacy (prefix_bytes w)" "prefix_bytes w = [] \<or> prefix_bytes w = [0x66]"
  by (simp_all add: prefix_bytes_def has16_def is_legacy_def)

lemma has16_simps [simp]: "\<not> has16 []" "has16 [p] \<longleftrightarrow> p = 0x66"
  by (auto simp: has16_def)

definition encodes :: "EncodedInstruction \<Rightarrow> insn \<Rightarrow> bool" where
  "encodes e i \<longleftrightarrow> \<not> enc_error e \<and> (\<exists>x. wf_raw x \<and> enc_bytes e = raw_bytes x \<and> read_insn x = Some i)"

lemma encodes_from_buf:
  assumes "wf_raw x" "bs = raw_bytes x" "read_insn x = Some i"
  shows "encodes (from_buf (capped bs)) i"
proof -
  have "length bs \<le> MAX_INSTRUCTION_BYTES"
    using wf_raw_length [OF assms(1)] assms(2) by (simp add: MAX_INSTRUCTION_BYTES_def)
  then show ?thesis
    using assms by (auto simp: encodes_def from_buf_def capped_id)
qed

lemma make_error_error [simp]: "enc_error make_error" "\<not> enc_error (from_buf b)"
  by (simp_all add: make_error_def from_buf_def)

section \<open>Reading operands back\<close>

lemma reg_field_index:
  "reg_width_bits r \<noteq> 0 \<Longrightarrow> reg_field r + hi8 (reg_needs_rex r) = reg_index r"
  using reg_index_split [of r] by (simp add: hi8_def)

lemma rf_mod8 [simp]: "rf r mod 8 = rf r" "reg_field r mod 8 = reg_field r"
  using reg_field_range [of r] by (simp_all add: rf_def)

text \<open>A REX byte must be present when a byte register with number 4 or more is named.\<close>

lemma areg_reg:
  assumes "reg_width_bits s = w" "w \<noteq> 0" "reg_requires_rex_byte s \<or> reg_needs_rex s \<longrightarrow> r_rex x \<noteq> []"
  shows "areg x w (rf s + hi8 (reg_needs_rex s)) = Some (AReg w (reg_index s))"
  using assms reg_field_index [of s]
  by (auto simp: areg_def rf_def reg_requires_rex_byte_def)

lemma reg_opnd_mk:
  assumes "reg_width_bits s = w" "w \<noteq> 0" "mrm_reg mrm = rf s"
    "reg_requires_rex_byte s \<longrightarrow> c" "reg_needs_rex s \<longrightarrow> c"
  shows "reg_opnd (mk pfx c w' (reg_needs_rex s) b opc mrm imm) w = Some (AReg w (reg_index s))"
proof -
  have "(c \<and> reg_needs_rex s) = reg_needs_rex s" using assms(5) by auto
  then show ?thesis
    using areg_reg [OF assms(1,2), of "mk pfx c w' (reg_needs_rex s) b opc mrm imm"] assms
    by (auto simp: reg_opnd_def)
qed

lemma rm_opnd_reg_mk:
  assumes "reg_width_bits s = w" "w \<noteq> 0" "reg_requires_rex_byte s \<longrightarrow> c" "reg_needs_rex s \<longrightarrow> c"
  shows "rm_opnd (mk pfx c w' r (reg_needs_rex s) opc (modrm_byte 3 g (rf s) # t) imm) w
           = Some (AReg w (reg_index s))"
proof -
  have "(c \<and> reg_needs_rex s) = reg_needs_rex s" using assms(4) by auto
  then show ?thesis
    using areg_reg [OF assms(1,2), of "mk pfx c w' r (reg_needs_rex s) opc (modrm_byte 3 g (rf s) # t) imm"] assms
    by (auto simp: rm_opnd_def)
qed

lemma op_reg_opnd_mk:
  assumes "reg_width_bits s = w" "w \<noteq> 0" "reg_requires_rex_byte s \<longrightarrow> c" "reg_needs_rex s \<longrightarrow> c"
    "bits_lo o8 = rf s"
  shows "op_reg_opnd (mk pfx c w' r (reg_needs_rex s) opc mrm imm) w o8 = Some (AReg w (reg_index s))"
proof -
  have "(c \<and> reg_needs_rex s) = reg_needs_rex s" using assms(4) by auto
  then show ?thesis
    using areg_reg [OF assms(1,2), of "mk pfx c w' r (reg_needs_rex s) opc mrm imm"] assms
    by (auto simp: op_reg_opnd_def)
qed

text \<open>Little-endian displacements and immediates.\<close>

lemma sint_cases_uint:
  fixes v :: "'a::len word"
  shows "sint v = (if 2 ^ LENGTH('a) \<le> 2 * uint v then uint v - 2 ^ LENGTH('a) else uint v)"
proof -
  have e: "(2::int) ^ LENGTH('a) = 2 * 2 ^ (LENGTH('a) - 1)"
    by (metis One_nat_def Suc_pred len_gt_0 power_Suc)
  have u: "uint v = sint v mod 2 ^ LENGTH('a)"
    by (simp only: uint_sint take_bit_eq_mod)
  have b: "- (2 ^ (LENGTH('a) - 1)) \<le> sint v" "sint v < 2 ^ (LENGTH('a) - 1)"
    by (rule sint_ge, rule sint_lt)
  show ?thesis
  proof (cases "0 \<le> sint v")
    case True
    then have "uint v = sint v" using b e u by (simp add: mod_pos_pos_trivial)
    then show ?thesis using b e by simp
  next
    case False
    have "uint v = (sint v + 2 ^ LENGTH('a)) mod 2 ^ LENGTH('a)" using u by simp
    also have "\<dots> = sint v + 2 ^ LENGTH('a)" using False b e by (intro mod_pos_pos_trivial) auto
    finally show ?thesis using b e False by simp
  qed
qed

lemma le_signed_le_bytes:
  assumes "LENGTH('a::len) = 8 * n"
  shows "le_signed (le_bytes n (v :: 'a word)) = sint v"
proof -
  have p: "(256::int) ^ n = 2 ^ LENGTH('a)" by (simp add: assms power_mult)
  have "(256::nat) ^ n = 2 ^ LENGTH('a)" by (simp add: assms power_mult)
  then have "le_nat (le_bytes n v) = unat v"
    using unsigned_less [of v] by (simp add: le_nat_le_bytes)
  then show ?thesis by (simp add: le_signed_def Let_def p sint_cases_uint [of v])
qed

lemma le_signed_simps [simp]:
  "le_signed (le_bytes 4 (v :: i32)) = sint v"
  "le_signed (le_bytes 8 (v' :: i64)) = sint v'"
  "le_signed (le_bytes 2 (v'' :: u16)) = sint v''"
  "le_signed [b] = sint b" "le_signed [] = 0"
proof -
  show "le_signed [b] = sint b" using le_signed_le_bytes [of 1 b] by simp
qed (simp_all add: le_signed_le_bytes, simp add: le_signed_def)

text \<open>A truncated immediate read with its sign agrees with the value modulo the width.\<close>

lemma sint_ucast_mod:
  assumes "k \<le> LENGTH('b::len)" "LENGTH('b) \<le> 64"
  shows "sint (ucast (v :: i64) :: 'b word) mod 2 ^ k = sint v mod 2 ^ k"
proof -
  have "take_bit k (sint (ucast v :: 'b word)) = take_bit k (sint v)"
  proof (rule bit_eqI)
    fix n
    have "n < k \<Longrightarrow> min n (LENGTH('b) - 1) = n \<and> min n 63 = n \<and> n < LENGTH('b)" using assms by auto
    then show "bit (take_bit k (sint (ucast v :: 'b word))) n = bit (take_bit k (sint v)) n"
      by (auto simp: bit_take_bit_iff bit_sint_iff bit_ucast_iff)
  qed
  then show ?thesis by (simp add: take_bit_eq_mod)
qed

section \<open>Memory operands\<close>

lemma fits8_back: "- 128 \<le> sint d \<Longrightarrow> sint d \<le> 127 \<Longrightarrow> sint (ucast (d :: i32) :: u8) = sint d"
proof -
  assume b: "- 128 \<le> sint d" "sint d \<le> 127"
  have "signed_take_bit 7 (sint d) = sint d" using b by (intro signed_take_bit_int_eq_self) auto
  moreover have "sint (ucast d :: u8) = signed_take_bit 7 (sint d)"
    by (intro bit_eqI) (auto simp: bit_simps bit_sint_iff min_def)
  ultimately show ?thesis by simp
qed

lemma mrm_size_mem_bytes: "mrm_size (mem_bytes g base d) = Some (length (mem_bytes g base d))"
  using rf_mod8 [of base]
  by (auto simp: mem_bytes_def Let_def disp_size_def)

lemma mrm_reg_mem_bytes: "mrm_reg (mem_bytes g base d) = g mod 8"
  by (simp add: mem_bytes_def Let_def mrm_reg_def)

lemma rm_opnd_mem_mk:
  assumes "reg_width_bits base = 64" "reg_needs_rex base \<longrightarrow> c"
  shows "rm_opnd (mk pfx c w' r (reg_needs_rex base) opc (mem_bytes g base d) imm) w
           = Some (AMem (reg_index base) (sint d))"
proof -
  have c: "(c \<and> reg_needs_rex base) = reg_needs_rex base" using assms(2) by auto
  have i: "rf base + hi8 (reg_needs_rex base) = reg_index base"
    using reg_field_index [of base] assms(1) by (simp add: rf_def)
  have d0: "d = 0 \<Longrightarrow> sint d = 0" by simp
  show ?thesis
    unfolding mem_bytes_def Let_def
    using fits8_back [of d] c i by (auto simp: rm_opnd_def Let_def)
qed

section \<open>Opcode maps\<close>

text \<open>The opcode maps, one equation per opcode the encoder uses.\<close>

lemma read1 [fam]:
  "read_insn1 x 1 = ins OPCODE_ADD [rm_opnd x (opsize x), reg_opnd x (opsize x)]"
  "read_insn1 x 0 = ins OPCODE_ADD [rm_opnd x 8, reg_opnd x 8]"
  "read_insn1 x 3 = ins OPCODE_ADD [reg_opnd x (opsize x), rm_opnd x (opsize x)]"
  "read_insn1 x 2 = ins OPCODE_ADD [reg_opnd x 8, rm_opnd x 8]"
  "read_insn1 x 0x29 = ins OPCODE_SUB [rm_opnd x (opsize x), reg_opnd x (opsize x)]"
  "read_insn1 x 0x28 = ins OPCODE_SUB [rm_opnd x 8, reg_opnd x 8]"
  "read_insn1 x 0x2B = ins OPCODE_SUB [reg_opnd x (opsize x), rm_opnd x (opsize x)]"
  "read_insn1 x 0x2A = ins OPCODE_SUB [reg_opnd x 8, rm_opnd x 8]"
  "read_insn1 x 0x21 = ins OPCODE_AND [rm_opnd x (opsize x), reg_opnd x (opsize x)]"
  "read_insn1 x 0x20 = ins OPCODE_AND [rm_opnd x 8, reg_opnd x 8]"
  "read_insn1 x 0x23 = ins OPCODE_AND [reg_opnd x (opsize x), rm_opnd x (opsize x)]"
  "read_insn1 x 0x22 = ins OPCODE_AND [reg_opnd x 8, rm_opnd x 8]"
  "read_insn1 x 9 = ins OPCODE_OR [rm_opnd x (opsize x), reg_opnd x (opsize x)]"
  "read_insn1 x 8 = ins OPCODE_OR [rm_opnd x 8, reg_opnd x 8]"
  "read_insn1 x 0x0B = ins OPCODE_OR [reg_opnd x (opsize x), rm_opnd x (opsize x)]"
  "read_insn1 x 0x0A = ins OPCODE_OR [reg_opnd x 8, rm_opnd x 8]"
  "read_insn1 x 0x31 = ins OPCODE_XOR [rm_opnd x (opsize x), reg_opnd x (opsize x)]"
  "read_insn1 x 0x30 = ins OPCODE_XOR [rm_opnd x 8, reg_opnd x 8]"
  "read_insn1 x 0x33 = ins OPCODE_XOR [reg_opnd x (opsize x), rm_opnd x (opsize x)]"
  "read_insn1 x 0x32 = ins OPCODE_XOR [reg_opnd x 8, rm_opnd x 8]"
  "read_insn1 x 0x39 = ins OPCODE_CMP [rm_opnd x (opsize x), reg_opnd x (opsize x)]"
  "read_insn1 x 0x38 = ins OPCODE_CMP [rm_opnd x 8, reg_opnd x 8]"
  "read_insn1 x 0x3B = ins OPCODE_CMP [reg_opnd x (opsize x), rm_opnd x (opsize x)]"
  "read_insn1 x 0x3A = ins OPCODE_CMP [reg_opnd x 8, rm_opnd x 8]"
  "read_insn1 x 0x63 = (if opsize x = 64 then ins OPCODE_MOVSX [reg_opnd x (opsize x), rm_opnd x 32] else None)"
  "read_insn1 x 0x69 = ins OPCODE_IMUL [reg_opnd x (opsize x), rm_opnd x (opsize x), imm_opnd x (opsize x)]"
  "read_insn1 x 0x6B = ins OPCODE_IMUL [reg_opnd x (opsize x), rm_opnd x (opsize x), imm_opnd x (opsize x)]"
  "read_insn1 x 0x80 = Option.bind (alu_op (mrm_reg (r_mrm x))) (\<lambda>m. ins m [rm_opnd x 8, imm_opnd x 8])"
  "read_insn1 x 0x81 = Option.bind (alu_op (mrm_reg (r_mrm x))) (\<lambda>m. ins m [rm_opnd x (opsize x), imm_opnd x (opsize x)])"
  "read_insn1 x 0x83 = Option.bind (alu_op (mrm_reg (r_mrm x))) (\<lambda>m. ins m [rm_opnd x (opsize x), imm_opnd x (opsize x)])"
  "read_insn1 x 0x84 = ins OPCODE_TEST [rm_opnd x 8, reg_opnd x 8]"
  "read_insn1 x 0x85 = ins OPCODE_TEST [rm_opnd x (opsize x), reg_opnd x (opsize x)]"
  "read_insn1 x 0x88 = ins OPCODE_MOV [rm_opnd x 8, reg_opnd x 8]"
  "read_insn1 x 0x89 = ins OPCODE_MOV [rm_opnd x (opsize x), reg_opnd x (opsize x)]"
  "read_insn1 x 0x8A = ins OPCODE_MOV [reg_opnd x 8, rm_opnd x 8]"
  "read_insn1 x 0x8B = ins OPCODE_MOV [reg_opnd x (opsize x), rm_opnd x (opsize x)]"
  "read_insn1 x 0x8D = ins OPCODE_LEA [reg_opnd x (opsize x), rm_opnd x (opsize x)]"
  "read_insn1 x 0x90 = ins OPCODE_NOP []"
  "read_insn1 x 0x99 = (if opsize x = 64 then ins OPCODE_CQO [] else None)"
  "read_insn1 x 0xC0 = Option.bind (shift_op (mrm_reg (r_mrm x))) (\<lambda>m. ins m [rm_opnd x 8, imm_opnd x 8])"
  "read_insn1 x 0xC1 = Option.bind (shift_op (mrm_reg (r_mrm x))) (\<lambda>m. ins m [rm_opnd x (opsize x), imm_opnd x 8])"
  "read_insn1 x 0xD0 = Option.bind (shift_op (mrm_reg (r_mrm x))) (\<lambda>m. ins m [rm_opnd x 8, Some (AImm 1)])"
  "read_insn1 x 0xD1 = Option.bind (shift_op (mrm_reg (r_mrm x))) (\<lambda>m. ins m [rm_opnd x (opsize x), Some (AImm 1)])"
  "read_insn1 x 0xD2 = Option.bind (shift_op (mrm_reg (r_mrm x))) (\<lambda>m. ins m [rm_opnd x 8, Some (AReg 8 1)])"
  "read_insn1 x 0xD3 = Option.bind (shift_op (mrm_reg (r_mrm x))) (\<lambda>m. ins m [rm_opnd x (opsize x), Some (AReg 8 1)])"
  "read_insn1 x 0xC3 = ins OPCODE_RET []"
  "read_insn1 x 0xC7 = (if mrm_reg (r_mrm x) = 0 then ins OPCODE_MOV [rm_opnd x (opsize x), imm_opnd x (opsize x)] else None)"
  "read_insn1 x 0xCD = ins OPCODE_INT [imm_opnd x 8]"
  "read_insn1 x 0xE8 = ins OPCODE_CALL [rel_opnd x]"
  "read_insn1 x 0xE9 = ins OPCODE_JMP [rel_opnd x]"
  "read_insn1 x 0xF4 = ins OPCODE_HLT []"
  "read_insn1 x 0xF6 = read_group3 x 8"
  "read_insn1 x 0xF7 = read_group3 x (opsize x)"
  "read_insn1 x 0xFE = read_group45 x 8"
  "read_insn1 x 0xFF = read_group45 x (opsize x)"
  by (simp_all add: read_insn1_def opsize_of_def alu_op_def Let_def)

lemma info1 [fam]:
  "info1 1 = Some (True, I0)"
  "info1 0 = Some (True, I0)"
  "info1 3 = Some (True, I0)"
  "info1 2 = Some (True, I0)"
  "info1 0x29 = Some (True, I0)"
  "info1 0x28 = Some (True, I0)"
  "info1 0x2B = Some (True, I0)"
  "info1 0x2A = Some (True, I0)"
  "info1 0x21 = Some (True, I0)"
  "info1 0x20 = Some (True, I0)"
  "info1 0x23 = Some (True, I0)"
  "info1 0x22 = Some (True, I0)"
  "info1 9 = Some (True, I0)"
  "info1 8 = Some (True, I0)"
  "info1 0x0B = Some (True, I0)"
  "info1 0x0A = Some (True, I0)"
  "info1 0x31 = Some (True, I0)"
  "info1 0x30 = Some (True, I0)"
  "info1 0x33 = Some (True, I0)"
  "info1 0x32 = Some (True, I0)"
  "info1 0x39 = Some (True, I0)"
  "info1 0x38 = Some (True, I0)"
  "info1 0x3B = Some (True, I0)"
  "info1 0x3A = Some (True, I0)"
  "info1 0x63 = Some (True, I0)"
  "info1 0x69 = Some (True, Iz)"
  "info1 0x6B = Some (True, I8)"
  "info1 0x80 = Some (True, I8)"
  "info1 0x81 = Some (True, Iz)"
  "info1 0x83 = Some (True, I8)"
  "info1 0x84 = Some (True, I0)"
  "info1 0x85 = Some (True, I0)"
  "info1 0x88 = Some (True, I0)"
  "info1 0x89 = Some (True, I0)"
  "info1 0x8A = Some (True, I0)"
  "info1 0x8B = Some (True, I0)"
  "info1 0x8D = Some (True, I0)"
  "info1 0x90 = Some (False, I0)"
  "info1 0x99 = Some (False, I0)"
  "info1 0xC0 = Some (True, I8)"
  "info1 0xC1 = Some (True, I8)"
  "info1 0xD0 = Some (True, I0)"
  "info1 0xD1 = Some (True, I0)"
  "info1 0xD2 = Some (True, I0)"
  "info1 0xD3 = Some (True, I0)"
  "info1 0xC3 = Some (False, I0)"
  "info1 0xC7 = Some (True, Iz)"
  "info1 0xCD = Some (False, I8)"
  "info1 0xE8 = Some (False, I32)"
  "info1 0xE9 = Some (False, I32)"
  "info1 0xF4 = Some (False, I0)"
  "info1 0xF6 = Some (True, I8_test)"
  "info1 0xF7 = Some (True, Iz_test)"
  "info1 0xFE = Some (True, I0)"
  "info1 0xFF = Some (True, I0)"
  by (simp_all add: info1_def)



text \<open>Opcodes that carry a register in their low three bits.\<close>

lemma rf_cases:
  obtains "rf r = 0" | "rf r = 1" | "rf r = 2" | "rf r = 3" | "rf r = 4" | "rf r = 5"
    | "rf r = 6" | "rf r = 7"
proof -
  have "rf r \<in> {0, 1, 2, 3, 4, 5, 6, 7}" using reg_field_range [of r] by (auto simp: rf_def)
  then show ?thesis using that by auto
qed

lemma opcode_masks:
  "(word_of_int (0xB0 + rf d) :: u8) AND 0xC4 \<noteq> 0" "(word_of_int (0xB8 + rf d) :: u8) AND 0xC4 \<noteq> 0"
  "(word_of_int (0x50 + rf d) :: u8) AND 0xC4 \<noteq> 0" "(word_of_int (0x58 + rf d) :: u8) AND 0xC4 \<noteq> 0"
  "(word_of_int (0xB0 + rf d) :: u8) AND 0xF0 = 0xB0" "(word_of_int (0xB8 + rf d) :: u8) AND 0xF0 = 0xB0"
  "(word_of_int (0x50 + rf d) :: u8) AND 0xF0 = 0x50" "(word_of_int (0x58 + rf d) :: u8) AND 0xF0 = 0x50"
  "(word_of_int (0xB0 + rf d) :: u8) AND 0xF8 = 0xB0" "(word_of_int (0xB8 + rf d) :: u8) AND 0xF8 = 0xB8"
  "(word_of_int (0x50 + rf d) :: u8) AND 0xF8 = 0x50" "(word_of_int (0x58 + rf d) :: u8) AND 0xF8 = 0x58"
  by (cases rule: rf_cases [of d]; simp)+

lemma opcode_plus_bits [fam]:
  "bits_lo (word_of_int (0xB0 + rf d)) = rf d" "bits_lo (word_of_int (0xB8 + rf d)) = rf d"
  "bits_lo (word_of_int (0x50 + rf d)) = rf d" "bits_lo (word_of_int (0x58 + rf d)) = rf d"
  by (cases rule: rf_cases [of d]; simp add: bits_lo_def)+

lemma opcode_plus_reg [fam]:
  "info1 (word_of_int (0xB0 + rf d)) = Some (False, I8)"
  "info1 (word_of_int (0xB8 + rf d)) = Some (False, Iv)"
  "info1 (word_of_int (0x50 + rf d)) = Some (False, I0)"
  "info1 (word_of_int (0x58 + rf d)) = Some (False, I0)"
  "read_insn1 x (word_of_int (0xB0 + rf d))
     = ins OPCODE_MOV [op_reg_opnd x 8 (word_of_int (0xB0 + rf d)), imm_opnd x 8]"
  "read_insn1 x (word_of_int (0xB8 + rf d))
     = ins OPCODE_MOV [op_reg_opnd x (opsize x) (word_of_int (0xB8 + rf d)), imm_opnd x (opsize x)]"
  "read_insn1 x (word_of_int (0x50 + rf d))
     = ins OPCODE_PUSH [op_reg_opnd x 64 (word_of_int (0x50 + rf d))]"
  "read_insn1 x (word_of_int (0x58 + rf d))
     = ins OPCODE_POP [op_reg_opnd x 64 (word_of_int (0x58 + rf d))]"
  by (simp_all only: info1_def read_insn1_def Let_def opcode_masks if_False if_True) simp_all

text \<open>The same facts in the form the simplifier leaves the opcode in.\<close>

lemmas opcode_plus_simps [fam] = opcode_plus_reg [simplified] opcode_plus_bits [simplified]

lemma read2 [fam]:
  "read_insn2 x 5 = ins OPCODE_SYSCALL []"
  "read_insn2 x 0x31 = ins OPCODE_RDTSC []"
  "read_insn2 x 0x84 = ins OPCODE_JE [rel_opnd x]"
  "read_insn2 x 0x85 = ins OPCODE_JNE [rel_opnd x]"
  "read_insn2 x 0x88 = ins OPCODE_JS [rel_opnd x]"
  "read_insn2 x 0x89 = ins OPCODE_JNS [rel_opnd x]"
  "read_insn2 x 0x8C = ins OPCODE_JL [rel_opnd x]"
  "read_insn2 x 0x8D = ins OPCODE_JGE [rel_opnd x]"
  "read_insn2 x 0x8E = ins OPCODE_JLE [rel_opnd x]"
  "read_insn2 x 0x8F = ins OPCODE_JG [rel_opnd x]"
  "read_insn2 x 0x92 = ins OPCODE_SETB [rm_opnd x 8]"
  "read_insn2 x 0x93 = ins OPCODE_SETAE [rm_opnd x 8]"
  "read_insn2 x 0x94 = ins OPCODE_SETE [rm_opnd x 8]"
  "read_insn2 x 0x95 = ins OPCODE_SETNE [rm_opnd x 8]"
  "read_insn2 x 0x96 = ins OPCODE_SETBE [rm_opnd x 8]"
  "read_insn2 x 0x97 = ins OPCODE_SETA [rm_opnd x 8]"
  "read_insn2 x 0x9A = ins OPCODE_SETP [rm_opnd x 8]"
  "read_insn2 x 0x9B = ins OPCODE_SETNP [rm_opnd x 8]"
  "read_insn2 x 0x9C = ins OPCODE_SETL [rm_opnd x 8]"
  "read_insn2 x 0x9D = ins OPCODE_SETGE [rm_opnd x 8]"
  "read_insn2 x 0x9E = ins OPCODE_SETLE [rm_opnd x 8]"
  "read_insn2 x 0x9F = ins OPCODE_SETG [rm_opnd x 8]"
  "read_insn2 x 0xAF = ins OPCODE_IMUL [reg_opnd x (opsize x), rm_opnd x (opsize x)]"
  "read_insn2 x 0xB6 = ins OPCODE_MOVZX [reg_opnd x (opsize x), rm_opnd x 8]"
  "read_insn2 x 0xB7 = ins OPCODE_MOVZX [reg_opnd x (opsize x), rm_opnd x 16]"
  "read_insn2 x 0xBE = ins OPCODE_MOVSX [reg_opnd x (opsize x), rm_opnd x 8]"
  "read_insn2 x 0xBF = ins OPCODE_MOVSX [reg_opnd x (opsize x), rm_opnd x 16]"
  by (simp_all add: read_insn2_def is_sse2_opcode_def Let_def jcc_op_def setcc_op_def)

lemma read2_sse [fam]:
  "is_sse2_opcode b \<Longrightarrow> r_pfx x = [p] \<Longrightarrow> read_insn2 x b = read_sse x p b"
  by (simp add: read_insn2_def Let_def)

lemma is_sse2_opcodes [fam]:
  "is_sse2_opcode 0x2A"
  "is_sse2_opcode 0x2C"
  "is_sse2_opcode 0x2E"
  "is_sse2_opcode 0x57"
  "is_sse2_opcode 0x58"
  "is_sse2_opcode 0x59"
  "is_sse2_opcode 0x5C"
  "is_sse2_opcode 0x5E"
  "is_sse2_opcode 0x6E"
  "is_sse2_opcode 0x7E"
  "is_sse2_opcode 0xD6"
  by (simp_all add: is_sse2_opcode_def)

lemma info2 [fam]:
  "info2 5 = Some (False, I0)"
  "info2 0x31 = Some (False, I0)"
  "info2 0x84 = Some (False, I32)"
  "info2 0x85 = Some (False, I32)"
  "info2 0x88 = Some (False, I32)"
  "info2 0x89 = Some (False, I32)"
  "info2 0x8C = Some (False, I32)"
  "info2 0x8D = Some (False, I32)"
  "info2 0x8E = Some (False, I32)"
  "info2 0x8F = Some (False, I32)"
  "info2 0x92 = Some (True, I0)"
  "info2 0x93 = Some (True, I0)"
  "info2 0x94 = Some (True, I0)"
  "info2 0x95 = Some (True, I0)"
  "info2 0x96 = Some (True, I0)"
  "info2 0x97 = Some (True, I0)"
  "info2 0x9A = Some (True, I0)"
  "info2 0x9B = Some (True, I0)"
  "info2 0x9C = Some (True, I0)"
  "info2 0x9D = Some (True, I0)"
  "info2 0x9E = Some (True, I0)"
  "info2 0x9F = Some (True, I0)"
  "info2 0xAF = Some (True, I0)"
  "info2 0xB6 = Some (True, I0)"
  "info2 0xB7 = Some (True, I0)"
  "info2 0xBE = Some (True, I0)"
  "info2 0xBF = Some (True, I0)"
  "info2 0x2A = Some (True, I0)"
  "info2 0x2C = Some (True, I0)"
  "info2 0x2E = Some (True, I0)"
  "info2 0x57 = Some (True, I0)"
  "info2 0x58 = Some (True, I0)"
  "info2 0x59 = Some (True, I0)"
  "info2 0x5C = Some (True, I0)"
  "info2 0x5E = Some (True, I0)"
  "info2 0x6E = Some (True, I0)"
  "info2 0x7E = Some (True, I0)"
  "info2 0xD6 = Some (True, I0)"
  by (simp_all add: info2_def)

section \<open>Instructions at an operand width\<close>

text \<open>When the emitters write a REX byte, and the fields they fill at a width.\<close>

definition rexc :: "int \<Rightarrow> RegId \<Rightarrow> RegId \<Rightarrow> bool" where
  "rexc w rg rm \<longleftrightarrow> w = 8 \<and> (reg_requires_rex_byte rg \<or> reg_requires_rex_byte rm)
     \<or> w = 64 \<or> reg_needs_rex rg \<or> reg_needs_rex rm"

definition mkw :: "int \<Rightarrow> RegId \<Rightarrow> RegId \<Rightarrow> u8 list \<Rightarrow> u8 list \<Rightarrow> u8 list \<Rightarrow> raw" where
  "mkw w rg rm opc mrm imm =
     mk (prefix_bytes w) (rexc w rg rm) (w = 64) (reg_needs_rex rg) (reg_needs_rex rm) opc mrm imm"

lemma raw_bytes_mkw:
  "raw_bytes (mkw w rg rm opc mrm imm) = prefix_bytes w @ rex_bytes w rg rm @ opc @ mrm @ imm"
  by (simp add: mkw_def raw_bytes_mk rex_bytes_def rexc_def rex_required_def)

lemma wf_mk:
  assumes "opcode_info opc = Some (m, k)" "length pfx \<le> 1" "list_all is_legacy pfx"
    "if m then mrm_size mrm = Some (length mrm) else mrm = []"
    "length imm = imm_size k (has16 pfx) (c \<and> w) (mrm_reg mrm)"
  shows "wf_raw (mk pfx c w r b opc mrm imm)"
  using assms by (simp add: wf_raw_def)

lemma wf_mkw [fam]:
  "wf_raw (mkw w rg rm opc mrm imm) \<longleftrightarrow>
     (case opcode_info opc of None \<Rightarrow> False | Some (m, k) \<Rightarrow>
        (if m then mrm_size mrm = Some (length mrm) else mrm = [])
        \<and> length imm = imm_size k (w = 16) (w = 64) (mrm_reg mrm))"
proof -
  have "(rexc w rg rm \<and> w = 64) = (w = 64)" by (auto simp: rexc_def)
  then show ?thesis
    by (auto simp: mkw_def wf_raw_def split: option.splits)
qed

lemma mkw_sel [simp]:
  "r_pfx (mkw w rg rm opc mrm imm) = prefix_bytes w" "r_opc (mkw w rg rm opc mrm imm) = opc"
  "r_mrm (mkw w rg rm opc mrm imm) = mrm" "r_imm (mkw w rg rm opc mrm imm) = imm"
  by (simp_all add: mkw_def)

lemma opsize_mkw:
  "w = 16 \<or> w = 32 \<or> w = 64 \<Longrightarrow> opsize (mkw w rg rm opc mrm imm) = w"
  by (auto simp: opsize_def mkw_def rexc_def)

lemma reg_opnd_mkw:
  assumes "reg_width_bits rg = w" "w \<noteq> 0" "mrm_reg mrm = rf rg"
  shows "reg_opnd (mkw w rg rm opc mrm imm) w = Some (AReg w (reg_index rg))"
  unfolding mkw_def using assms
  by (intro reg_opnd_mk) (auto simp: rexc_def reg_requires_rex_byte_def)

lemma rm_opnd_reg_mkw:
  assumes "reg_width_bits rm = w" "w \<noteq> 0"
  shows "rm_opnd (mkw w rg rm opc (modrm_byte 3 g (rf rm) # t) imm) w = Some (AReg w (reg_index rm))"
  unfolding mkw_def using assms
  by (intro rm_opnd_reg_mk) (auto simp: rexc_def reg_requires_rex_byte_def)

lemma op_reg_opnd_mkw:
  assumes "reg_width_bits rm = w" "w \<noteq> 0" "bits_lo b = rf rm"
  shows "op_reg_opnd (mkw w rg rm opc mrm imm) w b = Some (AReg w (reg_index rm))"
  unfolding mkw_def using assms
  by (intro op_reg_opnd_mk) (auto simp: rexc_def reg_requires_rex_byte_def)

lemma rm_opnd_mem_mkw:
  assumes "reg_width_bits base = 64"
  shows "rm_opnd (mkw w rg base opc (mem_bytes g base d) imm) w'
           = Some (AMem (reg_index base) (sint d))"
  unfolding mkw_def using assms by (intro rm_opnd_mem_mk) (auto simp: rexc_def)

lemma rm_opnd_rip_mkw:
  "rm_opnd (mkw w rg rm opc (modrm_byte 0 g 5 # le_bytes 4 (v :: i32)) imm) w' = Some (ARip (sint v))"
  by (simp add: rm_opnd_def)

lemma mrm_reg_modrm [simp]: "mrm_reg (modrm_byte md g rm # t) = g mod 8"
  by (simp add: mrm_reg_def)

lemma mrm_size_modrm [simp]:
  "mrm_size (modrm_byte 3 g rm # t) = Some 1" "mrm_size (modrm_byte 0 g 5 # t) = Some 5"
  by (simp_all add: disp_size_def)

lemma imm_opnd_simps:
  assumes "r_imm x = le_bytes n (ucast (v :: i64) :: 'b::len word)" "LENGTH('b) = 8 * n"
    "k \<le> LENGTH('b)" "LENGTH('b) \<le> 64"
  shows "imm_opnd x (int k) = Some (AImm (sint v mod 2 ^ k))"
  using assms sint_ucast_mod [of k v, where 'b = 'b] by (simp add: imm_opnd_def le_signed_le_bytes)

lemma encodes_mkw:
  assumes "bs = prefix_bytes w @ rex_bytes w rg rm @ opc @ mrm @ imm"
    "wf_raw (mkw w rg rm opc mrm imm)" "read_insn (mkw w rg rm opc mrm imm) = Some i"
  shows "encodes (from_buf (capped bs)) i"
  using assms by (intro encodes_from_buf) (auto simp: raw_bytes_mkw)

lemma read_insn_mkw [fam]:
  "read_insn (mkw w rg rm [b] mrm imm) = read_insn1 (mkw w rg rm [b] mrm imm) b"
  "read_insn (mkw w rg rm [0x0F, b] mrm imm) = read_insn2 (mkw w rg rm [0x0F, b] mrm imm) b"
  by (simp_all add: read_insn_def)

lemma ins_simps [fam]:
  "ins m [] = Some (m, [])" "ins m [Some a] = Some (m, [a])" "ins m [Some a, Some b] = Some (m, [a, b])"
  "ins m [Some a, Some b, Some c] = Some (m, [a, b, c])"
  by (simp_all add: ins_def)

lemma opcode_info_two [fam]: "opcode_info [0x0F, b] = info2 b"
  by simp_all

lemma mem_mrm_facts [fam]:
  "mrm_size (mem_bytes g base d) = Some (length (mem_bytes g base d))"
  "mrm_reg (mem_bytes g base d) = g mod 8"
  by (rule mrm_size_mem_bytes, rule mrm_reg_mem_bytes)

lemmas opnds [fam] = reg_opnd_mkw rm_opnd_reg_mkw op_reg_opnd_mkw rm_opnd_mem_mkw rm_opnd_rip_mkw opsize_mkw

text \<open>The valid widths, and the mask that selects the byte form of an opcode.\<close>

lemma valid_widthE:
  assumes "valid_integer_width w"
  obtains "w = 8" | "w = 16" | "w = 32" | "w = 64"
  using assms by (auto simp: valid_integer_width_def)

section \<open>Shapes\<close>

text \<open>
  \<open>byte_or_full o8 ofull f\<close>: the pair of one-byte opcodes with a ModRM byte and no immediate
  whose operands are \<open>f\<close> at width 8 and at the operand size.
\<close>

definition byte_or_full :: "u8 \<Rightarrow> u8 \<Rightarrow> OpcodeEnum \<Rightarrow> (raw \<Rightarrow> int \<Rightarrow> aop option list) \<Rightarrow> bool" where
  "byte_or_full o8 ofull m f \<longleftrightarrow> info1 o8 = Some (True, I0) \<and> info1 ofull = Some (True, I0)
     \<and> (\<forall>x. read_insn1 x o8 = ins m (f x 8)) \<and> (\<forall>x. read_insn1 x ofull = ins m (f x (opsize x)))"

lemma encodes_pair:
  assumes "byte_or_full o8 ofull m f" "valid_integer_width w" "mrm_size mrm = Some (length mrm)"
    "opc = (if w = 8 then o8 else ofull)" "bs = prefix_bytes w @ rex_bytes w rg rm @ [opc] @ mrm"
    "those (f (mkw w rg rm [opc] mrm []) w) = Some ops"
  shows "encodes (from_buf (capped bs)) (m, ops)"
proof -
  have o: "w \<noteq> 8 \<Longrightarrow> opsize (mkw w rg rm [opc] mrm []) = w"
    using assms(2) by (auto simp: valid_integer_width_def intro: opsize_mkw)
  have "info1 opc = Some (True, I0)" using assms(1,4) by (simp add: byte_or_full_def)
  then have "wf_raw (mkw w rg rm [opc] mrm [])" using assms(3) by (simp add: fam)
  moreover have "read_insn1 (mkw w rg rm [opc] mrm []) opc = Some (m, ops)"
    using assms(1,4,6) o by (cases "w = 8") (simp_all add: byte_or_full_def ins_def)
  ultimately show ?thesis
    using assms(5) by (intro encodes_mkw [of _ w rg rm "[opc]" mrm "[]"]) (simp_all add: fam)
qed

abbreviation rm_reg :: "raw \<Rightarrow> int \<Rightarrow> aop option list" where
  "rm_reg x w \<equiv> [rm_opnd x w, reg_opnd x w]"

abbreviation reg_rm :: "raw \<Rightarrow> int \<Rightarrow> aop option list" where
  "reg_rm x w \<equiv> [reg_opnd x w, rm_opnd x w]"

lemma encodes_rr:
  assumes "byte_or_full o8 ofull m rm_reg" "opc = (if w = 8 then o8 else ofull)"
    "valid_integer_width w" "reg_width_bits d = w" "reg_width_bits s = w"
  shows "encodes (from_buf (emit_rr empty_buf opc d s w)) (m, [AReg w (reg_index d), AReg w (reg_index s)])"
  unfolding emit_simps
  by (rule encodes_pair [OF assms(1,3) _ assms(2), where mrm = "[modrm_byte 3 (rf s) (rf d)]" and rg = s and rm = d])
    (use assms in \<open>auto simp: fam valid_integer_width_def\<close>)

lemma encodes_mem_load:
  assumes "byte_or_full o8 ofull m reg_rm" "opc = (if w = 8 then o8 else ofull)"
    "valid_integer_width w" "reg_width_bits d = w" "reg_width_bits base = 64"
  shows "encodes (from_buf (emit_mem empty_buf opc d base disp w))
           (m, [AReg w (reg_index d), AMem (reg_index base) (sint disp)])"
  unfolding emit_simps
  by (rule encodes_pair [OF assms(1,3) _ assms(2), where mrm = "mem_bytes (rf d) base disp" and rg = d and rm = base])
    (use assms in \<open>auto simp: fam valid_integer_width_def\<close>)

lemma encodes_mem_store:
  assumes "byte_or_full o8 ofull m rm_reg" "opc = (if w = 8 then o8 else ofull)"
    "valid_integer_width w" "reg_width_bits s = w" "reg_width_bits base = 64"
  shows "encodes (from_buf (emit_mem empty_buf opc s base disp w))
           (m, [AMem (reg_index base) (sint disp), AReg w (reg_index s)])"
  unfolding emit_simps
  by (rule encodes_pair [OF assms(1,3) _ assms(2), where mrm = "mem_bytes (rf s) base disp" and rg = s and rm = base])
    (use assms in \<open>auto simp: fam valid_integer_width_def\<close>)

lemma encodes_rip_load:
  assumes "byte_or_full o8 ofull m reg_rm" "opc = (if w = 8 then o8 else ofull)"
    "valid_integer_width w" "reg_width_bits d = w"
  shows "encodes (from_buf (emit_rip_relative_mem empty_buf opc d w)) (m, [AReg w (reg_index d), ARip 0])"
  unfolding emit_simps
  by (rule encodes_pair [OF assms(1,3) _ assms(2), where rg = d and rm = REG_INVALID
        and mrm = "modrm_byte 0 (rf d) 5 # le_bytes 4 (0 :: i32)"])
    (use assms in \<open>auto simp: fam valid_integer_width_def disp_size_def\<close>)

lemma encodes_rip_store:
  assumes "byte_or_full o8 ofull m rm_reg" "opc = (if w = 8 then o8 else ofull)"
    "valid_integer_width w" "reg_width_bits s = w"
  shows "encodes (from_buf (emit_rip_relative_mem empty_buf opc s w)) (m, [ARip 0, AReg w (reg_index s)])"
  unfolding emit_simps
  by (rule encodes_pair [OF assms(1,3) _ assms(2), where rg = s and rm = REG_INVALID
        and mrm = "modrm_byte 0 (rf s) 5 # le_bytes 4 (0 :: i32)"])
    (use assms in \<open>auto simp: fam valid_integer_width_def disp_size_def\<close>)

text \<open>A register operand and an immediate of \<open>n\<close> bytes; the opcode is one of group 1 or 3.\<close>

lemma encodes_ri:
  assumes "bs = prefix_bytes w @ rex_bytes w REG_INVALID d @ [opc, modrm_byte 3 g (rf d)] @ imm"
    "info1 opc = Some (True, k)" "length imm = imm_size k (w = 16) (w = 64) (g mod 8)"
    "read_insn1 (mkw w REG_INVALID d [opc] [modrm_byte 3 g (rf d)] imm) opc = Some i"
  shows "encodes (from_buf (capped bs)) i"
  using assms by (intro encodes_mkw [of _ w REG_INVALID d "[opc]" "[modrm_byte 3 g (rf d)]" imm])
    (auto simp: fam)

text \<open>Immediates as the encoders write them.\<close>

lemma imm_opnd_8: "r_imm x = [ucast v] \<Longrightarrow> imm_opnd x 8 = Some (AImm (sint (v :: i64) mod 2 ^ nat 8))"
  using sint_ucast_mod [of 8 v, where 'b = 8] by (simp add: imm_opnd_def)

lemma imm_opnd_16:
  "r_imm x = [ucast v, ucast (signed_drop_bit 8 v)] \<Longrightarrow>
     imm_opnd x 16 = Some (AImm (sint (v :: i64) mod 2 ^ nat 16))"
  using sint_ucast_mod [of 16 v, where 'b = 16] by (simp add: imm_opnd_def sdb_bytes_u16)

lemma imm_opnd_32:
  "r_imm x = le_bytes 4 (ucast v :: i32) \<Longrightarrow>
     imm_opnd x 32 = Some (AImm (sint (v :: i64) mod 2 ^ nat 32))"
  using sint_ucast_mod [of 32 v, where 'b = 32] by (simp add: imm_opnd_def)

lemma imm_opnd_64:
  "r_imm x = le_bytes 8 (v :: i64) \<Longrightarrow> imm_opnd x 64 = Some (AImm (sint v mod 2 ^ nat 64))"
  by (simp add: imm_opnd_def)

lemma imm_opnd_sx8:
  "r_imm x = [ucast v] \<Longrightarrow> immediate_fits_i8 v \<Longrightarrow> imm_opnd x w = Some (AImm (sint v mod 2 ^ nat w))"
  by (simp add: imm_opnd_def fits_i8_sint)

lemma imm_opnd_sx32:
  "r_imm x = le_bytes 4 (ucast v :: i32) \<Longrightarrow> immediate_fits_i32 v \<Longrightarrow>
     imm_opnd x w = Some (AImm (sint v mod 2 ^ nat w))"
  by (simp add: imm_opnd_def fits_i32_sint)

lemma rel_opnd_32:
  "r_imm x = le_bytes 4 (ucast v :: i32) \<Longrightarrow> immediate_fits_i32 v \<Longrightarrow> rel_opnd x = Some (ARel (sint v))"
  by (simp add: rel_opnd_def fits_i32_sint)

lemmas imm_reads = imm_opnd_8 imm_opnd_16 imm_opnd_32 imm_opnd_64 imm_opnd_sx8 imm_opnd_sx32 rel_opnd_32

end
