(* ===== verification/Encoder_Correct.thy ===== *)
theory Encoder_Correct
  imports Encoder_Decode
begin

text \<open>
  Correctness of the instruction-family encoders: when an encoder accepts its operands, the
  bytes it returns decode to the operation the opcode and the operands denote. \<open>denote\<close> is the
  denotation of a whole instruction; \<open>encoder_encodes\<close> collects the families.
\<close>

definition first_width :: "Operand list \<Rightarrow> int" where
  "first_width ops = (case ops of OP_REG r # _ \<Rightarrow> reg_width_bits r | _ \<Rightarrow> 8)"

definition plain :: "OpcodeEnum \<Rightarrow> Operand list \<Rightarrow> insn" where
  "plain opc ops = (opc, map (denote_op (first_width ops)) ops)"

lemma plain_reg:
  "plain opc (OP_REG r # ops) =
     (opc, AReg (reg_width_bits r) (reg_index r) # map (denote_op (reg_width_bits r)) ops)"
  by (simp add: plain_def first_width_def)

section \<open>MOV\<close>

lemma mov_pairs:
  "byte_or_full 0x88 0x89 OPCODE_MOV rm_reg" "byte_or_full 0x8A 0x8B OPCODE_MOV reg_rm"
  by (simp_all add: byte_or_full_def fam)

lemma enc_mov_imm_ok:
  assumes "\<not> enc_error (enc_mov_imm d v)"
  shows "encodes (enc_mov_imm d v) (plain OPCODE_MOV [OP_REG d, OP_IMM v])"
proof -
  have "valid_integer_width (reg_width_bits d)"
    using assms by (simp add: enc_mov_imm_def Let_def split: if_splits)
  then show ?thesis
  proof (cases rule: valid_widthE)
    assume w: "reg_width_bits d = 8"
    have "encodes (from_buf (capped (prefix_bytes 8 @ rex_bytes 8 REG_INVALID d
        @ [word_of_int (0xB0 + rf d)] @ [] @ [ucast v]))) (plain OPCODE_MOV [OP_REG d, OP_IMM v])"
      by (rule encodes_mkw [OF refl]) (simp_all add: fam w plain_reg imm_reads)
    then show ?thesis
      using assms w by (auto simp: enc_mov_imm_def Let_def emit_simps prefix_bytes_def)
  next
    assume w: "reg_width_bits d = 16"
    have "encodes (from_buf (capped (prefix_bytes 16 @ rex_bytes 16 REG_INVALID d
        @ [word_of_int (0xB8 + rf d)] @ [] @ [ucast v, ucast (signed_drop_bit 8 v)])))
        (plain OPCODE_MOV [OP_REG d, OP_IMM v])"
      by (rule encodes_mkw [OF refl]) (simp_all add: fam w plain_reg imm_reads)
    then show ?thesis
      using assms w by (auto simp: enc_mov_imm_def Let_def emit_simps prefix_bytes_def)
  next
    assume w: "reg_width_bits d = 32"
    have "encodes (from_buf (capped (prefix_bytes 32 @ rex_bytes 32 REG_INVALID d
        @ [word_of_int (0xB8 + rf d)] @ [] @ le_bytes 4 (ucast v :: i32))))
        (plain OPCODE_MOV [OP_REG d, OP_IMM v])"
      by (rule encodes_mkw [OF refl]) (simp_all add: fam w plain_reg imm_reads)
    then show ?thesis
      using assms w by (auto simp: enc_mov_imm_def Let_def emit_simps prefix_bytes_def)
  next
    assume w: "reg_width_bits d = 64"
    have "encodes (from_buf (capped (prefix_bytes 64 @ rex_bytes 64 REG_INVALID d
        @ [word_of_int (0xB8 + rf d)] @ [] @ le_bytes 8 v))) (plain OPCODE_MOV [OP_REG d, OP_IMM v])"
      by (rule encodes_mkw [OF refl]) (simp_all add: fam w plain_reg imm_reads)
    moreover have "immediate_fits_i32 v \<Longrightarrow> encodes (from_buf (capped (prefix_bytes 64
        @ rex_bytes 64 REG_INVALID d @ [0xC7, modrm_byte 3 0 (rf d)] @ le_bytes 4 (ucast v :: i32))))
        (plain OPCODE_MOV [OP_REG d, OP_IMM v])"
      by (rule encodes_ri [OF refl, where k = Iz]) (simp_all add: fam w plain_reg imm_reads)
    ultimately show ?thesis
      using w by (auto simp: enc_mov_imm_def Let_def emit_simps prefix_bytes_def valid_integer_width_def)
  qed
qed

lemma enc_mov_label_ok:
  assumes "reg_width_bits d = 64"
  shows "encodes (from_buf (emit64 (emit (emit_rex_for_width empty_buf 64 REG_INVALID d)
           (word_of_int (0xB8 + rf d))) 0)) (plain OPCODE_MOV [OP_REG d, OP_LABEL s])"
proof -
  have "encodes (from_buf (capped (prefix_bytes 64 @ rex_bytes 64 REG_INVALID d
      @ [word_of_int (0xB8 + rf d)] @ [] @ le_bytes 8 (0 :: i64)))) (plain OPCODE_MOV [OP_REG d, OP_LABEL s])"
    by (rule encodes_mkw [OF refl]) (use imm_opnd_64 [where v = 0] in \<open>simp_all add: fam assms plain_reg\<close>)
  then show ?thesis by (simp add: emit_simps prefix_bytes_def)
qed

lemma enc_mov_reg_mem_ok:
  assumes "\<not> enc_error (enc_mov_reg_mem d src)" "operand_is_mem src"
  shows "encodes (enc_mov_reg_mem d src) (plain OPCODE_MOV [OP_REG d, src])"
  using assms(1) encodes_mem_load [OF mov_pairs(2) refl, of "reg_width_bits d" d "mem_base src" "operand_disp src"]
  by (cases rule: operand_is_mem.cases [of src])
    (use assms(2) in \<open>auto simp: enc_mov_reg_mem_def Let_def plain_reg split: if_splits\<close>)

lemma enc_mov_mem_reg_ok:
  assumes "\<not> enc_error (enc_mov_mem_reg dst s)" "operand_is_mem dst"
  shows "encodes (enc_mov_mem_reg dst s) (plain OPCODE_MOV [dst, OP_REG s])"
  using assms(1) encodes_mem_store [OF mov_pairs(1) refl, of "reg_width_bits s" s "mem_base dst" "operand_disp dst"]
  by (cases rule: operand_is_mem.cases [of dst])
    (use assms(2) in \<open>auto simp: enc_mov_mem_reg_def Let_def plain_def split: if_splits\<close>)

lemma same_widthD: "same_register_width a b \<Longrightarrow> valid_integer_width (reg_width_bits a) \<and> reg_width_bits b = reg_width_bits a"
  by (simp add: same_register_width_def Let_def)

lemma encodes_rr_same:
  assumes "byte_or_full o8 ofull m rm_reg" "same_register_width d s"
  shows "encodes (from_buf (emit_rr empty_buf (if reg_width_bits d = 8 then o8 else ofull) d s
           (reg_width_bits d))) (plain m [OP_REG d, OP_REG s])"
  using encodes_rr [OF assms(1) refl, of "reg_width_bits d" d s] same_widthD [OF assms(2)]
  by (simp add: plain_reg)

lemma enc_mov_rip_ok:
  assumes "valid_integer_width (reg_width_bits r)"
  shows "encodes (from_buf (emit_rip_relative_mem empty_buf
           (if reg_width_bits r = 8 then 0x8A else 0x8B) r (reg_width_bits r)))
           (plain OPCODE_MOV [OP_REG r, OP_MEM_RIP_LABEL l])"
    "encodes (from_buf (emit_rip_relative_mem empty_buf
           (if reg_width_bits r = 8 then 0x88 else 0x89) r (reg_width_bits r)))
           (plain OPCODE_MOV [OP_MEM_RIP_LABEL l, OP_REG r])"
  using encodes_rip_load [OF mov_pairs(2) refl assms refl] encodes_rip_store [OF mov_pairs(1) refl assms refl]
  by (simp_all add: plain_def first_width_def)

lemma enc_mov_ok:
  assumes "\<not> enc_error (enc_mov ops)"
  shows "encodes (enc_mov ops) (plain OPCODE_MOV ops)"
proof -
  obtain dst src where ops: "ops = [dst, src]"
    using assms by (auto simp: enc_mov_def split: list.splits)
  show ?thesis
    using assms encodes_rr_same [OF mov_pairs(1)]
    unfolding ops enc_mov_def
    by (cases dst; cases src)
      (simp_all add: Let_def enc_mov_label_ok [simplified] enc_mov_rip_ok enc_mov_reg_mem_ok enc_mov_mem_reg_ok
        enc_mov_imm_ok split del: if_split split: if_split_asm)
qed

section \<open>Instructions whose operands differ in width\<close>

lemma encodes_mk:
  assumes "bs = pfx @ opt_rex c (rex_byte w r False b) @ opc @ mrm @ imm"
    "wf_raw (mk pfx c w r b opc mrm imm)" "read_insn (mk pfx c w r b opc mrm imm) = Some i"
  shows "encodes (from_buf (capped bs)) i"
  using assms by (intro encodes_from_buf) (auto simp: raw_bytes_mk)

lemma opsize_mk:
  "w \<in> {16, 32, 64} \<Longrightarrow> w = 64 \<longrightarrow> c \<Longrightarrow>
     opsize (mk (prefix_bytes w) c (w = 64) r b opc mrm imm) = w"
  by (auto simp: opsize_def)

lemma enc_movx_ok:
  assumes "\<not> enc_error (enc_movx ops sx)"
  shows "encodes (enc_movx ops sx) (plain (if sx then OPCODE_MOVSX else OPCODE_MOVZX) ops)"
proof -
  obtain d s where ops: "ops = [OP_REG d, OP_REG s]"
    using assms by (auto simp: enc_movx_def split: list.splits Operand.splits)
  define w v where "w = reg_width_bits d" and "v = reg_width_bits s"
  have sup: "movx_supported w v sx"
    using assms by (simp add: ops enc_movx_def Let_def w_def v_def split: if_splits)
  define c where "c = (reg_requires_rex_byte s \<or> rex_required (w = 64) (reg_needs_rex d) False (reg_needs_rex s))"
  define opc where "opc = (if sx \<and> v = 32 then [0x63 :: u8] else [0x0F, if v = 8 then (if sx then 0xBE else 0xB6)
    else (if sx then 0xBF else 0xB7)])"
  define mrm where "mrm = [modrm_byte 3 (rf d) (rf s)]"
  define x where "x = mk (prefix_bytes w) c (w = 64) (reg_needs_rex d) (reg_needs_rex s) opc mrm []"
  have cases: "v = 8 \<and> w \<in> {16, 32, 64} \<or> v = 16 \<and> w \<in> {32, 64} \<or> v = 32 \<and> w = 64 \<and> sx"
    using sup by (auto simp: movx_supported_def)
  have z: "opsize x = w" using cases by (auto simp: x_def c_def rex_required_def intro: opsize_mk)
  have rg: "reg_opnd x w = Some (AReg w (reg_index d))"
    unfolding x_def using cases
    by (intro reg_opnd_mk) (auto simp: w_def mrm_def c_def rex_required_def reg_requires_rex_byte_def)
  have rm: "rm_opnd x v = Some (AReg v (reg_index s))"
    unfolding x_def mrm_def using cases
    by (intro rm_opnd_reg_mk) (auto simp: v_def c_def rex_required_def)
  have "read_insn x = Some (plain (if sx then OPCODE_MOVSX else OPCODE_MOVZX) ops)"
    using cases rg rm z
    by (auto simp: x_def opc_def read_insn_def fam ops plain_reg w_def [symmetric] v_def [symmetric])
  moreover have "wf_raw x"
    using cases unfolding x_def opc_def mrm_def by (auto intro!: wf_mk simp: fam)
  moreover have "enc_movx ops sx = from_buf (capped (raw_bytes x))"
    using sup by (simp add: ops enc_movx_def Let_def emit_simps x_def raw_bytes_mk opc_def mrm_def c_def
        flip: w_def v_def)
  ultimately show ?thesis by (metis encodes_from_buf)
qed

section \<open>PUSH and POP\<close>

lemma encodes_plus_reg:
  assumes "reg_width_bits r = 64" "info1 opc = Some (False, I0)" "bits_lo opc = rf r"
    "\<And>x. read_insn1 x opc = ins m [op_reg_opnd x 64 opc]"
  shows "encodes (from_buf (emit (if rex_b r then emit empty_buf (rex_byte False False False True)
           else empty_buf) opc)) (plain m [OP_REG r])"
proof -
  have "encodes (from_buf (capped (opt_rex (reg_needs_rex r) (rex_byte False False False (reg_needs_rex r)) @ [opc])))
      (plain m [OP_REG r])"
    using assms
    by (intro encodes_mk [where opc = "[opc]" and pfx = "[]" and mrm = "[]" and imm = "[]" and r = False])
      (auto simp: wf_raw_def read_insn_def ins_simps plain_reg op_reg_opnd_mk reg_requires_rex_byte_def)
  then show ?thesis by (cases "reg_needs_rex r") (simp_all add: emit_simps rex_b_def opt_rex_def)
qed

lemma enc_push_ok:
  assumes "\<not> enc_error (enc_push ops)"
  shows "encodes (enc_push ops) (plain OPCODE_PUSH ops)"
proof -
  obtain r where ops: "ops = [OP_REG r]" "reg_width_bits r = 64"
    using assms by (auto simp: enc_push_def split: list.splits Operand.splits if_splits)
  have "encodes (from_buf (emit (if rex_b r then emit empty_buf (rex_byte False False False True)
      else empty_buf) (word_of_int (0x50 + rf r)))) (plain OPCODE_PUSH [OP_REG r])"
    by (rule encodes_plus_reg) (simp_all add: ops fam)
  then show ?thesis by (simp add: enc_push_def ops)
qed

lemma enc_pop_ok:
  assumes "\<not> enc_error (enc_pop ops)"
  shows "encodes (enc_pop ops) (plain OPCODE_POP ops)"
proof -
  obtain r where ops: "ops = [OP_REG r]" "reg_width_bits r = 64"
    using assms by (auto simp: enc_pop_def split: list.splits Operand.splits if_splits)
  have "encodes (from_buf (emit (if rex_b r then emit empty_buf (rex_byte False False False True)
      else empty_buf) (word_of_int (0x58 + rf r)))) (plain OPCODE_POP [OP_REG r])"
    by (rule encodes_plus_reg) (simp_all add: ops fam)
  then show ?thesis by (simp add: enc_pop_def ops)
qed

section \<open>ALU\<close>

text \<open>The six ALU opcodes: store opcode and /digit.\<close>

definition alu_row :: "OpcodeEnum \<Rightarrow> u8 \<Rightarrow> u8 \<Rightarrow> bool" where
  "alu_row m op_rr ext \<longleftrightarrow>
     byte_or_full (op_rr - 1) op_rr m rm_reg \<and> byte_or_full (op_rr + 1) (op_rr + 2) m reg_rm
     \<and> alu_op (uint ext) = Some m \<and> uint ext < 8"

lemma alu_rows:
  "alu_row OPCODE_ADD 0x01 0" "alu_row OPCODE_SUB 0x29 5" "alu_row OPCODE_AND 0x21 4"
  "alu_row OPCODE_OR 0x09 1" "alu_row OPCODE_XOR 0x31 6" "alu_row OPCODE_CMP 0x39 7"
  by (simp_all add: alu_row_def byte_or_full_def fam alu_op_def)

lemma enc_alu_mem_ok:
  assumes "alu_row m op_rr ext" "\<not> enc_error (enc_alu_mem d src op_rr)" "operand_is_mem src"
  shows "encodes (enc_alu_mem d src op_rr) (plain m [OP_REG d, src])"
proof -
  have "byte_or_full (op_rr + 1) (op_rr + 2) m reg_rm" using assms(1) by (simp add: alu_row_def)
  note load = encodes_mem_load [OF this _ _ refl, of "(if reg_width_bits d = 8 then op_rr - 1 else op_rr) + 2" d]
  show ?thesis
    using assms(2) load [of "mem_base src" "operand_disp src"]
    by (cases rule: operand_is_mem.cases [of src])
      (use assms(3) in \<open>auto simp: enc_alu_mem_def Let_def plain_reg add.commute [of 1 op_rr] split: if_splits\<close>)
qed

lemma imm_not_rejected:
  "\<not> imm_rejected w v \<Longrightarrow> w = 64 \<Longrightarrow> immediate_fits_i32 v"
  by (simp add: imm_rejected_def)

lemma enc_alu_imm_ok:
  assumes "alu_row m op_rr ext" "\<not> enc_error (enc_alu_imm d v ext)"
  shows "encodes (enc_alu_imm d v ext) (plain m [OP_REG d, OP_IMM v])"
proof -
  define w where "w = reg_width_bits d"
  have valid: "valid_integer_width w" and rej: "\<not> imm_rejected w v"
    using assms(2) by (simp_all add: enc_alu_imm_def Let_def w_def split: if_splits)
  have e: "uint ext mod 8 = uint ext" "alu_op (uint ext) = Some m"
    using assms(1) by (simp_all add: alu_row_def)
  have p: "plain m [OP_REG d, OP_IMM v] = (m, [AReg w (reg_index d), AImm (sint v mod 2 ^ nat w)])"
    by (simp add: plain_reg w_def)
  let ?bs = "\<lambda>opc imm. prefix_bytes w @ rex_bytes w REG_INVALID d @ [opc, modrm_byte 3 (uint ext) (rf d)] @ imm"
  have i8: "w = 8 \<Longrightarrow> encodes (from_buf (capped (?bs 0x80 [ucast v]))) (plain m [OP_REG d, OP_IMM v])"
    unfolding p by (rule encodes_ri [OF refl, where k = I8]) (simp_all add: fam e w_def [symmetric] imm_reads)
  have sx: "w \<noteq> 8 \<Longrightarrow> immediate_fits_i8 v \<Longrightarrow>
      encodes (from_buf (capped (?bs 0x83 [ucast v]))) (plain m [OP_REG d, OP_IMM v])"
    unfolding p using valid
    by (intro encodes_ri [OF refl, where k = I8])
      (auto simp: fam e w_def [symmetric] imm_reads valid_integer_width_def)
  have i16: "w = 16 \<Longrightarrow> encodes (from_buf (capped (?bs 0x81 [ucast v, ucast (signed_drop_bit 8 v)])))
      (plain m [OP_REG d, OP_IMM v])"
    unfolding p by (rule encodes_ri [OF refl, where k = Iz]) (simp_all add: fam e w_def [symmetric] imm_reads)
  have i32: "w = 32 \<or> w = 64 \<Longrightarrow> encodes (from_buf (capped (?bs 0x81 (le_bytes 4 (ucast v :: i32)))))
      (plain m [OP_REG d, OP_IMM v])"
    unfolding p using imm_not_rejected [OF rej]
    by (intro encodes_ri [OF refl, where k = Iz])
      (auto simp: fam e w_def [symmetric] imm_opnd_32 imm_opnd_sx32)
  show ?thesis
    using valid rej i8 sx i16 i32
    by (auto simp: enc_alu_imm_def Let_def emit_simps w_def [symmetric] valid_integer_width_def)
qed

lemma enc_alu_ok:
  assumes "alu_row m op_rr ext" "\<not> enc_error (enc_alu ops op_rr ext)"
  shows "encodes (enc_alu ops op_rr ext) (plain m ops)"
proof -
  obtain dst src where ops: "ops = [dst, src]"
    using assms by (auto simp: enc_alu_def split: list.splits)
  have "byte_or_full (op_rr - 1) op_rr m rm_reg" using assms(1) by (simp add: alu_row_def)
  note rr = encodes_rr_same [OF this]
  show ?thesis
    using assms(2) rr unfolding ops enc_alu_def
    by (cases dst; cases src)
      (simp_all add: Let_def enc_alu_mem_ok [OF assms(1)] enc_alu_imm_ok [OF assms(1)]
        split del: if_split split: if_split_asm)
qed

section \<open>One-operand arithmetic, IMUL, CQO\<close>

lemma encodes_group:
  assumes "valid_integer_width (reg_width_bits r)" "opc = (if reg_width_bits r = 8 then o8 else ofull)"
    "info1 o8 = Some (True, k8)" "info1 ofull = Some (True, kf)" "0 \<le> g" "g < 8"
    "imm_size k8 False False g = 0" "\<And>a b. imm_size kf a b g = 0"
    "\<And>x. mrm_reg (r_mrm x) = g \<Longrightarrow> read_insn1 x o8 = ins m [rm_opnd x 8]"
    "\<And>x. mrm_reg (r_mrm x) = g \<Longrightarrow> opsize x = reg_width_bits r \<Longrightarrow> reg_width_bits r \<noteq> 8 \<Longrightarrow>
       read_insn1 x ofull = ins m [rm_opnd x (opsize x)]"
  shows "encodes (from_buf (capped (prefix_bytes (reg_width_bits r) @ rex_bytes (reg_width_bits r) REG_INVALID r
           @ [opc, modrm_byte 3 g (rf r)]))) (plain m [OP_REG r])"
  using assms
  by (intro encodes_ri [where imm = "[]" and k = "if reg_width_bits r = 8 then k8 else kf"])
    (auto simp: fam plain_reg valid_integer_width_def)

lemma enc_divide_ok:
  assumes "\<not> enc_error (enc_divide ops e)" "(m, e) \<in> {(OPCODE_DIV, 6), (OPCODE_IDIV, 7)}"
  shows "encodes (enc_divide ops e) (plain m ops)"
proof -
  obtain r where ops: "ops = [OP_REG r]"
    using assms by (auto simp: enc_divide_def split: list.splits Operand.splits)
  have v: "valid_integer_width (reg_width_bits r)"
    using assms(1) by (simp add: ops enc_divide_def Let_def split: if_splits)
  show ?thesis
    using assms(2) encodes_group [OF v refl, where ?o8.0 = "0xF6" and ?k8.0 = I8_test and ofull = "0xF7" and kf = Iz_test and g = 6 and m = OPCODE_DIV]
      encodes_group [OF v refl, where ?o8.0 = "0xF6" and ?k8.0 = I8_test and ofull = "0xF7" and kf = Iz_test and g = 7 and m = OPCODE_IDIV] v
    by (auto simp: ops enc_divide_def Let_def emit_simps fam read_group3_def)
qed

lemma enc_unary_ok:
  assumes "\<not> enc_error (enc_unary ops e)"
    "(m, e) \<in> {(OPCODE_INC, 0), (OPCODE_DEC, 1), (OPCODE_NOT, 2), (OPCODE_NEG, 3)}"
  shows "encodes (enc_unary ops e) (plain m ops)"
proof -
  obtain r where ops: "ops = [OP_REG r]"
    using assms by (auto simp: enc_unary_def split: list.splits Operand.splits)
  have v: "valid_integer_width (reg_width_bits r)"
    using assms(1) by (simp add: ops enc_unary_def Let_def split: if_splits)
  show ?thesis
    using assms(2) encodes_group [OF v refl, where ?o8.0 = "0xF6" and ?k8.0 = I8_test and ofull = "0xF7" and kf = Iz_test and g = 2 and m = OPCODE_NOT]
      encodes_group [OF v refl, where ?o8.0 = "0xF6" and ?k8.0 = I8_test and ofull = "0xF7" and kf = Iz_test and g = 3 and m = OPCODE_NEG]
      encodes_group [OF v refl, where ?o8.0 = "0xFE" and ?k8.0 = I0 and ofull = "0xFF" and kf = I0 and g = 0 and m = OPCODE_INC]
      encodes_group [OF v refl, where ?o8.0 = "0xFE" and ?k8.0 = I0 and ofull = "0xFF" and kf = I0 and g = 1 and m = OPCODE_DEC] v
    by (auto simp: ops enc_unary_def Let_def emit_simps fam read_group3_def read_group45_def)
qed

lemma enc_cqo_ok:
  assumes "\<not> enc_error (enc_cqo ops)"
  shows "encodes (enc_cqo ops) (plain OPCODE_CQO ops)"
proof -
  have "ops = []" using assms by (auto simp: enc_cqo_def split: if_splits)
  have "encodes (from_buf (capped ([] @ opt_rex True (rex_byte True False False False) @ [0x99] @ [] @ [])))
      (OPCODE_CQO, [])"
    by (rule encodes_mk [OF refl]) (simp_all add: wf_raw_def read_insn_def fam opsize_def)
  then show ?thesis
    using \<open>ops = []\<close> by (simp add: enc_cqo_def plain_def emit_simps opt_rex_def rex_byte_def)
qed

lemma enc_imul2_ok:
  assumes "\<not> enc_error (enc_imul2 d src)" "operand_is_mem src \<or> (\<exists>s. src = OP_REG s)"
  shows "encodes (enc_imul2 d src) (plain OPCODE_IMUL [OP_REG d, src])"
proof -
  define w where "w = reg_width_bits d"
  have w: "w \<noteq> 8" "valid_integer_width w"
    using assms(1) by (simp_all add: enc_imul2_def Let_def w_def split: if_splits)
  then have z: "opsize (mkw w d rm opc mrm imm) = w" for rm opc mrm imm
    by (auto simp: valid_integer_width_def intro: opsize_mkw)
  have reg: "encodes (from_buf (capped (prefix_bytes w @ rex_bytes w d s @ [0x0F, 0xAF] @ [modrm_byte 3 (rf d) (rf s)] @ [])))
      (plain OPCODE_IMUL [OP_REG d, OP_REG s])" if "reg_width_bits s = w" for s
    by (rule encodes_mkw [OF refl]) (use w that z in \<open>auto simp: fam w_def [symmetric] plain_reg valid_integer_width_def\<close>)
  have mem: "encodes (from_buf (capped (prefix_bytes w @ rex_bytes w d base @ [0x0F, 0xAF] @ mem_bytes (rf d) base disp @ [])))
      (OPCODE_IMUL, [AReg w (reg_index d), AMem (reg_index base) (sint disp)])" if "reg_width_bits base = 64" for base disp
    by (rule encodes_mkw [OF refl]) (use w that z in \<open>auto simp: fam w_def [symmetric] valid_integer_width_def\<close>)
  show ?thesis
    using assms reg mem [of "mem_base src" "operand_disp src"] same_widthD [of d]
    by (cases src) (auto simp: enc_imul2_def Let_def emit_simps w_def plain_reg split: if_split_asm)
qed

lemma enc_imul3_ok:
  assumes "\<not> enc_error (enc_imul3 d s v)"
  shows "encodes (enc_imul3 d s v) (plain OPCODE_IMUL [OP_REG d, OP_REG s, OP_IMM v])"
proof -
  define w where "w = reg_width_bits d"
  have same: "same_register_width d s" and w8: "w \<noteq> 8" and rej: "\<not> imm_rejected w v"
    using assms by (simp_all add: enc_imul3_def Let_def w_def split: if_splits)
  have w: "w = 16 \<or> w = 32 \<or> w = 64" "reg_width_bits s = w" "reg_width_bits d = w"
    using same_widthD [OF same] w8 by (auto simp: w_def valid_integer_width_def)
  have p: "plain OPCODE_IMUL [OP_REG d, OP_REG s, OP_IMM v] =
      (OPCODE_IMUL, [AReg w (reg_index d), AReg w (reg_index s), AImm (sint v mod 2 ^ nat w)])"
    by (simp add: plain_reg w)
  let ?bs = "\<lambda>opc imm. prefix_bytes w @ rex_bytes w d s @ [opc] @ [modrm_byte 3 (rf d) (rf s)] @ imm"
  have i8: "encodes (from_buf (capped (?bs 0x6B [ucast v]))) (plain OPCODE_IMUL [OP_REG d, OP_REG s, OP_IMM v])"
    if "immediate_fits_i8 v"
    unfolding p by (rule encodes_mkw [OF refl]) (use w that in \<open>auto simp: fam imm_reads\<close>)
  have i16: "encodes (from_buf (capped (?bs 0x69 [ucast v, ucast (signed_drop_bit 8 v)])))
      (plain OPCODE_IMUL [OP_REG d, OP_REG s, OP_IMM v])" if "w = 16"
    unfolding p by (rule encodes_mkw [OF refl]) (use w that in \<open>auto simp: fam imm_reads\<close>)
  have i32: "encodes (from_buf (capped (?bs 0x69 (le_bytes 4 (ucast v :: i32)))))
      (plain OPCODE_IMUL [OP_REG d, OP_REG s, OP_IMM v])" if "w = 32 \<or> w = 64"
    unfolding p by (rule encodes_mkw [OF refl])
      (use w that imm_not_rejected [OF rej] in \<open>auto simp: fam imm_opnd_32 imm_opnd_sx32\<close>)
  show ?thesis
    using same w8 rej i8 i16 i32 w
    by (auto simp: enc_imul3_def Let_def emit_simps w_def [symmetric])
qed

lemma enc_imul_ok:
  assumes "\<not> enc_error (enc_imul ops)"
  shows "encodes (enc_imul ops) (plain OPCODE_IMUL ops)"
  using assms enc_imul2_ok enc_imul3_ok
  by (auto simp: enc_imul_def split: list.splits Operand.splits)

section \<open>Shifts\<close>

definition shift_spec :: "OpcodeEnum \<Rightarrow> Operand list \<Rightarrow> insn" where
  "shift_spec m ops = (m, case ops of
     [OP_REG r, OP_IMM v] \<Rightarrow> [AReg (reg_width_bits r) (reg_index r), AImm (sint v mod 256)]
   | [OP_REG r, _] \<Rightarrow> [AReg (reg_width_bits r) (reg_index r), AReg 8 1]
   | _ \<Rightarrow> [])"

lemma enc_shift_ok:
  assumes "\<not> enc_error (enc_shift ops e)" "shift_op (uint e) = Some m" "uint e < 8"
  shows "encodes (enc_shift ops e) (shift_spec m ops)"
proof -
  obtain r c where ops: "ops = [OP_REG r, c]"
    using assms by (auto simp: enc_shift_def split: list.splits Operand.splits)
  define w where "w = reg_width_bits r"
  have v: "valid_integer_width w"
    using assms(1) by (simp add: ops enc_shift_def Let_def w_def split: if_splits)
  have e: "uint e mod 8 = uint e" using assms(3) by simp
  let ?r = "AReg w (reg_index r)"
  let ?bs = "\<lambda>opc imm. prefix_bytes w @ rex_bytes w REG_INVALID r @ [opc, modrm_byte 3 (uint e) (rf r)] @ imm"
  have one: "encodes (from_buf (capped (?bs (if w = 8 then 0xD0 else 0xD1) []))) (m, [?r, AImm 1])"
    using v by (intro encodes_ri [OF refl, where k = I0])
      (auto simp: fam e assms(2) w_def [symmetric] valid_integer_width_def)
  have cl: "encodes (from_buf (capped (?bs (if w = 8 then 0xD2 else 0xD3) []))) (m, [?r, AReg 8 1])"
    using v by (intro encodes_ri [OF refl, where k = I0])
      (auto simp: fam e assms(2) w_def [symmetric] valid_integer_width_def)
  have imm: "encodes (from_buf (capped (?bs (if w = 8 then 0xC0 else 0xC1) [ucast n])))
      (m, [?r, AImm (sint n mod 256)])" for n :: i64
    using v imm_opnd_8 [where v = n] by (intro encodes_ri [OF refl, where k = I8])
      (auto simp: fam e assms(2) w_def [symmetric] valid_integer_width_def)
  show ?thesis
    using assms(1) v one cl imm
    by (cases c) (auto simp: ops enc_shift_def shift_spec_def Let_def emit_simps
        w_def [symmetric] split: if_split_asm)
qed

section \<open>TEST and SETcc\<close>

lemma enc_test_imm_ok:
  assumes "\<not> enc_error (enc_test_imm d v)"
  shows "encodes (enc_test_imm d v) (plain OPCODE_TEST [OP_REG d, OP_IMM v])"
proof -
  define w where "w = reg_width_bits d"
  have valid: "valid_integer_width w" and rej: "\<not> imm_rejected w v"
    using assms by (simp_all add: enc_test_imm_def Let_def w_def split: if_splits)
  have p: "plain OPCODE_TEST [OP_REG d, OP_IMM v] = (OPCODE_TEST, [AReg w (reg_index d), AImm (sint v mod 2 ^ nat w)])"
    by (simp add: plain_reg w_def)
  let ?bs = "\<lambda>opc imm. prefix_bytes w @ rex_bytes w REG_INVALID d @ [opc, modrm_byte 3 0 (rf d)] @ imm"
  have i8: "encodes (from_buf (capped (?bs 0xF6 [ucast v]))) (plain OPCODE_TEST [OP_REG d, OP_IMM v])"
    if "w = 8"
    unfolding p by (rule encodes_ri [OF refl, where k = I8_test])
      (use that in \<open>simp_all add: fam read_group3_def w_def [symmetric] imm_reads\<close>)
  have i16: "encodes (from_buf (capped (?bs 0xF7 [ucast v, ucast (signed_drop_bit 8 v)])))
      (plain OPCODE_TEST [OP_REG d, OP_IMM v])" if "w = 16"
    unfolding p by (rule encodes_ri [OF refl, where k = Iz_test])
      (use that in \<open>simp_all add: fam read_group3_def w_def [symmetric] imm_reads\<close>)
  have i32: "encodes (from_buf (capped (?bs 0xF7 (le_bytes 4 (ucast v :: i32)))))
      (plain OPCODE_TEST [OP_REG d, OP_IMM v])" if "w = 32 \<or> w = 64"
    unfolding p by (rule encodes_ri [OF refl, where k = Iz_test])
      (use that imm_not_rejected [OF rej] in \<open>auto simp: fam read_group3_def w_def [symmetric] imm_opnd_32 imm_opnd_sx32\<close>)
  show ?thesis
    using valid rej i8 i16 i32
    by (auto simp: enc_test_imm_def Let_def emit_simps w_def [symmetric] valid_integer_width_def)
qed

lemma test_pair: "byte_or_full 0x84 0x85 OPCODE_TEST rm_reg"
  by (simp add: byte_or_full_def fam)

lemma enc_test_ok:
  assumes "\<not> enc_error (enc_test ops)"
  shows "encodes (enc_test ops) (plain OPCODE_TEST ops)"
  using assms encodes_rr_same [OF test_pair] unfolding enc_test_def
  by (simp add: Let_def enc_test_imm_ok split del: if_split split: if_split_asm list.splits Operand.splits)

lemma enc_setcc_ok:
  assumes "\<not> enc_error (enc_setcc ops c)" "info2 c = Some (True, I0)"
    "\<And>x. read_insn2 x c = ins m [rm_opnd x 8]"
  shows "encodes (enc_setcc ops c) (plain m ops)"
proof -
  obtain dst where ops: "ops = [dst]"
    using assms by (auto simp: enc_setcc_def split: list.splits)
  have reg: "encodes (from_buf (capped (prefix_bytes 8 @ rex_bytes 8 REG_INVALID r @ [0x0F, c] @ [modrm_byte 3 0 (rf r)] @ [])))
      (m, [AReg 8 (reg_index r)])" if "reg_width_bits r = 8" for r
    by (rule encodes_mkw [OF refl]) (use assms(2,3) that in \<open>auto simp: fam\<close>)
  have mem: "encodes (from_buf (capped (prefix_bytes 8 @ rex_bytes 8 REG_INVALID base @ [0x0F, c] @ mem_bytes 0 base disp @ [])))
      (m, [AMem (reg_index base) (sint disp)])" if "reg_width_bits base = 64" for base disp
    by (rule encodes_mkw [OF refl]) (use assms(2,3) that in \<open>auto simp: fam\<close>)
  show ?thesis
    using assms(1) reg mem [of "mem_base dst" "operand_disp dst"]
    by (cases dst) (auto simp: ops enc_setcc_def Let_def emit_simps plain_def first_width_def
        prefix_bytes_def split: if_splits)
qed

section \<open>Control flow\<close>

definition branch_spec :: "OpcodeEnum \<Rightarrow> Operand list \<Rightarrow> i64 \<Rightarrow> insn" where
  "branch_spec m ops t = (m, case ops of
     [OP_REG r] \<Rightarrow> [AReg (reg_width_bits r) (reg_index r)] | _ \<Rightarrow> [ARel (sint t)])"

lemma encodes_branch_reg:
  assumes "reg_width_bits r = 64" "(m, g) \<in> {(OPCODE_JMP, 4), (OPCODE_CALL, 2)}"
  shows "encodes (from_buf (capped (opt_rex (rex_required False False False (rex_b r))
           (rex_byte False False False (rex_b r)) @ [0xFF, modrm_byte 3 g (rf r)]))) (branch_spec m [OP_REG r] t)"
proof -
  let ?x = "mk [] (reg_needs_rex r) False False (reg_needs_rex r) [0xFF] [modrm_byte 3 g (rf r)] []"
  have rm: "rm_opnd ?x 64 = Some (AReg 64 (reg_index r))"
    using assms(1) by (intro rm_opnd_reg_mk) (auto simp: reg_requires_rex_byte_def)
  have z: "opsize ?x = 32" by (simp add: opsize_def)
  have "encodes (from_buf (capped ([] @ opt_rex (reg_needs_rex r) (rex_byte False False False (reg_needs_rex r))
      @ [0xFF] @ [modrm_byte 3 g (rf r)] @ []))) (branch_spec m [OP_REG r] t)"
    by (rule encodes_mk [OF refl])
      (use assms rm z in \<open>auto simp: wf_raw_def read_insn_def fam read_group45_def branch_spec_def\<close>)
  then show ?thesis by (simp add: emit_simps rex_b_def rex_required_def)
qed

lemma encodes_branch_rel:
  assumes "immediate_fits_i32 t" "pre = [opc] \<and> info1 opc = Some (False, I32)
       \<and> (\<forall>x. read_insn1 x opc = ins m [rel_opnd x])
     \<or> pre = [0x0F, opc] \<and> info2 opc = Some (False, I32) \<and> (\<forall>x. read_insn2 x opc = ins m [rel_opnd x])"
  shows "encodes (from_buf (capped (pre @ le_bytes 4 (ucast t :: i32)))) (branch_spec m [OP_LABEL s] t)"
  by (rule encodes_mk [where pfx = "[]" and c = False and opc = pre and mrm = "[]" and imm = "le_bytes 4 (ucast t :: i32)"])
    (use assms in \<open>auto simp: wf_raw_def read_insn_def fam branch_spec_def opt_rex_def rel_opnd_32\<close>)

lemma enc_jmp_ok:
  assumes "\<not> enc_error (enc_jmp ops t)"
  shows "encodes (enc_jmp ops t) (branch_spec OPCODE_JMP ops t)"
  using assms encodes_branch_rel [where t = t and pre = "[0xE9]" and opc = "0xE9" and m = OPCODE_JMP]
  by (auto simp: enc_jmp_def encodes_branch_reg emit_simps fam split: list.splits Operand.splits if_splits)

lemma enc_call_ok:
  assumes "\<not> enc_error (enc_call ops t)"
  shows "encodes (enc_call ops t) (branch_spec OPCODE_CALL ops t)"
  using assms encodes_branch_rel [where t = t and pre = "[0xE8]" and opc = "0xE8" and m = OPCODE_CALL]
  by (auto simp: enc_call_def encodes_branch_reg emit_simps fam split: list.splits Operand.splits if_splits)

lemma enc_jcc_ok:
  assumes "\<not> enc_error (enc_jcc ops t c)" "info2 c = Some (False, I32)"
    "\<And>x. read_insn2 x c = ins m [rel_opnd x]"
  shows "encodes (enc_jcc ops t c) (branch_spec m ops t)"
  using assms encodes_branch_rel [where t = t and pre = "[0x0F, c]" and opc = c and m = m]
  by (auto simp: enc_jcc_def emit_simps split: list.splits Operand.splits if_splits)

section \<open>System instructions\<close>

lemma encodes_bare:
  assumes "pre = [opc] \<and> info1 opc = Some (False, I0) \<and> (\<forall>x. read_insn1 x opc = ins m [])
     \<or> pre = [0x0F, opc] \<and> info2 opc = Some (False, I0) \<and> (\<forall>x. read_insn2 x opc = ins m [])"
  shows "encodes (from_buf (capped pre)) (m, [])"
  by (rule encodes_mk [where pfx = "[]" and c = False and opc = pre and mrm = "[]" and imm = "[]"])
    (use assms in \<open>auto simp: wf_raw_def read_insn_def fam opt_rex_def\<close>)

lemma encodes_bare1:
  "info1 opc = Some (False, I0) \<Longrightarrow> \<forall>x. read_insn1 x opc = ins m [] \<Longrightarrow> encodes (from_buf (capped [opc])) (m, [])"
  using encodes_bare [of "[opc]" opc m] by simp

lemma encodes_bare2:
  "info2 opc = Some (False, I0) \<Longrightarrow> \<forall>x. read_insn2 x opc = ins m [] \<Longrightarrow>
     encodes (from_buf (capped [0x0F, opc])) (m, [])"
  using encodes_bare [of "[0x0F, opc]" opc m] by simp

lemma enc_bare_ok:
  "encodes enc_ret (OPCODE_RET, [])" "encodes enc_nop (OPCODE_NOP, [])"
  "encodes enc_rdtsc (OPCODE_RDTSC, [])" "encodes enc_hlt (OPCODE_HLT, [])"
  "encodes enc_syscall (OPCODE_SYSCALL, [])"
  by (simp_all add: enc_ret_def enc_nop_def enc_rdtsc_def enc_hlt_def enc_syscall_def emit_simps
      encodes_bare1 encodes_bare2 fam)

lemma enc_int_ok:
  assumes "\<not> enc_error (enc_int ops)"
  shows "encodes (enc_int ops) (plain OPCODE_INT ops)"
proof -
  obtain v where ops: "ops = [OP_IMM v]" "immediate_fits_u8 v"
    using assms by (auto simp: enc_int_def split: list.splits Operand.splits if_splits)
  have "encodes (from_buf (capped ([] @ opt_rex False (rex_byte False False False False) @ [0xCD] @ [] @ [ucast v])))
      (plain OPCODE_INT ops)"
    by (rule encodes_mk [OF refl])
      (use imm_opnd_8 [where v = v] in \<open>simp_all add: wf_raw_def read_insn_def fam ops plain_def first_width_def\<close>)
  then show ?thesis by (simp add: ops enc_int_def emit_simps opt_rex_def)
qed

section \<open>LEA\<close>

lemma encodes_lea:
  assumes "reg_width_bits d = 64" "mrm_size mrm = Some (length mrm)" "mrm_reg mrm = rf d"
    "\<And>x. rm_opnd (mkw 64 d rm [0x8D] mrm []) 64 = Some a"
  shows "encodes (from_buf (capped (prefix_bytes 64 @ rex_bytes 64 d rm @ [0x8D] @ mrm @ [])))
           (OPCODE_LEA, [AReg 64 (reg_index d), a])"
  by (rule encodes_mkw [OF refl]) (use assms in \<open>auto simp: fam\<close>)

lemma enc_lea_ok:
  assumes "\<not> enc_error (enc_lea ops)"
  shows "encodes (enc_lea ops) (plain OPCODE_LEA ops)"
proof -
  obtain d src where ops: "ops = [OP_REG d, src]"
    using assms by (auto simp: enc_lea_def split: list.splits Operand.splits)
  have d: "reg_width_bits d = 64"
    using assms by (auto simp: ops enc_lea_def split: Operand.splits if_splits)
  have mem: "encodes (from_buf (capped (prefix_bytes 64 @ rex_bytes 64 d base @ [0x8D] @ mem_bytes (rf d) base disp @ [])))
      (OPCODE_LEA, [AReg 64 (reg_index d), AMem (reg_index base) (sint disp)])"
    if "reg_width_bits base = 64" for base disp
    by (rule encodes_lea) (use d that in \<open>simp_all add: fam\<close>)
  have rip: "encodes (from_buf (capped (prefix_bytes 64 @ rex_bytes 64 d REG_INVALID @ [0x8D]
      @ (modrm_byte 0 (rf d) 5 # le_bytes 4 (0 :: i32)) @ []))) (OPCODE_LEA, [AReg 64 (reg_index d), ARip 0])"
    by (rule encodes_lea) (use d in \<open>simp_all add: fam disp_size_def\<close>)
  show ?thesis
    using assms d mem [of "mem_base src" "operand_disp src"] rip
    by (cases src) (auto simp: ops enc_lea_def plain_reg emit_simps split: if_splits)
qed

section \<open>Scalar SSE2\<close>

definition mkx :: "u8 \<Rightarrow> bool \<Rightarrow> RegId \<Rightarrow> RegId \<Rightarrow> u8 \<Rightarrow> u8 list \<Rightarrow> raw" where
  "mkx p w rg rm opc mrm =
     mk [p] (rex_required w (reg_needs_rex rg) False (reg_needs_rex rm)) w (reg_needs_rex rg)
       (reg_needs_rex rm) [0x0F, opc] mrm []"

lemma mkx_opnds [fam]:
  "reg_width_bits rg = v \<Longrightarrow> v \<noteq> 0 \<Longrightarrow> v \<noteq> 8 \<Longrightarrow> mrm_reg mrm = rf rg \<Longrightarrow>
     reg_opnd (mkx p w rg rm opc mrm) v = Some (AReg v (reg_index rg))"
  "reg_width_bits rm = v \<Longrightarrow> v \<noteq> 0 \<Longrightarrow> v \<noteq> 8 \<Longrightarrow>
     rm_opnd (mkx p w rg rm opc [modrm_byte 3 g (rf rm)]) v = Some (AReg v (reg_index rm))"
  "reg_width_bits rm = 64 \<Longrightarrow>
     rm_opnd (mkx p w rg rm opc (mem_bytes g rm d)) v' = Some (AMem (reg_index rm) (sint d))"
  "has_w (r_rex (mkx p w rg rm opc mrm)) \<longleftrightarrow> w"
  unfolding mkx_def
  by (auto intro!: reg_opnd_mk rm_opnd_reg_mk rm_opnd_mem_mk simp: reg_requires_rex_byte_def rex_required_def)

lemma encodes_sse:
  assumes "is_legacy p" "is_sse2_opcode opc" "info2 opc = Some (True, I0)"
    "mrm_size mrm = Some (length mrm)" "read_sse (mkx p w rg rm opc mrm) p opc = Some i"
  shows "encodes (from_buf (capped ([p] @ opt_rex (rex_required w (reg_needs_rex rg) False (reg_needs_rex rm))
           (rex_byte w (reg_needs_rex rg) False (reg_needs_rex rm)) @ [0x0F, opc] @ mrm))) i"
proof (rule encodes_from_buf)
  show "wf_raw (mkx p w rg rm opc mrm)"
    unfolding mkx_def using assms by (intro wf_mk [where m = True and k = I0]) (simp_all add: fam)
  show "read_insn (mkx p w rg rm opc mrm) = Some i"
    using assms by (simp add: mkx_def read_insn_def read2_sse)
qed (simp add: mkx_def raw_bytes_mk)

lemma legacy_prefixes [fam]: "is_legacy 0x66" "is_legacy 0xF2" "is_legacy 0xF3"
  by (simp_all add: is_legacy_def)

lemma rf_reg_field: "reg_field = rf"
  by (simp add: fun_eq_iff rf_def)

definition sse_row :: "OpcodeEnum \<Rightarrow> u8 \<Rightarrow> u8 \<Rightarrow> bool" where
  "sse_row m p opc \<longleftrightarrow> is_legacy p \<and> is_sse2_opcode opc \<and> info2 opc = Some (True, I0)
     \<and> (\<forall>x. read_sse x p opc = ins m [reg_opnd x 128, rm_opnd x 128])"

lemma sse_rows:
  "sse_row OPCODE_ADDSD 0xF2 0x58" "sse_row OPCODE_SUBSD 0xF2 0x5C" "sse_row OPCODE_MULSD 0xF2 0x59"
  "sse_row OPCODE_DIVSD 0xF2 0x5E" "sse_row OPCODE_UCOMISD 0x66 0x2E" "sse_row OPCODE_XORPD 0x66 0x57"
  by (simp_all add: sse_row_def fam read_sse_def Let_def)

lemma encode_xmm_binary_ok:
  assumes "sse_row m p opc" "\<not> enc_error (encode_xmm_binary ops p opc)"
  shows "encodes (encode_xmm_binary ops p opc) (plain m ops)"
proof -
  obtain d s where ops: "ops = [OP_REG d, OP_REG s]"
    and w: "reg_width_bits d = 128" "reg_width_bits s = 128"
    using assms(2) by (auto simp: encode_xmm_binary_def emit_simps reg_is_xmm_width
        split: list.splits Operand.splits if_splits)
  have "encodes (from_buf (capped ([p] @ opt_rex (rex_required False (reg_needs_rex d) False (reg_needs_rex s))
      (rex_byte False (reg_needs_rex d) False (reg_needs_rex s)) @ [0x0F, opc] @ [modrm_byte 3 (rf d) (rf s)])))
      (plain m ops)"
    by (rule encodes_sse) (use assms(1) w in \<open>simp_all add: sse_row_def fam ops plain_reg\<close>)
  then show ?thesis
    using w by (simp add: encode_xmm_binary_def ops emit_simps reg_is_xmm_width rf_reg_field)
qed

lemma encode_cvtsi2sd_ok:
  assumes "\<not> enc_error (encode_cvtsi2sd ops)"
  shows "encodes (encode_cvtsi2sd ops) (plain OPCODE_CVTSI2SD ops)"
proof -
  obtain d s where ops: "ops = [OP_REG d, OP_REG s]" and d: "reg_width_bits d = 128"
    and s: "reg_width_bits s = 32 \<or> reg_width_bits s = 64"
    using assms by (auto simp: encode_cvtsi2sd_def emit_simps Let_def reg_is_xmm_width
        split: list.splits Operand.splits if_splits)
  let ?w = "reg_width_bits s = 64"
  have "encodes (from_buf (capped ([0xF2] @ opt_rex (rex_required ?w (reg_needs_rex d) False (reg_needs_rex s))
      (rex_byte ?w (reg_needs_rex d) False (reg_needs_rex s)) @ [0x0F, 0x2A] @ [modrm_byte 3 (rf d) (rf s)])))
      (plain OPCODE_CVTSI2SD ops)"
    by (rule encodes_sse) (use d s in \<open>auto simp: fam ops plain_reg read_sse_def Let_def\<close>)
  then show ?thesis
    using d s by (auto simp: encode_cvtsi2sd_def ops emit_simps Let_def reg_is_xmm_width reg_is_gpr_width rf_reg_field)
qed

lemma encode_cvttsd2si_ok:
  assumes "\<not> enc_error (encode_cvttsd2si ops)"
  shows "encodes (encode_cvttsd2si ops) (plain OPCODE_CVTTSD2SI ops)"
proof -
  obtain d s where ops: "ops = [OP_REG d, OP_REG s]" and s: "reg_width_bits s = 128"
    and d: "reg_width_bits d = 32 \<or> reg_width_bits d = 64"
    using assms by (auto simp: encode_cvttsd2si_def emit_simps Let_def reg_is_xmm_width
        split: list.splits Operand.splits if_splits)
  let ?w = "reg_width_bits d = 64"
  have "encodes (from_buf (capped ([0xF2] @ opt_rex (rex_required ?w (reg_needs_rex d) False (reg_needs_rex s))
      (rex_byte ?w (reg_needs_rex d) False (reg_needs_rex s)) @ [0x0F, 0x2C] @ [modrm_byte 3 (rf d) (rf s)])))
      (plain OPCODE_CVTTSD2SI ops)"
    by (rule encodes_sse) (use d s in \<open>auto simp: fam ops plain_reg read_sse_def Let_def\<close>)
  then show ?thesis
    using d s by (auto simp: encode_cvttsd2si_def ops emit_simps Let_def reg_is_xmm_width reg_is_gpr_width rf_reg_field)
qed

text \<open>The XMM forms of MOV: five shapes, chosen by the kinds of the two operands.\<close>

lemma xmm_operandD: "is_xmm_operand a \<Longrightarrow> \<exists>r. a = OP_REG r \<and> reg_width_bits r = 128"
  by (cases a) (simp_all add: reg_is_xmm_width)

lemma gpr64_operandD: "is_gpr64_operand a \<Longrightarrow> \<exists>r. a = OP_REG r \<and> reg_width_bits r = 64"
  by (cases a) simp_all

lemma valid_memory_baseD:
  "valid_memory_base a \<Longrightarrow> reg_width_bits (mem_base a) = 64
     \<and> denote_op w a = AMem (reg_index (mem_base a)) (sint (operand_disp a))"
  by (cases a) (simp_all add: valid_memory_base_def)

lemma sse2_encode_move_ok:
  assumes "\<not> enc_error (sse2_encode_move ops)"
  shows "encodes (sse2_encode_move ops) (plain OPCODE_MOV ops)"
proof -
  obtain d s where ops: "ops = [d, s]"
    using assms by (auto simp: sse2_encode_move_def emit_simps split: list.splits)
  have rr: "encodes (from_buf (capped ([p] @ opt_rex (rex_required w (reg_needs_rex a) False (reg_needs_rex b))
      (rex_byte w (reg_needs_rex a) False (reg_needs_rex b)) @ [0x0F, opc] @ [modrm_byte 3 (rf a) (rf b)])))
      (OPCODE_MOV, i)"
    if "reg_width_bits a = 128" "reg_width_bits b = v"
      "(p, w, opc, v, i) \<in> {(0xF3, False, 0x7E, 128, [AReg 128 (reg_index a), AReg 128 (reg_index b)]),
         (0x66, True, 0x6E, 64, [AReg 128 (reg_index a), AReg 64 (reg_index b)]),
         (0x66, True, 0x7E, 64, [AReg 64 (reg_index b), AReg 128 (reg_index a)])}" for p w a b opc v i
    by (rule encodes_sse) (use that in \<open>auto simp: fam read_sse_def Let_def\<close>)
  have rm: "encodes (from_buf (capped ([p] @ opt_rex (rex_required False (reg_needs_rex a) False (reg_needs_rex b))
      (rex_byte False (reg_needs_rex a) False (reg_needs_rex b)) @ [0x0F, opc] @ mem_bytes (rf a) b disp)))
      (OPCODE_MOV, i)"
    if "reg_width_bits a = 128" "reg_width_bits b = 64"
      "(p, opc, i) \<in> {(0xF3, 0x7E, [AReg 128 (reg_index a), AMem (reg_index b) (sint disp)]),
         (0x66, 0xD6, [AMem (reg_index b) (sint disp), AReg 128 (reg_index a)])}" for p a b opc disp i
    by (rule encodes_sse) (use that in \<open>auto simp: fam read_sse_def Let_def\<close>)
  consider (xx) "is_xmm_operand d" "is_xmm_operand s"
    | (xg) "is_xmm_operand d" "is_gpr64_operand s" "\<not> is_xmm_operand s"
    | (xm) "is_xmm_operand d" "valid_memory_base s" "\<not> is_xmm_operand s" "\<not> is_gpr64_operand s"
    | (gx) "is_gpr64_operand d" "is_xmm_operand s" "\<not> is_xmm_operand d"
    | (mx) "valid_memory_base d" "is_xmm_operand s" "\<not> is_xmm_operand d" "\<not> is_gpr64_operand d"
    using assms by (auto simp: ops sse2_encode_move_def emit_simps split: if_splits)
  then show ?thesis
  proof cases
    case xx
    then show ?thesis using rr
      by (auto dest!: xmm_operandD simp: ops sse2_encode_move_def emit_simps rf_reg_field plain_reg reg_is_xmm_width)
  next
    case xg
    then show ?thesis using rr
      by (auto dest!: xmm_operandD gpr64_operandD simp: ops sse2_encode_move_def emit_simps rf_reg_field plain_reg
          reg_is_xmm_width reg_is_gpr_width)
  next
    case xm
    then show ?thesis using rm valid_memory_baseD [OF xm(2)]
      by (auto dest!: xmm_operandD simp: ops sse2_encode_move_def emit_simps rf_reg_field plain_reg reg_is_xmm_width)
  next
    case gx
    then show ?thesis using rr
      by (auto dest!: xmm_operandD gpr64_operandD simp: ops sse2_encode_move_def emit_simps rf_reg_field plain_reg
          reg_is_xmm_width reg_is_gpr_width)
  next
    case mx
    then show ?thesis using rm valid_memory_baseD [OF mx(1)]
      by (auto dest!: xmm_operandD simp: ops sse2_encode_move_def emit_simps rf_reg_field plain_def reg_is_xmm_width)
  qed
qed

section \<open>All opcodes\<close>

text \<open>
  What an instruction means: JZ and JNZ are other names of JE and JNE, a branch to a label has
  the resolved displacement as its operand, a shift count in a register is CL, and the
  instructions without operands have none; every other instruction keeps its operands.
\<close>

definition denote :: "OpcodeEnum \<Rightarrow> Operand list \<Rightarrow> i64 \<Rightarrow> insn" where
  "denote opc ops t = (case opc of
   OPCODE_JMP \<Rightarrow> branch_spec opc ops t
   | OPCODE_CALL \<Rightarrow> branch_spec opc ops t
   | OPCODE_JE \<Rightarrow> branch_spec opc ops t
   | OPCODE_JNE \<Rightarrow> branch_spec opc ops t
   | OPCODE_JG \<Rightarrow> branch_spec opc ops t
   | OPCODE_JGE \<Rightarrow> branch_spec opc ops t
   | OPCODE_JL \<Rightarrow> branch_spec opc ops t
   | OPCODE_JLE \<Rightarrow> branch_spec opc ops t
   | OPCODE_JS \<Rightarrow> branch_spec opc ops t
   | OPCODE_JNS \<Rightarrow> branch_spec opc ops t
   | OPCODE_JZ \<Rightarrow> branch_spec OPCODE_JE ops t
   | OPCODE_JNZ \<Rightarrow> branch_spec OPCODE_JNE ops t
   | OPCODE_SHL \<Rightarrow> shift_spec opc ops
   | OPCODE_SHR \<Rightarrow> shift_spec opc ops
   | OPCODE_SAR \<Rightarrow> shift_spec opc ops
   | OPCODE_RET \<Rightarrow> (opc, [])
   | OPCODE_SYSCALL \<Rightarrow> (opc, [])
   | OPCODE_NOP \<Rightarrow> (opc, [])
   | OPCODE_RDTSC \<Rightarrow> (opc, [])
   | OPCODE_HLT \<Rightarrow> (opc, [])
   | _ \<Rightarrow> plain opc ops)"

lemma enc_plain_ok [intro]:
  "\<not> enc_error (enc_movx ops False) \<Longrightarrow> encodes (enc_movx ops False) (plain OPCODE_MOVZX ops)"
  "\<not> enc_error (enc_movx ops True) \<Longrightarrow> encodes (enc_movx ops True) (plain OPCODE_MOVSX ops)"
  "\<not> enc_error (enc_idiv ops) \<Longrightarrow> encodes (enc_idiv ops) (plain OPCODE_IDIV ops)"
  "\<not> enc_error (enc_div ops) \<Longrightarrow> encodes (enc_div ops) (plain OPCODE_DIV ops)"
  using enc_movx_ok [of ops False] enc_movx_ok [of ops True]
  by (simp_all add: enc_idiv_def enc_div_def enc_divide_ok)

lemma enc_setcc_rows:
  "(c, m) \<in> {(0x94, OPCODE_SETE), (0x95, OPCODE_SETNE), (0x9F, OPCODE_SETG), (0x9C, OPCODE_SETL), (0x9D, OPCODE_SETGE), (0x9E, OPCODE_SETLE), (0x97, OPCODE_SETA), (0x92, OPCODE_SETB), (0x93, OPCODE_SETAE), (0x96, OPCODE_SETBE), (0x9A, OPCODE_SETP), (0x9B, OPCODE_SETNP)} \<Longrightarrow>
     \<not> enc_error (enc_setcc ops c) \<Longrightarrow> encodes (enc_setcc ops c) (plain m ops)"
  by (rule enc_setcc_ok) (auto simp: fam)

lemma enc_jcc_rows:
  "(c, m) \<in> {(0x84, OPCODE_JE), (0x85, OPCODE_JNE), (0x8F, OPCODE_JG), (0x8D, OPCODE_JGE), (0x8C, OPCODE_JL), (0x8E, OPCODE_JLE), (0x88, OPCODE_JS), (0x89, OPCODE_JNS)} \<Longrightarrow>
     \<not> enc_error (enc_jcc ops t c) \<Longrightarrow> encodes (enc_jcc ops t c) (branch_spec m ops t)"
  by (rule enc_jcc_ok) (auto simp: fam)

lemma sse2_encode_ok:
  assumes "\<not> enc_error (sse2_encode opc ops)"
  shows "encodes (sse2_encode opc ops) (plain opc ops)"
  using assms unfolding sse2_encode_def
  by (cases opc)
    (simp_all add: emit_simps encode_cvtsi2sd_ok encode_cvttsd2si_ok
      encode_xmm_binary_ok [OF sse_rows(1)] encode_xmm_binary_ok [OF sse_rows(2)]
      encode_xmm_binary_ok [OF sse_rows(3)] encode_xmm_binary_ok [OF sse_rows(4)]
      encode_xmm_binary_ok [OF sse_rows(5)] encode_xmm_binary_ok [OF sse_rows(6)])

lemmas family_ok = enc_push_ok enc_pop_ok enc_lea_ok enc_imul_ok enc_cqo_ok enc_test_ok enc_jmp_ok
  enc_call_ok enc_int_ok enc_bare_ok enc_plain_ok sse2_encode_ok enc_mov_ok sse2_encode_move_ok
  alu_rows [THEN enc_alu_ok] enc_setcc_rows enc_jcc_rows enc_unary_ok enc_shift_ok

theorem encoder_encodes:
  assumes "\<not> enc_error (encoder_encode opc ops t)"
  shows "encodes (encoder_encode opc ops t) (denote opc ops t)"
  using assms unfolding encoder_encode_def denote_def
  by (cases opc) (simp_all add: family_ok shift_op_def split: if_splits)

section \<open>Lengths\<close>

lemma enc_len_from_buf: "enc_len (from_buf (capped xs)) = min (length xs) 15"
  by (simp add: from_buf_def capped_def MAX_INSTRUCTION_BYTES_def)

lemma enc_shift_size:
  "enc_error (enc_shift ops e) = enc_error (enc_shift ops e') \<and>
   enc_len (enc_shift ops e) = enc_len (enc_shift ops e')"
  by (simp add: enc_shift_def Let_def emit_simps enc_len_from_buf
      split: list.splits Operand.splits if_splits)

lemma size_of_ok [simp]: "\<not> enc_error e \<Longrightarrow> size_of e = enc_len e"
  by (simp add: size_of_def)

lemma bare_lens:
  "enc_len enc_ret = 1" "enc_len enc_nop = 1" "enc_len enc_rdtsc = 2" "enc_len enc_hlt = 1"
  "enc_len enc_syscall = 2"
  by (simp_all add: enc_ret_def enc_nop_def enc_rdtsc_def enc_hlt_def enc_syscall_def emit_simps
      enc_len_from_buf)

lemma size_push_pop_ok:
  "\<not> enc_error (enc_push ops) \<Longrightarrow> size_push_pop ops = enc_len (enc_push ops)"
  "\<not> enc_error (enc_pop ops) \<Longrightarrow> size_push_pop ops = enc_len (enc_pop ops)"
  by (auto simp: enc_push_def enc_pop_def size_push_pop_def emit_simps enc_len_from_buf rex_b_def
      split: list.splits Operand.splits if_split_asm)

lemma size_jmp_call_ok:
  "\<not> enc_error (enc_jmp ops t) \<Longrightarrow> size_jmp_call ops = enc_len (enc_jmp ops t)"
  "\<not> enc_error (enc_call ops t) \<Longrightarrow> size_jmp_call ops = enc_len (enc_call ops t)"
  by (auto simp: enc_jmp_def enc_call_def size_jmp_call_def emit_simps enc_len_from_buf rex_b_def
      rex_required_def split: list.splits Operand.splits if_split_asm)

lemma size_jcc_ok: "\<not> enc_error (enc_jcc ops t c) \<Longrightarrow> enc_len (enc_jcc ops t c) = 6"
  by (auto simp: enc_jcc_def emit_simps enc_len_from_buf split: list.splits Operand.splits if_split_asm)

lemma size_int_ok: "\<not> enc_error (enc_int ops) \<Longrightarrow> size_int ops = enc_len (enc_int ops)"
  by (auto simp: enc_int_def size_int_def emit_simps enc_len_from_buf
      split: list.splits Operand.splits if_split_asm)

lemma size_shift_ok: "\<not> enc_error (enc_shift ops e) \<Longrightarrow> size_shift ops = enc_len (enc_shift ops e)"
  using enc_shift_size [of ops e 4] by (simp add: size_shift_def)

lemmas size_ok = bare_lens size_push_pop_ok size_jmp_call_ok size_jcc_ok size_int_ok size_shift_ok
  size_mov_def size_alu_def

lemma encoder_size_agrees:
  assumes "\<not> enc_error (encoder_encode opc ops t)"
  shows "encoder_instruction_size opc ops = enc_len (encoder_encode opc ops t)"
  using assms unfolding encoder_encode_def encoder_instruction_size_def
  by (cases opc) (simp_all add: size_ok split: if_splits)

lemma encoder_len_bounds:
  assumes "\<not> enc_error (encoder_encode opc ops t)"
  shows "1 \<le> enc_len (encoder_encode opc ops t) \<and> enc_len (encoder_encode opc ops t) \<le> 14"
  using encoder_encodes [OF assms] wf_raw_length by (auto simp: encodes_def)

text \<open>The displacement argument matters only for branches to a label, and only by its range.\<close>

lemma encoder_error_target:
  assumes "immediate_fits_i32 t" "\<not> enc_error (encoder_encode opc ops s)"
  shows "\<not> enc_error (encoder_encode opc ops t)"
proof -
  have "\<not> enc_error (enc_jmp ops s) \<Longrightarrow> \<not> enc_error (enc_jmp ops t)"
    "\<not> enc_error (enc_call ops s) \<Longrightarrow> \<not> enc_error (enc_call ops t)"
    "\<not> enc_error (enc_jcc ops s c) \<Longrightarrow> \<not> enc_error (enc_jcc ops t c)" for c
    using assms(1)
    by (auto simp: enc_jmp_def enc_call_def enc_jcc_def split: list.splits Operand.splits if_splits)
  then show ?thesis
    using assms(2) unfolding encoder_encode_def by (cases opc) simp_all
qed

text \<open>Decoding what was encoded, alone and in a stream.\<close>

lemma encodes_decode: "encodes e i \<Longrightarrow> x86_decode (enc_bytes e @ rest) = Some (i, rest)"
  by (auto simp: encodes_def x86_decode_raw)

lemma encodes_nonempty: "encodes e i \<Longrightarrow> enc_bytes e \<noteq> []"
  using wf_raw_length by (force simp: encodes_def)

lemma decode_stream_step:
  assumes "encodes e i" "decode_stream n bs = Some is"
  shows "decode_stream (Suc n) (enc_bytes e @ bs) = Some (i # is)"
proof -
  obtain b r where "enc_bytes e @ bs = b # r"
    using encodes_nonempty [OF assms(1)] by (cases "enc_bytes e") auto
  then show ?thesis using encodes_decode [OF assms(1), of bs] assms(2) by simp
qed

lemma decode_stream_concat:
  assumes "list_all2 encodes es is"
  shows "decode_stream (length es) (concat (map enc_bytes es)) = Some is"
  using assms by (induction rule: list_all2_induct) (simp_all only: list.map concat.simps length_Cons
      decode_stream_step decode_stream.simps list.size)

end
