(* ===== verification/Encoder_Accept.thy ===== *)
theory Encoder_Accept
  imports Encoder_Correct
begin

text \<open>
  Which operands the encoder accepts. \<open>accepted\<close> is a table of operand forms per opcode, stated
  over operand kinds, register widths and immediate ranges; \<open>encoder_accepts\<close> shows that the
  encoder fails on exactly the other forms.
\<close>

section \<open>Operand forms\<close>

abbreviation width :: "RegId \<Rightarrow> int" where "width \<equiv> reg_width_bits"

definition gpr :: "RegId \<Rightarrow> bool" where "gpr r \<longleftrightarrow> width r \<in> {8, 16, 32, 64}"

definition mem64 :: "Operand \<Rightarrow> bool" where
  "mem64 m \<longleftrightarrow> operand_is_mem m \<and> width (mem_base m) = 64"

text \<open>
  The immediates of an operand of width \<open>w\<close>: signed or unsigned values of that width, and for
  64-bit operands the values a sign-extended 32-bit field can hold.
\<close>

definition imm_range :: "int \<Rightarrow> i64 \<Rightarrow> bool" where
  "imm_range w v \<longleftrightarrow>
     (if w = 64 then - (2 ^ 31) \<le> sint v \<and> sint v < 2 ^ 31
      else - (2 ^ nat (w - 1)) \<le> sint v \<and> sint v < 2 ^ nat w)"

definition mov_form :: "Operand list \<Rightarrow> bool" where
  "mov_form ops = (case ops of
     [OP_REG d, src] \<Rightarrow>
       (case src of
          OP_REG s \<Rightarrow> gpr d \<and> width s = width d \<or> width d = 128 \<and> width s \<in> {64, 128}
                      \<or> width d = 64 \<and> width s = 128
        | OP_IMM v \<Rightarrow> gpr d \<and> (width d = 64 \<or> imm_range (width d) v)
        | OP_LABEL _ \<Rightarrow> width d = 64
        | OP_MEM_RIP_LABEL _ \<Rightarrow> gpr d
        | _ \<Rightarrow> (gpr d \<or> width d = 128) \<and> mem64 src)
   | [OP_MEM_RIP_LABEL _, OP_REG s] \<Rightarrow> gpr s
   | [dst, OP_REG s] \<Rightarrow> (gpr s \<or> width s = 128) \<and> mem64 dst
   | _ \<Rightarrow> False)"

definition alu_form :: "Operand list \<Rightarrow> bool" where
  "alu_form ops = (case ops of
     [OP_REG d, src] \<Rightarrow> gpr d \<and>
       (case src of OP_REG s \<Rightarrow> width s = width d | OP_IMM v \<Rightarrow> imm_range (width d) v | _ \<Rightarrow> mem64 src)
   | _ \<Rightarrow> False)"

definition test_form :: "Operand list \<Rightarrow> bool" where
  "test_form ops = (case ops of
     [OP_REG d, src] \<Rightarrow> gpr d \<and>
       (case src of OP_REG s \<Rightarrow> width s = width d | OP_IMM v \<Rightarrow> imm_range (width d) v | _ \<Rightarrow> False)
   | _ \<Rightarrow> False)"

definition imul_form :: "Operand list \<Rightarrow> bool" where
  "imul_form ops = (case ops of
     [OP_REG d, src] \<Rightarrow> gpr d \<and> width d \<noteq> 8 \<and>
       (case src of OP_REG s \<Rightarrow> width s = width d | _ \<Rightarrow> mem64 src)
   | [OP_REG d, OP_REG s, OP_IMM v] \<Rightarrow>
       gpr d \<and> width d \<noteq> 8 \<and> width s = width d \<and> imm_range (width d) v
   | _ \<Rightarrow> False)"

definition movx_form :: "bool \<Rightarrow> Operand list \<Rightarrow> bool" where
  "movx_form sx ops = (case ops of
     [OP_REG d, OP_REG s] \<Rightarrow> gpr d \<and> gpr s \<and> width s < width d \<and> (width s = 32 \<longrightarrow> sx)
   | _ \<Rightarrow> False)"

definition unary_form :: "Operand list \<Rightarrow> bool" where
  "unary_form ops = (case ops of [OP_REG r] \<Rightarrow> gpr r | _ \<Rightarrow> False)"

definition reg64_form :: "Operand list \<Rightarrow> bool" where
  "reg64_form ops = (case ops of [OP_REG r] \<Rightarrow> width r = 64 | _ \<Rightarrow> False)"

definition shift_form :: "Operand list \<Rightarrow> bool" where
  "shift_form ops = (case ops of
     [OP_REG r, count] \<Rightarrow> gpr r \<and>
       (case count of OP_IMM v \<Rightarrow> 0 \<le> sint v \<and> sint v < 256
        | OP_REG c \<Rightarrow> c = REG_CL \<or> c = REG_RCX | _ \<Rightarrow> False)
   | _ \<Rightarrow> False)"

definition setcc_form :: "Operand list \<Rightarrow> bool" where
  "setcc_form ops = (case ops of
     [dst] \<Rightarrow> (case dst of OP_REG r \<Rightarrow> width r = 8 | _ \<Rightarrow> mem64 dst) | _ \<Rightarrow> False)"

definition rel_form :: "Operand list \<Rightarrow> i64 \<Rightarrow> bool" where
  "rel_form ops t = (case ops of
     [OP_LABEL _] \<Rightarrow> - (2 ^ 31) \<le> sint t \<and> sint t < 2 ^ 31 | _ \<Rightarrow> False)"

definition int_form :: "Operand list \<Rightarrow> bool" where
  "int_form ops = (case ops of [OP_IMM v] \<Rightarrow> 0 \<le> sint v \<and> sint v < 256 | _ \<Rightarrow> False)"

definition lea_form :: "Operand list \<Rightarrow> bool" where
  "lea_form ops = (case ops of
     [OP_REG d, src] \<Rightarrow> width d = 64 \<and> (case src of OP_MEM_RIP_LABEL _ \<Rightarrow> True | _ \<Rightarrow> mem64 src)
   | _ \<Rightarrow> False)"

definition xmm_form :: "int set \<Rightarrow> int set \<Rightarrow> Operand list \<Rightarrow> bool" where
  "xmm_form D S ops = (case ops of
     [OP_REG d, OP_REG s] \<Rightarrow> width d \<in> D \<and> width s \<in> S | _ \<Rightarrow> False)"

section \<open>Each family accepts its forms\<close>

lemma valid_gpr: "valid_integer_width (width r) \<longleftrightarrow> gpr r"
  by (auto simp: valid_integer_width_def gpr_def)

lemma fits_ranges:
  "immediate_fits_i32 v \<longleftrightarrow> - (2 ^ 31) \<le> sint v \<and> sint v < 2 ^ 31"
  "immediate_fits_u8 v \<longleftrightarrow> 0 \<le> sint v \<and> sint v < 256"
  by (auto simp: immediate_fits_i32_def immediate_fits_u8_def)

lemma uint_sint_nonneg: "0 \<le> sint v \<Longrightarrow> uint (v :: i64) = sint v"
  using sint_cases_uint [of v] unsigned_less [of v, where 'a = int] by (auto split: if_splits)

lemma out_of_ranges:
  "out_of_range8 v \<longleftrightarrow> \<not> imm_range 8 v" "out_of_range16 v \<longleftrightarrow> \<not> imm_range 16 v"
  "out_of_range32 v \<longleftrightarrow> \<not> imm_range 32 v"
  by (auto simp: out_of_range8_def out_of_range16_def out_of_range32_def imm_range_def uint_sint_nonneg)

lemma rejected_range:
  "imm_rejected 8 v \<longleftrightarrow> \<not> imm_range 8 v" "imm_rejected 16 v \<longleftrightarrow> \<not> imm_range 16 v"
  "gpr r \<Longrightarrow> imm_rejected (width r) v \<longleftrightarrow> \<not> imm_range (width r) v"
  by (auto simp: imm_rejected_def gpr_def fits_ranges out_of_ranges) (auto simp: imm_range_def)

lemma same_width: "same_register_width a b \<longleftrightarrow> gpr a \<and> width b = width a"
  by (auto simp: same_register_width_def Let_def valid_gpr)

lemma enc_mov_imm_accepts:
  "enc_error (enc_mov_imm d v) \<longleftrightarrow> \<not> (gpr d \<and> (width d = 64 \<or> imm_range (width d) v))"
  by (auto simp: enc_mov_imm_def Let_def valid_gpr gpr_def out_of_ranges)

lemma enc_mov_mem_accepts:
  "enc_error (enc_mov_reg_mem d m) \<longleftrightarrow> \<not> (gpr d \<and> width (mem_base m) = 64)"
  "enc_error (enc_mov_mem_reg m d) \<longleftrightarrow> \<not> (gpr d \<and> width (mem_base m) = 64)"
  by (auto simp: enc_mov_reg_mem_def enc_mov_mem_reg_def Let_def valid_gpr)

lemma enc_alu_imm_accepts: "enc_error (enc_alu_imm d v e) \<longleftrightarrow> \<not> (gpr d \<and> imm_range (width d) v)"
  by (auto simp: enc_alu_imm_def Let_def valid_gpr rejected_range)

lemma enc_alu_mem_accepts: "enc_error (enc_alu_mem d m a) \<longleftrightarrow> \<not> (gpr d \<and> width (mem_base m) = 64)"
  by (auto simp: enc_alu_mem_def Let_def valid_gpr)

lemma enc_test_imm_accepts: "enc_error (enc_test_imm d v) \<longleftrightarrow> \<not> (gpr d \<and> imm_range (width d) v)"
  by (auto simp: enc_test_imm_def Let_def valid_gpr rejected_range)

lemma enc_imul3_accepts:
  "enc_error (enc_imul3 d s v) \<longleftrightarrow>
     \<not> (gpr d \<and> width d \<noteq> 8 \<and> width s = width d \<and> imm_range (width d) v)"
  by (auto simp: enc_imul3_def Let_def same_width rejected_range)

lemma enc_alu_accepts: "\<not> enc_error (enc_alu ops a e) \<longleftrightarrow> alu_form ops"
  by (auto simp: alu_form_def mem64_def enc_alu_def enc_alu_imm_accepts enc_alu_mem_accepts same_width
      Let_def split: list.splits Operand.splits)

lemma enc_test_accepts: "\<not> enc_error (enc_test ops) \<longleftrightarrow> test_form ops"
  by (auto simp: test_form_def enc_test_def enc_test_imm_accepts same_width Let_def
      split: list.splits Operand.splits)

lemma enc_imul2_accepts:
  "enc_error (enc_imul2 d src) \<longleftrightarrow> \<not> (gpr d \<and> width d \<noteq> 8 \<and>
     (case src of OP_REG s \<Rightarrow> width s = width d | _ \<Rightarrow> width (mem_base src) = 64))"
  by (cases src) (auto simp: enc_imul2_def Let_def same_width valid_gpr)

lemma enc_imul_accepts: "\<not> enc_error (enc_imul ops) \<longleftrightarrow> imul_form ops"
  by (auto simp: imul_form_def mem64_def enc_imul_def enc_imul2_accepts enc_imul3_accepts
      split: list.splits Operand.splits)

lemma enc_movx_accepts: "\<not> enc_error (enc_movx ops sx) \<longleftrightarrow> movx_form sx ops"
proof -
  have sup: "movx_supported (width d) (width s) sx \<longleftrightarrow>
      gpr d \<and> gpr s \<and> width s < width d \<and> (width s = 32 \<longrightarrow> sx)" for d s
    by (auto simp: movx_supported_def gpr_def)
  show ?thesis
    unfolding movx_form_def enc_movx_def Let_def sup by (auto split: list.splits Operand.splits)
qed

lemma enc_unary_accepts:
  "\<not> enc_error (enc_unary ops e) \<longleftrightarrow> unary_form ops" "\<not> enc_error (enc_divide ops e) \<longleftrightarrow> unary_form ops"
  by (auto simp: unary_form_def enc_unary_def enc_divide_def Let_def valid_gpr
      split: list.splits Operand.splits)

lemma enc_reg64_accepts:
  "\<not> enc_error (enc_push ops) \<longleftrightarrow> reg64_form ops" "\<not> enc_error (enc_pop ops) \<longleftrightarrow> reg64_form ops"
  by (auto simp: reg64_form_def enc_push_def enc_pop_def split: list.splits Operand.splits)

lemma enc_shift_accepts: "\<not> enc_error (enc_shift ops e) \<longleftrightarrow> shift_form ops"
  by (auto simp: shift_form_def enc_shift_def Let_def valid_gpr fits_ranges
      split: list.splits Operand.splits)

lemma enc_setcc_accepts: "\<not> enc_error (enc_setcc ops e) \<longleftrightarrow> setcc_form ops"
  by (auto simp: setcc_form_def enc_setcc_def mem64_def split: list.splits Operand.splits)

lemma enc_branch_accepts:
  "\<not> enc_error (enc_jmp ops t) \<longleftrightarrow> reg64_form ops \<or> rel_form ops t"
  "\<not> enc_error (enc_call ops t) \<longleftrightarrow> reg64_form ops \<or> rel_form ops t"
  "\<not> enc_error (enc_jcc ops t e) \<longleftrightarrow> rel_form ops t"
  by (auto simp: reg64_form_def rel_form_def enc_jmp_def enc_call_def enc_jcc_def fits_ranges
      split: list.splits Operand.splits)

lemma enc_int_accepts: "\<not> enc_error (enc_int ops) \<longleftrightarrow> int_form ops"
  by (auto simp: int_form_def enc_int_def fits_ranges split: list.splits Operand.splits)

lemma enc_lea_accepts: "\<not> enc_error (enc_lea ops) \<longleftrightarrow> lea_form ops"
  by (auto simp: lea_form_def mem64_def enc_lea_def split: list.splits Operand.splits)

lemma enc_bare_accepts:
  "\<not> enc_error enc_ret" "\<not> enc_error enc_nop" "\<not> enc_error enc_rdtsc" "\<not> enc_error enc_hlt"
  "\<not> enc_error enc_syscall" "\<not> enc_error (enc_cqo ops) \<longleftrightarrow> ops = []"
  by (simp_all add: enc_ret_def enc_nop_def enc_rdtsc_def enc_hlt_def enc_syscall_def enc_cqo_def)

section \<open>MOV and the SSE2 instructions\<close>

lemma xmm_gpr_width: "reg_is_xmm r \<longleftrightarrow> width r = 128" "reg_is_gpr r \<longleftrightarrow> gpr r"
  by (simp_all add: reg_is_xmm_width reg_is_gpr_width gpr_def)

lemma gpr_facts: "gpr r \<Longrightarrow> width r \<noteq> 128" "width r = 64 \<Longrightarrow> gpr r" "width r = 128 \<Longrightarrow> \<not> gpr r"
  by (auto simp: gpr_def)

text \<open>The dispatch on XMM operands and the two encoders, operand kind by operand kind.\<close>

lemma use_xmm2: "sse2_operands_use_xmm [d, s] \<longleftrightarrow> is_xmm_operand d \<or> is_xmm_operand s"
  by (cases d; cases s) (simp_all add: sse2_operands_use_xmm_def)

lemma sse2_move2_accepts:
  "enc_error (sse2_encode_move [d, s]) \<longleftrightarrow> \<not> (is_xmm_operand d \<and> is_xmm_operand s
     \<or> is_xmm_operand d \<and> is_gpr64_operand s \<or> is_xmm_operand d \<and> valid_memory_base s
     \<or> is_gpr64_operand d \<and> is_xmm_operand s \<or> valid_memory_base d \<and> is_xmm_operand s)"
  by (simp add: sse2_encode_move_def emit_simps)

definition mov_gpr_form :: "Operand \<Rightarrow> Operand \<Rightarrow> bool" where
  "mov_gpr_form dst src = (case (dst, src) of
     (OP_REG d, OP_REG s) \<Rightarrow> gpr d \<and> width s = width d
   | (OP_REG d, OP_IMM v) \<Rightarrow> gpr d \<and> (width d = 64 \<or> imm_range (width d) v)
   | (OP_REG d, OP_LABEL _) \<Rightarrow> width d = 64
   | (OP_REG d, OP_MEM_RIP_LABEL _) \<Rightarrow> gpr d
   | (OP_MEM_RIP_LABEL _, OP_REG s) \<Rightarrow> gpr s
   | (OP_REG d, _) \<Rightarrow> gpr d \<and> mem64 src
   | (_, OP_REG s) \<Rightarrow> gpr s \<and> mem64 dst
   | _ \<Rightarrow> False)"

lemma enc_mov2_accepts: "enc_error (enc_mov [d, s]) \<longleftrightarrow> \<not> mov_gpr_form d s"
  by (cases d; cases s)
    (simp_all add: enc_mov_def mov_gpr_form_def mem64_def enc_mov_imm_accepts enc_mov_mem_accepts
      same_width valid_gpr Let_def)

lemma mov_form2:
  "mov_form [d, s] \<longleftrightarrow>
     (if is_xmm_operand d \<or> is_xmm_operand s then \<not> enc_error (sse2_encode_move [d, s]) else mov_gpr_form d s)"
  unfolding sse2_move2_accepts
  by (cases d; cases s)
    (auto simp: mov_form_def mov_gpr_form_def mem64_def valid_memory_base_def xmm_gpr_width gpr_facts)

lemma mov_accepts:
  "\<not> enc_error (if sse2_operands_use_xmm ops then sse2_encode_move ops else enc_mov ops) \<longleftrightarrow> mov_form ops"
proof -
  consider (two) d s where "ops = [d, s]" | (other) "\<forall>d s. ops \<noteq> [d, s]" by blast
  then show ?thesis
  proof cases
    case two
    then show ?thesis by (simp add: mov_form2 use_xmm2 enc_mov2_accepts)
  next
    case other
    then consider "ops = []" | a where "ops = [a]" | a b c r where "ops = a # b # c # r"
      by (cases ops; cases "tl ops"; cases "tl (tl ops)") auto
    then have "enc_error (sse2_encode_move ops)" "enc_error (enc_mov ops)" "\<not> mov_form ops"
      by (cases; simp add: sse2_encode_move_def enc_mov_def mov_form_def emit_simps
          split: Operand.splits)+
    then show ?thesis by simp
  qed
qed

lemma encode_xmm_binary_accepts:
  "\<not> enc_error (encode_xmm_binary ops p o8) \<longleftrightarrow> xmm_form {128} {128} ops"
  by (auto simp: xmm_form_def encode_xmm_binary_def emit_simps xmm_gpr_width
      split: list.splits Operand.splits)

lemma encode_cvt_accepts:
  "\<not> enc_error (encode_cvtsi2sd ops) \<longleftrightarrow> xmm_form {128} {32, 64} ops"
  "\<not> enc_error (encode_cvttsd2si ops) \<longleftrightarrow> xmm_form {32, 64} {128} ops"
  by (auto simp: xmm_form_def encode_cvtsi2sd_def encode_cvttsd2si_def emit_simps xmm_gpr_width gpr_def
      Let_def split: list.splits Operand.splits)

section \<open>The table\<close>

definition accepted :: "OpcodeEnum \<Rightarrow> Operand list \<Rightarrow> i64 \<Rightarrow> bool" where
  "accepted opc ops t = (case opc of
     OPCODE_MOV \<Rightarrow> mov_form ops
   | OPCODE_PUSH \<Rightarrow> reg64_form ops | OPCODE_POP \<Rightarrow> reg64_form ops
   | OPCODE_LEA \<Rightarrow> lea_form ops
   | OPCODE_MOVZX \<Rightarrow> movx_form False ops | OPCODE_MOVSX \<Rightarrow> movx_form True ops
   | OPCODE_ADD \<Rightarrow> alu_form ops | OPCODE_SUB \<Rightarrow> alu_form ops | OPCODE_AND \<Rightarrow> alu_form ops
   | OPCODE_OR \<Rightarrow> alu_form ops | OPCODE_XOR \<Rightarrow> alu_form ops | OPCODE_CMP \<Rightarrow> alu_form ops
   | OPCODE_IMUL \<Rightarrow> imul_form ops
   | OPCODE_IDIV \<Rightarrow> unary_form ops | OPCODE_DIV \<Rightarrow> unary_form ops
   | OPCODE_INC \<Rightarrow> unary_form ops | OPCODE_DEC \<Rightarrow> unary_form ops
   | OPCODE_NEG \<Rightarrow> unary_form ops | OPCODE_NOT \<Rightarrow> unary_form ops
   | OPCODE_CQO \<Rightarrow> ops = []
   | OPCODE_ADDSD \<Rightarrow> xmm_form {128} {128} ops | OPCODE_SUBSD \<Rightarrow> xmm_form {128} {128} ops
   | OPCODE_MULSD \<Rightarrow> xmm_form {128} {128} ops | OPCODE_DIVSD \<Rightarrow> xmm_form {128} {128} ops
   | OPCODE_UCOMISD \<Rightarrow> xmm_form {128} {128} ops | OPCODE_XORPD \<Rightarrow> xmm_form {128} {128} ops
   | OPCODE_CVTSI2SD \<Rightarrow> xmm_form {128} {32, 64} ops
   | OPCODE_CVTTSD2SI \<Rightarrow> xmm_form {32, 64} {128} ops
   | OPCODE_TEST \<Rightarrow> test_form ops
   | OPCODE_SETE \<Rightarrow> setcc_form ops | OPCODE_SETNE \<Rightarrow> setcc_form ops
   | OPCODE_SETG \<Rightarrow> setcc_form ops | OPCODE_SETL \<Rightarrow> setcc_form ops
   | OPCODE_SETGE \<Rightarrow> setcc_form ops | OPCODE_SETLE \<Rightarrow> setcc_form ops
   | OPCODE_SETA \<Rightarrow> setcc_form ops | OPCODE_SETB \<Rightarrow> setcc_form ops
   | OPCODE_SETAE \<Rightarrow> setcc_form ops | OPCODE_SETBE \<Rightarrow> setcc_form ops
   | OPCODE_SETP \<Rightarrow> setcc_form ops | OPCODE_SETNP \<Rightarrow> setcc_form ops
   | OPCODE_SHL \<Rightarrow> shift_form ops | OPCODE_SHR \<Rightarrow> shift_form ops | OPCODE_SAR \<Rightarrow> shift_form ops
   | OPCODE_JMP \<Rightarrow> reg64_form ops \<or> rel_form ops t | OPCODE_CALL \<Rightarrow> reg64_form ops \<or> rel_form ops t
   | OPCODE_JE \<Rightarrow> rel_form ops t | OPCODE_JNE \<Rightarrow> rel_form ops t
   | OPCODE_JG \<Rightarrow> rel_form ops t | OPCODE_JGE \<Rightarrow> rel_form ops t
   | OPCODE_JL \<Rightarrow> rel_form ops t | OPCODE_JLE \<Rightarrow> rel_form ops t
   | OPCODE_JZ \<Rightarrow> rel_form ops t | OPCODE_JNZ \<Rightarrow> rel_form ops t
   | OPCODE_JS \<Rightarrow> rel_form ops t | OPCODE_JNS \<Rightarrow> rel_form ops t
   | OPCODE_INT \<Rightarrow> int_form ops
   | OPCODE_INVALID \<Rightarrow> False
   | _ \<Rightarrow> True)"

lemmas family_accepts = mov_accepts enc_reg64_accepts enc_lea_accepts enc_movx_accepts enc_alu_accepts
  enc_imul_accepts enc_unary_accepts enc_bare_accepts encode_xmm_binary_accepts encode_cvt_accepts
  enc_test_accepts enc_setcc_accepts enc_shift_accepts enc_branch_accepts enc_int_accepts

lemma encoder_accepts_iff:
  "\<not> enc_error (encoder_encode opc ops t) \<longleftrightarrow> accepted opc ops t"
  unfolding accepted_def encoder_encode_def
  by (cases opc) (simp_all only: OpcodeEnum.case family_accepts sse2_encode_def enc_idiv_def enc_div_def
      make_error_error if_False if_True not_not simp_thms)

end
