(* ===== verification/Encoder_Theorems.thy ===== *)
theory Encoder_Theorems
  imports Encoder_Accept
begin

text \<open>
  The properties of the encoder, over \<open>encoder_encode\<close> and \<open>encoder_instruction_size\<close> as the
  two passes call them.
\<close>

section \<open>What is encoded is what the processor reads\<close>

text \<open>
  C5. Round trip of the encoder: for every opcode and operand list the encoder accepts, the
  first instruction of any byte stream that starts with the encoder's bytes decodes to the
  operation with the same operands (registers by width and number, memory by base and signed
  displacement, immediates modulo the operand width, the branch displacement), and the decoder
  stops exactly at the end of the encoded bytes.
\<close>

theorem encode_decode:
  assumes "\<not> enc_error (encoder_encode opc ops t)"
  shows "x86_decode (enc_bytes (encoder_encode opc ops t) @ rest) = Some (denote opc ops t, rest)"
  by (rule encodes_decode [OF encoder_encodes [OF assms]])

theorem encode_decode_witness:
  "x86_decode (enc_bytes (encoder_encode OPCODE_MOV [OP_REG REG_R9, OP_MEM_DISP REG_R12 (-300)] 0) @ [0xC3])
     = Some ((OPCODE_MOV, [AReg 64 9, AMem 12 (-300)]), [0xC3])"
proof -
  have form: "\<not> enc_error (encoder_encode OPCODE_MOV [OP_REG REG_R9, OP_MEM_DISP REG_R12 (-300)] 0)"
    by (simp add: encoder_accepts_iff accepted_def mov_form_def mem64_def gpr_def reg_width_bits_def reg_order)
  show ?thesis
    using encode_decode [OF form, of "[0xC3]"]
    by (simp add: denote_def plain_def first_width_def reg_width_bits_def reg_index_def reg_order)
qed

text \<open>
  C6. The encoder accepts exactly the operand forms of the table \<open>accepted\<close>: register classes
  and widths that agree, 64-bit memory bases, immediates within the operand width, branch
  displacements within 32 bits. Every other form is an error.
\<close>

theorem encoder_accepts: "\<not> enc_error (encoder_encode opc ops t) \<longleftrightarrow> accepted opc ops t"
  by (rule encoder_accepts_iff)

text \<open>
  C15. The size the passes lay the code out with is the number of bytes the encoder emits, and
  it lies between 1 and 14, below the 15 bytes of the buffer, so the guard of \<^verbatim>\<open>emit\<close> never
  drops a byte.
\<close>

theorem encoder_size_correct:
  assumes "\<not> enc_error (encoder_encode opc ops t)"
  shows "encoder_instruction_size opc ops = enc_len (encoder_encode opc ops t)
    \<and> 1 \<le> enc_len (encoder_encode opc ops t) \<and> enc_len (encoder_encode opc ops t) < MAX_INSTRUCTION_BYTES"
  using encoder_size_agrees [OF assms] encoder_len_bounds [OF assms] by (simp add: MAX_INSTRUCTION_BYTES_def)

theorem encoder_size_correct_witness:
  "encoder_instruction_size OPCODE_SHR [OP_REG REG_R10D, OP_IMM 7]
     = enc_len (encoder_encode OPCODE_SHR [OP_REG REG_R10D, OP_IMM 7] 0)"
proof -
  have "\<not> enc_error (encoder_encode OPCODE_SHR [OP_REG REG_R10D, OP_IMM 7] 0)"
    by (simp add: encoder_accepts_iff accepted_def shift_form_def gpr_def reg_width_bits_def reg_order)
  then show ?thesis by (intro encoder_size_correct [THEN conjunct1])
qed

text \<open>
  C16. Linear disassembly: the concatenation of the encodings of a list of accepted instructions
  decodes, one instruction after the other, to the list of their meanings. Instruction
  boundaries are where the encoder put them.
\<close>

theorem encode_stream:
  assumes "\<forall>(opc, ops, t) \<in> set prog. \<not> enc_error (encoder_encode opc ops t)"
  shows "decode_stream (length prog) (concat (map (\<lambda>(opc, ops, t). enc_bytes (encoder_encode opc ops t)) prog))
    = Some (map (\<lambda>(opc, ops, t). denote opc ops t) prog)"
proof -
  have "list_all2 encodes (map (\<lambda>(opc, ops, t). encoder_encode opc ops t) prog)
      (map (\<lambda>(opc, ops, t). denote opc ops t) prog)"
    using assms by (auto simp: list_all2_map1 list_all2_map2 list_all2_same intro: encoder_encodes)
  then show ?thesis
    by (drule_tac decode_stream_concat) (simp add: comp_def case_prod_unfold)
qed

theorem encode_stream_witness:
  "decode_stream 2 (enc_bytes (encoder_encode OPCODE_PUSH [OP_REG REG_RBP] 0)
      @ enc_bytes (encoder_encode OPCODE_JZ [OP_LABEL []] (-7)))
     = Some [(OPCODE_PUSH, [AReg 64 5]), (OPCODE_JE, [ARel (-7)])]"
proof -
  have "\<forall>(opc, ops, t) \<in> set [(OPCODE_PUSH, [OP_REG REG_RBP], 0 :: i64), (OPCODE_JZ, [OP_LABEL []], -7)].
      \<not> enc_error (encoder_encode opc ops t)"
    by (simp add: encoder_accepts_iff accepted_def reg64_form_def rel_form_def reg_width_bits_def reg_order)
  from encode_stream [OF this] show ?thesis
    by (simp add: denote_def plain_def first_width_def branch_spec_def reg_width_bits_def reg_index_def
        reg_order numeral_2_eq_2)
qed

text \<open>
  An instruction is determined by its bytes: two accepted instructions with the same bytes
  have the same meaning. No two different operations share an encoding.
\<close>

theorem encode_injective:
  assumes "\<not> enc_error (encoder_encode opc ops t)" "\<not> enc_error (encoder_encode opc' ops' t')"
    "enc_bytes (encoder_encode opc ops t) = enc_bytes (encoder_encode opc' ops' t')"
  shows "denote opc ops t = denote opc' ops' t'"
  using encodes_decode [OF encoder_encodes [OF assms(1)], of "[]"]
    encodes_decode [OF encoder_encodes [OF assms(2)], of "[]"] assms(3) by simp

theorem encode_injective_witness:
  "denote OPCODE_JZ [OP_LABEL []] 5 = denote OPCODE_JE [OP_LABEL [1]] 5"
proof (rule encode_injective)
  show "\<not> enc_error (encoder_encode OPCODE_JZ [OP_LABEL []] 5)"
    "\<not> enc_error (encoder_encode OPCODE_JE [OP_LABEL [1]] 5)"
    by (simp_all add: encoder_accepts_iff accepted_def rel_form_def)
  show "enc_bytes (encoder_encode OPCODE_JZ [OP_LABEL []] 5) = enc_bytes (encoder_encode OPCODE_JE [OP_LABEL [1]] 5)"
    by (simp add: encoder_encode_def enc_jcc_def)
qed

end
