(* ===== verification/Unicode.thy ===== *)
theory Unicode
  imports Prelude
begin

text \<open>
  UTF-8 decoding and the character classes of \<^verbatim>\<open>src/src/unicode/arabic.c\<close>. The source buffer
  and its length are one list; a function that advances an offset returns the new one.
\<close>

section \<open>Decoding\<close>

text \<open>The continuation bytes of a sequence, accumulated onto the bits of the lead byte.\<close>

fun utf8_tail :: "u8 list \<Rightarrow> u32 \<Rightarrow> u32 option" where
  "utf8_tail [] cp = Some cp"
| "utf8_tail (b # bs) cp =
     (if b AND 0xC0 \<noteq> 0x80 then None else utf8_tail bs (push_bit 6 cp OR ucast (b AND 0x3F)))"

text \<open>Length and payload bits announced by a lead byte.\<close>

definition utf8_lead :: "u8 \<Rightarrow> (nat \<times> u32) option" where
  "utf8_lead b0 =
     (if b0 \<ge> 0xC2 \<and> b0 \<le> 0xDF then Some (2, ucast (b0 AND 0x1F))
      else if b0 \<ge> 0xE0 \<and> b0 \<le> 0xEF then Some (3, ucast (b0 AND 0x0F))
      else if b0 \<ge> 0xF0 \<and> b0 \<le> 0xF4 then Some (4, ucast (b0 AND 0x07))
      else None)"

definition utf8_in_range :: "nat \<Rightarrow> u32 \<Rightarrow> bool" where
  "utf8_in_range bytes cp \<longleftrightarrow>
     \<not> (cp < (if bytes = 2 then 0x80 else if bytes = 3 then 0x800 else 0x10000)
        \<or> (cp \<ge> 0xD800 \<and> cp \<le> 0xDFFF) \<or> cp > 0x10FFFF)"

definition utf8_next_codepoint :: "u8 list \<Rightarrow> nat \<Rightarrow> u32 \<times> nat" where
  "utf8_next_codepoint src offset =
     (if offset \<ge> length src then (0, offset)
      else let b0 = src ! offset in
        if b0 < 0x80 then (ucast b0, offset + 1)
        else case utf8_lead b0 of
            None \<Rightarrow> (0xFFFD, offset + 1)
          | Some (bytes, bits) \<Rightarrow>
              if length src - offset < bytes then (0xFFFD, offset + 1)
              else case utf8_tail (take (bytes - 1) (drop (offset + 1) src)) bits of
                  None \<Rightarrow> (0xFFFD, offset + 1)
                | Some cp \<Rightarrow>
                    if utf8_in_range bytes cp then (cp, offset + bytes) else (0xFFFD, offset + 1))"

definition utf8_peek_codepoint :: "u8 list \<Rightarrow> nat \<Rightarrow> u32" where
  "utf8_peek_codepoint src offset = fst (utf8_next_codepoint src offset)"

definition utf8_is_well_formed_at :: "u8 list \<Rightarrow> nat \<Rightarrow> bool" where
  "utf8_is_well_formed_at src offset =
     (let (cp, nxt) = utf8_next_codepoint src offset in cp \<noteq> 0xFFFD \<or> nxt - offset = 3)"

text \<open>The loop of \<^verbatim>\<open>utf8_complete_prefix\<close>: step back over at most three continuation bytes.\<close>

fun walk_back :: "u8 list \<Rightarrow> nat \<Rightarrow> nat" where
  "walk_back src 0 = 0"
| "walk_back src (Suc n) =
     (if length src - Suc n < 3 \<and> src ! n AND 0xC0 = 0x80 then walk_back src n else Suc n)"

definition utf8_needed :: "u8 \<Rightarrow> nat" where
  "utf8_needed b0 = (if b0 \<ge> 0xF0 then 4 else if b0 \<ge> 0xE0 then 3 else if b0 \<ge> 0xC0 then 2 else 1)"

definition utf8_complete_prefix :: "u8 list \<Rightarrow> nat" where
  "utf8_complete_prefix src =
     (case walk_back src (length src) of
        0 \<Rightarrow> length src
      | Suc lead \<Rightarrow> if length src - lead < utf8_needed (src ! lead) then lead else length src)"

section \<open>Character classes\<close>

definition is_arabic_letter :: "u32 \<Rightarrow> bool" where
  "is_arabic_letter cp =
     (if cp = 0x060C \<or> cp = 0x061B \<or> cp = 0x061F \<or> cp = 0x0640 then False
      else if cp \<ge> 0x0660 \<and> cp \<le> 0x066F then False
      else (cp \<ge> 0x0600 \<and> cp \<le> 0x06FF) \<or> (cp \<ge> 0x0750 \<and> cp \<le> 0x077F)
        \<or> (cp \<ge> 0xFB50 \<and> cp \<le> 0xFDFF) \<or> (cp \<ge> 0xFE70 \<and> cp \<le> 0xFEFF))"

definition nazm_is_arabic_digit :: "u32 \<Rightarrow> bool" where
  "nazm_is_arabic_digit cp \<longleftrightarrow> cp \<ge> 0x0660 \<and> cp \<le> 0x0669"

definition arabic_digit_value :: "u32 \<Rightarrow> int" where
  "arabic_digit_value cp =
     (if nazm_is_arabic_digit cp then uint (cp - 0x0660)
      else if cp \<ge> 0x30 \<and> cp \<le> 0x39 then uint (cp - 0x30)
      else -1)"

definition is_ident_start :: "u32 \<Rightarrow> bool" where
  "is_ident_start cp \<longleftrightarrow> is_arabic_letter cp \<or> cp = 0x5F"

definition is_ident_continue :: "u32 \<Rightarrow> bool" where
  "is_ident_continue cp \<longleftrightarrow>
     is_arabic_letter cp \<or> nazm_is_arabic_digit cp \<or> (cp \<ge> 0x30 \<and> cp \<le> 0x39) \<or> cp = 0x5F"

section \<open>The UTF-8 standard\<close>

text \<open>Unicode scalar values and their UTF-8 bytes, as the standard defines them.\<close>

definition scalar_value :: "nat \<Rightarrow> bool" where
  "scalar_value n \<longleftrightarrow> n < 0x110000 \<and> \<not> (0xD800 \<le> n \<and> n < 0xE000)"

definition byte_of :: "nat \<Rightarrow> u8" where "byte_of n = word_of_nat n"

definition utf8_encode :: "nat \<Rightarrow> u8 list" where
  "utf8_encode n =
     map byte_of
       (if n < 0x80 then [n]
        else if n < 0x800 then [0xC0 + n div 64, 0x80 + n mod 64]
        else if n < 0x10000 then [0xE0 + n div 4096, 0x80 + n div 64 mod 64, 0x80 + n mod 64]
        else [0xF0 + n div 262144, 0x80 + n div 4096 mod 64, 0x80 + n div 64 mod 64, 0x80 + n mod 64])"

section \<open>Arithmetic of the bit fields\<close>

lemma unat_and_mask: "unat (b AND mask n) = unat (b :: 'a::len word) mod 2 ^ n"
proof -
  have "unat (take_bit n b) = take_bit n (unat b)" by (rule unsigned_take_bit_eq)
  moreover have "b AND mask n = take_bit n b" by (simp add: take_bit_eq_mask)
  ultimately show ?thesis by (metis take_bit_eq_mod)
qed

lemma unat_fields:
  "unat (b AND 0x3F) = unat (b :: u8) mod 64" "unat (b AND 0x1F) = unat b mod 32"
  "unat (b AND 0x0F) = unat b mod 16" "unat (b AND 0x07) = unat b mod 8"
  using unat_and_mask [of b 6] unat_and_mask [of b 5] unat_and_mask [of b 4] unat_and_mask [of b 3]
  by (simp_all add: mask_numeral)

lemma unat_ucast_u32 [simp]: "unat (ucast (b :: u8) :: u32) = unat b"
proof -
  have "unat b < 256" using unsigned_less [of b] by simp
  then show ?thesis by (simp add: unsigned_ucast_eq take_bit_nat_eq_self)
qed

lemma cont_byte_iff: "b AND 0xC0 = 0x80 \<longleftrightarrow> 128 \<le> unat (b :: u8) \<and> unat b < 192"
proof -
  have c: "(0xC0 :: u8) = NOT (mask 6)" by (simp add: mask_numeral)
  have a: "b AND 0xC0 = push_bit 6 (drop_bit 6 b)"
    unfolding c by (intro bit_word_eqI) (auto simp: bit_simps)
  have "unat (push_bit 6 (drop_bit 6 b)) = take_bit 8 (push_bit 6 (drop_bit 6 (unat b)))"
  proof -
    have "take_bit 8 (unat b) = unat b"
      using unsigned_less [of b, where 'a = nat] by (intro take_bit_nat_eq_self) simp
    then show ?thesis by (simp only: unsigned_push_bit_eq unsigned_drop_bit_eq) simp
  qed
  also have "\<dots> = unat b div 64 * 64"
    using unsigned_less [of b, where 'a = nat]
    by (simp add: push_bit_eq_mult drop_bit_eq_div take_bit_eq_mod)
  finally show ?thesis unfolding a word_unat_eq_iff by auto
qed

lemma utf8_step_unat:
  assumes "unat cp < 2 ^ 26"
  shows "unat (push_bit 6 cp OR ucast (b AND 0x3F) :: u32) = unat cp * 64 + unat (b :: u8) mod 64"
proof -
  have "b AND 0x3F = take_bit 6 b" by (simp add: take_bit_eq_mask mask_numeral)
  then have "push_bit 6 cp OR ucast (b AND 0x3F) = push_bit 6 cp + (ucast (b AND 0x3F) :: u32)"
    by (intro disjunctive_add_eq_or [symmetric] bit_eqI) (auto simp: bit_simps)
  moreover have "unat (push_bit 6 cp) = unat cp * 64"
  proof -
    have "unat (push_bit 6 cp) = take_bit 32 (push_bit 6 (unat cp))"
      by (simp only: unsigned_push_bit_eq) simp
    then show ?thesis using assms by (simp add: push_bit_eq_mult take_bit_eq_mod)
  qed
  ultimately show ?thesis
    using assms by (simp add: unat_word_ariths unat_fields)
qed

definition tail_value :: "nat \<Rightarrow> u8 list \<Rightarrow> nat" where
  "tail_value n bs = foldl (\<lambda>n b. n * 64 + unat b mod 64) n bs"

definition cont :: "u8 \<Rightarrow> bool" where "cont b \<longleftrightarrow> 128 \<le> unat b \<and> unat b < 192"

lemma utf8_tail_iff:
  assumes "(unat cp + 1) * 64 ^ length bs \<le> 2 ^ 32"
  shows "utf8_tail bs cp = Some v \<longleftrightarrow> list_all cont bs \<and> unat v = tail_value (unat cp) bs"
  using assms
proof (induction bs arbitrary: cp)
  case Nil
  then show ?case by (auto simp: tail_value_def word_unat_eq_iff)
next
  case (Cons b bs)
  let ?cp = "push_bit 6 cp OR ucast (b AND 0x3F) :: u32"
  have "(unat cp + 1) * 64 * 64 ^ length bs \<le> 2 ^ 32" using Cons.prems by (simp add: algebra_simps)
  moreover have "(1::nat) \<le> 64 ^ length bs" by simp
  ultimately have "(unat cp + 1) * 64 * 1 \<le> 2 ^ 32"
    using mult_le_mono2 [of 1 "64 ^ length bs" "(unat cp + 1) * 64"] by linarith
  then have cp: "unat ?cp = unat cp * 64 + unat b mod 64" by (intro utf8_step_unat) simp
  have "unat ?cp + 1 \<le> (unat cp + 1) * 64" unfolding cp by simp
  then have "(unat ?cp + 1) * 64 ^ length bs \<le> (unat cp + 1) * 64 * 64 ^ length bs"
    by (rule mult_le_mono1)
  with \<open>(unat cp + 1) * 64 * 64 ^ length bs \<le> 2 ^ 32\<close>
  have "(unat ?cp + 1) * 64 ^ length bs \<le> 2 ^ 32" by linarith
  from Cons.IH [OF this] show ?case
    by (auto simp: cp tail_value_def cont_byte_iff cont_def)
qed

lemma utf8_lead_iff:
  "utf8_lead b = Some (k, bits) \<longleftrightarrow>
     k = 2 \<and> 0xC2 \<le> unat b \<and> unat b \<le> 0xDF \<and> unat bits = unat b - 0xC0
     \<or> k = 3 \<and> 0xE0 \<le> unat b \<and> unat b \<le> 0xEF \<and> unat bits = unat b - 0xE0
     \<or> k = 4 \<and> 0xF0 \<le> unat b \<and> unat b \<le> 0xF4 \<and> unat bits = unat b - 0xF0"
proof -
  have "0xC0 \<le> n \<Longrightarrow> n \<le> 0xDF \<Longrightarrow> n mod 32 = n - 0xC0" "0xE0 \<le> n \<Longrightarrow> n \<le> 0xEF \<Longrightarrow> n mod 16 = n - 0xE0"
    "0xF0 \<le> n \<Longrightarrow> n \<le> 0xF4 \<Longrightarrow> n mod 8 = n - 0xF0" for n :: nat
    by (rule mod_nat_eqI; simp)+
  then show ?thesis
    by (auto simp: utf8_lead_def word_le_nat_alt word_unat_eq_iff unat_fields)
qed

lemma utf8_in_range_iff:
  "utf8_in_range k cp \<longleftrightarrow>
     (if k = 2 then 0x80 else if k = 3 then 0x800 else 0x10000) \<le> unat cp \<and> scalar_value (unat cp)"
  by (auto simp: utf8_in_range_def scalar_value_def word_le_nat_alt word_less_nat_alt)

lemma tail_value_bound: "tail_value n bs < (n + 1) * 64 ^ length bs"
proof (induction bs arbitrary: n)
  case (Cons b bs)
  have "tail_value n (b # bs) = tail_value (n * 64 + unat b mod 64) bs" by (simp add: tail_value_def)
  also have "\<dots> < (n * 64 + unat b mod 64 + 1) * 64 ^ length bs" by (rule Cons.IH)
  also have "\<dots> \<le> ((n + 1) * 64) * 64 ^ length bs" by (rule mult_le_mono1) simp
  finally show ?case by (simp add: algebra_simps)
qed (simp add: tail_value_def)

lemma lead_bound:
  assumes "utf8_lead b = Some (Suc (length cs), bits)"
  shows "(unat bits + 1) * 64 ^ length cs \<le> 2 ^ 32"
proof -
  consider "length cs = 1" "unat bits \<le> 31" | "length cs = 2" "unat bits \<le> 15"
    | "length cs = 3" "unat bits \<le> 4"
    using assms unfolding utf8_lead_iff by fastforce
  then show ?thesis by cases simp_all
qed

lemma tail_word:
  assumes "utf8_lead b = Some (Suc (length cs), bits)"
  shows "utf8_tail cs bits = Some v \<longleftrightarrow> list_all cont cs \<and> unat v = tail_value (unat bits) cs"
  by (rule utf8_tail_iff [OF lead_bound [OF assms]])

lemma decode_multi:
  assumes lead: "utf8_lead b0 = Some (Suc (length cs), bits)" and "list_all cont cs"
    and v: "v = tail_value (unat bits) cs" and "utf8_in_range (Suc (length cs)) (word_of_nat v)"
  shows "utf8_next_codepoint (pre @ (b0 # cs) @ rest) (length pre)
           = (word_of_nat v, length pre + Suc (length cs))"
proof -
  have "v < 2 ^ 32"
    using tail_value_bound [of "unat bits" cs] lead_bound [OF lead] v by linarith
  then have "unat (word_of_nat v :: u32) = v" by (simp add: unsigned_of_nat take_bit_nat_eq_self)
  then have "utf8_tail cs bits = Some (word_of_nat v)"
    using tail_word [OF lead] assms(2) v by simp
  moreover have "\<not> b0 < 0x80" using lead by (auto simp: utf8_lead_iff word_less_nat_alt)
  ultimately show ?thesis
    using assms by (simp add: utf8_next_codepoint_def nth_append)
qed

lemma unat_byte: "n < 256 \<Longrightarrow> unat (byte_of n) = n"
  by (simp add: byte_of_def unsigned_of_nat take_bit_nat_eq_self)

text \<open>The encoding by the base-64 digits of the value.\<close>

lemma digit:
  obtains q x where "n = q * 64 + x" "x < (64 :: nat)"
  using that [of "n div 64" "n mod 64"] by simp

lemma digits: "y < 64 \<Longrightarrow> (a * 64 + y) div 64 = a \<and> (a * 64 + y) mod 64 = (y :: nat)"
  by simp

lemma encode_digits:
  "n = q * 64 + x \<Longrightarrow> x < 64 \<Longrightarrow> 0x80 \<le> n \<Longrightarrow> n < 0x800 \<Longrightarrow>
     utf8_encode n = [byte_of (0xC0 + q), byte_of (0x80 + x)]"
  "n = (q * 64 + x) * 64 + y \<Longrightarrow> x < 64 \<Longrightarrow> y < 64 \<Longrightarrow> 0x800 \<le> n \<Longrightarrow> n < 0x10000 \<Longrightarrow>
     utf8_encode n = [byte_of (0xE0 + q), byte_of (0x80 + x), byte_of (0x80 + y)]"
  "n = ((q * 64 + x) * 64 + y) * 64 + z \<Longrightarrow> x < 64 \<Longrightarrow> y < 64 \<Longrightarrow> z < 64 \<Longrightarrow> 0x10000 \<le> n \<Longrightarrow>
     utf8_encode n = [byte_of (0xF0 + q), byte_of (0x80 + x), byte_of (0x80 + y), byte_of (0x80 + z)]"
proof -
  assume n: "n = q * 64 + x" and b: "x < 64" "0x80 \<le> n" "n < 0x800"
  have "n div 64 = q" "n mod 64 = x" unfolding n using digits [OF b(1)] by blast+
  then show "utf8_encode n = [byte_of (0xC0 + q), byte_of (0x80 + x)]"
    using b(2,3) by (simp add: utf8_encode_def)
next
  assume n: "n = (q * 64 + x) * 64 + y" and b: "x < 64" "y < 64" "0x800 \<le> n" "n < 0x10000"
  have e: "n div 64 = q * 64 + x" "n mod 64 = y" unfolding n using digits [OF b(2)] by blast+
  have "n div 64 div 64 = q" "n div 64 mod 64 = x" unfolding e using digits [OF b(1)] by blast+
  moreover have "n div 4096 = n div 64 div 64" by (simp add: div_mult2_eq [symmetric])
  ultimately have "n div 4096 = q" "n div 64 mod 64 = x" by simp_all
  then show "utf8_encode n = [byte_of (0xE0 + q), byte_of (0x80 + x), byte_of (0x80 + y)]"
    using b(3,4) e(2) by (simp add: utf8_encode_def)
next
  assume n: "n = ((q * 64 + x) * 64 + y) * 64 + z" and b: "x < 64" "y < 64" "z < 64" "0x10000 \<le> n"
  have e: "n div 64 = (q * 64 + x) * 64 + y" "n mod 64 = z" unfolding n using digits [OF b(3)] by blast+
  have "n div 64 div 64 = q * 64 + x" "n div 64 mod 64 = y" unfolding e using digits [OF b(2)] by blast+
  moreover have "n div 4096 = n div 64 div 64" by (simp add: div_mult2_eq [symmetric])
  ultimately have f: "n div 4096 = q * 64 + x" "n div 64 mod 64 = y" by simp_all
  have "n div 4096 div 64 = q" "n div 4096 mod 64 = x" unfolding f using digits [OF b(1)] by blast+
  moreover have "n div 262144 = n div 4096 div 64" by (simp add: div_mult2_eq [symmetric])
  ultimately have "n div 262144 = q" "n div 4096 mod 64 = x" by simp_all
  then show "utf8_encode n = [byte_of (0xF0 + q), byte_of (0x80 + x), byte_of (0x80 + y), byte_of (0x80 + z)]"
    using b(4) e(2) f(2) by (simp add: utf8_encode_def)
qed

lemma cont_digit: "x < 64 \<Longrightarrow> cont (byte_of (0x80 + x)) \<and> unat (byte_of (0x80 + x)) mod 64 = x"
proof -
  assume x: "x < 64"
  then have u: "unat (byte_of (0x80 + x)) = 0x80 + x" by (intro unat_byte) simp
  have "(0x80 + x) mod 64 = x" using x by (intro mod_nat_eqI) simp_all
  then show ?thesis using u x by (simp add: cont_def)
qed

lemma byte_of_unat [simp]: "byte_of (unat b) = b"
  by (simp add: byte_of_def)

lemma byte_offset: "k \<le> unat b \<Longrightarrow> byte_of (k + (unat b - k)) = b"
  by simp

lemma cont_obt: "cont c \<Longrightarrow> \<exists>x < 64. c = byte_of (0x80 + x)"
  using byte_offset [of "0x80" c] by (intro exI [of _ "unat c - 0x80"]) (auto simp: cont_def)

lemma lead_digit:
  "q < 32 \<Longrightarrow> 2 \<le> q \<Longrightarrow> utf8_lead (byte_of (0xC0 + q)) = Some (2, word_of_nat q)"
  "q < 16 \<Longrightarrow> utf8_lead (byte_of (0xE0 + q)) = Some (3, word_of_nat q)"
  "q < 5 \<Longrightarrow> utf8_lead (byte_of (0xF0 + q)) = Some (4, word_of_nat q)"
  by (simp_all add: utf8_lead_iff unat_byte unsigned_of_nat take_bit_nat_eq_self)

lemma unat_small: "q < 32 \<Longrightarrow> unat (word_of_nat q :: u32) = q"
  by (simp add: unsigned_of_nat take_bit_nat_eq_self)

text \<open>The bytes of a scalar value above 0x7F: a lead byte and continuation bytes.\<close>

lemma encode_multi:
  assumes "scalar_value n" "0x80 \<le> n"
  obtains b0 cs bits where "utf8_encode n = b0 # cs" "utf8_lead b0 = Some (Suc (length cs), bits)"
    "list_all cont cs" "n = tail_value (unat bits) cs"
    "(if length cs = 1 then 0x80 else if length cs = 2 then 0x800 else 0x10000) \<le> n"
proof -
  have n: "n < 0x110000" using assms(1) by (simp add: scalar_value_def)
  consider "n < 0x800" | "0x800 \<le> n" "n < 0x10000" | "0x10000 \<le> n" by linarith
  then show ?thesis
  proof cases
    case 1
    obtain q x where d: "n = q * 64 + x" "x < 64" using digit by blast
    then have q: "q < 32" "2 \<le> q" using 1 assms(2) by auto
    show ?thesis
      by (rule that [OF encode_digits(1) [OF d assms(2) 1], where bits = "word_of_nat q"])
        (use q d assms(2) in \<open>simp_all add: lead_digit cont_digit unat_small tail_value_def\<close>)
  next
    case 2
    obtain m y where d: "n = m * 64 + y" "y < 64" using digit by blast
    obtain q x where e: "m = q * 64 + x" "x < 64" using digit by blast
    have q: "q < 16" using 2 d e by auto
    have nn: "n = (q * 64 + x) * 64 + y" using d e by simp
    show ?thesis
      by (rule that [OF encode_digits(2) [OF nn e(2) d(2) 2], where bits = "word_of_nat q"])
        (use q nn d(2) e(2) 2 in \<open>simp_all add: lead_digit cont_digit unat_small tail_value_def\<close>)
  next
    case 3
    obtain m z where d: "n = m * 64 + z" "z < 64" using digit by blast
    obtain l y where e: "m = l * 64 + y" "y < 64" using digit by blast
    obtain q x where f: "l = q * 64 + x" "x < 64" using digit by blast
    have q: "q < 5" using n d e f by auto
    have nn: "n = ((q * 64 + x) * 64 + y) * 64 + z" using d e f by simp
    show ?thesis
      by (rule that [OF encode_digits(3) [OF nn f(2) e(2) d(2) 3], where bits = "word_of_nat q"])
        (use q nn d(2) e(2) f(2) 3 in \<open>simp_all add: lead_digit cont_digit unat_small tail_value_def\<close>)
  qed
qed

lemma decode_encode:
  assumes "scalar_value n"
  shows "utf8_next_codepoint (pre @ utf8_encode n @ rest) (length pre)
           = (word_of_nat n, length pre + length (utf8_encode n))"
proof (cases "n < 0x80")
  case True
  have "byte_of n < 0x80" using True by (simp add: word_less_nat_alt unat_byte)
  moreover have "(ucast (byte_of n) :: u32) = word_of_nat n"
    using True by (simp add: word_unat_eq_iff unat_byte unsigned_of_nat take_bit_nat_eq_self)
  ultimately show ?thesis
    using True by (simp add: utf8_encode_def utf8_next_codepoint_def nth_append)
next
  case False
  obtain b0 cs bits where e: "utf8_encode n = b0 # cs" "utf8_lead b0 = Some (Suc (length cs), bits)"
    "list_all cont cs" "n = tail_value (unat bits) cs"
    "(if length cs = 1 then 0x80 else if length cs = 2 then 0x800 else 0x10000) \<le> n"
    using encode_multi [OF assms] False by (metis not_less)
  have "n < 2 ^ 32" using assms by (simp add: scalar_value_def)
  then have "unat (word_of_nat n :: u32) = n" by (simp add: unsigned_of_nat take_bit_nat_eq_self)
  then have "utf8_in_range (Suc (length cs)) (word_of_nat n)"
    using assms e(5) by (simp add: utf8_in_range_iff split: if_splits)
  from decode_multi [OF e(2,3,4) this] show ?thesis by (simp add: e(1))
qed

text \<open>Conversely, what the decoder accepts is the encoding of what it returns.\<close>

lemma lead_obt:
  assumes "utf8_lead b0 = Some (k, bits)"
  obtains "k = 2" "b0 = byte_of (0xC0 + unat bits)" "unat bits < 32"
    | "k = 3" "b0 = byte_of (0xE0 + unat bits)" "unat bits < 16"
    | "k = 4" "b0 = byte_of (0xF0 + unat bits)" "unat bits < 5"
proof -
  consider "k = 2" "0xC0 \<le> unat b0" "unat b0 \<le> 0xDF" "unat bits = unat b0 - 0xC0"
    | "k = 3" "0xE0 \<le> unat b0" "unat b0 \<le> 0xEF" "unat bits = unat b0 - 0xE0"
    | "k = 4" "0xF0 \<le> unat b0" "unat b0 \<le> 0xF4" "unat bits = unat b0 - 0xF0"
    using assms unfolding utf8_lead_iff by fastforce
  then show ?thesis
  proof cases
    case 1
    then show ?thesis using byte_offset [OF 1(2)] by (intro that(1)) simp_all
  next
    case 2
    then show ?thesis using byte_offset [OF 2(2)] by (intro that(2)) simp_all
  next
    case 3
    then show ?thesis using byte_offset [OF 3(2)] by (intro that(3)) simp_all
  qed
qed

lemma encode_tail:
  assumes lead: "utf8_lead b0 = Some (Suc (length cs), bits)" and cs: "list_all cont cs"
    and n: "n = tail_value (unat bits) cs"
    and lo: "(if length cs = 1 then 0x80 else if length cs = 2 then 0x800 else 0x10000) \<le> n"
  shows "utf8_encode n = b0 # cs"
proof (cases rule: lead_obt [OF lead])
  case 1
  then obtain c where c: "cs = [c]" by (cases cs) auto
  then obtain x where x: "x < 64" "c = byte_of (0x80 + x)" using cont_obt cs by auto
  have n': "n = unat bits * 64 + x" using n c x by (simp add: tail_value_def cont_digit)
  show ?thesis
    using encode_digits(1) [OF n' x(1)] lo c 1 x n' by simp
next
  case 2
  then obtain c d where c: "cs = [c, d]" by (cases cs; cases "tl cs") auto
  then obtain x y where x: "x < 64" "c = byte_of (0x80 + x)" and y: "y < 64" "d = byte_of (0x80 + y)"
    using cont_obt [of c] cont_obt [of d] cs by auto
  have n': "n = (unat bits * 64 + x) * 64 + y" using n c x y by (simp add: tail_value_def cont_digit)
  show ?thesis
    using encode_digits(2) [OF n' x(1) y(1)] lo c 2 x y n' by simp
next
  case 3
  then obtain c d e where c: "cs = [c, d, e]" by (cases cs; cases "tl cs"; cases "tl (tl cs)") auto
  then obtain x y z where x: "x < 64" "c = byte_of (0x80 + x)" and y: "y < 64" "d = byte_of (0x80 + y)"
    and z: "z < 64" "e = byte_of (0x80 + z)"
    using cont_obt [of c] cont_obt [of d] cont_obt [of e] cs by auto
  have n': "n = ((unat bits * 64 + x) * 64 + y) * 64 + z"
    using n c x y z by (simp add: tail_value_def cont_digit)
  show ?thesis
    using encode_digits(3) [OF n' x(1) y(1) z(1)] lo c 3 x y z n' by simp
qed

lemma decode_sound:
  assumes "offset < length src" "utf8_next_codepoint src offset = (cp, nxt)"
    "utf8_is_well_formed_at src offset"
  shows "scalar_value (unat cp) \<and> offset < nxt \<and> nxt \<le> length src
    \<and> take (nxt - offset) (drop offset src) = utf8_encode (unat cp)"
proof -
  define b0 where "b0 = src ! offset"
  have d: "drop offset src = b0 # drop (offset + 1) src"
    using assms(1) by (simp add: b0_def Cons_nth_drop_Suc)
  show ?thesis
  proof (cases "b0 < 0x80")
    case True
    then have "unat b0 < 128" by (simp add: word_less_nat_alt)
    then show ?thesis
      using True assms d
      by (auto simp: utf8_next_codepoint_def b0_def [symmetric] scalar_value_def utf8_encode_def)
  next
    case False
    have bad: "(cp, nxt) \<noteq> (0xFFFD, offset + 1)"
      using assms by (auto simp: utf8_is_well_formed_at_def)
    obtain bytes bits where lead: "utf8_lead b0 = Some (bytes, bits)" and len: "bytes \<le> length src - offset"
      and t: "utf8_tail (take (bytes - 1) (drop (offset + 1) src)) bits = Some cp"
      and r: "utf8_in_range bytes cp" and nxt: "nxt = offset + bytes"
      using assms(1,2) False bad
      by (auto simp: utf8_next_codepoint_def b0_def [symmetric] Let_def split: option.splits if_splits prod.splits)
    define cs where "cs = take (bytes - 1) (drop (offset + 1) src)"
    have bytes: "bytes \<in> {2, 3, 4}" using lead by (auto simp: utf8_lead_iff)
    then have "bytes = Suc (length cs)" using len by (auto simp: cs_def)
    moreover have "take bytes (drop offset src) = b0 # cs"
      using bytes d by (auto simp: cs_def)
    moreover have "utf8_encode (unat cp) = b0 # cs"
    proof (rule encode_tail)
      show l: "utf8_lead b0 = Some (Suc (length cs), bits)"
        using lead \<open>bytes = Suc (length cs)\<close> by simp
      show "list_all cont cs" "unat cp = tail_value (unat bits) cs"
        using t [folded cs_def] tail_word [OF l, of cp] by simp_all
      show "(if length cs = 1 then 0x80 else if length cs = 2 then 0x800 else 0x10000) \<le> unat cp"
        using r \<open>bytes = Suc (length cs)\<close> by (auto simp: utf8_in_range_iff split: if_splits)
    qed
    ultimately show ?thesis using r nxt len bytes by (auto simp: utf8_in_range_iff)
  qed
qed

lemma next_progress:
  assumes "offset < length src" "utf8_next_codepoint src offset = (cp, nxt)"
  shows "offset < nxt \<and> nxt \<le> length src \<and> nxt \<le> offset + 4"
  using assms
  by (auto simp: utf8_next_codepoint_def Let_def utf8_lead_iff split: option.splits if_splits prod.splits)

section \<open>Cutting text\<close>

lemma walk_back_lead:
  assumes "\<not> cont b0" "list_all cont cs" "length cs \<le> 3" "j \<le> length cs"
  shows "walk_back (xs @ b0 # cs) (Suc (length xs + j)) = Suc (length xs)"
  using assms
  by (induction j) (auto simp: nth_append cont_byte_iff cont_def list_all_length)

lemma encode_shape:
  assumes "scalar_value n"
  obtains b0 cs where "utf8_encode n = b0 # cs" "\<not> cont b0" "list_all cont cs" "length cs \<le> 3"
    "utf8_needed b0 = Suc (length cs)"
proof (cases "n < 0x80")
  case True
  have b: "unat (byte_of n) = n" using True by (intro unat_byte) simp
  have "utf8_needed (byte_of n) = 1" "\<not> cont (byte_of n)"
    using True by (simp_all add: utf8_needed_def word_le_nat_alt b cont_def)
  then show ?thesis using True by (intro that [of "byte_of n" "[]"]) (simp_all add: utf8_encode_def)
next
  case False
  obtain b0 cs bits where e: "utf8_encode n = b0 # cs" "utf8_lead b0 = Some (Suc (length cs), bits)" "list_all cont cs"
    using encode_multi [OF assms] False by (metis not_less)
  then show ?thesis
    by (intro that [of b0 cs]) (auto simp: utf8_lead_iff utf8_needed_def word_le_nat_alt cont_def)
qed

lemma complete_prefix_whole:
  assumes "scalar_value n"
  shows "utf8_complete_prefix (xs @ utf8_encode n) = length (xs @ utf8_encode n)"
proof -
  obtain b0 cs where e: "utf8_encode n = b0 # cs" "\<not> cont b0" "list_all cont cs" "length cs \<le> 3"
    "utf8_needed b0 = Suc (length cs)"
    using encode_shape [OF assms] .
  show ?thesis
    using walk_back_lead [OF e(2,3,4) order_refl, of xs] e(5)
    by (simp add: e(1) utf8_complete_prefix_def nth_append)
qed

lemma complete_prefix_cut:
  assumes "scalar_value n" "0 < r" "r < length (utf8_encode n)"
  shows "utf8_complete_prefix (xs @ take r (utf8_encode n)) = length xs"
proof -
  obtain b0 cs where e: "utf8_encode n = b0 # cs" "\<not> cont b0" "list_all cont cs" "length cs \<le> 3"
    "utf8_needed b0 = Suc (length cs)"
    using encode_shape [OF assms(1)] .
  obtain q where q: "r = Suc q" using assms(2) by (cases r) auto
  have "list_all cont (take q cs)" using e(3) by (auto simp: list_all_iff dest: in_set_takeD)
  moreover have len: "length (take q cs) = q" using assms(3) e(1) q by simp
  ultimately have w: "walk_back (xs @ b0 # take q cs) (Suc (length xs + q)) = Suc (length xs)"
    using walk_back_lead [OF e(2), of "take q cs" q xs] e(4) by simp
  have l: "length (xs @ b0 # take q cs) = Suc (length xs + q)" using len by simp
  have n: "q < length cs" using assms(3) e(1) q by simp
  show ?thesis
    unfolding e(1) q take_Suc_Cons utf8_complete_prefix_def l w using n e(5) by (simp add: nth_append)
qed

text \<open>Where a cut of a concatenation falls.\<close>

lemma take_concat_split:
  "k \<le> length (concat (map f xs)) \<Longrightarrow> \<exists>j r. j \<le> length xs
     \<and> take k (concat (map f xs)) = concat (map f (take j xs)) @ (if j < length xs then take r (f (xs ! j)) else [])
     \<and> (j < length xs \<longrightarrow> r < length (f (xs ! j)))"
proof (induction xs arbitrary: k)
  case Nil
  then show ?case by auto
next
  case (Cons x xs)
  show ?case
  proof (cases "k < length (f x)")
    case True
    then show ?thesis by (intro exI [of _ 0] exI [of _ k]) simp
  next
    case False
    then have "k - length (f x) \<le> length (concat (map f xs))" using Cons.prems by simp
    from Cons.IH [OF this] obtain j r where "j \<le> length xs"
      "take (k - length (f x)) (concat (map f xs))
         = concat (map f (take j xs)) @ (if j < length xs then take r (f (xs ! j)) else [])"
      "j < length xs \<longrightarrow> r < length (f (xs ! j))" by blast
    then show ?thesis using False by (intro exI [of _ "Suc j"] exI [of _ r]) simp
  qed
qed

section \<open>Properties of the UTF-8 functions\<close>

text \<open>
  C25. The decoder inverts UTF-8: at the start of the encoding of any Unicode scalar value,
  anywhere in a buffer, it returns the value and moves the offset just past its bytes.
\<close>

theorem utf8_decodes_encoding:
  assumes "scalar_value n"
  shows "utf8_next_codepoint (pre @ utf8_encode n @ rest) (length pre)
           = (word_of_nat n, length pre + length (utf8_encode n))"
  by (rule decode_encode [OF assms])

theorem utf8_decodes_encoding_witness:
  "utf8_next_codepoint ([0x41] @ utf8_encode 0x0644 @ [0x42]) (length [0x41 :: u8]) = (0x644, 3)"
  using utf8_decodes_encoding [where n = "0x0644" and pre = "[0x41]" and rest = "[0x42]"]
  by (simp add: scalar_value_def utf8_encode_def)

text \<open>
  C26. The decoder accepts nothing else: where \<^verbatim>\<open>utf8_is_well_formed_at\<close> holds before the end
  of the buffer, the bytes consumed are exactly the standard UTF-8 encoding of the scalar value
  returned. Overlong forms, surrogates, values above 0x10FFFF, stray continuation bytes and cut
  sequences are therefore all reported as ill-formed.
\<close>

theorem utf8_accepts_only_utf8:
  assumes "offset < length src" "utf8_next_codepoint src offset = (cp, nxt)"
    "utf8_is_well_formed_at src offset"
  shows "scalar_value (unat cp) \<and> take (nxt - offset) (drop offset src) = utf8_encode (unat cp)"
  using decode_sound [OF assms] by simp

theorem utf8_accepts_only_utf8_witness:
  "take (3 - 0) (drop 0 [0xEF, 0xBF, 0xBD :: u8]) = utf8_encode (unat (0xFFFD :: u32))"
proof (rule utf8_accepts_only_utf8 [THEN conjunct2])
  have t: "[0xEF, 0xBF, 0xBD] = [] @ utf8_encode 0xFFFD @ []" by (simp add: utf8_encode_def byte_of_def)
  have d: "utf8_next_codepoint [0xEF, 0xBF, 0xBD] 0 = (0xFFFD, 3)"
    unfolding t using decode_encode [where n = "0xFFFD" and pre = "[]" and rest = "[]"]
    by (simp add: scalar_value_def) (simp add: utf8_encode_def)
  then show "utf8_next_codepoint [0xEF, 0xBF, 0xBD] 0 = (0xFFFD, 3)" .
  show "utf8_is_well_formed_at [0xEF, 0xBF, 0xBD] 0" using d by (simp add: utf8_is_well_formed_at_def)
qed simp

text \<open>
  Scanning terminates and stays in the buffer: a step before the end advances the offset by
  one to four bytes and never past the end, on any bytes, well-formed or not.
\<close>

theorem utf8_next_progress:
  assumes "offset < length src"
  shows "offset < snd (utf8_next_codepoint src offset)
    \<and> snd (utf8_next_codepoint src offset) \<le> min (length src) (offset + 4)"
  using next_progress [OF assms] by (cases "utf8_next_codepoint src offset") auto

theorem utf8_next_progress_witness:
  "1 < snd (utf8_next_codepoint [0x80, 0xFF] 1)"
  using utf8_next_progress [of 1 "[0x80, 0xFF]"] by simp

text \<open>
  C27. \<^verbatim>\<open>utf8_complete_prefix\<close> cuts text between characters: of well-formed text cut after
  \<open>k\<close> bytes it keeps the characters that fit completely, all of them, and drops the bytes of
  the one that was cut. This is what keeps truncated diagnostics valid UTF-8.
\<close>

theorem utf8_complete_prefix_boundary:
  assumes "list_all scalar_value cps" "k \<le> length (concat (map utf8_encode cps))"
  shows "\<exists>j \<le> length cps.
    utf8_complete_prefix (take k (concat (map utf8_encode cps)))
      = length (concat (map utf8_encode (take j cps)))
    \<and> length (concat (map utf8_encode (take j cps))) \<le> k
    \<and> (j < length cps \<longrightarrow> k < length (concat (map utf8_encode (take (Suc j) cps))))"
proof -
  obtain j r where j: "j \<le> length cps" "take k (concat (map utf8_encode cps))
      = concat (map utf8_encode (take j cps)) @ (if j < length cps then take r (utf8_encode (cps ! j)) else [])"
    and r: "j < length cps \<longrightarrow> r < length (utf8_encode (cps ! j))"
    using take_concat_split [OF assms(2)] by blast
  let ?pre = "concat (map utf8_encode (take j cps))"
  have k: "k = length ?pre + (if j < length cps then r else 0)"
  proof -
    have "k = length (take k (concat (map utf8_encode cps)))" using assms(2) by simp
    then show ?thesis using j(2) r by simp
  qed
  have whole: "utf8_complete_prefix ?pre = length ?pre"
  proof (cases "take j cps" rule: rev_cases)
    case Nil
    show ?thesis unfolding Nil by (simp add: utf8_complete_prefix_def)
  next
    case (snoc xs c)
    then have "scalar_value c" using assms(1) by (metis in_set_conv_decomp in_set_takeD list_all_iff)
    then show ?thesis using complete_prefix_whole [of c "concat (map utf8_encode xs)"] snoc by simp
  qed
  have "utf8_complete_prefix (take k (concat (map utf8_encode cps))) = length ?pre"
  proof (cases "j < length cps \<and> 0 < r")
    case True
    then have "scalar_value (cps ! j)" using assms(1) by (simp add: list_all_length)
    then show ?thesis using complete_prefix_cut [of "cps ! j" r ?pre] True r j(2) by simp
  next
    case False
    then show ?thesis using whole j(2) by auto
  qed
  moreover have "k < length (concat (map utf8_encode (take (Suc j) cps)))" if "j < length cps"
    using that k r by (simp add: take_Suc_conv_app_nth)
  ultimately show ?thesis using j(1) k by (intro exI [of _ j]) auto
qed

theorem utf8_complete_prefix_boundary_witness:
  "\<exists>j \<le> length [0x41, 0x20AC :: nat]. utf8_complete_prefix (take 3 (concat (map utf8_encode [0x41, 0x20AC])))
    = length (concat (map utf8_encode (take j [0x41, 0x20AC])))"
proof -
  have "list_all scalar_value [0x41, 0x20AC]" "3 \<le> length (concat (map utf8_encode [0x41, 0x20AC]))"
    by (simp_all add: scalar_value_def utf8_encode_def)
  from utf8_complete_prefix_boundary [OF this] show ?thesis by blast
qed

end
