(* ===== verification/Error.thy ===== *)
theory Error
  imports Unicode
begin

text \<open>
  Diagnostics: \<^verbatim>\<open>src/src/error/error.c\<close>. The fixed array of 64 errors with its count is the list of
  the errors stored so far. The message type is a parameter of the list: the functions that
  write text use byte strings, and the passes store their own message datatype through the same
  \<open>error_push\<close>. The Arabic literals are their UTF-8 bytes.
\<close>

section \<open>The error list\<close>

definition NAZM_MAX_ERRORS :: nat where "NAZM_MAX_ERRORS = 64"

record ErrorSource =
  src_name :: "cstr option"
  src_data :: "u8 list option"

record 'm NazmError =
  err_file :: cstr
  err_line :: int
  err_col :: int
  err_end_col :: int
  err_message :: 'm

record 'm ErrorList =
  errors :: "'m NazmError list"
  fatal :: bool
  source :: ErrorSource

definition error_list_init :: "'m ErrorList" where
  "error_list_init = \<lparr>errors = [], fatal = False, source = \<lparr>src_name = None, src_data = None\<rparr>\<rparr>"

definition error_list_set_source ::
  "'m ErrorList \<Rightarrow> cstr option \<Rightarrow> u8 list option \<Rightarrow> 'm ErrorList" where
  "error_list_set_source l nm data = l\<lparr>source := \<lparr>src_name = nm, src_data = data\<rparr>\<rparr>"

definition normalized_end_col :: "int \<Rightarrow> int \<Rightarrow> int" where
  "normalized_end_col col end_col = (if end_col \<le> col then col + 1 else end_col)"

definition error_push ::
  "'m ErrorList \<Rightarrow> cstr option \<Rightarrow> int \<Rightarrow> int \<Rightarrow> int \<Rightarrow> 'm \<Rightarrow> 'm ErrorList" where
  "error_push l file line col end_col message =
     (if length (errors l) \<ge> NAZM_MAX_ERRORS then l\<lparr>fatal := True\<rparr>
      else l\<lparr>errors := errors l @
        [\<lparr>err_file = (case file of None \<Rightarrow> [] | Some f \<Rightarrow> f), err_line = line, err_col = col,
          err_end_col = normalized_end_col col end_col, err_message = message\<rparr>]\<rparr>)"

text \<open>The text entry point trims a character the caller's buffer may have cut.\<close>

definition error_add_span ::
  "cstr ErrorList \<Rightarrow> cstr option \<Rightarrow> int \<Rightarrow> int \<Rightarrow> int \<Rightarrow> cstr \<Rightarrow> cstr ErrorList" where
  "error_add_span l file line col end_col message =
     error_push l file line col end_col (take (utf8_complete_prefix message) message)"

definition error_has_any :: "'m ErrorList \<Rightarrow> bool" where
  "error_has_any l \<longleftrightarrow> length (errors l) > 0"

section \<open>Source context\<close>

definition source_has_context :: "'m ErrorList \<Rightarrow> 'm NazmError \<Rightarrow> bool" where
  "source_has_context l e \<longleftrightarrow>
     (case src_data (source l) of None \<Rightarrow> False | Some d \<Rightarrow> length d > 0 \<and> err_line e > 0)"

text \<open>The inner loop: the offset of the next line feed, or the end of the source.\<close>

definition line_end :: "u8 list \<Rightarrow> nat \<Rightarrow> nat" where
  "line_end data start = start + length (takeWhile (\<lambda>b. b \<noteq> 0x0A) (drop start data))"

function find_line_from :: "u8 list \<Rightarrow> int \<Rightarrow> nat \<Rightarrow> int \<Rightarrow> (nat \<times> nat) option" where
  "find_line_from data wanted start line =
     (if \<not> start \<le> length data then None
      else let e = line_end data start in
        if line = wanted then Some (start, e - start)
        else if e \<ge> length data then None
        else find_line_from data wanted (e + 1) (line + 1))"
  by pat_completeness auto
termination
  by (relation "measure (\<lambda>(data, wanted, start, line). length data + 1 - start)")
    (auto simp: line_end_def)

declare find_line_from.simps [simp del]

definition find_line_range :: "u8 list \<Rightarrow> int \<Rightarrow> (nat \<times> nat) option" where
  "find_line_range data wanted = find_line_from data wanted 0 1"

definition print_marker_spaces :: "int \<Rightarrow> u8 list" where
  "print_marker_spaces n = replicate (nat n) 0x20"

definition print_source_context :: "cstr ErrorList \<Rightarrow> cstr NazmError \<Rightarrow> u8 list" where
  "print_source_context l e =
     (if \<not> source_has_context l e then []
      else (case src_data (source l) of
        None \<Rightarrow> []
      | Some data \<Rightarrow>
          (case find_line_range data (err_line e) of
             None \<Rightarrow> []
           | Some (line_start, line_len) \<Rightarrow>
               (let marker_len = err_end_col e - err_col e;
                    marker_len = (if marker_len < 1 then 1 else marker_len)
                in [0x20, 0x20, 0xD8, 0xA7, 0xD9, 0x84, 0xD8, 0xB3, 0xD8, 0xB7, 0xD8, 0xB1, 0x20, 0xE2,
      0x94, 0x82, 0x20]
                   @ takeWhile (\<lambda>b. b \<noteq> 0) (take line_len (drop line_start data)) @ [0x0A]
                   @ [0x20, 0x20, 0x20, 0x20, 0x20, 0x20, 0x20, 0x20, 0xE2, 0x94, 0x82, 0x20]
                   @ print_marker_spaces (if err_col e > 1 then err_col e - 1 else 0)
                   @ replicate (nat marker_len) 0x5E
                   @ [0x20, 0xD9, 0x87, 0xD9, 0x86, 0xD8, 0xA7] @ [0x0A]))))"

definition error_print_all_to :: "cstr ErrorList \<Rightarrow> u8 list" where
  "error_print_all_to l =
     concat (map (\<lambda>e.
         [0xD8, 0xAE, 0xD8, 0xB7, 0xD8, 0xA3, 0x20, 0xD9, 0x81, 0xD9, 0x8A, 0x20] @ err_file e @ [0x3A] @ print_int (err_line e) @ [0x3A] @ print_int (err_col e)
         @ [0x3A, 0x20] @ err_message e @ [0x0A] @ print_source_context l e) (errors l))
     @ (if fatal l then
         [0xD8, 0xAE, 0xD8, 0xB7, 0xD8, 0xA3, 0x3A, 0x20, 0xD8, 0xAA, 0xD8, 0xAC, 0xD8, 0xA7,
      0xD9, 0x88, 0xD8, 0xB2, 0x20, 0xD8, 0xA7, 0xD9, 0x84, 0xD8, 0xAD, 0xD8, 0xAF, 0x20,
      0xD8, 0xA7, 0xD9, 0x84, 0xD8, 0xA3, 0xD9, 0x82, 0xD8, 0xB5, 0xD9, 0x89, 0x20, 0xD9,
      0x84, 0xD9, 0x84, 0xD8, 0xA3, 0xD8, 0xAE, 0xD8, 0xB7, 0xD8, 0xA7, 0xD8, 0xA1, 0x20,
      0x28] @ print_int (int NAZM_MAX_ERRORS)
         @ [0x29, 0xD8, 0x8C, 0x20, 0xD8, 0xAA, 0xD9, 0x88, 0xD9, 0x82, 0xD9, 0x81, 0x20, 0xD8,
      0xA7, 0xD9, 0x84, 0xD9, 0x85, 0xD8, 0xAC, 0xD9, 0x85, 0xD8, 0xB9, 0x2E] @ [0x0A]
        else [])"

section \<open>Lemmas\<close>

text \<open>The lines of a text, as the positions between line feeds.\<close>

fun split_lines :: "u8 list \<Rightarrow> u8 list list" where
  "split_lines [] = [[]]"
| "split_lines (b # bs) =
     (if b = 0x0A then [] # split_lines bs
      else (case split_lines bs of l # ls \<Rightarrow> (b # l) # ls | [] \<Rightarrow> [[b]]))"

lemma split_lines_nonempty [simp]: "split_lines bs \<noteq> []"
  by (cases bs) (auto split: list.splits)

lemma split_lines_step:
  "split_lines bs = takeWhile (\<lambda>b. b \<noteq> 0x0A) bs #
     (case dropWhile (\<lambda>b. b \<noteq> 0x0A) bs of [] \<Rightarrow> [] | _ # r \<Rightarrow> split_lines r)"
  by (induction bs) (auto split: list.splits)

lemma line_end_facts:
  assumes "start \<le> length data"
  shows "line_end data start \<le> length data"
    "take (line_end data start - start) (drop start data) = takeWhile (\<lambda>b. b \<noteq> 0x0A) (drop start data)"
    "dropWhile (\<lambda>b. b \<noteq> 0x0A) (drop start data) = drop (line_end data start) data"
proof -
  let ?t = "takeWhile (\<lambda>b. b \<noteq> 0x0A) (drop start data)"
  have l: "length ?t \<le> length data - start" using length_takeWhile_le [of _ "drop start data"] by simp
  then show "line_end data start \<le> length data" using assms by (simp add: line_end_def)
  show "take (line_end data start - start) (drop start data) = ?t"
    unfolding line_end_def by (simp flip: takeWhile_eq_take)
  show "dropWhile (\<lambda>b. b \<noteq> 0x0A) (drop start data) = drop (line_end data start) data"
    unfolding line_end_def dropWhile_eq_drop by (simp add: add.commute)
qed

lemma find_line_from_spec:
  assumes "start \<le> length data" "line \<le> wanted"
  shows "(length (split_lines (drop start data)) \<le> nat (wanted - line) \<longrightarrow>
        find_line_from data wanted start line = None) \<and> (nat (wanted - line) < length (split_lines (drop start data)) \<longrightarrow>
        (\<exists>s n. find_line_from data wanted start line = Some (s, n) \<and> s + n \<le> length data
           \<and> take n (drop s data) = split_lines (drop start data) ! nat (wanted - line)))"
  using assms
proof (induction data wanted start line rule: find_line_from.induct)
  case (1 data wanted start line)
  let ?e = "line_end data start"
  note e = line_end_facts [OF 1(2)]
  have sp: "split_lines (drop start data) = takeWhile (\<lambda>b. b \<noteq> 0x0A) (drop start data) #
     (case drop ?e data of [] \<Rightarrow> [] | _ # r \<Rightarrow> split_lines r)"
    using split_lines_step [of "drop start data"] e(3) by simp
  show ?case
  proof (cases "line = wanted")
    case True
    have "find_line_from data wanted start wanted = Some (start, ?e - start)"
      using 1(2) by (subst find_line_from.simps) (simp add: Let_def)
    then show ?thesis using 1(2) e True by (simp add: sp)
  next
    case ne: False
    show ?thesis
    proof (cases "?e \<ge> length data")
      case True
      then have "find_line_from data wanted start line = None"
        using ne by (subst find_line_from.simps) (simp add: Let_def)
      then show ?thesis using True ne 1(3) by (simp add: sp)
    next
      case False
      then have d: "drop ?e data = data ! ?e # drop (?e + 1) data"
        by (simp add: Cons_nth_drop_Suc)
      have w: "nat (wanted - line) = Suc (nat (wanted - (line + 1)))" using ne 1(3) by simp
      have ih: "find_line_from data wanted start line = find_line_from data wanted (?e + 1) (line + 1)"
        using ne False 1(2) by (subst find_line_from.simps) (simp add: Let_def)
      have n: "split_lines (drop start data) = takeWhile (\<lambda>b. b \<noteq> 0x0A) (drop start data) #
          split_lines (drop (?e + 1) data)"
        unfolding sp d by simp
      have "?e + 1 \<le> length data" "line + 1 \<le> wanted" using False ne 1(3) by auto
      from 1(1) [OF _ refl ne False this] 1(2) show ?thesis
        unfolding ih n w by simp
    qed
  qed
qed

definition wf_errors :: "'m ErrorList \<Rightarrow> bool" where
  "wf_errors l \<longleftrightarrow> length (errors l) \<le> NAZM_MAX_ERRORS
     \<and> (fatal l \<longrightarrow> length (errors l) = NAZM_MAX_ERRORS)
     \<and> (\<forall>e \<in> set (errors l). err_col e < err_end_col e)"

lemma error_push_append:
  "length (errors l) < NAZM_MAX_ERRORS \<Longrightarrow>
     errors (error_push l f ln c ec m) = errors l @ [\<lparr>err_file = (case f of None \<Rightarrow> [] | Some f \<Rightarrow> f),
       err_line = ln, err_col = c, err_end_col = normalized_end_col c ec, err_message = m\<rparr>]"
  by (simp add: error_push_def)

lemma error_push_nonempty: "errors (error_push l f ln c ec m) \<noteq> []"
  by (auto simp: error_push_def NAZM_MAX_ERRORS_def)

lemma wf_error_push: "wf_errors l \<Longrightarrow> wf_errors (error_push l f ln c ec m)"
  by (auto simp: wf_errors_def error_push_def normalized_end_col_def)

section \<open>Properties of diagnostics\<close>

text \<open>A report as a caller makes it, and the record the list keeps of it.\<close>

type_synonym 'm report = "cstr option \<times> int \<times> int \<times> int \<times> 'm"

definition stored :: "'m report \<Rightarrow> 'm NazmError" where
  "stored = (\<lambda>(f, line, col, ec, m).
     \<lparr>err_file = (case f of None \<Rightarrow> [] | Some f \<Rightarrow> f), err_line = line, err_col = col,
      err_end_col = (if ec \<le> col then col + 1 else ec), err_message = m\<rparr>)"

definition report_all :: "'m report list \<Rightarrow> 'm ErrorList" where
  "report_all rs = foldl (\<lambda>l (f, line, col, ec, m). error_push l f line col ec m) error_list_init rs"

text \<open>
  C28. The error list keeps the first 64 reports, in the order they were made and with a
  non-empty column span each, and its fatal flag says exactly whether a report was dropped.
\<close>

theorem error_list_keeps_first:
  "errors (report_all rs) = map stored (take NAZM_MAX_ERRORS rs)
   \<and> (fatal (report_all rs) \<longleftrightarrow> NAZM_MAX_ERRORS < length rs)
   \<and> (error_has_any (report_all rs) \<longleftrightarrow> rs \<noteq> [])"
proof -
  have "errors (report_all rs) = map stored (take NAZM_MAX_ERRORS rs)
      \<and> (fatal (report_all rs) \<longleftrightarrow> NAZM_MAX_ERRORS < length rs)"
  proof (induction rs rule: rev_induct)
    case Nil
    show ?case by (simp add: report_all_def error_list_init_def)
  next
    case (snoc r rs)
    obtain f line col ec m where r: "r = (f, line, col, ec, m)" by (cases r)
    have "report_all (rs @ [r]) = error_push (report_all rs) f line col ec m"
      by (simp add: report_all_def r)
    then show ?case
      using snoc by (auto simp: error_push_def stored_def r normalized_end_col_def)
  qed
  then show ?thesis by (auto simp: error_has_any_def NAZM_MAX_ERRORS_def)
qed

text \<open>
  C29. The source line shown with an error is that line of the file: for a positive line number
  \<^verbatim>\<open>find_line_range\<close> fails exactly when the file has fewer lines, and otherwise the range lies
  in the file and holds the text of the line without its line feed.
\<close>

theorem find_line_range_correct:
  assumes "0 < wanted"
  shows "case find_line_range data wanted of
      None \<Rightarrow> int (length (split_lines data)) < wanted
    | Some (s, n) \<Rightarrow> s + n \<le> length data \<and> wanted \<le> int (length (split_lines data))
        \<and> take n (drop s data) = split_lines data ! nat (wanted - 1)"
proof (cases "nat (wanted - 1) < length (split_lines data)")
  case True
  then show ?thesis
    using find_line_from_spec [of 0 data 1 wanted] assms by (auto simp: find_line_range_def)
next
  case False
  then show ?thesis
    using find_line_from_spec [of 0 data 1 wanted] assms by (auto simp: find_line_range_def)
qed

theorem find_line_range_correct_witness:
  "case find_line_range [0x41, 0x0A, 0x42, 0x43] 2 of
      None \<Rightarrow> int (length (split_lines [0x41, 0x0A, 0x42, 0x43])) < 2
    | Some (s, n) \<Rightarrow> s + n \<le> length [0x41, 0x0A, 0x42, 0x43 :: u8]
        \<and> 2 \<le> int (length (split_lines [0x41, 0x0A, 0x42, 0x43]))
        \<and> take n (drop s [0x41, 0x0A, 0x42, 0x43]) = split_lines [0x41, 0x0A, 0x42, 0x43] ! nat (2 - 1)"
  by (rule find_line_range_correct) simp

end
