(* ===== verification/Instruction.thy ===== *)
theory Instruction
  imports Encoder_Types Error
begin

text \<open>
  What the parser hands to the two passes: \<^verbatim>\<open>src/src/parser/instruction.h\<close> and
  \<^verbatim>\<open>src/src/debug/debug.h\<close>. Operands carry their source position; the operand array and its
  count are a list of at most three. The messages of the passes are a datatype, one constructor
  per message of the source with the arguments it prints.
\<close>

definition ascii :: "string \<Rightarrow> cstr" where
  "ascii s = map (\<lambda>c. word_of_nat (of_char c)) s"

section \<open>Instructions\<close>

definition MAX_OPERANDS :: nat where "MAX_OPERANDS = 3"

datatype (plugins only: code) DirectiveKind =
    DIRECTIVE_NONE | DIRECTIVE_TEXT | DIRECTIVE_DATA | DIRECTIVE_READ_ONLY_DATA | DIRECTIVE_BSS
  | DIRECTIVE_INT8 | DIRECTIVE_INT16 | DIRECTIVE_INT32 | DIRECTIVE_INT64
  | DIRECTIVE_ALIGNMENT | DIRECTIVE_ZERO_SPACE | DIRECTIVE_NUL_STRING
  | DIRECTIVE_GLOBAL | DIRECTIVE_LOCAL | DIRECTIVE_EXTERNAL
  | DIRECTIVE_DEBUG_FILE | DIRECTIVE_DEBUG_FILE_BYTES | DIRECTIVE_DEBUG_LOCATION
  | DIRECTIVE_INVALID

text \<open>An \<^verbatim>\<open>Operand\<close> with the position fields of its struct.\<close>

record LocOperand =
  opnd :: Operand
  op_line :: int
  op_col :: int
  op_end_col :: int

record Instruction =
  opcode :: OpcodeEnum
  ops :: "LocOperand list"
  label :: "cstr option"
  directive :: "cstr option"
  directive_kind :: DirectiveKind
  line :: int
  col :: int
  end_col :: int
  label_line :: int
  label_col :: int
  label_end_col :: int

record InstructionList =
  instrs :: "Instruction list"
  source_name :: "cstr option"
  source_data :: "u8 list option"

definition op_kinds :: "Instruction \<Rightarrow> Operand list" where
  "op_kinds i = map opnd (ops i)"

section \<open>Debug information\<close>

record DebugFile =
  df_id :: u32
  df_path :: cstr

record DebugLine =
  dl_offset :: nat
  dl_file_id :: u32
  dl_line :: u32
  dl_column :: u32

section \<open>Messages of the passes\<close>

datatype PassMessage =
    MSG_BYTES_DIGITS
  | MSG_BYTES_RANGE
  | MSG_BYTES_EMPTY
  | MSG_BYTES_UTF8
  | MSG_FILE_OPERANDS
  | MSG_FILE_ID
  | MSG_FILE_PATH
  | MSG_FILE_DUPLICATE
  | MSG_LOCATION_OPERANDS
  | MSG_LOCATION_RANGE
  | MSG_LOCATION_FILE
  | MSG_STRING_COUNT
  | MSG_STRING_KIND
  | MSG_SPACE_COUNT
  | MSG_SPACE_RANGE
  | MSG_ALIGN_COUNT
  | MSG_ALIGN_POWER
  | MSG_INT_COUNT
  | MSG_INT64_KIND
  | MSG_INT_KIND
  | MSG_INT_WIDTH nat
  | MSG_EXTERNAL_OPERAND
  | MSG_EXTERNAL_CONFLICT cstr
  | MSG_VISIBILITY_OPERAND "cstr option"
  | MSG_VISIBILITY_CONFLICT cstr
  | MSG_VISIBILITY_UNDEFINED cstr
  | MSG_UNKNOWN_DIRECTIVE "cstr option"
  | MSG_DATA_SECTION_ONLY
  | MSG_BSS_ONLY
  | MSG_DUPLICATE_LABEL cstr
  | MSG_DATA_SYMBOL cstr
  | MSG_RIP_SYMBOL cstr
  | MSG_LABEL_UNRESOLVED cstr
  | MSG_JUMP_OUTSIDE_TEXT cstr
  | MSG_JUMP_RANGE cstr
  | MSG_JUMP_TARGET
  | MSG_JCC_TARGET
  | MSG_CANNOT_ENCODE OpcodeEnum
  | MSG_INTERNAL_DATA_SIZE
  | MSG_INTERNAL_DATA_OVERFLOW
  | MSG_INTERNAL_DATA_MISMATCH int nat
  | MSG_INTERNAL_TEXT_OVERFLOW
  | MSG_INTERNAL_SIZE nat nat
  | MSG_INTERNAL_RIP_SHORT
  | MSG_INTERNAL_TOTALS

type_synonym PassErrors = "PassMessage ErrorList"

text \<open>\<^verbatim>\<open>instructions->source_name ? instructions->source_name : "unknown"\<close>\<close>

definition error_file :: "InstructionList \<Rightarrow> cstr option" where
  "error_file il = Some (case source_name il of Some n \<Rightarrow> n | None \<Rightarrow> ascii ''unknown'')"

end
