(* ===== verification/Symtable.thy ===== *)
theory Symtable
  imports Prelude
begin

text \<open>
  The symbol table of \<^verbatim>\<open>src/src/symtable/symtable.c\<close>: 256 buckets of chained entries under
  the FNV-1a hash of the label. A bucket is the list of its chain from the head; a new entry
  becomes the head. An operation that reports success as \<^verbatim>\<open>bool\<close> and changes the table
  returns the pair of both. Section offsets are HOL integers (\<^verbatim>\<open>int64_t\<close> values the table
  stores and hands back without arithmetic).
\<close>

section \<open>Data\<close>

datatype SymbolSection =
    SYMBOL_SECTION_UNKNOWN
  | SYMBOL_SECTION_TEXT
  | SYMBOL_SECTION_DATA
  | SYMBOL_SECTION_READ_ONLY_DATA
  | SYMBOL_SECTION_BSS

datatype SymbolBinding = SYMBOL_BINDING_LOCAL | SYMBOL_BINDING_GLOBAL

record SymEntry =
  sym_name :: cstr
  sym_offset :: int
  sym_section :: SymbolSection
  sym_binding :: SymbolBinding
  sym_defined :: bool
  binding_declared :: bool
  external_declared :: bool

record SymbolTable =
  buckets :: "SymEntry list list"
  sym_count :: nat

definition SYMTABLE_BUCKETS :: nat where "SYMTABLE_BUCKETS = 256"

section \<open>Operations\<close>

definition hash_str :: "cstr \<Rightarrow> u32" where
  "hash_str s = foldl (\<lambda>h b. (h XOR ucast b) * 16777619) 2166136261 s"

definition bucket_index :: "cstr \<Rightarrow> nat" where
  "bucket_index s = unat (hash_str s mod word_of_nat SYMTABLE_BUCKETS)"

definition find_entry :: "SymbolTable \<Rightarrow> cstr \<Rightarrow> SymEntry option" where
  "find_entry st s = find (\<lambda>e. sym_name e = s) (buckets st ! bucket_index s)"

definition symtable_init :: SymbolTable where
  "symtable_init = \<lparr>buckets = replicate SYMTABLE_BUCKETS [], sym_count = 0\<rparr>"

text \<open>The zeroed entry \<^verbatim>\<open>ARENA_ALLOC\<close> returns, with its name.\<close>

definition fresh_entry :: "cstr \<Rightarrow> SymEntry" where
  "fresh_entry s = \<lparr>sym_name = s, sym_offset = 0, sym_section = SYMBOL_SECTION_UNKNOWN,
     sym_binding = SYMBOL_BINDING_LOCAL, sym_defined = False, binding_declared = False,
     external_declared = False\<rparr>"

text \<open>Link a new entry at the head of its bucket.\<close>

definition link_entry :: "SymbolTable \<Rightarrow> SymEntry \<Rightarrow> SymbolTable" where
  "link_entry st e =
     (let idx = bucket_index (sym_name e)
      in \<lparr>buckets = (buckets st)[idx := e # buckets st ! idx], sym_count = sym_count st + 1\<rparr>)"

text \<open>Write through the pointer \<open>find_entry\<close> returned: the first entry of that name.\<close>

fun update_first :: "('a \<Rightarrow> bool) \<Rightarrow> ('a \<Rightarrow> 'a) \<Rightarrow> 'a list \<Rightarrow> 'a list" where
  "update_first P f [] = []"
| "update_first P f (x # xs) = (if P x then f x # xs else x # update_first P f xs)"

definition write_entry :: "SymbolTable \<Rightarrow> cstr \<Rightarrow> (SymEntry \<Rightarrow> SymEntry) \<Rightarrow> SymbolTable" where
  "write_entry st s f =
     (let idx = bucket_index s
      in st\<lparr>buckets := (buckets st)[idx := update_first (\<lambda>e. sym_name e = s) f (buckets st ! idx)]\<rparr>)"

definition symtable_insert_section ::
  "SymbolTable \<Rightarrow> cstr \<Rightarrow> SymbolSection \<Rightarrow> int \<Rightarrow> bool \<times> SymbolTable" where
  "symtable_insert_section st s sec off =
     (case find_entry st s of
        Some e \<Rightarrow>
          if sym_defined e \<or> external_declared e then (False, st)
          else (True, write_entry st s
                  (\<lambda>e. e\<lparr>sym_offset := off, sym_section := sec, sym_defined := True\<rparr>))
      | None \<Rightarrow>
          (True, link_entry st
             ((fresh_entry s)\<lparr>sym_offset := off, sym_section := sec,
                sym_binding := SYMBOL_BINDING_LOCAL, sym_defined := True\<rparr>)))"

definition symtable_insert :: "SymbolTable \<Rightarrow> cstr \<Rightarrow> int \<Rightarrow> bool \<times> SymbolTable" where
  "symtable_insert st s off = symtable_insert_section st s SYMBOL_SECTION_TEXT off"

definition symtable_declare_binding ::
  "SymbolTable \<Rightarrow> cstr \<Rightarrow> SymbolBinding \<Rightarrow> bool \<times> SymbolTable" where
  "symtable_declare_binding st s b =
     (case find_entry st s of
        None \<Rightarrow>
          (True, link_entry st
             ((fresh_entry s)\<lparr>sym_section := SYMBOL_SECTION_UNKNOWN, sym_binding := b,
                binding_declared := True\<rparr>))
      | Some e \<Rightarrow>
          if binding_declared e \<and> sym_binding e \<noteq> b then (False, st)
          else (True, write_entry st s (\<lambda>e. e\<lparr>sym_binding := b, binding_declared := True\<rparr>)))"

definition symtable_declare_external :: "SymbolTable \<Rightarrow> cstr \<Rightarrow> bool \<times> SymbolTable" where
  "symtable_declare_external st s =
     (case find_entry st s of
        None \<Rightarrow>
          (True, link_entry st
             ((fresh_entry s)\<lparr>sym_section := SYMBOL_SECTION_UNKNOWN,
                sym_binding := SYMBOL_BINDING_GLOBAL, binding_declared := True,
                external_declared := True\<rparr>))
      | Some e \<Rightarrow>
          if sym_defined e \<or> binding_declared e \<and> sym_binding e \<noteq> SYMBOL_BINDING_GLOBAL then (False, st)
          else (True, write_entry st s
                  (\<lambda>e. e\<lparr>sym_section := SYMBOL_SECTION_UNKNOWN, sym_binding := SYMBOL_BINDING_GLOBAL,
                         binding_declared := True, external_declared := True\<rparr>)))"

definition symtable_is_external :: "SymbolTable \<Rightarrow> cstr \<Rightarrow> bool" where
  "symtable_is_external st s =
     (case find_entry st s of None \<Rightarrow> False | Some e \<Rightarrow> external_declared e \<and> \<not> sym_defined e)"

text \<open>The out parameters of a lookup are the value of the option.\<close>

definition symtable_lookup_ex :: "SymbolTable \<Rightarrow> cstr \<Rightarrow> (int \<times> SymbolSection) option" where
  "symtable_lookup_ex st s =
     (case find_entry st s of
        None \<Rightarrow> None
      | Some e \<Rightarrow> if \<not> sym_defined e then None else Some (sym_offset e, sym_section e))"

definition symtable_lookup :: "SymbolTable \<Rightarrow> cstr \<Rightarrow> int option" where
  "symtable_lookup st s = map_option fst (symtable_lookup_ex st s)"

definition symtable_lookup_binding :: "SymbolTable \<Rightarrow> cstr \<Rightarrow> SymbolBinding option" where
  "symtable_lookup_binding st s =
     (case find_entry st s of
        None \<Rightarrow> None | Some e \<Rightarrow> if \<not> sym_defined e then None else Some (sym_binding e))"

definition symtable_patch :: "SymbolTable \<Rightarrow> cstr \<Rightarrow> int \<Rightarrow> bool \<times> SymbolTable" where
  "symtable_patch st s off =
     (case find_entry st s of
        None \<Rightarrow> (False, st)
      | Some e \<Rightarrow> (True, write_entry st s (\<lambda>e. e\<lparr>sym_offset := off, sym_defined := True\<rparr>)))"

section \<open>Well-formed tables\<close>

definition wf_symtable :: "SymbolTable \<Rightarrow> bool" where
  "wf_symtable st \<longleftrightarrow>
     length (buckets st) = SYMTABLE_BUCKETS
     \<and> (\<forall>i < SYMTABLE_BUCKETS. distinct (map sym_name (buckets st ! i))
          \<and> (\<forall>e \<in> set (buckets st ! i). bucket_index (sym_name e) = i))
     \<and> sym_count st = sum_list (map length (buckets st))"

lemma bucket_index_less: "bucket_index s < SYMTABLE_BUCKETS"
proof -
  have "hash_str s mod 256 < 256" by (rule word_mod_less_divisor) simp
  then have "unat (hash_str s mod 256) < unat (256 :: u32)" by (simp only: word_less_nat_alt)
  then show ?thesis by (simp add: bucket_index_def SYMTABLE_BUCKETS_def)
qed

lemma wf_init: "wf_symtable symtable_init"
  by (simp add: wf_symtable_def symtable_init_def SYMTABLE_BUCKETS_def sum_list_replicate)

lemma find_init [simp]: "find_entry symtable_init s = None"
  using bucket_index_less [of s] by (simp add: find_entry_def symtable_init_def)

lemma find_entry_name: "find_entry st s = Some e \<Longrightarrow> sym_name e = s"
  by (auto simp: find_entry_def find_Some_iff)

lemma find_link:
  assumes "wf_symtable st"
  shows "find_entry (link_entry st e) s = (if s = sym_name e then Some e else find_entry st s)"
  using assms bucket_index_less [of "sym_name e"]
  by (auto simp: find_entry_def link_entry_def Let_def wf_symtable_def nth_list_update)

lemma wf_link:
  assumes "wf_symtable st" "find_entry st (sym_name e) = None"
  shows "wf_symtable (link_entry st e)"
proof -
  let ?i = "bucket_index (sym_name e)"
  have i: "?i < length (buckets st)"
    using assms(1) bucket_index_less by (simp add: wf_symtable_def)
  have "sum_list (map length ((buckets st)[?i := e # buckets st ! ?i]))
      = Suc (sum_list (map length (buckets st)))"
    using i by (simp add: map_update sum_list_update)
  moreover have "sym_name e \<notin> sym_name ` set (buckets st ! ?i)"
    using assms(2) by (auto simp: find_entry_def find_None_iff)
  ultimately show ?thesis
    using assms(1) i by (auto simp: wf_symtable_def link_entry_def Let_def nth_list_update)
qed

lemma find_update_first:
  "(\<And>x. P (f x) = P x) \<Longrightarrow> find P (update_first P f xs) = map_option f (find P xs)"
  by (induction xs) auto

lemma find_update_other:
  "(\<And>e. sym_name (f e) = sym_name e) \<Longrightarrow> s \<noteq> s' \<Longrightarrow>
     find (\<lambda>e. sym_name e = s') (update_first (\<lambda>e. sym_name e = s) f es) = find (\<lambda>e. sym_name e = s') es"
  by (induction es) auto

lemma update_first_names:
  "(\<And>e. sym_name (f e) = sym_name e) \<Longrightarrow> map sym_name (update_first P f es) = map sym_name es"
  by (induction es) auto

lemma find_write:
  assumes "wf_symtable st" "\<And>e. sym_name (f e) = sym_name e"
  shows "find_entry (write_entry st s f) s' =
           (if s' = s then map_option f (find_entry st s) else find_entry st s')"
proof -
  have i: "bucket_index s < length (buckets st)"
    using assms(1) bucket_index_less by (simp add: wf_symtable_def)
  show ?thesis
    using i assms(2)
    by (auto simp: find_entry_def write_entry_def Let_def nth_list_update find_update_first find_update_other)
qed

lemma wf_write:
  assumes "wf_symtable st" "\<And>e. sym_name (f e) = sym_name e"
  shows "wf_symtable (write_entry st s f)"
proof -
  let ?i = "bucket_index s"
  let ?b = "update_first (\<lambda>e. sym_name e = s) f (buckets st ! ?i)"
  have i: "?i < length (buckets st)"
    using assms(1) bucket_index_less by (simp add: wf_symtable_def)
  have names: "map sym_name ?b = map sym_name (buckets st ! ?i)"
    using assms(2) by (rule update_first_names)
  then have len: "length ?b = length (buckets st ! ?i)" by (metis length_map)
  have "map length ((buckets st)[?i := ?b]) = map length (buckets st)"
    using i len by (simp add: map_update list_update_same_conv)
  moreover have "\<forall>e \<in> set ?b. bucket_index (sym_name e) = ?i"
  proof -
    have "\<forall>n \<in> sym_name ` set (buckets st ! ?i). bucket_index n = ?i"
      using assms(1) i by (auto simp: wf_symtable_def)
    then have "\<forall>n \<in> sym_name ` set ?b. bucket_index n = ?i" using names by (metis set_map)
    then show ?thesis by blast
  qed
  ultimately show ?thesis
    using assms(1) i names by (auto simp: wf_symtable_def write_entry_def Let_def nth_list_update)
qed

section \<open>The contract\<close>

text \<open>
  What the operations promise, over the entry of each label: \<open>can_define\<close>, \<open>can_bind\<close> and
  \<open>can_external\<close> are the conditions under which a declaration is accepted, and the other three
  functions give the entry it leaves.
\<close>

definition entry_of :: "cstr \<Rightarrow> SymEntry option \<Rightarrow> SymEntry" where
  "entry_of s eo = (case eo of None \<Rightarrow> fresh_entry s | Some e \<Rightarrow> e)"

definition can_define :: "SymEntry option \<Rightarrow> bool" where
  "can_define eo = (case eo of None \<Rightarrow> True | Some e \<Rightarrow> \<not> sym_defined e \<and> \<not> external_declared e)"

definition define_entry :: "cstr \<Rightarrow> SymbolSection \<Rightarrow> int \<Rightarrow> SymEntry option \<Rightarrow> SymEntry" where
  "define_entry s sec off eo =
     (entry_of s eo)\<lparr>sym_offset := off, sym_section := sec, sym_defined := True\<rparr>"

definition can_bind :: "SymbolBinding \<Rightarrow> SymEntry option \<Rightarrow> bool" where
  "can_bind b eo = (case eo of None \<Rightarrow> True | Some e \<Rightarrow> binding_declared e \<longrightarrow> sym_binding e = b)"

definition bind_entry :: "cstr \<Rightarrow> SymbolBinding \<Rightarrow> SymEntry option \<Rightarrow> SymEntry" where
  "bind_entry s b eo = (entry_of s eo)\<lparr>sym_binding := b, binding_declared := True\<rparr>"

definition can_external :: "SymEntry option \<Rightarrow> bool" where
  "can_external eo = (case eo of None \<Rightarrow> True | Some e \<Rightarrow>
     \<not> sym_defined e \<and> (binding_declared e \<longrightarrow> sym_binding e = SYMBOL_BINDING_GLOBAL))"

definition external_entry :: "cstr \<Rightarrow> SymEntry option \<Rightarrow> SymEntry" where
  "external_entry s eo =
     (entry_of s eo)\<lparr>sym_section := SYMBOL_SECTION_UNKNOWN, sym_binding := SYMBOL_BINDING_GLOBAL,
        binding_declared := True, external_declared := True\<rparr>"

text \<open>The declarations of a source file as data, and their effect on a map of entries.\<close>

datatype sym_op = Define cstr SymbolSection int | Bind cstr SymbolBinding | External cstr

type_synonym sym_map = "cstr \<Rightarrow> SymEntry option"

fun map_ok :: "sym_map \<Rightarrow> sym_op \<Rightarrow> bool" where
  "map_ok m (Define s sec off) = can_define (m s)"
| "map_ok m (Bind s b) = can_bind b (m s)"
| "map_ok m (External s) = can_external (m s)"

fun map_step :: "sym_map \<Rightarrow> sym_op \<Rightarrow> sym_map" where
  "map_step m (Define s sec off) =
     (if can_define (m s) then m(s \<mapsto> define_entry s sec off (m s)) else m)"
| "map_step m (Bind s b) = (if can_bind b (m s) then m(s \<mapsto> bind_entry s b (m s)) else m)"
| "map_step m (External s) = (if can_external (m s) then m(s \<mapsto> external_entry s (m s)) else m)"

text \<open>The interface a client of the table relies on.\<close>

locale symbol_store =
  fixes inv :: "'s \<Rightarrow> bool"
    and entry :: "'s \<Rightarrow> sym_map"
    and insert_section :: "'s \<Rightarrow> cstr \<Rightarrow> SymbolSection \<Rightarrow> int \<Rightarrow> bool \<times> 's"
    and declare_binding :: "'s \<Rightarrow> cstr \<Rightarrow> SymbolBinding \<Rightarrow> bool \<times> 's"
    and declare_external :: "'s \<Rightarrow> cstr \<Rightarrow> bool \<times> 's"
  assumes insert_law: "inv st \<Longrightarrow> insert_section st s sec off = (ok, st') \<Longrightarrow>
      inv st' \<and> ok = can_define (entry st s) \<and> entry st' = map_step (entry st) (Define s sec off)"
    and binding_law: "inv st \<Longrightarrow> declare_binding st s b = (ok, st') \<Longrightarrow>
      inv st' \<and> ok = can_bind b (entry st s) \<and> entry st' = map_step (entry st) (Bind s b)"
    and external_law: "inv st \<Longrightarrow> declare_external st s = (ok, st') \<Longrightarrow>
      inv st' \<and> ok = can_external (entry st s) \<and> entry st' = map_step (entry st) (External s)"
begin

fun step :: "'s \<Rightarrow> sym_op \<Rightarrow> bool \<times> 's" where
  "step st (Define s sec off) = insert_section st s sec off"
| "step st (Bind s b) = declare_binding st s b"
| "step st (External s) = declare_external st s"

lemma step_law:
  assumes "inv st" "step st p = (ok, st')"
  shows "inv st' \<and> ok = map_ok (entry st) p \<and> entry st' = map_step (entry st) p"
proof (cases p)
  case (Define s sec off)
  then show ?thesis using assms insert_law [OF assms(1), of s sec off ok st'] by simp
next
  case (Bind s b)
  then show ?thesis using assms binding_law [OF assms(1), of s b ok st'] by simp
next
  case (External s)
  then show ?thesis using assms external_law [OF assms(1), of s ok st'] by simp
qed

lemma run_law:
  assumes "inv st"
  shows "inv (foldl (\<lambda>st p. snd (step st p)) st ps)
    \<and> entry (foldl (\<lambda>st p. snd (step st p)) st ps) = foldl map_step (entry st) ps"
  using assms
proof (induction ps arbitrary: st)
  case (Cons p ps)
  then show ?case using step_law [of st p] by (cases "step st p") auto
qed simp

end

section \<open>The table provides the contract\<close>

lemma sym_name_entry_of: "sym_name (entry_of s (find_entry st s)) = s"
  by (auto simp: entry_of_def fresh_entry_def find_entry_name split: option.split)

interpretation symtable: symbol_store wf_symtable find_entry symtable_insert_section
  symtable_declare_binding symtable_declare_external
proof unfold_locales
  note facts = wf_link wf_write find_link find_write fresh_entry_def entry_of_def
  fix st s sec off ok st'
  assume wf: "wf_symtable st"
  show "wf_symtable st' \<and> ok = can_define (find_entry st s)
      \<and> find_entry st' = map_step (find_entry st) (Define s sec off)"
    if "symtable_insert_section st s sec off = (ok, st')"
    using that wf
    by (auto simp: symtable_insert_section_def can_define_def define_entry_def facts fun_eq_iff
        split: option.splits if_splits)
  show "wf_symtable st' \<and> ok = can_bind b (find_entry st s)
      \<and> find_entry st' = map_step (find_entry st) (Bind s b)"
    if "symtable_declare_binding st s b = (ok, st')" for b
    using that wf
    by (auto simp: symtable_declare_binding_def can_bind_def bind_entry_def facts fun_eq_iff
        split: option.splits if_splits)
  show "wf_symtable st' \<and> ok = can_external (find_entry st s)
      \<and> find_entry st' = map_step (find_entry st) (External s)"
    if "symtable_declare_external st s = (ok, st')"
    using that wf
    by (auto simp: symtable_declare_external_def can_external_def external_entry_def facts fun_eq_iff
        split: option.splits if_splits)
qed

section \<open>Consequences over the map\<close>

lemma lookup_map:
  "symtable_lookup_ex st s = (case find_entry st s of
     Some e \<Rightarrow> if sym_defined e then Some (sym_offset e, sym_section e) else None | None \<Rightarrow> None)"
  by (simp add: symtable_lookup_ex_def split: option.split)

text \<open>A defined entry keeps its section and offset; an external entry stays undefined.\<close>

lemma map_step_defined:
  assumes "m s = Some e" "sym_defined e"
  shows "\<exists>e'. map_step m p s = Some e' \<and> sym_defined e' \<and> sym_offset e' = sym_offset e
    \<and> sym_section e' = sym_section e \<and> external_declared e' = external_declared e"
  using assms
  by (cases p) (auto simp: can_define_def can_external_def bind_entry_def entry_of_def)

lemma map_run_defined:
  assumes "m s = Some e" "sym_defined e"
  shows "\<exists>e'. foldl map_step m ps s = Some e' \<and> sym_defined e' \<and> sym_offset e' = sym_offset e
    \<and> sym_section e' = sym_section e \<and> external_declared e' = external_declared e"
  using assms
proof (induction ps arbitrary: m e)
  case (Cons p ps)
  then show ?case using map_step_defined [of m s e p] by fastforce
qed simp

text \<open>Only a definition makes an entry defined.\<close>

lemma map_step_undefined:
  assumes "\<forall>e. m s = Some e \<longrightarrow> \<not> sym_defined e" "\<forall>sec off. p \<noteq> Define s sec off" "map_step m p s = Some e"
  shows "\<not> sym_defined e"
  using assms
  by (cases p; cases "m s") (auto simp: bind_entry_def external_entry_def entry_of_def fresh_entry_def split: if_splits)

lemma map_run_undefined:
  assumes "\<forall>e. m s = Some e \<longrightarrow> \<not> sym_defined e" "\<forall>sec off. Define s sec off \<notin> set ps"
    "foldl map_step m ps s = Some e"
  shows "\<not> sym_defined e"
  using assms
proof (induction ps arbitrary: m)
  case (Cons p ps)
  have "\<forall>e. map_step m p s = Some e \<longrightarrow> \<not> sym_defined e"
    using map_step_undefined [of m s p] Cons.prems(1,2) by auto
  then show ?case using Cons.IH [of "map_step m p"] Cons.prems(2,3) by simp
qed simp

text \<open>No entry is both defined and external, and an external entry is global.\<close>

definition map_consistent :: "sym_map \<Rightarrow> bool" where
  "map_consistent m \<longleftrightarrow> (\<forall>s e. m s = Some e \<longrightarrow> sym_name e = s
     \<and> (external_declared e \<longrightarrow> \<not> sym_defined e \<and> sym_binding e = SYMBOL_BINDING_GLOBAL
          \<and> binding_declared e \<and> sym_section e = SYMBOL_SECTION_UNKNOWN)
     \<and> (\<not> sym_defined e \<longrightarrow> sym_section e = SYMBOL_SECTION_UNKNOWN)
     \<and> (\<not> binding_declared e \<longrightarrow> sym_binding e = SYMBOL_BINDING_LOCAL))"

lemma map_consistent_step: "map_consistent m \<Longrightarrow> map_consistent (map_step m p)"
  by (cases p)
    (auto simp: map_consistent_def can_define_def can_bind_def can_external_def define_entry_def
      bind_entry_def external_entry_def entry_of_def fresh_entry_def split: option.splits)

lemma map_consistent_run: "map_consistent m \<Longrightarrow> map_consistent (foldl map_step m ps)"
  by (induction ps arbitrary: m) (auto intro: map_consistent_step)

section \<open>Properties of the symbol table\<close>

text \<open>A source file's declarations applied to the empty table, in order.\<close>

fun symtable_apply :: "SymbolTable \<Rightarrow> sym_op \<Rightarrow> bool \<times> SymbolTable" where
  "symtable_apply st (Define s sec off) = symtable_insert_section st s sec off"
| "symtable_apply st (Bind s b) = symtable_declare_binding st s b"
| "symtable_apply st (External s) = symtable_declare_external st s"

definition symtable_run :: "sym_op list \<Rightarrow> SymbolTable" where
  "symtable_run ps = foldl (\<lambda>st p. snd (symtable_apply st p)) symtable_init ps"

lemma apply_step: "symtable_apply = symtable.step"
proof (intro ext)
  show "symtable_apply st p = symtable.step st p" for st p by (cases p) simp_all
qed

lemma run_facts:
  "wf_symtable (symtable_run ps)" "find_entry (symtable_run ps) = foldl map_step Map.empty ps"
proof -
  have e: "find_entry symtable_init = Map.empty" by (simp add: fun_eq_iff)
  show "wf_symtable (symtable_run ps)" "find_entry (symtable_run ps) = foldl map_step Map.empty ps"
    using symtable.run_law [OF wf_init, of ps] by (simp_all add: symtable_run_def apply_step e)
qed

lemma run_consistent: "map_consistent (find_entry (symtable_run ps))"
  unfolding run_facts by (rule map_consistent_run) (simp add: map_consistent_def)

lemma symtable_refines_aux:
  "fst (symtable_apply (symtable_run ps) p) = map_ok (foldl map_step Map.empty ps) p"
  using symtable.step_law [OF run_facts(1), of ps p]
  by (cases "symtable_apply (symtable_run ps) p") (simp add: apply_step run_facts(2))

text \<open>
  C22. The hash table refines the map from labels to entries: after any sequence of definitions,
  visibility and external declarations the table is well formed (256 buckets, every entry in
  the bucket of its hash, no label twice, the count right), and looking a label up gives what
  the map of entries has, with the verdict of the last operation that of the map.
\<close>

theorem symtable_refines_map:
  "wf_symtable (symtable_run ps) \<and> find_entry (symtable_run ps) = foldl map_step Map.empty ps
   \<and> fst (symtable_apply (symtable_run ps) p) = map_ok (foldl map_step Map.empty ps) p"
  using run_facts [of ps] symtable_refines_aux [of ps p] by simp

text \<open>
  C23. A label that has been defined keeps its offset and section whatever is declared after
  it, and every later attempt to define it or to declare it external is refused.
\<close>

theorem symtable_definition_final:
  assumes "symtable_lookup_ex (symtable_run ps) s = Some v"
  shows "symtable_lookup_ex (symtable_run (ps @ qs)) s = Some v
    \<and> \<not> fst (symtable_insert_section (symtable_run (ps @ qs)) s sec off)
    \<and> \<not> fst (symtable_declare_external (symtable_run (ps @ qs)) s)"
proof -
  obtain e where e: "foldl map_step Map.empty ps s = Some e" "sym_defined e"
    "v = (sym_offset e, sym_section e)"
    using assms by (auto simp: lookup_map run_facts split: option.splits if_splits)
  obtain e' where e': "foldl map_step Map.empty (ps @ qs) s = Some e'" "sym_defined e'"
    "sym_offset e' = sym_offset e" "sym_section e' = sym_section e"
    using map_run_defined [where m = "foldl map_step Map.empty ps" and s = s and ps = qs] e by fastforce
  then have "\<not> fst (symtable_apply (symtable_run (ps @ qs)) (Define s sec off))"
    "\<not> fst (symtable_apply (symtable_run (ps @ qs)) (External s))"
    unfolding symtable_refines_aux by (simp_all add: can_define_def can_external_def)
  then show ?thesis using e e' by (simp add: lookup_map run_facts)
qed

theorem symtable_definition_final_witness:
  "symtable_lookup_ex (symtable_run ([Define [0x61] SYMBOL_SECTION_DATA 24]
       @ [Bind [0x61] SYMBOL_BINDING_GLOBAL, Define [0x62] SYMBOL_SECTION_TEXT 3])) [0x61]
     = Some (24, SYMBOL_SECTION_DATA)"
  by (rule symtable_definition_final [THEN conjunct1])
    (simp add: lookup_map run_facts can_define_def define_entry_def entry_of_def)

text \<open>
  A label declared external is never defined by the file: its definition is refused and it
  has no offset, and no later declaration changes that. It is global from then on.
\<close>

theorem symtable_external_final:
  assumes "symtable_is_external (symtable_run ps) s"
  shows "symtable_is_external (symtable_run (ps @ qs)) s
    \<and> symtable_lookup_ex (symtable_run (ps @ qs)) s = None
    \<and> \<not> fst (symtable_insert_section (symtable_run (ps @ qs)) s sec off)
    \<and> \<not> fst (symtable_declare_binding (symtable_run (ps @ qs)) s SYMBOL_BINDING_LOCAL)"
proof -
  have ext: "\<exists>e'. foldl map_step m qs s = Some e' \<and> external_declared e'"
    if "m s = Some e" "external_declared e" for m e
    using that
  proof (induction qs arbitrary: m e)
    case (Cons q qs)
    have "\<exists>e'. map_step m q s = Some e' \<and> external_declared e'"
      using Cons.prems
      by (cases q) (auto simp: define_entry_def bind_entry_def external_entry_def entry_of_def)
    then show ?case using Cons.IH by auto
  qed auto
  obtain e where e: "foldl map_step Map.empty ps s = Some e" "external_declared e"
    using assms by (auto simp: symtable_is_external_def run_facts split: option.splits)
  obtain e' where e': "foldl map_step Map.empty (ps @ qs) s = Some e'" "external_declared e'"
    using ext [of "foldl map_step Map.empty ps"] e by auto
  then have c: "\<not> sym_defined e' \<and> sym_binding e' = SYMBOL_BINDING_GLOBAL \<and> binding_declared e'"
    using run_consistent [of "ps @ qs"] unfolding run_facts map_consistent_def by blast
  then have "\<not> fst (symtable_apply (symtable_run (ps @ qs)) (Define s sec off))"
    "\<not> fst (symtable_apply (symtable_run (ps @ qs)) (Bind s SYMBOL_BINDING_LOCAL))"
    unfolding symtable_refines_aux using e' by (simp_all add: can_define_def can_bind_def)
  then show ?thesis using c e' by (simp add: symtable_is_external_def lookup_map run_facts)
qed

theorem symtable_external_final_witness:
  "symtable_is_external (symtable_run ([External [0x61]] @ [Define [0x61] SYMBOL_SECTION_TEXT 0])) [0x61]"
  by (rule symtable_external_final [THEN conjunct1])
    (simp add: symtable_is_external_def run_facts can_external_def external_entry_def entry_of_def fresh_entry_def)

text \<open>
  C24. The order of a visibility declaration and the definition of a label does not matter: both
  orders leave the same entries in the table and accept the same declarations, so \<^verbatim>\<open>.global\<close> may
  come before or after the label.
\<close>

theorem symtable_visibility_order:
  "find_entry (symtable_run (ps @ [Bind s b, Define s sec off] @ qs)) =
     find_entry (symtable_run (ps @ [Define s sec off, Bind s b] @ qs))"
proof -
  have "map_step (map_step m (Bind s b)) (Define s sec off)
      = map_step (map_step m (Define s sec off)) (Bind s b)" for m
    by (auto simp: can_define_def can_bind_def define_entry_def bind_entry_def entry_of_def
        fresh_entry_def split: option.splits)
  then show ?thesis by (simp add: run_facts)
qed

end
