(* ===== verification/Pass1.thy ===== *)
theory Pass1
  imports Instruction Encoder Symtable
begin

text \<open>
  The first pass, \<^verbatim>\<open>src/src/passes/pass1.c\<close>: it walks the instruction list once, lays out the
  four sections, records labels and visibility in the symbol table, validates the directives and
  collects the debug files. The walk is a fold of \<open>pass1_step\<close> over the instructions; each
  branch of the loop body that ends in \<^verbatim>\<open>continue\<close> is a definition of its own.
\<close>

section \<open>Sizes of data directives\<close>

text \<open>The cast of a \<^verbatim>\<open>size_t\<close> to \<^verbatim>\<open>int\<close>.\<close>

definition c_int :: "nat \<Rightarrow> int" where "c_int n = sint (word_of_nat n :: i32)"

definition data_directive_size :: "Instruction \<Rightarrow> int" where
  "data_directive_size i =
     (let n = int (length (ops i)) in
      case directive_kind i of
        DIRECTIVE_NUL_STRING \<Rightarrow>
          sum_list (map (\<lambda>p. case opnd p of OP_STRING s \<Rightarrow> c_int (length s) + 1 | _ \<Rightarrow> 0) (ops i))
      | DIRECTIVE_INT8 \<Rightarrow> if n > 0 then n * 1 else 0
      | DIRECTIVE_INT16 \<Rightarrow> if n > 0 then n * 2 else 0
      | DIRECTIVE_INT32 \<Rightarrow> if n > 0 then n * 4 else 0
      | DIRECTIVE_INT64 \<Rightarrow> if n > 0 then n * 8 else 0
      | DIRECTIVE_ALIGNMENT \<Rightarrow> 0
      | DIRECTIVE_ZERO_SPACE \<Rightarrow>
          (case op_kinds i of OP_IMM v # _ \<Rightarrow> sint (ucast v :: i32) | _ \<Rightarrow> 0)
      | _ \<Rightarrow> 0)"

definition data_directive_size_at :: "Instruction \<Rightarrow> nat \<Rightarrow> int" where
  "data_directive_size_at i section_offset =
     (case (directive_kind i, op_kinds i) of
        (DIRECTIVE_ALIGNMENT, [OP_IMM v]) \<Rightarrow>
          if sint v > 0
          then (let alignment = unat v
                in c_int ((alignment - section_offset mod alignment) mod alignment))
          else data_directive_size i
      | _ \<Rightarrow> data_directive_size i)"

section \<open>Visibility\<close>

definition visibility_directive_binding :: "Instruction \<Rightarrow> SymbolBinding option" where
  "visibility_directive_binding i = (case directive_kind i of
     DIRECTIVE_GLOBAL \<Rightarrow> Some SYMBOL_BINDING_GLOBAL
   | DIRECTIVE_LOCAL \<Rightarrow> Some SYMBOL_BINDING_LOCAL
   | _ \<Rightarrow> None)"

definition add_visibility_error ::
  "PassErrors \<Rightarrow> InstructionList \<Rightarrow> Instruction \<Rightarrow> PassMessage \<Rightarrow> PassErrors" where
  "add_visibility_error errs il i message =
     (case ops i of
        [] \<Rightarrow> error_push errs (error_file il) (line i) (col i) (end_col i) message
      | p # _ \<Rightarrow> error_push errs (error_file il) (op_line p) (op_col p) (op_end_col p) message)"

definition add_directive_error ::
  "PassErrors \<Rightarrow> InstructionList \<Rightarrow> Instruction \<Rightarrow> int \<Rightarrow> PassMessage \<Rightarrow> PassErrors" where
  "add_directive_error errs il i operand_index message =
     (if operand_index \<ge> 0 \<and> operand_index < int (length (ops i))
      then (let p = ops i ! nat operand_index
            in error_push errs (error_file il) (op_line p) (op_col p) (op_end_col p) message)
      else error_push errs (error_file il) (line i) (col i) (end_col i) message)"

section \<open>Debug files\<close>

definition debug_file_find :: "DebugFile list \<Rightarrow> u32 \<Rightarrow> DebugFile option" where
  "debug_file_find files fid = find (\<lambda>f. df_id f = fid) files"

definition debug_file_push :: "DebugFile list \<Rightarrow> u32 \<Rightarrow> cstr \<Rightarrow> DebugFile list" where
  "debug_file_push files fid path = files @ [\<lparr>df_id = fid, df_path = path\<rparr>]"

text \<open>
  The inner loop of \<^verbatim>\<open>decode_debug_path_bytes\<close>: digits up to an Arabic comma or the end. The
  result is the offset, the value, the number of digits and \<^verbatim>\<open>ended_with_separator\<close>; \<open>None\<close> is the
  error return.
\<close>

function path_digits :: "u8 list \<Rightarrow> nat \<Rightarrow> int \<Rightarrow> nat \<Rightarrow> bool \<Rightarrow> (nat \<times> int \<times> nat \<times> bool) option" where
  "path_digits enc offset val digits ended =
     (if \<not> offset < length enc then Some (offset, val, digits, ended)
      else (let (cp, nxt) = utf8_next_codepoint enc offset in
        if cp = 0x060C then Some (nxt, val, digits, nxt = length enc)
        else if \<not> nazm_is_arabic_digit cp \<or> digits \<ge> 3 then None
        else path_digits enc nxt (val * 10 + arabic_digit_value cp) (digits + 1) False))"
  by pat_completeness auto
termination
  by (relation "measure (\<lambda>(enc, offset, _). length enc - offset)")
    (use next_progress in \<open>fastforce simp: prod_eq_iff\<close>)+

declare path_digits.simps [simp del]

lemma path_digits_progress:
  "path_digits enc offset val digits ended = Some (o', v', d', e') \<Longrightarrow> offset < length enc \<Longrightarrow>
     offset < o' \<and> o' \<le> length enc"
proof (induction enc offset val digits ended rule: path_digits.induct)
  case (1 enc offset val digits ended)
  obtain cp nxt where n: "utf8_next_codepoint enc offset = (cp, nxt)" by fastforce
  have p: "offset < nxt" "nxt \<le> length enc" using next_progress [OF 1(3) n] by auto
  show ?case
  proof (cases "nxt < length enc")
    case True
    then show ?thesis
      using 1(2,3) p 1(1) [OF _ n [symmetric] refl]
      by (subst (asm) path_digits.simps) (auto simp: n split: if_splits)
  next
    case False
    then show ?thesis
      using 1(2,3) p
      by (subst (asm) path_digits.simps)
        (auto simp: n path_digits.simps [of enc "length enc"] split: if_splits)
  qed
qed

text \<open>The outer loop, collecting one byte per element.\<close>

function path_elements :: "u8 list \<Rightarrow> nat \<Rightarrow> u8 list \<Rightarrow> bool \<Rightarrow> PassMessage + (u8 list \<times> bool)" where
  "path_elements enc offset decoded ended =
     (if \<not> offset < length enc then Inr (decoded, ended)
      else (case path_digits enc offset 0 0 ended of
          None \<Rightarrow> Inl MSG_BYTES_DIGITS
        | Some (nxt, val, digits, ended') \<Rightarrow>
            if digits = 0 \<or> val > 255 \<or> val = 0 then Inl MSG_BYTES_RANGE
            else path_elements enc nxt (decoded @ [word_of_int val]) ended'))"
  by pat_completeness auto
termination
  by (relation "measure (\<lambda>(enc, offset, _). length enc - offset)")
    (use path_digits_progress in fastforce)+

declare path_elements.simps [simp del]

text \<open>The validation loop: every sequence is well formed, U+FFFD only as its own three bytes.\<close>

function path_is_utf8 :: "u8 list \<Rightarrow> nat \<Rightarrow> bool" where
  "path_is_utf8 decoded offset =
     (if \<not> offset < length decoded then True
      else (let (cp, nxt) = utf8_next_codepoint decoded offset in
        if cp = 0xFFFD \<and> \<not> (nxt - offset = 3 \<and> decoded ! offset = 0xEF
                             \<and> decoded ! (offset + 1) = 0xBF \<and> decoded ! (offset + 2) = 0xBD)
        then False
        else path_is_utf8 decoded nxt))"
  by pat_completeness auto
termination
  by (relation "measure (\<lambda>(d, offset). length d - offset)")
    (use next_progress in \<open>fastforce simp: prod_eq_iff\<close>)+

declare path_is_utf8.simps [simp del]

definition decode_debug_path_bytes :: "u8 list \<Rightarrow> PassMessage + cstr" where
  "decode_debug_path_bytes enc =
     (case path_elements enc 0 [] False of
        Inl m \<Rightarrow> Inl m
      | Inr (decoded, ended) \<Rightarrow>
          if length decoded = 0 \<or> ended then Inl MSG_BYTES_EMPTY
          else if \<not> path_is_utf8 decoded 0 then Inl MSG_BYTES_UTF8
          else Inr decoded)"


section \<open>Validating the directives\<close>

text \<open>
  A validator returns its verdict with the list of errors it leaves. \<open>reject\<close> is the common exit:
  report at an operand (or at the instruction, for \<open>- 1\<close>) and return \<^verbatim>\<open>false\<close>.
\<close>

definition reject ::
  "InstructionList \<Rightarrow> Instruction \<Rightarrow> PassErrors \<Rightarrow> int \<Rightarrow> PassMessage \<Rightarrow> bool \<times> PassErrors" where
  "reject il i errs k m = (False, add_directive_error errs il i k m)"

definition validate_debug_file_directive ::
  "PassErrors \<Rightarrow> DebugFile list \<Rightarrow> InstructionList \<Rightarrow> Instruction \<Rightarrow> bool \<times> PassErrors \<times> DebugFile list" where
  "validate_debug_file_directive errs files il i =
     (let fail = (\<lambda>k m. (False, add_directive_error errs il i k m, files)) in
      case op_kinds i of
        [OP_IMM v, OP_STRING s] \<Rightarrow>
          if sint v \<le> 0 \<or> uint v > 0xFFFFFFFF then fail 0 MSG_FILE_ID
          else if length s = 0 \<or> 0 \<in> set s then fail 1 MSG_FILE_PATH
          else (case (if directive_kind i = DIRECTIVE_DEBUG_FILE_BYTES
                      then decode_debug_path_bytes s else Inr s) of
              Inl m \<Rightarrow> fail 1 m
            | Inr path \<Rightarrow>
                let fid = (ucast v :: u32) in
                if debug_file_find files fid \<noteq> None then fail 0 MSG_FILE_DUPLICATE
                else (True, errs, debug_file_push files fid path))
      | _ \<Rightarrow> fail (- 1) MSG_FILE_OPERANDS)"

definition validate_debug_location_directive ::
  "InstructionList \<Rightarrow> Instruction \<Rightarrow> PassErrors \<Rightarrow> bool \<times> PassErrors" where
  "validate_debug_location_directive il i errs =
     (case op_kinds i of
        [OP_IMM f, OP_IMM l, OP_IMM c] \<Rightarrow>
          if f = 0 \<and> l = 0 \<and> c = 0 then (True, errs)
          else if sint f \<le> 0 \<or> uint f > 0xFFFFFFFF \<or> sint l \<le> 0 \<or> sint l > 0x00FFFFFF
                \<or> sint c \<le> 0 \<or> sint c > 0xFFFF
          then reject il i errs (- 1) MSG_LOCATION_RANGE
          else (True, errs)
      | _ \<Rightarrow> reject il i errs (- 1) MSG_LOCATION_OPERANDS)"

definition location_file_error ::
  "InstructionList \<Rightarrow> DebugFile list \<Rightarrow> PassErrors \<Rightarrow> Instruction \<Rightarrow> PassErrors" where
  "location_file_error il files errs i =
     (if directive_kind i \<noteq> DIRECTIVE_DEBUG_LOCATION then errs
      else (case op_kinds i of
          [OP_IMM f, _, _] \<Rightarrow>
            if sint f \<le> 0 \<or> uint f > 0xFFFFFFFF then errs
            else if debug_file_find files (ucast f) = None
            then add_directive_error errs il i 0 MSG_LOCATION_FILE
            else errs
        | _ \<Rightarrow> errs))"

definition validate_debug_location_files ::
  "InstructionList \<Rightarrow> DebugFile list \<Rightarrow> PassErrors \<Rightarrow> PassErrors" where
  "validate_debug_location_files il files errs =
     foldl (location_file_error il files) errs (instrs il)"

definition is_data_directive :: "DirectiveKind \<Rightarrow> bool" where
  "is_data_directive d \<longleftrightarrow>
     d = DIRECTIVE_INT8 \<or> d = DIRECTIVE_INT16 \<or> d = DIRECTIVE_INT32 \<or> d = DIRECTIVE_INT64
     \<or> d = DIRECTIVE_ALIGNMENT \<or> d = DIRECTIVE_ZERO_SPACE \<or> d = DIRECTIVE_NUL_STRING"

definition data_value_fits_width :: "i64 \<Rightarrow> nat \<Rightarrow> bool" where
  "data_value_fits_width v bits =
     (if bits = 64 then True
      else (let signed_min = - (2 ^ (bits - 1)) :: int; unsigned_max = 2 ^ bits - 1 :: int
            in if sint v < 0 then sint v \<ge> signed_min else uint v \<le> unsigned_max))"

text \<open>The two loops over the operands; the index is the operand reported.\<close>

fun validate_strings :: "int \<Rightarrow> Operand list \<Rightarrow> (int \<times> PassMessage) option" where
  "validate_strings k [] = None"
| "validate_strings k (OP_STRING s # os) = validate_strings (k + 1) os"
| "validate_strings k (_ # os) = Some (k, MSG_STRING_KIND)"

fun validate_integers :: "nat \<Rightarrow> int \<Rightarrow> Operand list \<Rightarrow> (int \<times> PassMessage) option" where
  "validate_integers bits k [] = None"
| "validate_integers bits k (oper # os) =
     (case oper of
        OP_IMM v \<Rightarrow>
          if \<not> data_value_fits_width v bits then Some (k, MSG_INT_WIDTH bits)
          else validate_integers bits (k + 1) os
      | OP_LABEL s \<Rightarrow>
          if bits = 64 then validate_integers bits (k + 1) os else Some (k, MSG_INT_KIND)
      | _ \<Rightarrow> Some (k, if bits = 64 then MSG_INT64_KIND else MSG_INT_KIND))"

definition directive_bits :: "DirectiveKind \<Rightarrow> nat" where
  "directive_bits d = (case d of
     DIRECTIVE_INT8 \<Rightarrow> 8 | DIRECTIVE_INT16 \<Rightarrow> 16 | DIRECTIVE_INT32 \<Rightarrow> 32 | DIRECTIVE_INT64 \<Rightarrow> 64
   | _ \<Rightarrow> 0)"

definition validate_alignment :: "i64 \<Rightarrow> bool" where
  "validate_alignment v \<longleftrightarrow> \<not> (sint v < 1 \<or> sint v > 4096 \<or> v AND (v - 1) \<noteq> 0)"

definition validate_data_directive ::
  "InstructionList \<Rightarrow> Instruction \<Rightarrow> PassErrors \<Rightarrow> bool \<times> PassErrors" where
  "validate_data_directive il i errs =
     (if directive_kind i = DIRECTIVE_NUL_STRING then
        if length (ops i) = 0 then reject il i errs (- 1) MSG_STRING_COUNT
        else (case validate_strings 0 (op_kinds i) of
            Some (k, m) \<Rightarrow> reject il i errs k m | None \<Rightarrow> (True, errs))
      else if directive_kind i = DIRECTIVE_ZERO_SPACE then
        (case op_kinds i of
           [OP_IMM v] \<Rightarrow>
             if sint v < 0 \<or> sint v > 0x7FFFFFFF then reject il i errs 0 MSG_SPACE_RANGE
             else (True, errs)
         | _ \<Rightarrow> reject il i errs (- 1) MSG_SPACE_COUNT)
      else if directive_kind i = DIRECTIVE_ALIGNMENT then
        (case op_kinds i of
           [OP_IMM v] \<Rightarrow>
             if \<not> validate_alignment v then reject il i errs 0 MSG_ALIGN_POWER else (True, errs)
         | _ \<Rightarrow> reject il i errs (- 1) MSG_ALIGN_COUNT)
      else if length (ops i) = 0 then reject il i errs (- 1) MSG_INT_COUNT
      else (case validate_integers (directive_bits (directive_kind i)) 0 (op_kinds i) of
          Some (k, m) \<Rightarrow> reject il i errs k m | None \<Rightarrow> (True, errs)))"

text \<open>
  A symbol declared visible and never defined is reported at the first directive that names it.
\<close>

definition visibility_names :: "Instruction \<Rightarrow> cstr \<Rightarrow> bool" where
  "visibility_names i s \<longleftrightarrow> visibility_directive_binding i \<noteq> None \<and> op_kinds i = [OP_LABEL s]"

definition undefined_symbol_error ::
  "InstructionList \<Rightarrow> PassErrors \<Rightarrow> SymEntry \<Rightarrow> PassErrors" where
  "undefined_symbol_error il errs e =
     (if sym_defined e \<or> external_declared e \<or> \<not> binding_declared e then errs
      else (case find (\<lambda>i. visibility_names i (sym_name e)) (instrs il) of
          None \<Rightarrow> errs
        | Some i \<Rightarrow> add_visibility_error errs il i (MSG_VISIBILITY_UNDEFINED (sym_name e))))"

definition report_undefined_visibility_symbols ::
  "InstructionList \<Rightarrow> SymbolTable \<Rightarrow> PassErrors \<Rightarrow> PassErrors" where
  "report_undefined_visibility_symbols il st errs =
     foldl (undefined_symbol_error il) errs (concat (buckets st))"


section \<open>The walk\<close>

text \<open>The four offsets, the current section and the fields of the result while it is built.\<close>

record Pass1State =
  text_offset :: nat
  data_offset :: nat
  read_only_data_offset :: nat
  bss_offset :: nat
  current_section :: SymbolSection
  p1_table :: SymbolTable
  data_align :: nat
  read_only_data_align :: nat
  bss_align :: nat
  p1_files :: "DebugFile list"
  p1_errs :: PassErrors

record Pass1Result =
  symtable :: SymbolTable
  p1_text_size :: nat
  p1_data_size :: nat
  p1_read_only_data_size :: nat
  p1_bss_size :: nat
  data_alignment :: nat
  read_only_data_alignment :: nat
  bss_alignment :: nat
  debug_files :: "DebugFile list"
  p1_errors :: PassErrors

text \<open>The pointer to a section's offset; \<open>None\<close> is \<^verbatim>\<open>NULL\<close>, and \<open>pass1_advance\<close> adds through it.\<close>

definition pass1_section_offset :: "Pass1State \<Rightarrow> SymbolSection \<Rightarrow> nat option" where
  "pass1_section_offset st sec = (case sec of
     SYMBOL_SECTION_TEXT \<Rightarrow> Some (text_offset st)
   | SYMBOL_SECTION_DATA \<Rightarrow> Some (data_offset st)
   | SYMBOL_SECTION_READ_ONLY_DATA \<Rightarrow> Some (read_only_data_offset st)
   | SYMBOL_SECTION_BSS \<Rightarrow> Some (bss_offset st)
   | SYMBOL_SECTION_UNKNOWN \<Rightarrow> None)"

definition pass1_advance :: "Pass1State \<Rightarrow> SymbolSection \<Rightarrow> nat \<Rightarrow> Pass1State" where
  "pass1_advance st sec n = (case sec of
     SYMBOL_SECTION_TEXT \<Rightarrow> st\<lparr>text_offset := text_offset st + n\<rparr>
   | SYMBOL_SECTION_DATA \<Rightarrow> st\<lparr>data_offset := data_offset st + n\<rparr>
   | SYMBOL_SECTION_READ_ONLY_DATA \<Rightarrow> st\<lparr>read_only_data_offset := read_only_data_offset st + n\<rparr>
   | SYMBOL_SECTION_BSS \<Rightarrow> st\<lparr>bss_offset := bss_offset st + n\<rparr>
   | SYMBOL_SECTION_UNKNOWN \<Rightarrow> st)"

definition pass1_note_alignment :: "Pass1State \<Rightarrow> SymbolSection \<Rightarrow> Instruction \<Rightarrow> Pass1State" where
  "pass1_note_alignment st sec i =
     (case (directive_kind i, op_kinds i) of
        (DIRECTIVE_ALIGNMENT, [OP_IMM v]) \<Rightarrow>
          if sint v \<le> 0 then st
          else (let alignment = unat v in case sec of
              SYMBOL_SECTION_DATA \<Rightarrow> if alignment > data_align st then st\<lparr>data_align := alignment\<rparr> else st
            | SYMBOL_SECTION_READ_ONLY_DATA \<Rightarrow>
                if alignment > read_only_data_align st then st\<lparr>read_only_data_align := alignment\<rparr> else st
            | SYMBOL_SECTION_BSS \<Rightarrow> if alignment > bss_align st then st\<lparr>bss_align := alignment\<rparr> else st
            | _ \<Rightarrow> st)
      | _ \<Rightarrow> st)"

text \<open>\<^verbatim>\<open>a ? a : b\<close> on the position fields\<close>

definition or_else :: "int \<Rightarrow> int \<Rightarrow> int" where
  "or_else a b = (if a \<noteq> 0 then a else b)"

text \<open>Register a label at an offset of the current section, reporting a duplicate.\<close>

definition pass1_label :: "InstructionList \<Rightarrow> Pass1State \<Rightarrow> Instruction \<Rightarrow> nat \<Rightarrow> Pass1State" where
  "pass1_label il st i off = (case label i of
     None \<Rightarrow> st
   | Some s \<Rightarrow>
       (let (ok, tab) = symtable_insert_section (p1_table st) s (current_section st) (int off) in
        if ok then st\<lparr>p1_table := tab\<rparr>
        else st\<lparr>p1_errs := error_push (p1_errs st) (error_file il) (or_else (label_line i) (line i))
               (or_else (label_col i) (col i)) (or_else (label_end_col i) (end_col i))
               (MSG_DUPLICATE_LABEL s)\<rparr>))"

definition pass1_external :: "InstructionList \<Rightarrow> Pass1State \<Rightarrow> Instruction \<Rightarrow> Pass1State" where
  "pass1_external il st i = (case op_kinds i of
     [OP_LABEL s] \<Rightarrow>
       (let (ok, tab) = symtable_declare_external (p1_table st) s in
        if ok then st\<lparr>p1_table := tab\<rparr>
        else st\<lparr>p1_errs := add_visibility_error (p1_errs st) il i (MSG_EXTERNAL_CONFLICT s)\<rparr>)
   | _ \<Rightarrow> st\<lparr>p1_errs := add_visibility_error (p1_errs st) il i MSG_EXTERNAL_OPERAND\<rparr>)"

definition pass1_visibility ::
  "InstructionList \<Rightarrow> Pass1State \<Rightarrow> Instruction \<Rightarrow> SymbolBinding \<Rightarrow> Pass1State" where
  "pass1_visibility il st i binding = (case op_kinds i of
     [OP_LABEL s] \<Rightarrow>
       (let (ok, tab) = symtable_declare_binding (p1_table st) s binding in
        if ok then st\<lparr>p1_table := tab\<rparr>
        else st\<lparr>p1_errs := add_visibility_error (p1_errs st) il i (MSG_VISIBILITY_CONFLICT s)\<rparr>)
   | _ \<Rightarrow> st\<lparr>p1_errs := add_visibility_error (p1_errs st) il i (MSG_VISIBILITY_OPERAND (directive i))\<rparr>)"

text \<open>A directive that emits data, after all checks: label, alignment and size.\<close>

definition pass1_emit :: "InstructionList \<Rightarrow> Pass1State \<Rightarrow> Instruction \<Rightarrow> Pass1State" where
  "pass1_emit il st i = (case pass1_section_offset st (current_section st) of
     None \<Rightarrow> st
   | Some off \<Rightarrow>
       (let dsz = data_directive_size_at i off;
            st = pass1_label il (pass1_note_alignment st (current_section st) i) i off
        in if dsz > 0 then pass1_advance st (current_section st) (nat dsz) else st))"

definition pass1_data :: "InstructionList \<Rightarrow> Pass1State \<Rightarrow> Instruction \<Rightarrow> Pass1State" where
  "pass1_data il st i =
     (if \<not> is_data_directive (directive_kind i) then
        st\<lparr>p1_errs := add_directive_error (p1_errs st) il i (- 1) (MSG_UNKNOWN_DIRECTIVE (directive i))\<rparr>
      else if current_section st = SYMBOL_SECTION_TEXT \<or> current_section st = SYMBOL_SECTION_UNKNOWN then
        st\<lparr>p1_errs := add_directive_error (p1_errs st) il i (- 1) MSG_DATA_SECTION_ONLY\<rparr>
      else (let (ok, es) = validate_data_directive il i (p1_errs st) in
        if \<not> ok then st\<lparr>p1_errs := es\<rparr>
        else if current_section st = SYMBOL_SECTION_BSS \<and> directive_kind i \<noteq> DIRECTIVE_ZERO_SPACE
                \<and> directive_kind i \<noteq> DIRECTIVE_ALIGNMENT
        then st\<lparr>p1_errs := add_directive_error es il i (- 1) MSG_BSS_ONLY\<rparr>
        else pass1_emit il (st\<lparr>p1_errs := es\<rparr>) i))"

definition pass1_directive :: "InstructionList \<Rightarrow> Pass1State \<Rightarrow> Instruction \<Rightarrow> Pass1State" where
  "pass1_directive il st i = (case directive_kind i of
     DIRECTIVE_TEXT \<Rightarrow> st\<lparr>current_section := SYMBOL_SECTION_TEXT\<rparr>
   | DIRECTIVE_DATA \<Rightarrow> st\<lparr>current_section := SYMBOL_SECTION_DATA\<rparr>
   | DIRECTIVE_READ_ONLY_DATA \<Rightarrow> st\<lparr>current_section := SYMBOL_SECTION_READ_ONLY_DATA\<rparr>
   | DIRECTIVE_BSS \<Rightarrow> st\<lparr>current_section := SYMBOL_SECTION_BSS\<rparr>
   | DIRECTIVE_EXTERNAL \<Rightarrow> pass1_external il st i
   | DIRECTIVE_DEBUG_LOCATION \<Rightarrow>
       st\<lparr>p1_errs := snd (validate_debug_location_directive il i (p1_errs st))\<rparr>
   | _ \<Rightarrow>
       if directive_kind i = DIRECTIVE_DEBUG_FILE \<or> directive_kind i = DIRECTIVE_DEBUG_FILE_BYTES then
         (let (_, es, fs) = validate_debug_file_directive (p1_errs st) (p1_files st) il i
          in st\<lparr>p1_errs := es, p1_files := fs\<rparr>)
       else (case visibility_directive_binding i of
           Some b \<Rightarrow> pass1_visibility il st i b
         | None \<Rightarrow> pass1_data il st i))"

text \<open>
  The size a pass lays an instruction out with. \<^verbatim>\<open>sz <= 0\<close> cannot be told from a size here: the
  encoder's sizes are natural numbers, and 0 is replaced.
\<close>

definition layout_size :: "Instruction \<Rightarrow> nat" where
  "layout_size i =
     (let sz = encoder_instruction_size (opcode i) (op_kinds i)
      in if sz \<le> 0 then MAX_INSTRUCTION_BYTES else sz)"

definition pass1_instruction :: "InstructionList \<Rightarrow> Pass1State \<Rightarrow> Instruction \<Rightarrow> Pass1State" where
  "pass1_instruction il st i =
     (let st = (case pass1_section_offset st (current_section st) of
                  None \<Rightarrow> st | Some off \<Rightarrow> pass1_label il st i off)
      in if opcode i = OPCODE_INVALID then st
         else if current_section st \<noteq> SYMBOL_SECTION_TEXT then st
         else pass1_advance st SYMBOL_SECTION_TEXT (layout_size i))"

definition pass1_step :: "InstructionList \<Rightarrow> Pass1State \<Rightarrow> Instruction \<Rightarrow> Pass1State" where
  "pass1_step il st i =
     (if directive_kind i \<noteq> DIRECTIVE_NONE then pass1_directive il st i
      else pass1_instruction il st i)"

definition pass1_start :: "InstructionList \<Rightarrow> Pass1State" where
  "pass1_start il =
     \<lparr>text_offset = 0, data_offset = 0, read_only_data_offset = 0, bss_offset = 0,
      current_section = SYMBOL_SECTION_TEXT, p1_table = symtable_init, data_align = 0,
      read_only_data_align = 0, bss_align = 0, p1_files = [],
      p1_errs = error_list_set_source error_list_init (source_name il) (source_data il)\<rparr>"

definition pass1_walk :: "InstructionList \<Rightarrow> Instruction list \<Rightarrow> Pass1State" where
  "pass1_walk il is = foldl (pass1_step il) (pass1_start il) is"

definition pass1_run :: "InstructionList \<Rightarrow> Pass1Result" where
  "pass1_run il =
     (let st = pass1_walk il (instrs il);
          es = report_undefined_visibility_symbols il (p1_table st) (p1_errs st);
          es = validate_debug_location_files il (p1_files st) es
      in \<lparr>symtable = p1_table st, p1_text_size = text_offset st, p1_data_size = data_offset st,
          p1_read_only_data_size = read_only_data_offset st, p1_bss_size = bss_offset st,
          data_alignment = data_align st, read_only_data_alignment = read_only_data_align st,
          bss_alignment = bss_align st, debug_files = p1_files st, p1_errors = es\<rparr>)"

end
