(* ===== verification/Pass2.thy ===== *)
theory Pass2
  imports Pass1
begin

text \<open>
  The second pass, \<^verbatim>\<open>src/src/passes/pass2.c\<close>: it walks the same list, resolves labels through
  the table of pass 1, encodes, and appends to the section buffers whose capacities are the
  sizes pass 1 computed. A buffer is the bytes written so far; its length is the section's size
  field. A handler of the loop body returns \<open>Inr\<close> the state where the body reaches its end or a
  \<^verbatim>\<open>continue\<close>, and \<open>Inl\<close> where it returns the result early. Text offsets are far below \<open>2 ^ 63\<close>, so
  the subtraction of the branch displacement is written on integers.
\<close>

section \<open>Data\<close>

datatype RelocationSection = RELOC_SECTION_TEXT | RELOC_SECTION_DATA | RELOC_SECTION_READ_ONLY_DATA

datatype RelocationKind = RELOC_ABS64 | RELOC_PC32

record Relocation =
  rel_section :: RelocationSection
  rel_kind :: RelocationKind
  rel_offset :: nat
  rel_symbol :: cstr
  rel_addend :: int

record EmissionSpan =
  em_section :: SymbolSection
  em_offset :: nat
  em_size :: nat

record Pass2Result =
  text_bytes :: "u8 list"
  data_bytes :: "u8 list"
  read_only_data_bytes :: "u8 list"
  bss_size :: nat
  emissions :: "EmissionSpan list"
  debug_lines :: "DebugLine list"
  relocations :: "Relocation list"
  p2_errors :: PassErrors

text \<open>The result while it is built, with the local variables of \<^verbatim>\<open>pass2_run\<close>.\<close>

record Pass2State = Pass2Result +
  p2_section :: SymbolSection
  debug_file :: u32
  debug_line :: u32
  debug_column :: u32

definition push_relocation :: "Pass2State \<Rightarrow> Relocation \<Rightarrow> Pass2State" where
  "push_relocation st r = st\<lparr>relocations := relocations st @ [r]\<rparr>"

definition push_debug_line :: "Pass2State \<Rightarrow> DebugLine \<Rightarrow> Pass2State" where
  "push_debug_line st l = st\<lparr>debug_lines := debug_lines st @ [l]\<rparr>"

text \<open>The span of the current instruction, complete when its handler returns.\<close>

definition put_span :: "SymbolSection \<Rightarrow> nat \<Rightarrow> nat \<Rightarrow> Pass2State \<Rightarrow> Pass2State" where
  "put_span sec off n st =
     st\<lparr>emissions := emissions st @ [\<lparr>em_section = sec, em_offset = off, em_size = n\<rparr>]\<rparr>"

section \<open>Buffers\<close>

definition buffer_has_capacity :: "nat \<Rightarrow> nat \<Rightarrow> nat \<Rightarrow> bool" where
  "buffer_has_capacity written amount capacity \<longleftrightarrow> written \<le> capacity \<and> amount \<le> capacity - written"

definition buffer_append :: "u8 list \<Rightarrow> nat \<Rightarrow> u8 list \<Rightarrow> bool \<times> u8 list" where
  "buffer_append buf capacity data =
     (if \<not> buffer_has_capacity (length buf) (length data) capacity then (False, buf)
      else (True, buf @ data))"

definition buffer_fill :: "u8 list \<Rightarrow> nat \<Rightarrow> u8 \<Rightarrow> nat \<Rightarrow> bool \<times> u8 list" where
  "buffer_fill buf capacity v amount =
     (if \<not> buffer_has_capacity (length buf) amount capacity then (False, buf)
      else (True, buf @ replicate amount v))"

section \<open>Diagnostics\<close>

definition add_internal_error ::
  "Pass2State \<Rightarrow> InstructionList \<Rightarrow> Instruction option \<Rightarrow> PassMessage \<Rightarrow> Pass2State" where
  "add_internal_error st il i m =
     st\<lparr>p2_errors := error_push (p2_errors st) (error_file il)
        (case i of Some i \<Rightarrow> or_else (line i) 1 | None \<Rightarrow> 1)
        (case i of Some i \<Rightarrow> or_else (col i) 1 | None \<Rightarrow> 1)
        (case i of Some i \<Rightarrow> or_else (end_col i) 2 | None \<Rightarrow> 2) m\<rparr>"

text \<open>An error at an operand, falling back to the instruction's position field by field.\<close>

definition operand_error ::
  "InstructionList \<Rightarrow> Instruction \<Rightarrow> LocOperand \<Rightarrow> PassErrors \<Rightarrow> PassMessage \<Rightarrow> PassErrors" where
  "operand_error il i p es m =
     error_push es (error_file il) (or_else (op_line p) (line i)) (or_else (op_col p) (col i))
       (or_else (op_end_col p) (end_col i)) m"

section \<open>Operands that name symbols\<close>

definition opcode_uses_relative_label :: "OpcodeEnum \<Rightarrow> bool" where
  "opcode_uses_relative_label opc = (case opc of
     OPCODE_JMP \<Rightarrow> True | OPCODE_CALL \<Rightarrow> True | OPCODE_JE \<Rightarrow> True | OPCODE_JNE \<Rightarrow> True
   | OPCODE_JG \<Rightarrow> True | OPCODE_JGE \<Rightarrow> True | OPCODE_JL \<Rightarrow> True | OPCODE_JLE \<Rightarrow> True
   | OPCODE_JZ \<Rightarrow> True | OPCODE_JNZ \<Rightarrow> True | OPCODE_JS \<Rightarrow> True | OPCODE_JNS \<Rightarrow> True
   | _ \<Rightarrow> False)"

definition branch_target_error :: "Instruction \<Rightarrow> PassMessage option" where
  "branch_target_error i =
     (if \<not> opcode_uses_relative_label (opcode i) then None
      else (case op_kinds i of
          [OP_LABEL _] \<Rightarrow> None
        | [_] \<Rightarrow>
            if opcode i = OPCODE_JMP \<or> opcode i = OPCODE_CALL then Some MSG_JUMP_TARGET
            else Some MSG_JCC_TARGET
        | _ \<Rightarrow> None))"

definition is_mov_reg_label :: "Instruction \<Rightarrow> nat \<Rightarrow> bool" where
  "is_mov_reg_label i operand_index \<longleftrightarrow>
     opcode i = OPCODE_MOV \<and> operand_index = 1
     \<and> (case op_kinds i of [OP_REG _, OP_LABEL _] \<Rightarrow> True | _ \<Rightarrow> False)"

definition mov_reg_label_relocation_offset :: nat where "mov_reg_label_relocation_offset = 2"

definition relative_label_relocation_offset :: "OpcodeEnum \<Rightarrow> nat" where
  "relative_label_relocation_offset opc = (case opc of
     OPCODE_JMP \<Rightarrow> 1 | OPCODE_CALL \<Rightarrow> 1
   | OPCODE_JE \<Rightarrow> 2 | OPCODE_JNE \<Rightarrow> 2 | OPCODE_JG \<Rightarrow> 2 | OPCODE_JGE \<Rightarrow> 2 | OPCODE_JL \<Rightarrow> 2
   | OPCODE_JLE \<Rightarrow> 2 | OPCODE_JZ \<Rightarrow> 2 | OPCODE_JNZ \<Rightarrow> 2 | OPCODE_JS \<Rightarrow> 2 | OPCODE_JNS \<Rightarrow> 2
   | _ \<Rightarrow> 0)"

definition is_rip_relative_symbol_operand :: "Operand \<Rightarrow> bool" where
  "is_rip_relative_symbol_operand p = (case p of OP_MEM_RIP_LABEL _ \<Rightarrow> True | _ \<Rightarrow> False)"

section \<open>Data directives\<close>

fun emit_strings :: "nat \<Rightarrow> Operand list \<Rightarrow> u8 list \<Rightarrow> bool \<times> u8 list" where
  "emit_strings cap [] buf = (True, buf)"
| "emit_strings cap (p # ps) buf = (case p of
     OP_STRING s \<Rightarrow>
       if \<not> buffer_has_capacity (length buf) (length s) cap
          \<or> \<not> buffer_has_capacity (length buf + length s) 1 cap then (False, buf)
       else emit_strings cap ps (buf @ s @ [0])
   | _ \<Rightarrow> emit_strings cap ps buf)"

fun emit_integers :: "nat \<Rightarrow> nat \<Rightarrow> Operand list \<Rightarrow> u8 list \<Rightarrow> bool \<times> u8 list" where
  "emit_integers elem_size cap [] buf = (True, buf)"
| "emit_integers elem_size cap (p # ps) buf =
     (let v = (case p of OP_IMM v \<Rightarrow> v | _ \<Rightarrow> 0);
          (ok, buf') = buffer_append buf cap (le_bytes elem_size v)
      in if \<not> ok then (False, buf) else emit_integers elem_size cap ps buf')"

definition directive_elem_size :: "DirectiveKind \<Rightarrow> nat" where
  "directive_elem_size d = (case d of
     DIRECTIVE_INT8 \<Rightarrow> 1 | DIRECTIVE_INT16 \<Rightarrow> 2 | DIRECTIVE_INT32 \<Rightarrow> 4 | DIRECTIVE_INT64 \<Rightarrow> 8
   | _ \<Rightarrow> 0)"

definition emit_data_directive :: "Instruction \<Rightarrow> u8 list \<Rightarrow> nat \<Rightarrow> bool \<times> u8 list" where
  "emit_data_directive i buf buf_cap =
     (if directive_kind i = DIRECTIVE_NUL_STRING then emit_strings buf_cap (op_kinds i) buf
      else if directive_elem_size (directive_kind i) > 0 then
        emit_integers (directive_elem_size (directive_kind i)) buf_cap (op_kinds i) buf
      else if directive_kind i = DIRECTIVE_ALIGNMENT then
        (case op_kinds i of
           [OP_IMM v] \<Rightarrow>
             if sint v \<le> 0 then (True, buf)
             else (let alignment = unat v;
                       padding = (alignment - length buf mod alignment) mod alignment
                   in buffer_fill buf buf_cap 0 padding)
         | _ \<Rightarrow> (True, buf))
      else if directive_kind i = DIRECTIVE_ZERO_SPACE then
        (let n = (case op_kinds i of OP_IMM v # _ \<Rightarrow> sint (ucast v :: i32) | _ \<Rightarrow> 0)
         in if n > 0 then buffer_fill buf buf_cap 0 (nat n) else (True, buf))
      else (True, buf))"


section \<open>The sections of the result\<close>

text \<open>
  The size field of a section. The current section is never \<^verbatim>\<open>SYMBOL_SECTION_UNKNOWN\<close>, for which the
  pointer would be \<^verbatim>\<open>NULL\<close>.
\<close>

definition pass2_section_size :: "('a) Pass2Result_scheme \<Rightarrow> SymbolSection \<Rightarrow> nat" where
  "pass2_section_size st sec = (case sec of
     SYMBOL_SECTION_TEXT \<Rightarrow> length (text_bytes st)
   | SYMBOL_SECTION_DATA \<Rightarrow> length (data_bytes st)
   | SYMBOL_SECTION_READ_ONLY_DATA \<Rightarrow> length (read_only_data_bytes st)
   | SYMBOL_SECTION_BSS \<Rightarrow> bss_size st
   | SYMBOL_SECTION_UNKNOWN \<Rightarrow> 0)"

definition pass2_section_bytes :: "('a) Pass2Result_scheme \<Rightarrow> SymbolSection \<Rightarrow> u8 list" where
  "pass2_section_bytes st sec =
     (if sec = SYMBOL_SECTION_DATA then data_bytes st
      else if sec = SYMBOL_SECTION_READ_ONLY_DATA then read_only_data_bytes st
      else [])"

definition put_section_bytes :: "SymbolSection \<Rightarrow> u8 list \<Rightarrow> Pass2State \<Rightarrow> Pass2State" where
  "put_section_bytes sec bs st =
     (if sec = SYMBOL_SECTION_DATA then st\<lparr>data_bytes := bs\<rparr>
      else if sec = SYMBOL_SECTION_READ_ONLY_DATA then st\<lparr>read_only_data_bytes := bs\<rparr>
      else st)"

definition pass2_section_capacity :: "Pass1Result \<Rightarrow> SymbolSection \<Rightarrow> nat" where
  "pass2_section_capacity p1 sec =
     (if sec = SYMBOL_SECTION_DATA then p1_data_size p1
      else if sec = SYMBOL_SECTION_READ_ONLY_DATA then p1_read_only_data_size p1
      else 0)"

definition pass2_relocation_section :: "SymbolSection \<Rightarrow> RelocationSection" where
  "pass2_relocation_section sec =
     (if sec = SYMBOL_SECTION_READ_ONLY_DATA then RELOC_SECTION_READ_ONLY_DATA else RELOC_SECTION_DATA)"

section \<open>Data directives in the walk\<close>

definition symbol_known :: "SymbolTable \<Rightarrow> cstr \<Rightarrow> bool" where
  "symbol_known tab s \<longleftrightarrow> symtable_lookup_ex tab s \<noteq> None \<or> symtable_is_external tab s"

text \<open>The loop over the operands of a 64-bit integer directive: symbols become relocations.\<close>

fun data_relocations ::
  "InstructionList \<Rightarrow> Pass1Result \<Rightarrow> Instruction \<Rightarrow> SymbolSection \<Rightarrow> nat \<Rightarrow> nat \<Rightarrow> LocOperand list
     \<Rightarrow> Pass2State \<Rightarrow> Pass2State" where
  "data_relocations il p1 i sec before k [] st = st"
| "data_relocations il p1 i sec before k (p # ps) st =
     (case opnd p of
        OP_LABEL s \<Rightarrow>
          if \<not> symbol_known (symtable p1) s
          then data_relocations il p1 i sec before (k + 1) ps
                 (st\<lparr>p2_errors := operand_error il i p (p2_errors st) (MSG_DATA_SYMBOL s)\<rparr>)
          else data_relocations il p1 i sec before (k + 1) ps
                 (push_relocation st
                    \<lparr>rel_section = pass2_relocation_section sec, rel_kind = RELOC_ABS64,
                     rel_offset = before + k * 8, rel_symbol = s, rel_addend = 0\<rparr>)
      | _ \<Rightarrow> data_relocations il p1 i sec before (k + 1) ps st)"

definition pass2_data ::
  "InstructionList \<Rightarrow> Pass1Result \<Rightarrow> Pass2State \<Rightarrow> Instruction \<Rightarrow> Pass2State + Pass2State" where
  "pass2_data il p1 st i =
     (let sec = p2_section st; before = pass2_section_size st sec in
      if sec = SYMBOL_SECTION_TEXT then Inr (put_span sec before 0 st)
      else (let expected = data_directive_size_at i before in
        if expected < 0
        then Inl (add_internal_error (put_span sec before 0 st) il (Some i) MSG_INTERNAL_DATA_SIZE)
        else if sec = SYMBOL_SECTION_BSS
        then Inr (put_span sec before 0 (st\<lparr>bss_size := bss_size st + nat expected\<rparr>))
        else (let st = (if directive_kind i = DIRECTIVE_INT64
                        then data_relocations il p1 i sec before 0 (ops i) st else st);
                  (ok, buf) = emit_data_directive i (pass2_section_bytes st sec)
                                (pass2_section_capacity p1 sec);
                  st = put_section_bytes sec buf st
              in if \<not> ok
                 then Inl (add_internal_error (put_span sec before 0 st) il (Some i) MSG_INTERNAL_DATA_OVERFLOW)
                 else (let actual = pass2_section_size st sec - before;
                           st = put_span sec before actual st
                       in if actual \<noteq> nat expected
                          then Inl (add_internal_error st il (Some i) (MSG_INTERNAL_DATA_MISMATCH expected actual))
                          else Inr st))))"

text \<open>A section switch: the span is an empty one at the end of the new section.\<close>

definition pass2_switch :: "Pass2State \<Rightarrow> SymbolSection \<Rightarrow> Pass2State" where
  "pass2_switch st sec = put_span sec (pass2_section_size st sec) 0 (st\<lparr>p2_section := sec\<rparr>)"

definition pass2_skip :: "Pass2State \<Rightarrow> Pass2State" where
  "pass2_skip st = put_span (p2_section st) (pass2_section_size st (p2_section st)) 0 st"

definition pass2_location :: "Pass2State \<Rightarrow> Instruction \<Rightarrow> Pass2State" where
  "pass2_location st i = (case op_kinds i of
     [OP_IMM f, OP_IMM l, OP_IMM c] \<Rightarrow>
       pass2_skip (st\<lparr>debug_file := ucast f, debug_line := ucast l, debug_column := ucast c\<rparr>)
   | _ \<Rightarrow> pass2_skip st)"

definition pass2_directive ::
  "InstructionList \<Rightarrow> Pass1Result \<Rightarrow> Pass2State \<Rightarrow> Instruction \<Rightarrow> Pass2State + Pass2State" where
  "pass2_directive il p1 st i = (case directive_kind i of
     DIRECTIVE_TEXT \<Rightarrow> Inr (pass2_switch st SYMBOL_SECTION_TEXT)
   | DIRECTIVE_DATA \<Rightarrow> Inr (pass2_switch st SYMBOL_SECTION_DATA)
   | DIRECTIVE_READ_ONLY_DATA \<Rightarrow> Inr (pass2_switch st SYMBOL_SECTION_READ_ONLY_DATA)
   | DIRECTIVE_BSS \<Rightarrow> Inr (pass2_switch st SYMBOL_SECTION_BSS)
   | DIRECTIVE_GLOBAL \<Rightarrow> Inr (pass2_skip st)
   | DIRECTIVE_LOCAL \<Rightarrow> Inr (pass2_skip st)
   | DIRECTIVE_EXTERNAL \<Rightarrow> Inr (pass2_skip st)
   | DIRECTIVE_DEBUG_FILE \<Rightarrow> Inr (pass2_skip st)
   | DIRECTIVE_DEBUG_FILE_BYTES \<Rightarrow> Inr (pass2_skip st)
   | DIRECTIVE_DEBUG_LOCATION \<Rightarrow> Inr (pass2_location st i)
   | _ \<Rightarrow> pass2_data il p1 st i)"

section \<open>Instructions\<close>

text \<open>The local variables \<^verbatim>\<open>resolved_target\<close> and \<^verbatim>\<open>resolution_error\<close> beside the state.\<close>

record Resolution =
  res_state :: Pass2State
  resolved_target :: int
  resolution_error :: bool

definition res_fail :: "InstructionList \<Rightarrow> Instruction \<Rightarrow> LocOperand \<Rightarrow> PassMessage \<Rightarrow> Resolution \<Rightarrow> Resolution" where
  "res_fail il i p m r =
     r\<lparr>res_state := (res_state r)\<lparr>p2_errors := operand_error il i p (p2_errors (res_state r)) m\<rparr>,
       resolution_error := True\<rparr>"

definition res_reloc :: "Relocation \<Rightarrow> Resolution \<Rightarrow> Resolution" where
  "res_reloc rl r = r\<lparr>res_state := push_relocation (res_state r) rl\<rparr>"

definition resolve_label ::
  "InstructionList \<Rightarrow> Pass1Result \<Rightarrow> Instruction \<Rightarrow> nat \<Rightarrow> nat \<Rightarrow> LocOperand \<Rightarrow> cstr \<Rightarrow> Resolution \<Rightarrow> Resolution" where
  "resolve_label il p1 i sz j p s r =
     (let text_size = length (text_bytes (res_state r));
          branch = opcode_uses_relative_label (opcode i);
          abs_reloc = \<lparr>rel_section = RELOC_SECTION_TEXT, rel_kind = RELOC_ABS64,
                       rel_offset = text_size + mov_reg_label_relocation_offset,
                       rel_symbol = s, rel_addend = 0\<rparr>
      in case symtable_lookup_ex (symtable p1) s of
         None \<Rightarrow>
           if symtable_is_external (symtable p1) s \<and> branch then
             res_reloc \<lparr>rel_section = RELOC_SECTION_TEXT, rel_kind = RELOC_PC32,
                        rel_offset = text_size + relative_label_relocation_offset (opcode i),
                        rel_symbol = s, rel_addend = - 4\<rparr> r
           else if symtable_is_external (symtable p1) s \<and> is_mov_reg_label i j then res_reloc abs_reloc r
           else res_fail il i p (MSG_LABEL_UNRESOLVED s) r
       | Some (target_offset, target_section) \<Rightarrow>
           if branch then
             if target_section \<noteq> SYMBOL_SECTION_TEXT then res_fail il i p (MSG_JUMP_OUTSIDE_TEXT s) r
             else (let ip_after = int (text_size + sz);
                       r = r\<lparr>resolved_target := target_offset - ip_after\<rparr>
                   in if resolved_target r < - (2 ^ 31) \<or> resolved_target r > 2 ^ 31 - 1
                      then res_fail il i p (MSG_JUMP_RANGE s) r else r)
           else if is_mov_reg_label i j then res_reloc abs_reloc r
           else r)"

definition resolve_operand ::
  "InstructionList \<Rightarrow> Pass1Result \<Rightarrow> Instruction \<Rightarrow> nat \<Rightarrow> nat \<Rightarrow> LocOperand \<Rightarrow> Resolution \<Rightarrow> Resolution" where
  "resolve_operand il p1 i sz j p r = (case opnd p of
     OP_MEM_RIP_LABEL s \<Rightarrow>
       if \<not> symbol_known (symtable p1) s then res_fail il i p (MSG_RIP_SYMBOL s) r else r
   | OP_LABEL s \<Rightarrow> resolve_label il p1 i sz j p s r
   | _ \<Rightarrow> r)"

fun resolve_operands ::
  "InstructionList \<Rightarrow> Pass1Result \<Rightarrow> Instruction \<Rightarrow> nat \<Rightarrow> nat \<Rightarrow> LocOperand list \<Rightarrow> Resolution \<Rightarrow> Resolution" where
  "resolve_operands il p1 i sz j [] r = r"
| "resolve_operands il p1 i sz j (p # ps) r =
     resolve_operands il p1 i sz (j + 1) ps (resolve_operand il p1 i sz j p r)"

text \<open>An instruction that cannot be encoded leaves \<^verbatim>\<open>sz\<close> bytes of NOP.\<close>

definition pass2_pad ::
  "InstructionList \<Rightarrow> Pass1Result \<Rightarrow> Pass2State \<Rightarrow> Instruction \<Rightarrow> nat \<Rightarrow> Pass2State + Pass2State" where
  "pass2_pad il p1 st i sz =
     (let before = length (text_bytes st);
          (ok, buf) = buffer_fill (text_bytes st) (p1_text_size p1) 0x90 sz
      in if \<not> ok
         then Inl (add_internal_error (put_span SYMBOL_SECTION_TEXT before 0 st) il (Some i)
                MSG_INTERNAL_TEXT_OVERFLOW)
         else Inr (put_span SYMBOL_SECTION_TEXT before sz (st\<lparr>text_bytes := buf\<rparr>)))"

text \<open>The relocations of the RIP-relative operands: the field is the last four bytes.\<close>

definition rip_relocations :: "Instruction \<Rightarrow> nat \<Rightarrow> Relocation list" where
  "rip_relocations i field =
     map (\<lambda>p. \<lparr>rel_section = RELOC_SECTION_TEXT, rel_kind = RELOC_PC32, rel_offset = field,
               rel_symbol = (case p of OP_MEM_RIP_LABEL s \<Rightarrow> s | _ \<Rightarrow> []), rel_addend = - 4\<rparr>)
       (filter is_rip_relative_symbol_operand (op_kinds i))"

definition pass2_encode ::
  "InstructionList \<Rightarrow> Pass1Result \<Rightarrow> Pass2State \<Rightarrow> Instruction \<Rightarrow> nat \<Rightarrow> int \<Rightarrow> Pass2State + Pass2State" where
  "pass2_encode il p1 st i sz target =
     (let before = length (text_bytes st);
          enc = encoder_encode (opcode i) (op_kinds i) (word_of_int target);
          stop = (\<lambda>st m. Inl (add_internal_error (put_span SYMBOL_SECTION_TEXT before 0 st) il (Some i) m))
      in if enc_error enc then
           pass2_pad il p1 (st\<lparr>p2_errors := error_push (p2_errors st) (error_file il) (line i) (col i) (end_col i)
             (case branch_target_error i of Some m \<Rightarrow> m | None \<Rightarrow> MSG_CANNOT_ENCODE (opcode i))\<rparr>) i sz
         else if enc_len enc \<noteq> sz then stop st (MSG_INTERNAL_SIZE sz (enc_len enc))
         else if enc_len enc < 4 \<and> (\<exists>p \<in> set (op_kinds i). is_rip_relative_symbol_operand p)
         then stop st MSG_INTERNAL_RIP_SHORT
         else (let st = st\<lparr>relocations := relocations st @ rip_relocations i (before + enc_len enc - 4)\<rparr>;
                   (ok, buf) = buffer_append (text_bytes st) (p1_text_size p1) (enc_bytes enc)
               in if \<not> ok then stop st MSG_INTERNAL_TEXT_OVERFLOW
                  else Inr (put_span SYMBOL_SECTION_TEXT before (enc_len enc) (st\<lparr>text_bytes := buf\<rparr>))))"

definition note_debug_line :: "Pass2State \<Rightarrow> Pass2State" where
  "note_debug_line st =
     (if debug_file st \<noteq> 0 \<and> debug_line st \<noteq> 0
      then push_debug_line st \<lparr>dl_offset = length (text_bytes st), dl_file_id = debug_file st,
             dl_line = debug_line st, dl_column = debug_column st\<rparr>
      else st)"

definition pass2_instruction ::
  "InstructionList \<Rightarrow> Pass1Result \<Rightarrow> Pass2State \<Rightarrow> Instruction \<Rightarrow> Pass2State + Pass2State" where
  "pass2_instruction il p1 st i =
     (if opcode i = OPCODE_INVALID \<or> p2_section st \<noteq> SYMBOL_SECTION_TEXT then Inr (pass2_skip st)
      else (let sz = layout_size i;
                r = resolve_operands il p1 i sz 0 (ops i)
                      \<lparr>res_state = note_debug_line st, resolved_target = 0, resolution_error = False\<rparr>
            in if resolution_error r then pass2_pad il p1 (res_state r) i sz
               else pass2_encode il p1 (res_state r) i sz (resolved_target r)))"

section \<open>The walk\<close>

definition pass2_step ::
  "InstructionList \<Rightarrow> Pass1Result \<Rightarrow> Pass2State \<Rightarrow> Instruction \<Rightarrow> Pass2State + Pass2State" where
  "pass2_step il p1 st i =
     (if directive_kind i \<noteq> DIRECTIVE_NONE then pass2_directive il p1 st i
      else pass2_instruction il p1 st i)"

fun pass2_loop ::
  "InstructionList \<Rightarrow> Pass1Result \<Rightarrow> Pass2State \<Rightarrow> Instruction list \<Rightarrow> Pass2State + Pass2State" where
  "pass2_loop il p1 st [] = Inr st"
| "pass2_loop il p1 st (i # is) = (case pass2_step il p1 st i of
     Inl st' \<Rightarrow> Inl st' | Inr st' \<Rightarrow> pass2_loop il p1 st' is)"

definition pass2_start :: "InstructionList \<Rightarrow> Pass2State" where
  "pass2_start il =
     \<lparr>text_bytes = [], data_bytes = [], read_only_data_bytes = [], bss_size = 0, emissions = [],
      debug_lines = [], relocations = [],
      p2_errors = error_list_set_source error_list_init (source_name il) (source_data il),
      p2_section = SYMBOL_SECTION_TEXT, debug_file = 0, debug_line = 0, debug_column = 0\<rparr>"

text \<open>The zeroed spans of the instructions an early return did not reach.\<close>

definition pad_spans :: "nat \<Rightarrow> EmissionSpan list \<Rightarrow> EmissionSpan list" where
  "pad_spans n es =
     es @ replicate (n - length es) \<lparr>em_section = SYMBOL_SECTION_UNKNOWN, em_offset = 0, em_size = 0\<rparr>"

definition pass2_totals :: "InstructionList \<Rightarrow> Pass1Result \<Rightarrow> Pass2State \<Rightarrow> Pass2State" where
  "pass2_totals il p1 st =
     (if length (text_bytes st) \<noteq> p1_text_size p1 \<or> length (data_bytes st) \<noteq> p1_data_size p1
         \<or> length (read_only_data_bytes st) \<noteq> p1_read_only_data_size p1
         \<or> bss_size st \<noteq> p1_bss_size p1
      then add_internal_error st il None MSG_INTERNAL_TOTALS else st)"

definition pass2_run :: "InstructionList \<Rightarrow> Pass1Result \<Rightarrow> Pass2Result" where
  "pass2_run il p1 =
     (let st = (case pass2_loop il p1 (pass2_start il) (instrs il) of
                  Inl st \<Rightarrow> st | Inr st \<Rightarrow> pass2_totals il p1 st)
      in Pass2Result.truncate (st\<lparr>emissions := pad_spans (length (instrs il)) (emissions st)\<rparr>))"

end
