(* ===== verification/Layout.thy ===== *)
theory Layout
  imports Pass2
begin

text \<open>
  What both passes must agree on: the layout of the source. \<open>layout_step\<close> is its specification,
  a current section and a size per section, with no symbol table, no buffers and no diagnostics.
  The locale \<open>layout_pass\<close> is the contract of a pass that follows it; \<open>pass1_step\<close> fulfils it while
  it reports no error, and \<open>pass2_step\<close> while the buffers of pass 1 have room.
\<close>

section \<open>The layout\<close>

record Layout =
  lay_section :: SymbolSection
  lay_size :: "SymbolSection \<Rightarrow> nat"

definition section_switch :: "DirectiveKind \<Rightarrow> SymbolSection option" where
  "section_switch d = (case d of
     DIRECTIVE_TEXT \<Rightarrow> Some SYMBOL_SECTION_TEXT
   | DIRECTIVE_DATA \<Rightarrow> Some SYMBOL_SECTION_DATA
   | DIRECTIVE_READ_ONLY_DATA \<Rightarrow> Some SYMBOL_SECTION_READ_ONLY_DATA
   | DIRECTIVE_BSS \<Rightarrow> Some SYMBOL_SECTION_BSS
   | _ \<Rightarrow> None)"

text \<open>The bytes an instruction or directive takes at an offset of a section.\<close>

definition contribution :: "SymbolSection \<Rightarrow> nat \<Rightarrow> Instruction \<Rightarrow> nat" where
  "contribution sec off i =
     (if directive_kind i \<noteq> DIRECTIVE_NONE then
        (if is_data_directive (directive_kind i) \<and> sec \<noteq> SYMBOL_SECTION_TEXT
         then nat (data_directive_size_at i off) else 0)
      else if opcode i = OPCODE_INVALID \<or> sec \<noteq> SYMBOL_SECTION_TEXT then 0
      else layout_size i)"

definition layout_step :: "Layout \<Rightarrow> Instruction \<Rightarrow> Layout" where
  "layout_step l i = (case section_switch (directive_kind i) of
     Some sec \<Rightarrow> l\<lparr>lay_section := sec\<rparr>
   | None \<Rightarrow>
       (let sec = lay_section l; off = lay_size l sec
        in l\<lparr>lay_size := (lay_size l)(sec := off + contribution sec off i)\<rparr>))"

definition layout_start :: Layout where
  "layout_start = \<lparr>lay_section = SYMBOL_SECTION_TEXT, lay_size = (\<lambda>_. 0)\<rparr>"

definition layout_of :: "Instruction list \<Rightarrow> Layout" where
  "layout_of is = foldl layout_step layout_start is"

lemma layout_of_snoc: "layout_of (is @ [i]) = layout_step (layout_of is) i"
  by (simp add: layout_of_def)

lemma layout_step_section [simp]:
  "lay_section (layout_step l i) =
     (case section_switch (directive_kind i) of Some sec \<Rightarrow> sec | None \<Rightarrow> lay_section l)"
  by (simp add: layout_step_def Let_def split: option.split)

lemma switch_known: "section_switch d = Some sec \<Longrightarrow> sec \<noteq> SYMBOL_SECTION_UNKNOWN"
  by (cases d) (auto simp: section_switch_def)

lemma layout_section_known: "lay_section (layout_of is) \<noteq> SYMBOL_SECTION_UNKNOWN"
  by (induction "is" rule: rev_induct)
    (auto simp: layout_of_snoc layout_of_def layout_start_def switch_known split: option.split)

lemma layout_step_mono: "lay_size l sec \<le> lay_size (layout_step l i) sec"
  by (simp add: layout_step_def Let_def split: option.split)

lemma layout_mono: "lay_size (layout_of is) sec \<le> lay_size (layout_of (is @ js)) sec"
proof (induction js rule: rev_induct)
  case (snoc j js)
  then show ?case
    using layout_step_mono [of "layout_of (is @ js)" sec j]
    by (simp flip: append_assoc add: layout_of_snoc)
qed simp

section \<open>The contract of a pass\<close>

text \<open>
  A pass has a state with a view of the layout it has built so far, and keeps it as long as
  the condition \<open>good\<close> on the state and the next instruction holds.
\<close>

locale layout_pass =
  fixes view :: "'s \<Rightarrow> Layout"
    and step :: "'s \<Rightarrow> Instruction \<Rightarrow> 's"
    and good :: "'s \<Rightarrow> Instruction \<Rightarrow> bool"
  assumes step_view: "good st i \<Longrightarrow> lay_section (view st) \<noteq> SYMBOL_SECTION_UNKNOWN \<Longrightarrow>
      view (step st i) = layout_step (view st) i"
begin

lemma run_view:
  assumes "view start = layout_start"
    and "\<And>js i ks. is = js @ i # ks \<Longrightarrow> good (foldl step start js) i"
  shows "view (foldl step start is) = layout_of is"
  using assms(2)
proof (induction "is" rule: rev_induct)
  case Nil
  then show ?case by (simp add: assms(1) layout_of_def)
next
  case (snoc i "is")
  have "view (foldl step start is) = layout_of is" using snoc by (metis append.assoc append_Cons)
  moreover have "good (foldl step start is) i" using snoc(2) [of "is" i "[]"] by simp
  ultimately show ?case
    using step_view layout_section_known [of "is"] by (simp add: layout_of_snoc)
qed

lemma run_prefix:
  assumes "view start = layout_start"
    and "\<And>js i ks. is = js @ i # ks \<Longrightarrow> good (foldl step start js) i" "is = js @ ks"
  shows "view (foldl step start js) = layout_of js"
proof (rule run_view [OF assms(1)])
  fix js' i ks' assume "js = js' @ i # ks'"
  then have "is = js' @ i # (ks' @ ks)" using assms(3) by simp
  then show "good (foldl step start js') i" by (rule assms(2))
qed

end

end
