(* ===== verification/Pass1_Correct.thy ===== *)
theory Pass1_Correct
  imports Layout
begin

text \<open>
  Facts about the first pass: errors are never taken back, what a directive that passes its
  validation looks like, and what a step that reports nothing does to the offsets and to the
  symbol table. \<open>pass1_step\<close> is an instance of \<open>layout_pass\<close>.
\<close>

section \<open>Powers of two\<close>

lemma power_of_two_nat:
  assumes "(0::nat) < x"
  shows "x AND (x - 1) = 0 \<longleftrightarrow> (\<exists>k. x = 2 ^ k)"
proof
  show "\<exists>k. x = 2 ^ k" if "x AND (x - 1) = 0"
    using that assms
  proof (induction x rule: less_induct)
    case (less x)
    show ?case
    proof (cases "even x")
      case True
      then obtain y where y: "x = 2 * y" by (rule evenE)
      then have "0 < y" and "x - 1 = 2 * (y - 1) + 1" using less.prems by simp_all
      then have "(x AND (x - 1)) div 2 = y AND (y - 1)"
        by (simp add: y and_nat_rec [of "2 * y"])
      then have "y AND (y - 1) = 0" using less.prems by simp
      then obtain k where "y = 2 ^ k" using less.IH [of y] y \<open>0 < y\<close> by auto
      then show ?thesis using y by (metis power_Suc)
    next
      case False
      then obtain y where y: "x = 2 * y + 1" by (rule oddE)
      then have "y = 0" using less.prems(1) by (simp add: and_nat_rec [of "Suc (2 * y)"])
      then show ?thesis using y by (metis mult_0_right add_0 power_0)
    qed
  qed
  show "x AND (x - 1) = 0" if "\<exists>k. x = 2 ^ k"
  proof -
    from that obtain k where "x = 2 ^ k" ..
    then have "x AND (x - 1) = take_bit k (2 ^ k)" by (simp add: take_bit_eq_mask mask_eq_exp_minus_1)
    then show ?thesis by (simp add: take_bit_eq_mod)
  qed
qed

lemma sint_unat:
  fixes v :: i64
  assumes "0 \<le> sint v"
  shows "sint v = int (unat v)"
proof -
  have "sint v < 2 ^ 63" using sint_lt [of v] by simp
  then have "uint v = sint v" using assms by (simp add: uint_sint take_bit_int_eq_self)
  then show ?thesis by simp
qed

lemma validate_alignment_iff:
  "validate_alignment v \<longleftrightarrow> (\<exists>k \<le> 12. sint v = 2 ^ k)"
proof -
  have nz: "v AND (v - 1) = 0 \<longleftrightarrow> (\<exists>k. unat v = 2 ^ k)" if "0 < unat v"
  proof -
    have "v \<noteq> 0" using that by auto
    then have "unat (v AND (v - 1)) = unat v AND (unat v - 1)"
      by (simp add: unsigned_and_eq unat_minus_one)
    then show ?thesis using power_of_two_nat [OF that] by (metis unat_eq_zero)
  qed
  have pow: "(\<exists>k. n = 2 ^ k) \<and> n \<le> 4096 \<longleftrightarrow> (\<exists>k \<le> 12. n = 2 ^ k)" for n :: nat
  proof -
    have "(2 ^ k \<le> (4096 :: nat)) = (k \<le> 12)" for k
      using power_increasing_iff [of "2 :: nat" k 12] by simp
    then show ?thesis by auto
  qed
  show ?thesis
  proof (cases "1 \<le> sint v")
    case True
    then have s: "sint v = int (unat v)" by (intro sint_unat) simp
    then have "0 < unat v" using True by (metis of_nat_0_less_iff zero_less_one order_less_le_trans)
    have "(4096 < sint v) = (4096 < unat v)" unfolding s by linarith
    then have "validate_alignment v \<longleftrightarrow> unat v \<le> 4096 \<and> (\<exists>k. unat v = 2 ^ k)"
      using nz [OF \<open>0 < unat v\<close>] True unfolding validate_alignment_def
      by (metis linorder_not_less)
    also have "\<dots> \<longleftrightarrow> (\<exists>k \<le> 12. unat v = 2 ^ k)" using pow [of "unat v"] by blast
    also have "\<dots> \<longleftrightarrow> (\<exists>k \<le> 12. sint v = 2 ^ k)"
      unfolding s by (metis of_nat_eq_iff of_nat_numeral of_nat_power)
    finally show ?thesis .
  next
    case False
    then have "\<not> validate_alignment v" by (simp add: validate_alignment_def)
    moreover have "sint v \<noteq> 2 ^ k" for k using False by (metis one_le_power order_refl one_le_numeral)
    ultimately show ?thesis by blast
  qed
qed

section \<open>Data directives that pass\<close>

text \<open>The values of an integer directive of a width, as signed or unsigned numbers.\<close>

definition data_range :: "nat \<Rightarrow> i64 \<Rightarrow> bool" where
  "data_range bits v \<longleftrightarrow> bits = 64 \<or> - (2 ^ (bits - 1)) \<le> sint v \<and> sint v < 2 ^ bits"

definition valid_data :: "Instruction \<Rightarrow> bool" where
  "valid_data i = (case directive_kind i of
     DIRECTIVE_NUL_STRING \<Rightarrow> ops i \<noteq> [] \<and> (\<forall>p \<in> set (op_kinds i). \<exists>s. p = OP_STRING s)
   | DIRECTIVE_ZERO_SPACE \<Rightarrow> (\<exists>v. op_kinds i = [OP_IMM v] \<and> 0 \<le> sint v \<and> sint v < 2 ^ 31)
   | DIRECTIVE_ALIGNMENT \<Rightarrow> (\<exists>v. op_kinds i = [OP_IMM v] \<and> (\<exists>k \<le> 12. sint v = 2 ^ k))
   | d \<Rightarrow> ops i \<noteq> [] \<and> (\<forall>p \<in> set (op_kinds i).
             (\<exists>v. p = OP_IMM v \<and> data_range (directive_bits d) v)
             \<or> d = DIRECTIVE_INT64 \<and> (\<exists>s. p = OP_LABEL s)))"

lemma data_value_fits_width_iff:
  "data_value_fits_width v bits \<longleftrightarrow> data_range bits v"
proof (cases "sint v < 0")
  case True
  moreover have "sint v < 2 ^ bits" by (rule order_less_trans [OF True]) simp
  ultimately show ?thesis by (simp add: data_value_fits_width_def data_range_def)
next
  case False
  then have u: "sint v = uint v" using sint_unat [of v] by simp
  have low: "- (2 ^ (bits - 1)) \<le> sint v" using False zero_le_power [of "2 :: int" "bits - 1"] by linarith
  have "data_value_fits_width v bits \<longleftrightarrow> bits = 64 \<or> sint v \<le> 2 ^ bits - 1"
    unfolding data_value_fits_width_def Let_def u if_not_P [OF False [unfolded u]] by (rule if_bool_eq_disj [THEN trans]) blast
  also have "\<dots> \<longleftrightarrow> data_range bits v"
    unfolding data_range_def zle_diff1_eq using low by blast
  finally show ?thesis .
qed

lemma validate_strings_None:
  "validate_strings k ps = None \<longleftrightarrow> (\<forall>p \<in> set ps. \<exists>s. p = OP_STRING s)"
proof (induction ps arbitrary: k)
  case (Cons p ps)
  then show ?case by (cases p) auto
qed simp

lemma validate_integers_None:
  "validate_integers bits k ps = None \<longleftrightarrow>
     (\<forall>p \<in> set ps. (\<exists>v. p = OP_IMM v \<and> data_range bits v) \<or> bits = 64 \<and> (\<exists>s. p = OP_LABEL s))"
proof (induction ps arbitrary: k)
  case (Cons p ps)
  then show ?case by (cases p) (auto simp: data_value_fits_width_iff)
qed simp

lemma validate_data_iff:
  assumes "is_data_directive (directive_kind i)"
  shows "fst (validate_data_directive il i es) \<longleftrightarrow> valid_data i"
proof -
  have verdict: "fst (case x of None \<Rightarrow> (True, es) | Some (k, m) \<Rightarrow> reject il i es k m) \<longleftrightarrow> x = None" for x
    by (auto simp: reject_def split: option.split)
  have int_max: "\<not> (x < 0 \<or> 0x7FFFFFFF < x) \<longleftrightarrow> 0 \<le> x \<and> x < 2147483648"
    "0 \<le> x \<and> \<not> 0x7FFFFFFF < x \<longleftrightarrow> 0 \<le> x \<and> x < 2147483648"
    "\<not> x < 0 \<and> \<not> 0x7FFFFFFF < x \<longleftrightarrow> 0 \<le> x \<and> x < 2147483648" for x :: int by auto
  have one: "fst (case ps of [OP_IMM v] \<Rightarrow> if Q v then reject il i es 0 m else (True, es)
      | _ \<Rightarrow> reject il i es (- 1) n) \<longleftrightarrow> (\<exists>v. ps = [OP_IMM v] \<and> \<not> Q v)" 
    for ps Q and m n :: PassMessage
    by (simp add: reject_def split: list.split Operand.split)
  note defs = validate_data_directive_def valid_data_def directive_bits_def verdict
    validate_strings_None validate_integers_None validate_alignment_iff
  show ?thesis
    using assms unfolding is_data_directive_def
  proof (elim disjE)
    assume k: "directive_kind i = DIRECTIVE_ZERO_SPACE"
    show ?thesis
      using one [where Q = "\<lambda>v. sint v < 0 \<or> sint v > 0x7FFFFFFF"]
      by (simp add: validate_data_directive_def valid_data_def k int_max)
  next
    assume k: "directive_kind i = DIRECTIVE_ALIGNMENT"
    show ?thesis
      using one [where Q = "\<lambda>v. \<not> validate_alignment v"]
      by (simp add: validate_data_directive_def valid_data_def k validate_alignment_iff)
  qed (simp_all add: defs, simp_all add: reject_def)
qed


section \<open>Errors are never taken back\<close>

abbreviation clean :: "PassErrors \<Rightarrow> bool" where "clean es \<equiv> errors es = []"

lemma error_push_not_clean [simp]: "\<not> clean (error_push es f l c e m)"
  by (auto simp: error_push_def NAZM_MAX_ERRORS_def)

lemma add_error_not_clean [simp]:
  "\<not> clean (add_visibility_error es il i m)" "\<not> clean (add_directive_error es il i k m)"
  by (simp_all add: add_visibility_error_def add_directive_error_def Let_def split: list.split)

lemma validate_data_errors:
  "validate_data_directive il i es = (ok, es') \<Longrightarrow> if ok then es' = es else \<not> clean es'"
  by (auto simp: validate_data_directive_def reject_def split: if_splits option.splits list.splits Operand.splits)

lemma validate_location_errors:
  "validate_debug_location_directive il i es = (ok, es') \<Longrightarrow> if ok then es' = es else \<not> clean es'"
  by (auto simp: validate_debug_location_directive_def reject_def split: if_splits list.splits Operand.splits)

lemma validate_file_errors:
  "validate_debug_file_directive es fs il i = (ok, es', fs') \<Longrightarrow> if ok then es' = es else \<not> clean es'"
  by (auto simp: validate_debug_file_directive_def Let_def split: if_splits list.splits Operand.splits sum.splits)

lemma foldl_clean:
  assumes "\<And>es x. clean (f es x) \<Longrightarrow> f es x = es"
  shows "clean (foldl f es xs) \<Longrightarrow> foldl f es xs = es"
proof (induction xs rule: rev_induct)
  case (snoc x xs)
  then have "f (foldl f es xs) x = foldl f es xs" using assms [of "foldl f es xs" x] by simp
  then show ?case using snoc by simp
qed simp

lemma report_clean:
  "clean (report_undefined_visibility_symbols il tab es) \<Longrightarrow>
     report_undefined_visibility_symbols il tab es = es"
  unfolding report_undefined_visibility_symbols_def
  by (rule foldl_clean) (auto simp: undefined_symbol_error_def split: if_splits option.splits)

lemma location_files_clean:
  "clean (validate_debug_location_files il fs es) \<Longrightarrow> validate_debug_location_files il fs es = es"
  unfolding validate_debug_location_files_def
  by (rule foldl_clean) (auto simp: location_file_error_def split: if_splits list.splits Operand.splits)


section \<open>A step that reports nothing\<close>

definition pass1_view :: "Pass1State \<Rightarrow> Layout" where
  "pass1_view st = \<lparr>lay_section = current_section st,
     lay_size = (\<lambda>sec. case pass1_section_offset st sec of Some n \<Rightarrow> n | None \<Rightarrow> 0)\<rparr>"

text \<open>What an instruction that passes has checked, in the section it stands in.\<close>

definition checked :: "SymbolSection \<Rightarrow> Instruction \<Rightarrow> bool" where
  "checked sec i \<longleftrightarrow> directive_kind i \<noteq> DIRECTIVE_INVALID
     \<and> (is_data_directive (directive_kind i) \<longrightarrow>
          sec \<noteq> SYMBOL_SECTION_TEXT \<and> valid_data i
          \<and> (sec = SYMBOL_SECTION_BSS \<longrightarrow>
               directive_kind i = DIRECTIVE_ZERO_SPACE \<or> directive_kind i = DIRECTIVE_ALIGNMENT))"

text \<open>The declarations an instruction makes to the symbol table at an address.\<close>

definition declares :: "SymbolSection \<Rightarrow> nat \<Rightarrow> Instruction \<Rightarrow> sym_op list" where
  "declares sec off i =
     (if directive_kind i = DIRECTIVE_NONE \<or> is_data_directive (directive_kind i) then
        (case label i of Some s \<Rightarrow> [Define s sec (int off)] | None \<Rightarrow> [])
      else (case op_kinds i of
          [OP_LABEL s] \<Rightarrow>
            if directive_kind i = DIRECTIVE_EXTERNAL then [External s]
            else (case visibility_directive_binding i of Some b \<Rightarrow> [Bind s b] | None \<Rightarrow> [])
        | _ \<Rightarrow> []))"

definition accepted_by :: "SymbolTable \<Rightarrow> sym_op list \<Rightarrow> SymbolTable \<Rightarrow> bool" where
  "accepted_by tab ps tab' \<longleftrightarrow> (case ps of
     [] \<Rightarrow> tab' = tab | p # _ \<Rightarrow> symtable_apply tab p = (True, tab'))"

definition clean_step :: "Pass1State \<Rightarrow> Instruction \<Rightarrow> Pass1State \<Rightarrow> bool" where
  "clean_step st i st' \<longleftrightarrow> p1_errs st' = p1_errs st
     \<and> pass1_view st' = layout_step (pass1_view st) i
     \<and> checked (current_section st) i
     \<and> accepted_by (p1_table st)
         (declares (current_section st) (lay_size (pass1_view st) (current_section st)) i) (p1_table st')"

lemma pass1_view_sel [simp]:
  "lay_section (pass1_view st) = current_section st"
  "sec \<noteq> SYMBOL_SECTION_UNKNOWN \<Longrightarrow> pass1_section_offset st sec = Some (lay_size (pass1_view st) sec)"
  by (cases sec; simp add: pass1_view_def pass1_section_offset_def)+

lemma pass1_view_cong:
  "text_offset st' = text_offset st \<Longrightarrow> data_offset st' = data_offset st \<Longrightarrow>
   read_only_data_offset st' = read_only_data_offset st \<Longrightarrow> bss_offset st' = bss_offset st \<Longrightarrow>
   current_section st' = current_section st \<Longrightarrow> pass1_view st' = pass1_view st"
  by (auto simp: pass1_view_def pass1_section_offset_def fun_eq_iff split: SymbolSection.split)

lemma pass1_view_advance:
  assumes "sec \<noteq> SYMBOL_SECTION_UNKNOWN"
  shows "pass1_view (pass1_advance st sec n) =
    (pass1_view st)\<lparr>lay_size := (lay_size (pass1_view st))(sec := lay_size (pass1_view st) sec + n)\<rparr>"
  using assms
  by (cases sec) (auto simp: pass1_view_def pass1_section_offset_def pass1_advance_def fun_eq_iff
      split: SymbolSection.split)

lemma pass1_advance_sel [simp]:
  "p1_errs (pass1_advance st sec n) = p1_errs st" "p1_table (pass1_advance st sec n) = p1_table st"
  "current_section (pass1_advance st sec n) = current_section st"
  by (cases sec; simp add: pass1_advance_def)+

lemma pass1_note_sel [simp]:
  "p1_errs (pass1_note_alignment st sec i) = p1_errs st"
  "p1_table (pass1_note_alignment st sec i) = p1_table st"
  "current_section (pass1_note_alignment st sec i) = current_section st"
  by (simp_all add: pass1_note_alignment_def Let_def
      split: DirectiveKind.split list.split Operand.split SymbolSection.split)

lemma pass1_view_update [simp]:
  "pass1_view (st\<lparr>p1_errs := es\<rparr>) = pass1_view st" "pass1_view (st\<lparr>p1_table := t\<rparr>) = pass1_view st"
  "pass1_view (st\<lparr>p1_files := fs\<rparr>) = pass1_view st"
  by (rule pass1_view_cong; simp)+

lemma pass1_note_view [simp]: "pass1_view (pass1_note_alignment st sec i) = pass1_view st"
  by (rule pass1_view_cong; simp add: pass1_note_alignment_def Let_def
      split: DirectiveKind.split list.split Operand.split SymbolSection.split)

lemma pass1_label_view [simp]:
  "pass1_view (pass1_label il st i off) = pass1_view st"
  "current_section (pass1_label il st i off) = current_section st"
  by (simp_all add: pass1_label_def split: option.split prod.split)

lemma pass1_label_clean:
  assumes "clean (p1_errs (pass1_label il st i off))"
  shows "p1_errs (pass1_label il st i off) = p1_errs st"
    "accepted_by (p1_table st)
       (case label i of Some s \<Rightarrow> [Define s (current_section st) (int off)] | None \<Rightarrow> [])
       (p1_table (pass1_label il st i off))"
  using assms by (auto simp: pass1_label_def accepted_by_def split: option.splits prod.splits if_splits)

lemma no_contribution:
  "layout_step l i = l" if "section_switch (directive_kind i) = None"
    "contribution (lay_section l) (lay_size l (lay_section l)) i = 0"
  using that by (simp add: layout_step_def)

text \<open>The directives without bytes\<close>

lemma switch_facts:
  "section_switch d = Some sec \<Longrightarrow> d \<notin> {DIRECTIVE_NONE, DIRECTIVE_INVALID, DIRECTIVE_EXTERNAL,
      DIRECTIVE_GLOBAL, DIRECTIVE_LOCAL} \<and> \<not> is_data_directive d"
  by (cases d) (simp_all add: section_switch_def is_data_directive_def)

lemma binding_None:
  "visibility_directive_binding i = None \<longleftrightarrow> directive_kind i \<notin> {DIRECTIVE_GLOBAL, DIRECTIVE_LOCAL}"
  by (simp add: visibility_directive_binding_def split: DirectiveKind.split)

lemma declares_Nil:
  assumes "directive_kind i \<notin> {DIRECTIVE_NONE, DIRECTIVE_EXTERNAL, DIRECTIVE_GLOBAL, DIRECTIVE_LOCAL}"
    "\<not> is_data_directive (directive_kind i)"
  shows "declares sec off i = []"
  using assms binding_None [of i] by (simp add: declares_def split: list.split Operand.split)

lemma pass1_switch_step:
  assumes "section_switch (directive_kind i) = Some sec"
  shows "clean_step st i (st\<lparr>current_section := sec\<rparr>)"
proof -
  note f = switch_facts [OF assms]
  have "pass1_view (st\<lparr>current_section := sec\<rparr>) = layout_step (pass1_view st) i"
    by (auto simp: layout_step_def assms pass1_view_def pass1_section_offset_def fun_eq_iff
        split: SymbolSection.split)
  then show ?thesis
    using f declares_Nil [of i] by (simp add: clean_step_def checked_def accepted_by_def)
qed

text \<open>A directive that is neither a switch nor data takes no bytes.\<close>

lemma quiet_step:
  assumes "section_switch (directive_kind i) = None" "directive_kind i \<noteq> DIRECTIVE_NONE"
    "\<not> is_data_directive (directive_kind i)" "directive_kind i \<noteq> DIRECTIVE_INVALID"
    "pass1_view st' = pass1_view st" "p1_errs st' = p1_errs st"
    "accepted_by (p1_table st) (declares (current_section st)
       (lay_size (pass1_view st) (current_section st)) i) (p1_table st')"
  shows "clean_step st i st'"
proof -
  have "contribution sec off i = 0" for sec off
    using assms(2,3) by (simp add: contribution_def)
  then show ?thesis using assms no_contribution [of i "pass1_view st"] by (simp add: clean_step_def checked_def)
qed

lemma pass1_external_step:
  assumes "directive_kind i = DIRECTIVE_EXTERNAL" "clean (p1_errs (pass1_external il st i))"
  shows "clean_step st i (pass1_external il st i)"
proof (rule quiet_step)
  have "\<exists>s tab. op_kinds i = [OP_LABEL s] \<and> symtable_declare_external (p1_table st) s = (True, tab)
      \<and> pass1_external il st i = st\<lparr>p1_table := tab\<rparr>"
    using assms(2) by (auto simp: pass1_external_def split: list.splits Operand.splits prod.splits if_splits)
  then obtain s tab where s: "op_kinds i = [OP_LABEL s]" "symtable_declare_external (p1_table st) s = (True, tab)"
    "pass1_external il st i = st\<lparr>p1_table := tab\<rparr>" by blast
  show "pass1_view (pass1_external il st i) = pass1_view st" "p1_errs (pass1_external il st i) = p1_errs st"
    by (simp_all add: s)
  show "accepted_by (p1_table st) (declares (current_section st)
      (lay_size (pass1_view st) (current_section st)) i) (p1_table (pass1_external il st i))"
    using assms(1) s by (simp add: accepted_by_def declares_def is_data_directive_def)
qed (simp_all add: assms section_switch_def is_data_directive_def)

lemma pass1_visibility_step:
  assumes "visibility_directive_binding i = Some b" "clean (p1_errs (pass1_visibility il st i b))"
  shows "clean_step st i (pass1_visibility il st i b)"
proof (rule quiet_step)
  have k: "directive_kind i = DIRECTIVE_GLOBAL \<or> directive_kind i = DIRECTIVE_LOCAL"
    using assms(1) binding_None [of i] by auto
  have "\<exists>s tab. op_kinds i = [OP_LABEL s] \<and> symtable_declare_binding (p1_table st) s b = (True, tab)
      \<and> pass1_visibility il st i b = st\<lparr>p1_table := tab\<rparr>"
    using assms(2) by (auto simp: pass1_visibility_def split: list.splits Operand.splits prod.splits if_splits)
  then obtain s tab where s: "op_kinds i = [OP_LABEL s]" "symtable_declare_binding (p1_table st) s b = (True, tab)"
    "pass1_visibility il st i b = st\<lparr>p1_table := tab\<rparr>" by blast
  show "pass1_view (pass1_visibility il st i b) = pass1_view st"
    "p1_errs (pass1_visibility il st i b) = p1_errs st" by (simp_all add: s)
  show "accepted_by (p1_table st) (declares (current_section st)
      (lay_size (pass1_view st) (current_section st)) i) (p1_table (pass1_visibility il st i b))"
    using assms(1) k s by (auto simp: accepted_by_def declares_def is_data_directive_def)
  show "section_switch (directive_kind i) = None" "directive_kind i \<noteq> DIRECTIVE_NONE"
    "\<not> is_data_directive (directive_kind i)" "directive_kind i \<noteq> DIRECTIVE_INVALID"
    using k by (auto simp: section_switch_def is_data_directive_def)
qed

text \<open>Data directives and instructions\<close>

lemma data_not_switch:
  "is_data_directive d \<Longrightarrow> section_switch d = None \<and> d \<noteq> DIRECTIVE_NONE \<and> d \<noteq> DIRECTIVE_INVALID"
  by (auto simp: is_data_directive_def section_switch_def)

lemma pass1_emit_step:
  assumes "is_data_directive (directive_kind i)" "current_section st \<noteq> SYMBOL_SECTION_UNKNOWN"
    "checked (current_section st) i" "clean (p1_errs (pass1_emit il st i))"
  shows "clean_step st i (pass1_emit il st i)"
proof -
  let ?sec = "current_section st" and ?off = "lay_size (pass1_view st) (current_section st)"
  define l where "l = pass1_label il (pass1_note_alignment st ?sec i) i ?off"
  have e: "pass1_emit il st i = pass1_advance l ?sec (nat (data_directive_size_at i ?off))"
    if "0 < data_directive_size_at i ?off"
    using assms(2) that by (simp add: pass1_emit_def l_def)
  have e0: "pass1_emit il st i = l" if "\<not> 0 < data_directive_size_at i ?off"
    using assms(2) that by (simp add: pass1_emit_def l_def)
  have c: "clean (p1_errs l)" using assms(4) e e0 by (cases "0 < data_directive_size_at i ?off") auto
  note lab = pass1_label_clean [OF c [unfolded l_def], folded l_def, unfolded pass1_note_sel]
  have con: "contribution ?sec ?off i = nat (data_directive_size_at i ?off)"
    using assms(1,3) data_not_switch [OF assms(1)] by (simp add: contribution_def checked_def)
  have view: "pass1_view (pass1_emit il st i) = layout_step (pass1_view st) i"
    using e e0 assms(2) data_not_switch [OF assms(1)] con
    by (cases "0 < data_directive_size_at i ?off")
      (simp_all add: pass1_view_advance layout_step_def Let_def l_def)
  have same: "p1_errs (pass1_emit il st i) = p1_errs l" "p1_table (pass1_emit il st i) = p1_table l"
    using e e0 by (cases "0 < data_directive_size_at i ?off"; simp)+
  show ?thesis
    using assms(1,3) view lab by (simp add: clean_step_def same declares_def)
qed

lemma pass1_data_step:
  assumes "current_section st \<noteq> SYMBOL_SECTION_UNKNOWN" "clean (p1_errs (pass1_data il st i))"
  shows "clean_step st i (pass1_data il st i)"
proof -
  obtain ok es where v: "validate_data_directive il i (p1_errs st) = (ok, es)" by fastforce
  note ve = validate_data_errors [OF v]
  have d: "is_data_directive (directive_kind i)" and sec: "current_section st \<noteq> SYMBOL_SECTION_TEXT"
    using assms(2) by (auto simp: pass1_data_def split: if_splits)
  have ok: "ok" using assms(2) d sec assms(1) v ve by (auto simp: pass1_data_def split: if_splits)
  then have es: "es = p1_errs st" using ve by simp
  have bss: "current_section st = SYMBOL_SECTION_BSS \<longrightarrow>
      directive_kind i = DIRECTIVE_ZERO_SPACE \<or> directive_kind i = DIRECTIVE_ALIGNMENT"
    using assms(2) d sec assms(1) v ok by (auto simp: pass1_data_def split: if_splits)
  have emit: "pass1_data il st i = pass1_emit il st i"
    using d sec assms(1) v ok bss es by (auto simp: pass1_data_def)
  have "valid_data i" using validate_data_iff [OF d, of il "p1_errs st"] v ok by simp
  then have "checked (current_section st) i"
    using d sec bss data_not_switch [OF d] by (simp add: checked_def)
  then show ?thesis using pass1_emit_step [OF d assms(1)] assms(2) emit by simp
qed

lemma pass1_instruction_step:
  assumes "directive_kind i = DIRECTIVE_NONE" "current_section st \<noteq> SYMBOL_SECTION_UNKNOWN"
    "clean (p1_errs (pass1_instruction il st i))"
  shows "clean_step st i (pass1_instruction il st i)"
proof -
  let ?sec = "current_section st" and ?off = "lay_size (pass1_view st) (current_section st)"
  define l where "l = pass1_label il st i ?off"
  have step: "pass1_instruction il st i =
      (if opcode i = OPCODE_INVALID \<or> ?sec \<noteq> SYMBOL_SECTION_TEXT then l
       else pass1_advance l SYMBOL_SECTION_TEXT (layout_size i))"
    using assms(2) by (simp add: pass1_instruction_def Let_def l_def)
  have nd: "\<not> is_data_directive DIRECTIVE_NONE" "section_switch DIRECTIVE_NONE = None"
    by (simp_all add: is_data_directive_def section_switch_def)
  have c: "clean (p1_errs l)" using assms(3) by (simp add: step split: if_splits)
  note lab = pass1_label_clean [OF c [unfolded l_def], folded l_def]
  have "pass1_view (pass1_instruction il st i) = layout_step (pass1_view st) i"
    using assms(1) nd by (simp add: step layout_step_def contribution_def pass1_view_advance l_def Let_def)
  then show ?thesis
    using assms(1) nd lab by (simp add: clean_step_def checked_def declares_def step)
qed

lemma pass1_step_clean:
  assumes "current_section st \<noteq> SYMBOL_SECTION_UNKNOWN" "clean (p1_errs (pass1_step il st i))"
  shows "clean_step st i (pass1_step il st i)"
proof (cases "directive_kind i = DIRECTIVE_NONE")
  case True
  then show ?thesis using assms pass1_instruction_step by (simp add: pass1_step_def)
next
  case False
  then have step: "pass1_step il st i = pass1_directive il st i" by (simp add: pass1_step_def)
  have data: "clean_step st i (pass1_directive il st i)"
    if "pass1_directive il st i = pass1_data il st i"
    using that assms pass1_data_step step by simp
  have switch: "clean_step st i (pass1_directive il st i)"
    if "pass1_directive il st i = st\<lparr>current_section := sec\<rparr>" "section_switch (directive_kind i) = Some sec" for sec
    using that pass1_switch_step by simp
  have quiet: "clean_step st i (pass1_directive il st i)"
    if "pass1_view (pass1_directive il st i) = pass1_view st" "p1_table (pass1_directive il st i) = p1_table st"
      "p1_errs (pass1_directive il st i) = p1_errs st" "section_switch (directive_kind i) = None"
      "directive_kind i \<notin> {DIRECTIVE_NONE, DIRECTIVE_EXTERNAL, DIRECTIVE_GLOBAL, DIRECTIVE_LOCAL, DIRECTIVE_INVALID}"
      "\<not> is_data_directive (directive_kind i)"
    using that declares_Nil [of i] by (intro quiet_step) (simp_all add: accepted_by_def)
  have files: "clean_step st i (pass1_directive il st i)"
    if k: "directive_kind i = DIRECTIVE_DEBUG_FILE \<or> directive_kind i = DIRECTIVE_DEBUG_FILE_BYTES"
  proof -
    obtain ok es fs where f: "validate_debug_file_directive (p1_errs st) (p1_files st) il i = (ok, es, fs)"
      by (metis prod_cases3)
    have d: "pass1_directive il st i = st\<lparr>p1_errs := es, p1_files := fs\<rparr>"
      using k f by (auto simp: pass1_directive_def)
    then have "es = p1_errs st" using assms(2) validate_file_errors [OF f] step by (simp split: if_splits)
    then show ?thesis using k d by (intro quiet) (auto simp: section_switch_def is_data_directive_def)
  qed
  have location: "clean_step st i (pass1_directive il st i)"
    if k: "directive_kind i = DIRECTIVE_DEBUG_LOCATION"
  proof -
    obtain ok es where f: "validate_debug_location_directive il i (p1_errs st) = (ok, es)" by fastforce
    have d: "pass1_directive il st i = st\<lparr>p1_errs := es\<rparr>" using k f by (simp add: pass1_directive_def)
    then have "es = p1_errs st" using assms(2) validate_location_errors [OF f] step by (simp split: if_splits)
    then show ?thesis using k d by (intro quiet) (auto simp: section_switch_def is_data_directive_def)
  qed
  have visibility: "clean_step st i (pass1_directive il st i)"
    if k: "directive_kind i = DIRECTIVE_GLOBAL \<or> directive_kind i = DIRECTIVE_LOCAL"
  proof -
    obtain b where b: "visibility_directive_binding i = Some b" using k binding_None [of i] by auto
    have "pass1_directive il st i = pass1_visibility il st i b"
      using k b by (auto simp: pass1_directive_def)
    then show ?thesis using pass1_visibility_step [OF b] assms(2) step by simp
  qed
  have external: "clean_step st i (pass1_directive il st i)" if "directive_kind i = DIRECTIVE_EXTERNAL"
  proof -
    have "pass1_directive il st i = pass1_external il st i" using that by (simp add: pass1_directive_def)
    then show ?thesis using pass1_external_step [OF that] assms(2) step by simp
  qed
  have no_binding: "visibility_directive_binding i = None"
    if "directive_kind i \<notin> {DIRECTIVE_GLOBAL, DIRECTIVE_LOCAL}" using that binding_None [of i] by simp
  show ?thesis
    unfolding step
    by (cases "directive_kind i";
        ((rule data; simp add: pass1_directive_def no_binding; fail)
         | (rule switch; simp add: pass1_directive_def section_switch_def; fail)
         | (rule files; simp; fail) | (rule location; simp; fail) | (rule visibility; simp; fail)
         | (rule external; simp; fail) | (simp add: False; fail) | (use False in simp; fail)))
qed

text \<open>A section is never unknown.\<close>

lemma layout_known_step:
  "lay_section l \<noteq> SYMBOL_SECTION_UNKNOWN \<Longrightarrow> lay_section (layout_step l i) \<noteq> SYMBOL_SECTION_UNKNOWN"
  by (simp add: switch_known split: option.split)


section \<open>The walk of a source without errors\<close>

text \<open>The declarations of a source, at the addresses of its layout.\<close>

fun declarations_from :: "Layout \<Rightarrow> Instruction list \<Rightarrow> sym_op list" where
  "declarations_from l [] = []"
| "declarations_from l (i # is) =
     declares (lay_section l) (lay_size l (lay_section l)) i @ declarations_from (layout_step l i) is"

abbreviation declarations :: "Instruction list \<Rightarrow> sym_op list" where
  "declarations \<equiv> declarations_from layout_start"

lemma declarations_snoc:
  "declarations_from l (is @ [i]) = declarations_from l is
     @ declares (lay_section (foldl layout_step l is))
         (lay_size (foldl layout_step l is) (lay_section (foldl layout_step l is))) i"
  by (induction "is" arbitrary: l) auto

lemma clean_prefix:
  assumes "clean (p1_errs (pass1_step il st i))" "current_section st \<noteq> SYMBOL_SECTION_UNKNOWN"
  shows "clean (p1_errs st)"
  using pass1_step_clean [OF assms(2,1)] assms(1) by (simp add: clean_step_def)

text \<open>The section is known whether the step reports something or not.\<close>

lemma pass1_handler_section [simp]:
  "current_section (pass1_external il st i) = current_section st"
  "current_section (pass1_visibility il st i b) = current_section st"
  "current_section (pass1_emit il st i) = current_section st"
  "current_section (pass1_data il st i) = current_section st"
  "current_section (pass1_instruction il st i) = current_section st"
proof -
  show emit: "current_section (pass1_emit il st i) = current_section st" for st
    by (simp add: pass1_emit_def Let_def split: option.split)
  show "current_section (pass1_data il st i) = current_section st"
    by (simp add: pass1_data_def emit split: prod.split)
  show "current_section (pass1_external il st i) = current_section st"
    by (simp add: pass1_external_def split: list.split Operand.split prod.split)
  show "current_section (pass1_visibility il st i b) = current_section st"
    by (simp add: pass1_visibility_def split: list.split Operand.split prod.split)
  show "current_section (pass1_instruction il st i) = current_section st"
    by (simp add: pass1_instruction_def Let_def split: option.split)
qed

lemma pass1_section_known:
  "current_section st \<noteq> SYMBOL_SECTION_UNKNOWN \<Longrightarrow> current_section (pass1_step il st i) \<noteq> SYMBOL_SECTION_UNKNOWN"
  by (cases "directive_kind i")
    (simp_all add: pass1_step_def pass1_directive_def split: prod.split option.split)

lemma pass1_walk_snoc: "pass1_walk il (is @ [i]) = pass1_step il (pass1_walk il is) i"
  by (simp add: pass1_walk_def)

lemma pass1_walk_known: "current_section (pass1_walk il is) \<noteq> SYMBOL_SECTION_UNKNOWN"
  by (induction "is" rule: rev_induct)
    (simp_all add: pass1_walk_snoc pass1_section_known, simp add: pass1_walk_def pass1_start_def)

lemma pass1_walk_clean_prefix:
  "clean (p1_errs (pass1_walk il (is @ js))) \<Longrightarrow> clean (p1_errs (pass1_walk il is))"
proof (induction js rule: rev_induct)
  case (snoc j js)
  then show ?case
    using clean_prefix [of il "pass1_walk il (is @ js)" j] pass1_walk_known
    by (simp flip: append_assoc add: pass1_walk_snoc)
qed simp

interpretation pass1: layout_pass pass1_view "pass1_step il" "\<lambda>st i. clean (p1_errs (pass1_step il st i))" for il
  by unfold_locales (use pass1_step_clean in \<open>simp add: clean_step_def\<close>)

lemma pass1_start_view: "pass1_view (pass1_start il) = layout_start"
  by (auto simp: pass1_view_def pass1_start_def layout_start_def pass1_section_offset_def fun_eq_iff
      split: SymbolSection.split)

lemma pass1_walk_view:
  assumes "clean (p1_errs (pass1_walk il is))"
  shows "pass1_view (pass1_walk il is) = layout_of is"
  unfolding pass1_walk_def
proof (rule pass1.run_view [OF pass1_start_view])
  fix js i ks assume "is = js @ i # ks"
  then have "clean (p1_errs (pass1_walk il ((js @ [i]) @ ks)))" using assms by simp
  then have "clean (p1_errs (pass1_walk il (js @ [i])))" by (rule pass1_walk_clean_prefix)
  then show "clean (p1_errs (pass1_step il (foldl (pass1_step il) (pass1_start il) js) i))"
    by (simp add: pass1_walk_def)
qed

text \<open>The symbol table of a clean walk is that of its declarations, all of them accepted.\<close>

lemma symtable_run_snoc: "symtable_run (ps @ [p]) = snd (symtable_apply (symtable_run ps) p)"
  by (simp add: symtable_run_def)

lemma declares_short: "declares sec off i = [] \<or> (\<exists>p. declares sec off i = [p])"
  by (simp add: declares_def split: option.split list.split Operand.split)

lemma accepted_by_run:
  assumes "accepted_by (symtable_run ps) (declares sec off i) tab"
  shows "tab = symtable_run (ps @ declares sec off i)"
    "declares sec off i = [p] \<Longrightarrow> fst (symtable_apply (symtable_run ps) p)"
  using assms declares_short [of sec off i] by (auto simp: accepted_by_def symtable_run_snoc)

lemma pass1_walk_table:
  "clean (p1_errs (pass1_walk il is)) \<Longrightarrow> p1_table (pass1_walk il is) = symtable_run (declarations is)"
proof (induction "is" rule: rev_induct)
  case Nil
  then show ?case by (simp add: pass1_walk_def pass1_start_def symtable_run_def)
next
  case (snoc i "is")
  then have c: "clean (p1_errs (pass1_walk il is))" using pass1_walk_clean_prefix by blast
  have st: "clean_step (pass1_walk il is) i (pass1_walk il (is @ [i]))"
    unfolding pass1_walk_snoc
    by (rule pass1_step_clean) (use snoc(2) pass1_walk_known pass1_walk_snoc in auto)
  have sec: "current_section (pass1_walk il is) = lay_section (layout_of is)"
    using pass1_walk_view [OF c] by (metis pass1_view_sel(1))
  have "p1_table (pass1_walk il (is @ [i])) = symtable_run (declarations is
      @ declares (lay_section (layout_of is)) (lay_size (layout_of is) (lay_section (layout_of is))) i)"
    using st snoc.IH [OF c] pass1_walk_view [OF c]
    by (intro accepted_by_run) (simp add: clean_step_def sec)
  then show ?case by (simp add: declarations_snoc layout_of_def)
qed

end
