(* ===== verification/Reloc_Fields.thy ===== *)
theory Reloc_Fields
  imports Pass1_Correct Encoder_Accept
begin

text \<open>
  Where in an instruction's bytes the symbol fields lie that pass 2 leaves to the linker: the
  last four bytes of a RIP-relative operand, the 64-bit immediate of a MOV of a label, and the
  displacement of a branch. The assembler fills the fields of relocations with zeros.
\<close>

text \<open>The instructions without operands, whose encoders do not look at the operand list.\<close>

definition bare_opcode :: "OpcodeEnum \<Rightarrow> bool" where
  "bare_opcode opc \<longleftrightarrow> opc \<in> {OPCODE_RET, OPCODE_SYSCALL, OPCODE_NOP, OPCODE_RDTSC, OPCODE_HLT}"

abbreviation rip_op :: "Operand \<Rightarrow> bool" where
  "rip_op \<equiv> is_rip_relative_symbol_operand"

lemma rip_op_iff [simp]: "rip_op p \<longleftrightarrow> (\<exists>s. p = OP_MEM_RIP_LABEL s)"
  by (cases p) (simp_all add: is_rip_relative_symbol_operand_def)

lemma mem64_no_rip [simp]: "\<not> mem64 (OP_MEM_RIP_LABEL s)"
  by (simp add: mem64_def)

lemma operand_shapes:
  obtains "os = []" | p where "os = [p]" | p q where "os = [p, q]" | p q r where "os = [p, q, r]"
    | p q r s ps where "os = p # q # r # s # ps"
  by (metis list.exhaust)

lemma no_rip:
  "alu_form os \<Longrightarrow> \<not> (\<exists>p \<in> set os. rip_op p)"
  "test_form os \<Longrightarrow> \<not> (\<exists>p \<in> set os. rip_op p)"
  "imul_form os \<Longrightarrow> \<not> (\<exists>p \<in> set os. rip_op p)"
  "movx_form b os \<Longrightarrow> \<not> (\<exists>p \<in> set os. rip_op p)"
  "unary_form os \<Longrightarrow> \<not> (\<exists>p \<in> set os. rip_op p)"
  "reg64_form os \<Longrightarrow> \<not> (\<exists>p \<in> set os. rip_op p)"
  "shift_form os \<Longrightarrow> \<not> (\<exists>p \<in> set os. rip_op p)"
  "setcc_form os \<Longrightarrow> \<not> (\<exists>p \<in> set os. rip_op p)"
  "rel_form os t \<Longrightarrow> \<not> (\<exists>p \<in> set os. rip_op p)"
  "int_form os \<Longrightarrow> \<not> (\<exists>p \<in> set os. rip_op p)"
  "xmm_form D S os \<Longrightarrow> \<not> (\<exists>p \<in> set os. rip_op p)"
proof -
  show "alu_form os \<Longrightarrow> \<not> (\<exists>p \<in> set os. rip_op p)"
    by (rule operand_shapes [of os]; simp add: alu_form_def split: Operand.splits)
  show "test_form os \<Longrightarrow> \<not> (\<exists>p \<in> set os. rip_op p)"
    by (rule operand_shapes [of os]; simp add: test_form_def split: Operand.splits)
  show "imul_form os \<Longrightarrow> \<not> (\<exists>p \<in> set os. rip_op p)"
    by (rule operand_shapes [of os]; simp add: imul_form_def split: Operand.splits)
  show "movx_form b os \<Longrightarrow> \<not> (\<exists>p \<in> set os. rip_op p)"
    by (rule operand_shapes [of os]; simp add: movx_form_def split: Operand.splits)
  show "unary_form os \<Longrightarrow> \<not> (\<exists>p \<in> set os. rip_op p)"
    by (rule operand_shapes [of os]; simp add: unary_form_def split: Operand.splits)
  show "reg64_form os \<Longrightarrow> \<not> (\<exists>p \<in> set os. rip_op p)"
    by (rule operand_shapes [of os]; simp add: reg64_form_def split: Operand.splits)
  show "shift_form os \<Longrightarrow> \<not> (\<exists>p \<in> set os. rip_op p)"
    by (rule operand_shapes [of os]; simp add: shift_form_def split: Operand.splits)
  show "setcc_form os \<Longrightarrow> \<not> (\<exists>p \<in> set os. rip_op p)"
    by (rule operand_shapes [of os]; simp add: setcc_form_def split: Operand.splits)
  show "rel_form os t \<Longrightarrow> \<not> (\<exists>p \<in> set os. rip_op p)"
    by (rule operand_shapes [of os]; simp add: rel_form_def split: Operand.splits)
  show "int_form os \<Longrightarrow> \<not> (\<exists>p \<in> set os. rip_op p)"
    by (rule operand_shapes [of os]; simp add: int_form_def split: Operand.splits)
  show "xmm_form D S os \<Longrightarrow> \<not> (\<exists>p \<in> set os. rip_op p)"
    by (rule operand_shapes [of os]; simp add: xmm_form_def split: Operand.splits)
qed

lemma rip_mov:
  assumes "mov_form os" "\<exists>p \<in> set os. rip_op p"
  shows "\<exists>r s. (os = [OP_REG r, OP_MEM_RIP_LABEL s] \<or> os = [OP_MEM_RIP_LABEL s, OP_REG r]) \<and> gpr r"
proof (rule operand_shapes [of os])
  fix p q assume "os = [p, q]"
  then show ?thesis using assms by (cases p; cases q; simp add: mov_form_def)
qed (use assms in \<open>auto simp: mov_form_def split: Operand.splits\<close>)

lemma rip_lea:
  assumes "lea_form os" "\<exists>p \<in> set os. rip_op p"
  shows "\<exists>r s. os = [OP_REG r, OP_MEM_RIP_LABEL s] \<and> width r = 64"
proof (rule operand_shapes [of os])
  fix p q assume "os = [p, q]"
  then show ?thesis using assms by (cases p; cases q; simp add: lea_form_def)
qed (use assms in \<open>auto simp: lea_form_def split: Operand.splits\<close>)

lemma rip_forms:
  assumes "accepted opc os t" "\<not> bare_opcode opc" "\<exists>p \<in> set os. rip_op p"
  shows "opc = OPCODE_MOV \<and>
      (\<exists>r s. (os = [OP_REG r, OP_MEM_RIP_LABEL s] \<or> os = [OP_MEM_RIP_LABEL s, OP_REG r]) \<and> gpr r)
    \<or> opc = OPCODE_LEA \<and> (\<exists>r s. os = [OP_REG r, OP_MEM_RIP_LABEL s] \<and> width r = 64)"
proof -
  have "os \<noteq> []" using assms(3) by auto
  then show ?thesis
    using assms(1,2) no_rip [where os = os] rip_mov [OF _ assms(3)] rip_lea [OF _ assms(3)] assms(3)
    by (cases opc) (simp_all only: accepted_def bare_opcode_def OpcodeEnum.case insert_iff empty_iff
        not_False_eq_True simp_thms OpcodeEnum.distinct, blast+)
qed

text \<open>The field is the last four bytes, and the instruction has one such operand.\<close>

lemma capped_short: "length xs \<le> 15 \<Longrightarrow> enc_bytes (from_buf (capped xs)) = xs"
  by (simp add: from_buf_def capped_def MAX_INSTRUCTION_BYTES_def)

lemma rip_emit:
  "\<exists>pre. enc_bytes (from_buf (emit_rip_relative_mem empty_buf opc r w)) = pre @ replicate 4 0"
proof -
  have z: "le_bytes 4 (0 :: i32) = replicate 4 0" by (simp add: numeral_eq_Suc)
  have "length (prefix_bytes w @ rex_bytes w r REG_INVALID @ [opc, modrm_byte 0 (rf r) 5] @ replicate 4 (0 :: u8)) \<le> 15"
    using length_prefix_bytes [of w] length_rex_bytes [of w r REG_INVALID] by simp
  then have "enc_bytes (from_buf (emit_rip_relative_mem empty_buf opc r w))
      = (prefix_bytes w @ rex_bytes w r REG_INVALID @ [opc, modrm_byte 0 (rf r) 5]) @ replicate 4 0"
    by (simp only: emit_simps append_Nil z capped_short append_assoc)
  then show ?thesis by blast
qed

lemma rip_field:
  assumes "\<not> enc_error (encoder_encode opc os t)" "\<not> bare_opcode opc"
    "\<exists>p \<in> set os. rip_op p"
  shows "\<exists>pre. enc_bytes (encoder_encode opc os t) = pre @ replicate 4 0"
    "length (filter rip_op os) = 1"
proof -
  note forms = rip_forms [OF assms(1)[unfolded encoder_accepts_iff] assms(2,3)]
  then show "length (filter rip_op os) = 1"
    by auto
  show "\<exists>pre. enc_bytes (encoder_encode opc os t) = pre @ replicate 4 0"
    using forms rip_emit
    by (auto simp: encoder_encode_def enc_mov_def enc_lea_def valid_gpr sse2_operands_use_xmm_def
        gpr_def Let_def reg_is_xmm_width valid_integer_width_def)
qed


text \<open>A branch to a label is its opcode and the displacement, a MOV of a label its opcode and 64 bits.\<close>

lemma branch_field:
  assumes "opcode_uses_relative_label opc" "\<not> enc_error (encoder_encode opc [OP_LABEL s] t)"
  shows "\<exists>pre. enc_bytes (encoder_encode opc [OP_LABEL s] t) = pre @ le_bytes 4 (ucast t :: i32)
    \<and> length pre = relative_label_relocation_offset opc"
  using assms
  by (cases opc) (simp_all add: encoder_encode_def opcode_uses_relative_label_def enc_jmp_def enc_call_def
      enc_jcc_def emit_simps capped_short relative_label_relocation_offset_def split: if_splits)

lemma mov_label_field:
  assumes "\<not> enc_error (encoder_encode OPCODE_MOV [OP_REG d, OP_LABEL s] t)"
  shows "\<exists>pre. enc_bytes (encoder_encode OPCODE_MOV [OP_REG d, OP_LABEL s] t) = pre @ replicate 8 0
    \<and> length pre = mov_reg_label_relocation_offset"
proof -
  have w: "reg_width_bits d = 64"
    using assms by (simp add: encoder_accepts_iff accepted_def mov_form_def)
  have z: "le_bytes 8 (0 :: i64) = replicate 8 0" by (simp add: numeral_eq_Suc)
  have x: "rex_bytes 64 REG_INVALID d = [rex_byte True (reg_needs_rex REG_INVALID) False (reg_needs_rex d)]"
    by (simp add: rex_bytes_def opt_rex_def rex_required_def)
  show ?thesis
    using w
    by (simp add: encoder_encode_def enc_mov_def sse2_operands_use_xmm_def reg_is_xmm_width emit_simps x z
        capped_short mov_reg_label_relocation_offset_def)
qed

end
