(* ===== verification/Data_Image.thy ===== *)
theory Data_Image
  imports Pass1_Correct
begin

text \<open>
  The bytes of a data directive, as a function of the directive and its offset, and the proof
  that \<open>emit_data_directive\<close> appends them when the buffer has room and that their number is the
  size pass 1 reserves.
\<close>

definition int_value :: "Operand \<Rightarrow> i64" where
  "int_value p = (case p of OP_IMM v \<Rightarrow> v | _ \<Rightarrow> 0)"

definition string_image :: "Operand \<Rightarrow> u8 list" where
  "string_image p = (case p of OP_STRING s \<Rightarrow> s @ [0] | _ \<Rightarrow> [])"

definition padding :: "nat \<Rightarrow> nat \<Rightarrow> nat" where
  "padding alignment off = (alignment - off mod alignment) mod alignment"

definition data_image :: "Instruction \<Rightarrow> nat \<Rightarrow> u8 list" where
  "data_image i off = (case directive_kind i of
     DIRECTIVE_NUL_STRING \<Rightarrow> concat (map string_image (op_kinds i))
   | DIRECTIVE_ALIGNMENT \<Rightarrow> replicate (padding (unat (int_value (hd (op_kinds i)))) off) 0
   | DIRECTIVE_ZERO_SPACE \<Rightarrow> replicate (unat (int_value (hd (op_kinds i)))) 0
   | d \<Rightarrow> concat (map (\<lambda>p. le_bytes (directive_elem_size d) (int_value p)) (op_kinds i)))"

lemma padding_aligned: "0 < a \<Longrightarrow> a dvd off + padding a off"
proof -
  assume a: "0 < a"
  have "off mod a + padding a off = (if off mod a = 0 then 0 else a)"
    using a mod_less_divisor [OF a, of off] by (simp add: padding_def)
  then have "a dvd off mod a + padding a off" by (metis dvd_0_right dvd_refl)
  moreover have "off + padding a off = a * (off div a) + (off mod a + padding a off)" by simp
  ultimately show "a dvd off + padding a off" by (metis dvd_add dvd_triv_left)
qed

lemma padding_less: "0 < a \<Longrightarrow> padding a off < a"
  by (simp add: padding_def)

lemma int_value_simps [simp]: "int_value (OP_IMM v) = v" "int_value (OP_LABEL s) = 0"
  by (simp_all add: int_value_def)

lemma string_image_simps [simp]: "string_image (OP_STRING s) = s @ [0]"
  by (simp add: string_image_def)

lemma capacity_iff: "buffer_has_capacity w n cap \<longleftrightarrow> w + n \<le> cap"
  by (auto simp: buffer_has_capacity_def)

lemma emit_strings_image:
  "\<forall>p \<in> set ps. \<exists>s. p = OP_STRING s \<Longrightarrow>
     length buf + length (concat (map string_image ps)) \<le> cap \<Longrightarrow>
     emit_strings cap ps buf = (True, buf @ concat (map string_image ps))"
proof (induction ps arbitrary: buf)
  case (Cons p ps)
  then obtain s where "p = OP_STRING s" by auto
  then show ?case using Cons by (simp add: capacity_iff)
qed simp

lemma emit_integers_image:
  "length buf + n * length ps \<le> cap \<Longrightarrow>
     emit_integers n cap ps buf = (True, buf @ concat (map (\<lambda>p. le_bytes n (int_value p)) ps))"
  by (induction ps arbitrary: buf) (simp_all add: capacity_iff buffer_append_def flip: int_value_def)

lemma length_integers: "length (concat (map (\<lambda>p. le_bytes n (int_value p)) ps)) = n * length ps"
  by (induction ps) simp_all

lemma c_int_small: "n < 2 ^ 31 \<Longrightarrow> c_int n = int n"
  by (simp add: c_int_def signed_of_nat signed_take_bit_int_eq_self)


text \<open>Strings longer than an \<^verbatim>\<open>int\<close> can count are outside what the size functions can measure.\<close>

definition strings_small :: "Instruction \<Rightarrow> bool" where
  "strings_small i \<longleftrightarrow> (\<forall>p \<in> set (op_kinds i). case p of OP_STRING s \<Rightarrow> int (length s) < 2 ^ 31 | _ \<Rightarrow> True)"

lemma strings_smallD: "strings_small i \<Longrightarrow> OP_STRING s \<in> set (op_kinds i) \<Longrightarrow> length s < 2 ^ 31"
  by (fastforce simp: strings_small_def)

lemma space_value:
  assumes "0 \<le> sint v" "sint v < 2 ^ 31"
  shows "sint (ucast (v :: i64) :: i32) = int (unat v)"
proof -
  have "int (unat v) < 2 ^ 31" using assms sint_unat [of v] by linarith
  then have "unat v < 2 ^ 31"
    using of_nat_less_iff [of "unat v" "2 ^ 31", where 'a = int] by (simp only: of_nat_power of_nat_numeral)
  then have "c_int (unat v) = int (unat v)" by (rule c_int_small)
  then show ?thesis by (simp add: c_int_def)
qed

lemma strings_size:
  assumes "\<forall>p \<in> set ps. \<exists>s. opnd p = OP_STRING s \<and> length s < 2 ^ 31"
  shows "sum_list (map (\<lambda>p. case opnd p of OP_STRING s \<Rightarrow> c_int (length s) + 1 | _ \<Rightarrow> 0) ps)
    = int (length (concat (map string_image (map opnd ps))))"
  using assms by (induction ps) (auto simp: c_int_small)

lemma data_size_image:
  assumes "is_data_directive (directive_kind i)" "valid_data i" "strings_small i"
  shows "data_directive_size_at i off = int (length (data_image i off))"
proof -
  have len: "length (op_kinds i) = length (ops i)" "op_kinds i = [] \<longleftrightarrow> ops i = []" by (simp_all add: op_kinds_def)
  have ints: "length (concat (map (\<lambda>p. le_bytes n (int_value p)) (op_kinds i))) = n * length (ops i)" for n
    by (simp only: length_integers) (simp add: op_kinds_def)
  note defs = data_directive_size_at_def data_directive_size_def data_image_def ints len directive_elem_size_def
  show ?thesis
    using assms(1) unfolding is_data_directive_def
  proof (elim disjE)
    assume k: "directive_kind i = DIRECTIVE_ALIGNMENT"
    then obtain v n where v: "op_kinds i = [OP_IMM v]" "n \<le> 12" "sint v = 2 ^ n"
      using assms(2) by (auto simp: valid_data_def)
    have "int (unat v) = 2 ^ n" using sint_unat [of v] v(3) by (metis zero_le_numeral zero_le_power)
    then have u: "unat v = 2 ^ n" by (metis of_nat_eq_iff of_nat_numeral of_nat_power)
    then have p: "0 < unat v" by (metis zero_less_numeral zero_less_power)
    have "(2 :: nat) ^ n \<le> 2 ^ 12" using v(2) by (rule power_increasing) simp
    then have "unat v \<le> 4096" using u by simp
    then have "padding (unat v) off < 2 ^ 31" using padding_less [OF p, of off] by simp
    then show ?thesis using k v by (simp add: defs Let_def c_int_small flip: padding_def)
  next
    assume k: "directive_kind i = DIRECTIVE_ZERO_SPACE"
    then obtain v where v: "op_kinds i = [OP_IMM v]" "0 \<le> sint v" "sint v < 2 ^ 31"
      using assms(2) by (auto simp: valid_data_def)
    then show ?thesis using k space_value [OF v(2,3)] by (simp add: defs)
  next
    assume k: "directive_kind i = DIRECTIVE_NUL_STRING"
    have "\<forall>p \<in> set (ops i). \<exists>s. opnd p = OP_STRING s \<and> length s < 2 ^ 31"
    proof
      fix p assume "p \<in> set (ops i)"
      then have p: "opnd p \<in> set (op_kinds i)" by (simp add: op_kinds_def)
      then obtain s where "opnd p = OP_STRING s" using k assms(2) unfolding valid_data_def by auto
      then show "\<exists>s. opnd p = OP_STRING s \<and> length s < 2 ^ 31"
        using p strings_smallD [OF assms(3)] by metis
    qed
    note sum = strings_size [OF this]
    have im: "data_image i off = concat (map string_image (map opnd (ops i)))"
      by (simp only: data_image_def k DirectiveKind.case op_kinds_def)
    show ?thesis unfolding im sum [symmetric] by (simp add: data_directive_size_at_def data_directive_size_def k)
  qed (simp_all add: defs)
qed

lemma emit_data_image:
  assumes "is_data_directive (directive_kind i)" "valid_data i"
    "length buf + length (data_image i (length buf)) \<le> cap"
  shows "emit_data_directive i buf cap = (True, buf @ data_image i (length buf))"
proof -
  have ints: ?thesis
    if "data_image i (length buf) = concat (map (\<lambda>p. le_bytes n (int_value p)) (op_kinds i))"
      "emit_data_directive i buf cap = emit_integers n cap (op_kinds i) buf" for n
    using assms(3) emit_integers_image [of buf n "op_kinds i" cap] unfolding that length_integers by blast
  note defs = emit_data_directive_def data_image_def directive_elem_size_def
  show ?thesis
    using assms(1) unfolding is_data_directive_def
  proof (elim disjE)
    assume k: "directive_kind i = DIRECTIVE_ALIGNMENT"
    then obtain v n where v: "op_kinds i = [OP_IMM v]" "sint v = 2 ^ n"
      using assms(2) by (auto simp: valid_data_def)
    then show ?thesis
      using k assms(3) by (simp add: defs buffer_fill_def capacity_iff Let_def not_le flip: padding_def)
  next
    assume k: "directive_kind i = DIRECTIVE_ZERO_SPACE"
    then obtain v where v: "op_kinds i = [OP_IMM v]" "0 \<le> sint v" "sint v < 2 ^ 31"
      using assms(2) by (auto simp: valid_data_def)
    define n where "n = unat v"
    have "sint (ucast v :: i32) = int n" unfolding n_def using v(2,3) by (rule space_value)
    then show ?thesis
      using k v(1) assms(3) by (simp add: defs buffer_fill_def capacity_iff Let_def flip: n_def)
  next
    assume k: "directive_kind i = DIRECTIVE_NUL_STRING"
    then show ?thesis
      using assms(2,3) emit_strings_image [of "op_kinds i" buf cap]
      by (simp add: defs valid_data_def)
  qed (rule ints [of "directive_elem_size (directive_kind i)"]; simp add: defs)+
qed

end
