(* ===== verification/Pass2_Resolve.thy ===== *)
theory Pass2_Resolve
  imports Reloc_Fields Data_Image
begin

text \<open>
  The operands of an instruction in the second pass: what their resolution does to the state, what
  it gives the encoder while nothing is reported, and the closed forms of the bytes and the
  relocations of an instruction at an offset.
\<close>

section \<open>Views of the state\<close>

definition pass2_view :: "Pass2State \<Rightarrow> Layout" where
  "pass2_view st = \<lparr>lay_section = p2_section st, lay_size = pass2_section_size st\<rparr>"

definition full_bytes :: "('a) Pass2Result_scheme \<Rightarrow> SymbolSection \<Rightarrow> u8 list" where
  "full_bytes st sec = (case sec of
     SYMBOL_SECTION_TEXT \<Rightarrow> text_bytes st
   | SYMBOL_SECTION_DATA \<Rightarrow> data_bytes st
   | SYMBOL_SECTION_READ_ONLY_DATA \<Rightarrow> read_only_data_bytes st
   | _ \<Rightarrow> [])"

definition capacity_of :: "Pass1Result \<Rightarrow> SymbolSection \<Rightarrow> nat" where
  "capacity_of p1 sec = (case sec of
     SYMBOL_SECTION_TEXT \<Rightarrow> p1_text_size p1
   | SYMBOL_SECTION_DATA \<Rightarrow> p1_data_size p1
   | SYMBOL_SECTION_READ_ONLY_DATA \<Rightarrow> p1_read_only_data_size p1
   | SYMBOL_SECTION_BSS \<Rightarrow> p1_bss_size p1
   | SYMBOL_SECTION_UNKNOWN \<Rightarrow> 0)"

definition room :: "Pass1Result \<Rightarrow> Layout \<Rightarrow> bool" where
  "room p1 l \<longleftrightarrow> (\<forall>sec. lay_size l sec \<le> capacity_of p1 sec)"

text \<open>What the parser guarantees of an instruction.\<close>

definition well_formed :: "Instruction \<Rightarrow> bool" where
  "well_formed i \<longleftrightarrow> (bare_opcode (opcode i) \<longrightarrow> ops i = []) \<and> strings_small i"

text \<open>The part of the state the emission changes\<close>

definition same_output :: "Pass2State \<Rightarrow> Pass2State \<Rightarrow> bool" where
  "same_output st st' \<longleftrightarrow> text_bytes st' = text_bytes st \<and> data_bytes st' = data_bytes st
     \<and> read_only_data_bytes st' = read_only_data_bytes st \<and> bss_size st' = bss_size st
     \<and> emissions st' = emissions st \<and> p2_section st' = p2_section st"

lemma same_output_refl [simp]: "same_output st st"
  by (simp add: same_output_def)

lemma same_output_trans: "same_output a b \<Longrightarrow> same_output b c \<Longrightarrow> same_output a c"
  by (simp add: same_output_def)

lemma same_output_size:
  "same_output st st' \<Longrightarrow> pass2_section_size st' sec = pass2_section_size st sec"
  by (cases sec) (simp_all add: same_output_def pass2_section_size_def)

lemma same_output_bytes: "same_output st st' \<Longrightarrow> full_bytes st' sec = full_bytes st sec"
  by (cases sec) (simp_all add: same_output_def full_bytes_def)

lemma same_output_view: "same_output st st' \<Longrightarrow> pass2_view st' = pass2_view st"
  using same_output_size [of st st'] by (simp add: pass2_view_def fun_eq_iff) (simp add: same_output_def)

section \<open>Resolution of operands\<close>

lemma data_relocations_same:
  "same_output st (data_relocations il p1 i sec before k ps st)"
proof (induction ps arbitrary: k st)
  case (Cons p ps)
  have "same_output st (st\<lparr>p2_errors := es\<rparr>)" "same_output st (push_relocation st r)" for es r
    by (simp_all add: same_output_def push_relocation_def)
  from this [THEN same_output_trans, OF Cons.IH] show ?case using Cons.IH by (simp split: Operand.split)
qed simp

lemma operand_error_not_clean [simp]: "\<not> clean (operand_error il i p es m)"
  by (simp add: operand_error_def)

text \<open>The relocations of a 64-bit data directive\<close>

fun symbol_fields :: "SymbolSection \<Rightarrow> nat \<Rightarrow> nat \<Rightarrow> Operand list \<Rightarrow> Relocation list" where
  "symbol_fields sec before k [] = []"
| "symbol_fields sec before k (p # ps) = (case p of
     OP_LABEL s \<Rightarrow> [\<lparr>rel_section = pass2_relocation_section sec, rel_kind = RELOC_ABS64,
                    rel_offset = before + k * 8, rel_symbol = s, rel_addend = 0\<rparr>]
   | _ \<Rightarrow> []) @ symbol_fields sec before (k + 1) ps"

lemma data_relocations_clean:
  assumes "clean (p2_errors (data_relocations il p1 i sec before k ps st))"
  shows "data_relocations il p1 i sec before k ps st =
      st\<lparr>relocations := relocations st @ symbol_fields sec before k (map opnd ps)\<rparr>
    \<and> (\<forall>s. OP_LABEL s \<in> opnd ` set ps \<longrightarrow> symbol_known (symtable p1) s)"
  using assms
proof (induction ps arbitrary: k st)
  case (Cons p ps)
  have keep: "clean (p2_errors st)" if "clean (p2_errors (data_relocations il p1 i sec before k ps st))" for k ps st
    using that
  proof (induction ps arbitrary: k st)
    case (Cons p ps)
    then show ?case
      by (cases "opnd p") (auto simp: push_relocation_def dest!: Cons.IH split: if_splits)
  qed simp
  show ?case
  proof (cases "opnd p")
    case (OP_LABEL s)
    have known: "symbol_known (symtable p1) s"
      using Cons.prems OP_LABEL keep [of "k + 1" ps] by (fastforce split: if_splits)
    then show ?thesis
      using Cons.prems Cons.IH [of "k + 1" "push_relocation st _"] OP_LABEL
      by (auto simp: push_relocation_def)
  qed (use Cons in auto)
qed simp


text \<open>Resolving the operands of an instruction touches errors and relocations only.\<close>

lemma resolve_label_same:
  "same_output (res_state r) (res_state (resolve_label il p1 i sz j p s r))"
  by (simp add: resolve_label_def Let_def res_fail_def res_reloc_def push_relocation_def same_output_def
      split: option.split prod.split)

lemma resolve_operand_same:
  "same_output (res_state r) (res_state (resolve_operand il p1 i sz j p r))"
  using resolve_label_same [of r il p1 i sz j p]
  by (simp add: resolve_operand_def split: Operand.split) (simp add: res_fail_def same_output_def)

lemma resolve_operands_same:
  "same_output (res_state r) (res_state (resolve_operands il p1 i sz j ps r))"
proof (induction ps arbitrary: j r)
  case (Cons p ps)
  show ?case
    using same_output_trans [OF resolve_operand_same Cons.IH] by simp
qed simp

text \<open>A failed resolution has been reported, and reports stay.\<close>

definition res_ok :: "Resolution \<Rightarrow> bool" where
  "res_ok r \<longleftrightarrow> (resolution_error r \<longrightarrow> \<not> clean (p2_errors (res_state r)))"

lemma resolve_operand_clean:
  assumes "clean (p2_errors (res_state (resolve_operand il p1 i sz j p r)))"
  shows "p2_errors (res_state r) = p2_errors (res_state (resolve_operand il p1 i sz j p r))"
    "resolution_error (resolve_operand il p1 i sz j p r) = resolution_error r"
  using assms
  by (auto simp: resolve_operand_def resolve_label_def Let_def res_fail_def res_reloc_def push_relocation_def
      split: Operand.splits option.splits prod.splits if_splits)

lemma resolve_operands_clean:
  "clean (p2_errors (res_state (resolve_operands il p1 i sz j ps r))) \<Longrightarrow>
     p2_errors (res_state r) = p2_errors (res_state (resolve_operands il p1 i sz j ps r))
     \<and> resolution_error (resolve_operands il p1 i sz j ps r) = resolution_error r"
proof (induction ps arbitrary: j r)
  case (Cons p ps)
  then show ?case using resolve_operand_clean [of il p1 i sz j p r] by fastforce
qed simp

lemma resolve_fresh_clean:
  assumes "resolution_error (resolve_operands il p1 i sz j ps r)" "\<not> resolution_error r"
  shows "\<not> clean (p2_errors (res_state (resolve_operands il p1 i sz j ps r)))"
  using resolve_operands_clean [of il p1 i sz j ps r] assms by blast

text \<open>Without label operands nothing is resolved; RIP-relative symbols are only checked.\<close>

lemma resolve_no_labels:
  assumes "\<forall>s. OP_LABEL s \<notin> opnd ` set ps"
    "clean (p2_errors (res_state (resolve_operands il p1 i sz j ps r)))"
  shows "resolve_operands il p1 i sz j ps r = r
    \<and> (\<forall>s. OP_MEM_RIP_LABEL s \<in> opnd ` set ps \<longrightarrow> symbol_known (symtable p1) s)"
  using assms
proof (induction ps arbitrary: j)
  case (Cons p ps)
  have c: "clean (p2_errors (res_state (resolve_operand il p1 i sz j p r)))"
    using resolve_operands_clean [of il p1 i sz "j + 1" ps] Cons.prems(2) by simp
  have "resolve_operand il p1 i sz j p r = r
      \<and> (\<forall>s. opnd p = OP_MEM_RIP_LABEL s \<longrightarrow> symbol_known (symtable p1) s)"
    using c Cons.prems(1)
    by (cases "opnd p") (auto simp: resolve_operand_def res_fail_def split: if_splits)
  then show ?case using Cons by (auto simp: rev_image_eqI)
qed simp

text \<open>The operand lists with labels\<close>

lemma no_label:
  "alu_form os \<Longrightarrow> OP_LABEL s \<notin> set os"
  "test_form os \<Longrightarrow> OP_LABEL s \<notin> set os"
  "imul_form os \<Longrightarrow> OP_LABEL s \<notin> set os"
  "movx_form b os \<Longrightarrow> OP_LABEL s \<notin> set os"
  "unary_form os \<Longrightarrow> OP_LABEL s \<notin> set os"
  "reg64_form os \<Longrightarrow> OP_LABEL s \<notin> set os"
  "shift_form os \<Longrightarrow> OP_LABEL s \<notin> set os"
  "setcc_form os \<Longrightarrow> OP_LABEL s \<notin> set os"
  "int_form os \<Longrightarrow> OP_LABEL s \<notin> set os"
  "xmm_form D S os \<Longrightarrow> OP_LABEL s \<notin> set os"
  "lea_form os \<Longrightarrow> OP_LABEL s \<notin> set os"
proof -
  have m: "\<not> mem64 (OP_LABEL s)" for s by (simp add: mem64_def)
  show "alu_form os \<Longrightarrow> OP_LABEL s \<notin> set os"
    by (rule operand_shapes [of os]; simp add: alu_form_def m split: Operand.splits)
  show "test_form os \<Longrightarrow> OP_LABEL s \<notin> set os"
    by (rule operand_shapes [of os]; simp add: test_form_def m split: Operand.splits)
  show "imul_form os \<Longrightarrow> OP_LABEL s \<notin> set os"
    by (rule operand_shapes [of os]; simp add: imul_form_def m split: Operand.splits)
  show "movx_form b os \<Longrightarrow> OP_LABEL s \<notin> set os"
    by (rule operand_shapes [of os]; simp add: movx_form_def m split: Operand.splits)
  show "unary_form os \<Longrightarrow> OP_LABEL s \<notin> set os"
    by (rule operand_shapes [of os]; simp add: unary_form_def m split: Operand.splits)
  show "reg64_form os \<Longrightarrow> OP_LABEL s \<notin> set os"
    by (rule operand_shapes [of os]; simp add: reg64_form_def m split: Operand.splits)
  show "shift_form os \<Longrightarrow> OP_LABEL s \<notin> set os"
    by (rule operand_shapes [of os]; simp add: shift_form_def m split: Operand.splits)
  show "setcc_form os \<Longrightarrow> OP_LABEL s \<notin> set os"
    by (rule operand_shapes [of os]; simp add: setcc_form_def m split: Operand.splits)
  show "int_form os \<Longrightarrow> OP_LABEL s \<notin> set os"
    by (rule operand_shapes [of os]; simp add: int_form_def m split: Operand.splits)
  show "xmm_form D S os \<Longrightarrow> OP_LABEL s \<notin> set os"
    by (rule operand_shapes [of os]; simp add: xmm_form_def m split: Operand.splits)
  show "lea_form os \<Longrightarrow> OP_LABEL s \<notin> set os"
    by (rule operand_shapes [of os]; simp add: lea_form_def m split: Operand.splits)
qed

lemma label_mov:
  assumes "mov_form os" "OP_LABEL s \<in> set os"
  shows "\<exists>d. os = [OP_REG d, OP_LABEL s]"
proof (rule operand_shapes [of os])
  fix p q assume "os = [p, q]"
  then show ?thesis using assms by (cases p; cases q; simp add: mov_form_def mem64_def)
qed (use assms in \<open>auto simp: mov_form_def split: Operand.splits\<close>)

lemma label_rel: "rel_form os t \<Longrightarrow> OP_LABEL s \<in> set os \<Longrightarrow> os = [OP_LABEL s]"
  by (rule operand_shapes [of os]; auto simp: rel_form_def split: Operand.splits)

lemma label_forms:
  assumes "accepted opc os t" "\<not> bare_opcode opc" "OP_LABEL s \<in> set os"
  shows "opcode_uses_relative_label opc \<and> os = [OP_LABEL s]
    \<or> opc = OPCODE_MOV \<and> (\<exists>d. os = [OP_REG d, OP_LABEL s])"
proof -
  have "os \<noteq> []" using assms(3) by auto
  then show ?thesis
    using assms(1,2) no_label [where os = os and s = s] label_mov [OF _ assms(3)] label_rel [OF _ assms(3)] assms(3)
    by (cases opc) (simp_all only: accepted_def bare_opcode_def OpcodeEnum.case insert_iff empty_iff
        not_False_eq_True simp_thms OpcodeEnum.distinct opcode_uses_relative_label_def, blast+)
qed


section \<open>What a step emits\<close>

text \<open>The branch displacement, the bytes and the relocations of an instruction at an offset.\<close>

definition branch_disp :: "Pass1Result \<Rightarrow> Instruction \<Rightarrow> nat \<Rightarrow> int" where
  "branch_disp p1 i off = (case op_kinds i of
     [OP_LABEL s] \<Rightarrow>
       (case symtable_lookup_ex (symtable p1) s of
          Some (target, _) \<Rightarrow> target - int (off + layout_size i) | None \<Rightarrow> 0)
   | _ \<Rightarrow> 0)"

definition encoding_of :: "Pass1Result \<Rightarrow> Instruction \<Rightarrow> nat \<Rightarrow> EncodedInstruction" where
  "encoding_of p1 i off =
     encoder_encode (opcode i) (op_kinds i)
       (word_of_int (if opcode_uses_relative_label (opcode i) then branch_disp p1 i off else 0))"

definition instruction_relocs :: "Pass1Result \<Rightarrow> Instruction \<Rightarrow> nat \<Rightarrow> Relocation list" where
  "instruction_relocs p1 i off = (case op_kinds i of
     [OP_LABEL s] \<Rightarrow>
       if symtable_lookup_ex (symtable p1) s = None
       then [\<lparr>rel_section = RELOC_SECTION_TEXT, rel_kind = RELOC_PC32,
              rel_offset = off + relative_label_relocation_offset (opcode i), rel_symbol = s, rel_addend = - 4\<rparr>]
       else []
   | [OP_REG d, OP_LABEL s] \<Rightarrow>
       [\<lparr>rel_section = RELOC_SECTION_TEXT, rel_kind = RELOC_ABS64,
         rel_offset = off + mov_reg_label_relocation_offset, rel_symbol = s, rel_addend = 0\<rparr>]
   | _ \<Rightarrow> rip_relocations i (off + layout_size i - 4))"

definition in_text :: "SymbolSection \<Rightarrow> Instruction \<Rightarrow> bool" where
  "in_text sec i \<longleftrightarrow> directive_kind i = DIRECTIVE_NONE \<and> opcode i \<noteq> OPCODE_INVALID \<and> sec = SYMBOL_SECTION_TEXT"

definition in_data :: "SymbolSection \<Rightarrow> Instruction \<Rightarrow> bool" where
  "in_data sec i \<longleftrightarrow> is_data_directive (directive_kind i)
     \<and> (sec = SYMBOL_SECTION_DATA \<or> sec = SYMBOL_SECTION_READ_ONLY_DATA)"

definition step_code :: "Pass1Result \<Rightarrow> SymbolSection \<Rightarrow> nat \<Rightarrow> Instruction \<Rightarrow> u8 list" where
  "step_code p1 sec off i =
     (if in_text sec i then enc_bytes (encoding_of p1 i off)
      else if in_data sec i then data_image i off else [])"

definition step_relocs :: "Pass1Result \<Rightarrow> SymbolSection \<Rightarrow> nat \<Rightarrow> Instruction \<Rightarrow> Relocation list" where
  "step_relocs p1 sec off i =
     (if in_text sec i then instruction_relocs p1 i off
      else if in_data sec i \<and> directive_kind i = DIRECTIVE_INT64 then symbol_fields sec off 0 (op_kinds i)
      else [])"

definition span_of :: "Layout \<Rightarrow> Instruction \<Rightarrow> EmissionSpan" where
  "span_of l i =
     (let sec = lay_section (layout_step l i); off = lay_size l sec
      in \<lparr>em_section = sec, em_offset = off,
          em_size = (if section_switch (directive_kind i) \<noteq> None \<or> sec = SYMBOL_SECTION_BSS then 0
                     else contribution sec off i)\<rparr>)"

section \<open>Encoding\<close>

lemma layout_size_enc:
  assumes "\<not> enc_error (encoder_encode (opcode i) (op_kinds i) t)"
  shows "enc_len (encoder_encode (opcode i) (op_kinds i) t) = layout_size i"
  using encoder_size_agrees [OF assms] encoder_len_bounds [OF assms] by (auto simp: layout_size_def)

lemma pass2_pad_ok:
  assumes "length (text_bytes st) + sz \<le> p1_text_size p1"
  shows "pass2_pad il p1 st i sz = Inr (put_span SYMBOL_SECTION_TEXT (length (text_bytes st)) sz
      (st\<lparr>text_bytes := text_bytes st @ replicate sz 0x90\<rparr>))"
  using assms by (simp add: pass2_pad_def buffer_fill_def capacity_iff)

text \<open>The encoding step: what it appends, and what it means that it reports nothing.\<close>

definition encoded_step ::
  "Pass1Result \<Rightarrow> Pass2State \<Rightarrow> Instruction \<Rightarrow> int \<Rightarrow> Pass2State \<Rightarrow> u8 list \<Rightarrow> bool" where
  "encoded_step p1 st i target st' code \<longleftrightarrow> same_output st st' \<and> length code = layout_size i
     \<and> (clean (p2_errors st') \<longrightarrow> p2_errors st' = p2_errors st
          \<and> \<not> enc_error (encoder_encode (opcode i) (op_kinds i) (word_of_int target))
          \<and> code = enc_bytes (encoder_encode (opcode i) (op_kinds i) (word_of_int target))
          \<and> relocations st' = relocations st
              @ rip_relocations i (length (text_bytes st) + layout_size i - 4))"

lemma pass2_encode_ok:
  assumes "well_formed i" "length (text_bytes st) + layout_size i \<le> p1_text_size p1"
  shows "\<exists>st' code. pass2_encode il p1 st i (layout_size i) target =
      Inr (put_span SYMBOL_SECTION_TEXT (length (text_bytes st)) (layout_size i)
            (st'\<lparr>text_bytes := text_bytes st @ code\<rparr>))
    \<and> encoded_step p1 st i target st' code"
proof (cases "enc_error (encoder_encode (opcode i) (op_kinds i) (word_of_int target))")
  case True
  define st' where "st' = st\<lparr>p2_errors := error_push (p2_errors st) (error_file il) (line i) (col i) (end_col i)
      (case branch_target_error i of Some m \<Rightarrow> m | None \<Rightarrow> MSG_CANNOT_ENCODE (opcode i))\<rparr>"
  have t: "text_bytes st' = text_bytes st" and "same_output st st'" and "\<not> clean (p2_errors st')"
    by (simp_all add: st'_def same_output_def)
  moreover have "pass2_encode il p1 st i (layout_size i) target = pass2_pad il p1 st' i (layout_size i)"
    using True by (simp add: pass2_encode_def Let_def st'_def)
  ultimately show ?thesis
    using assms(2) pass2_pad_ok [of st' "layout_size i" p1 il i]
    by (intro exI [of _ st'] exI [of _ "replicate (layout_size i) 0x90"]) (simp add: encoded_step_def)
next
  case False
  note len = layout_size_enc [OF False]
  have no_short: "\<not> (layout_size i < 4 \<and> (\<exists>p \<in> set (op_kinds i). rip_op p))"
  proof
    assume a: "layout_size i < 4 \<and> (\<exists>p \<in> set (op_kinds i). rip_op p)"
    then have "\<not> bare_opcode (opcode i)" using assms(1) by (auto simp: well_formed_def op_kinds_def)
    then show False using rip_field(1) [OF False] a len by fastforce
  qed
  show ?thesis
    using False assms(2) no_short len
    by (intro exI [of _ "st\<lparr>relocations := relocations st @ rip_relocations i (length (text_bytes st) + layout_size i - 4)\<rparr>"]
          exI [of _ "enc_bytes (encoder_encode (opcode i) (op_kinds i) (word_of_int target))"])
      (auto simp: pass2_encode_def Let_def buffer_append_def capacity_iff encoded_step_def same_output_def)
qed


section \<open>Instructions\<close>

lemma note_debug_line_same: "same_output st (note_debug_line st)" "p2_errors (note_debug_line st) = p2_errors st"
    "relocations (note_debug_line st) = relocations st"
  by (simp_all add: note_debug_line_def push_debug_line_def same_output_def)

text \<open>What resolution gives the encoder, when nothing is reported and the encoder accepts.\<close>

definition resolution_ok :: "Pass1Result \<Rightarrow> Instruction \<Rightarrow> Resolution \<Rightarrow> Resolution \<Rightarrow> nat \<Rightarrow> bool" where
  "resolution_ok p1 i r r' off \<longleftrightarrow>
     resolved_target r' = (if opcode_uses_relative_label (opcode i) then branch_disp p1 i off else 0)
     \<and> relocations (res_state r') @ rip_relocations i (off + layout_size i - 4)
         = relocations (res_state r) @ instruction_relocs p1 i off
     \<and> (\<forall>x \<in> set (instruction_relocs p1 i off). symbol_known (symtable p1) (rel_symbol x))
     \<and> (\<forall>s v. opcode_uses_relative_label (opcode i) \<and> op_kinds i = [OP_LABEL s]
          \<and> symtable_lookup_ex (symtable p1) s = Some v \<longrightarrow>
          snd v = SYMBOL_SECTION_TEXT \<and> - (2 ^ 31) \<le> branch_disp p1 i off \<and> branch_disp p1 i off < 2 ^ 31)"

lemma resolution_branch:
  assumes "opcode_uses_relative_label (opcode i)" "op_kinds i = [OP_LABEL s]"
    "clean (p2_errors (res_state (resolve_operands il p1 i (layout_size i) 0 (ops i) r)))" "resolved_target r = 0"
  shows "resolution_ok p1 i r (resolve_operands il p1 i (layout_size i) 0 (ops i) r)
    (length (text_bytes (res_state r)))"
proof -
  obtain p where p: "ops i = [p]" "opnd p = OP_LABEL s"
    using assms(2) by (auto simp: op_kinds_def)
  have R: "resolve_operands il p1 i (layout_size i) 0 (ops i) r = resolve_label il p1 i (layout_size i) 0 p s r"
    by (simp add: p resolve_operand_def)
  have rip: "rip_relocations i x = []" for x by (simp add: rip_relocations_def assms(2))
  have known: "symtable_lookup_ex (symtable p1) s = None \<Longrightarrow> symtable_is_external (symtable p1) s"
    using assms(1,3) unfolding R by (auto simp: resolve_label_def Let_def res_fail_def is_mov_reg_label_def split: if_splits)
  show ?thesis
  proof (cases "symtable_lookup_ex (symtable p1) s")
    case None
    then show ?thesis
      using assms known
      by (simp add: R resolution_ok_def resolve_label_def Let_def res_reloc_def push_relocation_def rip branch_disp_def
          instruction_relocs_def symbol_known_def)
  next
    case (Some v)
    obtain t sec where v: "v = (t, sec)" by fastforce
    have "sec = SYMBOL_SECTION_TEXT"
      using assms(1,3) Some v unfolding R by (auto simp: resolve_label_def Let_def res_fail_def split: if_splits)
    then show ?thesis
      using assms(1,3) Some v unfolding R
      by (simp add: resolution_ok_def resolve_label_def Let_def res_fail_def rip branch_disp_def
          instruction_relocs_def assms(2) split: if_splits)
  qed
qed

lemma resolution_mov:
  assumes "opcode i = OPCODE_MOV" "op_kinds i = [OP_REG d, OP_LABEL s]"
    "clean (p2_errors (res_state (resolve_operands il p1 i (layout_size i) 0 (ops i) r)))" "resolved_target r = 0"
  shows "resolution_ok p1 i r (resolve_operands il p1 i (layout_size i) 0 (ops i) r)
    (length (text_bytes (res_state r)))"
proof -
  obtain p q where p: "ops i = [p, q]" "opnd p = OP_REG d" "opnd q = OP_LABEL s"
    using assms(2) by (auto simp: op_kinds_def)
  have R: "resolve_operands il p1 i (layout_size i) 0 (ops i) r = resolve_label il p1 i (layout_size i) 1 q s r"
    by (simp add: p resolve_operand_def)
  have rip: "rip_relocations i x = []" for x by (simp add: rip_relocations_def assms(2))
  have mov: "is_mov_reg_label i (Suc 0)" "\<not> opcode_uses_relative_label OPCODE_MOV"
    using assms(1,2) by (simp_all add: is_mov_reg_label_def opcode_uses_relative_label_def)
  have known: "symbol_known (symtable p1) s"
    using assms(1,3) mov unfolding R
    by (auto simp: resolve_label_def Let_def res_fail_def symbol_known_def split: if_splits option.splits)
  then show ?thesis
    using assms mov unfolding R
    by (auto simp: resolution_ok_def resolve_label_def Let_def res_reloc_def push_relocation_def rip branch_disp_def
        instruction_relocs_def symbol_known_def split: option.splits)
qed

lemma resolution_plain:
  assumes "\<forall>s. OP_LABEL s \<notin> set (op_kinds i)"
    "clean (p2_errors (res_state (resolve_operands il p1 i (layout_size i) 0 (ops i) r)))" "resolved_target r = 0"
  shows "resolution_ok p1 i r (resolve_operands il p1 i (layout_size i) 0 (ops i) r)
    (length (text_bytes (res_state r)))"
proof -
  have "resolve_operands il p1 i (layout_size i) 0 (ops i) r = r"
    and known: "\<And>s. OP_MEM_RIP_LABEL s \<in> set (op_kinds i) \<Longrightarrow> symbol_known (symtable p1) s"
    using resolve_no_labels [OF _ assms(2)] assms(1) by (simp_all add: op_kinds_def)
  moreover have "branch_disp p1 i off = 0" for off
    using assms(1) by (auto simp: branch_disp_def split: list.split Operand.split)
  moreover have rel: "instruction_relocs p1 i off = rip_relocations i (off + layout_size i - 4)" for off
    using assms(1) by (auto simp: instruction_relocs_def split: list.split Operand.split)
  ultimately show ?thesis
    using assms(1,3) by (auto simp: resolution_ok_def rip_relocations_def)
qed

lemma resolution_result:
  assumes "clean (p2_errors (res_state (resolve_operands il p1 i (layout_size i) 0 (ops i) r)))"
    "resolved_target r = 0" "well_formed i" "\<not> enc_error (encoder_encode (opcode i) (op_kinds i) t)"
  shows "resolution_ok p1 i r (resolve_operands il p1 i (layout_size i) 0 (ops i) r)
    (length (text_bytes (res_state r)))"
proof (cases "\<exists>s. OP_LABEL s \<in> set (op_kinds i)")
  case True
  then obtain s where s: "OP_LABEL s \<in> set (op_kinds i)" ..
  then have "\<not> bare_opcode (opcode i)" using assms(3) by (auto simp: well_formed_def op_kinds_def)
  from label_forms [OF assms(4)[unfolded encoder_accepts_iff] this s] show ?thesis
    using resolution_branch resolution_mov assms(1,2) by blast
next
  case False
  then show ?thesis using resolution_plain assms(1,2) by blast
qed

end
