(* ===== verification/Pass2_Correct.thy ===== *)
theory Pass2_Correct
  imports Pass2_Resolve
begin

text \<open>
  The second pass follows the layout: for an instruction that has passed the checks of pass 1,
  and with the room pass 1 has computed, a step never returns early and appends to the current
  section as many bytes as the layout says. While no error is reported, the bytes are those of
  the data directive or of the encoder, and every relocation names a known symbol.
\<close>

section \<open>A step\<close>

text \<open>What an instruction in the text section has resolved when nothing is reported.\<close>

definition resolved :: "Pass1Result \<Rightarrow> SymbolSection \<Rightarrow> nat \<Rightarrow> Instruction \<Rightarrow> bool" where
  "resolved p1 sec off i \<longleftrightarrow>
     (in_text sec i \<longrightarrow> \<not> enc_error (encoding_of p1 i off)
        \<and> (\<forall>s v. opcode_uses_relative_label (opcode i) \<and> op_kinds i = [OP_LABEL s]
             \<and> symtable_lookup_ex (symtable p1) s = Some v \<longrightarrow>
             snd v = SYMBOL_SECTION_TEXT \<and> - (2 ^ 31) \<le> branch_disp p1 i off \<and> branch_disp p1 i off < 2 ^ 31))
     \<and> (\<forall>x \<in> set (step_relocs p1 sec off i). symbol_known (symtable p1) (rel_symbol x))"

definition good_step :: "Pass1Result \<Rightarrow> Pass2State \<Rightarrow> Instruction \<Rightarrow> Pass2State \<Rightarrow> bool" where
  "good_step p1 st i st' \<longleftrightarrow>
     (let sec = p2_section st; off = pass2_section_size st sec in
      pass2_view st' = layout_step (pass2_view st) i
      \<and> emissions st' = emissions st @ [span_of (pass2_view st) i]
      \<and> (\<forall>sec'. sec' \<noteq> sec \<longrightarrow> full_bytes st' sec' = full_bytes st sec')
      \<and> (clean (p2_errors st') \<longrightarrow> p2_errors st' = p2_errors st
           \<and> full_bytes st' sec = full_bytes st sec @ step_code p1 sec off i
           \<and> relocations st' = relocations st @ step_relocs p1 sec off i
           \<and> resolved p1 sec off i))"

lemma put_span_sel [simp]:
  "text_bytes (put_span sec off n st) = text_bytes st" "data_bytes (put_span sec off n st) = data_bytes st"
  "read_only_data_bytes (put_span sec off n st) = read_only_data_bytes st"
  "bss_size (put_span sec off n st) = bss_size st" "p2_section (put_span sec off n st) = p2_section st"
  "p2_errors (put_span sec off n st) = p2_errors st" "relocations (put_span sec off n st) = relocations st"
  "debug_lines (put_span sec off n st) = debug_lines st"
  "emissions (put_span sec off n st) = emissions st @ [\<lparr>em_section = sec, em_offset = off, em_size = n\<rparr>]"
  by (simp_all add: put_span_def)

lemma put_span_size [simp]: "pass2_section_size (put_span sec off n st) sec' = pass2_section_size st sec'"
  by (cases sec') (simp_all add: pass2_section_size_def)

lemma put_span_bytes [simp]: "full_bytes (put_span sec off n st) sec' = full_bytes st sec'"
  by (cases sec') (simp_all add: full_bytes_def)

lemma put_span_view [simp]: "pass2_view (put_span sec off n st) = pass2_view st"
  by (simp add: pass2_view_def fun_eq_iff)

lemma pass2_view_sel [simp]:
  "lay_section (pass2_view st) = p2_section st" "lay_size (pass2_view st) = pass2_section_size st"
  by (simp_all add: pass2_view_def)

text \<open>An instruction or directive that emits nothing.\<close>

lemma skip_step:
  assumes "section_switch (directive_kind i) = None" "contribution (p2_section st) (pass2_section_size st (p2_section st)) i = 0"
    "\<not> in_text (p2_section st) i" "step_code p1 (p2_section st) (pass2_section_size st (p2_section st)) i = []"
    "step_relocs p1 (p2_section st) (pass2_section_size st (p2_section st)) i = []"
    "same_output st st'" "p2_errors st' = p2_errors st" "relocations st' = relocations st"
  shows "good_step p1 st i (pass2_skip st')"
proof -
  have l: "layout_step (pass2_view st) i = pass2_view st" using assms(1,2) no_contribution by simp
  have s: "p2_section st' = p2_section st" "emissions st' = emissions st" using assms(6) by (simp_all add: same_output_def)
  show ?thesis
    using assms l s same_output_size [OF assms(6)] same_output_bytes [OF assms(6)] same_output_view [OF assms(6)]
    by (simp add: good_step_def pass2_skip_def Let_def span_of_def resolved_def)
qed

lemma pass2_switch_step:
  assumes "section_switch (directive_kind i) = Some sec"
  shows "good_step p1 st i (pass2_switch st sec)"
proof -
  note f = switch_facts [OF assms]
  have nc: "\<not> in_text s i" "\<not> in_data s i" for s using f by (auto simp: in_text_def in_data_def)
  have size: "pass2_section_size (st\<lparr>p2_section := sec\<rparr>) s = pass2_section_size st s" for s
    by (cases s) (simp_all add: pass2_section_size_def)
  have bytes: "full_bytes (st\<lparr>p2_section := sec\<rparr>) s = full_bytes st s" for s
    by (cases s) (simp_all add: full_bytes_def)
  have view: "pass2_view (st\<lparr>p2_section := sec\<rparr>) = layout_step (pass2_view st) i"
    using assms size by (simp add: layout_step_def pass2_view_def fun_eq_iff)
  show ?thesis
    using assms nc view
    by (simp add: good_step_def pass2_switch_def Let_def span_of_def bytes resolved_def step_code_def step_relocs_def)
qed

text \<open>Appending to the current section as many bytes as the layout says.\<close>

definition append_bytes :: "SymbolSection \<Rightarrow> u8 list \<Rightarrow> Pass2State \<Rightarrow> Pass2State" where
  "append_bytes sec code st = (case sec of
     SYMBOL_SECTION_TEXT \<Rightarrow> st\<lparr>text_bytes := text_bytes st @ code\<rparr>
   | SYMBOL_SECTION_DATA \<Rightarrow> st\<lparr>data_bytes := data_bytes st @ code\<rparr>
   | SYMBOL_SECTION_READ_ONLY_DATA \<Rightarrow> st\<lparr>read_only_data_bytes := read_only_data_bytes st @ code\<rparr>
   | _ \<Rightarrow> st)"

definition loaded :: "SymbolSection \<Rightarrow> bool" where
  "loaded sec \<longleftrightarrow> sec \<in> {SYMBOL_SECTION_TEXT, SYMBOL_SECTION_DATA, SYMBOL_SECTION_READ_ONLY_DATA}"

lemma append_bytes_sel:
  assumes "loaded sec"
  shows "pass2_section_size (append_bytes sec code st) sec' =
      pass2_section_size st sec' + (if sec' = sec then length code else 0)"
    "full_bytes (append_bytes sec code st) sec' = full_bytes st sec' @ (if sec' = sec then code else [])"
    "p2_section (append_bytes sec code st) = p2_section st" "p2_errors (append_bytes sec code st) = p2_errors st"
    "relocations (append_bytes sec code st) = relocations st" "emissions (append_bytes sec code st) = emissions st"
  using assms
  by (cases sec; cases sec'; simp add: append_bytes_def pass2_section_size_def full_bytes_def loaded_def)+

lemma append_step:
  assumes "section_switch (directive_kind i) = None" "loaded (p2_section st)" "same_output st st'"
    "off = pass2_section_size st (p2_section st)"
    "length code = contribution (p2_section st) off i"
    "clean (p2_errors st') \<Longrightarrow> p2_errors st' = p2_errors st \<and> code = step_code p1 (p2_section st) off i
       \<and> relocations st' = relocations st @ step_relocs p1 (p2_section st) off i \<and> resolved p1 (p2_section st) off i"
  shows "good_step p1 st i (put_span (p2_section st) off (length code) (append_bytes (p2_section st) code st'))"
proof -
  note sel = append_bytes_sel [OF assms(2)]
  have s: "p2_section st' = p2_section st" "emissions st' = emissions st" using assms(3) by (simp_all add: same_output_def)
  have view: "pass2_view (append_bytes (p2_section st) code st') = layout_step (pass2_view st) i"
    using assms(1,5) by (simp add: pass2_view_def layout_step_def Let_def sel fun_eq_iff same_output_size [OF assms(3)] s
        flip: assms(4))
  have span: "span_of (pass2_view st) i = \<lparr>em_section = p2_section st, em_offset = off, em_size = length code\<rparr>"
    using assms(1,2,5) by (auto simp: span_of_def Let_def loaded_def simp flip: assms(4))
  show ?thesis
    unfolding good_step_def Let_def
    using assms(6) by (simp add: view span sel s same_output_bytes [OF assms(3)] flip: assms(4))
qed

lemma pass2_instruction_step:
  assumes "directive_kind i = DIRECTIVE_NONE" "well_formed i" "room p1 (layout_step (pass2_view st) i)"
  shows "\<exists>st'. pass2_instruction il p1 st i = Inr st' \<and> good_step p1 st i st'"
proof (cases "opcode i = OPCODE_INVALID \<or> p2_section st \<noteq> SYMBOL_SECTION_TEXT")
  case True
  have "good_step p1 st i (pass2_skip st)"
    using True assms(1)
    by (intro skip_step) (auto simp: section_switch_def contribution_def in_text_def step_code_def in_data_def
        step_relocs_def is_data_directive_def)
  then show ?thesis using True by (simp add: pass2_instruction_def)
next
  case False
  then have sec: "p2_section st = SYMBOL_SECTION_TEXT" and opc: "opcode i \<noteq> OPCODE_INVALID" by simp_all
  define off where "off = length (text_bytes st)"
  define r where "r = \<lparr>res_state = note_debug_line st, resolved_target = 0, resolution_error = False\<rparr>"
  define R where "R = resolve_operands il p1 i (layout_size i) 0 (ops i) r"
  have size: "pass2_section_size st SYMBOL_SECTION_TEXT = off" by (simp add: pass2_section_size_def off_def)
  have con: "contribution SYMBOL_SECTION_TEXT off i = layout_size i" for off
    using assms(1) opc by (simp add: contribution_def)
  have sw: "section_switch (directive_kind i) = None" using assms(1) by (simp add: section_switch_def)
  have "lay_size (layout_step (pass2_view st) i) SYMBOL_SECTION_TEXT = off + layout_size i"
    by (simp add: layout_step_def sw sec con Let_def size)
  moreover have "lay_size (layout_step (pass2_view st) i) SYMBOL_SECTION_TEXT \<le> capacity_of p1 SYMBOL_SECTION_TEXT"
    using assms(3) by (simp add: room_def)
  ultimately have cap: "off + layout_size i \<le> p1_text_size p1" by (simp add: capacity_of_def)
  have "same_output st (res_state r)" by (simp add: r_def note_debug_line_same)
  then have same: "same_output st (res_state R)"
    unfolding R_def by (rule same_output_trans) (rule resolve_operands_same)
  then have tb: "text_bytes (res_state R) = text_bytes st" by (simp add: same_output_def)
  have step: "pass2_instruction il p1 st i =
      (if resolution_error R then pass2_pad il p1 (res_state R) i (layout_size i)
       else pass2_encode il p1 (res_state R) i (layout_size i) (resolved_target R))"
    using False by (simp add: pass2_instruction_def R_def r_def Let_def)
  have it: "in_text SYMBOL_SECTION_TEXT i" using assms(1) opc by (simp add: in_text_def)
  have fin: "good_step p1 st i (put_span SYMBOL_SECTION_TEXT off (layout_size i) (st'\<lparr>text_bytes := text_bytes st @ code\<rparr>))"
    if "same_output st st'" "length code = layout_size i"
      "clean (p2_errors st') \<Longrightarrow> p2_errors st' = p2_errors st \<and> code = enc_bytes (encoding_of p1 i off)
         \<and> relocations st' = relocations st @ instruction_relocs p1 i off \<and> resolved p1 SYMBOL_SECTION_TEXT off i"
    for st' code
    using append_step [OF sw _ that(1), of off code p1] that it
    by (simp add: sec loaded_def size con step_code_def step_relocs_def append_bytes_def same_output_def)
  show ?thesis
  proof (cases "resolution_error R")
    case True
    then have "\<not> clean (p2_errors (res_state R))" unfolding R_def by (rule resolve_fresh_clean) (simp add: r_def)
    then show ?thesis
      using True pass2_pad_ok [of "res_state R" "layout_size i" p1 il i] cap fin [OF same, of "replicate (layout_size i) 0x90"]
      by (simp add: step tb flip: off_def)
  next
    case F: False
    obtain st' code where st': "pass2_encode il p1 (res_state R) i (layout_size i) (resolved_target R) =
        Inr (put_span SYMBOL_SECTION_TEXT off (layout_size i) (st'\<lparr>text_bytes := text_bytes st @ code\<rparr>))"
      and e: "encoded_step p1 (res_state R) i (resolved_target R) st' code"
      using pass2_encode_ok [OF assms(2), of "res_state R" p1 il "resolved_target R"] cap
      by (auto simp: tb off_def)
    have cl: "p2_errors st' = p2_errors st \<and> code = enc_bytes (encoding_of p1 i off)
         \<and> relocations st' = relocations st @ instruction_relocs p1 i off \<and> resolved p1 SYMBOL_SECTION_TEXT off i"
      if c: "clean (p2_errors st')"
    proof -
      note e' = e [unfolded encoded_step_def, THEN conjunct2, THEN conjunct2, THEN mp, OF c]
      have cr: "clean (p2_errors (res_state R))" using e' c by simp
      have r: "resolved_target r = 0" "length (text_bytes (res_state r)) = off"
        using note_debug_line_same(1) [of st] by (simp_all add: r_def off_def same_output_def)
      have ok: "resolution_ok p1 i r R off"
        using resolution_result [OF cr [unfolded R_def] r(1) assms(2)] e' unfolding R_def [symmetric] r(2) by blast
      have es: "p2_errors (res_state R) = p2_errors st"
        using resolve_operands_clean [OF cr [unfolded R_def]] by (simp add: R_def r_def note_debug_line_same)
      show ?thesis
        using e' ok it es
        by (simp add: resolution_ok_def encoding_of_def resolved_def step_relocs_def r_def note_debug_line_same tb
            flip: off_def) blast
    qed
    show ?thesis
      using st' fin [of st' code] cl e same_output_trans [OF same, of st'] F
      by (simp add: step encoded_step_def)
  qed
qed


lemma data_section_step:
  assumes "in_data (p2_section st) i" "valid_data i" "well_formed i" "room p1 (layout_step (pass2_view st) i)"
  shows "\<exists>st'. pass2_data il p1 st i = Inr st' \<and> good_step p1 st i st'"
proof -
  define sec where "sec = p2_section st"
  define off where "off = pass2_section_size st sec"
  have d: "is_data_directive (directive_kind i)"
    and sec: "sec = SYMBOL_SECTION_DATA \<or> sec = SYMBOL_SECTION_READ_ONLY_DATA"
    using assms(1) by (simp_all add: in_data_def sec_def)
  have size: "data_directive_size_at i off = int (length (data_image i off))"
    using data_size_image [OF d assms(2)] assms(3) by (simp add: well_formed_def)
  have con: "contribution sec off i = length (data_image i off)"
    using d sec size data_not_switch [OF d] by (auto simp: contribution_def)
  define st1 where "st1 = (if directive_kind i = DIRECTIVE_INT64
      then data_relocations il p1 i sec off 0 (ops i) st else st)"
  have same: "same_output st st1" by (simp add: st1_def data_relocations_same)
  have bytes: "pass2_section_bytes st1 sec = full_bytes st sec" "length (full_bytes st sec) = off"
    "put_section_bytes sec (full_bytes st sec @ bs) st1 = append_bytes sec bs st1" for bs
    using sec same by (auto simp: pass2_section_bytes_def full_bytes_def pass2_section_size_def put_section_bytes_def
        append_bytes_def same_output_def off_def)
  have "lay_size (layout_step (pass2_view st) i) sec = off + length (data_image i off)"
    using data_not_switch [OF d] con by (simp add: layout_step_def Let_def sec_def off_def)
  then have "off + length (data_image i off) \<le> pass2_section_capacity p1 sec"
    using assms(4) sec unfolding room_def
    by (metis capacity_of_def pass2_section_capacity_def SymbolSection.simps(23,24) SymbolSection.distinct(13))
  then have emit: "emit_data_directive i (full_bytes st sec) (pass2_section_capacity p1 sec) =
      (True, full_bytes st sec @ data_image i off)"
    using emit_data_image [OF d assms(2), of "full_bytes st sec"] bytes(2) by simp
  have load: "loaded sec" using sec by (auto simp: loaded_def)
  define st' where "st' = put_span sec off (length (data_image i off)) (append_bytes sec (data_image i off) st1)"
  have ne: "sec \<noteq> SYMBOL_SECTION_TEXT" "sec \<noteq> SYMBOL_SECTION_BSS" using sec by auto
  have off1: "pass2_section_size (append_bytes sec bs st1) sec = off + length bs" for bs
    using append_bytes_sel(1) [OF load, of bs st1 sec] same_output_size [OF same, of sec] by (simp add: off_def)
  have step: "pass2_data il p1 st i = Inr st'"
    unfolding pass2_data_def Let_def sec_def [symmetric] off_def [symmetric] st1_def [symmetric]
    by (simp add: ne size bytes(1) emit bytes(3) off1 st'_def)
  have nt: "\<not> in_text sec i" using d data_not_switch [OF d] by (simp add: in_text_def)
  have id: "in_data sec i" using assms(1) sec_def by simp
  have "good_step p1 st i st'"
    unfolding st'_def sec_def
  proof (rule append_step [OF _ load [unfolded sec_def] same])
    show "section_switch (directive_kind i) = None" using data_not_switch [OF d] by simp
    show "off = pass2_section_size st (p2_section st)" by (simp add: off_def sec_def)
    show "length (data_image i off) = contribution (p2_section st) off i" using con sec_def by simp
    show "p2_errors st1 = p2_errors st \<and> data_image i off = step_code p1 (p2_section st) off i
       \<and> relocations st1 = relocations st @ step_relocs p1 (p2_section st) off i \<and> resolved p1 (p2_section st) off i"
      if c: "clean (p2_errors st1)"
    proof (cases "directive_kind i = DIRECTIVE_INT64")
      case False
      then show ?thesis using nt id by (simp add: st1_def step_code_def step_relocs_def resolved_def sec_def)
    next
      case True
      have rel: "st1 = st\<lparr>relocations := relocations st @ symbol_fields sec off 0 (op_kinds i)\<rparr>"
        and known: "\<And>s. OP_LABEL s \<in> set (op_kinds i) \<Longrightarrow> symbol_known (symtable p1) s"
        using data_relocations_clean [of il p1 i sec off 0 "ops i" st] c True by (simp_all add: st1_def op_kinds_def)
      have "rel_symbol x \<in> {s. OP_LABEL s \<in> set ps}" if "x \<in> set (symbol_fields sec off k ps)" for x k ps
        using that by (induction ps arbitrary: k) (auto split: Operand.splits)
      then show ?thesis
        using known nt id True by (simp add: rel step_code_def step_relocs_def resolved_def sec_def)
    qed
  qed
  then show ?thesis using step by blast
qed

lemma bss_step:
  assumes "is_data_directive (directive_kind i)" "p2_section st = SYMBOL_SECTION_BSS" "valid_data i" "well_formed i"
  shows "\<exists>st'. pass2_data il p1 st i = Inr st' \<and> good_step p1 st i st'"
proof -
  define off where "off = bss_size st"
  have size: "data_directive_size_at i off = int (length (data_image i off))"
    using data_size_image [OF assms(1,3)] assms(4) by (simp add: well_formed_def)
  have off: "pass2_section_size st SYMBOL_SECTION_BSS = off" by (simp add: pass2_section_size_def off_def)
  define st' where "st' = put_span SYMBOL_SECTION_BSS off 0 (st\<lparr>bss_size := off + length (data_image i off)\<rparr>)"
  have step: "pass2_data il p1 st i = Inr st'"
    using size by (simp add: pass2_data_def Let_def assms(2) off st'_def off_def)
  have sw: "section_switch (directive_kind i) = None" "directive_kind i \<noteq> DIRECTIVE_NONE"
    using data_not_switch [OF assms(1)] by simp_all
  have con: "contribution SYMBOL_SECTION_BSS off i = length (data_image i off)"
    using assms(1) sw size by (simp add: contribution_def)
  have sz: "pass2_section_size (st\<lparr>bss_size := n\<rparr>) s = (if s = SYMBOL_SECTION_BSS then n else pass2_section_size st s)" for n s
    by (cases s) (simp_all add: pass2_section_size_def)
  have byt: "full_bytes (st\<lparr>bss_size := n\<rparr>) s = full_bytes st s" for n s
    by (cases s) (simp_all add: full_bytes_def)
  have view: "pass2_view st' = layout_step (pass2_view st) i"
    using sw con by (simp add: st'_def pass2_view_def layout_step_def Let_def fun_eq_iff sz off assms(2))
  have no: "\<not> in_text SYMBOL_SECTION_BSS i" "\<not> in_data SYMBOL_SECTION_BSS i"
    by (simp_all add: in_text_def in_data_def)
  have "good_step p1 st i st'"
    using view sw no
    by (simp add: good_step_def Let_def assms(2) off span_of_def step_code_def step_relocs_def resolved_def)
      (simp add: st'_def byt)
  then show ?thesis using step by blast
qed


lemma pass2_step_good:
  assumes "p2_section st \<noteq> SYMBOL_SECTION_UNKNOWN" "checked (p2_section st) i" "well_formed i"
    "room p1 (layout_step (pass2_view st) i)"
  shows "\<exists>st'. pass2_step il p1 st i = Inr st' \<and> good_step p1 st i st'"
proof (cases "directive_kind i = DIRECTIVE_NONE")
  case True
  then show ?thesis using pass2_instruction_step [OF True assms(3,4)] by (simp add: pass2_step_def)
next
  case False
  then have step: "pass2_step il p1 st i = pass2_directive il p1 st i" by (simp add: pass2_step_def)
  have data: ?thesis if "is_data_directive (directive_kind i)"
  proof -
    have c: "p2_section st \<noteq> SYMBOL_SECTION_TEXT" "valid_data i" using that assms(2) by (auto simp: checked_def)
    have "pass2_directive il p1 st i = pass2_data il p1 st i"
      using that by (auto simp: pass2_directive_def is_data_directive_def)
    then show ?thesis
      using that c assms(1,3,4) bss_step [OF that _ c(2) assms(3)] data_section_step [OF _ c(2) assms(3,4)]
      unfolding step in_data_def by (cases "p2_section st") auto
  qed
  have quiet: "good_step p1 st i (pass2_skip st')"
    if "\<not> is_data_directive (directive_kind i)" "section_switch (directive_kind i) = None" "same_output st st'"
      "p2_errors st' = p2_errors st" "relocations st' = relocations st" for st'
    using that False
    by (intro skip_step) (auto simp: contribution_def in_text_def step_code_def in_data_def step_relocs_def)
  have location: "\<exists>st'. pass2_location st i = pass2_skip st' \<and> same_output st st' \<and> p2_errors st' = p2_errors st
      \<and> relocations st' = relocations st"
    by (auto simp: pass2_location_def same_output_def split: list.split Operand.split)
  show ?thesis
  proof (cases "is_data_directive (directive_kind i)")
    case True
    then show ?thesis by (rule data)
  next
    case nd: False
    note quiet = quiet [OF nd]
    show ?thesis
    proof (cases "section_switch (directive_kind i)")
      case (Some sec)
      then have "pass2_directive il p1 st i = Inr (pass2_switch st sec)"
        by (cases "directive_kind i") (simp_all add: section_switch_def pass2_directive_def)
      then show ?thesis using pass2_switch_step [OF Some] step by simp
    next
      case None
      note quiet = quiet [OF None]
      show ?thesis
      proof (cases "directive_kind i = DIRECTIVE_DEBUG_LOCATION")
        case True
        then show ?thesis using location quiet step by (auto simp: pass2_directive_def)
      next
        case nl: False
        have "pass2_directive il p1 st i = Inr (pass2_skip st)"
          using False nd None nl assms(2)
          by (cases "directive_kind i")
            (simp_all add: pass2_directive_def section_switch_def is_data_directive_def checked_def)
        then show ?thesis using quiet [of st] step by simp
      qed
    qed
  qed
qed

section \<open>The walk\<close>

definition pass2_next :: "InstructionList \<Rightarrow> Pass1Result \<Rightarrow> Pass2State \<Rightarrow> Instruction \<Rightarrow> Pass2State" where
  "pass2_next il p1 st i = (case pass2_step il p1 st i of Inl st' \<Rightarrow> st' | Inr st' \<Rightarrow> st')"

definition ready :: "Pass1Result \<Rightarrow> Pass2State \<Rightarrow> Instruction \<Rightarrow> bool" where
  "ready p1 st i \<longleftrightarrow> p2_section st \<noteq> SYMBOL_SECTION_UNKNOWN \<and> checked (p2_section st) i \<and> well_formed i
     \<and> room p1 (layout_step (pass2_view st) i)"

lemma pass2_next_good:
  assumes "ready p1 st i"
  shows "pass2_step il p1 st i = Inr (pass2_next il p1 st i) \<and> good_step p1 st i (pass2_next il p1 st i)"
  using pass2_step_good [of st i p1 il] assms by (auto simp: ready_def pass2_next_def)

interpretation pass2: layout_pass pass2_view "pass2_next il p1" "ready p1" for il p1
  by unfold_locales (use pass2_next_good in \<open>simp add: good_step_def Let_def\<close>)

lemma pass2_loop_next:
  assumes "\<And>js i ks. is = js @ i # ks \<Longrightarrow> ready p1 (foldl (pass2_next il p1) st js) i"
  shows "pass2_loop il p1 st is = Inr (foldl (pass2_next il p1) st is)"
  using assms
proof (induction "is" arbitrary: st)
  case (Cons i "is")
  have "ready p1 st i" using Cons.prems [of "[]" i "is"] by simp
  moreover have "ready p1 (foldl (pass2_next il p1) (pass2_next il p1 st i) js) j" if "is = js @ j # ks" for js j ks
    using Cons.prems [of "i # js" j ks] that by simp
  ultimately show ?case using pass2_next_good [of p1 st i il] Cons.IH by simp
qed simp

text \<open>What is emitted, from a layout on.\<close>

fun spans_from :: "Layout \<Rightarrow> Instruction list \<Rightarrow> EmissionSpan list" where
  "spans_from l [] = []"
| "spans_from l (i # is) = span_of l i # spans_from (layout_step l i) is"

definition here :: "Layout \<Rightarrow> nat" where "here l = lay_size l (lay_section l)"

fun image_from :: "Pass1Result \<Rightarrow> SymbolSection \<Rightarrow> Layout \<Rightarrow> Instruction list \<Rightarrow> u8 list" where
  "image_from p1 sec l [] = []"
| "image_from p1 sec l (i # is) =
     (if lay_section l = sec then step_code p1 sec (here l) i else []) @ image_from p1 sec (layout_step l i) is"

fun relocs_from :: "Pass1Result \<Rightarrow> Layout \<Rightarrow> Instruction list \<Rightarrow> Relocation list" where
  "relocs_from p1 l [] = []"
| "relocs_from p1 l (i # is) = step_relocs p1 (lay_section l) (here l) i @ relocs_from p1 (layout_step l i) is"

lemma from_snoc:
  "spans_from l (is @ [i]) = spans_from l is @ [span_of (foldl layout_step l is) i]"
  "image_from p1 sec l (is @ [i]) = image_from p1 sec l is @
     (if lay_section (foldl layout_step l is) = sec then step_code p1 sec (here (foldl layout_step l is)) i else [])"
  "relocs_from p1 l (is @ [i]) = relocs_from p1 l is @
     step_relocs p1 (lay_section (foldl layout_step l is)) (here (foldl layout_step l is)) i"
  by (induction "is" arbitrary: l) auto

lemma length_spans [simp]: "length (spans_from l is) = length is"
  by (induction "is" arbitrary: l) auto

definition emitted :: "Pass1Result \<Rightarrow> Instruction list \<Rightarrow> Pass2State \<Rightarrow> bool" where
  "emitted p1 is st \<longleftrightarrow> emissions st = spans_from layout_start is
     \<and> (clean (p2_errors st) \<longrightarrow>
          (\<forall>sec. loaded sec \<longrightarrow> full_bytes st sec = image_from p1 sec layout_start is)
          \<and> relocations st = relocs_from p1 layout_start is
          \<and> (\<forall>js i ks. is = js @ i # ks \<longrightarrow> resolved p1 (lay_section (layout_of js)) (here (layout_of js)) i))"

lemma emitted_run:
  assumes "pass2_view st0 = layout_start" "emitted p1 [] st0"
    "\<And>js i ks. is = js @ i # ks \<Longrightarrow> ready p1 (foldl (pass2_next il p1) st0 js) i"
  shows "emitted p1 is (foldl (pass2_next il p1) st0 is)"
  using assms(3)
proof (induction "is" rule: rev_induct)
  case Nil
  then show ?case using assms(2) by simp
next
  case (snoc i "is")
  let ?st = "foldl (pass2_next il p1) st0 is" and ?l = "layout_of is"
  have prev: "emitted p1 is ?st" using snoc by (metis append.assoc append_Cons)
  have r: "ready p1 ?st i" using snoc(2) [of "is" i "[]"] by simp
  have view: "pass2_view ?st = ?l"
    by (rule pass2.run_prefix [OF assms(1) snoc(2)]) simp_all
  then have sec: "p2_section ?st = lay_section ?l" "pass2_section_size ?st = lay_size ?l"
    by (metis pass2_view_sel(1), metis pass2_view_sel(2))
  have good: "good_step p1 ?st i (pass2_next il p1 ?st i)" using pass2_next_good [OF r] by blast
  note g = good [unfolded good_step_def Let_def sec view here_def [symmetric]]
  have "resolved p1 (lay_section (layout_of js)) (here (layout_of js)) j"
    if "clean (p2_errors (pass2_next il p1 ?st i))" "is @ [i] = js @ j # ks" for js j ks
  proof (cases ks rule: rev_cases)
    case Nil
    then show ?thesis using that g by (auto simp: emitted_def)
  next
    case (snoc ks' k)
    then have "is = js @ j # ks'" using that(2) by simp
    then show ?thesis using that g prev by (auto simp: emitted_def)
  qed
  then show ?case
    using g prev by (auto simp: emitted_def from_snoc simp flip: layout_of_def)
qed

end
