(* ===== verification/Passes.thy ===== *)
theory Passes
  imports Pass2_Correct Encoder_Theorems
begin

text \<open>
  The two passes together: the facts about a source that pass 1 accepts, for every instruction of
  it at its place, and from them the output of pass 2.
\<close>

section \<open>A source pass 1 accepts\<close>

definition accepted_source :: "InstructionList \<Rightarrow> bool" where
  "accepted_source il \<longleftrightarrow> clean (p1_errors (pass1_run il)) \<and> (\<forall>i \<in> set (instrs il). well_formed i)"

lemma pass1_run_clean:
  assumes "clean (p1_errors (pass1_run il))"
  shows "clean (p1_errs (pass1_walk il (instrs il)))"
  using assms location_files_clean report_clean by (fastforce simp: pass1_run_def Let_def)

lemma pass1_sections:
  assumes "clean (p1_errors (pass1_run il))"
  shows "capacity_of (pass1_run il) = lay_size (layout_of (instrs il))"
    "symtable (pass1_run il) = symtable_run (declarations (instrs il))"
proof -
  note c = pass1_run_clean [OF assms]
  have "capacity_of (pass1_run il) = lay_size (pass1_view (pass1_walk il (instrs il)))"
  proof
    fix sec
    show "capacity_of (pass1_run il) sec = lay_size (pass1_view (pass1_walk il (instrs il))) sec"
      by (cases sec) (simp_all add: capacity_of_def pass1_run_def Let_def pass1_view_def pass1_section_offset_def)
  qed
  then show "capacity_of (pass1_run il) = lay_size (layout_of (instrs il))"
    by (simp add: pass1_walk_view [OF c])
  show "symtable (pass1_run il) = symtable_run (declarations (instrs il))"
    using pass1_walk_table [OF c] by (simp add: pass1_run_def Let_def)
qed

lemma walk_clean_step:
  assumes "clean (p1_errors (pass1_run il))" "instrs il = js @ i # ks"
  shows "clean_step (pass1_walk il js) i (pass1_step il (pass1_walk il js) i)"
    "pass1_view (pass1_walk il js) = layout_of js"
    "p1_table (pass1_walk il js) = symtable_run (declarations js)"
proof -
  have c: "clean (p1_errs (pass1_walk il (js @ [i] @ ks)))" using pass1_run_clean [OF assms(1)] assms(2) by simp
  have ci: "clean (p1_errs (pass1_walk il (js @ [i])))"
    by (rule pass1_walk_clean_prefix [of il "js @ [i]" ks]) (use c in simp)
  have cj: "clean (p1_errs (pass1_walk il js))" by (rule pass1_walk_clean_prefix [OF c])
  show "clean_step (pass1_walk il js) i (pass1_step il (pass1_walk il js) i)"
    by (rule pass1_step_clean) (use ci pass1_walk_known in \<open>simp_all add: pass1_walk_snoc\<close>)
  show "pass1_view (pass1_walk il js) = layout_of js" by (rule pass1_walk_view [OF cj])
  show "p1_table (pass1_walk il js) = symtable_run (declarations js)" by (rule pass1_walk_table [OF cj])
qed

lemma source_checked:
  assumes "clean (p1_errors (pass1_run il))" "instrs il = js @ i # ks"
  shows "checked (lay_section (layout_of js)) i"
  using walk_clean_step [OF assms] by (metis clean_step_def pass1_view_sel(1))

text \<open>Every declaration of an accepted source was accepted, at its address.\<close>

lemma source_declared:
  assumes "clean (p1_errors (pass1_run il))" "instrs il = js @ i # ks"
  shows "accepted_by (symtable_run (declarations js)) (declares (lay_section (layout_of js)) (here (layout_of js)) i)
    (symtable_run (declarations js @ declares (lay_section (layout_of js)) (here (layout_of js)) i))"
proof -
  note w = walk_clean_step [OF assms]
  have sec: "current_section (pass1_walk il js) = lay_section (layout_of js)" using w(2) by (metis pass1_view_sel(1))
  have "accepted_by (symtable_run (declarations js)) (declares (lay_section (layout_of js)) (here (layout_of js)) i)
      (p1_table (pass1_step il (pass1_walk il js) i))"
    using w(1) by (simp add: clean_step_def sec w(2,3) here_def)
  then show ?thesis using accepted_by_run(1) by metis
qed

section \<open>The second pass over it\<close>

lemma pass2_start_view: "pass2_view (pass2_start il) = layout_start"
  by (auto simp: pass2_view_def pass2_start_def layout_start_def pass2_section_size_def fun_eq_iff
      split: SymbolSection.split)

lemma source_ready:
  assumes "accepted_source il" "instrs il = js @ i # ks"
  shows "ready (pass1_run il) (foldl (pass2_next il (pass1_run il)) (pass2_start il) js) i"
  using assms(2)
proof (induction "length js" arbitrary: js i ks rule: less_induct)
  case less
  let ?p1 = "pass1_run il"
  have c: "clean (p1_errors ?p1)" using assms(1) by (simp add: accepted_source_def)
  have view: "pass2_view (foldl (pass2_next il ?p1) (pass2_start il) js) = layout_of js"
  proof (rule pass2.run_view [OF pass2_start_view])
    fix js' i' ks' assume js: "js = js' @ i' # ks'"
    then show "ready ?p1 (foldl (pass2_next il ?p1) (pass2_start il) js') i'"
      using less.hyps [of js' i' "ks' @ i # ks"] less.prems by simp
  qed
  then have sec: "p2_section (foldl (pass2_next il ?p1) (pass2_start il) js) = lay_section (layout_of js)"
    by (metis pass2_view_sel(1))
  have "room ?p1 (layout_step (layout_of js) i)"
    unfolding room_def pass1_sections(1) [OF c] layout_of_snoc [symmetric]
    using layout_mono [of "js @ [i]" _ ks] less.prems by simp
  then show ?case
    using layout_section_known [of js] source_checked [OF c less.prems] assms(1) less.prems
    by (simp add: ready_def view sec accepted_source_def)
qed

text \<open>The result of pass 2 on an accepted source.\<close>

abbreviation (input) second :: "InstructionList \<Rightarrow> Pass2State" where
  "second il \<equiv> foldl (pass2_next il (pass1_run il)) (pass2_start il) (instrs il)"

lemma second_facts:
  assumes "accepted_source il"
  shows "pass2_loop il (pass1_run il) (pass2_start il) (instrs il) = Inr (second il)"
    "pass2_view (second il) = layout_of (instrs il)" "emitted (pass1_run il) (instrs il) (second il)"
proof -
  note ready = source_ready [OF assms]
  show "pass2_loop il (pass1_run il) (pass2_start il) (instrs il) = Inr (second il)"
    by (rule pass2_loop_next [OF ready])
  show "pass2_view (second il) = layout_of (instrs il)" by (rule pass2.run_view [OF pass2_start_view ready])
  have "emitted (pass1_run il) [] (pass2_start il)"
    by (simp add: emitted_def pass2_start_def full_bytes_def split: SymbolSection.split)
  then show "emitted (pass1_run il) (instrs il) (second il)" by (rule emitted_run [OF pass2_start_view _ ready])
qed

lemma pass2_run_second:
  assumes "accepted_source il"
  shows "pass2_totals il (pass1_run il) (second il) = second il"
    "pass2_run il (pass1_run il) = Pass2Result.truncate (second il)"
proof -
  note f = second_facts [OF assms]
  have c: "clean (p1_errors (pass1_run il))" using assms by (simp add: accepted_source_def)
  have "pass2_section_size (second il) = capacity_of (pass1_run il)"
    unfolding pass1_sections(1) [OF c] using f(2) by (metis pass2_view_sel(2))
  then have "pass2_section_size (second il) sec = capacity_of (pass1_run il) sec" for sec by simp
  from this [of SYMBOL_SECTION_TEXT] this [of SYMBOL_SECTION_DATA] this [of SYMBOL_SECTION_READ_ONLY_DATA]
    this [of SYMBOL_SECTION_BSS]
  show t: "pass2_totals il (pass1_run il) (second il) = second il"
    by (simp add: pass2_totals_def pass2_section_size_def capacity_of_def)
  have "length (emissions (second il)) = length (instrs il)" using f(3) by (simp add: emitted_def)
  then show "pass2_run il (pass1_run il) = Pass2Result.truncate (second il)"
    by (simp add: pass2_run_def f(1) t Let_def pad_spans_def)
qed


section \<open>Places\<close>

lemma split_at: "k < length is \<Longrightarrow> is = take k is @ is ! k # drop (Suc k) is"
  by (rule id_take_nth_drop)

lemma truncate_sel [simp]:
  "text_bytes (Pass2Result.truncate st) = text_bytes st" "data_bytes (Pass2Result.truncate st) = data_bytes st"
  "read_only_data_bytes (Pass2Result.truncate st) = read_only_data_bytes st"
  "bss_size (Pass2Result.truncate st) = bss_size st" "emissions (Pass2Result.truncate st) = emissions st"
  "relocations (Pass2Result.truncate st) = relocations st" "p2_errors (Pass2Result.truncate st) = p2_errors st"
  "debug_lines (Pass2Result.truncate st) = debug_lines st"
  by (simp_all add: Pass2Result.truncate_def)

lemma truncate_bytes [simp]:
  "full_bytes (Pass2Result.truncate st) sec = full_bytes st sec"
  "pass2_section_size (Pass2Result.truncate st) sec = pass2_section_size st sec"
  by (cases sec; simp add: full_bytes_def pass2_section_size_def)+

lemma spans_nth:
  "k < length is \<Longrightarrow> spans_from l is ! k = span_of (foldl layout_step l (take k is)) (is ! k)"
proof (induction "is" arbitrary: l k)
  case (Cons i "is")
  then show ?case by (cases k) simp_all
qed simp

lemma image_append:
  "image_from p1 sec l (is @ js) = image_from p1 sec l is @ image_from p1 sec (foldl layout_step l is) js"
  by (induction "is" arbitrary: l) auto

lemma span_plain:
  assumes "section_switch (directive_kind i) = None"
  shows "span_of l i = \<lparr>em_section = lay_section l, em_offset = here l,
     em_size = (if lay_section l = SYMBOL_SECTION_BSS then 0 else contribution (lay_section l) (here l) i)\<rparr>"
  using assms no_contribution [OF assms, of l]
  by (auto simp: span_of_def Let_def here_def layout_step_def)

lemma here_layout_step:
  assumes "section_switch (directive_kind i) = None"
  shows "lay_size (layout_step l i) = (lay_size l)(lay_section l := here l + contribution (lay_section l) (here l) i)"
  using assms by (simp add: layout_step_def here_def Let_def)


section \<open>The bytes of an instruction at its place\<close>

lemma step_code_length:
  assumes "checked sec i" "well_formed i" "resolved p1 sec off i" "loaded sec"
  shows "length (step_code p1 sec off i) = contribution sec off i"
proof (cases "in_text sec i")
  case True
  then have "\<not> enc_error (encoding_of p1 i off)" using assms(3) by (simp add: resolved_def)
  then show ?thesis
    using True layout_size_enc [of i] by (simp add: step_code_def encoding_of_def contribution_def in_text_def)
next
  case nt: False
  show ?thesis
  proof (cases "is_data_directive (directive_kind i)")
    case True
    have sec: "sec \<noteq> SYMBOL_SECTION_TEXT" and v: "valid_data i" using True assms(1) by (auto simp: checked_def)
    have "data_directive_size_at i off = int (length (data_image i off))"
      using data_size_image [OF True v] assms(2) by (simp add: well_formed_def)
    then show ?thesis
      using True sec assms(4) nt data_not_switch [OF True]
      by (auto simp: step_code_def in_data_def contribution_def loaded_def)
  next
    case False
    then show ?thesis using nt by (auto simp: step_code_def in_data_def contribution_def in_text_def)
  qed
qed

text \<open>A source both passes accept.\<close>

definition assembled :: "InstructionList \<Rightarrow> bool" where
  "assembled il \<longleftrightarrow> accepted_source il \<and> clean (p2_errors (pass2_run il (pass1_run il)))"

lemma assembled_source: "assembled il \<Longrightarrow> accepted_source il \<and> clean (p1_errors (pass1_run il))"
  by (simp add: assembled_def accepted_source_def)

lemma assembled_emitted:
  assumes "assembled il"
  shows "loaded sec \<Longrightarrow> full_bytes (pass2_run il (pass1_run il)) sec
      = image_from (pass1_run il) sec layout_start (instrs il)"
    "relocations (pass2_run il (pass1_run il)) = relocs_from (pass1_run il) layout_start (instrs il)"
    "instrs il = js @ i # ks \<Longrightarrow> resolved (pass1_run il) (lay_section (layout_of js)) (here (layout_of js)) i"
proof -
  have a: "accepted_source il" using assms by (simp add: assembled_def)
  have c: "clean (p2_errors (second il))" using assms by (simp add: assembled_def pass2_run_second [OF a])
  note e = second_facts(3) [OF a, unfolded emitted_def, THEN conjunct2, THEN mp, OF c]
  show "loaded sec \<Longrightarrow> full_bytes (pass2_run il (pass1_run il)) sec
      = image_from (pass1_run il) sec layout_start (instrs il)"
    "relocations (pass2_run il (pass1_run il)) = relocs_from (pass1_run il) layout_start (instrs il)"
    using e by (simp_all add: pass2_run_second [OF a])
  show "instrs il = js @ i # ks \<Longrightarrow> resolved (pass1_run il) (lay_section (layout_of js)) (here (layout_of js)) i"
    using e by blast
qed

lemma image_length:
  assumes "assembled il" "instrs il = js @ ks" "loaded sec"
  shows "length (image_from (pass1_run il) sec layout_start js) = lay_size (layout_of js) sec"
  using assms(2)
proof (induction js arbitrary: ks rule: rev_induct)
  case Nil
  then show ?case by (simp add: layout_of_def layout_start_def)
next
  case (snoc i js)
  have split: "instrs il = js @ i # ks" using snoc.prems by simp
  note IH = snoc.IH [OF split]
  have a: "clean (p1_errors (pass1_run il))" "well_formed i"
    using assembled_source [OF assms(1)] split by (auto simp: accepted_source_def)
  note chk = source_checked [OF a(1) split]
  note res = assembled_emitted(3) [OF assms(1) split]
  show ?case
  proof (cases "section_switch (directive_kind i)")
    case (Some s)
    then have "step_code (pass1_run il) sec off i = []" for off
      using switch_facts [OF Some] by (auto simp: step_code_def in_text_def in_data_def)
    then show ?thesis using IH Some by (simp add: from_snoc layout_of_snoc layout_step_def)
  next
    case None
    have "length (step_code (pass1_run il) (lay_section (layout_of js)) (here (layout_of js)) i)
        = contribution (lay_section (layout_of js)) (here (layout_of js)) i" if "lay_section (layout_of js) = sec"
      using step_code_length [OF chk a(2) res] assms(3) that by simp
    then show ?thesis
      using IH by (auto simp: from_snoc layout_of_snoc here_layout_step [OF None] here_def simp flip: layout_of_def)
  qed
qed

lemma code_at:
  assumes "assembled il" "instrs il = js @ i # ks" "sec = lay_section (layout_of js)" "loaded sec"
    "off = here (layout_of js)"
  shows "\<exists>pre post. full_bytes (pass2_run il (pass1_run il)) sec = pre @ step_code (pass1_run il) sec off i @ post
    \<and> length pre = off"
proof -
  have "full_bytes (pass2_run il (pass1_run il)) sec =
      image_from (pass1_run il) sec layout_start js @ step_code (pass1_run il) sec off i
      @ image_from (pass1_run il) sec (layout_step (layout_of js) i) ks"
    using assembled_emitted(1) [OF assms(1,4)] assms(2,3,5)
    by (simp add: image_append flip: layout_of_def)
  moreover have "length (image_from (pass1_run il) sec layout_start js) = off"
    using image_length [OF assms(1,2,4)] assms(3,5) by (simp add: here_def)
  ultimately show ?thesis by blast
qed

text \<open>The place of an instruction is the span pass 2 records for it.\<close>

lemma span_at:
  assumes "accepted_source il" "k < length (instrs il)"
  shows "emissions (pass2_run il (pass1_run il)) ! k = span_of (layout_of (take k (instrs il))) (instrs il ! k)"
    "length (emissions (pass2_run il (pass1_run il))) = length (instrs il)"
  using second_facts(3) [OF assms(1)] assms(2)
  by (simp_all add: pass2_run_second(2) [OF assms(1)] emitted_def spans_nth flip: layout_of_def)

end
