(* ===== verification/Passes_Theorems.thy ===== *)
theory Passes_Theorems
  imports Passes
begin

text \<open>
  The properties of the two passes over a whole source, stated on \<open>pass1_run\<close> and \<open>pass2_run\<close>.
  \<open>accepted_source\<close> is a source in which pass 1 reports nothing and the parser's guarantees hold;
  \<open>assembled\<close> one in which pass 2 reports nothing either.
\<close>

section \<open>A sample source\<close>

text \<open>
  A jump over an instruction to a label, a call of an external symbol, and a string, an aligned
  64-bit symbol and a reserved block in data sections: the concrete input of the witnesses.
\<close>

definition at :: "Operand \<Rightarrow> LocOperand" where
  "at p = \<lparr>opnd = p, op_line = 1, op_col = 1, op_end_col = 2\<rparr>"

definition ins :: "OpcodeEnum \<Rightarrow> Operand list \<Rightarrow> cstr option \<Rightarrow> Instruction" where
  "ins opc ps l = \<lparr>opcode = opc, ops = map at ps, label = l, directive = None, directive_kind = DIRECTIVE_NONE,
     line = 1, col = 1, end_col = 2, label_line = 1, label_col = 1, label_end_col = 2\<rparr>"

definition dir :: "DirectiveKind \<Rightarrow> Operand list \<Rightarrow> cstr option \<Rightarrow> Instruction" where
  "dir d ps l = (ins OPCODE_INVALID ps l)\<lparr>directive_kind := d, directive := Some []\<rparr>"

definition sample :: InstructionList where
  "sample = \<lparr>instrs =
     [dir DIRECTIVE_EXTERNAL [OP_LABEL [0x65]] None,
      ins OPCODE_JE [OP_LABEL [0x6C]] None,
      ins OPCODE_CALL [OP_LABEL [0x65]] None,
      ins OPCODE_LEA [OP_REG REG_RAX, OP_MEM_RIP_LABEL [0x64]] None,
      ins OPCODE_RET [] (Some [0x6C]),
      dir DIRECTIVE_DATA [] None,
      dir DIRECTIVE_INT8 [OP_IMM 7] None,
      dir DIRECTIVE_ALIGNMENT [OP_IMM 8] None,
      dir DIRECTIVE_INT64 [OP_IMM (-1), OP_LABEL [0x6C]] (Some [0x64]),
      dir DIRECTIVE_BSS [] None,
      dir DIRECTIVE_ZERO_SPACE [OP_IMM 32] None],
    source_name = None, source_data = None\<rparr>"

lemma sample_assembled: "assembled sample"
  unfolding assembled_def accepted_source_def by code_simp

lemma sample_accepted: "accepted_source sample"
  using sample_assembled by (simp add: assembled_def)

lemma sample_instrs: "length (instrs sample) = 11"
  by (simp add: sample_def)

section \<open>Agreement of the passes\<close>

lemma sizes_agree:
  assumes "accepted_source il"
  shows "pass2_section_size (pass2_run il (pass1_run il)) sec = capacity_of (pass1_run il) sec"
proof -
  have c: "clean (p1_errors (pass1_run il))" using assms by (simp add: accepted_source_def)
  have "pass2_section_size (second il) = lay_size (layout_of (instrs il))"
    using second_facts(2) [OF assms] by (metis pass2_view_sel(2))
  then show ?thesis by (simp add: pass2_run_second [OF assms] pass1_sections(1) [OF c])
qed

text \<open>
  C2. The passes agree: on a source pass 1 accepts, pass 2 never returns early with an internal
  error, even when it reports unresolved symbols or operands it cannot encode, it records one
  span for every instruction, and the four sections have exactly the sizes pass 1 computed.
\<close>

theorem passes_agree:
  assumes "accepted_source il"
  shows "(\<exists>st. pass2_loop il (pass1_run il) (pass2_start il) (instrs il) = Inr st
        \<and> pass2_totals il (pass1_run il) st = st)
    \<and> length (text_bytes (pass2_run il (pass1_run il))) = p1_text_size (pass1_run il)
    \<and> length (data_bytes (pass2_run il (pass1_run il))) = p1_data_size (pass1_run il)
    \<and> length (read_only_data_bytes (pass2_run il (pass1_run il))) = p1_read_only_data_size (pass1_run il)
    \<and> bss_size (pass2_run il (pass1_run il)) = p1_bss_size (pass1_run il)
    \<and> length (emissions (pass2_run il (pass1_run il))) = length (instrs il)"
proof -
  note sz = sizes_agree [OF assms]
  have "length (emissions (second il)) = length (instrs il)"
    using second_facts(3) [OF assms] by (simp add: emitted_def)
  then show ?thesis
    using sz [of SYMBOL_SECTION_TEXT] sz [of SYMBOL_SECTION_DATA] sz [of SYMBOL_SECTION_READ_ONLY_DATA]
      sz [of SYMBOL_SECTION_BSS] second_facts(1) [OF assms] pass2_run_second [OF assms]
    by (auto simp: pass2_section_size_def capacity_of_def)
qed

theorem passes_agree_witness:
  "length (text_bytes (pass2_run sample (pass1_run sample))) = p1_text_size (pass1_run sample)
   \<and> length (emissions (pass2_run sample (pass1_run sample))) = 11"
  using passes_agree [OF sample_accepted] by (simp add: sample_instrs)

section \<open>Spans\<close>

lemma spans_sum:
  assumes "loaded sec"
  shows "lay_size (foldl layout_step l is) sec =
    lay_size l sec + sum_list (map em_size (filter (\<lambda>e. em_section e = sec) (spans_from l is)))"
proof (induction "is" arbitrary: l)
  case (Cons i "is")
  have "lay_size (layout_step l i) sec = lay_size l sec + (if em_section (span_of l i) = sec then em_size (span_of l i) else 0)"
  proof (cases "section_switch (directive_kind i)")
    case None
    then show ?thesis using assms by (auto simp: here_layout_step span_plain here_def loaded_def)
  next
    case (Some s)
    then show ?thesis by (simp add: span_of_def Let_def layout_step_def)
  qed
  then show ?case using Cons by simp
qed simp

lemma span_offset:
  "em_offset (span_of l i) = lay_size l (em_section (span_of l i))"
  by (cases "section_switch (directive_kind i)") (simp_all add: span_of_def Let_def layout_step_def span_plain here_def)

lemma spans_adjacent:
  assumes "accepted_source il"
  shows "k < length (instrs il) \<Longrightarrow> loaded (em_section (emissions (pass2_run il (pass1_run il)) ! k)) \<Longrightarrow>
    em_offset (emissions (pass2_run il (pass1_run il)) ! k) =
      sum_list (map em_size (filter (\<lambda>e. em_section e = em_section (emissions (pass2_run il (pass1_run il)) ! k))
        (take k (emissions (pass2_run il (pass1_run il))))))"
    "loaded sec \<Longrightarrow> sum_list (map em_size (filter (\<lambda>e. em_section e = sec) (emissions (pass2_run il (pass1_run il)))))
      = length (full_bytes (pass2_run il (pass1_run il)) sec)"
proof -
  let ?p2 = "pass2_run il (pass1_run il)"
  have em: "emissions ?p2 = spans_from layout_start (instrs il)"
    using second_facts(3) [OF assms] by (simp add: pass2_run_second(2) [OF assms] emitted_def)
  show "em_offset (emissions ?p2 ! k) = sum_list (map em_size
      (filter (\<lambda>e. em_section e = em_section (emissions ?p2 ! k)) (take k (emissions ?p2))))"
    if k: "k < length (instrs il)" "loaded (em_section (emissions ?p2 ! k))"
  proof -
    have "spans_from l (xs @ ys) = spans_from l xs @ spans_from (foldl layout_step l xs) ys" for l xs ys
      by (induction xs arbitrary: l) auto
    from this [of layout_start "take k (instrs il)" "drop k (instrs il)"]
    have "take k (spans_from layout_start (instrs il)) = spans_from layout_start (take k (instrs il))"
      using k(1) by (simp add: min_absorb2)
    then show ?thesis
      using spans_sum [OF k(2), of layout_start "take k (instrs il)"] span_at(1) [OF assms k(1)]
      by (simp add: span_offset em layout_of_def layout_start_def)
  qed
  show "sum_list (map em_size (filter (\<lambda>e. em_section e = sec) (emissions ?p2))) = length (full_bytes ?p2 sec)"
    if sec: "loaded sec"
  proof -
    have "pass2_section_size (second il) sec = lay_size (layout_of (instrs il)) sec"
      using second_facts(2) [OF assms] by (metis pass2_view_sel(2))
    then show ?thesis
      using sec spans_sum [OF sec, of layout_start "instrs il"] em
      by (auto simp: pass2_run_second(2) [OF assms] loaded_def pass2_section_size_def full_bytes_def layout_of_def layout_start_def)
  qed
qed

lemma emissions_length:
  assumes "accepted_source il"
  shows "length (emissions (pass2_run il (pass1_run il))) = length (instrs il)"
  using second_facts(3) [OF assms] by (simp add: pass2_run_second(2) [OF assms] emitted_def)

text \<open>
  C18. The spans of the listing tile the text, data and read-only data sections: each one starts
  where the spans of the same section before it end, and together they cover the section.
\<close>

theorem spans_tile:
  assumes "accepted_source il" "k < length (instrs il)" "loaded (em_section (emissions (pass2_run il (pass1_run il)) ! k))"
    "loaded sec"
  shows "em_offset (emissions (pass2_run il (pass1_run il)) ! k) =
      sum_list (map em_size (filter (\<lambda>e. em_section e = em_section (emissions (pass2_run il (pass1_run il)) ! k))
        (take k (emissions (pass2_run il (pass1_run il))))))
    \<and> sum_list (map em_size (filter (\<lambda>e. em_section e = sec) (emissions (pass2_run il (pass1_run il)))))
      = length (full_bytes (pass2_run il (pass1_run il)) sec)"
  using spans_adjacent(1) [OF assms(1-3)] spans_adjacent(2) [OF assms(1,4)] by blast


lemma sample_spans:
  "emissions (pass2_run sample (pass1_run sample)) = map (\<lambda>(s, off, n). \<lparr>em_section = s, em_offset = off, em_size = n\<rparr>)
     [(SYMBOL_SECTION_TEXT, 0, 0), (SYMBOL_SECTION_TEXT, 0, 6), (SYMBOL_SECTION_TEXT, 6, 5), (SYMBOL_SECTION_TEXT, 11, 7),
      (SYMBOL_SECTION_TEXT, 18, 1), (SYMBOL_SECTION_DATA, 0, 0), (SYMBOL_SECTION_DATA, 0, 1),
      (SYMBOL_SECTION_DATA, 1, 7), (SYMBOL_SECTION_DATA, 8, 16), (SYMBOL_SECTION_BSS, 0, 0), (SYMBOL_SECTION_BSS, 0, 0)]"
  by code_simp

theorem spans_tile_witness:
  "em_offset (emissions (pass2_run sample (pass1_run sample)) ! 3) = 11
   \<and> length (full_bytes (pass2_run sample (pass1_run sample)) SYMBOL_SECTION_TEXT) = 19"
proof -
  have "loaded (em_section (emissions (pass2_run sample (pass1_run sample)) ! 3))" "loaded SYMBOL_SECTION_TEXT"
    by (simp_all add: sample_spans loaded_def)
  from spans_tile [OF sample_accepted _ this] show ?thesis
    by (simp add: sample_instrs) (simp add: sample_spans numeral_3_eq_3)
qed

section \<open>Labels\<close>

text \<open>Lines that put their label into the symbol table.\<close>

definition carries :: "Instruction \<Rightarrow> cstr \<Rightarrow> bool" where
  "carries i s \<longleftrightarrow> label i = Some s \<and> (directive_kind i = DIRECTIVE_NONE \<or> is_data_directive (directive_kind i))"

lemma carries_declares: "carries i s \<Longrightarrow> declares sec off i = [Define s sec (int off)]"
  by (simp add: carries_def declares_def)

lemma declarations_append:
  "declarations_from l (is @ js) = declarations_from l is @ declarations_from (foldl layout_step l is) js"
  by (induction "is" arbitrary: l) auto

lemma source_defined:
  assumes "clean (p1_errors (pass1_run il))" "instrs il = js @ i # ks" "carries i s"
  shows "symtable_lookup_ex (symtable (pass1_run il)) s = Some (int (here (layout_of js)), lay_section (layout_of js))"
proof -
  let ?d = "declarations js" and ?p = "Define s (lay_section (layout_of js)) (int (here (layout_of js)))"
  let ?m = "foldl map_step Map.empty (?d @ [?p])"
  have acc: "symtable_apply (symtable_run ?d) ?p = (True, symtable_run (?d @ [?p]))"
    using source_declared [OF assms(1,2)] by (simp add: carries_declares [OF assms(3)] accepted_by_def)
  then have "symtable_lookup_ex (symtable_run (?d @ [?p])) s = Some (int (here (layout_of js)), lay_section (layout_of js))"
    using symtable_refines_aux [of ?d ?p]
    by (simp add: lookup_map run_facts can_define_def define_entry_def entry_of_def split: option.splits)
  then obtain e where e: "?m s = Some e" "sym_defined e" "sym_offset e = int (here (layout_of js))"
    "sym_section e = lay_section (layout_of js)"
    by (auto simp: lookup_map run_facts split: option.splits if_splits)
  have all: "declarations (instrs il) = (?d @ [?p]) @ declarations_from (layout_step (layout_of js) i) ks"
    using carries_declares [OF assms(3)] assms(2)
    by (simp add: declarations_append here_def flip: layout_of_def)
  obtain e' where "foldl map_step Map.empty (declarations (instrs il)) s = Some e'" "sym_defined e'"
    "sym_offset e' = sym_offset e" "sym_section e' = sym_section e"
    using map_run_defined [where m = ?m and s = s and ps = "declarations_from (layout_step (layout_of js) i) ks"] e
    unfolding all foldl_append by blast
  then show ?thesis using e by (simp add: pass1_sections(2) [OF assms(1)] lookup_map run_facts)
qed

text \<open>No other line defines a label.\<close>

lemma declarations_carried:
  "Define s sec off \<in> set (declarations_from l is) \<Longrightarrow> \<exists>i \<in> set is. carries i s"
proof (induction "is" arbitrary: l)
  case (Cons i "is")
  have "Define s sec off \<in> set (declares (lay_section l) n i) \<Longrightarrow> carries i s" for n
    by (auto simp: declares_def carries_def split: if_splits option.splits list.splits Operand.splits)
  then show ?case using Cons by auto
qed simp

lemma source_undefined:
  assumes "clean (p1_errors (pass1_run il))" "\<forall>i \<in> set (instrs il). \<not> carries i s"
  shows "symtable_lookup_ex (symtable (pass1_run il)) s = None"
proof -
  have "\<forall>sec off. Define s sec off \<notin> set (declarations (instrs il))"
    using declarations_carried assms(2) by blast
  then have "\<not> sym_defined e" if "foldl map_step Map.empty (declarations (instrs il)) s = Some e" for e
    using map_run_undefined [of Map.empty s] that by simp
  then show ?thesis by (simp add: pass1_sections(2) [OF assms(1)] lookup_map run_facts split: option.split)
qed

lemma carries_no_switch: "carries i s \<Longrightarrow> section_switch (directive_kind i) = None"
  using data_not_switch by (auto simp: carries_def section_switch_def)

text \<open>
  C17. The labels a source defines are addresses: in a source pass 1 accepts, a label on a line of its
  own, with an instruction or with a data directive is in the symbol table with the section and the
  offset at which pass 2 puts that line, so no label is carried by two lines at different places; and
  a name no such line carries is not defined at all, not even when it stands before a section,
  visibility, external or debug directive, whose label both passes drop without a report.
\<close>

theorem label_addresses:
  assumes "accepted_source il"
  shows "(\<forall>k < length (instrs il). carries (instrs il ! k) s \<longrightarrow>
      symtable_lookup_ex (symtable (pass1_run il)) s =
        Some (int (em_offset (emissions (pass2_run il (pass1_run il)) ! k)), em_section (emissions (pass2_run il (pass1_run il)) ! k)))
    \<and> ((\<forall>i \<in> set (instrs il). \<not> carries i s) \<longrightarrow> symtable_lookup_ex (symtable (pass1_run il)) s = None)"
proof -
  have c: "clean (p1_errors (pass1_run il))" using assms by (simp add: accepted_source_def)
  have "symtable_lookup_ex (symtable (pass1_run il)) s =
      Some (int (em_offset (emissions (pass2_run il (pass1_run il)) ! k)), em_section (emissions (pass2_run il (pass1_run il)) ! k))"
    if "k < length (instrs il)" "carries (instrs il ! k) s" for k
    using source_defined [OF c split_at [OF that(1)] that(2)] span_at(1) [OF assms that(1)]
    by (simp add: span_plain [OF carries_no_switch [OF that(2)]])
  then show ?thesis using source_undefined [OF c] by blast
qed

theorem label_addresses_witness:
  "symtable_lookup_ex (symtable (pass1_run sample)) [0x64] = Some (8, SYMBOL_SECTION_DATA)
   \<and> symtable_lookup_ex (symtable (pass1_run sample)) [0x78] = None"
proof -
  have "carries (instrs sample ! 8) [0x64]" "\<forall>i \<in> set (instrs sample). \<not> carries i [0x78]"
    by (simp_all add: sample_def carries_def dir_def ins_def is_data_directive_def)
  then show ?thesis
    using label_addresses [OF sample_accepted, of "[0x64]", THEN conjunct1, rule_format, of 8]
      label_addresses [OF sample_accepted, of "[0x78]", THEN conjunct2]
    by (simp add: sample_instrs sample_spans)
qed

text \<open>A label before a section directive: pass 1 accepts the source and loses the label.\<close>

definition dropped_label :: InstructionList where
  "dropped_label = \<lparr>instrs = [dir DIRECTIVE_DATA [] (Some [0x64])], source_name = None, source_data = None\<rparr>"

theorem label_on_directive_dropped:
  "accepted_source dropped_label \<and> label (hd (instrs dropped_label)) = Some [0x64]
   \<and> symtable_lookup_ex (symtable (pass1_run dropped_label)) [0x64] = None"
  unfolding accepted_source_def by code_simp

section \<open>Instructions\<close>

lemma text_at:
  assumes "assembled il" "instrs il = js @ i # ks" "in_text (lay_section (layout_of js)) i"
    "off = here (layout_of js)"
  shows "\<not> enc_error (encoding_of (pass1_run il) i off)"
    "drop off (text_bytes (pass2_run il (pass1_run il))) = enc_bytes (encoding_of (pass1_run il) i off)
       @ drop (off + layout_size i) (text_bytes (pass2_run il (pass1_run il)))"
proof -
  have sec: "lay_section (layout_of js) = SYMBOL_SECTION_TEXT" using assms(3) by (simp add: in_text_def)
  show ne: "\<not> enc_error (encoding_of (pass1_run il) i off)"
    using assembled_emitted(3) [OF assms(1,2)] assms(3,4) by (simp add: resolved_def)
  obtain pre post where b: "text_bytes (pass2_run il (pass1_run il)) = pre @ enc_bytes (encoding_of (pass1_run il) i off) @ post"
    "length pre = off"
    using code_at [OF assms(1,2) refl _ assms(4)] assms(3) sec
    by (auto simp: loaded_def full_bytes_def step_code_def)
  have "enc_len (encoding_of (pass1_run il) i off) = layout_size i"
    using layout_size_enc ne by (simp add: encoding_of_def)
  then show "drop off (text_bytes (pass2_run il (pass1_run il))) = enc_bytes (encoding_of (pass1_run il) i off)
       @ drop (off + layout_size i) (text_bytes (pass2_run il (pass1_run il)))"
    using b by simp
qed


lemma in_text_span:
  assumes "accepted_source il" "k < length (instrs il)" "in_text (em_section (emissions (pass2_run il (pass1_run il)) ! k)) (instrs il ! k)"
  shows "em_section (emissions (pass2_run il (pass1_run il)) ! k) = lay_section (layout_of (take k (instrs il)))"
    "em_offset (emissions (pass2_run il (pass1_run il)) ! k) = here (layout_of (take k (instrs il)))"
    "em_size (emissions (pass2_run il (pass1_run il)) ! k) = layout_size (instrs il ! k)"
proof -
  have sw: "section_switch (directive_kind (instrs il ! k)) = None"
    using assms(3) by (simp add: in_text_def section_switch_def)
  then show "em_section (emissions (pass2_run il (pass1_run il)) ! k) = lay_section (layout_of (take k (instrs il)))"
    "em_offset (emissions (pass2_run il (pass1_run il)) ! k) = here (layout_of (take k (instrs il)))"
    "em_size (emissions (pass2_run il (pass1_run il)) ! k) = layout_size (instrs il ! k)"
    using assms(3) span_at(1) [OF assms(1,2)]
    by (auto simp: span_plain in_text_def contribution_def)
qed

text \<open>The 64-bit displacement pass 2 hands the encoder for an instruction at an offset.\<close>

definition displacement :: "Pass1Result \<Rightarrow> Instruction \<Rightarrow> nat \<Rightarrow> i64" where
  "displacement p1 i off = word_of_int (if opcode_uses_relative_label (opcode i) then branch_disp p1 i off else 0)"

lemma encoding_encodes:
  assumes "\<not> enc_error (encoding_of p1 i off)"
  shows "encodes (encoding_of p1 i off) (denote (opcode i) (op_kinds i) (displacement p1 i off))"
  using encoder_encodes assms unfolding encoding_of_def displacement_def by blast

text \<open>
  C4. The text section holds the program: at the offset of its span every instruction decodes to
  its operation and operands, and decoding ends where its span ends.
\<close>

theorem text_decodes:
  assumes "assembled il" "k < length (instrs il)"
    "in_text (em_section (emissions (pass2_run il (pass1_run il)) ! k)) (instrs il ! k)"
  shows "x86_decode (drop (em_offset (emissions (pass2_run il (pass1_run il)) ! k)) (text_bytes (pass2_run il (pass1_run il)))) =
    Some (denote (opcode (instrs il ! k)) (op_kinds (instrs il ! k))
            (displacement (pass1_run il) (instrs il ! k) (em_offset (emissions (pass2_run il (pass1_run il)) ! k))),
          drop (em_offset (emissions (pass2_run il (pass1_run il)) ! k) + em_size (emissions (pass2_run il (pass1_run il)) ! k))
            (text_bytes (pass2_run il (pass1_run il))))"
proof -
  note a = assembled_source [OF assms(1), THEN conjunct1]
  note sp = in_text_span [OF a assms(2,3)]
  note t = text_at [OF assms(1) split_at [OF assms(2)] assms(3) [unfolded sp(1)] refl]
  show ?thesis
    unfolding sp t(2) by (rule encodes_decode [OF encoding_encodes [OF t(1)]])
qed


theorem text_decodes_witness:
  "x86_decode (drop 11 (text_bytes (pass2_run sample (pass1_run sample)))) =
     Some ((OPCODE_LEA, [AReg 64 0, ARip 0]), drop 18 (text_bytes (pass2_run sample (pass1_run sample))))"
proof -
  have i: "instrs sample ! 3 = ins OPCODE_LEA [OP_REG REG_RAX, OP_MEM_RIP_LABEL [0x64]] None" by (simp add: sample_def)
  have "in_text (em_section (emissions (pass2_run sample (pass1_run sample)) ! 3)) (instrs sample ! 3)"
    unfolding i by (simp add: sample_spans in_text_def ins_def)
  note this' = text_decodes [OF sample_assembled _ this, unfolded i]
  have "denote (opcode (ins OPCODE_LEA [OP_REG REG_RAX, OP_MEM_RIP_LABEL [0x64]] None))
      (op_kinds (ins OPCODE_LEA [OP_REG REG_RAX, OP_MEM_RIP_LABEL [0x64]] None)) t = (OPCODE_LEA, [AReg 64 0, ARip 0])" for t
    by (simp add: ins_def op_kinds_def at_def denote_def plain_def first_width_def reg_width_bits_def reg_index_def reg_order)
  then show ?thesis using this' by (simp add: sample_instrs sample_spans)
qed

text \<open>
  C1. Branches reach their labels: a jump or call of a label that some line of the source carries
  is encoded with the displacement that leads from the end of the instruction to the place of
  that line, in the text section.
\<close>

theorem branch_reaches_label:
  assumes "assembled il" "k < length (instrs il)" "m < length (instrs il)"
    "in_text (em_section (emissions (pass2_run il (pass1_run il)) ! k)) (instrs il ! k)"
    "opcode_uses_relative_label (opcode (instrs il ! k))" "op_kinds (instrs il ! k) = [OP_LABEL s]"
    "carries (instrs il ! m) s"
  shows "\<exists>opc d. x86_decode (drop (em_offset (emissions (pass2_run il (pass1_run il)) ! k)) (text_bytes (pass2_run il (pass1_run il))))
      = Some ((opc, [ARel d]), drop (em_offset (emissions (pass2_run il (pass1_run il)) ! k)
            + em_size (emissions (pass2_run il (pass1_run il)) ! k)) (text_bytes (pass2_run il (pass1_run il))))
    \<and> em_section (emissions (pass2_run il (pass1_run il)) ! m) = SYMBOL_SECTION_TEXT
    \<and> int (em_offset (emissions (pass2_run il (pass1_run il)) ! k)) + int (em_size (emissions (pass2_run il (pass1_run il)) ! k)) + d
      = int (em_offset (emissions (pass2_run il (pass1_run il)) ! m))"
proof -
  let ?p1 = "pass1_run il" and ?i = "instrs il ! k"
  let ?off = "here (layout_of (take k (instrs il)))"
  note a = assembled_source [OF assms(1), THEN conjunct1]
  note sp = in_text_span [OF a assms(2,4)]
  obtain t sec where e: "em_offset (emissions (pass2_run il ?p1) ! m) = t" "em_section (emissions (pass2_run il ?p1) ! m) = sec"
    by blast
  have c: "clean (p1_errors ?p1)" using a by (simp add: accepted_source_def)
  have look: "symtable_lookup_ex (symtable ?p1) s = Some (int t, sec)"
    using source_defined [OF c split_at [OF assms(3)] assms(7)] span_at(1) [OF a assms(3)] e
    by (simp add: span_plain [OF carries_no_switch [OF assms(7)]])
  have disp: "branch_disp ?p1 ?i ?off = int t - int (?off + layout_size ?i)"
    using look by (simp add: branch_disp_def assms(6))
  have r: "sec = SYMBOL_SECTION_TEXT" "- (2 ^ 31) \<le> branch_disp ?p1 ?i ?off" "branch_disp ?p1 ?i ?off < 2 ^ 31"
    using assembled_emitted(3) [OF assms(1) split_at [OF assms(2)]] assms(4-6) look
    unfolding sp resolved_def by auto
  define d where "d = branch_disp ?p1 ?i ?off"
  have sd: "sint (displacement ?p1 ?i ?off) = d"
    using r(2,3) assms(5) by (simp add: displacement_def d_def signed_of_int signed_take_bit_int_eq_self)
  have "\<exists>opc. denote (opcode ?i) (op_kinds ?i) (displacement ?p1 ?i ?off) = (opc, [ARel d])"
    using assms(5) sd by (cases "opcode ?i") (simp_all add: opcode_uses_relative_label_def denote_def branch_spec_def assms(6))
  then obtain opc where opc: "denote (opcode ?i) (op_kinds ?i) (displacement ?p1 ?i ?off) = (opc, [ARel d])" ..
  note t = text_at [OF assms(1) split_at [OF assms(2)] assms(4) [unfolded sp(1)] refl]
  have "x86_decode (drop ?off (text_bytes (pass2_run il ?p1))) =
      Some ((opc, [ARel d]), drop (?off + layout_size ?i) (text_bytes (pass2_run il ?p1)))"
    unfolding t(2) opc [symmetric] by (rule encodes_decode [OF encoding_encodes [OF t(1)]])
  moreover have "int ?off + int (layout_size ?i) + d = int t" by (simp add: d_def disp)
  ultimately show ?thesis using r(1) e unfolding sp by blast
qed

theorem branch_reaches_label_witness:
  "\<exists>opc. x86_decode (text_bytes (pass2_run sample (pass1_run sample)))
     = Some ((opc, [ARel 12]), drop 6 (text_bytes (pass2_run sample (pass1_run sample))))"
proof -
  have i: "instrs sample ! 1 = ins OPCODE_JE [OP_LABEL [0x6C]] None" "instrs sample ! 4 = ins OPCODE_RET [] (Some [0x6C])"
    by (simp_all add: sample_def)
  have "in_text (em_section (emissions (pass2_run sample (pass1_run sample)) ! 1)) (instrs sample ! 1)"
    "opcode_uses_relative_label (opcode (instrs sample ! 1))" "op_kinds (instrs sample ! 1) = [OP_LABEL [0x6C]]"
    "carries (instrs sample ! 4) [0x6C]"
    unfolding i
    by (simp_all add: sample_spans in_text_def ins_def opcode_uses_relative_label_def op_kinds_def at_def carries_def)
  from branch_reaches_label [OF sample_assembled _ _ this] show ?thesis
    by (simp add: sample_instrs) (auto simp: sample_spans)
qed


section \<open>Relocations\<close>

definition field_width :: "RelocationKind \<Rightarrow> nat" where
  "field_width k = (case k of RELOC_ABS64 \<Rightarrow> 8 | RELOC_PC32 \<Rightarrow> 4)"

definition reloc_target :: "RelocationSection \<Rightarrow> SymbolSection" where
  "reloc_target s = (case s of RELOC_SECTION_TEXT \<Rightarrow> SYMBOL_SECTION_TEXT
     | RELOC_SECTION_DATA \<Rightarrow> SYMBOL_SECTION_DATA
     | RELOC_SECTION_READ_ONLY_DATA \<Rightarrow> SYMBOL_SECTION_READ_ONLY_DATA)"

text \<open>The field of a relocation inside the bytes of an instruction at an offset.\<close>

definition field_in :: "SymbolSection \<Rightarrow> nat \<Rightarrow> u8 list \<Rightarrow> Relocation \<Rightarrow> bool" where
  "field_in sec off code r \<longleftrightarrow> reloc_target (rel_section r) = sec
     \<and> (\<exists>pre post. code = pre @ replicate (field_width (rel_kind r)) 0 @ post \<and> rel_offset r = off + length pre
          \<and> (rel_kind r = RELOC_PC32 \<longrightarrow> post = [] \<and> rel_addend r = - 4)
          \<and> (rel_kind r = RELOC_ABS64 \<longrightarrow> rel_addend r = 0))"

lemma field_inI:
  assumes "code = pre @ replicate (field_width (rel_kind r)) 0 @ post" "rel_offset r = off + length pre"
    "reloc_target (rel_section r) = sec" "rel_kind r = RELOC_PC32 \<Longrightarrow> post = [] \<and> rel_addend r = - 4"
    "rel_kind r = RELOC_ABS64 \<Longrightarrow> rel_addend r = 0"
  shows "field_in sec off code r"
  using assms unfolding field_in_def by blast

lemma symbol_fields_nth:
  "r \<in> set (symbol_fields sec off k ps) \<Longrightarrow> \<exists>j < length ps. \<exists>s. ps ! j = OP_LABEL s
     \<and> r = \<lparr>rel_section = pass2_relocation_section sec, rel_kind = RELOC_ABS64,
            rel_offset = off + (k + j) * 8, rel_symbol = s, rel_addend = 0\<rparr>"
proof (induction ps arbitrary: k)
  case (Cons p ps)
  show ?case
  proof (cases "r \<in> set (symbol_fields sec off (k + 1) ps)")
    case True
    from Cons.IH [OF this] obtain j s where "j < length ps" "ps ! j = OP_LABEL s"
      "r = \<lparr>rel_section = pass2_relocation_section sec, rel_kind = RELOC_ABS64,
            rel_offset = off + (k + 1 + j) * 8, rel_symbol = s, rel_addend = 0\<rparr>" by blast
    then show ?thesis by (intro exI [of _ "Suc j"]) (simp add: algebra_simps)
  next
    case False
    then show ?thesis using Cons.prems by (intro exI [of _ 0]) (auto split: Operand.splits)
  qed
qed simp

lemma symbol_field_in:
  assumes "r \<in> set (symbol_fields sec off 0 ps)" "sec = SYMBOL_SECTION_DATA \<or> sec = SYMBOL_SECTION_READ_ONLY_DATA"
  shows "field_in sec off (concat (map (\<lambda>p. le_bytes 8 (int_value p)) ps)) r"
proof -
  let ?c = "\<lambda>ps. concat (map (\<lambda>p. le_bytes 8 (int_value p)) ps)"
  obtain j s where j: "j < length ps" "ps ! j = OP_LABEL s"
    "r = \<lparr>rel_section = pass2_relocation_section sec, rel_kind = RELOC_ABS64, rel_offset = off + j * 8,
          rel_symbol = s, rel_addend = 0\<rparr>"
    using symbol_fields_nth [OF assms(1)] by auto
  have z: "le_bytes 8 (0 :: i64) = replicate 8 0" by (simp add: numeral_eq_Suc)
  have "?c ps = ?c (take j ps @ ps ! j # drop (Suc j) ps)" using split_at [OF j(1)] by simp
  also have "\<dots> = ?c (take j ps) @ replicate 8 0 @ ?c (drop (Suc j) ps)" by (simp only: map_append concat_append list.map concat.simps j(2) int_value_simps z)
  finally have "?c ps = ?c (take j ps) @ replicate 8 0 @ ?c (drop (Suc j) ps)" .
  moreover have "length (?c (take j ps)) = j * 8" using j(1) by (simp only: length_integers) simp
  ultimately show ?thesis
    by (intro field_inI [of _ "?c (take j ps)" _ "?c (drop (Suc j) ps)"])
      (use assms(2) in \<open>auto simp: j(3) field_width_def reloc_target_def pass2_relocation_section_def\<close>)
qed

lemma instruction_field_in:
  assumes "r \<in> set (instruction_relocs p1 i off)" "\<not> enc_error (encoding_of p1 i off)" "well_formed i"
  shows "field_in SYMBOL_SECTION_TEXT off (enc_bytes (encoding_of p1 i off)) r"
proof -
  note len = layout_size_enc [OF assms(2) [unfolded encoding_of_def]]
  have acc: "accepted (opcode i) (op_kinds i) t" if "\<not> enc_error (encoder_encode (opcode i) (op_kinds i) t)" for t
    using that encoder_accepts_iff by blast
  have bare: "op_kinds i = []" if "bare_opcode (opcode i)" using assms(3) that by (simp add: well_formed_def op_kinds_def)
  show ?thesis
  proof (cases "\<exists>s. OP_LABEL s \<in> set (op_kinds i)")
    case True
    then obtain s where s: "OP_LABEL s \<in> set (op_kinds i)" ..
    have nb: "\<not> bare_opcode (opcode i)" using bare s by auto
    from label_forms [OF acc [OF assms(2) [unfolded encoding_of_def]] nb s] show ?thesis
    proof (elim disjE conjE exE)
      assume b: "opcode_uses_relative_label (opcode i)" "op_kinds i = [OP_LABEL s]"
      then have none: "symtable_lookup_ex (symtable p1) s = None"
        and r: "r = \<lparr>rel_section = RELOC_SECTION_TEXT, rel_kind = RELOC_PC32,
              rel_offset = off + relative_label_relocation_offset (opcode i), rel_symbol = s, rel_addend = - 4\<rparr>"
        using assms(1) by (auto simp: instruction_relocs_def split: if_splits)
      have e: "encoding_of p1 i off = encoder_encode (opcode i) [OP_LABEL s] 0"
        using b none by (simp add: encoding_of_def branch_disp_def)
      have z: "le_bytes 4 (0 :: i32) = replicate 4 0" by (simp add: numeral_eq_Suc)
      obtain pre where "enc_bytes (encoding_of p1 i off) = pre @ replicate 4 0"
        "length pre = relative_label_relocation_offset (opcode i)"
        using branch_field [OF b(1), of s 0] assms(2) unfolding e by (auto simp: z)
      then show ?thesis
        by (intro field_inI [of _ pre _ "[]"]) (simp_all add: r field_width_def reloc_target_def)
    next
      fix d assume m: "opcode i = OPCODE_MOV" "op_kinds i = [OP_REG d, OP_LABEL s]"
      then have r: "r = \<lparr>rel_section = RELOC_SECTION_TEXT, rel_kind = RELOC_ABS64,
              rel_offset = off + mov_reg_label_relocation_offset, rel_symbol = s, rel_addend = 0\<rparr>"
        using assms(1) by (simp add: instruction_relocs_def)
      obtain pre where "enc_bytes (encoding_of p1 i off) = pre @ replicate 8 0" "length pre = mov_reg_label_relocation_offset"
        using mov_label_field [of d s] assms(2) unfolding encoding_of_def m by blast
      then show ?thesis
        by (intro field_inI [of _ pre _ "[]"]) (simp_all add: r field_width_def reloc_target_def)
    qed
  next
    case False
    then have "instruction_relocs p1 i off = rip_relocations i (off + layout_size i - 4)"
      by (auto simp: instruction_relocs_def split: list.split Operand.split)
    then have r: "r \<in> set (rip_relocations i (off + layout_size i - 4))" using assms(1) by simp
    then have rip: "\<exists>p \<in> set (op_kinds i). rip_op p" by (auto simp: rip_relocations_def)
    have nb: "\<not> bare_opcode (opcode i)" using bare rip by auto
    obtain pre where pre: "enc_bytes (encoding_of p1 i off) = pre @ replicate 4 0"
      using rip_field(1) [OF assms(2) [unfolded encoding_of_def] nb rip] by (auto simp: encoding_of_def)
    have "layout_size i = length pre + 4" using len pre by (simp add: encoding_of_def)
    moreover have "rel_section r = RELOC_SECTION_TEXT" "rel_kind r = RELOC_PC32" "rel_addend r = - 4"
      "rel_offset r = off + layout_size i - 4" using r by (auto simp: rip_relocations_def)
    ultimately show ?thesis
      using pre by (intro field_inI [of _ pre _ "[]"]) (simp_all add: field_width_def reloc_target_def)
  qed
qed

lemma relocs_from_split:
  "r \<in> set (relocs_from p1 l is) \<Longrightarrow> \<exists>k < length is.
     r \<in> set (step_relocs p1 (lay_section (foldl layout_step l (take k is))) (here (foldl layout_step l (take k is))) (is ! k))"
proof (induction "is" arbitrary: l)
  case (Cons i "is")
  show ?case
  proof (cases "r \<in> set (step_relocs p1 (lay_section l) (here l) i)")
    case True
    then show ?thesis by (intro exI [of _ 0]) simp
  next
    case False
    then obtain k where "k < length is" "r \<in> set (step_relocs p1 (lay_section (foldl layout_step (layout_step l i) (take k is)))
        (here (foldl layout_step (layout_step l i) (take k is))) (is ! k))"
      using Cons by auto
    then show ?thesis by (intro exI [of _ "Suc k"]) simp
  qed
qed simp

text \<open>The step of the walk a relocation comes from.\<close>

lemma relocation_step:
  assumes "assembled il" "r \<in> set (relocations (pass2_run il (pass1_run il)))"
  obtains k i sec off where "k < length (instrs il)" "i = instrs il ! k"
    "sec = lay_section (layout_of (take k (instrs il)))" "off = here (layout_of (take k (instrs il)))"
    "r \<in> set (step_relocs (pass1_run il) sec off i)" "well_formed i" "checked sec i"
    "resolved (pass1_run il) sec off i" "loaded sec" "section_switch (directive_kind i) = None"
    "field_in sec off (step_code (pass1_run il) sec off i) r"
proof -
  let ?p1 = "pass1_run il"
  note a = assembled_source [OF assms(1)]
  obtain k where k: "k < length (instrs il)" and r: "r \<in> set (step_relocs ?p1 (lay_section (layout_of (take k (instrs il))))
      (here (layout_of (take k (instrs il)))) (instrs il ! k))"
    using relocs_from_split assms(2) unfolding assembled_emitted(2) [OF assms(1)] layout_of_def by blast
  define i where "i = instrs il ! k"
  define sec where "sec = lay_section (layout_of (take k (instrs il)))"
  define off where "off = here (layout_of (take k (instrs il)))"
  note split = split_at [OF k, folded i_def]
  note r = r [folded i_def sec_def off_def]
  have wf: "well_formed i" using a k by (simp add: accepted_source_def i_def)
  have chk: "checked sec i" using source_checked [OF a [THEN conjunct2] split] by (simp add: sec_def)
  have res: "resolved ?p1 sec off i" using assembled_emitted(3) [OF assms(1) split] by (simp add: sec_def off_def)
  have load: "loaded sec" using r by (auto simp: step_relocs_def in_text_def in_data_def loaded_def split: if_splits)
  have sw: "section_switch (directive_kind i) = None"
    using r data_not_switch by (auto simp: step_relocs_def in_text_def in_data_def section_switch_def split: if_splits)
  have "field_in sec off (step_code ?p1 sec off i) r"
  proof (cases "in_text sec i")
    case True
    then show ?thesis
      using r res instruction_field_in [OF _ _ wf, of r ?p1 off]
      by (simp add: step_relocs_def step_code_def resolved_def) (simp add: in_text_def)
  next
    case False
    then have "in_data sec i" "directive_kind i = DIRECTIVE_INT64" "r \<in> set (symbol_fields sec off 0 (op_kinds i))"
      using r by (auto simp: step_relocs_def split: if_splits)
    then show ?thesis
      using False symbol_field_in [of r sec off "op_kinds i"]
      by (simp add: step_code_def data_image_def directive_elem_size_def) (simp add: in_data_def)
  qed
  with k i_def sec_def off_def r wf chk res load sw show thesis by (rule that)
qed

text \<open>
  C3. Relocations are sound: each one names a symbol the file defines or declares external, and
  its field is a run of zero bytes inside the span of one instruction or directive, in the
  section the relocation names. A PC-relative field ends where its instruction ends and has the
  addend -4, so the linker's value is relative to the next instruction.
\<close>

theorem relocations_sound:
  assumes "assembled il" "r \<in> set (relocations (pass2_run il (pass1_run il)))"
  shows "symbol_known (symtable (pass1_run il)) (rel_symbol r)
    \<and> (\<exists>k < length (instrs il). em_section (emissions (pass2_run il (pass1_run il)) ! k) = reloc_target (rel_section r)
         \<and> em_offset (emissions (pass2_run il (pass1_run il)) ! k) \<le> rel_offset r
         \<and> rel_offset r + field_width (rel_kind r) \<le> em_offset (emissions (pass2_run il (pass1_run il)) ! k)
              + em_size (emissions (pass2_run il (pass1_run il)) ! k)
         \<and> (rel_kind r = RELOC_PC32 \<longrightarrow> rel_addend r = - 4 \<and> rel_offset r + 4 =
              em_offset (emissions (pass2_run il (pass1_run il)) ! k) + em_size (emissions (pass2_run il (pass1_run il)) ! k))
         \<and> take (field_width (rel_kind r)) (drop (rel_offset r)
              (full_bytes (pass2_run il (pass1_run il)) (reloc_target (rel_section r)))) = replicate (field_width (rel_kind r)) 0)"
proof -
  let ?p1 = "pass1_run il" and ?p2 = "pass2_run il (pass1_run il)"
  note a = assembled_source [OF assms(1)]
  obtain k i sec off where k: "k < length (instrs il)" and i: "i = instrs il ! k"
    and sec: "sec = lay_section (layout_of (take k (instrs il)))" and off: "off = here (layout_of (take k (instrs il)))"
    and r: "r \<in> set (step_relocs ?p1 sec off i)" and wf: "well_formed i" and chk: "checked sec i"
    and res: "resolved ?p1 sec off i" and load: "loaded sec" and sw: "section_switch (directive_kind i) = None"
    and fld: "field_in sec off (step_code ?p1 sec off i) r"
    by (rule relocation_step [OF assms])
  note split = split_at [OF k, folded i]
  have len: "length (step_code ?p1 sec off i) = contribution sec off i" by (rule step_code_length [OF chk wf res load])
  have span: "emissions ?p2 ! k = \<lparr>em_section = sec, em_offset = off, em_size = length (step_code ?p1 sec off i)\<rparr>"
    using span_at(1) [OF a [THEN conjunct1] k] load len
    by (auto simp: i [symmetric] span_plain [OF sw] sec [symmetric] off [symmetric] loaded_def)
  obtain pre post where f: "reloc_target (rel_section r) = sec"
    "step_code ?p1 sec off i = pre @ replicate (field_width (rel_kind r)) 0 @ post" "rel_offset r = off + length pre"
    "rel_kind r = RELOC_PC32 \<longrightarrow> post = [] \<and> rel_addend r = - 4"
    using fld by (auto simp: field_in_def)
  obtain p q where b: "full_bytes ?p2 sec = p @ step_code ?p1 sec off i @ q" "length p = off"
    using code_at [OF assms(1) split sec load off] by blast
  have "symbol_known (symtable ?p1) (rel_symbol r)" using res r by (simp add: resolved_def)
  moreover have "take (field_width (rel_kind r)) (drop (rel_offset r) (full_bytes ?p2 sec)) = replicate (field_width (rel_kind r)) 0"
    by (simp add: b f(2,3))
  moreover have "rel_kind r = RELOC_PC32 \<Longrightarrow> field_width (rel_kind r) = 4" by (simp add: field_width_def)
  ultimately show ?thesis using k f span by (intro conjI exI [of _ k]) auto
qed

lemma sample_relocs:
  "relocations (pass2_run sample (pass1_run sample)) =
     [\<lparr>rel_section = RELOC_SECTION_TEXT, rel_kind = RELOC_PC32, rel_offset = 7, rel_symbol = [0x65], rel_addend = - 4\<rparr>,
      \<lparr>rel_section = RELOC_SECTION_TEXT, rel_kind = RELOC_PC32, rel_offset = 14, rel_symbol = [0x64], rel_addend = - 4\<rparr>,
      \<lparr>rel_section = RELOC_SECTION_DATA, rel_kind = RELOC_ABS64, rel_offset = 16, rel_symbol = [0x6C], rel_addend = 0\<rparr>]"
  by code_simp

theorem relocations_sound_witness:
  "symbol_known (symtable (pass1_run sample)) [0x65]"
  using relocations_sound [OF sample_assembled, of "relocations (pass2_run sample (pass1_run sample)) ! 0"]
  by (simp add: sample_relocs)

section \<open>Data\<close>

text \<open>
  C19. A data directive in the data or read-only data section puts its image at its span: the
  values of an integer directive little-endian at its width, symbols as zeros for the linker,
  strings with a terminating zero, zero padding up to the alignment, and zero space.
\<close>

theorem data_emitted:
  assumes "assembled il" "k < length (instrs il)"
    "in_data (em_section (emissions (pass2_run il (pass1_run il)) ! k)) (instrs il ! k)"
  shows "take (em_size (emissions (pass2_run il (pass1_run il)) ! k)) (drop (em_offset (emissions (pass2_run il (pass1_run il)) ! k))
      (full_bytes (pass2_run il (pass1_run il)) (em_section (emissions (pass2_run il (pass1_run il)) ! k))))
    = data_image (instrs il ! k) (em_offset (emissions (pass2_run il (pass1_run il)) ! k))"
proof -
  let ?p1 = "pass1_run il" and ?p2 = "pass2_run il (pass1_run il)"
  note a = assembled_source [OF assms(1)]
  define i where "i = instrs il ! k"
  define sec where "sec = lay_section (layout_of (take k (instrs il)))"
  define off where "off = here (layout_of (take k (instrs il)))"
  note split = split_at [OF assms(2), folded i_def]
  have d: "is_data_directive (directive_kind i)" using assms(3) by (simp add: in_data_def i_def)
  have sw: "section_switch (directive_kind i) = None" using data_not_switch [OF d] by simp
  have span: "emissions ?p2 ! k = \<lparr>em_section = sec, em_offset = off,
      em_size = (if sec = SYMBOL_SECTION_BSS then 0 else contribution sec off i)\<rparr>"
    using span_at(1) [OF a [THEN conjunct1] assms(2)]
    by (simp add: i_def [symmetric] span_plain [OF sw] sec_def [symmetric] off_def [symmetric])
  then have id: "in_data sec i" using assms(3) by (simp add: i_def)
  then have load: "loaded sec" and nt: "\<not> in_text sec i" and nb: "sec \<noteq> SYMBOL_SECTION_BSS"
    by (auto simp: in_data_def loaded_def in_text_def is_data_directive_def)
  have wf: "well_formed i" using a assms(2) by (simp add: accepted_source_def i_def)
  have chk: "checked sec i" using source_checked [OF a [THEN conjunct2] split] by (simp add: sec_def)
  have res: "resolved ?p1 sec off i" using assembled_emitted(3) [OF assms(1) split] by (simp add: sec_def off_def)
  have code: "step_code ?p1 sec off i = data_image i off" using id nt by (simp add: step_code_def)
  have len: "length (data_image i off) = contribution sec off i"
    using step_code_length [OF chk wf res load] by (simp add: code)
  obtain p q where b: "full_bytes ?p2 sec = p @ data_image i off @ q" "length p = off"
    using code_at [OF assms(1) split sec_def load off_def] code by auto
  then show ?thesis by (simp add: span i_def [symmetric] nb flip: len)
qed

theorem data_emitted_witness:
  "take 16 (drop 8 (data_bytes (pass2_run sample (pass1_run sample)))) = replicate 8 0xFF @ replicate 8 0"
proof -
  have i: "instrs sample ! 8 = dir DIRECTIVE_INT64 [OP_IMM (-1), OP_LABEL [0x6C]] (Some [0x64])" by (simp add: sample_def)
  have "in_data (em_section (emissions (pass2_run sample (pass1_run sample)) ! 8)) (instrs sample ! 8)"
    unfolding i by (simp add: sample_spans in_data_def dir_def ins_def is_data_directive_def)
  from data_emitted [OF sample_assembled _ this] have
    "take 16 (drop 8 (data_bytes (pass2_run sample (pass1_run sample)))) = data_image (instrs sample ! 8) 8"
    by (simp add: sample_instrs) (simp add: sample_spans full_bytes_def)
  also have "\<dots> = replicate 8 0xFF @ replicate 8 0" unfolding i by code_simp
  finally show ?thesis .
qed


section \<open>Validation\<close>

lemma add_directive_error_push:
  "\<exists>l c e. add_directive_error es il i k m = error_push es (error_file il) l c e m"
  by (auto simp: add_directive_error_def Let_def)

text \<open>
  C21. A data directive is accepted exactly when it is well formed: strings only, one size that
  fits an \<^verbatim>\<open>int\<close>, one power of two up to 4096, or integers within the signed or unsigned range of
  the width, with symbols allowed in the 64-bit directive only. Accepting reports nothing and
  rejecting reports exactly once.
\<close>

theorem data_directive_validation:
  assumes "is_data_directive (directive_kind i)"
  shows "fst (validate_data_directive il i es) = valid_data i
    \<and> (valid_data i \<longrightarrow> snd (validate_data_directive il i es) = es)
    \<and> (\<not> valid_data i \<longrightarrow> (\<exists>l c e m. snd (validate_data_directive il i es) = error_push es (error_file il) l c e m))"
proof -
  obtain ok es' where v: "validate_data_directive il i es = (ok, es')" by fastforce
  have "\<exists>k m. es' = add_directive_error es il i k m" if "\<not> ok"
    using v that by (auto simp: validate_data_directive_def reject_def
        split: if_splits option.splits list.splits Operand.splits)
  then show ?thesis
    using validate_data_iff [OF assms, of il es] v validate_data_errors [OF v] add_directive_error_push [of es il i]
    by (metis fst_conv snd_conv)
qed

theorem data_directive_validation_witness:
  "\<not> fst (validate_data_directive sample (dir DIRECTIVE_INT8 [OP_IMM 256] None) error_list_init)
   \<and> fst (validate_data_directive sample (dir DIRECTIVE_INT8 [OP_IMM (-128), OP_IMM 255] None) error_list_init)"
proof -
  have d: "is_data_directive (directive_kind (dir DIRECTIVE_INT8 ps l))" for ps l
    by (simp add: dir_def is_data_directive_def)
  show ?thesis
    using data_directive_validation [OF d, of sample "[OP_IMM 256]" None error_list_init]
      data_directive_validation [OF d, of sample "[OP_IMM (-128), OP_IMM 255]" None error_list_init]
    by (simp add: valid_data_def dir_def ins_def op_kinds_def at_def data_range_def directive_bits_def)
qed

end
