(* ===== verification/Alignment.thy ===== *)
theory Alignment
  imports Passes_Theorems
begin

text \<open>
  Alignment across the passes: the padding pass 1 lays out, the largest boundary it records for
  each section, and the property that the boundary holds in the linked image.
\<close>

section \<open>Alignment\<close>

definition section_alignment :: "Pass1Result \<Rightarrow> SymbolSection \<Rightarrow> nat" where
  "section_alignment p1 sec = (case sec of
     SYMBOL_SECTION_DATA \<Rightarrow> data_alignment p1
   | SYMBOL_SECTION_READ_ONLY_DATA \<Rightarrow> read_only_data_alignment p1
   | SYMBOL_SECTION_BSS \<Rightarrow> bss_alignment p1
   | _ \<Rightarrow> 0)"

definition align_of :: "Pass1State \<Rightarrow> SymbolSection \<Rightarrow> nat" where
  "align_of st sec = (case sec of
     SYMBOL_SECTION_DATA \<Rightarrow> data_align st
   | SYMBOL_SECTION_READ_ONLY_DATA \<Rightarrow> read_only_data_align st
   | SYMBOL_SECTION_BSS \<Rightarrow> bss_align st
   | _ \<Rightarrow> 0)"

definition boundary :: "Instruction \<Rightarrow> nat" where "boundary i = unat (int_value (hd (op_kinds i)))"

definition aligns :: "SymbolSection \<Rightarrow> Instruction \<Rightarrow> bool" where
  "aligns sec i \<longleftrightarrow> directive_kind i = DIRECTIVE_ALIGNMENT \<and> sec \<noteq> SYMBOL_SECTION_TEXT \<and> sec \<noteq> SYMBOL_SECTION_UNKNOWN"

lemma note_alignment_align:
  assumes "valid_data i" "aligns sec i"
  shows "align_of (pass1_note_alignment st sec i) sec' = (if sec' = sec then max (align_of st sec) (boundary i) else align_of st sec')"
proof -
  obtain v where v: "op_kinds i = [OP_IMM v]" "0 < sint v"
    using assms by (auto simp: valid_data_def aligns_def)
  then show ?thesis
    using assms(2)
    by (cases sec; cases sec') (auto simp: pass1_note_alignment_def aligns_def boundary_def align_of_def Let_def)
qed

lemma note_alignment_none: "directive_kind i \<noteq> DIRECTIVE_ALIGNMENT \<Longrightarrow> pass1_note_alignment st sec i = st"
  by (auto simp: pass1_note_alignment_def split: DirectiveKind.split)

lemma align_of_cong:
  "data_align st' = data_align st \<Longrightarrow> read_only_data_align st' = read_only_data_align st \<Longrightarrow>
   bss_align st' = bss_align st \<Longrightarrow> align_of st' sec = align_of st sec"
  by (cases sec) (simp_all add: align_of_def)

lemma align_handlers [simp]:
  "align_of (pass1_label il st i off) sec = align_of st sec"
  "align_of (pass1_advance st s n) sec = align_of st sec"
  "align_of (pass1_external il st i) sec = align_of st sec"
  "align_of (pass1_visibility il st i b) sec = align_of st sec"
  "align_of (pass1_instruction il st i) sec = align_of st sec"
proof -
  show l: "align_of (pass1_label il st i off) sec = align_of st sec" for st off
    by (rule align_of_cong) (simp_all add: pass1_label_def split: option.split prod.split)
  show ad: "align_of (pass1_advance st s n) sec = align_of st sec" for st s n
    by (rule align_of_cong) (cases s; simp add: pass1_advance_def)+
  show "align_of (pass1_external il st i) sec = align_of st sec"
    by (rule align_of_cong) (simp_all add: pass1_external_def split: list.split Operand.split prod.split)
  show "align_of (pass1_visibility il st i b) sec = align_of st sec"
    by (rule align_of_cong) (simp_all add: pass1_visibility_def split: list.split Operand.split prod.split)
  show "align_of (pass1_instruction il st i) sec = align_of st sec"
    by (simp add: pass1_instruction_def Let_def l ad split: option.split)
qed

lemma align_emit:
  assumes "current_section st \<noteq> SYMBOL_SECTION_UNKNOWN"
  shows "align_of (pass1_emit il st i) sec = align_of (pass1_note_alignment st (current_section st) i) sec"
  using assms by (simp add: pass1_emit_def Let_def)

lemma align_errs [simp]: "align_of (st\<lparr>p1_errs := es\<rparr>) sec = align_of st sec"
  "align_of (st\<lparr>p1_files := fs\<rparr>) sec = align_of st sec" "align_of (st\<lparr>current_section := s\<rparr>) sec = align_of st sec"
  by (rule align_of_cong; simp)+

lemma align_data:
  assumes "is_data_directive (directive_kind i)" "current_section st \<noteq> SYMBOL_SECTION_UNKNOWN"
    "clean (p1_errs (pass1_data il st i))"
  shows "align_of (pass1_data il st i) sec =
    (if sec = current_section st \<and> aligns sec i then max (align_of st sec) (boundary i) else align_of st sec)"
proof -
  obtain ok es where v: "validate_data_directive il i (p1_errs st) = (ok, es)" by fastforce
  have sec: "current_section st \<noteq> SYMBOL_SECTION_TEXT" using assms(1,3) by (auto simp: pass1_data_def split: if_splits)
  have ok: ok using assms sec v validate_data_errors [OF v] by (auto simp: pass1_data_def split: if_splits)
  then have valid: "valid_data i" using validate_data_iff [OF assms(1), of il "p1_errs st"] v by simp
  have d: "pass1_data il st i = pass1_emit il (st\<lparr>p1_errs := es\<rparr>) i"
    using assms sec v ok by (auto simp: pass1_data_def split: if_splits)
  show ?thesis
  proof (cases "directive_kind i = DIRECTIVE_ALIGNMENT")
    case True
    then have "aligns (current_section st) i" using sec assms(2) by (simp add: aligns_def)
    then show ?thesis using note_alignment_align [OF valid] assms(2) d by (simp add: align_emit)
  next
    case False
    then show ?thesis using assms(2) d by (simp add: align_emit note_alignment_none aligns_def)
  qed
qed

lemma align_step:
  assumes "clean (p1_errs (pass1_step il st i))" "current_section st \<noteq> SYMBOL_SECTION_UNKNOWN"
  shows "align_of (pass1_step il st i) sec =
    (if sec = current_section st \<and> aligns sec i then max (align_of st sec) (boundary i) else align_of st sec)"
proof (cases "is_data_directive (directive_kind i)")
  case True
  then have "pass1_step il st i = pass1_data il st i"
    by (auto simp: pass1_step_def pass1_directive_def is_data_directive_def visibility_directive_binding_def)
  then show ?thesis using align_data [OF True assms(2)] assms(1) by simp
next
  case False
  have na: "\<not> aligns sec i" using False by (auto simp: aligns_def is_data_directive_def)
  have nd: "align_of (pass1_data il st i) sec = align_of st sec" using False by (simp add: pass1_data_def)
  show ?thesis
    using na nd
    by (cases "directive_kind i") (simp_all add: pass1_step_def pass1_directive_def split: prod.split option.split)
qed

text \<open>The recorded alignment is a power of two at least every boundary of the section so far.\<close>

lemma align_walk:
  assumes "clean (p1_errs (pass1_walk il is))"
  shows "(align_of (pass1_walk il is) sec = 0 \<or> (\<exists>j. align_of (pass1_walk il is) sec = 2 ^ j))
    \<and> (\<forall>js i ks. is = js @ i # ks \<and> lay_section (layout_of js) = sec \<and> aligns sec i \<longrightarrow>
          boundary i \<le> align_of (pass1_walk il is) sec \<and> (\<exists>j. boundary i = 2 ^ j))"
  using assms
proof (induction "is" rule: rev_induct)
  case Nil
  then show ?case by (simp add: pass1_walk_def pass1_start_def align_of_def split: SymbolSection.split)
next
  case (snoc i "is")
  let ?st = "pass1_walk il is"
  have c: "clean (p1_errs ?st)" by (rule pass1_walk_clean_prefix [OF snoc.prems])
  have cs: "clean_step ?st i (pass1_step il ?st i)"
    by (rule pass1_step_clean) (use snoc.prems pass1_walk_known in \<open>simp_all add: pass1_walk_snoc\<close>)
  have sec: "current_section ?st = lay_section (layout_of is)"
    using pass1_walk_view [OF c] by (metis pass1_view_sel(1))
  have pow: "\<exists>j. boundary i = 2 ^ j" if a: "aligns (current_section ?st) i"
  proof -
    have "checked (current_section ?st) i" using cs by (simp add: clean_step_def)
    then have "valid_data i" using a by (simp add: checked_def aligns_def is_data_directive_def)
    then obtain v j where v: "op_kinds i = [OP_IMM v]" "sint v = 2 ^ j" using a by (auto simp: valid_data_def aligns_def)
    have "int (unat v) = 2 ^ j" using sint_unat [of v] v(2) by (metis zero_le_numeral zero_le_power)
    then have "unat v = 2 ^ j" by (metis of_nat_eq_iff of_nat_numeral of_nat_power)
    then show ?thesis by (auto simp: boundary_def v)
  qed
  have step: "align_of (pass1_walk il (is @ [i])) sec =
      (if sec = current_section ?st \<and> aligns sec i then max (align_of ?st sec) (boundary i) else align_of ?st sec)"
    unfolding pass1_walk_snoc
    by (rule align_step) (use snoc.prems pass1_walk_known in \<open>simp_all add: pass1_walk_snoc\<close>)
  note IH = snoc.IH [OF c]
  have "boundary i' \<le> align_of (pass1_walk il (is @ [i])) sec \<and> (\<exists>j. boundary i' = 2 ^ j)"
    if a: "is @ [i] = js @ i' # ks" "lay_section (layout_of js) = sec" "aligns sec i'" for js i' ks
  proof (cases ks rule: rev_cases)
    case Nil
    then show ?thesis using a step pow sec by auto
  next
    case (snoc ks' x)
    then have "is = js @ i' # ks'" using a(1) by simp
    then have "boundary i' \<le> align_of ?st sec \<and> (\<exists>j. boundary i' = 2 ^ j)" using IH a(2,3) by blast
    moreover have "align_of ?st sec \<le> align_of (pass1_walk il (is @ [i])) sec" by (simp add: step)
    ultimately show ?thesis using order_trans by blast
  qed
  moreover have "align_of (pass1_walk il (is @ [i])) sec = 0 \<or> (\<exists>j. align_of (pass1_walk il (is @ [i])) sec = 2 ^ j)"
    using step IH pow by (auto simp: max_def)
  ultimately show ?case by blast
qed

text \<open>
  C20. Alignment holds after linking: in a source pass 1 accepts, the line after an alignment
  directive lies on the boundary, and it still does when the section itself is placed at any
  multiple of the alignment pass 1 records for it.
\<close>

theorem alignment_holds:
  assumes "accepted_source il" "Suc k < length (instrs il)"
    "directive_kind (instrs il ! k) = DIRECTIVE_ALIGNMENT"
    "section_switch (directive_kind (instrs il ! Suc k)) = None"
    "section_alignment (pass1_run il) (em_section (emissions (pass2_run il (pass1_run il)) ! k)) dvd base"
  shows "em_section (emissions (pass2_run il (pass1_run il)) ! Suc k) = em_section (emissions (pass2_run il (pass1_run il)) ! k)
    \<and> 0 < boundary (instrs il ! k) \<and> boundary (instrs il ! k) dvd em_offset (emissions (pass2_run il (pass1_run il)) ! Suc k)
    \<and> boundary (instrs il ! k) dvd base + em_offset (emissions (pass2_run il (pass1_run il)) ! Suc k)"
proof -
  define i where "i = instrs il ! k"
  define js where "js = take k (instrs il)"
  define sec where "sec = lay_section (layout_of js)"
  have k: "k < length (instrs il)" using assms(2) by simp
  note split = split_at [OF k, folded i_def js_def]
  have c: "clean (p1_errors (pass1_run il))" using assms(1) by (simp add: accepted_source_def)
  have chk: "checked sec i" using source_checked [OF c split] by (simp add: sec_def)
  have kind: "directive_kind i = DIRECTIVE_ALIGNMENT" using assms(3) by (simp add: i_def)
  then have d: "is_data_directive (directive_kind i)" by (simp add: is_data_directive_def)
  have al: "aligns sec i"
    using chk kind d layout_section_known by (simp add: aligns_def checked_def sec_def)
  have valid: "valid_data i" using chk d by (simp add: checked_def)
  note sw = data_not_switch [OF d, THEN conjunct1]
  have wf: "strings_small i" using assms(1) k by (simp add: accepted_source_def well_formed_def i_def)
  obtain j where j: "boundary i = 2 ^ j" and le: "boundary i \<le> align_of (pass1_walk il (instrs il)) sec"
    and pw: "align_of (pass1_walk il (instrs il)) sec = 0 \<or> (\<exists>j. align_of (pass1_walk il (instrs il)) sec = 2 ^ j)"
    using align_walk [OF pass1_run_clean [OF c], of sec] split al sec_def by blast
  have sal: "section_alignment (pass1_run il) sec = align_of (pass1_walk il (instrs il)) sec"
    by (cases sec) (simp_all add: section_alignment_def align_of_def pass1_run_def Let_def)
  obtain n where n: "align_of (pass1_walk il (instrs il)) sec = 2 ^ n" using pw le j by auto
  then have "j \<le> n" using le j by simp
  then have dv: "boundary i dvd section_alignment (pass1_run il) sec" by (simp add: sal n j le_imp_power_dvd)
  have off: "here (layout_step (layout_of js) i) = here (layout_of js) + padding (boundary i) (here (layout_of js))"
    using data_size_image [OF d valid wf] sw kind al data_not_switch [OF d] d [unfolded kind]
    by (simp add: here_def here_layout_step contribution_def d sec_def [symmetric] data_image_def boundary_def)
      (simp add: aligns_def)
  have e1: "emissions (pass2_run il (pass1_run il)) ! k = span_of (layout_of js) i"
    using span_at(1) [OF assms(1) k] by (simp add: js_def i_def)
  have "take (Suc k) (instrs il) = js @ [i]" using k by (simp add: take_Suc_conv_app_nth js_def i_def)
  then have e2: "emissions (pass2_run il (pass1_run il)) ! Suc k = span_of (layout_step (layout_of js) i) (instrs il ! Suc k)"
    using span_at(1) [OF assms(1,2)] by (simp add: layout_of_snoc)
  have "boundary i dvd here (layout_step (layout_of js) i)"
    unfolding off by (rule padding_aligned) (simp add: j)
  then show ?thesis
    using dv assms(5) dvd_trans
    by (fastforce simp: e1 e2 span_plain [OF sw] span_plain [OF assms(4)] sw i_def [symmetric] sec_def [symmetric] j)
qed

theorem alignment_holds_witness:
  "8 dvd 4096 + em_offset (emissions (pass2_run sample (pass1_run sample)) ! 8)"
proof -
  have i: "instrs sample ! 7 = dir DIRECTIVE_ALIGNMENT [OP_IMM 8] None"
    "instrs sample ! 8 = dir DIRECTIVE_INT64 [OP_IMM (-1), OP_LABEL [0x6C]] (Some [0x64])"
    by (simp_all add: sample_def)
  have "directive_kind (instrs sample ! 7) = DIRECTIVE_ALIGNMENT" "section_switch (directive_kind (instrs sample ! Suc 7)) = None"
    "section_alignment (pass1_run sample) (em_section (emissions (pass2_run sample (pass1_run sample)) ! 7)) dvd 4096"
  proof -
    have "section_alignment (pass1_run sample) SYMBOL_SECTION_DATA = 8" by code_simp
    then show "section_alignment (pass1_run sample) (em_section (emissions (pass2_run sample (pass1_run sample)) ! 7)) dvd 4096"
      by (simp add: sample_spans)
  qed (simp_all add: i dir_def section_switch_def)
  from alignment_holds [OF sample_accepted _ this] show ?thesis
    by (simp add: sample_instrs i) (simp add: boundary_def dir_def ins_def op_kinds_def at_def)
qed

end
