(* ===== verification/Keywords.thy ===== *)
theory Keywords
  imports Encoder_Types Unicode "HOL-Library.Sublist"
begin

text \<open>
  The names of the language: the mnemonics of \<^verbatim>\<open>src/src/lexer/keywords.c\<close> and the registers of
  \<^verbatim>\<open>src/src/lexer/lexer.c\<close>, each with the spellings removed by earlier versions. A table that ends
  with a null entry is a list; the names are the bytes of their UTF-8 spelling, and a search by
  \<^verbatim>\<open>strlen\<close> and \<^verbatim>\<open>memcmp\<close> is \<open>map_of\<close>.
\<close>

section \<open>Mnemonics\<close>

definition KEYWORD_TABLE :: "(cstr \<times> OpcodeEnum) list" where
  "KEYWORD_TABLE = [
     ([0xD8, 0xA7, 0xD9, 0x86, 0xD9, 0x82, 0xD9, 0x84],
      OPCODE_MOV),
     ([0xD8, 0xA7, 0xD8, 0xAF, 0xD9, 0x81, 0xD8, 0xB9],
      OPCODE_PUSH),
     ([0xD8, 0xA7, 0xD8, 0xB3, 0xD8, 0xAD, 0xD8, 0xA8],
      OPCODE_POP),
     ([0xD8, 0xA7, 0xD8, 0xAD, 0xD8, 0xB3, 0xD8, 0xA8, 0x5F, 0xD8, 0xB9, 0xD9, 0x86, 0xD9,
      0x88, 0xD8, 0xA7, 0xD9, 0x86],
      OPCODE_LEA),
     ([0xD9, 0x88, 0xD8, 0xB3, 0xD8, 0xB9, 0x5F, 0xD8, 0xA8, 0xD8, 0xB5, 0xD9, 0x81, 0xD8, 0xB1],
      OPCODE_MOVZX),
     ([0xD9, 0x88, 0xD8, 0xB3, 0xD8, 0xB9, 0x5F, 0xD8, 0xA8, 0xD8, 0xA5, 0xD8, 0xB4, 0xD8,
      0xA7, 0xD8, 0xB1, 0xD8, 0xA9],
      OPCODE_MOVSX),
     ([0xD8, 0xA3, 0xD8, 0xB6, 0xD9, 0x81],
      OPCODE_ADD),
     ([0xD8, 0xA7, 0xD8, 0xB7, 0xD8, 0xB1, 0xD8, 0xAD],
      OPCODE_SUB),
     ([0xD8, 0xA7, 0xD8, 0xB6, 0xD8, 0xB1, 0xD8, 0xA8, 0x5F, 0xD9, 0x85, 0xD9, 0x88, 0xD9,
      0x82, 0xD8, 0xB9],
      OPCODE_IMUL),
     ([0xD8, 0xA7, 0xD9, 0x82, 0xD8, 0xB3, 0xD9, 0x85, 0x5F, 0xD9, 0x85, 0xD9, 0x88, 0xD9,
      0x82, 0xD8, 0xB9],
      OPCODE_IDIV),
     ([0xD8, 0xA7, 0xD9, 0x82, 0xD8, 0xB3, 0xD9, 0x85, 0x5F, 0xD8, 0xBA, 0xD9, 0x8A, 0xD8,
      0xB1, 0x5F, 0xD9, 0x85, 0xD9, 0x88, 0xD9, 0x82, 0xD8, 0xB9],
      OPCODE_DIV),
     ([0xD9, 0x88, 0xD8, 0xB3, 0xD8, 0xB9, 0x5F, 0xD8, 0xA5, 0xD8, 0xB4, 0xD8, 0xA7, 0xD8,
      0xB1, 0xD8, 0xA9, 0x5F, 0xD8, 0xA7, 0xD9, 0x84, 0xD9, 0x82, 0xD8, 0xB3, 0xD9, 0x85,
      0xD8, 0xA9],
      OPCODE_CQO),
     ([0xD8, 0xB2, 0xD8, 0xAF],
      OPCODE_INC),
     ([0xD8, 0xA7, 0xD9, 0x86, 0xD9, 0x82, 0xD8, 0xB5],
      OPCODE_DEC),
     ([0xD8, 0xA7, 0xD8, 0xB9, 0xD9, 0x83, 0xD8, 0xB3, 0x5F, 0xD8, 0xA7, 0xD9, 0x84, 0xD8,
      0xA5, 0xD8, 0xB4, 0xD8, 0xA7, 0xD8, 0xB1, 0xD8, 0xA9],
      OPCODE_NEG),
     ([0xD8, 0xAC, 0xD9, 0x85, 0xD8, 0xB9, 0x5F, 0xD8, 0xB9, 0xD8, 0xB4, 0xD8, 0xB1, 0xD9, 0x8A],
      OPCODE_ADDSD),
     ([0xD8, 0xB7, 0xD8, 0xB1, 0xD8, 0xAD, 0x5F, 0xD8, 0xB9, 0xD8, 0xB4, 0xD8, 0xB1, 0xD9, 0x8A],
      OPCODE_SUBSD),
     ([0xD8, 0xB6, 0xD8, 0xB1, 0xD8, 0xA8, 0x5F, 0xD8, 0xB9, 0xD8, 0xB4, 0xD8, 0xB1, 0xD9, 0x8A],
      OPCODE_MULSD),
     ([0xD9, 0x82, 0xD8, 0xB3, 0xD9, 0x85, 0xD8, 0xA9, 0x5F, 0xD8, 0xB9, 0xD8, 0xB4, 0xD8,
      0xB1, 0xD9, 0x8A, 0xD8, 0xA9],
      OPCODE_DIVSD),
     ([0xD9, 0x85, 0xD9, 0x82, 0xD8, 0xA7, 0xD8, 0xB1, 0xD9, 0x86, 0xD8, 0xA9, 0x5F, 0xD8,
      0xB9, 0xD8, 0xB4, 0xD8, 0xB1, 0xD9, 0x8A, 0xD8, 0xA9],
      OPCODE_UCOMISD),
     ([0xD8, 0xAE, 0xD9, 0x84, 0xD8, 0xA7, 0xD9, 0x81, 0x5F, 0xD8, 0xB9, 0xD8, 0xB4, 0xD8,
      0xB1, 0xD9, 0x8A],
      OPCODE_XORPD),
     ([0xD8, 0xAA, 0xD8, 0xAD, 0xD9, 0x88, 0xD9, 0x8A, 0xD9, 0x84, 0x5F, 0xD8, 0xB5, 0xD8,
      0xAD, 0xD9, 0x8A, 0xD8, 0xAD, 0x5F, 0xD8, 0xA5, 0xD9, 0x84, 0xD9, 0x89, 0x5F, 0xD8,
      0xB9, 0xD8, 0xB4, 0xD8, 0xB1, 0xD9, 0x8A],
      OPCODE_CVTSI2SD),
     ([0xD8, 0xAA, 0xD8, 0xAD, 0xD9, 0x88, 0xD9, 0x8A, 0xD9, 0x84, 0x5F, 0xD8, 0xB9, 0xD8,
      0xB4, 0xD8, 0xB1, 0xD9, 0x8A, 0x5F, 0xD8, 0xA5, 0xD9, 0x84, 0xD9, 0x89, 0x5F, 0xD8,
      0xB5, 0xD8, 0xAD, 0xD9, 0x8A, 0xD8, 0xAD],
      OPCODE_CVTTSD2SI),
     ([0xD9, 0x88, 0x5F, 0xD8, 0xA8, 0xD8, 0xAA, 0xD9, 0x8A, 0xD8, 0xA7],
      OPCODE_AND),
     ([0xD8, 0xA3, 0xD9, 0x88, 0x5F, 0xD8, 0xA8, 0xD8, 0xAA, 0xD9, 0x8A, 0xD8, 0xA7],
      OPCODE_OR),
     ([0xD8, 0xAE, 0xD8, 0xA7, 0xD9, 0x84, 0xD9, 0x81, 0x5F, 0xD8, 0xA8, 0xD8, 0xAA, 0xD9,
      0x8A, 0xD8, 0xA7],
      OPCODE_XOR),
     ([0xD8, 0xA7, 0xD8, 0xB9, 0xD9, 0x83, 0xD8, 0xB3, 0x5F, 0xD8, 0xA7, 0xD9, 0x84, 0xD8,
      0xA8, 0xD8, 0xAA, 0xD8, 0xA7, 0xD8, 0xAA],
      OPCODE_NOT),
     ([0xD8, 0xA7, 0xD8, 0xB2, 0xD8, 0xAD, 0x5F, 0xD9, 0x8A, 0xD8, 0xB3, 0xD8, 0xA7, 0xD8,
      0xB1, 0xD8, 0xA7],
      OPCODE_SHL),
     ([0xD8, 0xA7, 0xD8, 0xB2, 0xD8, 0xAD, 0x5F, 0xD9, 0x85, 0xD9, 0x86, 0xD8, 0xB7, 0xD9,
      0x82, 0xD9, 0x8A, 0xD8, 0xA7, 0x5F, 0xD9, 0x8A, 0xD9, 0x85, 0xD9, 0x8A, 0xD9, 0x86,
      0xD8, 0xA7],
      OPCODE_SHR),
     ([0xD8, 0xA7, 0xD8, 0xB2, 0xD8, 0xAD, 0x5F, 0xD8, 0xAD, 0xD8, 0xB3, 0xD8, 0xA7, 0xD8,
      0xA8, 0xD9, 0x8A, 0xD8, 0xA7, 0x5F, 0xD9, 0x8A, 0xD9, 0x85, 0xD9, 0x8A, 0xD9, 0x86,
      0xD8, 0xA7],
      OPCODE_SAR),
     ([0xD9, 0x82, 0xD8, 0xA7, 0xD8, 0xB1, 0xD9, 0x86],
      OPCODE_CMP),
     ([0xD8, 0xA7, 0xD8, 0xAE, 0xD8, 0xAA, 0xD8, 0xA8, 0xD8, 0xB1, 0x5F, 0xD8, 0xA7, 0xD9,
      0x84, 0xD8, 0xA8, 0xD8, 0xAA, 0xD8, 0xA7, 0xD8, 0xAA],
      OPCODE_TEST),
     ([0xD8, 0xB9, 0xD9, 0x8A, 0xD9, 0x86, 0x5F, 0xD9, 0x85, 0xD8, 0xB3, 0xD8, 0xA7, 0xD9, 0x88],
      OPCODE_SETE),
     ([0xD8, 0xB9, 0xD9, 0x8A, 0xD9, 0x86, 0x5F, 0xD8, 0xBA, 0xD9, 0x8A, 0xD8, 0xB1, 0x5F,
      0xD9, 0x85, 0xD8, 0xB3, 0xD8, 0xA7, 0xD9, 0x88],
      OPCODE_SETNE),
     ([0xD8, 0xB9, 0xD9, 0x8A, 0xD9, 0x86, 0x5F, 0xD8, 0xA3, 0xD9, 0x83, 0xD8, 0xA8, 0xD8, 0xB1],
      OPCODE_SETG),
     ([0xD8, 0xB9, 0xD9, 0x8A, 0xD9, 0x86, 0x5F, 0xD8, 0xA3, 0xD8, 0xB5, 0xD8, 0xBA, 0xD8, 0xB1],
      OPCODE_SETL),
     ([0xD8, 0xB9, 0xD9, 0x8A, 0xD9, 0x86, 0x5F, 0xD8, 0xA3, 0xD9, 0x83, 0xD8, 0xA8, 0xD8,
      0xB1, 0x5F, 0xD8, 0xA3, 0xD9, 0x88, 0x5F, 0xD9, 0x85, 0xD8, 0xB3, 0xD8, 0xA7, 0xD9, 0x88],
      OPCODE_SETGE),
     ([0xD8, 0xB9, 0xD9, 0x8A, 0xD9, 0x86, 0x5F, 0xD8, 0xA3, 0xD8, 0xB5, 0xD8, 0xBA, 0xD8,
      0xB1, 0x5F, 0xD8, 0xA3, 0xD9, 0x88, 0x5F, 0xD9, 0x85, 0xD8, 0xB3, 0xD8, 0xA7, 0xD9, 0x88],
      OPCODE_SETLE),
     ([0xD8, 0xB9, 0xD9, 0x8A, 0xD9, 0x86, 0x5F, 0xD9, 0x81, 0xD9, 0x88, 0xD9, 0x82],
      OPCODE_SETA),
     ([0xD8, 0xB9, 0xD9, 0x8A, 0xD9, 0x86, 0x5F, 0xD8, 0xAA, 0xD8, 0xAD, 0xD8, 0xAA],
      OPCODE_SETB),
     ([0xD8, 0xB9, 0xD9, 0x8A, 0xD9, 0x86, 0x5F, 0xD9, 0x81, 0xD9, 0x88, 0xD9, 0x82, 0x5F,
      0xD8, 0xA3, 0xD9, 0x88, 0x5F, 0xD9, 0x85, 0xD8, 0xB3, 0xD8, 0xA7, 0xD9, 0x88],
      OPCODE_SETAE),
     ([0xD8, 0xB9, 0xD9, 0x8A, 0xD9, 0x86, 0x5F, 0xD8, 0xAA, 0xD8, 0xAD, 0xD8, 0xAA, 0x5F,
      0xD8, 0xA3, 0xD9, 0x88, 0x5F, 0xD9, 0x85, 0xD8, 0xB3, 0xD8, 0xA7, 0xD9, 0x88],
      OPCODE_SETBE),
     ([0xD8, 0xB9, 0xD9, 0x8A, 0xD9, 0x86, 0x5F, 0xD8, 0xAA, 0xD9, 0x83, 0xD8, 0xA7, 0xD9,
      0x81, 0xD8, 0xA4],
      OPCODE_SETP),
     ([0xD8, 0xB9, 0xD9, 0x8A, 0xD9, 0x86, 0x5F, 0xD8, 0xB9, 0xD8, 0xAF, 0xD9, 0x85, 0x5F,
      0xD8, 0xAA, 0xD9, 0x83, 0xD8, 0xA7, 0xD9, 0x81, 0xD8, 0xA4],
      OPCODE_SETNP),
     ([0xD8, 0xA7, 0xD9, 0x82, 0xD9, 0x81, 0xD8, 0xB2],
      OPCODE_JMP),
     ([0xD9, 0x86, 0xD8, 0xA7, 0xD8, 0xAF],
      OPCODE_CALL),
     ([0xD8, 0xA7, 0xD8, 0xB1, 0xD8, 0xAC, 0xD8, 0xB9],
      OPCODE_RET),
     ([0xD8, 0xA7, 0xD9, 0x82, 0xD9, 0x81, 0xD8, 0xB2, 0x5F, 0xD9, 0x85, 0xD8, 0xB3, 0xD8,
      0xA7, 0xD9, 0x88],
      OPCODE_JE),
     ([0xD8, 0xA7, 0xD9, 0x82, 0xD9, 0x81, 0xD8, 0xB2, 0x5F, 0xD8, 0xBA, 0xD9, 0x8A, 0xD8,
      0xB1, 0x5F, 0xD9, 0x85, 0xD8, 0xB3, 0xD8, 0xA7, 0xD9, 0x88],
      OPCODE_JNE),
     ([0xD8, 0xA7, 0xD9, 0x82, 0xD9, 0x81, 0xD8, 0xB2, 0x5F, 0xD8, 0xA3, 0xD9, 0x83, 0xD8,
      0xA8, 0xD8, 0xB1],
      OPCODE_JG),
     ([0xD8, 0xA7, 0xD9, 0x82, 0xD9, 0x81, 0xD8, 0xB2, 0x5F, 0xD8, 0xA3, 0xD9, 0x83, 0xD8,
      0xA8, 0xD8, 0xB1, 0x5F, 0xD8, 0xA3, 0xD9, 0x88, 0x5F, 0xD9, 0x85, 0xD8, 0xB3, 0xD8,
      0xA7, 0xD9, 0x88],
      OPCODE_JGE),
     ([0xD8, 0xA7, 0xD9, 0x82, 0xD9, 0x81, 0xD8, 0xB2, 0x5F, 0xD8, 0xA3, 0xD8, 0xB5, 0xD8,
      0xBA, 0xD8, 0xB1],
      OPCODE_JL),
     ([0xD8, 0xA7, 0xD9, 0x82, 0xD9, 0x81, 0xD8, 0xB2, 0x5F, 0xD8, 0xA3, 0xD8, 0xB5, 0xD8,
      0xBA, 0xD8, 0xB1, 0x5F, 0xD8, 0xA3, 0xD9, 0x88, 0x5F, 0xD9, 0x85, 0xD8, 0xB3, 0xD8,
      0xA7, 0xD9, 0x88],
      OPCODE_JLE),
     ([0xD8, 0xA7, 0xD9, 0x82, 0xD9, 0x81, 0xD8, 0xB2, 0x5F, 0xD8, 0xB5, 0xD9, 0x81, 0xD8, 0xB1],
      OPCODE_JZ),
     ([0xD8, 0xA7, 0xD9, 0x82, 0xD9, 0x81, 0xD8, 0xB2, 0x5F, 0xD8, 0xBA, 0xD9, 0x8A, 0xD8,
      0xB1, 0x5F, 0xD8, 0xB5, 0xD9, 0x81, 0xD8, 0xB1],
      OPCODE_JNZ),
     ([0xD8, 0xA7, 0xD9, 0x82, 0xD9, 0x81, 0xD8, 0xB2, 0x5F, 0xD8, 0xB3, 0xD8, 0xA7, 0xD9,
      0x84, 0xD8, 0xA8],
      OPCODE_JS),
     ([0xD8, 0xA7, 0xD9, 0x82, 0xD9, 0x81, 0xD8, 0xB2, 0x5F, 0xD8, 0xBA, 0xD9, 0x8A, 0xD8,
      0xB1, 0x5F, 0xD8, 0xB3, 0xD8, 0xA7, 0xD9, 0x84, 0xD8, 0xA8],
      OPCODE_JNS),
     ([0xD9, 0x86, 0xD8, 0xA7, 0xD8, 0xAF, 0x5F, 0xD8, 0xA7, 0xD9, 0x84, 0xD9, 0x86, 0xD8,
      0xB8, 0xD8, 0xA7, 0xD9, 0x85],
      OPCODE_SYSCALL),
     ([0xD9, 0x84, 0xD8, 0xA7, 0x5F, 0xD8, 0xAA, 0xD9, 0x81, 0xD8, 0xB9, 0xD9, 0x84],
      OPCODE_NOP),
     ([0xD8, 0xA7, 0xD9, 0x82, 0xD8, 0xB1, 0xD8, 0xA3, 0x5F, 0xD8, 0xB9, 0xD8, 0xAF, 0xD8,
      0xA7, 0xD8, 0xAF, 0x5F, 0xD8, 0xA7, 0xD9, 0x84, 0xD8, 0xB2, 0xD9, 0x85, 0xD9, 0x86],
      OPCODE_RDTSC),
     ([0xD8, 0xA3, 0xD9, 0x88, 0xD9, 0x82, 0xD9, 0x81],
      OPCODE_HLT),
     ([0xD8, 0xA7, 0xD8, 0xB7, 0xD9, 0x84, 0xD8, 0xA8, 0x5F, 0xD9, 0x85, 0xD9, 0x82, 0xD8,
      0xA7, 0xD8, 0xB7, 0xD8, 0xB9, 0xD8, 0xA9],
      OPCODE_INT)]"

definition LEGACY_KEYWORDS :: "(cstr \<times> cstr) list" where
  "LEGACY_KEYWORDS = [
     ([0xD8, 0xA7, 0xD8, 0xAD, 0xD9, 0x85, 0xD9, 0x84],
      [0xD8, 0xA7, 0xD9, 0x86, 0xD9, 0x82, 0xD9, 0x84]),
     ([0xD8, 0xB9, 0xD9, 0x86, 0xD9, 0x88, 0xD9, 0x86],
      [0xD8, 0xA7, 0xD8, 0xAD, 0xD8, 0xB3, 0xD8, 0xA8, 0x5F, 0xD8, 0xB9, 0xD9, 0x86, 0xD9,
      0x88, 0xD8, 0xA7, 0xD9, 0x86]),
     ([0xD8, 0xA7, 0xD8, 0xB6, 0xD8, 0xB1, 0xD8, 0xA8],
      [0xD8, 0xA7, 0xD8, 0xB6, 0xD8, 0xB1, 0xD8, 0xA8, 0x5F, 0xD9, 0x85, 0xD9, 0x88, 0xD9,
      0x82, 0xD8, 0xB9]),
     ([0xD8, 0xA7, 0xD9, 0x82, 0xD8, 0xB3, 0xD9, 0x85],
      [0xD8, 0xA7, 0xD9, 0x82, 0xD8, 0xB3, 0xD9, 0x85, 0x5F, 0xD9, 0x85, 0xD9, 0x88, 0xD9,
      0x82, 0xD8, 0xB9]),
     ([0xD8, 0xA7, 0xD8, 0xB3, 0xD9, 0x84, 0xD8, 0xA8],
      [0xD8, 0xA7, 0xD8, 0xB9, 0xD9, 0x83, 0xD8, 0xB3, 0x5F, 0xD8, 0xA7, 0xD9, 0x84, 0xD8,
      0xA5, 0xD8, 0xB4, 0xD8, 0xA7, 0xD8, 0xB1, 0xD8, 0xA9]),
     ([0xD9, 0x88],
      [0xD9, 0x88, 0x5F, 0xD8, 0xA8, 0xD8, 0xAA, 0xD9, 0x8A, 0xD8, 0xA7]),
     ([0xD8, 0xA3, 0xD9, 0x88],
      [0xD8, 0xA3, 0xD9, 0x88, 0x5F, 0xD8, 0xA8, 0xD8, 0xAA, 0xD9, 0x8A, 0xD8, 0xA7]),
     ([0xD8, 0xAE, 0xD8, 0xA7, 0xD9, 0x84, 0xD9, 0x81],
      [0xD8, 0xAE, 0xD8, 0xA7, 0xD9, 0x84, 0xD9, 0x81, 0x5F, 0xD8, 0xA8, 0xD8, 0xAA, 0xD9,
      0x8A, 0xD8, 0xA7]),
     ([0xD8, 0xA7, 0xD9, 0x86, 0xD9, 0x81, 0xD9, 0x90],
      [0xD8, 0xA7, 0xD8, 0xB9, 0xD9, 0x83, 0xD8, 0xB3, 0x5F, 0xD8, 0xA7, 0xD9, 0x84, 0xD8,
      0xA8, 0xD8, 0xAA, 0xD8, 0xA7, 0xD8, 0xAA]),
     ([0xD8, 0xA7, 0xD8, 0xB2, 0xD8, 0xAD, 0xD9, 0x84],
      [0xD8, 0xA7, 0xD8, 0xB2, 0xD8, 0xAD, 0x5F, 0xD9, 0x8A, 0xD8, 0xB3, 0xD8, 0xA7, 0xD8,
      0xB1, 0xD8, 0xA7]),
     ([0xD8, 0xA7, 0xD8, 0xB2, 0xD8, 0xAD, 0xD9, 0x8A],
      [0xD8, 0xA7, 0xD8, 0xB2, 0xD8, 0xAD, 0x5F, 0xD9, 0x85, 0xD9, 0x86, 0xD8, 0xB7, 0xD9,
      0x82, 0xD9, 0x8A, 0xD8, 0xA7, 0x5F, 0xD9, 0x8A, 0xD9, 0x85, 0xD9, 0x8A, 0xD9, 0x86,
      0xD8, 0xA7]),
     ([0xD8, 0xA7, 0xD8, 0xB2, 0xD8, 0xAD, 0xD8, 0xB1],
      [0xD8, 0xA7, 0xD8, 0xB2, 0xD8, 0xAD, 0x5F, 0xD8, 0xAD, 0xD8, 0xB3, 0xD8, 0xA7, 0xD8,
      0xA8, 0xD9, 0x8A, 0xD8, 0xA7, 0x5F, 0xD9, 0x8A, 0xD9, 0x85, 0xD9, 0x8A, 0xD9, 0x86,
      0xD8, 0xA7]),
     ([0xD8, 0xA7, 0xD8, 0xAE, 0xD8, 0xAA, 0xD8, 0xA8, 0xD8, 0xB1],
      [0xD8, 0xA7, 0xD8, 0xAE, 0xD8, 0xAA, 0xD8, 0xA8, 0xD8, 0xB1, 0x5F, 0xD8, 0xA7, 0xD9,
      0x84, 0xD8, 0xA8, 0xD8, 0xAA, 0xD8, 0xA7, 0xD8, 0xAA]),
     ([0xD9, 0x86, 0xD8, 0xA7, 0xD8, 0xAF, 0xD9, 0x90],
      [0xD9, 0x86, 0xD8, 0xA7, 0xD8, 0xAF]),
     ([0xD8, 0xA7, 0xD9, 0x82, 0xD9, 0x81, 0xD8, 0xB2, 0x5F, 0xD9, 0x85, 0xD8, 0xB3, 0xD8,
      0xA7, 0xD9, 0x88, 0xD9, 0x8D],
      [0xD8, 0xA7, 0xD9, 0x82, 0xD9, 0x81, 0xD8, 0xB2, 0x5F, 0xD9, 0x85, 0xD8, 0xB3, 0xD8,
      0xA7, 0xD9, 0x88]),
     ([0xD8, 0xA7, 0xD9, 0x82, 0xD9, 0x81, 0xD8, 0xB2, 0x5F, 0xD9, 0x85, 0xD8, 0xAE, 0xD8,
      0xAA, 0xD9, 0x84, 0xD9, 0x81],
      [0xD8, 0xA7, 0xD9, 0x82, 0xD9, 0x81, 0xD8, 0xB2, 0x5F, 0xD8, 0xBA, 0xD9, 0x8A, 0xD8,
      0xB1, 0x5F, 0xD9, 0x85, 0xD8, 0xB3, 0xD8, 0xA7, 0xD9, 0x88]),
     ([0xD8, 0xA7, 0xD9, 0x82, 0xD9, 0x81, 0xD8, 0xB2, 0x5F, 0xD8, 0xA3, 0xD9, 0x83, 0xD8,
      0xA8, 0xD8, 0xB1, 0x5F, 0xD8, 0xA3, 0xD9, 0x88],
      [0xD8, 0xA7, 0xD9, 0x82, 0xD9, 0x81, 0xD8, 0xB2, 0x5F, 0xD8, 0xA3, 0xD9, 0x83, 0xD8,
      0xA8, 0xD8, 0xB1, 0x5F, 0xD8, 0xA3, 0xD9, 0x88, 0x5F, 0xD9, 0x85, 0xD8, 0xB3, 0xD8,
      0xA7, 0xD9, 0x88]),
     ([0xD8, 0xA7, 0xD9, 0x82, 0xD9, 0x81, 0xD8, 0xB2, 0x5F, 0xD8, 0xA3, 0xD8, 0xB5, 0xD8,
      0xBA, 0xD8, 0xB1, 0x5F, 0xD8, 0xA3, 0xD9, 0x88],
      [0xD8, 0xA7, 0xD9, 0x82, 0xD9, 0x81, 0xD8, 0xB2, 0x5F, 0xD8, 0xA3, 0xD8, 0xB5, 0xD8,
      0xBA, 0xD8, 0xB1, 0x5F, 0xD8, 0xA3, 0xD9, 0x88, 0x5F, 0xD9, 0x85, 0xD8, 0xB3, 0xD8,
      0xA7, 0xD9, 0x88]),
     ([0xD8, 0xA7, 0xD9, 0x82, 0xD9, 0x81, 0xD8, 0xB2, 0x5F, 0xD9, 0x84, 0xD8, 0xA7, 0xD8,
      0xB5, 0xD9, 0x81, 0xD8, 0xB1],
      [0xD8, 0xA7, 0xD9, 0x82, 0xD9, 0x81, 0xD8, 0xB2, 0x5F, 0xD8, 0xBA, 0xD9, 0x8A, 0xD8,
      0xB1, 0x5F, 0xD8, 0xB5, 0xD9, 0x81, 0xD8, 0xB1]),
     ([0xD8, 0xA7, 0xD9, 0x82, 0xD9, 0x81, 0xD8, 0xB2, 0x5F, 0xD9, 0x85, 0xD9, 0x88, 0xD8,
      0xAC, 0xD8, 0xA8],
      [0xD8, 0xA7, 0xD9, 0x82, 0xD9, 0x81, 0xD8, 0xB2, 0x5F, 0xD8, 0xBA, 0xD9, 0x8A, 0xD8,
      0xB1, 0x5F, 0xD8, 0xB3, 0xD8, 0xA7, 0xD9, 0x84, 0xD8, 0xA8]),
     ([0xD9, 0x86, 0xD8, 0xAF, 0xD8, 0xA7, 0xD8, 0xA1, 0x5F, 0xD9, 0x86, 0xD8, 0xB8, 0xD8,
      0xA7, 0xD9, 0x85],
      [0xD9, 0x86, 0xD8, 0xA7, 0xD8, 0xAF, 0x5F, 0xD8, 0xA7, 0xD9, 0x84, 0xD9, 0x86, 0xD8,
      0xB8, 0xD8, 0xA7, 0xD9, 0x85]),
     ([0xD9, 0x84, 0xD8, 0xA7, 0xD8, 0xB4, 0xD9, 0x8A, 0xD8, 0xA1],
      [0xD9, 0x84, 0xD8, 0xA7, 0x5F, 0xD8, 0xAA, 0xD9, 0x81, 0xD8, 0xB9, 0xD9, 0x84]),
     ([0xD9, 0x82, 0xD8, 0xA7, 0xD8, 0xB7, 0xD8, 0xB9],
      [0xD8, 0xA7, 0xD8, 0xB7, 0xD9, 0x84, 0xD8, 0xA8, 0x5F, 0xD9, 0x85, 0xD9, 0x82, 0xD8,
      0xA7, 0xD8, 0xB7, 0xD8, 0xB9, 0xD8, 0xA9])]"

definition keywords_lookup :: "cstr \<Rightarrow> OpcodeEnum" where
  "keywords_lookup text =
     (case map_of KEYWORD_TABLE text of Some op \<Rightarrow> op | None \<Rightarrow> OPCODE_INVALID)"

definition keywords_legacy_replacement :: "cstr \<Rightarrow> cstr option" where
  "keywords_legacy_replacement text = map_of LEGACY_KEYWORDS text"

section \<open>Registers\<close>

definition REG_TABLE :: "(cstr \<times> int) list" where
  "REG_TABLE = [
     ([0xD8, 0xB3, 0xD8, 0xAC, 0xD9, 0x84, 0x5F, 0xD8, 0xA7, 0xD9, 0x84, 0xD9, 0x85, 0xD8,
      0xB1, 0xD9, 0x83, 0xD9, 0x85],
      0),
     ([0xD8, 0xB3, 0xD8, 0xAC, 0xD9, 0x84, 0x5F, 0xD8, 0xA7, 0xD9, 0x84, 0xD8, 0xB9, 0xD8,
      0xAF, 0xD8, 0xA7, 0xD8, 0xAF],
      1),
     ([0xD8, 0xB3, 0xD8, 0xAC, 0xD9, 0x84, 0x5F, 0xD8, 0xA7, 0xD9, 0x84, 0xD8, 0xA8, 0xD9,
      0x8A, 0xD8, 0xA7, 0xD9, 0x86, 0xD8, 0xA7, 0xD8, 0xAA],
      2),
     ([0xD8, 0xB3, 0xD8, 0xAC, 0xD9, 0x84, 0x5F, 0xD8, 0xA7, 0xD9, 0x84, 0xD9, 0x82, 0xD8,
      0xA7, 0xD8, 0xB9, 0xD8, 0xAF, 0xD8, 0xA9],
      3),
     ([0xD9, 0x85, 0xD8, 0xA4, 0xD8, 0xB4, 0xD8, 0xB1, 0x5F, 0xD8, 0xA7, 0xD9, 0x84, 0xD9,
      0x85, 0xD9, 0x83, 0xD8, 0xAF, 0xD8, 0xB3],
      4),
     ([0xD9, 0x85, 0xD8, 0xA4, 0xD8, 0xB4, 0xD8, 0xB1, 0x5F, 0xD8, 0xA7, 0xD9, 0x84, 0xD9,
      0x82, 0xD8, 0xA7, 0xD8, 0xB9, 0xD8, 0xAF, 0xD8, 0xA9],
      5),
     ([0xD9, 0x81, 0xD9, 0x87, 0xD8, 0xB1, 0xD8, 0xB3, 0x5F, 0xD8, 0xA7, 0xD9, 0x84, 0xD9,
      0x85, 0xD8, 0xB5, 0xD8, 0xAF, 0xD8, 0xB1],
      6),
     ([0xD9, 0x81, 0xD9, 0x87, 0xD8, 0xB1, 0xD8, 0xB3, 0x5F, 0xD8, 0xA7, 0xD9, 0x84, 0xD9,
      0x88, 0xD8, 0xAC, 0xD9, 0x87, 0xD8, 0xA9],
      7),
     ([0xD8, 0xB3, 0xD8, 0xAC, 0xD9, 0x84, 0x5F, 0xD8, 0xB9, 0xD8, 0xA7, 0xD9, 0x85, 0x5F,
      0xD9, 0xA8],
      int (reg_code REG_R8)),
     ([0xD8, 0xB3, 0xD8, 0xAC, 0xD9, 0x84, 0x5F, 0xD8, 0xB9, 0xD8, 0xA7, 0xD9, 0x85, 0x5F,
      0xD9, 0xA9],
      int (reg_code REG_R9)),
     ([0xD8, 0xB3, 0xD8, 0xAC, 0xD9, 0x84, 0x5F, 0xD8, 0xB9, 0xD8, 0xA7, 0xD9, 0x85, 0x5F,
      0xD9, 0xA1, 0xD9, 0xA0],
      int (reg_code REG_R10)),
     ([0xD8, 0xB3, 0xD8, 0xAC, 0xD9, 0x84, 0x5F, 0xD8, 0xB9, 0xD8, 0xA7, 0xD9, 0x85, 0x5F,
      0xD9, 0xA1, 0xD9, 0xA1],
      int (reg_code REG_R11)),
     ([0xD8, 0xB3, 0xD8, 0xAC, 0xD9, 0x84, 0x5F, 0xD8, 0xB9, 0xD8, 0xA7, 0xD9, 0x85, 0x5F,
      0xD9, 0xA1, 0xD9, 0xA2],
      int (reg_code REG_R12)),
     ([0xD8, 0xB3, 0xD8, 0xAC, 0xD9, 0x84, 0x5F, 0xD8, 0xB9, 0xD8, 0xA7, 0xD9, 0x85, 0x5F,
      0xD9, 0xA1, 0xD9, 0xA3],
      int (reg_code REG_R13)),
     ([0xD8, 0xB3, 0xD8, 0xAC, 0xD9, 0x84, 0x5F, 0xD8, 0xB9, 0xD8, 0xA7, 0xD9, 0x85, 0x5F,
      0xD9, 0xA1, 0xD9, 0xA4],
      int (reg_code REG_R14)),
     ([0xD8, 0xB3, 0xD8, 0xAC, 0xD9, 0x84, 0x5F, 0xD8, 0xB9, 0xD8, 0xA7, 0xD9, 0x85, 0x5F,
      0xD9, 0xA1, 0xD9, 0xA5],
      int (reg_code REG_R15)),
     ([0xD8, 0xB3, 0xD8, 0xAC, 0xD9, 0x84, 0x5F, 0xD8, 0xA7, 0xD9, 0x84, 0xD9, 0x85, 0xD8,
      0xB1, 0xD9, 0x83, 0xD9, 0x85, 0x5F, 0xD9, 0xA3, 0xD9, 0xA2],
      int (reg_code REG_EAX)),
     ([0xD8, 0xB3, 0xD8, 0xAC, 0xD9, 0x84, 0x5F, 0xD8, 0xA7, 0xD9, 0x84, 0xD8, 0xB9, 0xD8,
      0xAF, 0xD8, 0xA7, 0xD8, 0xAF, 0x5F, 0xD9, 0xA3, 0xD9, 0xA2],
      int (reg_code REG_ECX)),
     ([0xD8, 0xB3, 0xD8, 0xAC, 0xD9, 0x84, 0x5F, 0xD8, 0xA7, 0xD9, 0x84, 0xD8, 0xA8, 0xD9,
      0x8A, 0xD8, 0xA7, 0xD9, 0x86, 0xD8, 0xA7, 0xD8, 0xAA, 0x5F, 0xD9, 0xA3, 0xD9, 0xA2],
      int (reg_code REG_EDX)),
     ([0xD8, 0xB3, 0xD8, 0xAC, 0xD9, 0x84, 0x5F, 0xD8, 0xA7, 0xD9, 0x84, 0xD9, 0x82, 0xD8,
      0xA7, 0xD8, 0xB9, 0xD8, 0xAF, 0xD8, 0xA9, 0x5F, 0xD9, 0xA3, 0xD9, 0xA2],
      int (reg_code REG_EBX)),
     ([0xD9, 0x85, 0xD8, 0xA4, 0xD8, 0xB4, 0xD8, 0xB1, 0x5F, 0xD8, 0xA7, 0xD9, 0x84, 0xD9,
      0x85, 0xD9, 0x83, 0xD8, 0xAF, 0xD8, 0xB3, 0x5F, 0xD9, 0xA3, 0xD9, 0xA2],
      int (reg_code REG_ESP)),
     ([0xD9, 0x85, 0xD8, 0xA4, 0xD8, 0xB4, 0xD8, 0xB1, 0x5F, 0xD8, 0xA7, 0xD9, 0x84, 0xD9,
      0x82, 0xD8, 0xA7, 0xD8, 0xB9, 0xD8, 0xAF, 0xD8, 0xA9, 0x5F, 0xD9, 0xA3, 0xD9, 0xA2],
      int (reg_code REG_EBP)),
     ([0xD9, 0x81, 0xD9, 0x87, 0xD8, 0xB1, 0xD8, 0xB3, 0x5F, 0xD8, 0xA7, 0xD9, 0x84, 0xD9,
      0x85, 0xD8, 0xB5, 0xD8, 0xAF, 0xD8, 0xB1, 0x5F, 0xD9, 0xA3, 0xD9, 0xA2],
      int (reg_code REG_ESI)),
     ([0xD9, 0x81, 0xD9, 0x87, 0xD8, 0xB1, 0xD8, 0xB3, 0x5F, 0xD8, 0xA7, 0xD9, 0x84, 0xD9,
      0x88, 0xD8, 0xAC, 0xD9, 0x87, 0xD8, 0xA9, 0x5F, 0xD9, 0xA3, 0xD9, 0xA2],
      int (reg_code REG_EDI)),
     ([0xD8, 0xB3, 0xD8, 0xAC, 0xD9, 0x84, 0x5F, 0xD8, 0xB9, 0xD8, 0xA7, 0xD9, 0x85, 0x5F,
      0xD9, 0xA8, 0x5F, 0xD9, 0xA3, 0xD9, 0xA2],
      int (reg_code REG_R8D)),
     ([0xD8, 0xB3, 0xD8, 0xAC, 0xD9, 0x84, 0x5F, 0xD8, 0xB9, 0xD8, 0xA7, 0xD9, 0x85, 0x5F,
      0xD9, 0xA9, 0x5F, 0xD9, 0xA3, 0xD9, 0xA2],
      int (reg_code REG_R9D)),
     ([0xD8, 0xB3, 0xD8, 0xAC, 0xD9, 0x84, 0x5F, 0xD8, 0xB9, 0xD8, 0xA7, 0xD9, 0x85, 0x5F,
      0xD9, 0xA1, 0xD9, 0xA0, 0x5F, 0xD9, 0xA3, 0xD9, 0xA2],
      int (reg_code REG_R10D)),
     ([0xD8, 0xB3, 0xD8, 0xAC, 0xD9, 0x84, 0x5F, 0xD8, 0xB9, 0xD8, 0xA7, 0xD9, 0x85, 0x5F,
      0xD9, 0xA1, 0xD9, 0xA1, 0x5F, 0xD9, 0xA3, 0xD9, 0xA2],
      int (reg_code REG_R11D)),
     ([0xD8, 0xB3, 0xD8, 0xAC, 0xD9, 0x84, 0x5F, 0xD8, 0xB9, 0xD8, 0xA7, 0xD9, 0x85, 0x5F,
      0xD9, 0xA1, 0xD9, 0xA2, 0x5F, 0xD9, 0xA3, 0xD9, 0xA2],
      int (reg_code REG_R12D)),
     ([0xD8, 0xB3, 0xD8, 0xAC, 0xD9, 0x84, 0x5F, 0xD8, 0xB9, 0xD8, 0xA7, 0xD9, 0x85, 0x5F,
      0xD9, 0xA1, 0xD9, 0xA3, 0x5F, 0xD9, 0xA3, 0xD9, 0xA2],
      int (reg_code REG_R13D)),
     ([0xD8, 0xB3, 0xD8, 0xAC, 0xD9, 0x84, 0x5F, 0xD8, 0xB9, 0xD8, 0xA7, 0xD9, 0x85, 0x5F,
      0xD9, 0xA1, 0xD9, 0xA4, 0x5F, 0xD9, 0xA3, 0xD9, 0xA2],
      int (reg_code REG_R14D)),
     ([0xD8, 0xB3, 0xD8, 0xAC, 0xD9, 0x84, 0x5F, 0xD8, 0xB9, 0xD8, 0xA7, 0xD9, 0x85, 0x5F,
      0xD9, 0xA1, 0xD9, 0xA5, 0x5F, 0xD9, 0xA3, 0xD9, 0xA2],
      int (reg_code REG_R15D)),
     ([0xD8, 0xB3, 0xD8, 0xAC, 0xD9, 0x84, 0x5F, 0xD8, 0xA7, 0xD9, 0x84, 0xD9, 0x85, 0xD8,
      0xB1, 0xD9, 0x83, 0xD9, 0x85, 0x5F, 0xD9, 0xA1, 0xD9, 0xA6],
      int (reg_code REG_AX)),
     ([0xD8, 0xB3, 0xD8, 0xAC, 0xD9, 0x84, 0x5F, 0xD8, 0xA7, 0xD9, 0x84, 0xD8, 0xB9, 0xD8,
      0xAF, 0xD8, 0xA7, 0xD8, 0xAF, 0x5F, 0xD9, 0xA1, 0xD9, 0xA6],
      int (reg_code REG_CX)),
     ([0xD8, 0xB3, 0xD8, 0xAC, 0xD9, 0x84, 0x5F, 0xD8, 0xA7, 0xD9, 0x84, 0xD8, 0xA8, 0xD9,
      0x8A, 0xD8, 0xA7, 0xD9, 0x86, 0xD8, 0xA7, 0xD8, 0xAA, 0x5F, 0xD9, 0xA1, 0xD9, 0xA6],
      int (reg_code REG_DX)),
     ([0xD8, 0xB3, 0xD8, 0xAC, 0xD9, 0x84, 0x5F, 0xD8, 0xA7, 0xD9, 0x84, 0xD9, 0x82, 0xD8,
      0xA7, 0xD8, 0xB9, 0xD8, 0xAF, 0xD8, 0xA9, 0x5F, 0xD9, 0xA1, 0xD9, 0xA6],
      int (reg_code REG_BX)),
     ([0xD9, 0x85, 0xD8, 0xA4, 0xD8, 0xB4, 0xD8, 0xB1, 0x5F, 0xD8, 0xA7, 0xD9, 0x84, 0xD9,
      0x85, 0xD9, 0x83, 0xD8, 0xAF, 0xD8, 0xB3, 0x5F, 0xD9, 0xA1, 0xD9, 0xA6],
      int (reg_code REG_SP)),
     ([0xD9, 0x85, 0xD8, 0xA4, 0xD8, 0xB4, 0xD8, 0xB1, 0x5F, 0xD8, 0xA7, 0xD9, 0x84, 0xD9,
      0x82, 0xD8, 0xA7, 0xD8, 0xB9, 0xD8, 0xAF, 0xD8, 0xA9, 0x5F, 0xD9, 0xA1, 0xD9, 0xA6],
      int (reg_code REG_BP)),
     ([0xD9, 0x81, 0xD9, 0x87, 0xD8, 0xB1, 0xD8, 0xB3, 0x5F, 0xD8, 0xA7, 0xD9, 0x84, 0xD9,
      0x85, 0xD8, 0xB5, 0xD8, 0xAF, 0xD8, 0xB1, 0x5F, 0xD9, 0xA1, 0xD9, 0xA6],
      int (reg_code REG_SI)),
     ([0xD9, 0x81, 0xD9, 0x87, 0xD8, 0xB1, 0xD8, 0xB3, 0x5F, 0xD8, 0xA7, 0xD9, 0x84, 0xD9,
      0x88, 0xD8, 0xAC, 0xD9, 0x87, 0xD8, 0xA9, 0x5F, 0xD9, 0xA1, 0xD9, 0xA6],
      int (reg_code REG_DI)),
     ([0xD8, 0xB3, 0xD8, 0xAC, 0xD9, 0x84, 0x5F, 0xD8, 0xB9, 0xD8, 0xA7, 0xD9, 0x85, 0x5F,
      0xD9, 0xA8, 0x5F, 0xD9, 0xA1, 0xD9, 0xA6],
      int (reg_code REG_R8W)),
     ([0xD8, 0xB3, 0xD8, 0xAC, 0xD9, 0x84, 0x5F, 0xD8, 0xB9, 0xD8, 0xA7, 0xD9, 0x85, 0x5F,
      0xD9, 0xA9, 0x5F, 0xD9, 0xA1, 0xD9, 0xA6],
      int (reg_code REG_R9W)),
     ([0xD8, 0xB3, 0xD8, 0xAC, 0xD9, 0x84, 0x5F, 0xD8, 0xB9, 0xD8, 0xA7, 0xD9, 0x85, 0x5F,
      0xD9, 0xA1, 0xD9, 0xA0, 0x5F, 0xD9, 0xA1, 0xD9, 0xA6],
      int (reg_code REG_R10W)),
     ([0xD8, 0xB3, 0xD8, 0xAC, 0xD9, 0x84, 0x5F, 0xD8, 0xB9, 0xD8, 0xA7, 0xD9, 0x85, 0x5F,
      0xD9, 0xA1, 0xD9, 0xA1, 0x5F, 0xD9, 0xA1, 0xD9, 0xA6],
      int (reg_code REG_R11W)),
     ([0xD8, 0xB3, 0xD8, 0xAC, 0xD9, 0x84, 0x5F, 0xD8, 0xB9, 0xD8, 0xA7, 0xD9, 0x85, 0x5F,
      0xD9, 0xA1, 0xD9, 0xA2, 0x5F, 0xD9, 0xA1, 0xD9, 0xA6],
      int (reg_code REG_R12W)),
     ([0xD8, 0xB3, 0xD8, 0xAC, 0xD9, 0x84, 0x5F, 0xD8, 0xB9, 0xD8, 0xA7, 0xD9, 0x85, 0x5F,
      0xD9, 0xA1, 0xD9, 0xA3, 0x5F, 0xD9, 0xA1, 0xD9, 0xA6],
      int (reg_code REG_R13W)),
     ([0xD8, 0xB3, 0xD8, 0xAC, 0xD9, 0x84, 0x5F, 0xD8, 0xB9, 0xD8, 0xA7, 0xD9, 0x85, 0x5F,
      0xD9, 0xA1, 0xD9, 0xA4, 0x5F, 0xD9, 0xA1, 0xD9, 0xA6],
      int (reg_code REG_R14W)),
     ([0xD8, 0xB3, 0xD8, 0xAC, 0xD9, 0x84, 0x5F, 0xD8, 0xB9, 0xD8, 0xA7, 0xD9, 0x85, 0x5F,
      0xD9, 0xA1, 0xD9, 0xA5, 0x5F, 0xD9, 0xA1, 0xD9, 0xA6],
      int (reg_code REG_R15W)),
     ([0xD8, 0xB3, 0xD8, 0xAC, 0xD9, 0x84, 0x5F, 0xD8, 0xA7, 0xD9, 0x84, 0xD9, 0x85, 0xD8,
      0xB1, 0xD9, 0x83, 0xD9, 0x85, 0x5F, 0xD9, 0xA8],
      int (reg_code REG_AL)),
     ([0xD8, 0xB3, 0xD8, 0xAC, 0xD9, 0x84, 0x5F, 0xD8, 0xA7, 0xD9, 0x84, 0xD8, 0xB9, 0xD8,
      0xAF, 0xD8, 0xA7, 0xD8, 0xAF, 0x5F, 0xD9, 0xA8],
      int (reg_code REG_CL)),
     ([0xD8, 0xB3, 0xD8, 0xAC, 0xD9, 0x84, 0x5F, 0xD8, 0xA7, 0xD9, 0x84, 0xD8, 0xA8, 0xD9,
      0x8A, 0xD8, 0xA7, 0xD9, 0x86, 0xD8, 0xA7, 0xD8, 0xAA, 0x5F, 0xD9, 0xA8],
      int (reg_code REG_DL)),
     ([0xD8, 0xB3, 0xD8, 0xAC, 0xD9, 0x84, 0x5F, 0xD8, 0xA7, 0xD9, 0x84, 0xD9, 0x82, 0xD8,
      0xA7, 0xD8, 0xB9, 0xD8, 0xAF, 0xD8, 0xA9, 0x5F, 0xD9, 0xA8],
      int (reg_code REG_BL)),
     ([0xD9, 0x85, 0xD8, 0xA4, 0xD8, 0xB4, 0xD8, 0xB1, 0x5F, 0xD8, 0xA7, 0xD9, 0x84, 0xD9,
      0x85, 0xD9, 0x83, 0xD8, 0xAF, 0xD8, 0xB3, 0x5F, 0xD9, 0xA8],
      int (reg_code REG_SPL)),
     ([0xD9, 0x85, 0xD8, 0xA4, 0xD8, 0xB4, 0xD8, 0xB1, 0x5F, 0xD8, 0xA7, 0xD9, 0x84, 0xD9,
      0x82, 0xD8, 0xA7, 0xD8, 0xB9, 0xD8, 0xAF, 0xD8, 0xA9, 0x5F, 0xD9, 0xA8],
      int (reg_code REG_BPL)),
     ([0xD9, 0x81, 0xD9, 0x87, 0xD8, 0xB1, 0xD8, 0xB3, 0x5F, 0xD8, 0xA7, 0xD9, 0x84, 0xD9,
      0x85, 0xD8, 0xB5, 0xD8, 0xAF, 0xD8, 0xB1, 0x5F, 0xD9, 0xA8],
      int (reg_code REG_SIL)),
     ([0xD9, 0x81, 0xD9, 0x87, 0xD8, 0xB1, 0xD8, 0xB3, 0x5F, 0xD8, 0xA7, 0xD9, 0x84, 0xD9,
      0x88, 0xD8, 0xAC, 0xD9, 0x87, 0xD8, 0xA9, 0x5F, 0xD9, 0xA8],
      int (reg_code REG_DIL)),
     ([0xD8, 0xB3, 0xD8, 0xAC, 0xD9, 0x84, 0x5F, 0xD8, 0xB9, 0xD8, 0xA7, 0xD9, 0x85, 0x5F,
      0xD9, 0xA8, 0x5F, 0xD9, 0xA8],
      int (reg_code REG_R8B)),
     ([0xD8, 0xB3, 0xD8, 0xAC, 0xD9, 0x84, 0x5F, 0xD8, 0xB9, 0xD8, 0xA7, 0xD9, 0x85, 0x5F,
      0xD9, 0xA9, 0x5F, 0xD9, 0xA8],
      int (reg_code REG_R9B)),
     ([0xD8, 0xB3, 0xD8, 0xAC, 0xD9, 0x84, 0x5F, 0xD8, 0xB9, 0xD8, 0xA7, 0xD9, 0x85, 0x5F,
      0xD9, 0xA1, 0xD9, 0xA0, 0x5F, 0xD9, 0xA8],
      int (reg_code REG_R10B)),
     ([0xD8, 0xB3, 0xD8, 0xAC, 0xD9, 0x84, 0x5F, 0xD8, 0xB9, 0xD8, 0xA7, 0xD9, 0x85, 0x5F,
      0xD9, 0xA1, 0xD9, 0xA1, 0x5F, 0xD9, 0xA8],
      int (reg_code REG_R11B)),
     ([0xD8, 0xB3, 0xD8, 0xAC, 0xD9, 0x84, 0x5F, 0xD8, 0xB9, 0xD8, 0xA7, 0xD9, 0x85, 0x5F,
      0xD9, 0xA1, 0xD9, 0xA2, 0x5F, 0xD9, 0xA8],
      int (reg_code REG_R12B)),
     ([0xD8, 0xB3, 0xD8, 0xAC, 0xD9, 0x84, 0x5F, 0xD8, 0xB9, 0xD8, 0xA7, 0xD9, 0x85, 0x5F,
      0xD9, 0xA1, 0xD9, 0xA3, 0x5F, 0xD9, 0xA8],
      int (reg_code REG_R13B)),
     ([0xD8, 0xB3, 0xD8, 0xAC, 0xD9, 0x84, 0x5F, 0xD8, 0xB9, 0xD8, 0xA7, 0xD9, 0x85, 0x5F,
      0xD9, 0xA1, 0xD9, 0xA4, 0x5F, 0xD9, 0xA8],
      int (reg_code REG_R14B)),
     ([0xD8, 0xB3, 0xD8, 0xAC, 0xD9, 0x84, 0x5F, 0xD8, 0xB9, 0xD8, 0xA7, 0xD9, 0x85, 0x5F,
      0xD9, 0xA1, 0xD9, 0xA5, 0x5F, 0xD9, 0xA8],
      int (reg_code REG_R15B)),
     ([0xD8, 0xB3, 0xD8, 0xAC, 0xD9, 0x84, 0x5F, 0xD8, 0xB9, 0xD8, 0xB4, 0xD8, 0xB1, 0xD9,
      0x8A, 0x5F, 0xD9, 0xA0],
      int (reg_code REG_XMM0)),
     ([0xD8, 0xB3, 0xD8, 0xAC, 0xD9, 0x84, 0x5F, 0xD8, 0xB9, 0xD8, 0xB4, 0xD8, 0xB1, 0xD9,
      0x8A, 0x5F, 0xD9, 0xA1],
      int (reg_code REG_XMM1)),
     ([0xD8, 0xB3, 0xD8, 0xAC, 0xD9, 0x84, 0x5F, 0xD8, 0xB9, 0xD8, 0xB4, 0xD8, 0xB1, 0xD9,
      0x8A, 0x5F, 0xD9, 0xA2],
      int (reg_code REG_XMM2)),
     ([0xD8, 0xB3, 0xD8, 0xAC, 0xD9, 0x84, 0x5F, 0xD8, 0xB9, 0xD8, 0xB4, 0xD8, 0xB1, 0xD9,
      0x8A, 0x5F, 0xD9, 0xA3],
      int (reg_code REG_XMM3)),
     ([0xD8, 0xB3, 0xD8, 0xAC, 0xD9, 0x84, 0x5F, 0xD8, 0xB9, 0xD8, 0xB4, 0xD8, 0xB1, 0xD9,
      0x8A, 0x5F, 0xD9, 0xA4],
      int (reg_code REG_XMM4)),
     ([0xD8, 0xB3, 0xD8, 0xAC, 0xD9, 0x84, 0x5F, 0xD8, 0xB9, 0xD8, 0xB4, 0xD8, 0xB1, 0xD9,
      0x8A, 0x5F, 0xD9, 0xA5],
      int (reg_code REG_XMM5)),
     ([0xD8, 0xB3, 0xD8, 0xAC, 0xD9, 0x84, 0x5F, 0xD8, 0xB9, 0xD8, 0xB4, 0xD8, 0xB1, 0xD9,
      0x8A, 0x5F, 0xD9, 0xA6],
      int (reg_code REG_XMM6)),
     ([0xD8, 0xB3, 0xD8, 0xAC, 0xD9, 0x84, 0x5F, 0xD8, 0xB9, 0xD8, 0xB4, 0xD8, 0xB1, 0xD9,
      0x8A, 0x5F, 0xD9, 0xA7],
      int (reg_code REG_XMM7)),
     ([0xD8, 0xB3, 0xD8, 0xAC, 0xD9, 0x84, 0x5F, 0xD8, 0xB9, 0xD8, 0xB4, 0xD8, 0xB1, 0xD9,
      0x8A, 0x5F, 0xD9, 0xA8],
      int (reg_code REG_XMM8)),
     ([0xD8, 0xB3, 0xD8, 0xAC, 0xD9, 0x84, 0x5F, 0xD8, 0xB9, 0xD8, 0xB4, 0xD8, 0xB1, 0xD9,
      0x8A, 0x5F, 0xD9, 0xA9],
      int (reg_code REG_XMM9)),
     ([0xD8, 0xB3, 0xD8, 0xAC, 0xD9, 0x84, 0x5F, 0xD8, 0xB9, 0xD8, 0xB4, 0xD8, 0xB1, 0xD9,
      0x8A, 0x5F, 0xD9, 0xA1, 0xD9, 0xA0],
      int (reg_code REG_XMM10)),
     ([0xD8, 0xB3, 0xD8, 0xAC, 0xD9, 0x84, 0x5F, 0xD8, 0xB9, 0xD8, 0xB4, 0xD8, 0xB1, 0xD9,
      0x8A, 0x5F, 0xD9, 0xA1, 0xD9, 0xA1],
      int (reg_code REG_XMM11)),
     ([0xD8, 0xB3, 0xD8, 0xAC, 0xD9, 0x84, 0x5F, 0xD8, 0xB9, 0xD8, 0xB4, 0xD8, 0xB1, 0xD9,
      0x8A, 0x5F, 0xD9, 0xA1, 0xD9, 0xA2],
      int (reg_code REG_XMM12)),
     ([0xD8, 0xB3, 0xD8, 0xAC, 0xD9, 0x84, 0x5F, 0xD8, 0xB9, 0xD8, 0xB4, 0xD8, 0xB1, 0xD9,
      0x8A, 0x5F, 0xD9, 0xA1, 0xD9, 0xA3],
      int (reg_code REG_XMM13)),
     ([0xD8, 0xB3, 0xD8, 0xAC, 0xD9, 0x84, 0x5F, 0xD8, 0xB9, 0xD8, 0xB4, 0xD8, 0xB1, 0xD9,
      0x8A, 0x5F, 0xD9, 0xA1, 0xD9, 0xA4],
      int (reg_code REG_XMM14)),
     ([0xD8, 0xB3, 0xD8, 0xAC, 0xD9, 0x84, 0x5F, 0xD8, 0xB9, 0xD8, 0xB4, 0xD8, 0xB1, 0xD9,
      0x8A, 0x5F, 0xD9, 0xA1, 0xD9, 0xA5],
      int (reg_code REG_XMM15))]"

definition LEGACY_REGISTERS :: "(cstr \<times> cstr) list" where
  "LEGACY_REGISTERS = [
     ([0xD9, 0x85, 0xD8, 0xAC, 0xD9, 0x85, 0xD8, 0xB9],
      [0xD8, 0xB3, 0xD8, 0xAC, 0xD9, 0x84, 0x5F, 0xD8, 0xA7, 0xD9, 0x84, 0xD9, 0x85, 0xD8,
      0xB1, 0xD9, 0x83, 0xD9, 0x85]),
     ([0xD8, 0xB9, 0xD8, 0xAF, 0xD8, 0xA7, 0xD8, 0xAF],
      [0xD8, 0xB3, 0xD8, 0xAC, 0xD9, 0x84, 0x5F, 0xD8, 0xA7, 0xD9, 0x84, 0xD8, 0xB9, 0xD8,
      0xAF, 0xD8, 0xA7, 0xD8, 0xAF]),
     ([0xD8, 0xA8, 0xD9, 0x8A, 0xD8, 0xA7, 0xD9, 0x86, 0xD8, 0xA7, 0xD8, 0xAA],
      [0xD8, 0xB3, 0xD8, 0xAC, 0xD9, 0x84, 0x5F, 0xD8, 0xA7, 0xD9, 0x84, 0xD8, 0xA8, 0xD9,
      0x8A, 0xD8, 0xA7, 0xD9, 0x86, 0xD8, 0xA7, 0xD8, 0xAA]),
     ([0xD9, 0x82, 0xD8, 0xA7, 0xD8, 0xB9, 0xD8, 0xAF, 0xD8, 0xA9, 0x5F, 0xD8, 0xA8],
      [0xD8, 0xB3, 0xD8, 0xAC, 0xD9, 0x84, 0x5F, 0xD8, 0xA7, 0xD9, 0x84, 0xD9, 0x82, 0xD8,
      0xA7, 0xD8, 0xB9, 0xD8, 0xAF, 0xD8, 0xA9]),
     ([0xD9, 0x85, 0xD9, 0x83, 0xD8, 0xAF, 0xD8, 0xB3],
      [0xD9, 0x85, 0xD8, 0xA4, 0xD8, 0xB4, 0xD8, 0xB1, 0x5F, 0xD8, 0xA7, 0xD9, 0x84, 0xD9,
      0x85, 0xD9, 0x83, 0xD8, 0xAF, 0xD8, 0xB3]),
     ([0xD9, 0x82, 0xD8, 0xA7, 0xD8, 0xB9, 0xD8, 0xAF, 0xD8, 0xA9],
      [0xD9, 0x85, 0xD8, 0xA4, 0xD8, 0xB4, 0xD8, 0xB1, 0x5F, 0xD8, 0xA7, 0xD9, 0x84, 0xD9,
      0x82, 0xD8, 0xA7, 0xD8, 0xB9, 0xD8, 0xAF, 0xD8, 0xA9]),
     ([0xD9, 0x85, 0xD8, 0xB5, 0xD8, 0xAF, 0xD8, 0xB1],
      [0xD9, 0x81, 0xD9, 0x87, 0xD8, 0xB1, 0xD8, 0xB3, 0x5F, 0xD8, 0xA7, 0xD9, 0x84, 0xD9,
      0x85, 0xD8, 0xB5, 0xD8, 0xAF, 0xD8, 0xB1]),
     ([0xD9, 0x88, 0xD8, 0xAC, 0xD9, 0x87, 0xD8, 0xA9],
      [0xD9, 0x81, 0xD9, 0x87, 0xD8, 0xB1, 0xD8, 0xB3, 0x5F, 0xD8, 0xA7, 0xD9, 0x84, 0xD9,
      0x88, 0xD8, 0xAC, 0xD9, 0x87, 0xD8, 0xA9]),
     ([0xD8, 0xB1, 0x30],
      [0xD8, 0xB3, 0xD8, 0xAC, 0xD9, 0x84, 0x5F, 0xD8, 0xA7, 0xD9, 0x84, 0xD9, 0x85, 0xD8,
      0xB1, 0xD9, 0x83, 0xD9, 0x85]),
     ([0xD8, 0xB1, 0x31],
      [0xD8, 0xB3, 0xD8, 0xAC, 0xD9, 0x84, 0x5F, 0xD8, 0xA7, 0xD9, 0x84, 0xD8, 0xB9, 0xD8,
      0xAF, 0xD8, 0xA7, 0xD8, 0xAF]),
     ([0xD8, 0xB1, 0x32],
      [0xD8, 0xB3, 0xD8, 0xAC, 0xD9, 0x84, 0x5F, 0xD8, 0xA7, 0xD9, 0x84, 0xD8, 0xA8, 0xD9,
      0x8A, 0xD8, 0xA7, 0xD9, 0x86, 0xD8, 0xA7, 0xD8, 0xAA]),
     ([0xD8, 0xB1, 0x33],
      [0xD8, 0xB3, 0xD8, 0xAC, 0xD9, 0x84, 0x5F, 0xD8, 0xA7, 0xD9, 0x84, 0xD9, 0x82, 0xD8,
      0xA7, 0xD8, 0xB9, 0xD8, 0xAF, 0xD8, 0xA9]),
     ([0xD8, 0xB1, 0x34],
      [0xD9, 0x85, 0xD8, 0xA4, 0xD8, 0xB4, 0xD8, 0xB1, 0x5F, 0xD8, 0xA7, 0xD9, 0x84, 0xD9,
      0x85, 0xD9, 0x83, 0xD8, 0xAF, 0xD8, 0xB3]),
     ([0xD8, 0xB1, 0x35],
      [0xD9, 0x85, 0xD8, 0xA4, 0xD8, 0xB4, 0xD8, 0xB1, 0x5F, 0xD8, 0xA7, 0xD9, 0x84, 0xD9,
      0x82, 0xD8, 0xA7, 0xD8, 0xB9, 0xD8, 0xAF, 0xD8, 0xA9]),
     ([0xD8, 0xB1, 0x36],
      [0xD9, 0x81, 0xD9, 0x87, 0xD8, 0xB1, 0xD8, 0xB3, 0x5F, 0xD8, 0xA7, 0xD9, 0x84, 0xD9,
      0x85, 0xD8, 0xB5, 0xD8, 0xAF, 0xD8, 0xB1]),
     ([0xD8, 0xB1, 0x37],
      [0xD9, 0x81, 0xD9, 0x87, 0xD8, 0xB1, 0xD8, 0xB3, 0x5F, 0xD8, 0xA7, 0xD9, 0x84, 0xD9,
      0x88, 0xD8, 0xAC, 0xD9, 0x87, 0xD8, 0xA9]),
     ([0xD8, 0xB1, 0x38],
      [0xD8, 0xB3, 0xD8, 0xAC, 0xD9, 0x84, 0x5F, 0xD8, 0xB9, 0xD8, 0xA7, 0xD9, 0x85, 0x5F,
      0xD9, 0xA8]),
     ([0xD8, 0xB1, 0x39],
      [0xD8, 0xB3, 0xD8, 0xAC, 0xD9, 0x84, 0x5F, 0xD8, 0xB9, 0xD8, 0xA7, 0xD9, 0x85, 0x5F,
      0xD9, 0xA9]),
     ([0xD8, 0xB1, 0x31, 0x30],
      [0xD8, 0xB3, 0xD8, 0xAC, 0xD9, 0x84, 0x5F, 0xD8, 0xB9, 0xD8, 0xA7, 0xD9, 0x85, 0x5F,
      0xD9, 0xA1, 0xD9, 0xA0]),
     ([0xD8, 0xB1, 0x31, 0x31],
      [0xD8, 0xB3, 0xD8, 0xAC, 0xD9, 0x84, 0x5F, 0xD8, 0xB9, 0xD8, 0xA7, 0xD9, 0x85, 0x5F,
      0xD9, 0xA1, 0xD9, 0xA1]),
     ([0xD8, 0xB1, 0x31, 0x32],
      [0xD8, 0xB3, 0xD8, 0xAC, 0xD9, 0x84, 0x5F, 0xD8, 0xB9, 0xD8, 0xA7, 0xD9, 0x85, 0x5F,
      0xD9, 0xA1, 0xD9, 0xA2]),
     ([0xD8, 0xB1, 0x31, 0x33],
      [0xD8, 0xB3, 0xD8, 0xAC, 0xD9, 0x84, 0x5F, 0xD8, 0xB9, 0xD8, 0xA7, 0xD9, 0x85, 0x5F,
      0xD9, 0xA1, 0xD9, 0xA3]),
     ([0xD8, 0xB1, 0x31, 0x34],
      [0xD8, 0xB3, 0xD8, 0xAC, 0xD9, 0x84, 0x5F, 0xD8, 0xB9, 0xD8, 0xA7, 0xD9, 0x85, 0x5F,
      0xD9, 0xA1, 0xD9, 0xA4]),
     ([0xD8, 0xB1, 0x31, 0x35],
      [0xD8, 0xB3, 0xD8, 0xAC, 0xD9, 0x84, 0x5F, 0xD8, 0xB9, 0xD8, 0xA7, 0xD9, 0x85, 0x5F,
      0xD9, 0xA1, 0xD9, 0xA5]),
     ([0xD8, 0xB3, 0xD8, 0xAC, 0xD9, 0x84, 0x5F, 0xD8, 0xB9, 0xD8, 0xA7, 0xD9, 0x85, 0x5F, 0x38],
      [0xD8, 0xB3, 0xD8, 0xAC, 0xD9, 0x84, 0x5F, 0xD8, 0xB9, 0xD8, 0xA7, 0xD9, 0x85, 0x5F,
      0xD9, 0xA8]),
     ([0xD8, 0xB3, 0xD8, 0xAC, 0xD9, 0x84, 0x5F, 0xD8, 0xB9, 0xD8, 0xA7, 0xD9, 0x85, 0x5F, 0x39],
      [0xD8, 0xB3, 0xD8, 0xAC, 0xD9, 0x84, 0x5F, 0xD8, 0xB9, 0xD8, 0xA7, 0xD9, 0x85, 0x5F,
      0xD9, 0xA9]),
     ([0xD8, 0xB3, 0xD8, 0xAC, 0xD9, 0x84, 0x5F, 0xD8, 0xB9, 0xD8, 0xA7, 0xD9, 0x85, 0x5F,
      0x31, 0x30],
      [0xD8, 0xB3, 0xD8, 0xAC, 0xD9, 0x84, 0x5F, 0xD8, 0xB9, 0xD8, 0xA7, 0xD9, 0x85, 0x5F,
      0xD9, 0xA1, 0xD9, 0xA0]),
     ([0xD8, 0xB3, 0xD8, 0xAC, 0xD9, 0x84, 0x5F, 0xD8, 0xB9, 0xD8, 0xA7, 0xD9, 0x85, 0x5F,
      0x31, 0x31],
      [0xD8, 0xB3, 0xD8, 0xAC, 0xD9, 0x84, 0x5F, 0xD8, 0xB9, 0xD8, 0xA7, 0xD9, 0x85, 0x5F,
      0xD9, 0xA1, 0xD9, 0xA1]),
     ([0xD8, 0xB3, 0xD8, 0xAC, 0xD9, 0x84, 0x5F, 0xD8, 0xB9, 0xD8, 0xA7, 0xD9, 0x85, 0x5F,
      0x31, 0x32],
      [0xD8, 0xB3, 0xD8, 0xAC, 0xD9, 0x84, 0x5F, 0xD8, 0xB9, 0xD8, 0xA7, 0xD9, 0x85, 0x5F,
      0xD9, 0xA1, 0xD9, 0xA2]),
     ([0xD8, 0xB3, 0xD8, 0xAC, 0xD9, 0x84, 0x5F, 0xD8, 0xB9, 0xD8, 0xA7, 0xD9, 0x85, 0x5F,
      0x31, 0x33],
      [0xD8, 0xB3, 0xD8, 0xAC, 0xD9, 0x84, 0x5F, 0xD8, 0xB9, 0xD8, 0xA7, 0xD9, 0x85, 0x5F,
      0xD9, 0xA1, 0xD9, 0xA3]),
     ([0xD8, 0xB3, 0xD8, 0xAC, 0xD9, 0x84, 0x5F, 0xD8, 0xB9, 0xD8, 0xA7, 0xD9, 0x85, 0x5F,
      0x31, 0x34],
      [0xD8, 0xB3, 0xD8, 0xAC, 0xD9, 0x84, 0x5F, 0xD8, 0xB9, 0xD8, 0xA7, 0xD9, 0x85, 0x5F,
      0xD9, 0xA1, 0xD9, 0xA4]),
     ([0xD8, 0xB3, 0xD8, 0xAC, 0xD9, 0x84, 0x5F, 0xD8, 0xB9, 0xD8, 0xA7, 0xD9, 0x85, 0x5F,
      0x31, 0x35],
      [0xD8, 0xB3, 0xD8, 0xAC, 0xD9, 0x84, 0x5F, 0xD8, 0xB9, 0xD8, 0xA7, 0xD9, 0x85, 0x5F,
      0xD9, 0xA1, 0xD9, 0xA5])]"

definition RESERVED_REGISTER_PREFIXES :: "cstr list" where
  "RESERVED_REGISTER_PREFIXES = [
     [0xD8, 0xB3, 0xD8, 0xAC, 0xD9, 0x84, 0x5F],
     [0xD9, 0x85, 0xD8, 0xA4, 0xD8, 0xB4, 0xD8, 0xB1, 0x5F],
     [0xD9, 0x81, 0xD9, 0x87, 0xD8, 0xB1, 0xD8, 0xB3, 0x5F]]"

definition INSTRUCTION_POINTER_NAME :: cstr where
  "INSTRUCTION_POINTER_NAME =
     [0xD9, 0x85, 0xD8, 0xA4, 0xD8, 0xB4, 0xD8, 0xB1, 0x5F, 0xD8, 0xA7, 0xD9, 0x84, 0xD8,
      0xAA, 0xD8, 0xB9, 0xD9, 0x84, 0xD9, 0x8A, 0xD9, 0x85, 0xD8, 0xA9]"

definition classify_register :: "cstr \<Rightarrow> int" where
  "classify_register text = (case map_of REG_TABLE text of Some reg_id \<Rightarrow> reg_id | None \<Rightarrow> -1)"

definition lexer_register_id :: "cstr \<Rightarrow> int" where
  "lexer_register_id name = classify_register name"

definition lexer_register_legacy_replacement :: "cstr \<Rightarrow> cstr option" where
  "lexer_register_legacy_replacement name = map_of LEGACY_REGISTERS name"

definition has_reserved_register_prefix :: "cstr \<Rightarrow> bool" where
  "has_reserved_register_prefix text \<longleftrightarrow>
     list_ex (\<lambda>prefix. length text \<ge> length prefix \<and> take (length prefix) text = prefix)
       RESERVED_REGISTER_PREFIXES"

section \<open>The tables\<close>

text \<open>
  A cheap code of a name, one-to-one on the four tables, so that distinctness is decided on
  small numbers and not by comparing byte strings.
\<close>

definition name_code :: "cstr \<Rightarrow> nat" where
  "name_code s = foldl (\<lambda>n b. n * 2 + unat b) 0 s"

lemma names_distinct:
  "distinct (map fst KEYWORD_TABLE @ map fst REG_TABLE @ map fst LEGACY_KEYWORDS
     @ map fst LEGACY_REGISTERS)"
proof -
  have "distinct (map name_code (map fst KEYWORD_TABLE @ map fst REG_TABLE
      @ map fst LEGACY_KEYWORDS @ map fst LEGACY_REGISTERS))"
    by (simp add: KEYWORD_TABLE_def REG_TABLE_def LEGACY_KEYWORDS_def LEGACY_REGISTERS_def
        name_code_def)
  then show ?thesis by (simp only: distinct_map)
qed

lemma keyword_opcodes: "distinct (map snd KEYWORD_TABLE)" "OPCODE_INVALID \<notin> set (map snd KEYWORD_TABLE)"
  by (simp_all add: KEYWORD_TABLE_def)

lemma keyword_opcodes_all: "op \<noteq> OPCODE_INVALID \<Longrightarrow> op \<in> set (map snd KEYWORD_TABLE)"
  by (cases op) (simp_all add: KEYWORD_TABLE_def)

lemma register_ids: "map snd REG_TABLE = map (int \<circ> reg_code) all_regs"
  by (simp add: REG_TABLE_def all_regs_def)

text \<open>A search with a default that no entry has.\<close>

lemma search_iff:
  assumes "distinct (map fst t)" "v \<noteq> d"
  shows "(case map_of t s of Some v \<Rightarrow> v | None \<Rightarrow> d) = v \<longleftrightarrow> (s, v) \<in> set t"
  using assms map_of_eq_Some_iff [OF assms(1), of s v]
  by (cases "map_of t s") auto

lemma search_none_iff:
  assumes "d \<notin> set (map snd t)"
  shows "(case map_of t s of Some v \<Rightarrow> v | None \<Rightarrow> d) = d \<longleftrightarrow> s \<notin> set (map fst t)"
proof (cases "map_of t s")
  case None
  then have "s \<notin> set (map fst t)" by (simp add: map_of_eq_None_iff)
  with None show ?thesis by simp
next
  case (Some v)
  then have "(s, v) \<in> set t" by (rule map_of_SomeD)
  then show ?thesis using assms Some by force
qed

lemma table_names:
  "distinct (map fst KEYWORD_TABLE)" "distinct (map fst REG_TABLE)"
  "set (map fst KEYWORD_TABLE) \<inter> set (map fst REG_TABLE) = {}"
  "set (map fst LEGACY_KEYWORDS) \<inter> (set (map fst KEYWORD_TABLE) \<union> set (map fst REG_TABLE)) = {}"
  "set (map fst LEGACY_REGISTERS) \<inter> (set (map fst KEYWORD_TABLE) \<union> set (map fst REG_TABLE)) = {}"
  using names_distinct by auto

lemma register_numbers: "set (map snd REG_TABLE) = (int \<circ> reg_code) ` {r. r \<noteq> REG_INVALID}"
proof -
  have "set all_regs = {r. r \<noteq> REG_INVALID}"
  proof (intro set_eqI iffI)
    fix r assume "r \<in> {r. r \<noteq> REG_INVALID}"
    then show "r \<in> set all_regs" unfolding all_regs_def by (cases r) simp_all
  qed (auto simp: all_regs_def)
  then show ?thesis unfolding register_ids by (simp only: set_map)
qed

lemma register_number_nonneg: "- 1 \<notin> set (map snd REG_TABLE)"
  unfolding register_numbers by auto

lemma keyword_lookup_iff: "op \<noteq> OPCODE_INVALID \<Longrightarrow> keywords_lookup s = op \<longleftrightarrow> (s, op) \<in> set KEYWORD_TABLE"
  unfolding keywords_lookup_def by (rule search_iff [OF table_names(1)])

lemma keyword_none_iff: "keywords_lookup s = OPCODE_INVALID \<longleftrightarrow> s \<notin> set (map fst KEYWORD_TABLE)"
  unfolding keywords_lookup_def by (rule search_none_iff [OF keyword_opcodes(2)])

lemma register_lookup_iff: "i \<noteq> - 1 \<Longrightarrow> classify_register s = i \<longleftrightarrow> (s, i) \<in> set REG_TABLE"
  unfolding classify_register_def by (rule search_iff [OF table_names(2)])

lemma register_none_iff: "classify_register s = - 1 \<longleftrightarrow> s \<notin> set (map fst REG_TABLE)"
  unfolding classify_register_def by (rule search_none_iff [OF register_number_nonneg])

lemma in_snd: "(s, v) \<in> set t \<Longrightarrow> v \<in> set (map snd t)"
  by force

lemma register_cases:
  obtains "classify_register s = - 1" | r where "r \<noteq> REG_INVALID" "classify_register s = int (reg_code r)"
proof (cases "classify_register s = - 1")
  case False
  then have "(s, classify_register s) \<in> set REG_TABLE" using register_lookup_iff by blast
  then have "classify_register s \<in> (int \<circ> reg_code) ` {r. r \<noteq> REG_INVALID}"
    unfolding register_numbers [symmetric] by (rule in_snd)
  then show ?thesis using that(2) by auto
qed (rule that(1))

lemma ex1_by_distinct:
  assumes "distinct (map fst t)" "distinct (map snd t)" "v \<in> set (map snd t)"
  shows "\<exists>!n. (n, v) \<in> set t"
proof -
  obtain n where n: "(n, v) \<in> set t" using assms(3) by auto
  moreover have "n = m" if "(m, v) \<in> set t" for m
    using assms(2) n that by (metis Pair_inject distinct_map inj_onD snd_conv)
  ultimately show ?thesis by blast
qed

text \<open>The replacement of a removed name is a current one.\<close>

lemma legacy_keywords_current: "list_all (\<lambda>p. snd p \<in> set (map fst KEYWORD_TABLE)) LEGACY_KEYWORDS"
  by (simp add: LEGACY_KEYWORDS_def KEYWORD_TABLE_def)

lemma legacy_registers_current: "list_all (\<lambda>p. snd p \<in> set (map fst REG_TABLE)) LEGACY_REGISTERS"
proof -
  have e: "map snd LEGACY_REGISTERS
      = map fst (take 8 REG_TABLE @ take 16 REG_TABLE @ take 8 (drop 8 REG_TABLE))"
    by (simp add: LEGACY_REGISTERS_def REG_TABLE_def)
  have "snd p \<in> set (map fst REG_TABLE)" if "p \<in> set LEGACY_REGISTERS" for p
  proof -
    have "snd p \<in> set (map snd LEGACY_REGISTERS)" using that by simp
    then show ?thesis unfolding e by (auto dest: in_set_takeD in_set_dropD)
  qed
  then show ?thesis unfolding list_all_iff by blast
qed

lemma reserved_prefix_iff:
  "has_reserved_register_prefix text \<longleftrightarrow> list_ex (\<lambda>p. prefix p text) RESERVED_REGISTER_PREFIXES"
proof -
  have "length p \<le> length text \<and> take (length p) text = p \<longleftrightarrow> prefix p text" for p
    using take_is_prefix [of "length p" "text"] by (auto elim: prefixE)
  then show ?thesis by (simp add: has_reserved_register_prefix_def)
qed

lemma reserved_registers: "list_all (\<lambda>p. has_reserved_register_prefix (fst p)) REG_TABLE"
  by (simp add: REG_TABLE_def reserved_prefix_iff RESERVED_REGISTER_PREFIXES_def)

lemma reserved_not_keyword: "list_all (\<lambda>p. \<not> has_reserved_register_prefix (fst p)) KEYWORD_TABLE"
  by (simp add: KEYWORD_TABLE_def reserved_prefix_iff RESERVED_REGISTER_PREFIXES_def)

section \<open>Properties of the names\<close>

text \<open>
  C33. The spelling of every instruction and register is unique: each opcode has exactly one
  mnemonic and each of the 80 registers exactly one name, every register name begins with a
  reserved prefix, and no word is both a register and a mnemonic.
\<close>

theorem spellings_unambiguous:
  "(\<forall>op. op \<noteq> OPCODE_INVALID \<longrightarrow> (\<exists>!name. keywords_lookup name = op))
   \<and> (\<forall>r. r \<noteq> REG_INVALID \<longrightarrow> (\<exists>!name. lexer_register_id name = int (reg_code r)))
   \<and> (\<forall>name. lexer_register_id name \<noteq> - 1 \<longrightarrow>
        has_reserved_register_prefix name \<and> keywords_lookup name = OPCODE_INVALID)"
proof (intro conjI allI impI)
  fix op :: OpcodeEnum
  assume op: "op \<noteq> OPCODE_INVALID"
  show "\<exists>!name. keywords_lookup name = op"
    unfolding keyword_lookup_iff [OF op]
    by (rule ex1_by_distinct [OF table_names(1) keyword_opcodes(1) keyword_opcodes_all [OF op]])
next
  fix r
  assume r: "r \<noteq> REG_INVALID"
  have i: "int (reg_code r) \<in> set (map snd REG_TABLE)" unfolding register_numbers using r by auto
  have "distinct (map snd REG_TABLE)" by (simp add: REG_TABLE_def)
  from ex1_by_distinct [OF table_names(2) this i]
  show "\<exists>!name. lexer_register_id name = int (reg_code r)"
    unfolding lexer_register_id_def using register_lookup_iff [of "int (reg_code r)"] by simp
next
  fix name
  assume "lexer_register_id name \<noteq> - 1"
  then have n: "name \<in> set (map fst REG_TABLE)" unfolding lexer_register_id_def register_none_iff by simp
  then obtain i where "(name, i) \<in> set REG_TABLE" by auto
  then show "has_reserved_register_prefix name"
    using reserved_registers unfolding list_all_iff by fastforce
  show "keywords_lookup name = OPCODE_INVALID"
    unfolding keyword_none_iff using n table_names(3) by blast
qed

theorem spellings_unambiguous_witness: "\<exists>!name. keywords_lookup name = OPCODE_MOV"
  using spellings_unambiguous by blast

text \<open>
  A spelling removed by an earlier version is neither a mnemonic nor a register any more, and
  the replacement the diagnostic names is a current mnemonic, respectively a current register.
\<close>

theorem removed_spellings:
  "(keywords_legacy_replacement old = Some new \<longrightarrow>
      keywords_lookup old = OPCODE_INVALID \<and> lexer_register_id old = - 1
      \<and> keywords_lookup new \<noteq> OPCODE_INVALID)
   \<and> (lexer_register_legacy_replacement old = Some new \<longrightarrow>
      keywords_lookup old = OPCODE_INVALID \<and> lexer_register_id old = - 1
      \<and> lexer_register_id new \<noteq> - 1)"
proof (intro conjI impI)
  assume "keywords_legacy_replacement old = Some new"
  then have e: "(old, new) \<in> set LEGACY_KEYWORDS"
    unfolding keywords_legacy_replacement_def by (rule map_of_SomeD)
  then have "old \<in> set (map fst LEGACY_KEYWORDS)" by force
  then show "keywords_lookup old = OPCODE_INVALID" "lexer_register_id old = - 1"
    using table_names(4) unfolding keyword_none_iff lexer_register_id_def register_none_iff by blast+
  show "keywords_lookup new \<noteq> OPCODE_INVALID"
    using legacy_keywords_current e unfolding keyword_none_iff list_all_iff by fastforce
next
  assume "lexer_register_legacy_replacement old = Some new"
  then have e: "(old, new) \<in> set LEGACY_REGISTERS"
    unfolding lexer_register_legacy_replacement_def by (rule map_of_SomeD)
  then have "old \<in> set (map fst LEGACY_REGISTERS)" by force
  then show "keywords_lookup old = OPCODE_INVALID" "lexer_register_id old = - 1"
    using table_names(5) unfolding keyword_none_iff lexer_register_id_def register_none_iff by blast+
  show "lexer_register_id new \<noteq> - 1"
    using legacy_registers_current e
    unfolding lexer_register_id_def register_none_iff list_all_iff by fastforce
qed

theorem removed_spellings_witness:
  "keywords_lookup [0xD9, 0x88] = OPCODE_INVALID"
proof -
  have "keywords_legacy_replacement [0xD9, 0x88]
      = Some [0xD9, 0x88, 0x5F, 0xD8, 0xA8, 0xD8, 0xAA, 0xD9, 0x8A, 0xD8, 0xA7]"
    by (simp add: keywords_legacy_replacement_def LEGACY_KEYWORDS_def)
  then show ?thesis using removed_spellings by blast
qed

end
