(* ===== verification/Lexer.thy ===== *)
theory Lexer
  imports Keywords Error
begin

text \<open>
  The tokenizer: \<^verbatim>\<open>src/src/lexer/lexer.c\<close>. The \<^verbatim>\<open>Lexer\<close> struct is a record that every operation
  returns updated; the token array is the list of the tokens pushed so far, and a token's value
  pointer with its length is a byte list (a string token may contain zero bytes). The loops of the
  source end because the byte offset grows, which is what the termination proofs show.
\<close>

section \<open>Messages\<close>

definition LEX_BAD_HEX :: cstr where
  "LEX_BAD_HEX = [0xD8, 0xB1, 0xD9, 0x82, 0xD9, 0x85, 0x20, 0xD8, 0xB3, 0xD8, 0xAA, 0x20, 0xD8, 0xB9,
     0xD8, 0xB4, 0xD8, 0xB1, 0xD9, 0x8A, 0x20, 0xD8, 0xBA, 0xD9, 0x8A, 0xD8, 0xB1, 0x20,
     0xD8, 0xB5, 0xD8, 0xAD, 0xD9, 0x8A, 0xD8, 0xAD]"

definition LEX_BAD_BINARY :: cstr where
  "LEX_BAD_BINARY = [0xD8, 0xB1, 0xD9, 0x82, 0xD9, 0x85, 0x20, 0xD8, 0xAB, 0xD9, 0x86, 0xD8, 0xA7, 0xD8,
     0xA6, 0xD9, 0x8A, 0x20, 0xD8, 0xBA, 0xD9, 0x8A, 0xD8, 0xB1, 0x20, 0xD8, 0xB5, 0xD8,
     0xAD, 0xD9, 0x8A, 0xD8, 0xAD]"

definition LEX_BAD_DECIMAL :: cstr where
  "LEX_BAD_DECIMAL = [0xD8, 0xB1, 0xD9, 0x82, 0xD9, 0x85, 0x20, 0xD8, 0xBA, 0xD9, 0x8A, 0xD8, 0xB1, 0x20,
     0xD8, 0xB5, 0xD8, 0xAD, 0xD9, 0x8A, 0xD8, 0xAD]"

definition LEX_TOO_LARGE :: cstr where
  "LEX_TOO_LARGE = [0xD8, 0xA7, 0xD9, 0x84, 0xD8, 0xB1, 0xD9, 0x82, 0xD9, 0x85, 0x20, 0xD9, 0x84, 0xD8,
     0xA7, 0x20, 0xD9, 0x8A, 0xD9, 0x85, 0xD8, 0xAB, 0xD9, 0x84, 0x20, 0xD9, 0x81, 0xD9,
     0x8A, 0x20, 0xD9, 0xA6, 0xD9, 0xA4, 0x20, 0xD8, 0xA8, 0xD8, 0xAA]"

definition LEX_ILL_FORMED :: cstr where
  "LEX_ILL_FORMED = [0xD8, 0xAA, 0xD8, 0xB1, 0xD9, 0x85, 0xD9, 0x8A, 0xD8, 0xB2, 0x20, 0x55, 0x54, 0x46,
     0x2D, 0x38, 0x20, 0xD8, 0xBA, 0xD9, 0x8A, 0xD8, 0xB1, 0x20, 0xD8, 0xB5, 0xD8, 0xA7,
     0xD9, 0x84, 0xD8, 0xAD]"

definition LEX_UNTERMINATED :: cstr where
  "LEX_UNTERMINATED = [0xD8, 0xB3, 0xD9, 0x84, 0xD8, 0xB3, 0xD9, 0x84, 0xD8, 0xA9, 0x20, 0xD9, 0x86, 0xD8,
     0xB5, 0xD9, 0x8A, 0xD8, 0xA9, 0x20, 0xD8, 0xBA, 0xD9, 0x8A, 0xD8, 0xB1, 0x20, 0xD9,
     0x85, 0xD8, 0xBA, 0xD9, 0x84, 0xD9, 0x82, 0xD8, 0xA9]"

definition LEX_BAD_ESCAPE :: cstr where
  "LEX_BAD_ESCAPE = [0xD8, 0xAA, 0xD8, 0xB3, 0xD9, 0x84, 0xD8, 0xB3, 0xD9, 0x84, 0x20, 0xD9, 0x87, 0xD8,
     0xB1, 0xD9, 0x88, 0xD8, 0xA8, 0x20, 0xD8, 0xBA, 0xD9, 0x8A, 0xD8, 0xB1, 0x20, 0xD9,
     0x85, 0xD8, 0xB9, 0xD8, 0xB1, 0xD9, 0x88, 0xD9, 0x81, 0x20, 0xD8, 0xAF, 0xD8, 0xA7,
     0xD8, 0xAE, 0xD9, 0x84, 0x20, 0xD8, 0xA7, 0xD9, 0x84, 0xD8, 0xB3, 0xD9, 0x84, 0xD8,
     0xB3, 0xD9, 0x84, 0xD8, 0xA9, 0x20, 0xD8, 0xA7, 0xD9, 0x84, 0xD9, 0x86, 0xD8, 0xB5,
     0xD9, 0x8A, 0xD8, 0xA9]"

definition LEX_RESERVED :: cstr where
  "LEX_RESERVED = [0xD8, 0xA7, 0xD8, 0xB3, 0xD9, 0x85, 0x20, 0xD8, 0xA7, 0xD9, 0x84, 0xD9, 0x88, 0xD8,
     0xB3, 0xD9, 0x85, 0x20, 0xD9, 0x8A, 0xD8, 0xA8, 0xD8, 0xAF, 0xD8, 0xA3, 0x20, 0xD8,
     0xA8, 0xD8, 0xA8, 0xD8, 0xA7, 0xD8, 0xAF, 0xD8, 0xA6, 0xD8, 0xA9, 0x20, 0xD9, 0x85,
     0xD8, 0xAD, 0xD8, 0xAC, 0xD9, 0x88, 0xD8, 0xB2, 0xD8, 0xA9, 0x20, 0xD9, 0x84, 0xD8,
     0xA3, 0xD8, 0xB3, 0xD9, 0x85, 0xD8, 0xA7, 0xD8, 0xA1, 0x20, 0xD8, 0xA7, 0xD9, 0x84,
     0xD8, 0xB3, 0xD8, 0xAC, 0xD9, 0x84, 0xD8, 0xA7, 0xD8, 0xAA, 0x20, 0xD9, 0x85, 0xD9,
     0x86, 0xD8, 0xB0, 0x20, 0xD9, 0x86, 0xD9, 0x8E, 0xD8, 0xB8, 0xD9, 0x92, 0xD9, 0x85,
     0x20, 0x30, 0x2E, 0x35, 0x20, 0x28, 0x27, 0xD8, 0xB3, 0xD8, 0xAC, 0xD9, 0x84, 0x5F,
     0x27, 0x20, 0xD8, 0xA3, 0xD9, 0x88, 0x20, 0x27, 0xD9, 0x85, 0xD8, 0xA4, 0xD8, 0xB4,
     0xD8, 0xB1, 0x5F, 0x27, 0x20, 0xD8, 0xA3, 0xD9, 0x88, 0x20, 0x27, 0xD9, 0x81, 0xD9,
     0x87, 0xD8, 0xB1, 0xD8, 0xB3, 0x5F, 0x27, 0x29, 0xD8, 0x9B, 0x20, 0xD8, 0xA7, 0xD8,
     0xAE, 0xD8, 0xAA, 0xD8, 0xB1, 0x20, 0xD8, 0xA7, 0xD8, 0xB3, 0xD9, 0x85, 0xD8, 0xA7,
     0x20, 0xD9, 0x84, 0xD8, 0xA7, 0x20, 0xD9, 0x8A, 0xD8, 0xA8, 0xD8, 0xAF, 0xD8, 0xA3,
     0x20, 0xD8, 0xA8, 0xD9, 0x87, 0xD8, 0xA7]"

definition hex_char :: "nat \<Rightarrow> u8" where
  "hex_char d = word_of_nat (if d < 10 then 48 + d else 55 + d)"

fun print_hex :: "nat \<Rightarrow> u8 list" where
  "print_hex n = (if n < 16 then [hex_char n] else print_hex (n div 16) @ [hex_char (n mod 16)])"

declare print_hex.simps [simp del]

text \<open>\<^verbatim>\<open>snprintf\<close> into a buffer of \<open>room\<close> bytes keeps one byte for the terminating zero.\<close>

definition snprintf :: "nat \<Rightarrow> u8 list \<Rightarrow> cstr" where
  "snprintf room text = take (room - 1) text"

text \<open>The format \<^verbatim>\<open>%04X\<close>.\<close>

definition print_hex4 :: "nat \<Rightarrow> u8 list" where
  "print_hex4 n = replicate (4 - length (print_hex n)) 0x30 @ print_hex n"

definition unknown_character :: "u32 \<Rightarrow> cstr" where
  "unknown_character cp = snprintf 64
     ([0xD9, 0x85, 0xD8, 0xAD, 0xD8, 0xB1, 0xD9, 0x81, 0x20, 0xD8, 0xBA, 0xD9, 0x8A, 0xD8,
     0xB1, 0x20, 0xD9, 0x85, 0xD8, 0xB9, 0xD8, 0xB1, 0xD9, 0x88, 0xD9, 0x81, 0x20, 0x28,
     0x55, 0x2B] @ print_hex4 (unat cp) @ [0x29])"

section \<open>State\<close>

datatype TokenType =
    TOKEN_MNEMONIC | TOKEN_REGISTER | TOKEN_IMMEDIATE | TOKEN_LABEL_DEF | TOKEN_LABEL_REF
  | TOKEN_STRING | TOKEN_DIRECTIVE | TOKEN_LBRACKET | TOKEN_RBRACKET | TOKEN_PLUS | TOKEN_MINUS
  | TOKEN_COMMA | TOKEN_COLON | TOKEN_NEWLINE | TOKEN_EOF | TOKEN_ERROR

record Token =
  tok_type :: TokenType
  tok_value :: cstr
  tok_line :: int
  tok_col :: int
  tok_end_col :: int

record TokenArray =
  ta_tokens :: "Token list"
  ta_source_name :: "cstr option"
  ta_source_data :: "u8 list"

record SourceBuffer =
  sb_data :: "u8 list"
  sb_name :: "cstr option"

record LexResult =
  lr_tokens :: TokenArray
  lr_errors :: "cstr ErrorList"

record Lexer =
  lx_src :: SourceBuffer
  lx_errors :: "cstr ErrorList"
  lx_out :: "Token list"
  lx_pos :: nat
  lx_line :: int
  lx_col :: int

definition make_token :: "TokenType \<Rightarrow> cstr \<Rightarrow> int \<Rightarrow> int \<Rightarrow> int \<Rightarrow> Token" where
  "make_token ty value line col end_col =
     \<lparr>tok_type = ty, tok_value = value, tok_line = line, tok_col = col, tok_end_col = end_col\<rparr>"

definition push_token :: "Lexer \<Rightarrow> Token \<Rightarrow> Lexer" where
  "push_token lx t = lx\<lparr>lx_out := lx_out lx @ [t]\<rparr>"

definition push_token_value :: "Lexer \<Rightarrow> TokenType \<Rightarrow> cstr \<Rightarrow> int \<Rightarrow> int \<Rightarrow> int \<Rightarrow> Lexer" where
  "push_token_value lx ty value line col end_col = push_token lx (make_token ty value line col end_col)"

text \<open>\<^verbatim>\<open>%lld\<close> of the signed value; at most 20 characters, so the 32-byte buffer never cuts it.\<close>

definition push_immediate_token :: "Lexer \<Rightarrow> i64 \<Rightarrow> int \<Rightarrow> int \<Rightarrow> int \<Rightarrow> Lexer" where
  "push_immediate_token lx value line col end_col =
     push_token_value lx TOKEN_IMMEDIATE (snprintf 32 (print_int (sint value))) line col end_col"

section \<open>Cursor\<close>

definition at_end :: "Lexer \<Rightarrow> bool" where
  "at_end lx \<longleftrightarrow> lx_pos lx \<ge> length (sb_data (lx_src lx))"

definition peek_cp :: "Lexer \<Rightarrow> u32" where
  "peek_cp lx = utf8_peek_codepoint (sb_data (lx_src lx)) (lx_pos lx)"

definition advance_cp :: "Lexer \<Rightarrow> u32 \<times> Lexer" where
  "advance_cp lx =
     (let (cp, pos) = utf8_next_codepoint (sb_data (lx_src lx)) (lx_pos lx) in
      (cp, if cp = 0x0A then lx\<lparr>lx_pos := pos, lx_line := lx_line lx + 1, lx_col := 1\<rparr>
           else lx\<lparr>lx_pos := pos, lx_col := lx_col lx + 1\<rparr>))"

definition skip_cp :: "Lexer \<Rightarrow> Lexer" where
  "skip_cp lx = snd (advance_cp lx)"

definition lex_error_at :: "Lexer \<Rightarrow> int \<Rightarrow> int \<Rightarrow> int \<Rightarrow> cstr \<Rightarrow> Lexer" where
  "lex_error_at lx line col end_col msg =
     lx\<lparr>lx_errors := error_add_span (lx_errors lx) (sb_name (lx_src lx)) line col end_col msg\<rparr>"

definition lex_error :: "Lexer \<Rightarrow> cstr \<Rightarrow> Lexer" where
  "lex_error lx msg = lex_error_at lx (lx_line lx) (lx_col lx) (lx_col lx + 1) msg"

definition is_number_start :: "u32 \<Rightarrow> bool" where
  "is_number_start cp \<longleftrightarrow> (cp \<ge> 0x30 \<and> cp \<le> 0x39) \<or> nazm_is_arabic_digit cp"

definition last_token_is_newline :: "Lexer \<Rightarrow> bool" where
  "last_token_is_newline lx \<longleftrightarrow> lx_out lx \<noteq> [] \<and> tok_type (last (lx_out lx)) = TOKEN_NEWLINE"

text \<open>The measure of the loops, and the step they all rest on.\<close>

definition lx_remaining :: "Lexer \<Rightarrow> nat" where
  "lx_remaining lx = length (sb_data (lx_src lx)) - lx_pos lx"

lemma skip_cp_fields [simp]:
  "lx_src (skip_cp lx) = lx_src lx" "lx_errors (skip_cp lx) = lx_errors lx"
  "lx_out (skip_cp lx) = lx_out lx"
  "lx_pos (skip_cp lx) = snd (utf8_next_codepoint (sb_data (lx_src lx)) (lx_pos lx))"
  by (simp_all add: skip_cp_def advance_cp_def split: prod.split)

lemma skip_cp_remaining [simp]: "\<not> at_end lx \<Longrightarrow> lx_remaining (skip_cp lx) < lx_remaining lx"
  using next_progress [OF _ surjective_pairing, of "lx_pos lx" "sb_data (lx_src lx)"]
  by (auto simp: lx_remaining_def at_end_def)

section \<open>Numbers\<close>

definition hex_digit_value :: "u32 \<Rightarrow> int" where
  "hex_digit_value cp =
     (if cp \<ge> 0x30 \<and> cp \<le> 0x39 then uint (cp - 0x30)
      else if cp \<ge> 0x61 \<and> cp \<le> 0x66 then uint (cp - 0x61) + 10
      else if cp \<ge> 0x41 \<and> cp \<le> 0x46 then uint (cp - 0x41) + 10
      else - 1)"

definition binary_digit_value :: "u32 \<Rightarrow> int" where
  "binary_digit_value cp = (if cp \<noteq> 0x30 \<and> cp \<noteq> 0x31 then - 1 else uint (cp - 0x30))"

definition decimal_digit_value :: "u32 \<Rightarrow> int" where
  "decimal_digit_value cp =
     (if cp \<ge> 0x30 \<and> cp \<le> 0x39 then uint (cp - 0x30)
      else if nazm_is_arabic_digit cp then arabic_digit_value cp
      else - 1)"

text \<open>The new value, or \<open>None\<close> when it no longer fits in 64 bits.\<close>

definition append_digit :: "u64 \<Rightarrow> u64 \<Rightarrow> int \<Rightarrow> u64 option" where
  "append_digit val base digit =
     (if val > (0xFFFFFFFFFFFFFFFF - word_of_int digit) div base then None
      else Some (val * base + word_of_int digit))"

text \<open>
  The loop the three radixes share; the results are the magnitude, whether a digit was read and
  whether all digits fitted.
\<close>

function digits_loop ::
  "(u32 \<Rightarrow> int) \<Rightarrow> u64 \<Rightarrow> Lexer \<Rightarrow> u64 \<Rightarrow> bool \<Rightarrow> bool \<Rightarrow> u64 \<times> bool \<times> bool \<times> Lexer" where
  "digits_loop digit_value base lx val got fits =
     (if at_end lx then (val, got, fits, lx)
      else let digit = digit_value (peek_cp lx) in
        if digit < 0 then (val, got, fits, lx)
        else case append_digit val base digit of
            None \<Rightarrow> digits_loop digit_value base (skip_cp lx) val True False
          | Some v \<Rightarrow> digits_loop digit_value base (skip_cp lx) v True fits)"
  by pat_completeness auto
termination by (relation "measure (\<lambda>(f, b, lx, v, g, ft). lx_remaining lx)") simp_all

declare digits_loop.simps [simp del]

text \<open>Each radix reports a literal without digits; the results are value, \<open>ok\<close>, \<open>fits\<close>, state.\<close>

definition parse_hex_number :: "Lexer \<Rightarrow> u64 \<times> bool \<times> bool \<times> Lexer" where
  "parse_hex_number lx =
     (let (val, got, fits, lx) = digits_loop hex_digit_value 16 lx 0 False True in
      (val, got, fits, if got then lx else lex_error lx LEX_BAD_HEX))"

definition parse_binary_number :: "Lexer \<Rightarrow> u64 \<times> bool \<times> bool \<times> Lexer" where
  "parse_binary_number lx =
     (let (val, got, fits, lx) = digits_loop binary_digit_value 2 lx 0 False True in
      (val, got, fits, if got then lx else lex_error lx LEX_BAD_BINARY))"

definition parse_decimal_number :: "Lexer \<Rightarrow> bool \<Rightarrow> u64 \<times> bool \<times> bool \<times> Lexer" where
  "parse_decimal_number lx already_got_digit =
     (let (val, got, fits, lx) = digits_loop decimal_digit_value 10 lx 0 already_got_digit True in
      (val, got, fits, if got then lx else lex_error lx LEX_BAD_DECIMAL))"

definition parse_number :: "Lexer \<Rightarrow> u64 \<times> bool \<times> bool \<times> Lexer" where
  "parse_number lx =
     (if peek_cp lx \<noteq> 0x30 then parse_decimal_number lx False
      else let lx = skip_cp lx; next_cp = peek_cp lx in
        if next_cp = 0x78 \<or> next_cp = 0x58 then parse_hex_number (skip_cp lx)
        else if next_cp = 0x62 \<or> next_cp = 0x42 then parse_binary_number (skip_cp lx)
        else parse_decimal_number lx True)"

definition as_signed_bits :: "u64 \<Rightarrow> i64" where
  "as_signed_bits bits =
     (if bits \<le> 0x7FFFFFFFFFFFFFFF then bits else - (0xFFFFFFFFFFFFFFFF - bits) - 1)"

definition lex_number_too_large :: "Lexer \<Rightarrow> int \<Rightarrow> int \<Rightarrow> Lexer" where
  "lex_number_too_large lx line col = lex_error_at lx line col (lx_col lx) LEX_TOO_LARGE"

section \<open>Identifiers and directives\<close>

function scan_while :: "(u32 \<Rightarrow> bool) \<Rightarrow> Lexer \<Rightarrow> Lexer" where
  "scan_while continues lx =
     (if at_end lx then lx
      else if \<not> continues (peek_cp lx) then lx
      else scan_while continues (skip_cp lx))"
  by pat_completeness auto
termination by (relation "measure (\<lambda>(f, lx). lx_remaining lx)") simp_all

declare scan_while.simps [simp del]

text \<open>The bytes of the source from an offset to the current one.\<close>

definition source_slice :: "Lexer \<Rightarrow> nat \<Rightarrow> cstr" where
  "source_slice lx start = take (lx_pos lx - start) (drop start (sb_data (lx_src lx)))"

definition scan_ident :: "Lexer \<Rightarrow> cstr \<times> Lexer" where
  "scan_ident lx = (let lx' = scan_while is_ident_continue lx in (source_slice lx' (lx_pos lx), lx'))"

definition scan_directive :: "Lexer \<Rightarrow> cstr \<times> Lexer" where
  "scan_directive lx =
     (let lx' = scan_while (\<lambda>cp. is_ident_continue cp \<or> is_arabic_letter cp) lx in
      (source_slice lx' (lx_pos lx - 1), lx'))"

section \<open>Token handlers\<close>

definition lex_newline :: "Lexer \<Rightarrow> int \<Rightarrow> int \<Rightarrow> Lexer" where
  "lex_newline lx line col =
     (let lx = skip_cp lx in
      if last_token_is_newline lx then lx
      else push_token_value lx TOKEN_NEWLINE [0x0A] line col (col + 1))"

definition at_ill_formed_utf8 :: "Lexer \<Rightarrow> bool" where
  "at_ill_formed_utf8 lx \<longleftrightarrow> \<not> utf8_is_well_formed_at (sb_data (lx_src lx)) (lx_pos lx)"

lemma ill_formed_inside [simp]: "at_ill_formed_utf8 lx \<Longrightarrow> \<not> at_end lx"
  by (auto simp: at_ill_formed_utf8_def at_end_def utf8_is_well_formed_at_def utf8_next_codepoint_def)

function skip_ill_formed :: "Lexer \<Rightarrow> Lexer" where
  "skip_ill_formed lx = (if at_ill_formed_utf8 lx then skip_ill_formed (skip_cp lx) else lx)"
  by pat_completeness auto
termination by (relation "measure lx_remaining") simp_all

declare skip_ill_formed.simps [simp del]

definition lex_ill_formed_utf8 :: "Lexer \<Rightarrow> Lexer" where
  "lex_ill_formed_utf8 lx =
     (let lx' = skip_ill_formed lx in
      lex_error_at lx' (lx_line lx) (lx_col lx) (lx_col lx') LEX_ILL_FORMED)"

lemma lex_error_at_fields [simp]:
  "lx_src (lex_error_at lx l c e m) = lx_src lx" "lx_pos (lex_error_at lx l c e m) = lx_pos lx"
  "lx_out (lex_error_at lx l c e m) = lx_out lx" "lx_line (lex_error_at lx l c e m) = lx_line lx"
  "lx_col (lex_error_at lx l c e m) = lx_col lx"
  "lx_errors (lex_error_at lx l c e m)
     = error_add_span (lx_errors lx) (sb_name (lx_src lx)) l c e m"
  by (simp_all add: lex_error_at_def)

lemma lex_error_at_remaining [simp]: "lx_remaining (lex_error_at lx l c e m) = lx_remaining lx"
  by (simp add: lx_remaining_def)

lemma skip_ill_formed_remaining: "lx_remaining (skip_ill_formed lx) \<le> lx_remaining lx"
proof (induction lx rule: skip_ill_formed.induct)
  case (1 lx)
  show ?case
  proof (cases "at_ill_formed_utf8 lx")
    case True
    then show ?thesis
      using le_less_trans [OF 1 [OF True] skip_cp_remaining [OF ill_formed_inside [OF True]]]
      by (simp add: skip_ill_formed.simps [of lx])
  qed (simp add: skip_ill_formed.simps [of lx])
qed

lemma lex_ill_formed_remaining [simp]:
  "at_ill_formed_utf8 lx \<Longrightarrow> lx_remaining (lex_ill_formed_utf8 lx) < lx_remaining lx"
  using le_less_trans [OF skip_ill_formed_remaining skip_cp_remaining [OF ill_formed_inside]]
  by (simp add: lex_ill_formed_utf8_def skip_ill_formed.simps [of lx] Let_def)

function lex_comment :: "Lexer \<Rightarrow> Lexer" where
  "lex_comment lx =
     (if \<not> at_end lx \<and> peek_cp lx \<noteq> 0x0A then
        if at_ill_formed_utf8 lx then lex_comment (lex_ill_formed_utf8 lx)
        else lex_comment (skip_cp lx)
      else lx)"
  by pat_completeness auto
termination by (relation "measure lx_remaining") simp_all

declare lex_comment.simps [simp del]

definition lex_single_char_token :: "Lexer \<Rightarrow> u32 \<Rightarrow> int \<Rightarrow> int \<Rightarrow> Lexer option" where
  "lex_single_char_token lx cp line col =
     (if cp = 0x5B then Some (push_token_value (skip_cp lx) TOKEN_LBRACKET [0x5B] line col (col + 1))
      else if cp = 0x5D then Some (push_token_value (skip_cp lx) TOKEN_RBRACKET [0x5D] line col (col + 1))
      else if cp = 0x2B then Some (push_token_value (skip_cp lx) TOKEN_PLUS [0x2B] line col (col + 1))
      else if cp = 0x2C then Some (push_token_value (skip_cp lx) TOKEN_COMMA [0x2C] line col (col + 1))
      else if cp = 0x3A then Some (push_token_value (skip_cp lx) TOKEN_COLON [0x3A] line col (col + 1))
      else if cp = 0x060C then Some (push_token_value (skip_cp lx) TOKEN_COMMA [0xD8, 0x8C] line col (col + 1))
      else None)"

text \<open>
  A minus sign that starts no number is read again from the saved offset; the column, which is not
  restored, has then advanced twice.
\<close>

definition lex_minus_or_negative_number :: "Lexer \<Rightarrow> int \<Rightarrow> int \<Rightarrow> Lexer" where
  "lex_minus_or_negative_number lx line col =
     (let saved = lx_pos lx; lx = skip_cp lx in
      if is_number_start (peek_cp lx) then
        let (val, ok, fits, lx) = parse_number lx in
        if \<not> fits \<or> val > 0x7FFFFFFFFFFFFFFF + 1 then lex_number_too_large lx line col
        else if ok then push_immediate_token lx (as_signed_bits (0 - val)) line col (lx_col lx)
        else lx
      else push_token_value (skip_cp (lx\<lparr>lx_pos := saved\<rparr>)) TOKEN_MINUS [0x2D] line col (col + 1))"

definition string_escape :: "u32 \<Rightarrow> u8 option" where
  "string_escape esc =
     (if esc = 0x6E then Some 0x0A else if esc = 0x74 then Some 0x09 else if esc = 0x72 then Some 0x0D
      else if esc = 0x30 then Some 0 else if esc = 0x22 then Some 0x22
      else if esc = 0x5C then Some 0x5C else None)"

lemma skip_two_remaining [simp]:
  assumes "\<not> at_end lx" "\<not> at_end (skip_cp lx)"
  shows "lx_remaining (skip_cp (skip_cp lx)) < lx_remaining lx"
    "lx_remaining (skip_cp (lex_error_at (skip_cp lx) l c e m)) < lx_remaining lx"
proof -
  have "\<not> at_end (lex_error_at (skip_cp lx) l c e m)" using assms(2) by (simp add: at_end_def)
  from skip_cp_remaining [OF this] skip_cp_remaining [OF assms(1)]
  show "lx_remaining (skip_cp (lex_error_at (skip_cp lx) l c e m)) < lx_remaining lx"
    unfolding lex_error_at_remaining by linarith
  show "lx_remaining (skip_cp (skip_cp lx)) < lx_remaining lx"
    using skip_cp_remaining [OF assms(1)] skip_cp_remaining [OF assms(2)] by linarith
qed

function lex_string_loop :: "Lexer \<Rightarrow> int \<Rightarrow> int \<Rightarrow> cstr \<Rightarrow> bool \<Rightarrow> Lexer" where
  "lex_string_loop lx line col buf ok =
     (if at_end lx then lex_error_at lx line col (lx_col lx) LEX_UNTERMINATED
      else if at_ill_formed_utf8 lx then lex_string_loop (lex_ill_formed_utf8 lx) line col buf False
      else let cp = peek_cp lx; lx' = skip_cp lx in
        if cp = 0x22 then
          if ok then push_token_value lx' TOKEN_STRING buf line col (lx_col lx') else lx'
        else if cp = 0x0A \<or> cp = 0x0D then lex_error_at lx line col (lx_col lx) LEX_UNTERMINATED
        else if cp = 0x5C then
          if at_end lx' then lex_error_at lx' line col (lx_col lx') LEX_UNTERMINATED
          else case string_escape (peek_cp lx') of
              Some out \<Rightarrow> lex_string_loop (skip_cp lx') line col (buf @ [out]) ok
            | None \<Rightarrow> lex_string_loop
                (skip_cp (lex_error_at lx' (lx_line lx') (lx_col lx') (lx_col lx' + 1) LEX_BAD_ESCAPE))
                line col buf False
        else lex_string_loop lx' line col (buf @ source_slice lx' (lx_pos lx)) ok)"
  by pat_completeness auto
termination by (relation "measure (\<lambda>(lx, l, c, b, k). lx_remaining lx)") simp_all

declare lex_string_loop.simps [simp del]

definition lex_string :: "Lexer \<Rightarrow> int \<Rightarrow> int \<Rightarrow> Lexer" where
  "lex_string lx line col = lex_string_loop (skip_cp lx) line col [] True"

definition lex_number :: "Lexer \<Rightarrow> int \<Rightarrow> int \<Rightarrow> Lexer" where
  "lex_number lx line col =
     (let (val, ok, fits, lx) = parse_number lx in
      if \<not> fits then lex_number_too_large lx line col
      else if ok then push_immediate_token lx (as_signed_bits val) line col (lx_col lx)
      else lx)"

definition lex_directive :: "Lexer \<Rightarrow> int \<Rightarrow> int \<Rightarrow> Lexer" where
  "lex_directive lx line col =
     (let (dname, lx) = scan_directive (skip_cp lx) in
      push_token_value lx TOKEN_DIRECTIVE dname line col (lx_col lx))"

definition lex_reserved_prefix_error :: "Lexer \<Rightarrow> int \<Rightarrow> int \<Rightarrow> int \<Rightarrow> Lexer" where
  "lex_reserved_prefix_error lx line col end_col = lex_error_at lx line col end_col LEX_RESERVED"

definition lex_identifier :: "Lexer \<Rightarrow> int \<Rightarrow> int \<Rightarrow> Lexer" where
  "lex_identifier lx line col =
     (let (ident, lx) = scan_ident lx in
      if \<not> at_end lx \<and> peek_cp lx = 0x3A then
        let lx = (if has_reserved_register_prefix ident
                  then lex_reserved_prefix_error lx line col (lx_col lx) else lx);
            lx = skip_cp lx
        in push_token_value lx TOKEN_LABEL_DEF ident line col (lx_col lx - 1)
      else if keywords_lookup ident \<noteq> OPCODE_INVALID then
        push_token_value lx TOKEN_MNEMONIC ident line col (lx_col lx)
      else if classify_register ident \<ge> 0 then
        push_token_value lx TOKEN_REGISTER ident line col (lx_col lx)
      else
        let lx = (if has_reserved_register_prefix ident \<and> ident \<noteq> INSTRUCTION_POINTER_NAME
                     \<and> lexer_register_legacy_replacement ident = None
                  then lex_reserved_prefix_error lx line col (lx_col lx) else lx)
        in push_token_value lx TOKEN_LABEL_REF ident line col (lx_col lx))"

section \<open>The main loop\<close>

text \<open>One iteration of the loop of \<^verbatim>\<open>lex_all\<close>.\<close>

definition lex_step :: "Lexer \<Rightarrow> Lexer" where
  "lex_step lx =
     (let tok_line = lx_line lx; tok_col = lx_col lx; cp = peek_cp lx in
      if cp = 0x20 \<or> cp = 0x09 \<or> cp = 0x0D then skip_cp lx
      else if cp = 0x0A then lex_newline lx tok_line tok_col
      else if cp = 0x3B then lex_comment lx
      else case lex_single_char_token lx cp tok_line tok_col of
          Some lx' \<Rightarrow> lx'
        | None \<Rightarrow>
            if cp = 0x2D then lex_minus_or_negative_number lx tok_line tok_col
            else if cp = 0x2E then lex_directive lx tok_line tok_col
            else if cp = 0x22 then lex_string lx tok_line tok_col
            else if is_number_start cp then lex_number lx tok_line tok_col
            else if is_ident_start cp then lex_identifier lx tok_line tok_col
            else if at_ill_formed_utf8 lx then lex_ill_formed_utf8 lx
            else skip_cp (lex_error lx (unknown_character cp)))"

section \<open>What an operation reads\<close>

text \<open>
  \<open>lx_moves\<close>: the state after an operation has the same source, an offset not smaller and still
  inside the source, a position not earlier, and has forgotten no error. \<open>lx_reads\<close>: besides, if no
  error has been reported, the bytes passed over are well-formed UTF-8.
\<close>

definition utf8_text :: "u8 list \<Rightarrow> bool" where
  "utf8_text bs \<longleftrightarrow> (\<exists>cps. list_all scalar_value cps \<and> bs = concat (map utf8_encode cps))"

definition lx_moves :: "Lexer \<Rightarrow> Lexer \<Rightarrow> bool" where
  "lx_moves lx lx' \<longleftrightarrow>
     lx_src lx' = lx_src lx \<and> lx_pos lx \<le> lx_pos lx'
     \<and> (lx_pos lx \<le> length (sb_data (lx_src lx)) \<longrightarrow> lx_pos lx' \<le> length (sb_data (lx_src lx)))
     \<and> (lx_line lx < lx_line lx' \<or> lx_line lx = lx_line lx' \<and> lx_col lx \<le> lx_col lx')
     \<and> (errors (lx_errors lx') = [] \<longrightarrow> errors (lx_errors lx) = [])"

definition lx_reads :: "Lexer \<Rightarrow> Lexer \<Rightarrow> bool" where
  "lx_reads lx lx' \<longleftrightarrow> lx_moves lx lx'
     \<and> (errors (lx_errors lx') = [] \<longrightarrow> lx_pos lx \<le> length (sb_data (lx_src lx))
        \<longrightarrow> utf8_text (source_slice lx' (lx_pos lx)))"

definition lx_consumes :: "Lexer \<Rightarrow> Lexer \<Rightarrow> bool" where
  "lx_consumes lx lx' \<longleftrightarrow> lx_reads lx lx' \<and> lx_pos lx < lx_pos lx'"

lemma utf8_text_Nil [simp]: "utf8_text []"
  unfolding utf8_text_def by (rule exI [of _ "[]"]) simp

lemma utf8_text_append: "utf8_text a \<Longrightarrow> utf8_text b \<Longrightarrow> utf8_text (a @ b)"
proof -
  assume "utf8_text a" "utf8_text b"
  then obtain xs ys where "list_all scalar_value xs" "a = concat (map utf8_encode xs)"
    "list_all scalar_value ys" "b = concat (map utf8_encode ys)"
    unfolding utf8_text_def by blast
  then show ?thesis unfolding utf8_text_def by (intro exI [of _ "xs @ ys"]) simp
qed

lemma utf8_text_single: "scalar_value n \<Longrightarrow> utf8_text (utf8_encode n)"
  unfolding utf8_text_def by (rule exI [of _ "[n]"]) simp

lemma lx_moves_refl [simp]: "lx_moves lx lx"
  by (simp add: lx_moves_def)

lemma lx_moves_trans [trans]: "lx_moves a b \<Longrightarrow> lx_moves b c \<Longrightarrow> lx_moves a c"
  unfolding lx_moves_def by auto

lemma lx_moves_push [simp]: "lx_moves lx (push_token_value lx' ty v l c e) = lx_moves lx lx'"
  by (simp add: lx_moves_def push_token_value_def push_token_def)

lemma push_fields [simp]:
  "lx_src (push_token_value lx ty v l c e) = lx_src lx"
  "lx_pos (push_token_value lx ty v l c e) = lx_pos lx"
  "lx_line (push_token_value lx ty v l c e) = lx_line lx"
  "lx_col (push_token_value lx ty v l c e) = lx_col lx"
  "lx_errors (push_token_value lx ty v l c e) = lx_errors lx"
  "lx_out (push_token_value lx ty v l c e) = lx_out lx @ [make_token ty v l c e]"
  by (simp_all add: push_token_value_def push_token_def)

lemma lx_moves_skip: "lx_moves lx (skip_cp lx)"
proof (cases "at_end lx")
  case True
  then show ?thesis
    by (auto simp: lx_moves_def at_end_def skip_cp_def advance_cp_def utf8_next_codepoint_def)
next
  case False
  obtain cp nxt where n: "utf8_next_codepoint (sb_data (lx_src lx)) (lx_pos lx) = (cp, nxt)"
    by fastforce
  then show ?thesis
    using False next_progress [OF _ n]
    by (simp add: lx_moves_def at_end_def skip_cp_def advance_cp_def)
qed

lemma error_add_span_nonempty [simp]: "errors (error_add_span l f ln c e m) \<noteq> []"
  by (simp add: error_add_span_def error_push_nonempty)

lemma lx_reads_error: "lx_moves lx lx' \<Longrightarrow> lx_reads lx (lex_error_at lx' l c e m)"
  by (simp add: lx_reads_def lx_moves_def)

lemma lx_reads_moves: "lx_reads lx lx' \<Longrightarrow> lx_moves lx lx'"
  by (simp add: lx_reads_def)

lemma lx_reads_refl [simp]: "lx_reads lx lx"
  by (simp add: lx_reads_def source_slice_def)

lemma lx_reads_push [simp]: "lx_reads lx (push_token_value lx' ty v l c e) = lx_reads lx lx'"
  by (simp add: lx_reads_def source_slice_def)

lemma lx_reads_trans [trans]:
  assumes "lx_reads a b" "lx_reads b c"
  shows "lx_reads a c"
proof -
  have m: "lx_moves a b" "lx_moves b c" using assms by (simp_all add: lx_reads_def)
  then have "lx_moves a c" by (rule lx_moves_trans)
  moreover have "utf8_text (source_slice c (lx_pos a))"
    if e: "errors (lx_errors c) = []" and p: "lx_pos a \<le> length (sb_data (lx_src a))"
  proof -
    have "utf8_text (source_slice b (lx_pos a))" "utf8_text (source_slice c (lx_pos b))"
      using assms m e p by (simp_all add: lx_reads_def lx_moves_def)
    moreover have "source_slice c (lx_pos a) = source_slice b (lx_pos a) @ source_slice c (lx_pos b)"
    proof -
      let ?d = "drop (lx_pos a) (sb_data (lx_src a))"
      have "take (lx_pos c - lx_pos a) ?d
          = take (lx_pos b - lx_pos a) ?d @ take (lx_pos c - lx_pos b) (drop (lx_pos b - lx_pos a) ?d)"
        using m by (subst take_add [symmetric]) (simp add: lx_moves_def)
      then show ?thesis using m by (simp add: source_slice_def lx_moves_def)
    qed
    ultimately show ?thesis by (simp add: utf8_text_append)
  qed
  ultimately show ?thesis by (simp add: lx_reads_def)
qed

lemma lx_reads_skip: "\<not> at_ill_formed_utf8 lx \<Longrightarrow> lx_reads lx (skip_cp lx)"
proof -
  assume wf: "\<not> at_ill_formed_utf8 lx"
  have "utf8_text (source_slice (skip_cp lx) (lx_pos lx))"
  proof (cases "at_end lx")
    case True
    then show ?thesis by (simp add: source_slice_def at_end_def utf8_next_codepoint_def)
  next
    case False
    obtain cp nxt where n: "utf8_next_codepoint (sb_data (lx_src lx)) (lx_pos lx) = (cp, nxt)"
      by fastforce
    have "scalar_value (unat cp)
        \<and> take (nxt - lx_pos lx) (drop (lx_pos lx) (sb_data (lx_src lx))) = utf8_encode (unat cp)"
      using decode_sound [OF _ n] wf False by (simp add: at_end_def at_ill_formed_utf8_def)
    then show ?thesis using utf8_text_single [of "unat cp"] n by (simp add: source_slice_def)
  qed
  then show ?thesis using lx_moves_skip by (simp add: lx_reads_def)
qed

lemma peek_well_formed: "peek_cp lx \<noteq> 0xFFFD \<Longrightarrow> \<not> at_ill_formed_utf8 lx"
  by (auto simp: peek_cp_def at_ill_formed_utf8_def utf8_is_well_formed_at_def
      utf8_peek_codepoint_def split: prod.splits)

lemma lx_consumes_skip:
  assumes "\<not> at_end lx" "\<not> at_ill_formed_utf8 lx"
  shows "lx_consumes lx (skip_cp lx)"
  using assms lx_reads_skip [OF assms(2)]
    next_progress [OF _ surjective_pairing, of "lx_pos lx" "sb_data (lx_src lx)"]
  by (simp add: lx_consumes_def at_end_def)

lemma lx_consumes_skip_error:
  assumes "\<not> at_end lx" "\<not> at_ill_formed_utf8 lx"
  shows "lx_consumes lx (skip_cp (lex_error lx m))"
proof -
  have r: "lx_reads lx (lex_error lx m)" by (simp add: lex_error_def lx_reads_error)
  have "lx_consumes (lex_error lx m) (skip_cp (lex_error lx m))"
    using assms by (intro lx_consumes_skip) (simp_all add: lex_error_def at_end_def at_ill_formed_utf8_def)
  then show ?thesis
    using lx_reads_trans [OF r] by (auto simp: lx_consumes_def lex_error_def)
qed

lemma lx_consumes_trans [trans]: "lx_consumes a b \<Longrightarrow> lx_reads b c \<Longrightarrow> lx_consumes a c"
  using lx_reads_trans [of a b c] by (auto simp: lx_consumes_def lx_reads_def lx_moves_def)

lemma lx_consumes_push [simp]: "lx_consumes lx (push_token_value lx' ty v l c e) = lx_consumes lx lx'"
  by (simp add: lx_consumes_def)

lemma lx_consumes_error:
  "lx_moves lx lx' \<Longrightarrow> lx_pos lx < lx_pos lx' \<Longrightarrow> lx_consumes lx (lex_error_at lx' l c e m)"
  by (simp add: lx_consumes_def lx_reads_error)

lemma lx_consumes_error_at [simp]:
  "lx_consumes lx lx' \<Longrightarrow> lx_consumes lx (lex_error_at lx' l c e m)"
  by (simp add: lx_consumes_def lx_reads_moves lx_reads_error)

lemma lx_reads_error_at [simp]: "lx_reads lx lx' \<Longrightarrow> lx_reads lx (lex_error_at lx' l c e m)"
  by (simp add: lx_reads_moves lx_reads_error)

section \<open>What the handlers read\<close>

lemma digits_loop_reads:
  "digit_value 0xFFFD < 0 \<Longrightarrow>
     lx_reads lx (snd (snd (snd (digits_loop digit_value base lx val got fits))))"
proof (induction digit_value base lx val got fits rule: digits_loop.induct)
  case (1 digit_value base lx val got fits)
  show ?case
  proof (cases "at_end lx \<or> digit_value (peek_cp lx) < 0")
    case True
    then show ?thesis by (auto simp: digits_loop.simps [of _ _ lx] Let_def)
  next
    case False
    then have "peek_cp lx \<noteq> 0xFFFD" using "1.prems" by auto
    then have r: "lx_reads lx (skip_cp lx)" by (intro lx_reads_skip peek_well_formed)
    show ?thesis
      using False 1 lx_reads_trans [OF r]
      by (auto simp: digits_loop.simps [of _ _ lx] Let_def split: option.split)
  qed
qed

lemma digits_loop_got:
  "got \<Longrightarrow> fst (snd (digits_loop digit_value base lx val got fits))"
proof (induction digit_value base lx val got fits rule: digits_loop.induct)
  case (1 digit_value base lx val got fits)
  then show ?case
    by (auto simp: digits_loop.simps [of _ _ lx] Let_def split: option.split)
qed

lemma digits_loop_consumes:
  assumes "digit_value 0xFFFD < 0" "\<not> at_end lx" "0 \<le> digit_value (peek_cp lx)"
  shows "lx_consumes lx (snd (snd (snd (digits_loop digit_value base lx val got fits))))"
proof -
  have "peek_cp lx \<noteq> 0xFFFD" using assms by auto
  then have c: "lx_consumes lx (skip_cp lx)" using assms(2) by (intro lx_consumes_skip peek_well_formed)
  show ?thesis
    using assms lx_consumes_trans [OF c digits_loop_reads [of digit_value, OF assms(1)]]
    by (simp add: digits_loop.simps [of _ _ lx] Let_def split: option.split)
qed

lemma digit_values_bad [simp]:
  "hex_digit_value 0xFFFD < 0" "binary_digit_value 0xFFFD < 0" "decimal_digit_value 0xFFFD < 0"
  by (simp_all add: hex_digit_value_def binary_digit_value_def decimal_digit_value_def
      nazm_is_arabic_digit_def)

text \<open>The state is the last component of what a number parser returns.\<close>

abbreviation state_of :: "'a \<times> 'b \<times> 'c \<times> Lexer \<Rightarrow> Lexer" where
  "state_of r \<equiv> snd (snd (snd r))"

lemma parse_radix_reads:
  "lx_reads lx (state_of (parse_hex_number lx))" "lx_reads lx (state_of (parse_binary_number lx))"
  "lx_reads lx (state_of (parse_decimal_number lx g))"
  using digits_loop_reads [of hex_digit_value lx 16 0 False True]
    digits_loop_reads [of binary_digit_value lx 2 0 False True]
    digits_loop_reads [of decimal_digit_value lx 10 0 g True]
  by (auto simp: parse_hex_number_def parse_binary_number_def parse_decimal_number_def lex_error_def
      split: prod.splits)

lemma number_start_digit: "is_number_start cp \<Longrightarrow> 0 \<le> decimal_digit_value cp"
  by (auto simp: is_number_start_def decimal_digit_value_def arabic_digit_value_def)

lemma parse_number_consumes:
  assumes "\<not> at_end lx" "is_number_start (peek_cp lx)"
  shows "lx_consumes lx (state_of (parse_number lx))"
proof (cases "peek_cp lx = 0x30")
  case False
  have "lx_consumes lx (state_of (digits_loop decimal_digit_value 10 lx 0 False True))"
    using assms number_start_digit by (intro digits_loop_consumes) simp_all
  then show ?thesis
    using False by (auto simp: parse_number_def parse_decimal_number_def lex_error_def split: prod.splits)
next
  case True
  let ?lx = "skip_cp lx"
  have c: "lx_consumes lx ?lx" using assms True by (intro lx_consumes_skip peek_well_formed) simp_all
  have x: "lx_consumes lx (skip_cp ?lx)" if "peek_cp ?lx \<noteq> 0xFFFD"
    using lx_consumes_trans [OF c lx_reads_skip [OF peek_well_formed [OF that]]] .
  show ?thesis
    using True x lx_consumes_trans [OF c] parse_radix_reads lx_consumes_trans [OF x parse_radix_reads(1)]
      lx_consumes_trans [OF x parse_radix_reads(2)]
    by (simp add: parse_number_def Let_def)
qed

lemma scan_while_reads: "\<not> f 0xFFFD \<Longrightarrow> lx_reads lx (scan_while f lx)"
proof (induction f lx rule: scan_while.induct)
  case (1 f lx)
  show ?case
  proof (cases "at_end lx \<or> \<not> f (peek_cp lx)")
    case False
    then have "peek_cp lx \<noteq> 0xFFFD" using "1.prems" by auto
    then have r: "lx_reads lx (skip_cp lx)" by (intro lx_reads_skip peek_well_formed)
    show ?thesis using False 1 lx_reads_trans [OF r] by (simp add: scan_while.simps [of f lx])
  qed (auto simp: scan_while.simps [of f lx])
qed

lemma bad_not_ident [simp]:
  "\<not> is_ident_continue 0xFFFD" "\<not> is_arabic_letter 0xFFFD"
  by (simp_all add: is_ident_continue_def is_arabic_letter_def nazm_is_arabic_digit_def)

lemma ident_start_continue: "is_ident_start cp \<Longrightarrow> is_ident_continue cp"
  by (auto simp: is_ident_start_def is_ident_continue_def)

lemma skip_ill_formed_moves: "lx_moves lx (skip_ill_formed lx)"
proof (induction lx rule: skip_ill_formed.induct)
  case (1 lx)
  then show ?case
    using lx_moves_trans [OF lx_moves_skip, of lx "skip_ill_formed (skip_cp lx)"]
    by (cases "at_ill_formed_utf8 lx") (simp_all add: skip_ill_formed.simps [of lx])
qed

lemma ill_formed_reads: "lx_reads lx (lex_ill_formed_utf8 lx)"
  by (simp add: lex_ill_formed_utf8_def Let_def lx_reads_error skip_ill_formed_moves)

lemma ill_formed_consumes: "at_ill_formed_utf8 lx \<Longrightarrow> lx_consumes lx (lex_ill_formed_utf8 lx)"
proof -
  assume "at_ill_formed_utf8 lx"
  then have "lx_remaining (lex_ill_formed_utf8 lx) < lx_remaining lx" by simp
  moreover have "lx_reads lx (lex_ill_formed_utf8 lx)" by (rule ill_formed_reads)
  ultimately show ?thesis by (simp add: lx_consumes_def lx_remaining_def lx_reads_def lx_moves_def)
qed

lemma lex_comment_reads: "lx_reads lx (lex_comment lx)"
proof (induction lx rule: lex_comment.induct)
  case (1 lx)
  then show ?case
    using lx_reads_trans [OF ill_formed_reads, of lx "lex_comment (lex_ill_formed_utf8 lx)"]
      lx_reads_trans [OF lx_reads_skip, of lx "lex_comment (skip_cp lx)"]
    by (simp add: lex_comment.simps [of lx])
qed

lemma lex_string_loop_reads: "lx_reads lx (lex_string_loop lx line col buf ok)"
proof (induction lx line col buf ok rule: lex_string_loop.induct)
  case (1 lx line col buf ok)
  let ?lx = "skip_cp lx"
  show ?case
  proof (cases "\<not> at_end lx \<and> at_ill_formed_utf8 lx")
    case True
    with 1(1) lx_reads_trans [OF ill_formed_reads, of lx "lex_string_loop (lex_ill_formed_utf8 lx) line col buf False"]
    show ?thesis by (simp add: lex_string_loop.simps [of lx])
  next
    case False
    show ?thesis
    proof (cases "at_end lx")
      case True
      then show ?thesis by (simp add: lex_string_loop.simps [of lx])
    next
      case inside: False
      with False have r: "lx_reads lx ?lx" by (intro lx_reads_skip) simp
      have e: "lx_reads lx (skip_cp ?lx)" if "string_escape (peek_cp ?lx) \<noteq> None"
      proof -
        have "peek_cp ?lx \<noteq> 0xFFFD" using that by (auto simp: string_escape_def)
        then show ?thesis using lx_reads_trans [OF r lx_reads_skip [OF peek_well_formed]] by blast
      qed
      have u: "lx_reads lx (skip_cp (lex_error_at ?lx l c e m))" for l c e m
      proof -
        have "lx_reads lx (lex_error_at ?lx l c e m)" using r by simp
        moreover have "lx_moves (lex_error_at ?lx l c e m) (skip_cp (lex_error_at ?lx l c e m))"
          by (rule lx_moves_skip)
        ultimately show ?thesis
          using lx_moves_trans by (fastforce simp: lx_reads_def)
      qed
      show ?thesis
        using False inside r lx_reads_trans [OF r] lx_reads_trans [OF e] lx_reads_trans [OF u] 1(2-)
        by (auto simp: lex_string_loop.simps [of lx] Let_def split: option.split)
    qed
  qed
qed

lemma lex_newline_consumes:
  "\<not> at_end lx \<Longrightarrow> peek_cp lx \<noteq> 0xFFFD \<Longrightarrow> lx_consumes lx (lex_newline lx line col)"
  using lx_consumes_skip [of lx] peek_well_formed [of lx] by (simp add: lex_newline_def Let_def)

lemma lex_single_char_consumes:
  "\<not> at_end lx \<Longrightarrow> peek_cp lx \<noteq> 0xFFFD \<Longrightarrow> lex_single_char_token lx cp line col = Some lx'
     \<Longrightarrow> lx_consumes lx lx'"
  using lx_consumes_skip [of lx] peek_well_formed [of lx]
  by (auto simp: lex_single_char_token_def split: if_splits)

lemma lex_minus_consumes:
  assumes "\<not> at_end lx" "peek_cp lx = 0x2D"
  shows "lx_consumes lx (lex_minus_or_negative_number lx line col)"
proof (cases "is_number_start (peek_cp (skip_cp lx))")
  case True
  have c: "lx_consumes lx (skip_cp lx)" using assms by (intro lx_consumes_skip peek_well_formed) simp_all
  have "\<not> at_end (skip_cp lx)" using True
    by (auto simp: at_end_def peek_cp_def utf8_peek_codepoint_def utf8_next_codepoint_def
        is_number_start_def nazm_is_arabic_digit_def)
  then have "lx_reads (skip_cp lx) (state_of (parse_number (skip_cp lx)))"
    using parse_number_consumes True by (simp add: lx_consumes_def)
  with c have "lx_consumes lx (state_of (parse_number (skip_cp lx)))" by (rule lx_consumes_trans)
  then show ?thesis
    using True by (auto simp: lex_minus_or_negative_number_def Let_def lex_number_too_large_def
        push_immediate_token_def split: prod.splits)
next
  case False
  let ?lx = "(skip_cp lx)\<lparr>lx_pos := lx_pos lx\<rparr>"
  have c: "lx_consumes lx (skip_cp lx)" using assms by (intro lx_consumes_skip peek_well_formed) simp_all
  then have "lx_reads lx ?lx"
    by (simp add: lx_consumes_def lx_reads_def lx_moves_def source_slice_def)
  moreover have "lx_consumes ?lx (skip_cp ?lx)"
    using assms by (intro lx_consumes_skip peek_well_formed) (simp_all add: at_end_def peek_cp_def)
  ultimately have "lx_consumes lx (skip_cp ?lx)"
    using lx_reads_trans [of lx ?lx "skip_cp ?lx"] by (simp add: lx_consumes_def)
  then show ?thesis
    using False by (simp add: lex_minus_or_negative_number_def Let_def)
qed

lemma lex_number_consumes:
  "\<not> at_end lx \<Longrightarrow> is_number_start (peek_cp lx) \<Longrightarrow> lx_consumes lx (lex_number lx line col)"
  using parse_number_consumes [of lx]
  by (auto simp: lex_number_def lex_number_too_large_def push_immediate_token_def split: prod.splits)

lemma lex_directive_consumes:
  assumes "\<not> at_end lx" "peek_cp lx \<noteq> 0xFFFD"
  shows "lx_consumes lx (lex_directive lx line col)"
proof -
  have c: "lx_consumes lx (skip_cp lx)" using assms by (intro lx_consumes_skip peek_well_formed)
  show ?thesis
    using lx_consumes_trans [OF c scan_while_reads]
    by (simp add: lex_directive_def scan_directive_def Let_def)
qed

lemma scan_ident_consumes:
  assumes "\<not> at_end lx" "is_ident_start (peek_cp lx)"
  shows "lx_consumes lx (snd (scan_ident lx))"
proof -
  have i: "is_ident_continue (peek_cp lx)" using assms ident_start_continue by simp
  then have "peek_cp lx \<noteq> 0xFFFD" by auto
  then have c: "lx_consumes lx (skip_cp lx)" using assms by (intro lx_consumes_skip peek_well_formed)
  show ?thesis
    using assms i lx_consumes_trans [OF c scan_while_reads]
    by (simp add: scan_ident_def Let_def scan_while.simps [of _ lx])
qed

lemma lex_identifier_consumes:
  assumes "\<not> at_end lx" "is_ident_start (peek_cp lx)"
  shows "lx_consumes lx (lex_identifier lx line col)"
proof -
  obtain ident lx' where s: "scan_ident lx = (ident, lx')" by fastforce
  have c: "lx_consumes lx lx'" using scan_ident_consumes [OF assms] s by simp
  have k: "lx_consumes lx (skip_cp lx'')" if "lx_consumes lx lx''" "peek_cp lx'' = 0x3A" for lx''
    using lx_consumes_trans [OF that(1) lx_reads_skip [OF peek_well_formed]] that(2) by simp
  have p: "peek_cp (lex_error_at lx' l c e m) = peek_cp lx'" for l c e m by (simp add: peek_cp_def)
  show ?thesis
    using c k by (simp add: lex_identifier_def s Let_def lex_reserved_prefix_error_def p)
qed

lemma lex_string_consumes:
  assumes "\<not> at_end lx" "peek_cp lx \<noteq> 0xFFFD"
  shows "lx_consumes lx (lex_string lx line col)"
proof -
  have "lx_consumes lx (skip_cp lx)" using assms by (intro lx_consumes_skip peek_well_formed)
  from lx_consumes_trans [OF this lex_string_loop_reads] show ?thesis by (simp add: lex_string_def)
qed

lemma lex_comment_consumes:
  assumes "\<not> at_end lx" "peek_cp lx = 0x3B"
  shows "lx_consumes lx (lex_comment lx)"
proof -
  have w: "\<not> at_ill_formed_utf8 lx" using assms by (intro peek_well_formed) simp
  have "lx_consumes lx (skip_cp lx)" by (rule lx_consumes_skip [OF assms(1) w])
  from lx_consumes_trans [OF this lex_comment_reads] show ?thesis
    using assms w by (simp add: lex_comment.simps [of lx])
qed

text \<open>Every iteration of the main loop consumes at least one byte.\<close>

lemma lex_step_consumes:
  assumes "\<not> at_end lx"
  shows "lx_consumes lx (lex_step lx)"
proof (cases "peek_cp lx = 0xFFFD")
  case True
  have n: "\<not> is_number_start 0xFFFD" "\<not> is_ident_start 0xFFFD"
    by (simp_all add: is_number_start_def nazm_is_arabic_digit_def is_ident_start_def)
  have "lex_step lx = (if at_ill_formed_utf8 lx then lex_ill_formed_utf8 lx
      else skip_cp (lex_error lx (unknown_character 0xFFFD)))"
    by (simp add: lex_step_def True n lex_single_char_token_def)
  then show ?thesis
    using ill_formed_consumes lx_consumes_skip_error [OF assms] by simp
next
  case False
  have w: "\<not> at_ill_formed_utf8 lx" using False by (rule peek_well_formed)
  show ?thesis
  proof (cases "lex_single_char_token lx (peek_cp lx) (lx_line lx) (lx_col lx)")
    case None
    then show ?thesis
      using assms False w lx_consumes_skip [OF assms w] lex_newline_consumes lex_comment_consumes
        lex_minus_consumes lex_directive_consumes lex_string_consumes lex_number_consumes
        lex_identifier_consumes lx_consumes_skip_error [OF assms w]
      by (simp add: lex_step_def Let_def)
  next
    case (Some lx')
    then have "lex_step lx = lx'" by (auto simp: lex_step_def lex_single_char_token_def split: if_splits)
    then show ?thesis using lex_single_char_consumes [OF assms False Some] by simp
  qed
qed

lemma lex_step_remaining [simp]: "\<not> at_end lx \<Longrightarrow> lx_remaining (lex_step lx) < lx_remaining lx"
  using lex_step_consumes [of lx]
  by (auto simp: lx_consumes_def lx_reads_def lx_moves_def lx_remaining_def at_end_def)

section \<open>The whole source\<close>

function lex_all :: "Lexer \<Rightarrow> Lexer" where
  "lex_all lx =
     (if at_end lx then push_token_value lx TOKEN_EOF [] (lx_line lx) (lx_col lx) (lx_col lx)
      else lex_all (lex_step lx))"
  by pat_completeness auto
termination by (relation "measure lx_remaining") simp_all

declare lex_all.simps [simp del]

definition lexer_start :: "SourceBuffer \<Rightarrow> Lexer" where
  "lexer_start src =
     \<lparr>lx_src = src,
      lx_errors = error_list_set_source error_list_init (sb_name src) (Some (sb_data src)),
      lx_out = [], lx_pos = 0, lx_line = 1, lx_col = 1\<rparr>"

definition lexer_lex :: "SourceBuffer \<Rightarrow> LexResult" where
  "lexer_lex src =
     (let lx = lex_all (lexer_start src) in
      \<lparr>lr_tokens = \<lparr>ta_tokens = lx_out lx, ta_source_name = sb_name src, ta_source_data = sb_data src\<rparr>,
       lr_errors = lx_errors lx\<rparr>)"

definition token_type_name :: "TokenType \<Rightarrow> cstr" where
  "token_type_name ty =
     (case ty of
        TOKEN_MNEMONIC \<Rightarrow> [0xD8, 0xA7, 0xD8, 0xB3, 0xD9, 0x85, 0x20, 0xD8, 0xAA, 0xD8, 0xB9, 0xD9, 0x84, 0xD9,
     0x8A, 0xD9, 0x85, 0xD8, 0xA9]
      | TOKEN_REGISTER \<Rightarrow> [0xD8, 0xB3, 0xD8, 0xAC, 0xD9, 0x84]
      | TOKEN_IMMEDIATE \<Rightarrow> [0xD9, 0x82, 0xD9, 0x8A, 0xD9, 0x85, 0xD8, 0xA9, 0x20, 0xD9, 0x81, 0xD9, 0x88, 0xD8,
     0xB1, 0xD9, 0x8A, 0xD8, 0xA9]
      | TOKEN_LABEL_DEF \<Rightarrow> [0xD8, 0xAA, 0xD8, 0xB9, 0xD8, 0xB1, 0xD9, 0x8A, 0xD9, 0x81, 0x20, 0xD9, 0x88, 0xD8,
     0xB3, 0xD9, 0x85]
      | TOKEN_LABEL_REF \<Rightarrow> [0xD9, 0x85, 0xD8, 0xB1, 0xD8, 0xAC, 0xD8, 0xB9, 0x20, 0xD9, 0x88, 0xD8, 0xB3, 0xD9, 0x85]
      | TOKEN_STRING \<Rightarrow> [0xD9, 0x82, 0xD9, 0x8A, 0xD9, 0x85, 0xD8, 0xA9, 0x20, 0xD8, 0xAD, 0xD8, 0xB1, 0xD9,
     0x81, 0xD9, 0x8A, 0xD8, 0xA9, 0x20, 0xD9, 0x86, 0xD8, 0xB5, 0xD9, 0x8A, 0xD8, 0xA9]
      | TOKEN_DIRECTIVE \<Rightarrow> [0xD8, 0xAA, 0xD9, 0x88, 0xD8, 0xAC, 0xD9, 0x8A, 0xD9, 0x87]
      | TOKEN_LBRACKET \<Rightarrow> [0xD9, 0x82, 0xD9, 0x88, 0xD8, 0xB3, 0x20, 0xD9, 0x81, 0xD8, 0xAA, 0xD8, 0xAD]
      | TOKEN_RBRACKET \<Rightarrow> [0xD9, 0x82, 0xD9, 0x88, 0xD8, 0xB3, 0x20, 0xD8, 0xA5, 0xD8, 0xBA, 0xD9, 0x84, 0xD8,
     0xA7, 0xD9, 0x82]
      | TOKEN_PLUS \<Rightarrow> [0xD8, 0xB9, 0xD9, 0x84, 0xD8, 0xA7, 0xD9, 0x85, 0xD8, 0xA9, 0x20, 0xD8, 0xAC, 0xD9,
     0x85, 0xD8, 0xB9]
      | TOKEN_MINUS \<Rightarrow> [0xD8, 0xB9, 0xD9, 0x84, 0xD8, 0xA7, 0xD9, 0x85, 0xD8, 0xA9, 0x20, 0xD8, 0xB7, 0xD8,
     0xB1, 0xD8, 0xAD]
      | TOKEN_COMMA \<Rightarrow> [0xD9, 0x81, 0xD8, 0xA7, 0xD8, 0xB5, 0xD9, 0x84, 0xD8, 0xA9]
      | TOKEN_COLON \<Rightarrow> [0xD9, 0x86, 0xD9, 0x82, 0xD8, 0xB7, 0xD8, 0xAA, 0xD8, 0xA7, 0xD9, 0x86]
      | TOKEN_NEWLINE \<Rightarrow> [0xD9, 0x86, 0xD9, 0x87, 0xD8, 0xA7, 0xD9, 0x8A, 0xD8, 0xA9, 0x20, 0xD8, 0xB3, 0xD8,
     0xB7, 0xD8, 0xB1]
      | TOKEN_EOF \<Rightarrow> [0xD9, 0x86, 0xD9, 0x87, 0xD8, 0xA7, 0xD9, 0x8A, 0xD8, 0xA9, 0x20, 0xD9, 0x85, 0xD9,
     0x84, 0xD9, 0x81]
      | TOKEN_ERROR \<Rightarrow> [0xD8, 0xAE, 0xD8, 0xB7, 0xD8, 0xA3, 0x20, 0xD9, 0x85, 0xD8, 0xB9, 0xD8, 0xAC, 0xD9,
     0x85, 0xD9, 0x8A])"

end
