(* ===== verification/Lexer_Facts.thy ===== *)
theory Lexer_Facts
  imports Lexer
begin

text \<open>
  What the token stream promises the parser: every token has the shape its type says, tokens are in
  source order with spans that do not overlap, and text accepted without an error is UTF-8.
\<close>

section \<open>Shapes of tokens\<close>

text \<open>A text made of the code points that continue an identifier.\<close>

definition ident_text :: "cstr \<Rightarrow> bool" where
  "ident_text v \<longleftrightarrow> (\<exists>cps. list_all (\<lambda>n. scalar_value n \<and> is_ident_continue (word_of_nat n)) cps
     \<and> v = concat (map utf8_encode cps))"

definition token_ok :: "Token \<Rightarrow> bool" where
  "token_ok t \<longleftrightarrow> (let v = tok_value t in case tok_type t of
      TOKEN_MNEMONIC \<Rightarrow> keywords_lookup v \<noteq> OPCODE_INVALID
    | TOKEN_REGISTER \<Rightarrow> classify_register v \<noteq> - 1
    | TOKEN_IMMEDIATE \<Rightarrow> (\<exists>n :: i64. v = print_int (sint n))
    | TOKEN_LABEL_DEF \<Rightarrow> v \<noteq> [] \<and> ident_text v
    | TOKEN_LABEL_REF \<Rightarrow> v \<noteq> [] \<and> ident_text v
        \<and> keywords_lookup v = OPCODE_INVALID \<and> classify_register v = - 1
    | TOKEN_STRING \<Rightarrow> True
    | TOKEN_DIRECTIVE \<Rightarrow> (\<exists>w. v = 0x2E # w \<and> ident_text w)
    | TOKEN_LBRACKET \<Rightarrow> v = [0x5B] | TOKEN_RBRACKET \<Rightarrow> v = [0x5D]
    | TOKEN_PLUS \<Rightarrow> v = [0x2B] | TOKEN_MINUS \<Rightarrow> v = [0x2D]
    | TOKEN_COMMA \<Rightarrow> v = [0x2C] \<or> v = [0xD8, 0x8C]
    | TOKEN_COLON \<Rightarrow> v = [0x3A] | TOKEN_NEWLINE \<Rightarrow> v = [0x0A]
    | TOKEN_EOF \<Rightarrow> v = [] | TOKEN_ERROR \<Rightarrow> False)"

lemma encode_no_zero:
  assumes "scalar_value n" "n \<noteq> 0"
  shows "0 \<notin> set (utf8_encode n)"
proof -
  have z: "byte_of k \<noteq> 0" if "0 < k" "k < 256" for k
    using unat_byte [OF that(2)] that(1) by auto
  consider "n < 0x80" | "0x80 \<le> n" "n < 0x800" | "0x800 \<le> n" "n < 0x10000"
    | "0x10000 \<le> n" "n < 0x110000" using assms(1) by (fastforce simp: scalar_value_def)
  then show ?thesis
  proof cases
    case 1
    then show ?thesis using z [of n] assms(2) by (simp add: utf8_encode_def)
  next
    case 2
    then have "0xC0 + n div 64 < 256" by (simp add: less_mult_imp_div_less)
    with 2 show ?thesis
      using z [of "0xC0 + n div 64"] z [of "0x80 + n mod 64"] by (simp add: utf8_encode_def)
  next
    case 3
    then have "0xE0 + n div 4096 < 256" by (simp add: less_mult_imp_div_less)
    with 3 show ?thesis
      using z [of "0xE0 + n div 4096"] z [of "0x80 + n div 64 mod 64"] z [of "0x80 + n mod 64"]
      by (simp add: utf8_encode_def)
  next
    case 4
    then have "n div 262144 < 16" by (intro less_mult_imp_div_less) simp
    then have "0xF0 + n div 262144 < 256" by simp
    with 4 show ?thesis
      using z [of "0xF0 + n div 262144"] z [of "0x80 + n div 4096 mod 64"]
        z [of "0x80 + n div 64 mod 64"] z [of "0x80 + n mod 64"]
      by (simp add: utf8_encode_def)
  qed
qed

lemma ident_no_zero: "ident_text v \<Longrightarrow> 0 \<notin> set v"
proof -
  have "n \<noteq> 0" if "is_ident_continue (word_of_nat n)" for n :: nat
    using that by (cases "n = 0") (simp_all add: is_ident_continue_def is_arabic_letter_def nazm_is_arabic_digit_def)
  moreover assume "ident_text v"
  ultimately show ?thesis
    unfolding ident_text_def list_all_iff using encode_no_zero by fastforce
qed

lemma ident_text_Nil [simp]: "ident_text []"
  unfolding ident_text_def by (rule exI [of _ "[]"]) simp

lemma ident_text_Cons:
  "scalar_value n \<Longrightarrow> is_ident_continue (word_of_nat n) \<Longrightarrow> ident_text v \<Longrightarrow> ident_text (utf8_encode n @ v)"
  unfolding ident_text_def by (elim exE, rule_tac x = "n # cps" in exI) simp

section \<open>Scanning along a line\<close>

lemma skip_row: "peek_cp lx \<noteq> 0x0A \<Longrightarrow> lx_line (skip_cp lx) = lx_line lx \<and> lx_col (skip_cp lx) = lx_col lx + 1"
  by (auto simp: peek_cp_def utf8_peek_codepoint_def skip_cp_def advance_cp_def split: prod.splits)

lemma scan_while_row:
  "\<not> f 0x0A \<Longrightarrow> lx_line (scan_while f lx) = lx_line lx \<and> lx_col lx \<le> lx_col (scan_while f lx)"
proof (induction f lx rule: scan_while.induct)
  case (1 f lx)
  show ?case
  proof (cases "at_end lx \<or> \<not> f (peek_cp lx)")
    case False
    then have "peek_cp lx \<noteq> 0x0A" using "1.prems" by auto
    then show ?thesis using 1 False skip_row [of lx] by (simp add: scan_while.simps [of f lx])
  qed (auto simp: scan_while.simps [of f lx])
qed

lemma source_slice_step:
  assumes "\<not> at_end lx" "peek_cp lx \<noteq> 0xFFFD" "lx_reads (skip_cp lx) lx'"
  shows "scalar_value (unat (peek_cp lx))
    \<and> source_slice lx' (lx_pos lx) = utf8_encode (unat (peek_cp lx)) @ source_slice lx' (lx_pos (skip_cp lx))"
proof -
  let ?d = "sb_data (lx_src lx)"
  obtain cp nxt where n: "utf8_next_codepoint ?d (lx_pos lx) = (cp, nxt)" by fastforce
  have "scalar_value (unat cp) \<and> lx_pos lx < nxt \<and> nxt \<le> length ?d
      \<and> take (nxt - lx_pos lx) (drop (lx_pos lx) ?d) = utf8_encode (unat cp)"
    using decode_sound [OF _ n] peek_well_formed [OF assms(2)] assms(1)
    by (simp add: at_end_def at_ill_formed_utf8_def)
  moreover have "lx_src lx' = lx_src lx" "nxt \<le> lx_pos lx'"
    using assms(3) n by (simp_all add: lx_reads_def lx_moves_def)
  moreover from calculation have "take (lx_pos lx' - lx_pos lx) (drop (lx_pos lx) ?d)
      = take (nxt - lx_pos lx) (drop (lx_pos lx) ?d) @ take (lx_pos lx' - nxt) (drop nxt ?d)"
    using take_add [of "nxt - lx_pos lx" "lx_pos lx' - nxt" "drop (lx_pos lx) ?d"] by simp
  ultimately show ?thesis
    using n by (simp add: source_slice_def peek_cp_def utf8_peek_codepoint_def)
qed

lemma scan_while_text:
  assumes "\<not> f 0xFFFD" "\<And>cp. f cp \<Longrightarrow> is_ident_continue cp"
  shows "ident_text (source_slice (scan_while f lx) (lx_pos lx))"
  using assms
proof (induction f lx rule: scan_while.induct)
  case (1 f lx)
  show ?case
  proof (cases "at_end lx \<or> \<not> f (peek_cp lx)")
    case True
    then show ?thesis by (auto simp: scan_while.simps [of f lx] source_slice_def)
  next
    case False
    then have c: "peek_cp lx \<noteq> 0xFFFD" "is_ident_continue (peek_cp lx)" using "1.prems" by auto
    have "ident_text (source_slice (scan_while f (skip_cp lx)) (lx_pos (skip_cp lx)))"
      using 1 False by simp
    then show ?thesis
      using source_slice_step [OF _ c(1) scan_while_reads [of f "skip_cp lx"]] 1(2) False c(2)
        ident_text_Cons [of "unat (peek_cp lx)"]
      by (simp add: scan_while.simps [of f lx])
  qed
qed

lemma scan_while_keeps [simp]:
  "lx_out (scan_while f lx) = lx_out lx" "lx_errors (scan_while f lx) = lx_errors lx"
  "lx_src (scan_while f lx) = lx_src lx"
proof (induction f lx rule: scan_while.induct)
  case (1 f lx)
  {
    case 1 then show ?case using "1.IH" by (simp add: scan_while.simps [of f lx])
  next
    case 2 then show ?case using "1.IH" by (simp add: scan_while.simps [of f lx])
  next
    case 3 then show ?case using "1.IH" by (simp add: scan_while.simps [of f lx])
  }
qed

lemma not_newline [simp]:
  "\<not> is_ident_continue 0x0A" "\<not> is_arabic_letter 0x0A" "\<not> is_number_start 0x0A"
  by (simp_all add: is_ident_continue_def is_arabic_letter_def nazm_is_arabic_digit_def
      is_number_start_def)

lemma scan_ident_facts:
  assumes "\<not> at_end lx" "is_ident_start (peek_cp lx)" "scan_ident lx = (ident, lx')"
  shows "ident_text ident \<and> ident \<noteq> [] \<and> lx_line lx' = lx_line lx \<and> lx_col lx < lx_col lx'
    \<and> lx_out lx' = lx_out lx \<and> lx_src lx' = lx_src lx"
proof -
  have i: "is_ident_continue (peek_cp lx)" using assms(2) by (rule ident_start_continue)
  then have p: "peek_cp lx \<noteq> 0x0A" by auto
  have u: "scan_while is_ident_continue lx = scan_while is_ident_continue (skip_cp lx)"
    using assms(1) i by (simp add: scan_while.simps [of _ lx])
  have lx': "lx' = scan_while is_ident_continue lx" "ident = source_slice lx' (lx_pos lx)"
    using assms(3) by (auto simp: scan_ident_def Let_def)
  have "lx_consumes lx lx'" using scan_ident_consumes [OF assms(1,2)] assms(3) by simp
  then have "ident \<noteq> []"
    using assms(1) by (auto simp: lx' source_slice_def lx_consumes_def at_end_def)
  then show ?thesis
    using scan_while_text [of is_ident_continue lx] skip_row [OF p]
      scan_while_row [of is_ident_continue "skip_cp lx"] by (simp add: lx' u)
qed

section \<open>Tokens a step emits\<close>

text \<open>
  A step emits no token, or one token of the right shape that begins where the step began and ends,
  on the same line, no later than the step; a line end is emitted only after another token.
\<close>

definition tok_placed :: "Lexer \<Rightarrow> Lexer \<Rightarrow> Token \<Rightarrow> bool" where
  "tok_placed lx lx' t \<longleftrightarrow> token_ok t \<and> tok_type t \<noteq> TOKEN_EOF
     \<and> tok_line t = lx_line lx \<and> tok_col t = lx_col lx \<and> tok_col t < tok_end_col t
     \<and> (tok_line t < lx_line lx' \<or> tok_line t = lx_line lx' \<and> tok_end_col t \<le> lx_col lx')
     \<and> (tok_type t = TOKEN_NEWLINE \<longrightarrow> \<not> last_token_is_newline lx)"

definition lx_emits :: "Lexer \<Rightarrow> Lexer \<Rightarrow> bool" where
  "lx_emits lx lx' \<longleftrightarrow> lx_out lx' = lx_out lx
     \<or> (\<exists>t. lx_out lx' = lx_out lx @ [t] \<and> tok_placed lx lx' t)"

lemma lx_emits_none [simp]: "lx_out lx' = lx_out lx \<Longrightarrow> lx_emits lx lx'"
  by (simp add: lx_emits_def)

lemma lx_emits_push:
  assumes "lx_out lx' = lx_out lx" "tok_placed lx lx' (make_token ty v (lx_line lx) (lx_col lx) e)"
  shows "lx_emits lx (push_token_value lx' ty v (lx_line lx) (lx_col lx) e)"
  using assms by (auto simp: lx_emits_def tok_placed_def)

text \<open>Printing a 64-bit value never reaches the end of the 32-byte buffer.\<close>

lemma length_print_nat: "n < 10 ^ Suc k \<Longrightarrow> length (print_nat n) \<le> Suc k"
proof (induction n arbitrary: k rule: print_nat.induct)
  case (1 n)
  show ?case
  proof (cases "n < 10")
    case False
    then obtain j where k: "k = Suc j" using 1(2) by (cases k) auto
    have "n div 10 < 10 ^ Suc j" using 1(2) unfolding k by (simp add: less_mult_imp_div_less)
    then show ?thesis using 1(1) [OF False] False by (simp add: print_nat.simps [of n] k)
  qed (simp add: print_nat.simps [of n])
qed

lemma immediate_text: "snprintf 32 (print_int (sint (v :: i64))) = print_int (sint v)"
proof -
  have b: "- (2 ^ 63) \<le> sint v" "sint v < 2 ^ 63"
    using sint_greater_eq [of v] sint_less [of v] by simp_all
  have "nat \<bar>sint v\<bar> < 10 ^ Suc 19" using b by simp
  then have "length (print_nat (nat \<bar>sint v\<bar>)) \<le> 20" using length_print_nat by fastforce
  then have "length (print_int (sint v)) \<le> 31" by (auto simp: print_int_def abs_if split: if_splits)
  then show ?thesis by (simp add: snprintf_def)
qed

lemma tok_placed_immediate:
  assumes "lx_line lx' = lx_line lx" "lx_col lx < lx_col lx'"
  shows "tok_placed lx lx' (make_token TOKEN_IMMEDIATE (snprintf 32 (print_int (sint (v :: i64))))
           (lx_line lx) (lx_col lx) (lx_col lx'))"
  using assms by (auto simp: tok_placed_def make_token_def token_ok_def immediate_text)

text \<open>\<open>lx_row n lx lx'\<close>: still on the same line, at least \<open>n\<close> columns on, no token emitted.\<close>

definition lx_row :: "int \<Rightarrow> Lexer \<Rightarrow> Lexer \<Rightarrow> bool" where
  "lx_row n lx lx' \<longleftrightarrow> lx_line lx' = lx_line lx \<and> lx_col lx + n \<le> lx_col lx' \<and> lx_out lx' = lx_out lx"

lemma lx_row_refl [simp]: "lx_row 0 lx lx"
  by (simp add: lx_row_def)

lemma lx_row_trans: "lx_row n a b \<Longrightarrow> lx_row 0 b c \<Longrightarrow> lx_row n a c"
  by (simp add: lx_row_def)

lemma lx_row_weaken: "lx_row 1 a b \<Longrightarrow> lx_row 0 a b"
  by (simp add: lx_row_def)

lemma lx_row_skip: "peek_cp lx \<noteq> 0x0A \<Longrightarrow> lx_row 1 lx (skip_cp lx)"
  using skip_row [of lx] by (simp add: lx_row_def)

lemma lx_row_error [simp]: "lx_row n lx (lex_error_at lx' l c e m) = lx_row n lx lx'"
  by (simp add: lx_row_def)

lemma digits_loop_row:
  "digit_value 0x0A < 0 \<Longrightarrow> lx_row 0 lx (state_of (digits_loop digit_value base lx val got fits))"
proof (induction digit_value base lx val got fits rule: digits_loop.induct)
  case (1 digit_value base lx val got fits)
  show ?case
  proof (cases "at_end lx \<or> digit_value (peek_cp lx) < 0")
    case True
    then show ?thesis by (auto simp: digits_loop.simps [of _ _ lx] Let_def)
  next
    case False
    then have "peek_cp lx \<noteq> 0x0A" using 1(3) by auto
    then have "lx_row 0 lx (skip_cp lx)" by (intro lx_row_weaken lx_row_skip)
    from lx_row_trans [OF this 1(1) [OF _ refl]] lx_row_trans [OF this 1(2) [OF _ refl]]
    show ?thesis
      using False 1(3) by (auto simp: digits_loop.simps [of _ _ lx] Let_def split: option.split)
  qed
qed

lemma digit_values_newline [simp]:
  "hex_digit_value 0x0A < 0" "binary_digit_value 0x0A < 0" "decimal_digit_value 0x0A < 0"
  by (simp_all add: hex_digit_value_def binary_digit_value_def decimal_digit_value_def
      nazm_is_arabic_digit_def)

lemma parse_radix_row:
  "lx_row 0 lx (state_of (parse_hex_number lx))" "lx_row 0 lx (state_of (parse_binary_number lx))"
  "lx_row 0 lx (state_of (parse_decimal_number lx g))"
  using digits_loop_row [of hex_digit_value lx 16 0 False True]
    digits_loop_row [of binary_digit_value lx 2 0 False True]
    digits_loop_row [of decimal_digit_value lx 10 0 g True]
  by (auto simp: parse_hex_number_def parse_binary_number_def parse_decimal_number_def lex_error_def
      split: prod.splits)

lemma parse_number_row:
  assumes "\<not> at_end lx" "is_number_start (peek_cp lx)"
  shows "lx_row 1 lx (state_of (parse_number lx))"
proof -
  have s: "lx_row 1 lx (skip_cp lx)" using assms by (intro lx_row_skip) auto
  show ?thesis
  proof (cases "peek_cp lx = 0x30")
    case False
    have d: "0 \<le> decimal_digit_value (peek_cp lx)" using assms(2) by (rule number_start_digit)
    have "lx_row 1 lx (state_of (digits_loop decimal_digit_value 10 (skip_cp lx) v True f))" for v f
      by (rule lx_row_trans [OF s]) (rule digits_loop_row, simp)
    then have "lx_row 1 lx (state_of (digits_loop decimal_digit_value 10 lx 0 False True))"
      using assms d by (simp add: digits_loop.simps [of _ _ lx] Let_def split: option.split)
    then show ?thesis
      using False by (auto simp: parse_number_def parse_decimal_number_def lex_error_def split: prod.splits)
  next
    case True
    have t: "lx_row 1 lx (skip_cp (skip_cp lx))" if "peek_cp (skip_cp lx) \<noteq> 0x0A"
      using lx_row_trans [OF s lx_row_weaken [OF lx_row_skip [OF that]]] .
    show ?thesis
      using True lx_row_trans [OF s parse_radix_row(3)] lx_row_trans [OF t parse_radix_row(1)]
        lx_row_trans [OF t parse_radix_row(2)]
      by (simp add: parse_number_def Let_def)
  qed
qed

lemma lex_number_emits:
  assumes "\<not> at_end lx" "is_number_start (peek_cp lx)"
  shows "lx_emits lx (lex_number lx (lx_line lx) (lx_col lx))"
proof -
  obtain val ok fits lx' where p: "parse_number lx = (val, ok, fits, lx')" by (metis prod_cases4)
  then have "lx_row 1 lx lx'" using parse_number_row [OF assms] by simp
  then show ?thesis
    using lx_emits_push [OF _ tok_placed_immediate, of lx' lx]
    by (auto simp: lex_number_def p lx_row_def lex_number_too_large_def push_immediate_token_def)
qed

lemma not_at_end_peek: "peek_cp lx \<noteq> 0 \<Longrightarrow> \<not> at_end lx"
  by (auto simp: at_end_def peek_cp_def utf8_peek_codepoint_def utf8_next_codepoint_def)

lemma tok_placed_char:
  assumes "lx_row 1 lx lx'" "token_ok (make_token ty v (lx_line lx) (lx_col lx) (lx_col lx + 1))"
    "ty \<noteq> TOKEN_EOF" "ty \<noteq> TOKEN_NEWLINE"
  shows "tok_placed lx lx' (make_token ty v (lx_line lx) (lx_col lx) (lx_col lx + 1))"
  using assms by (simp add: tok_placed_def make_token_def lx_row_def)

lemma lex_minus_emits:
  assumes "\<not> at_end lx" "peek_cp lx = 0x2D"
  shows "lx_emits lx (lex_minus_or_negative_number lx (lx_line lx) (lx_col lx))"
proof -
  have s: "lx_row 1 lx (skip_cp lx)" using assms by (intro lx_row_skip) simp
  show ?thesis
  proof (cases "is_number_start (peek_cp (skip_cp lx))")
    case True
    then have "\<not> at_end (skip_cp lx)"
      by (intro not_at_end_peek) (auto simp: is_number_start_def nazm_is_arabic_digit_def)
    note lx_row_trans [OF s lx_row_weaken [OF parse_number_row [OF this True]]]
    moreover obtain val ok fits lx' where p: "parse_number (skip_cp lx) = (val, ok, fits, lx')"
      by (metis prod_cases4)
    ultimately have "lx_row 1 lx lx'" by simp
    then show ?thesis
      using True lx_emits_push [OF _ tok_placed_immediate, of lx' lx]
      by (auto simp: lex_minus_or_negative_number_def Let_def p lx_row_def lex_number_too_large_def
          push_immediate_token_def)
  next
    case False
    let ?lx = "(skip_cp lx)\<lparr>lx_pos := lx_pos lx\<rparr>"
    have "lx_row 1 lx ?lx" using s by (simp add: lx_row_def)
    moreover have "lx_row 0 ?lx (skip_cp ?lx)"
      using assms by (intro lx_row_weaken lx_row_skip) (simp add: peek_cp_def)
    ultimately have r: "lx_row 1 lx (skip_cp ?lx)" by (rule lx_row_trans)
    then have "lx_emits lx (push_token_value (skip_cp ?lx) TOKEN_MINUS [0x2D] (lx_line lx) (lx_col lx)
        (lx_col lx + 1))"
      by (intro lx_emits_push tok_placed_char) (simp_all add: lx_row_def token_ok_def make_token_def)
    then show ?thesis using False by (simp add: lex_minus_or_negative_number_def Let_def)
  qed
qed

lemma lex_single_char_emits:
  assumes "lex_single_char_token lx (peek_cp lx) (lx_line lx) (lx_col lx) = Some lx'"
  shows "lx_emits lx lx'"
proof -
  have "peek_cp lx \<noteq> 0x0A" using assms by (auto simp: lex_single_char_token_def)
  then have "lx_row 1 lx (skip_cp lx)" by (rule lx_row_skip)
  then have p: "token_ok (make_token ty v (lx_line lx) (lx_col lx) (lx_col lx + 1)) \<Longrightarrow> ty \<noteq> TOKEN_EOF
      \<Longrightarrow> ty \<noteq> TOKEN_NEWLINE
      \<Longrightarrow> lx_emits lx (push_token_value (skip_cp lx) ty v (lx_line lx) (lx_col lx) (lx_col lx + 1))" for ty v
    by (intro lx_emits_push tok_placed_char) simp_all
  show ?thesis
    using assms p by (auto simp: lex_single_char_token_def token_ok_def make_token_def split: if_splits)
qed

lemma lex_newline_emits:
  assumes "peek_cp lx = 0x0A"
  shows "lx_emits lx (lex_newline lx (lx_line lx) (lx_col lx))"
proof -
  have "lx_line (skip_cp lx) = lx_line lx + 1"
    using assms by (auto simp: peek_cp_def utf8_peek_codepoint_def skip_cp_def advance_cp_def split: prod.splits)
  moreover have "last_token_is_newline (skip_cp lx) = last_token_is_newline lx"
    by (simp add: last_token_is_newline_def)
  ultimately show ?thesis
    by (auto simp: lex_newline_def Let_def tok_placed_def make_token_def token_ok_def intro!: lx_emits_push)
qed

lemma ascii_step:
  assumes "\<not> at_end lx" "unat (peek_cp lx) < 0x80"
  shows "lx_pos (skip_cp lx) = lx_pos lx + 1"
proof -
  let ?d = "sb_data (lx_src lx)"
  obtain cp nxt where n: "utf8_next_codepoint ?d (lx_pos lx) = (cp, nxt)" by fastforce
  then have c: "unat cp < 0x80" using assms(2) by (simp add: peek_cp_def utf8_peek_codepoint_def)
  then have "cp \<noteq> 0xFFFD" by auto
  then have w: "utf8_is_well_formed_at ?d (lx_pos lx)" using n by (simp add: utf8_is_well_formed_at_def)
  have "lx_pos lx < nxt" "nxt \<le> length ?d"
    "length (take (nxt - lx_pos lx) (drop (lx_pos lx) ?d)) = length (utf8_encode (unat cp))"
    using decode_sound [OF _ n w] assms(1) by (simp_all add: at_end_def)
  then show ?thesis using n c by (simp add: utf8_encode_def)
qed

lemma lex_directive_emits:
  assumes "\<not> at_end lx" "peek_cp lx = 0x2E"
  shows "lx_emits lx (lex_directive lx (lx_line lx) (lx_col lx))"
proof -
  let ?f = "\<lambda>cp. is_ident_continue cp \<or> is_arabic_letter cp"
  let ?lx = "scan_while ?f (skip_cp lx)"
  have r: "lx_row 1 lx (skip_cp lx)" using assms by (intro lx_row_skip) simp
  have p: "lx_pos (skip_cp lx) = lx_pos lx + 1" using assms by (intro ascii_step) simp_all
  have "ident_text (source_slice ?lx (lx_pos (skip_cp lx)))"
    by (rule scan_while_text) (auto simp: is_ident_continue_def nazm_is_arabic_digit_def)
  moreover have "source_slice ?lx (lx_pos lx) = 0x2E # source_slice ?lx (lx_pos (skip_cp lx))"
    using source_slice_step [OF assms(1) _ scan_while_reads [of ?f "skip_cp lx"]] assms(2)
    by (simp add: utf8_encode_def byte_of_def)
  moreover have "lx_row 1 lx ?lx"
    using scan_while_row [of ?f "skip_cp lx"] r by (simp add: lx_row_def)
  ultimately show ?thesis
    using p by (auto simp: lex_directive_def scan_directive_def Let_def lx_row_def tok_placed_def
        make_token_def token_ok_def intro!: lx_emits_push)
qed

lemma tok_placed_word:
  assumes "lx_row 1 lx lx'" "ty = TOKEN_MNEMONIC \<or> ty = TOKEN_REGISTER \<or> ty = TOKEN_LABEL_REF"
    "token_ok (make_token ty v (lx_line lx) (lx_col lx) (lx_col lx'))"
  shows "tok_placed lx lx' (make_token ty v (lx_line lx) (lx_col lx) (lx_col lx'))"
  using assms by (auto simp: tok_placed_def make_token_def lx_row_def)

lemma lex_identifier_emits:
  assumes "\<not> at_end lx" "is_ident_start (peek_cp lx)"
  shows "lx_emits lx (lex_identifier lx (lx_line lx) (lx_col lx))"
proof -
  obtain ident lx' where s: "scan_ident lx = (ident, lx')" by fastforce
  note f = scan_ident_facts [OF assms s]
  have r: "lx_row 1 lx lx'" using f by (simp add: lx_row_def)
  have w: "lx_emits lx (push_token_value lx'' ty ident (lx_line lx) (lx_col lx) (lx_col lx''))"
    if "lx_row 1 lx lx''" "ty = TOKEN_MNEMONIC \<or> ty = TOKEN_REGISTER \<or> ty = TOKEN_LABEL_REF"
      "token_ok (make_token ty ident (lx_line lx) (lx_col lx) (lx_col lx''))" for lx'' ty
    using that by (intro lx_emits_push tok_placed_word) (auto simp: lx_row_def)
  have c: "lx_emits lx (push_token_value (skip_cp lx'') TOKEN_LABEL_DEF ident (lx_line lx) (lx_col lx)
      (lx_col (skip_cp lx'') - 1))" if "lx_row 1 lx lx''" "peek_cp lx'' = 0x3A" for lx''
    using that f skip_row [of lx'']
    by (intro lx_emits_push) (auto simp: lx_row_def tok_placed_def make_token_def token_ok_def)
  have p: "peek_cp (lex_error_at lx' l c e m) = peek_cp lx'" for l c e m by (simp add: peek_cp_def)
  show ?thesis
  proof (cases "\<not> at_end lx' \<and> peek_cp lx' = 0x3A")
    case True
    with c [of lx'] c [of "lex_error_at lx' (lx_line lx) (lx_col lx) (lx_col lx') LEX_RESERVED"] r p
    show ?thesis by (simp add: lex_identifier_def s Let_def lex_reserved_prefix_error_def)
  next
    case False
    have k: "keywords_lookup ident \<noteq> OPCODE_INVALID \<Longrightarrow>
        lx_emits lx (push_token_value lx' TOKEN_MNEMONIC ident (lx_line lx) (lx_col lx) (lx_col lx'))"
      using w [OF r] by (simp add: token_ok_def make_token_def)
    have g: "classify_register ident \<ge> 0 \<Longrightarrow>
        lx_emits lx (push_token_value lx' TOKEN_REGISTER ident (lx_line lx) (lx_col lx) (lx_col lx'))"
      using w [OF r] by (simp add: token_ok_def make_token_def)
    have l: "keywords_lookup ident = OPCODE_INVALID \<Longrightarrow> classify_register ident < 0 \<Longrightarrow> lx_row 1 lx lx'' \<Longrightarrow>
        lx_emits lx (push_token_value lx'' TOKEN_LABEL_REF ident (lx_line lx) (lx_col lx) (lx_col lx''))" for lx''
    proof (intro w)
      assume "keywords_lookup ident = OPCODE_INVALID" "classify_register ident < 0"
      moreover from this(2) have "classify_register ident = - 1"
        by (cases ident rule: register_cases) simp_all
      ultimately show "token_ok (make_token TOKEN_LABEL_REF ident (lx_line lx) (lx_col lx) (lx_col lx''))"
        using f by (simp add: token_ok_def make_token_def)
    qed simp_all
    have "(\<not> at_end lx' \<and> peek_cp lx' = 0x3A) = False" using False by blast
    with k g l [OF _ _ r]
      l [where lx'' = "lex_error_at lx' (lx_line lx) (lx_col lx) (lx_col lx') LEX_RESERVED"] r
    show ?thesis
      by (simp only: lex_identifier_def s Let_def lex_reserved_prefix_error_def case_prod_conv if_False)
        (simp add: not_le)
  qed
qed

lemma skip_ill_formed_out [simp]: "lx_out (skip_ill_formed lx) = lx_out lx"
  by (induction lx rule: skip_ill_formed.induct) (simp add: skip_ill_formed.simps)

lemma lex_ill_formed_out [simp]: "lx_out (lex_ill_formed_utf8 lx) = lx_out lx"
  by (simp add: lex_ill_formed_utf8_def Let_def)

lemma lex_comment_out [simp]: "lx_out (lex_comment lx) = lx_out lx"
  by (induction lx rule: lex_comment.induct) (simp add: lex_comment.simps)

text \<open>A string token is pushed only by a run that met no line end and reported nothing.\<close>

lemma lex_string_loop_emits:
  "lx_out (lex_string_loop lx line col buf ok) = lx_out lx
   \<or> ok \<and> (\<exists>v lx'. lx_row 1 lx lx'
        \<and> lex_string_loop lx line col buf ok = push_token_value lx' TOKEN_STRING v line col (lx_col lx'))"
proof (induction lx line col buf ok rule: lex_string_loop.induct)
  case (1 lx line col buf ok)
  let ?lx = "skip_cp lx"
  show ?case
  proof (cases "\<not> at_end lx \<and> \<not> at_ill_formed_utf8 lx \<and> peek_cp lx \<noteq> 0x0A")
    case False
    then show ?thesis using 1(1)
      by (auto simp: lex_string_loop.simps [of lx] Let_def)
  next
    case True
    then have r: "lx_row 1 lx ?lx" by (intro lx_row_skip) simp
    have e: "lx_row 1 lx (skip_cp ?lx)" if "string_escape (peek_cp ?lx) \<noteq> None"
    proof -
      have "peek_cp ?lx \<noteq> 0x0A" using that by (auto simp: string_escape_def)
      then show ?thesis using lx_row_trans [OF r lx_row_weaken [OF lx_row_skip]] by blast
    qed
    have t: "lx_row 1 lx a \<Longrightarrow> lx_row 1 a b \<Longrightarrow> lx_row 1 lx b" for a b
      by (rule lx_row_trans [OF _ lx_row_weaken])
    consider "peek_cp lx = 0x22" | "peek_cp lx = 0x0D" | "peek_cp lx = 0x5C"
      | "peek_cp lx \<noteq> 0x22" "peek_cp lx \<noteq> 0x0D" "peek_cp lx \<noteq> 0x5C" by blast
    then show ?thesis
    proof cases
      case 1
      then show ?thesis using True r by (auto simp: lex_string_loop.simps [of lx] Let_def)
    next
      case 2
      then show ?thesis using True by (simp add: lex_string_loop.simps [of lx] Let_def)
    next
      case 3
      show ?thesis
      proof (cases "string_escape (peek_cp ?lx)")
        case None
        then show ?thesis using True 3 1(2,3) by (auto simp: lex_string_loop.simps [of lx] Let_def)
      next
        case (Some b)
        then have e2: "lx_row 1 lx (skip_cp ?lx)" by (intro e) simp
        have "\<not> at_end ?lx" using Some
          by (intro not_at_end_peek) (auto simp: string_escape_def)
        then have u: "lex_string_loop lx line col buf ok
            = lex_string_loop (skip_cp ?lx) line col (buf @ [b]) ok"
          and ih: "lx_out (lex_string_loop (skip_cp ?lx) line col (buf @ [b]) ok) = lx_out (skip_cp ?lx)
            \<or> ok \<and> (\<exists>v lx'. lx_row 1 (skip_cp ?lx) lx' \<and> lex_string_loop (skip_cp ?lx) line col (buf @ [b]) ok
                = push_token_value lx' TOKEN_STRING v line col (lx_col lx'))"
          using True 3 Some 1(3) by (simp_all add: lex_string_loop.simps [of lx] Let_def)
        show ?thesis unfolding u using ih t [OF e2] by (metis skip_cp_fields(3))
      qed
    next
      case 4
      then show ?thesis using True r 1(4) t by (fastforce simp: lex_string_loop.simps [of lx] Let_def)
    qed
  qed
qed

lemma lex_string_emits:
  assumes "peek_cp lx = 0x22"
  shows "lx_emits lx (lex_string lx (lx_line lx) (lx_col lx))"
proof -
  have r: "lx_row 1 lx (skip_cp lx)" using assms by (intro lx_row_skip) simp
  have "lx_emits lx (push_token_value lx' TOKEN_STRING v (lx_line lx) (lx_col lx) (lx_col lx'))"
    if "lx_row 1 (skip_cp lx) lx'" for v lx'
  proof -
    have "lx_row 1 lx lx'" using lx_row_trans [OF r lx_row_weaken [OF that]] .
    then show ?thesis
      by (intro lx_emits_push) (auto simp: lx_row_def tok_placed_def make_token_def token_ok_def)
  qed
  then show ?thesis
    using lex_string_loop_emits [of "skip_cp lx" "lx_line lx" "lx_col lx" "[]" True]
    by (auto simp: lex_string_def)
qed

lemma lex_step_emits:
  assumes "\<not> at_end lx"
  shows "lx_emits lx (lex_step lx)"
proof (cases "lex_single_char_token lx (peek_cp lx) (lx_line lx) (lx_col lx)")
  case (Some lx')
  then have "lex_step lx = lx'" by (auto simp: lex_step_def lex_single_char_token_def split: if_splits)
  then show ?thesis using lex_single_char_emits [OF Some] by simp
next
  case None
  then show ?thesis
    using assms lex_newline_emits lex_minus_emits lex_directive_emits lex_string_emits
      lex_number_emits lex_identifier_emits
    by (simp add: lex_step_def Let_def lex_error_def)
qed

section \<open>The invariant of the main loop\<close>

definition tok_before :: "Token \<Rightarrow> Token \<Rightarrow> bool" where
  "tok_before t u \<longleftrightarrow> tok_line t < tok_line u \<or> tok_line t = tok_line u \<and> tok_end_col t \<le> tok_col u"

fun no_double_newline :: "Token list \<Rightarrow> bool" where
  "no_double_newline (t # u # ts) \<longleftrightarrow>
     \<not> (tok_type t = TOKEN_NEWLINE \<and> tok_type u = TOKEN_NEWLINE) \<and> no_double_newline (u # ts)"
| "no_double_newline _ \<longleftrightarrow> True"

definition wf_lexer :: "Lexer \<Rightarrow> bool" where
  "wf_lexer lx \<longleftrightarrow> lx_pos lx \<le> length (sb_data (lx_src lx)) \<and> 1 \<le> lx_line lx
     \<and> (\<forall>t \<in> set (lx_out lx). token_ok t \<and> tok_type t \<noteq> TOKEN_EOF \<and> tok_col t < tok_end_col t
          \<and> 1 \<le> tok_line t
          \<and> (tok_line t < lx_line lx \<or> tok_line t = lx_line lx \<and> tok_end_col t \<le> lx_col lx))
     \<and> sorted_wrt tok_before (lx_out lx) \<and> no_double_newline (lx_out lx)"

lemma no_double_newline_snoc:
  "no_double_newline (ts @ [t]) \<longleftrightarrow> no_double_newline ts
     \<and> (ts \<noteq> [] \<and> tok_type (last ts) = TOKEN_NEWLINE \<longrightarrow> tok_type t \<noteq> TOKEN_NEWLINE)"
proof (induction ts rule: no_double_newline.induct)
qed auto

lemma wf_lexer_step:
  assumes "wf_lexer lx" "\<not> at_end lx"
  shows "wf_lexer (lex_step lx)"
proof -
  have m: "lx_moves lx (lex_step lx)"
    using lex_step_consumes [OF assms(2)] by (simp add: lx_consumes_def lx_reads_def)
  consider "lx_out (lex_step lx) = lx_out lx"
    | t where "lx_out (lex_step lx) = lx_out lx @ [t]" "tok_placed lx (lex_step lx) t"
    using lex_step_emits [OF assms(2)] unfolding lx_emits_def by blast
  then show ?thesis
  proof cases
    case 1
    then show ?thesis using assms(1) m by (fastforce simp: wf_lexer_def lx_moves_def)
  next
    case 2
    have "1 \<le> tok_line t" using assms(1) 2(2) by (simp add: wf_lexer_def tok_placed_def)
    moreover have "no_double_newline (lx_out lx @ [t])"
      using assms(1) 2(2)
      by (auto simp: no_double_newline_snoc wf_lexer_def tok_placed_def last_token_is_newline_def)
    moreover have "tok_before u t" if "u \<in> set (lx_out lx)" for u
      using assms(1) 2(2) that by (auto simp: wf_lexer_def tok_placed_def tok_before_def)
    ultimately show ?thesis
      using assms(1) m 2 by (fastforce simp: wf_lexer_def lx_moves_def sorted_wrt_append tok_placed_def)
  qed
qed

lemma lex_all_facts:
  assumes "wf_lexer lx"
  shows "\<exists>lx'. lex_all lx = push_token_value lx' TOKEN_EOF [] (lx_line lx') (lx_col lx') (lx_col lx')
    \<and> wf_lexer lx' \<and> at_end lx' \<and> lx_reads lx lx'"
  using assms
proof (induction lx rule: lex_all.induct)
  case (1 lx)
  show ?case
  proof (cases "at_end lx")
    case True
    then show ?thesis using 1(2) by (intro exI [of _ lx]) (simp add: lex_all.simps [of lx])
  next
    case False
    have "lx_reads lx (lex_step lx)" using lex_step_consumes [OF False] by (simp add: lx_consumes_def)
    then show ?thesis
      using 1(1) [OF False wf_lexer_step [OF 1(2) False]] False lx_reads_trans [of lx "lex_step lx"]
      by (auto simp: lex_all.simps [of lx])
  qed
qed

lemma wf_lexer_start: "wf_lexer (lexer_start src)"
  by (simp add: wf_lexer_def lexer_start_def)

section \<open>Properties of the token stream\<close>

lemma lexer_lex_facts:
  obtains lx where "lex_all (lexer_start src)
      = push_token_value lx TOKEN_EOF [] (lx_line lx) (lx_col lx) (lx_col lx)"
    "wf_lexer lx" "lx_pos lx = length (sb_data src)" "lx_reads (lexer_start src) lx" "lx_src lx = src"
proof -
  obtain lx where lx: "lex_all (lexer_start src)
      = push_token_value lx TOKEN_EOF [] (lx_line lx) (lx_col lx) (lx_col lx)"
    "wf_lexer lx" "at_end lx" "lx_reads (lexer_start src) lx"
    using lex_all_facts [OF wf_lexer_start] by blast
  have "lx_src lx = src" using lx(4) by (simp add: lx_reads_def lx_moves_def lexer_start_def)
  then show ?thesis using that lx by (simp add: wf_lexer_def at_end_def)
qed

text \<open>
  C31. On any bytes the lexer returns, and its tokens end with the one end-of-file token. Every
  other token has the shape of its type (a mnemonic is in the keyword table, a register token names
  a register, an immediate is the decimal text of a 64-bit value, a name has no zero byte), covers
  a non-empty span of one line, and lies after the tokens before it; two line ends never follow
  each other.
\<close>

theorem token_stream_invariant:
  "\<exists>ts line col.
     ta_tokens (lr_tokens (lexer_lex src)) = ts @ [make_token TOKEN_EOF [] line col col]
     \<and> list_all (\<lambda>t. token_ok t \<and> tok_type t \<noteq> TOKEN_EOF \<and> tok_col t < tok_end_col t) ts
     \<and> sorted_wrt tok_before (ts @ [make_token TOKEN_EOF [] line col col])
     \<and> no_double_newline ts"
proof -
  obtain lx where lx: "lex_all (lexer_start src)
      = push_token_value lx TOKEN_EOF [] (lx_line lx) (lx_col lx) (lx_col lx)" "wf_lexer lx"
    by (rule lexer_lex_facts)
  have "tok_before t (make_token TOKEN_EOF [] (lx_line lx) (lx_col lx) (lx_col lx))"
    if "t \<in> set (lx_out lx)" for t
    using lx(2) that by (auto simp: wf_lexer_def tok_before_def make_token_def)
  then show ?thesis
    using lx by (intro exI [of _ "lx_out lx"] exI [of _ "lx_line lx"] exI [of _ "lx_col lx"])
      (auto simp: lexer_lex_def Let_def wf_lexer_def list_all_iff sorted_wrt_append)
qed

text \<open>
  C32. A source the lexer accepts without an error is well-formed UTF-8 from its first byte to its
  last: ill-formed bytes are reported wherever they stand, in comments and strings too.
\<close>

theorem lexer_accepts_utf8:
  assumes "errors (lr_errors (lexer_lex src)) = []"
  shows "utf8_text (sb_data src)"
proof -
  obtain lx where lx: "lex_all (lexer_start src)
      = push_token_value lx TOKEN_EOF [] (lx_line lx) (lx_col lx) (lx_col lx)"
    "lx_pos lx = length (sb_data src)" "lx_reads (lexer_start src) lx" "lx_src lx = src"
    by (rule lexer_lex_facts)
  have "errors (lx_errors lx) = []" using assms lx(1) by (simp add: lexer_lex_def Let_def)
  then have "utf8_text (source_slice lx (lx_pos (lexer_start src)))"
    using lx(3) by (simp add: lx_reads_def lexer_start_def)
  then show ?thesis by (simp add: source_slice_def lx lexer_start_def)
qed

theorem lexer_accepts_utf8_witness:
  "utf8_text [0x3B, 0xD9, 0x86]"
proof -
  have "errors (lr_errors (lexer_lex \<lparr>sb_data = [0x3B, 0xD9, 0x86], sb_name = None\<rparr>)) = []"
    by code_simp
  from lexer_accepts_utf8 [OF this] show ?thesis by simp
qed

end
