(* ===== verification/Lexer_Roundtrip.thy ===== *)
theory Lexer_Roundtrip
  imports Lexer_Facts
begin

text \<open>
  Reading back written tokens. A \<open>lexeme\<close> is one token as a programmer writes it: a word, a label
  definition, a directive, a number in one of the three radixes, a string with its escapes, a
  punctuation character, a line end or a comment. The lexer turns the text of a sequence of lexemes
  into the tokens they stand for.
\<close>

section \<open>Reading a known text\<close>

definition lx_rest :: "Lexer \<Rightarrow> u8 list" where
  "lx_rest lx = drop (lx_pos lx) (sb_data (lx_src lx))"

abbreviation enc :: "nat list \<Rightarrow> u8 list" where
  "enc cps \<equiv> concat (map utf8_encode cps)"

abbreviation skips :: "nat \<Rightarrow> Lexer \<Rightarrow> Lexer" where
  "skips n lx \<equiv> (skip_cp ^^ n) lx"

lemma encode_ascii: "n < 0x80 \<Longrightarrow> utf8_encode n = [word_of_nat n]"
  by (simp add: utf8_encode_def byte_of_def)

lemma rest_step:
  assumes "lx_rest lx = utf8_encode n @ r" "scalar_value n"
  shows "\<not> at_end lx" "peek_cp lx = word_of_nat n" "lx_rest (skip_cp lx) = r" "\<not> at_ill_formed_utf8 lx"
    "lx_pos (skip_cp lx) = lx_pos lx + length (utf8_encode n)"
proof -
  let ?d = "sb_data (lx_src lx)"
  let ?pre = "take (lx_pos lx) ?d"
  have ne: "utf8_encode n \<noteq> []" by (simp add: utf8_encode_def)
  then have p: "lx_pos lx < length ?d" using assms(1)
    by (metis append_is_Nil_conv drop_all lx_rest_def not_le)
  then have d2: "length ?pre = lx_pos lx" by simp
  have "?pre @ lx_rest lx = ?d" by (simp add: lx_rest_def)
  then have d: "?pre @ utf8_encode n @ r = ?d" by (simp only: assms(1))
  have n: "utf8_next_codepoint ?d (lx_pos lx) = (word_of_nat n, lx_pos lx + length (utf8_encode n))"
    using decode_encode [OF assms(2), of ?pre r] by (simp only: d d2)
  show "\<not> at_end lx" using p by (simp add: at_end_def)
  show "peek_cp lx = word_of_nat n" by (simp add: peek_cp_def utf8_peek_codepoint_def n)
  show "lx_pos (skip_cp lx) = lx_pos lx + length (utf8_encode n)" by (simp add: n)
  have "lx_rest (skip_cp lx) = drop (length (utf8_encode n)) (lx_rest lx)"
    by (simp add: lx_rest_def n add.commute)
  then show "lx_rest (skip_cp lx) = r" using assms(1) by simp
  show "\<not> at_ill_formed_utf8 lx"
  proof (cases "n = 0xFFFD")
    case True
    then show ?thesis by (simp add: at_ill_formed_utf8_def utf8_is_well_formed_at_def n utf8_encode_def)
  next
    case False
    have "n < 2 ^ 32" using assms(2) by (simp add: scalar_value_def)
    then have "unat (word_of_nat n :: u32) = n" by (simp add: unsigned_of_nat take_bit_nat_eq_self)
    then have "word_of_nat n \<noteq> (0xFFFD :: u32)" using False by auto
    then show ?thesis by (simp add: at_ill_formed_utf8_def utf8_is_well_formed_at_def n)
  qed
qed

lemma rest_ascii:
  assumes "lx_rest lx = b # r" "b < 0x80"
  shows "\<not> at_end lx" "peek_cp lx = ucast b" "lx_rest (skip_cp lx) = r" "\<not> at_ill_formed_utf8 lx"
    "lx_pos (skip_cp lx) = lx_pos lx + 1"
proof -
  have b: "unat b < 0x80" using assms(2) by (simp add: word_less_nat_alt)
  have e: "utf8_encode (unat b) = [b]" using b by (simp add: encode_ascii)
  have "scalar_value (unat b)" using b by (simp add: scalar_value_def)
  note s = rest_step [OF _ this, of lx r, unfolded e, simplified, OF assms(1)]
  show "\<not> at_end lx" "lx_rest (skip_cp lx) = r" "\<not> at_ill_formed_utf8 lx"
    using s by (simp_all add: lx_rest_def)
  show "peek_cp lx = ucast b" using s(2) by (simp add: word_unat_eq_iff unsigned_of_nat)
  show "lx_pos (skip_cp lx) = lx_pos lx + 1" using s(5) by simp
qed

text \<open>The state after skipping a text that has no line end.\<close>

definition lx_past :: "nat list \<Rightarrow> u8 list \<Rightarrow> Lexer \<Rightarrow> bool" where
  "lx_past cps r lx \<longleftrightarrow> lx_rest lx = enc cps @ r \<and> list_all scalar_value cps \<and> 0x0A \<notin> set cps"

lemma word_of_scalar: "scalar_value n \<Longrightarrow> scalar_value m \<Longrightarrow> (word_of_nat n :: u32) = word_of_nat m \<longleftrightarrow> n = m"
proof -
  have "unat (word_of_nat k :: u32) = k" if "scalar_value k" for k
  proof -
    have "k < 2 ^ 32" using that by (simp add: scalar_value_def)
    then show ?thesis by (simp add: unsigned_of_nat take_bit_nat_eq_self)
  qed
  then show "scalar_value n \<Longrightarrow> scalar_value m \<Longrightarrow> ?thesis" by metis
qed

lemma skips_Suc: "skips (Suc n) lx = skips n (skip_cp lx)"
  by (simp only: funpow_Suc_right comp_apply)

lemma past_Cons:
  assumes "lx_past (c # cps) r lx"
  shows "\<not> at_end lx" "peek_cp lx = word_of_nat c" "lx_past cps r (skip_cp lx)"
    "lx_line (skip_cp lx) = lx_line lx" "lx_col (skip_cp lx) = lx_col lx + 1" "\<not> at_ill_formed_utf8 lx"
    "lx_pos (skip_cp lx) = lx_pos lx + length (utf8_encode c)"
proof -
  have c: "scalar_value c" "lx_rest lx = utf8_encode c @ enc cps @ r" "c \<noteq> 0x0A"
    using assms by (simp_all add: lx_past_def)
  note s = rest_step [OF c(2,1)]
  have "peek_cp lx \<noteq> 0x0A"
    using word_of_scalar [OF c(1), of "0x0A"] c(3) s(2) by (simp add: scalar_value_def)
  then show "lx_line (skip_cp lx) = lx_line lx" "lx_col (skip_cp lx) = lx_col lx + 1"
    using skip_row [of lx] by simp_all
  show "lx_past cps r (skip_cp lx)" using assms s(3) by (simp add: lx_past_def)
  show "\<not> at_end lx" "peek_cp lx = word_of_nat c" "\<not> at_ill_formed_utf8 lx"
    "lx_pos (skip_cp lx) = lx_pos lx + length (utf8_encode c)" using s by simp_all
qed

lemma skips_fields [simp]:
  "lx_src (skips n lx) = lx_src lx" "lx_errors (skips n lx) = lx_errors lx" "lx_out (skips n lx) = lx_out lx"
  by (induction n) (simp_all)

lemma past_all:
  "lx_past cps r lx \<Longrightarrow> lx_rest (skips (length cps) lx) = r
     \<and> lx_line (skips (length cps) lx) = lx_line lx
     \<and> lx_col (skips (length cps) lx) = lx_col lx + int (length cps)
     \<and> lx_pos (skips (length cps) lx) = lx_pos lx + length (enc cps)"
proof (induction cps arbitrary: lx)
  case Nil
  then show ?case by (simp add: lx_past_def)
next
  case (Cons c cps)
  note p = past_Cons [OF Cons.prems]
  show ?case using Cons.IH [OF p(3)] p by (simp only: length_Cons skips_Suc) simp
qed

lemma past_slice:
  assumes "lx_past cps r lx"
  shows "source_slice (skips (length cps) lx) (lx_pos lx) = enc cps"
  using past_all [OF assms] assms by (simp add: source_slice_def lx_past_def lx_rest_def [symmetric])

text \<open>A text stops a scan when its first byte is an ASCII character outside the class.\<close>

definition stops_scan :: "(u32 \<Rightarrow> bool) \<Rightarrow> u8 list \<Rightarrow> bool" where
  "stops_scan f r \<longleftrightarrow> (\<exists>b r'. r = b # r' \<and> b < 0x80 \<and> \<not> f (ucast b))"

lemma scan_while_past:
  "lx_past cps r lx \<Longrightarrow> list_all (\<lambda>c. f (word_of_nat c)) cps \<Longrightarrow> stops_scan f r \<Longrightarrow>
     scan_while f lx = skips (length cps) lx"
proof (induction cps arbitrary: lx)
  case Nil
  then obtain b r' where "lx_rest lx = b # r'" "b < 0x80" "\<not> f (ucast b)"
    by (auto simp: lx_past_def stops_scan_def)
  then show ?case using rest_ascii [of lx b r'] by (simp add: scan_while.simps [of f lx])
next
  case (Cons c cps)
  note p = past_Cons [OF Cons.prems(1)]
  have "scan_while f lx = scan_while f (skip_cp lx)"
    using p Cons.prems(2) by (simp add: scan_while.simps [of f lx])
  also have "\<dots> = skips (length cps) (skip_cp lx)" using Cons p(3) by simp
  finally show ?case by (simp only: length_Cons skips_Suc)
qed

section \<open>Numbers\<close>

definition digits_value :: "(u32 \<Rightarrow> int) \<Rightarrow> nat \<Rightarrow> nat \<Rightarrow> nat list \<Rightarrow> nat" where
  "digits_value dv base n ds = foldl (\<lambda>n d. n * base + nat (dv (word_of_nat d))) n ds"

lemma digits_value_ge: "0 < base \<Longrightarrow> n \<le> digits_value dv base n ds"
proof (induction ds arbitrary: n)
  case (Cons d ds)
  have "n * 1 \<le> n * base" using Cons.prems by (intro mult_le_mono2) simp
  also have "\<dots> \<le> digits_value dv base (n * base + nat (dv (word_of_nat d))) ds"
    using Cons.IH [OF Cons.prems, of "n * base + nat (dv (word_of_nat d))"] by simp
  finally show ?case by (simp add: digits_value_def)
qed (simp add: digits_value_def)

lemma append_digit_spec:
  assumes "0 \<le> d" "d < int b" "2 \<le> b" "b \<le> 16"
  shows "append_digit val (word_of_nat b) d
    = (if unat val * b + nat d < 2 ^ 64 then Some (word_of_nat (unat val * b + nat d)) else None)"
proof -
  obtain k where k: "d = int k" "k < b" using assms(1,2) by (metis nonneg_int_cases of_nat_less_iff)
  have kb: "k < 2 ^ 64" "b < 2 ^ 64" using k assms by simp_all
  have ku: "unat (word_of_int d :: u64) = k" "unat (word_of_nat b :: u64) = b"
    using kb by (simp_all add: k(1) unsigned_of_nat take_bit_nat_eq_self)
  have "unat (0xFFFFFFFFFFFFFFFF - word_of_int d :: u64) = 2 ^ 64 - 1 - k"
  proof -
    have "(word_of_int d :: u64) \<le> 0xFFFFFFFFFFFFFFFF"
      using kb(1) ku(1) by (simp add: word_le_nat_alt)
    then show ?thesis using ku(1) by (simp add: unat_sub)
  qed
  then have "val > (0xFFFFFFFFFFFFFFFF - word_of_int d) div word_of_nat b
      \<longleftrightarrow> (2 ^ 64 - 1 - k) div b < unat val"
    by (simp add: word_less_nat_alt unat_div_distrib ku)
  also have "\<dots> \<longleftrightarrow> \<not> unat val * b + k < 2 ^ 64"
    using assms(3) kb by (subst div_less_iff_less_mult) auto
  finally have "val > (0xFFFFFFFFFFFFFFFF - word_of_int d) div word_of_nat b \<longleftrightarrow> \<not> unat val * b + k < 2 ^ 64" .
  then show ?thesis using k(1) by (simp add: append_digit_def)
qed

text \<open>The values a digit function takes are below its radix.\<close>

definition digit_class :: "(u32 \<Rightarrow> int) \<Rightarrow> nat \<Rightarrow> bool" where
  "digit_class dv b \<longleftrightarrow> 2 \<le> b \<and> b \<le> 16 \<and> (\<forall>cp. dv cp < int b)"

lemma uint_diff_less:
  assumes "(lo :: u32) \<le> cp" "cp \<le> hi"
  shows "uint (cp - lo) \<le> uint hi - uint lo"
proof -
  have "uint (cp - lo) = uint cp - uint lo" using assms(1) by (simp add: uint_sub_if' word_le_def)
  then show ?thesis using assms(2) by (simp add: word_le_def)
qed

lemma digit_classes:
  "digit_class hex_digit_value 16" "digit_class binary_digit_value 2" "digit_class decimal_digit_value 10"
proof -
  have "hex_digit_value cp < 16" for cp
    using uint_diff_less [of "0x30" cp "0x39"] uint_diff_less [of "0x61" cp "0x66"]
      uint_diff_less [of "0x41" cp "0x46"] by (auto simp: hex_digit_value_def)
  moreover have "binary_digit_value cp < 2" for cp by (simp add: binary_digit_value_def)
  moreover have "decimal_digit_value cp < 10" for cp
    using uint_diff_less [of "0x30" cp "0x39"] uint_diff_less [of "0x660" cp "0x669"]
    by (auto simp: decimal_digit_value_def arabic_digit_value_def nazm_is_arabic_digit_def)
  ultimately show "digit_class hex_digit_value 16" "digit_class binary_digit_value 2"
    "digit_class decimal_digit_value 10" by (simp_all add: digit_class_def)
qed

lemma unat64: "n < 2 ^ 64 \<Longrightarrow> unat (word_of_nat n :: u64) = n"
  by (simp add: unsigned_of_nat take_bit_nat_eq_self)

text \<open>The loop reads all digits, keeps the value as long as it fits, and remembers when it did not.\<close>

lemma digits_loop_past:
  assumes "digit_class dv b" "lx_past ds r lx" "list_all (\<lambda>d. 0 \<le> dv (word_of_nat d)) ds"
    "stops_scan (\<lambda>cp. 0 \<le> dv cp) r"
  shows "\<exists>v. digits_loop dv (word_of_nat b) lx val got fits
      = (v, got \<or> ds \<noteq> [], fits \<and> digits_value dv b (unat val) ds < 2 ^ 64, skips (length ds) lx)
    \<and> (digits_value dv b (unat val) ds < 2 ^ 64 \<longrightarrow> unat v = digits_value dv b (unat val) ds)"
  using assms(2,3)
proof (induction ds arbitrary: lx val got fits)
  case Nil
  then obtain c r' where "lx_rest lx = c # r'" "c < 0x80" "\<not> 0 \<le> dv (ucast c)"
    using assms(4) by (auto simp: lx_past_def stops_scan_def)
  then have "digits_loop dv (word_of_nat b) lx val got fits = (val, got, fits, lx)"
    using rest_ascii [of lx c r'] by (simp add: digits_loop.simps [of _ _ lx])
  moreover have "unat val < 2 ^ 64" using unsigned_less [of val] by simp
  ultimately show ?case by (simp add: digits_value_def)
next
  case (Cons d ds)
  note p = past_Cons [OF Cons.prems(1)]
  let ?d = "dv (word_of_nat d)"
  let ?v = "unat val * b + nat ?d"
  have d: "0 \<le> ?d" "?d < int b" "2 \<le> b" "b \<le> 16"
    using assms(1) Cons.prems(2) by (simp_all add: digit_class_def)
  have all: "list_all (\<lambda>d. 0 \<le> dv (word_of_nat d)) ds" using Cons.prems(2) by simp
  have n: "digits_value dv b (unat val) (d # ds) = digits_value dv b ?v ds" by (simp add: digits_value_def)
  note ih = Cons.IH [OF p(3) all]
  show ?case
  proof (cases "?v < 2 ^ 64")
    case True
    have l: "digits_loop dv (word_of_nat b) lx val got fits
        = digits_loop dv (word_of_nat b) (skip_cp lx) (word_of_nat ?v) True fits"
      using p d(1) append_digit_spec [OF d, of val] True by (simp add: digits_loop.simps [of _ _ lx] Let_def)
    show ?thesis
      using ih [of "word_of_nat ?v" True fits] unfolding l n unat64 [OF True]
      by (simp only: length_Cons skips_Suc) simp
  next
    case False
    have l: "digits_loop dv (word_of_nat b) lx val got fits
        = digits_loop dv (word_of_nat b) (skip_cp lx) val True False"
      using p d(1) append_digit_spec [OF d, of val] False by (simp add: digits_loop.simps [of _ _ lx] Let_def)
    have "?v \<le> digits_value dv b ?v ds" using d(3) by (intro digits_value_ge) simp
    with False have "\<not> digits_value dv b ?v ds < 2 ^ 64" by simp
    then show ?thesis
      using ih [of val True False] unfolding l n by (simp only: length_Cons skips_Suc) auto
  qed
qed

lemma as_signed_bits_id: "as_signed_bits v = v"
proof -
  have "(0xFFFFFFFFFFFFFFFF :: u64) = - 1" by simp
  then have "- (0xFFFFFFFFFFFFFFFF - v) - 1 = v" by (simp add: algebra_simps)
  then show ?thesis by (simp add: as_signed_bits_def)
qed

lemma stops_blank:
  "stops_scan is_ident_continue (0x20 # r)" "stops_scan (\<lambda>cp. 0 \<le> hex_digit_value cp) (0x20 # r)"
  "stops_scan (\<lambda>cp. 0 \<le> binary_digit_value cp) (0x20 # r)"
  "stops_scan (\<lambda>cp. 0 \<le> decimal_digit_value cp) (0x20 # r)"
  "stops_scan (\<lambda>cp. is_ident_continue cp \<or> is_arabic_letter cp) (0x20 # r)"
  by (simp_all add: stops_scan_def is_ident_continue_def is_arabic_letter_def nazm_is_arabic_digit_def
      hex_digit_value_def binary_digit_value_def decimal_digit_value_def)

text \<open>The digits a number literal may have, by its radix, and the code points before them.\<close>

datatype radix = Decimal | Hexadecimal | Binary

fun radix_prefix :: "radix \<Rightarrow> nat list" where
  "radix_prefix Decimal = []" | "radix_prefix Hexadecimal = [0x30, 0x78]" | "radix_prefix Binary = [0x30, 0x62]"

fun radix_base :: "radix \<Rightarrow> nat" where
  "radix_base Decimal = 10" | "radix_base Hexadecimal = 16" | "radix_base Binary = 2"

fun radix_digit :: "radix \<Rightarrow> u32 \<Rightarrow> int" where
  "radix_digit Decimal = decimal_digit_value" | "radix_digit Hexadecimal = hex_digit_value"
| "radix_digit Binary = binary_digit_value"

definition literal_value :: "radix \<Rightarrow> nat list \<Rightarrow> nat" where
  "literal_value rx ds = digits_value (radix_digit rx) (radix_base rx) 0 ds"

definition literal_ok :: "radix \<Rightarrow> nat list \<Rightarrow> bool" where
  "literal_ok rx ds \<longleftrightarrow> ds \<noteq> [] \<and> list_all scalar_value ds
     \<and> list_all (\<lambda>d. 0 \<le> radix_digit rx (word_of_nat d)) ds"

lemma unat0 [simp]: "unat (0 :: u64) = 0"
  by simp

lemma parse_decimal_past:
  assumes "lx_past ds (0x20 # r) lx" "list_all (\<lambda>d. 0 \<le> decimal_digit_value (word_of_nat d)) ds"
    "g \<or> ds \<noteq> []"
  shows "\<exists>v. parse_decimal_number lx g = (v, True, literal_value Decimal ds < 2 ^ 64, skips (length ds) lx)
    \<and> (literal_value Decimal ds < 2 ^ 64 \<longrightarrow> unat v = literal_value Decimal ds)"
  using digits_loop_past [OF digit_classes(3) assms(1,2) stops_blank(4), of 0 g True] assms(3)
  by (auto simp: parse_decimal_number_def literal_value_def)

lemma parse_number_past:
  assumes "lx_past (radix_prefix rx @ ds) (0x20 # r) lx" "literal_ok rx ds"
  shows "\<exists>v. parse_number lx = (v, True, literal_value rx ds < 2 ^ 64,
        skips (length (radix_prefix rx @ ds)) lx)
    \<and> (literal_value rx ds < 2 ^ 64 \<longrightarrow> unat v = literal_value rx ds)"
proof (cases rx)
  case Decimal
  then obtain d ds' where ds: "ds = d # ds'" using assms(2) by (cases ds) (auto simp: literal_ok_def)
  have past: "lx_past (d # ds') (0x20 # r) lx" using assms(1) Decimal ds by simp
  note p = past_Cons [OF past]
  have all: "list_all (\<lambda>d. 0 \<le> decimal_digit_value (word_of_nat d)) (d # ds')"
    using assms(2) Decimal ds by (simp add: literal_ok_def)
  show ?thesis
  proof (cases "peek_cp lx = 0x30")
    case False
    then show ?thesis
      using parse_decimal_past [OF past all] Decimal ds by (simp add: parse_number_def)
  next
    case True
    then have zero: "decimal_digit_value (word_of_nat d) = 0" using p(2) by (simp add: decimal_digit_value_def)
    have v: "literal_value Decimal (d # ds') = literal_value Decimal ds'"
      by (simp add: literal_value_def digits_value_def zero)
    have "peek_cp (skip_cp lx) \<notin> {0x78, 0x58, 0x62, 0x42}"
    proof (cases ds')
      case Nil
      then have "peek_cp (skip_cp lx) = 0x20"
        using p(3) rest_ascii(2) [of "skip_cp lx" "0x20" r] by (simp add: lx_past_def)
      then show ?thesis by simp
    next
      case (Cons e es)
      then have "0 \<le> decimal_digit_value (peek_cp (skip_cp lx))"
        using past_Cons(2) [of e es "0x20 # r" "skip_cp lx"] p(3) all by simp
      then show ?thesis by (auto simp: decimal_digit_value_def nazm_is_arabic_digit_def)
    qed
    then show ?thesis
      using parse_decimal_past [OF p(3), of True] all True Decimal ds v
      by (simp add: parse_number_def Let_def skips_Suc del: funpow.simps)
  qed
next
  case Hexadecimal
  note p = past_Cons [OF assms(1) [unfolded Hexadecimal radix_prefix.simps append_Cons append_Nil]]
  note q = past_Cons [OF p(3)]
  show ?thesis
    using digits_loop_past [OF digit_classes(1) q(3) _ stops_blank(2), of 0 False True] assms(2) p(2) q(2)
    by (auto simp: parse_number_def parse_hex_number_def Hexadecimal literal_ok_def literal_value_def
        Let_def skips_Suc simp del: funpow.simps)
next
  case Binary
  note p = past_Cons [OF assms(1) [unfolded Binary radix_prefix.simps append_Cons append_Nil]]
  note q = past_Cons [OF p(3)]
  show ?thesis
    using digits_loop_past [OF digit_classes(2) q(3) _ stops_blank(3), of 0 False True] assms(2) p(2) q(2)
    by (auto simp: parse_number_def parse_binary_number_def Binary literal_ok_def literal_value_def
        Let_def skips_Suc simp del: funpow.simps)
qed

section \<open>Lexemes\<close>

datatype lexeme =
    Lex_word "nat list" | Lex_label "nat list" | Lex_directive "nat list"
  | Lex_number bool radix "nat list" | Lex_string "nat list" | Lex_char nat | Lex_newline
  | Lex_comment "nat list"

definition escape_cp :: "nat \<Rightarrow> nat list" where
  "escape_cp c =
     (if c = 0x0A then [0x5C, 0x6E] else if c = 0x09 then [0x5C, 0x74] else if c = 0x0D then [0x5C, 0x72]
      else if c = 0 then [0x5C, 0x30] else if c = 0x22 then [0x5C, 0x22]
      else if c = 0x5C then [0x5C, 0x5C] else [c])"

fun lexeme_text :: "lexeme \<Rightarrow> nat list" where
  "lexeme_text (Lex_word cps) = cps"
| "lexeme_text (Lex_label cps) = cps @ [0x3A]"
| "lexeme_text (Lex_directive cps) = 0x2E # cps"
| "lexeme_text (Lex_number neg rx ds) = (if neg then [0x2D] else []) @ radix_prefix rx @ ds"
| "lexeme_text (Lex_string cps) = 0x22 # concat (map escape_cp cps) @ [0x22]"
| "lexeme_text (Lex_char c) = [c]"
| "lexeme_text Lex_newline = [0x0A]"
| "lexeme_text (Lex_comment cps) = 0x3B # cps @ [0x0A]"

definition char_type :: "nat \<Rightarrow> TokenType" where
  "char_type c = (if c = 0x5B then TOKEN_LBRACKET else if c = 0x5D then TOKEN_RBRACKET
     else if c = 0x2B then TOKEN_PLUS else if c = 0x2D then TOKEN_MINUS
     else if c = 0x3A then TOKEN_COLON else TOKEN_COMMA)"

definition signed64 :: "nat \<Rightarrow> int" where
  "signed64 n = (if n < 2 ^ 63 then int n else int n - 2 ^ 64)"

fun lexeme_token :: "lexeme \<Rightarrow> TokenType \<times> cstr" where
  "lexeme_token (Lex_word cps) =
     (if keywords_lookup (enc cps) \<noteq> OPCODE_INVALID then TOKEN_MNEMONIC
      else if lexer_register_id (enc cps) \<noteq> - 1 then TOKEN_REGISTER else TOKEN_LABEL_REF, enc cps)"
| "lexeme_token (Lex_label cps) = (TOKEN_LABEL_DEF, enc cps)"
| "lexeme_token (Lex_directive cps) = (TOKEN_DIRECTIVE, 0x2E # enc cps)"
| "lexeme_token (Lex_number neg rx ds) = (TOKEN_IMMEDIATE,
     print_int (if neg then - int (literal_value rx ds) else signed64 (literal_value rx ds)))"
| "lexeme_token (Lex_string cps) = (TOKEN_STRING, enc cps)"
| "lexeme_token (Lex_char c) = (char_type c, utf8_encode c)"
| "lexeme_token Lex_newline = (TOKEN_NEWLINE, [0x0A])"
| "lexeme_token (Lex_comment cps) = (TOKEN_NEWLINE, [0x0A])"

definition ident_cps :: "nat list \<Rightarrow> bool" where
  "ident_cps cps \<longleftrightarrow> list_all (\<lambda>c. scalar_value c \<and> is_ident_continue (word_of_nat c)) cps"

fun lexeme_ok :: "lexeme \<Rightarrow> bool" where
  "lexeme_ok (Lex_word cps) \<longleftrightarrow> cps \<noteq> [] \<and> ident_cps cps \<and> is_ident_start (word_of_nat (hd cps))
     \<and> (has_reserved_register_prefix (enc cps) \<longrightarrow> lexer_register_id (enc cps) \<noteq> - 1
          \<or> enc cps = INSTRUCTION_POINTER_NAME \<or> lexer_register_legacy_replacement (enc cps) \<noteq> None)"
| "lexeme_ok (Lex_label cps) \<longleftrightarrow> cps \<noteq> [] \<and> ident_cps cps \<and> is_ident_start (word_of_nat (hd cps))
     \<and> \<not> has_reserved_register_prefix (enc cps)"
| "lexeme_ok (Lex_directive cps) \<longleftrightarrow> ident_cps cps"
| "lexeme_ok (Lex_number neg rx ds) \<longleftrightarrow> literal_ok rx ds
     \<and> literal_value rx ds < (if neg then 2 ^ 63 + 1 else 2 ^ 64)"
| "lexeme_ok (Lex_string cps) \<longleftrightarrow> list_all scalar_value cps"
| "lexeme_ok (Lex_char c) \<longleftrightarrow> c \<in> {0x5B, 0x5D, 0x2B, 0x2D, 0x2C, 0x3A, 0x060C}"
| "lexeme_ok Lex_newline \<longleftrightarrow> True"
| "lexeme_ok (Lex_comment cps) \<longleftrightarrow> list_all scalar_value cps \<and> 0x0A \<notin> set cps"

text \<open>The tokens of a sequence: a line end right after another is dropped.\<close>

definition add_token :: "(TokenType \<times> cstr) list \<Rightarrow> TokenType \<times> cstr \<Rightarrow> (TokenType \<times> cstr) list" where
  "add_token ts t =
     (if fst t = TOKEN_NEWLINE \<and> ts \<noteq> [] \<and> fst (last ts) = TOKEN_NEWLINE then ts else ts @ [t])"

definition lexeme_tokens :: "lexeme list \<Rightarrow> (TokenType \<times> cstr) list" where
  "lexeme_tokens ls = foldl add_token [] (map lexeme_token ls)"

definition write_lexemes :: "lexeme list \<Rightarrow> u8 list" where
  "write_lexemes ls = concat (map (\<lambda>l. enc (lexeme_text l) @ [0x20]) ls)"

section \<open>One lexeme at a time\<close>

definition tok_view :: "Token \<Rightarrow> TokenType \<times> cstr" where
  "tok_view t = (tok_type t, tok_value t)"

text \<open>A step that reads the text before \<open>r\<close>, reports nothing and emits this token.\<close>

definition lexes_as :: "Lexer \<Rightarrow> Lexer \<Rightarrow> u8 list \<Rightarrow> (TokenType \<times> cstr) \<Rightarrow> bool" where
  "lexes_as lx lx' r t \<longleftrightarrow> lx_rest lx' = r \<and> lx_errors lx' = lx_errors lx
     \<and> map tok_view (lx_out lx') = map tok_view (lx_out lx) @ [t]"

lemma lexes_push:
  assumes "lx_rest lx' = r" "lx_errors lx' = lx_errors lx" "lx_out lx' = lx_out lx"
  shows "lexes_as lx (push_token_value lx' ty v l c e) r (ty, v)"
  using assms by (simp add: lexes_as_def lx_rest_def tok_view_def make_token_def)

lemma sint_nat: "n < 2 ^ 64 \<Longrightarrow> sint (word_of_nat n :: i64) = signed64 n"
proof -
  assume n: "n < 2 ^ 64"
  have "(word_of_nat n :: i64) = word_of_int (signed64 n)"
  proof (cases "n < 2 ^ 63")
    case False
    have "(word_of_int (int n - 2 ^ 64) :: i64) = word_of_int (int n)"
      by (simp add: word_of_int_eq_iff take_bit_eq_mod)
    then show ?thesis using False by (simp add: signed64_def)
  qed (simp add: signed64_def)
  moreover have "- (2 ^ 63) \<le> signed64 n" "signed64 n < 2 ^ 63" using n by (auto simp: signed64_def)
  ultimately show ?thesis by (simp add: signed_of_int signed_take_bit_int_eq_self)
qed

lemma sint_neg: "n \<le> 2 ^ 63 \<Longrightarrow> sint (- word_of_nat n :: i64) = - int n"
proof -
  assume "n \<le> 2 ^ 63"
  then have "- (2 ^ 63) \<le> - int n" "- int n < 2 ^ 63" by simp_all
  moreover have "(- word_of_nat n :: i64) = word_of_int (- int n)" by simp
  ultimately show ?thesis by (simp add: signed_of_int signed_take_bit_int_eq_self del: of_int_minus)
qed

lemma number_first:
  assumes "literal_ok rx ds"
  shows "\<exists>c cs. radix_prefix rx @ ds = c # cs \<and> is_number_start (word_of_nat c)"
proof (cases rx)
  case Decimal
  then obtain d ds' where "ds = d # ds'" "0 \<le> decimal_digit_value (word_of_nat d)"
    using assms by (cases ds) (auto simp: literal_ok_def)
  then show ?thesis using Decimal
    by (auto simp: decimal_digit_value_def is_number_start_def split: if_splits)
qed (simp_all add: is_number_start_def)

lemma lex_number_lexes:
  assumes "lx_past (radix_prefix rx @ ds) (0x20 # r) lx" "literal_ok rx ds" "literal_value rx ds < 2 ^ 64"
  shows "lexes_as lx (lex_number lx line col) (0x20 # r) (lexeme_token (Lex_number False rx ds))"
proof -
  obtain v where v: "parse_number lx
      = (v, True, True, skips (length (radix_prefix rx @ ds)) lx)" "unat v = literal_value rx ds"
    using parse_number_past [OF assms(1,2)] assms(3) by auto
  have "v = word_of_nat (literal_value rx ds)" by (simp add: v(2) [symmetric])
  then have "sint v = signed64 (literal_value rx ds)" using sint_nat [OF assms(3)] by simp
  moreover note immediate_text [of v, unfolded this]
  ultimately show ?thesis
    using past_all [OF assms(1)]
    by (simp add: lex_number_def v(1) push_immediate_token_def immediate_text as_signed_bits_id lexes_push)
qed

lemma lex_negative_lexes:
  assumes "lx_past (0x2D # radix_prefix rx @ ds) (0x20 # r) lx" "literal_ok rx ds"
    "literal_value rx ds \<le> 2 ^ 63"
  shows "lexes_as lx (lex_minus_or_negative_number lx line col) (0x20 # r)
    (lexeme_token (Lex_number True rx ds))"
proof -
  note p = past_Cons [OF assms(1)]
  obtain c cs where c: "radix_prefix rx @ ds = c # cs" "is_number_start (word_of_nat c)"
    using number_first [OF assms(2)] by blast
  have s: "is_number_start (peek_cp (skip_cp lx))"
    using past_Cons(2) [of c cs] p(3) c by simp
  obtain v where v: "parse_number (skip_cp lx)
      = (v, True, True, skips (length (radix_prefix rx @ ds)) (skip_cp lx))" "unat v = literal_value rx ds"
    using parse_number_past [OF p(3) assms(2)] assms(3) by auto
  have w: "v = word_of_nat (literal_value rx ds)" by (simp add: v(2) [symmetric])
  have "\<not> v > 0x7FFFFFFFFFFFFFFF + 1" using v(2) assms(3) by (simp add: word_less_nat_alt)
  moreover have "sint (0 - v) = - int (literal_value rx ds)" using sint_neg [OF assms(3)] w by simp
  moreover note immediate_text [of "0 - v", unfolded this]
  ultimately show ?thesis
    using past_all [OF p(3)] s
    by (simp add: lex_minus_or_negative_number_def Let_def v(1) push_immediate_token_def immediate_text
        as_signed_bits_id lexes_push)
qed

lemma ident_past:
  assumes "ident_cps cps" "lx_rest lx = enc cps @ r"
  shows "lx_past cps r lx"
proof -
  have "\<not> is_ident_continue (word_of_nat 0x0A)" by simp
  then show ?thesis using assms unfolding lx_past_def ident_cps_def list_all_iff by blast
qed

lemma scan_ident_past:
  assumes "ident_cps cps" "lx_rest lx = enc cps @ r" "stops_scan is_ident_continue r"
  shows "scan_ident lx = (enc cps, skips (length cps) lx)"
proof -
  note p = ident_past [OF assms(1,2)]
  have "scan_while is_ident_continue lx = skips (length cps) lx"
    using assms(1,3) by (intro scan_while_past [OF p]) (auto simp: ident_cps_def list_all_iff)
  then show ?thesis using past_slice [OF p] by (simp add: scan_ident_def Let_def)
qed

lemma lex_word_lexes:
  assumes "lexeme_ok (Lex_word cps)" "lx_rest lx = enc cps @ 0x20 # r"
  shows "lexes_as lx (lex_identifier lx line col) (0x20 # r) (lexeme_token (Lex_word cps))"
proof -
  let ?lx = "skips (length cps) lx"
  have i: "ident_cps cps" using assms(1) by simp
  note s = scan_ident_past [OF i assms(2) stops_blank(1)]
  note p = past_all [OF ident_past [OF i assms(2)]]
  have "peek_cp ?lx = 0x20" using rest_ascii(2) [of ?lx "0x20" r] p by simp
  then have b: "(\<not> at_end ?lx \<and> peek_cp ?lx = 0x3A) = False" by simp
  have push: "lexes_as lx (push_token_value ?lx ty (enc cps) l c e) (0x20 # r) (ty, enc cps)" for ty l c e
    using p by (simp add: lexes_push)
  show ?thesis
  proof (cases "keywords_lookup (enc cps) = OPCODE_INVALID")
    case False
    then show ?thesis using push by (simp add: lex_identifier_def s Let_def b)
  next
    case True
    show ?thesis
    proof (cases "enc cps" rule: register_cases)
      case 1
      then have "\<not> (has_reserved_register_prefix (enc cps) \<and> enc cps \<noteq> INSTRUCTION_POINTER_NAME
          \<and> lexer_register_legacy_replacement (enc cps) = None)"
        using assms(1) by (auto simp: lexer_register_id_def)
      then show ?thesis using push True 1
        by (simp only: lex_identifier_def s Let_def b if_False case_prod_conv)
          (simp add: lexer_register_id_def)
    next
      case (2 reg)
      then show ?thesis using push True by (simp add: lex_identifier_def s Let_def b lexer_register_id_def)
    qed
  qed
qed

lemma lex_label_lexes:
  assumes "lexeme_ok (Lex_label cps)" "lx_rest lx = enc cps @ 0x3A # r"
  shows "lexes_as lx (lex_identifier lx line col) r (lexeme_token (Lex_label cps))"
proof -
  let ?lx = "skips (length cps) lx"
  have i: "ident_cps cps" using assms(1) by simp
  have "stops_scan is_ident_continue (0x3A # r)"
    by (simp add: stops_scan_def is_ident_continue_def is_arabic_letter_def nazm_is_arabic_digit_def)
  note s = scan_ident_past [OF i assms(2) this]
  note p = past_all [OF ident_past [OF i assms(2)]]
  note c = rest_ascii [of ?lx "0x3A" r]
  show ?thesis
    using assms(1) c p by (simp add: lex_identifier_def s Let_def lexes_push)
qed

lemma lex_directive_lexes:
  assumes "ident_cps cps" "lx_rest lx = 0x2E # enc cps @ 0x20 # r"
  shows "lexes_as lx (lex_directive lx line col) (0x20 # r) (lexeme_token (Lex_directive cps))"
proof -
  let ?f = "\<lambda>cp. is_ident_continue cp \<or> is_arabic_letter cp"
  have e: "lx_past (0x2E # cps) (0x20 # r) lx"
    using ident_past [OF assms(1), of "(skip_cp lx)"] assms rest_ascii(3) [OF assms(2)]
    by (simp add: lx_past_def encode_ascii scalar_value_def)
  note p = past_Cons [OF e]
  have "scan_while ?f (skip_cp lx) = skips (length cps) (skip_cp lx)"
    using assms(1) by (intro scan_while_past [OF p(3) _ stops_blank(5)]) (auto simp: ident_cps_def list_all_iff)
  then have s: "scan_directive (skip_cp lx) = (0x2E # enc cps, skips (length (0x2E # cps)) lx)"
    using past_slice [OF e] p(7) by (simp add: scan_directive_def Let_def skips_Suc encode_ascii del: funpow.simps)
  show ?thesis
    using past_all [OF e] by (simp add: lex_directive_def s lexes_push del: funpow.simps)
qed

text \<open>Strings: one code point of the content at a time.\<close>

lemma escape_past:
  assumes "list_all scalar_value cps" "lx_rest lx = enc (concat (map escape_cp cps)) @ r"
  shows "lx_past (concat (map escape_cp cps)) r lx"
proof -
  have "list_all scalar_value (concat (map escape_cp cps)) \<and> 0x0A \<notin> set (concat (map escape_cp cps))"
    using assms(1) by (induction cps) (auto simp: escape_cp_def scalar_value_def)
  then show ?thesis using assms(2) by (simp add: lx_past_def)
qed

lemma string_step:
  assumes "scalar_value c" "lx_past (escape_cp c @ cs) r lx"
  shows "lex_string_loop lx line col buf ok
    = lex_string_loop (skips (length (escape_cp c)) lx) line col (buf @ utf8_encode c) ok"
proof (cases "escape_cp c = [c]")
  case True
  have c: "c \<noteq> 0x0A" "c \<noteq> 0x0D" "c \<noteq> 0x22" "c \<noteq> 0x5C" using True by (auto simp: escape_cp_def)
  note p = past_Cons [OF assms(2) [unfolded True append_Cons]]
  have "peek_cp lx \<notin> {0x22, 0x0A, 0x0D, 0x5C}"
    using c p(2) word_of_scalar [OF assms(1), of "0x22"] word_of_scalar [OF assms(1), of "0x0A"]
      word_of_scalar [OF assms(1), of "0x0D"] word_of_scalar [OF assms(1), of "0x5C"]
    by (simp add: scalar_value_def)
  moreover have "source_slice (skip_cp lx) (lx_pos lx) = utf8_encode c"
    using past_slice [of "[c]" "enc cs @ r" lx] assms(2) True by (simp add: lx_past_def)
  ultimately show ?thesis
    using p True by (simp add: lex_string_loop.simps [of lx] Let_def)
next
  case False
  then obtain e where e: "escape_cp c = [0x5C, e]" "string_escape (word_of_nat e) = Some (word_of_nat c)"
    "c < 0x80"
    by (auto simp: escape_cp_def string_escape_def split: if_splits)
  note p = past_Cons [OF assms(2) [unfolded e(1) append_Cons]]
  note q = past_Cons [OF p(3) [unfolded append_Cons append_Nil]]
  show ?thesis
    using p q e by (simp add: lex_string_loop.simps [of lx] Let_def encode_ascii)
qed

lemma lex_string_loop_past:
  assumes "list_all scalar_value cps" "lx_past (concat (map escape_cp cps)) (0x22 # r) lx"
  shows "\<exists>lx'. lex_string_loop lx line col buf True
      = push_token_value lx' TOKEN_STRING (buf @ enc cps) line col (lx_col lx')
    \<and> lx_rest lx' = r \<and> lx_errors lx' = lx_errors lx \<and> lx_out lx' = lx_out lx"
  using assms
proof (induction cps arbitrary: lx buf)
  case Nil
  then show ?case
    using rest_ascii [of lx "0x22" r] by (intro exI [of _ "skip_cp lx"])
      (simp add: lx_past_def lex_string_loop.simps [of lx] Let_def)
next
  case (Cons c cps)
  let ?lx = "skips (length (escape_cp c)) lx"
  have "lx_rest lx = enc (escape_cp c) @ enc (concat (map escape_cp cps)) @ 0x22 # r"
    using Cons.prems(2) by (simp add: lx_past_def)
  then have "lx_past (escape_cp c) (enc (concat (map escape_cp cps)) @ 0x22 # r) lx"
    using Cons.prems(2) by (simp add: lx_past_def)
  from past_all [OF this] have "lx_past (concat (map escape_cp cps)) (0x22 # r) ?lx"
    using Cons.prems(2) by (simp add: lx_past_def)
  from Cons.IH [OF _ this, of "buf @ utf8_encode c"] Cons.prems(1)
  show ?case using string_step [of c "concat (map escape_cp cps)" "0x22 # r" lx] Cons.prems by simp
qed

lemma lex_string_lexes:
  assumes "list_all scalar_value cps" "lx_rest lx = 0x22 # enc (concat (map escape_cp cps)) @ 0x22 # r"
  shows "lexes_as lx (lex_string lx line col) r (lexeme_token (Lex_string cps))"
proof -
  note a = rest_ascii [OF assms(2)]
  have "lx_past (concat (map escape_cp cps)) (0x22 # r) (skip_cp lx)"
    using a by (intro escape_past [OF assms(1)]) simp
  from lex_string_loop_past [OF assms(1) this, of line col "[]"]
  show ?thesis by (auto simp: lex_string_def intro: lexes_push)
qed

section \<open>A sequence of lexemes\<close>

lemma step_identifier:
  assumes "is_ident_start (peek_cp lx)"
  shows "lex_step lx = lex_identifier lx (lx_line lx) (lx_col lx)"
proof -
  have "\<not> is_number_start (peek_cp lx)" "peek_cp lx \<notin> {0x20, 0x09, 0x0D, 0x0A, 0x3B, 0x5B, 0x5D, 0x2B, 0x2C, 0x3A, 0x060C, 0x2D, 0x2E, 0x22}"
    using assms by (auto simp: is_ident_start_def is_arabic_letter_def is_number_start_def
        nazm_is_arabic_digit_def word_le_nat_alt word_unat_eq_iff split: if_splits)
  then show ?thesis using assms by (simp add: lex_step_def Let_def lex_single_char_token_def)
qed

lemma step_number:
  assumes "is_number_start (peek_cp lx)"
  shows "lex_step lx = lex_number lx (lx_line lx) (lx_col lx)"
proof -
  have "peek_cp lx \<notin> {0x20, 0x09, 0x0D, 0x0A, 0x3B, 0x5B, 0x5D, 0x2B, 0x2C, 0x3A, 0x060C, 0x2D, 0x2E, 0x22}"
    using assms by (auto simp: is_number_start_def nazm_is_arabic_digit_def word_le_nat_alt)
  then show ?thesis using assms by (simp add: lex_step_def Let_def lex_single_char_token_def)
qed

lemma step_char:
  "peek_cp lx = 0x2D \<Longrightarrow> lex_step lx = lex_minus_or_negative_number lx (lx_line lx) (lx_col lx)"
  "peek_cp lx = 0x2E \<Longrightarrow> lex_step lx = lex_directive lx (lx_line lx) (lx_col lx)"
  "peek_cp lx = 0x22 \<Longrightarrow> lex_step lx = lex_string lx (lx_line lx) (lx_col lx)"
  "peek_cp lx = 0x0A \<Longrightarrow> lex_step lx = lex_newline lx (lx_line lx) (lx_col lx)"
  "peek_cp lx = 0x3B \<Longrightarrow> lex_step lx = lex_comment lx"
  "peek_cp lx = 0x20 \<Longrightarrow> lex_step lx = skip_cp lx"
  by (simp_all add: lex_step_def Let_def lex_single_char_token_def)

lemma lex_comment_past:
  "lx_past cps (0x0A # r) lx \<Longrightarrow> lex_comment lx = skips (length cps) lx"
proof (induction cps arbitrary: lx)
  case Nil
  then show ?case using rest_ascii [of lx "0x0A" r] by (simp add: lx_past_def lex_comment.simps [of lx])
next
  case (Cons c cps)
  note p = past_Cons [OF Cons.prems]
  have "scalar_value c" "c \<noteq> 0x0A" using Cons.prems by (simp_all add: lx_past_def)
  then have "peek_cp lx \<noteq> 0x0A"
    using p(2) word_of_scalar [of c "0x0A"] by (simp add: scalar_value_def)
  then show ?case
    using Cons.IH [OF p(3)] p by (simp only: length_Cons skips_Suc) (simp add: lex_comment.simps [of lx])
qed

definition reaches :: "Lexer \<Rightarrow> u8 list \<Rightarrow> (TokenType \<times> cstr) list \<Rightarrow> bool" where
  "reaches lx r ts \<longleftrightarrow> (\<exists>lx'. lex_all lx = lex_all lx' \<and> lx_rest lx' = r \<and> lx_errors lx' = lx_errors lx
     \<and> map tok_view (lx_out lx') = ts)"

lemma rest_not_end: "lx_rest lx \<noteq> [] \<Longrightarrow> \<not> at_end lx"
  by (auto simp: lx_rest_def at_end_def)

lemma lex_all_step: "lx_rest lx \<noteq> [] \<Longrightarrow> lex_all lx = lex_all (lex_step lx)"
  using rest_not_end [of lx] by (simp add: lex_all.simps [of lx])

lemma reaches_step:
  assumes "lx_rest lx \<noteq> []" "lexes_as lx (lex_step lx) r t" "fst t \<noteq> TOKEN_NEWLINE"
  shows "reaches lx r (add_token (map tok_view (lx_out lx)) t)"
  using assms lex_all_step [OF assms(1)]
  by (auto simp: reaches_def lexes_as_def add_token_def)

lemma reaches_newline:
  assumes "lx_rest lx = 0x0A # r"
  shows "reaches lx r (add_token (map tok_view (lx_out lx)) (TOKEN_NEWLINE, [0x0A]))"
proof -
  note a = rest_ascii [OF assms, simplified]
  have l: "lex_step lx = lex_newline lx (lx_line lx) (lx_col lx)" using a by (intro step_char) simp
  have "last_token_is_newline (skip_cp lx) \<longleftrightarrow> map tok_view (lx_out lx) \<noteq> []
      \<and> fst (last (map tok_view (lx_out lx))) = TOKEN_NEWLINE"
    by (cases "lx_out lx = []") (simp_all add: last_token_is_newline_def last_map tok_view_def)
  then show ?thesis
    using assms a lex_all_step [of lx]
    by (auto simp: reaches_def l lex_newline_def Let_def add_token_def tok_view_def make_token_def lx_rest_def
        intro!: exI [of _ "lex_step lx"])
qed

lemma reaches_skips:
  assumes "lex_all lx = lex_all lx'" "lx_errors lx' = lx_errors lx" "lx_out lx' = lx_out lx"
    "reaches lx' r ts"
  shows "reaches lx r ts"
  using assms by (auto simp: reaches_def)

lemma literal_past:
  assumes "literal_ok rx ds"
  shows "list_all scalar_value (radix_prefix rx @ ds) \<and> 0x0A \<notin> set (radix_prefix rx @ ds)"
proof -
  have "radix_digit rx (word_of_nat 0x0A) < 0" by (cases rx) simp_all
  then have "0x0A \<notin> set ds" using assms by (auto simp: literal_ok_def list_all_iff)
  then show ?thesis using assms by (cases rx) (simp_all add: literal_ok_def scalar_value_def)
qed

lemma lex_char_lexes:
  assumes "lx_past [c] (0x20 # r) lx" "c \<in> {0x5B, 0x5D, 0x2B, 0x2D, 0x2C, 0x3A, 0x060C}"
  shows "lexes_as lx (lex_step lx) (0x20 # r) (lexeme_token (Lex_char c))"
proof -
  note p = past_Cons [OF assms(1)]
  have r: "lx_rest (skip_cp lx) = 0x20 # r" using p(3) by (simp add: lx_past_def)
  show ?thesis
  proof (cases "c = 0x2D")
    case True
    let ?lx = "(skip_cp lx)\<lparr>lx_pos := lx_pos lx\<rparr>"
    have n: "\<not> is_number_start (peek_cp (skip_cp lx))"
      using rest_ascii(2) [OF r] by (simp add: is_number_start_def nazm_is_arabic_digit_def)
    have "lx_rest ?lx = 0x2D # 0x20 # r"
      using assms(1) True by (simp add: lx_past_def lx_rest_def encode_ascii)
    then have "lx_rest (skip_cp ?lx) = 0x20 # r" by (rule rest_ascii) simp
    then show ?thesis
      using p(2) True n by (simp add: step_char(1) lex_minus_or_negative_number_def Let_def
          lexes_push char_type_def encode_ascii)
  next
    case False
    have push: "lexes_as lx (push_token_value (skip_cp lx) ty v l c e) (0x20 # r) (ty, v)" for ty v l c e
      using r by (simp add: lexes_push)
    have "utf8_encode 0x060C = [0xD8, 0x8C]" by (simp add: utf8_encode_def byte_of_def)
    then show ?thesis
      using p(2) False assms(2) push
      by (auto simp: lex_step_def Let_def lex_single_char_token_def char_type_def encode_ascii)
  qed
qed

lemma lexeme_reaches:
  assumes "lexeme_ok l" "lx_rest lx = enc (lexeme_text l) @ 0x20 # r"
  shows "reaches lx (0x20 # r) (add_token (map tok_view (lx_out lx)) (lexeme_token l))"
proof -
  have ne: "lx_rest lx \<noteq> []" using assms(2) by simp
  show ?thesis
  proof (cases l)
    case (Lex_word cps)
    then obtain c cs where c: "cps = c # cs" using assms(1) by (cases cps) auto
    have p: "lx_past (c # cs) (0x20 # r) lx"
      using assms Lex_word c by (intro ident_past) simp_all
    have "lex_step lx = lex_identifier lx (lx_line lx) (lx_col lx)"
      using assms(1) Lex_word c past_Cons(2) [OF p] by (intro step_identifier) simp
    then have "lexes_as lx (lex_step lx) (0x20 # r) (lexeme_token l)"
      using lex_word_lexes [of cps lx r] assms Lex_word by simp
    then show ?thesis by (rule reaches_step [OF ne]) (simp add: Lex_word)
  next
    case (Lex_label cps)
    then obtain c cs where c: "cps = c # cs" using assms(1) by (cases cps) auto
    have r: "lx_rest lx = enc cps @ 0x3A # 0x20 # r" using assms(2) Lex_label by (simp add: encode_ascii)
    have p: "lx_past (c # cs) (0x3A # 0x20 # r) lx"
      using assms(1) Lex_label c r by (intro ident_past) simp_all
    have "lex_step lx = lex_identifier lx (lx_line lx) (lx_col lx)"
      using assms(1) Lex_label c past_Cons(2) [OF p] by (intro step_identifier) simp
    then have "lexes_as lx (lex_step lx) (0x20 # r) (lexeme_token l)"
      using lex_label_lexes [of cps lx "0x20 # r"] assms(1) r Lex_label by simp
    then show ?thesis by (rule reaches_step [OF ne]) (simp add: Lex_label)
  next
    case (Lex_directive cps)
    have r: "lx_rest lx = 0x2E # enc cps @ 0x20 # r" using assms(2) Lex_directive by (simp add: encode_ascii)
    have "lex_step lx = lex_directive lx (lx_line lx) (lx_col lx)"
      using rest_ascii(2) [OF r] by (intro step_char) simp
    then have "lexes_as lx (lex_step lx) (0x20 # r) (lexeme_token l)"
      using lex_directive_lexes [of cps lx r] assms(1) r Lex_directive by simp
    then show ?thesis by (rule reaches_step [OF ne]) (simp add: Lex_directive)
  next
    case (Lex_number neg rx ds)
    have ok: "literal_ok rx ds" using assms(1) Lex_number by simp
    have past: "lx_past (radix_prefix rx @ ds) (0x20 # r) lx'"
      if "lx_rest lx' = enc (radix_prefix rx @ ds) @ 0x20 # r" for lx'
      using that literal_past [OF ok] by (simp add: lx_past_def)
    obtain c cs where c: "radix_prefix rx @ ds = c # cs" "is_number_start (word_of_nat c)"
      using number_first [OF ok] by blast
    have "lexes_as lx (lex_step lx) (0x20 # r) (lexeme_token l)"
    proof (cases neg)
      case True
      have r: "lx_rest lx = 0x2D # enc (radix_prefix rx @ ds) @ 0x20 # r"
        using assms(2) Lex_number True by (simp add: encode_ascii)
      have "lx_past (0x2D # radix_prefix rx @ ds) (0x20 # r) lx"
        using r literal_past [OF ok] by (simp add: lx_past_def encode_ascii scalar_value_def)
      moreover have "lex_step lx = lex_minus_or_negative_number lx (lx_line lx) (lx_col lx)"
        using rest_ascii(2) [OF r] by (intro step_char) simp
      ultimately show ?thesis using lex_negative_lexes [of rx ds r lx] assms(1) ok Lex_number True by simp
    next
      case False
      have p: "lx_past (radix_prefix rx @ ds) (0x20 # r) lx"
        using assms(2) Lex_number False by (intro past) simp
      have "lex_step lx = lex_number lx (lx_line lx) (lx_col lx)"
        using past_Cons(2) [of c cs] p c by (intro step_number) simp
      then show ?thesis using lex_number_lexes [OF p] assms(1) ok Lex_number False by simp
    qed
    then show ?thesis by (rule reaches_step [OF ne]) (simp add: Lex_number)
  next
    case (Lex_string cps)
    have r: "lx_rest lx = 0x22 # enc (concat (map escape_cp cps)) @ 0x22 # 0x20 # r"
      using assms(2) Lex_string by (simp add: encode_ascii)
    have "lex_step lx = lex_string lx (lx_line lx) (lx_col lx)"
      using rest_ascii(2) [OF r] by (intro step_char) simp
    then have "lexes_as lx (lex_step lx) (0x20 # r) (lexeme_token l)"
      using lex_string_lexes [OF _ r] assms(1) Lex_string by simp
    then show ?thesis by (rule reaches_step [OF ne]) (simp add: Lex_string)
  next
    case (Lex_char c)
    have c: "c \<in> {0x5B, 0x5D, 0x2B, 0x2D, 0x2C, 0x3A, 0x060C}" "scalar_value c" "c \<noteq> 0x0A"
      using assms(1) Lex_char by (auto simp: scalar_value_def)
    have p: "lx_past [c] (0x20 # r) lx" using assms(2) c Lex_char by (simp add: lx_past_def)
    have "lexes_as lx (lex_step lx) (0x20 # r) (lexeme_token l)"
      using lex_char_lexes [OF p c(1)] Lex_char by simp
    then show ?thesis
      by (rule reaches_step [OF ne]) (simp add: Lex_char char_type_def)
  next
    case Lex_newline
    then show ?thesis using reaches_newline [of lx "0x20 # r"] assms(2) by (simp add: encode_ascii)
  next
    case (Lex_comment cps)
    have "lx_past (0x3B # cps) (0x0A # 0x20 # r) lx"
      using assms Lex_comment by (simp add: lx_past_def encode_ascii scalar_value_def)
    note p = past_Cons [OF this] and q = past_all [OF this]
    let ?lx = "skips (length (0x3B # cps)) lx"
    have "lex_step lx = lex_comment lx" using p(2) by (intro step_char) simp
    also have "\<dots> = ?lx" by (rule lex_comment_past) fact
    finally have "lex_all lx = lex_all ?lx" using lex_all_step [OF ne] by simp
    then show ?thesis
      using reaches_newline [of ?lx "0x20 # r"] q Lex_comment
      by (auto intro!: reaches_skips [of lx ?lx] simp del: funpow.simps)
  qed
qed

lemma write_lexemes_reaches:
  "list_all lexeme_ok ls \<Longrightarrow> lx_rest lx = write_lexemes ls \<Longrightarrow>
     reaches lx [] (foldl add_token (map tok_view (lx_out lx)) (map lexeme_token ls))"
proof (induction ls arbitrary: lx)
  case Nil
  then show ?case by (auto simp: reaches_def write_lexemes_def)
next
  case (Cons l ls)
  have r: "lx_rest lx = enc (lexeme_text l) @ 0x20 # write_lexemes ls"
    using Cons.prems(2) by (simp add: write_lexemes_def)
  then obtain lx' where a: "lex_all lx = lex_all lx'" "lx_rest lx' = 0x20 # write_lexemes ls"
    "lx_errors lx' = lx_errors lx"
    "map tok_view (lx_out lx') = add_token (map tok_view (lx_out lx)) (lexeme_token l)"
    using lexeme_reaches [OF _ r] Cons.prems(1) by (auto simp: reaches_def)
  note b = rest_ascii [OF a(2), simplified]
  have "lex_all lx' = lex_all (skip_cp lx')"
    using lex_all_step [of lx'] a(2) b step_char(6) [of lx'] by simp
  then show ?case
    using Cons.IH [of "skip_cp lx'"] Cons.prems(1) a b
    by (auto simp: reaches_def)
qed

text \<open>
  C30. What is written is read back. The bytes of any sequence of lexemes, each followed by a blank,
  lex without an error into exactly the tokens the lexemes stand for: words by the keyword and
  register tables, numbers in each radix (with ASCII or Arabic-Indic digits) to the decimal text of
  their 64-bit value, strings to their content with the escapes undone, and one line-end token for
  a run of line ends and comments.
\<close>

theorem lexer_reads_back:
  assumes "list_all lexeme_ok ls"
  shows "errors (lr_errors (lexer_lex \<lparr>sb_data = write_lexemes ls, sb_name = nm\<rparr>)) = []
    \<and> map tok_view (ta_tokens (lr_tokens (lexer_lex \<lparr>sb_data = write_lexemes ls, sb_name = nm\<rparr>)))
        = lexeme_tokens ls @ [(TOKEN_EOF, [])]"
proof -
  let ?src = "\<lparr>sb_data = write_lexemes ls, sb_name = nm\<rparr>"
  have "lx_rest (lexer_start ?src) = write_lexemes ls" by (simp add: lx_rest_def lexer_start_def)
  from write_lexemes_reaches [OF assms this] obtain lx where
    lx: "lex_all (lexer_start ?src) = lex_all lx" "lx_rest lx = []"
    "lx_errors lx = lx_errors (lexer_start ?src)" "map tok_view (lx_out lx) = lexeme_tokens ls"
    by (auto simp: reaches_def lexeme_tokens_def lexer_start_def)
  have "at_end lx" using lx(2) by (simp add: lx_rest_def at_end_def)
  then have "lex_all lx = push_token_value lx TOKEN_EOF [] (lx_line lx) (lx_col lx) (lx_col lx)"
    by (simp add: lex_all.simps [of lx])
  then show ?thesis
    using lx by (simp add: lexer_lex_def Let_def lexer_start_def error_list_init_def
        error_list_set_source_def tok_view_def make_token_def)
qed

theorem lexer_reads_back_witness:
  "map tok_view (ta_tokens (lr_tokens (lexer_lex
      \<lparr>sb_data = write_lexemes [Lex_number True Hexadecimal [0x46, 0x66], Lex_newline, Lex_string [0x0A, 0x22]],
       sb_name = None\<rparr>)))
   = [(TOKEN_IMMEDIATE, print_int (- 255)), (TOKEN_NEWLINE, [0x0A]), (TOKEN_STRING, [0x0A, 0x22]), (TOKEN_EOF, [])]"
proof -
  let ?ls = "[Lex_number True Hexadecimal [0x46, 0x66], Lex_newline, Lex_string [0x0A, 0x22]]"
  have v: "literal_value Hexadecimal [0x46, 0x66] = 255"
    by (simp add: literal_value_def digits_value_def hex_digit_value_def)
  have "list_all lexeme_ok ?ls"
    by (simp add: v literal_ok_def scalar_value_def hex_digit_value_def)
  from lexer_reads_back [OF this, of None] show ?thesis
    by (simp add: v lexeme_tokens_def add_token_def encode_ascii)
qed

end
