(* ===== verification/Parser.thy ===== *)
theory Parser
  imports Lexer ModRM Instruction
begin

text \<open>
  The parser: \<^verbatim>\<open>src/src/parser/parser.c\<close>. The \<^verbatim>\<open>Parser\<close> struct is a record that every operation
  returns updated. A token index outside the array reads an end-of-file token here; the program has
  no such read, because the index stops at the last token, which is shown in \<open>Parser_Facts\<close>. A text
  copied by \<^verbatim>\<open>arena_strndup\<close> and then used as a C string ends at its first zero byte.
\<close>

section \<open>Messages\<close>

definition c_str :: "u8 list \<Rightarrow> cstr" where
  "c_str bs = takeWhile (\<lambda>b. b \<noteq> 0) bs"

definition PARSE_RIP_PLUS :: cstr where
  "PARSE_RIP_PLUS = [0xD8, 0xAA, 0xD9, 0x88, 0xD9, 0x82, 0xD8, 0xB9, 0xD8, 0xAA, 0x20, 0x27, 0x2B, 0x27,
     0x20, 0xD8, 0xA8, 0xD8, 0xB9, 0xD8, 0xAF, 0x20, 0x27, 0xD9, 0x85, 0xD8, 0xA4, 0xD8,
     0xB4, 0xD8, 0xB1, 0x5F, 0xD8, 0xA7, 0xD9, 0x84, 0xD8, 0xAA, 0xD8, 0xB9, 0xD9, 0x84,
     0xD9, 0x8A, 0xD9, 0x85, 0xD8, 0xA9, 0x27, 0x20, 0xD8, 0xAF, 0xD8, 0xA7, 0xD8, 0xAE,
     0xD9, 0x84, 0x20, 0xD8, 0xB9, 0xD9, 0x86, 0xD9, 0x88, 0xD8, 0xA7, 0xD9, 0x86, 0x20,
     0xD8, 0xA7, 0xD9, 0x84, 0xD8, 0xB0, 0xD8, 0xA7, 0xD9, 0x83, 0xD8, 0xB1, 0xD8, 0xA9,
     0x20, 0xD8, 0xA7, 0xD9, 0x84, 0xD9, 0x86, 0xD8, 0xB3, 0xD8, 0xA8, 0xD9, 0x8A]"

definition PARSE_RIP_SYMBOL :: cstr where
  "PARSE_RIP_SYMBOL = [0xD8, 0xAA, 0xD9, 0x88, 0xD9, 0x82, 0xD8, 0xB9, 0xD8, 0xAA, 0x20, 0xD8, 0xA7, 0xD8,
     0xB3, 0xD9, 0x85, 0x20, 0xD8, 0xB1, 0xD9, 0x85, 0xD8, 0xB2, 0x20, 0xD8, 0xB9, 0xD8,
     0xB1, 0xD8, 0xA8, 0xD9, 0x8A, 0x20, 0xD8, 0xA8, 0xD8, 0xB9, 0xD8, 0xAF, 0x20, 0x27,
     0xD9, 0x85, 0xD8, 0xA4, 0xD8, 0xB4, 0xD8, 0xB1, 0x5F, 0xD8, 0xA7, 0xD9, 0x84, 0xD8,
     0xAA, 0xD8, 0xB9, 0xD9, 0x84, 0xD9, 0x8A, 0xD9, 0x85, 0xD8, 0xA9, 0x2B, 0x27, 0x20,
     0xD8, 0xAF, 0xD8, 0xA7, 0xD8, 0xAE, 0xD9, 0x84, 0x20, 0xD8, 0xB9, 0xD9, 0x86, 0xD9,
     0x88, 0xD8, 0xA7, 0xD9, 0x86, 0x20, 0xD8, 0xA7, 0xD9, 0x84, 0xD8, 0xB0, 0xD8, 0xA7,
     0xD9, 0x83, 0xD8, 0xB1, 0xD8, 0xA9, 0x20, 0xD8, 0xA7, 0xD9, 0x84, 0xD9, 0x86, 0xD8,
     0xB3, 0xD8, 0xA8, 0xD9, 0x8A]"

definition PARSE_RIP_CLOSE :: cstr where
  "PARSE_RIP_CLOSE = [0xD8, 0xAA, 0xD9, 0x88, 0xD9, 0x82, 0xD8, 0xB9, 0xD8, 0xAA, 0x20, 0x27, 0x5D, 0x27,
     0x20, 0xD9, 0x84, 0xD8, 0xA5, 0xD8, 0xBA, 0xD9, 0x84, 0xD8, 0xA7, 0xD9, 0x82, 0x20,
     0xD8, 0xB9, 0xD9, 0x86, 0xD9, 0x88, 0xD8, 0xA7, 0xD9, 0x86, 0x20, 0xD8, 0xA7, 0xD9,
     0x84, 0xD8, 0xB0, 0xD8, 0xA7, 0xD9, 0x83, 0xD8, 0xB1, 0xD8, 0xA9, 0x20, 0xD8, 0xA7,
     0xD9, 0x84, 0xD9, 0x86, 0xD8, 0xB3, 0xD8, 0xA8, 0xD9, 0x8A]"

definition PARSE_MEM_BASE :: cstr where
  "PARSE_MEM_BASE = [0xD8, 0xAA, 0xD9, 0x88, 0xD9, 0x82, 0xD8, 0xB9, 0xD8, 0xAA, 0x20, 0xD8, 0xA7, 0xD8,
     0xB3, 0xD9, 0x85, 0x20, 0xD8, 0xB3, 0xD8, 0xAC, 0xD9, 0x84, 0x20, 0xD8, 0xA3, 0xD9,
     0x88, 0x20, 0x27, 0xD9, 0x85, 0xD8, 0xA4, 0xD8, 0xB4, 0xD8, 0xB1, 0x5F, 0xD8, 0xA7,
     0xD9, 0x84, 0xD8, 0xAA, 0xD8, 0xB9, 0xD9, 0x84, 0xD9, 0x8A, 0xD9, 0x85, 0xD8, 0xA9,
     0x2B, 0xD8, 0xB1, 0xD9, 0x85, 0xD8, 0xB2, 0x27, 0x20, 0xD8, 0xAF, 0xD8, 0xA7, 0xD8,
     0xAE, 0xD9, 0x84, 0x20, 0xD8, 0xB9, 0xD9, 0x86, 0xD9, 0x88, 0xD8, 0xA7, 0xD9, 0x86,
     0x20, 0xD8, 0xA7, 0xD9, 0x84, 0xD8, 0xB0, 0xD8, 0xA7, 0xD9, 0x83, 0xD8, 0xB1, 0xD8,
     0xA9, 0x20, 0x27, 0x5B, 0x2E, 0x2E, 0x2E, 0x5D, 0x27]"

definition PARSE_BASE_WIDTH :: cstr where
  "PARSE_BASE_WIDTH = [0xD9, 0x82, 0xD8, 0xA7, 0xD8, 0xB9, 0xD8, 0xAF, 0xD8, 0xA9, 0x20, 0xD8, 0xB9, 0xD9,
     0x86, 0xD9, 0x88, 0xD8, 0xA7, 0xD9, 0x86, 0x20, 0xD8, 0xA7, 0xD9, 0x84, 0xD8, 0xB0,
     0xD8, 0xA7, 0xD9, 0x83, 0xD8, 0xB1, 0xD8, 0xA9, 0x20, 0xD9, 0x8A, 0xD8, 0xAC, 0xD8,
     0xA8, 0x20, 0xD8, 0xA3, 0xD9, 0x86, 0x20, 0xD8, 0xAA, 0xD9, 0x83, 0xD9, 0x88, 0xD9,
     0x86, 0x20, 0xD8, 0xB3, 0xD8, 0xAC, 0xD9, 0x84, 0xD8, 0xA7, 0x20, 0xD8, 0xA8, 0xD8,
     0xB9, 0xD8, 0xB1, 0xD8, 0xB6, 0x20, 0xD9, 0xA6, 0xD9, 0xA4, 0x20, 0xD8, 0xA8, 0xD8, 0xAA]"

definition PARSE_DISP_NUMBER :: cstr where
  "PARSE_DISP_NUMBER = [0xD8, 0xAA, 0xD9, 0x88, 0xD9, 0x82, 0xD8, 0xB9, 0xD8, 0xAA, 0x20, 0xD8, 0xB1, 0xD9,
     0x82, 0xD9, 0x85, 0xD8, 0xA7, 0xD9, 0x8B, 0x20, 0xD8, 0xA8, 0xD8, 0xB9, 0xD8, 0xAF,
     0x20, 0xD8, 0xB9, 0xD9, 0x84, 0xD8, 0xA7, 0xD9, 0x85, 0xD8, 0xA9, 0x20, 0xD8, 0xA7,
     0xD9, 0x84, 0xD8, 0xA5, 0xD8, 0xB2, 0xD8, 0xA7, 0xD8, 0xAD, 0xD8, 0xA9, 0x20, 0xD8,
     0xAF, 0xD8, 0xA7, 0xD8, 0xAE, 0xD9, 0x84, 0x20, 0xD8, 0xB9, 0xD9, 0x86, 0xD9, 0x88,
     0xD8, 0xA7, 0xD9, 0x86, 0x20, 0xD8, 0xA7, 0xD9, 0x84, 0xD8, 0xB0, 0xD8, 0xA7, 0xD9,
     0x83, 0xD8, 0xB1, 0xD8, 0xA9]"

definition PARSE_DISP_RANGE :: cstr where
  "PARSE_DISP_RANGE = [0xD8, 0xA5, 0xD8, 0xB2, 0xD8, 0xA7, 0xD8, 0xAD, 0xD8, 0xA9, 0x20, 0xD8, 0xA7, 0xD9,
     0x84, 0xD8, 0xB0, 0xD8, 0xA7, 0xD9, 0x83, 0xD8, 0xB1, 0xD8, 0xA9, 0x20, 0xD8, 0xAE,
     0xD8, 0xA7, 0xD8, 0xB1, 0xD8, 0xAC, 0x20, 0xD9, 0x85, 0xD8, 0xAC, 0xD8, 0xA7, 0xD9,
     0x84, 0x20, 0x33, 0x32, 0x20, 0xD8, 0xA8, 0xD8, 0xAA, 0x20, 0xD8, 0xA7, 0xD9, 0x84,
     0xD9, 0x85, 0xD9, 0x88, 0xD9, 0x82, 0xD8, 0xB9]"

definition PARSE_MEM_CLOSE :: cstr where
  "PARSE_MEM_CLOSE = [0xD8, 0xAA, 0xD9, 0x88, 0xD9, 0x82, 0xD8, 0xB9, 0xD8, 0xAA, 0x20, 0x27, 0x5D, 0x27,
     0x20, 0xD9, 0x84, 0xD8, 0xA5, 0xD8, 0xBA, 0xD9, 0x84, 0xD8, 0xA7, 0xD9, 0x82, 0x20,
     0xD8, 0xB9, 0xD9, 0x86, 0xD9, 0x88, 0xD8, 0xA7, 0xD9, 0x86, 0x20, 0xD8, 0xA7, 0xD9,
     0x84, 0xD8, 0xB0, 0xD8, 0xA7, 0xD9, 0x83, 0xD8, 0xB1, 0xD8, 0xA9]"

definition PARSE_TOO_MANY :: cstr where
  "PARSE_TOO_MANY = [0xD8, 0xB9, 0xD8, 0xAF, 0xD8, 0xAF, 0x20, 0xD9, 0x85, 0xD8, 0xB9, 0xD8, 0xA7, 0xD9,
     0x85, 0xD9, 0x84, 0xD8, 0xA7, 0xD8, 0xAA, 0x20, 0xD8, 0xA3, 0xD9, 0x83, 0xD8, 0xAB,
     0xD8, 0xB1, 0x20, 0xD9, 0x85, 0xD9, 0x86, 0x20, 0xD8, 0xA7, 0xD9, 0x84, 0xD9, 0x85,
     0xD8, 0xB3, 0xD9, 0x85, 0xD9, 0x88, 0xD8, 0xAD, 0xD8, 0x9B, 0x20, 0xD8, 0xA7, 0xD9,
     0x84, 0xD8, 0xAD, 0xD8, 0xAF, 0x20, 0xD8, 0xA7, 0xD9, 0x84, 0xD8, 0xA3, 0xD9, 0x82,
     0xD8, 0xB5, 0xD9, 0x89, 0x20, 0x33]"

definition PARSE_REGISTER_WORD :: cstr where
  "PARSE_REGISTER_WORD = [0xD8, 0xA7, 0xD8, 0xB3, 0xD9, 0x85, 0x20, 0xD8, 0xA7, 0xD9, 0x84, 0xD8, 0xB3, 0xD8,
     0xAC, 0xD9, 0x84]"

definition PARSE_DIRECTIVE_WORD :: cstr where
  "PARSE_DIRECTIVE_WORD = [0xD8, 0xA7, 0xD9, 0x84, 0xD8, 0xAA, 0xD9, 0x88, 0xD8, 0xAC, 0xD9, 0x8A, 0xD9, 0x87]"

definition PARSE_MNEMONIC_WORD :: cstr where
  "PARSE_MNEMONIC_WORD = [0xD8, 0xA7, 0xD8, 0xB3, 0xD9, 0x85, 0x20, 0xD8, 0xA7, 0xD9, 0x84, 0xD8, 0xAA, 0xD8,
     0xB9, 0xD9, 0x84, 0xD9, 0x8A, 0xD9, 0x85, 0xD8, 0xA9]"

definition removed_message :: "cstr \<Rightarrow> cstr \<Rightarrow> cstr \<Rightarrow> cstr" where
  "removed_message category spelling replacement = snprintf 256
     (category @ [0x20, 0x27] @ c_str spelling @
      [0x27, 0x20, 0xD8, 0xA3, 0xD8, 0xB2, 0xD9, 0x8A, 0xD9, 0x84, 0x20, 0xD9, 0x81, 0xD9,
     0x8A, 0x20, 0xD9, 0x86, 0xD9, 0x8E, 0xD8, 0xB8, 0xD9, 0x92, 0xD9, 0x85, 0x20, 0x30,
     0x2E, 0x34, 0xD8, 0x9B, 0x20, 0xD8, 0xA7, 0xD8, 0xB3, 0xD8, 0xAA, 0xD8, 0xAE, 0xD8,
     0xAF, 0xD9, 0x85, 0x20, 0x27] @ replacement @ [0x27])"

definition comma_message :: "TokenType \<Rightarrow> cstr" where
  "comma_message ty = snprintf 160
     ([0xD8, 0xAA, 0xD9, 0x88, 0xD9, 0x82, 0xD8, 0xB9, 0xD8, 0xAA, 0x20, 0xD9, 0x81, 0xD8,
     0xA7, 0xD8, 0xB5, 0xD9, 0x84, 0xD8, 0xA9, 0x20, 0xD8, 0xB9, 0xD8, 0xB1, 0xD8, 0xA8,
     0xD9, 0x8A, 0xD8, 0xA9, 0x20, 0x27, 0xD8, 0x8C, 0x27, 0x20, 0xD8, 0xA8, 0xD9, 0x8A,
     0xD9, 0x86, 0x20, 0xD8, 0xA7, 0xD9, 0x84, 0xD9, 0x85, 0xD8, 0xB9, 0xD8, 0xA7, 0xD9,
     0x85, 0xD9, 0x84, 0xD8, 0xA7, 0xD8, 0xAA, 0xD8, 0x8C, 0x20, 0xD9, 0x84, 0xD9, 0x83,
     0xD9, 0x86, 0xD9, 0x86, 0xD9, 0x8A, 0x20, 0xD9, 0x88, 0xD8, 0xAC, 0xD8, 0xAF, 0xD8,
     0xAA, 0x3A, 0x20] @ token_type_name ty)"

definition unknown_register_message :: "cstr \<Rightarrow> cstr" where
  "unknown_register_message spelling = snprintf 160
     ([0xD8, 0xB3, 0xD8, 0xAC, 0xD9, 0x84, 0x20, 0xD8, 0xBA, 0xD9, 0x8A, 0xD8, 0xB1, 0x20,
     0xD9, 0x85, 0xD8, 0xB9, 0xD8, 0xB1, 0xD9, 0x88, 0xD9, 0x81, 0x3A, 0x20] @ c_str spelling)"

definition operand_message :: "TokenType \<Rightarrow> cstr" where
  "operand_message ty = snprintf 160
     ([0xD8, 0xAA, 0xD9, 0x88, 0xD9, 0x82, 0xD8, 0xB9, 0xD8, 0xAA, 0x20, 0xD9, 0x85, 0xD8,
     0xB9, 0xD8, 0xA7, 0xD9, 0x85, 0xD9, 0x84, 0xD8, 0xA7, 0xD9, 0x8B, 0x3A, 0x20, 0xD8,
     0xB3, 0xD8, 0xAC, 0xD9, 0x84, 0xD8, 0x8C, 0x20, 0xD8, 0xB1, 0xD9, 0x82, 0xD9, 0x85,
     0xD8, 0x8C, 0x20, 0xD8, 0xB0, 0xD8, 0xA7, 0xD9, 0x83, 0xD8, 0xB1, 0xD8, 0xA9, 0xD8,
     0x8C, 0x20, 0xD8, 0xB3, 0xD9, 0x84, 0xD8, 0xB3, 0xD9, 0x84, 0xD8, 0xA9, 0xD8, 0x8C,
     0x20, 0xD8, 0xA3, 0xD9, 0x88, 0x20, 0xD9, 0x88, 0xD8, 0xB3, 0xD9, 0x85, 0xD8, 0x9B,
     0x20, 0xD9, 0x84, 0xD9, 0x83, 0xD9, 0x86, 0xD9, 0x86, 0xD9, 0x8A, 0x20, 0xD9, 0x88,
     0xD8, 0xAC, 0xD8, 0xAF, 0xD8, 0xAA, 0x3A, 0x20] @ token_type_name ty)"

definition too_few_message :: "int \<Rightarrow> int \<Rightarrow> cstr" where
  "too_few_message wanted found = snprintf 160
     ([0xD8, 0xA7, 0xD9, 0x84, 0xD8, 0xAA, 0xD8, 0xB9, 0xD9, 0x84, 0xD9, 0x8A, 0xD9, 0x85,
     0xD8, 0xA9, 0x20, 0xD8, 0xAA, 0xD8, 0xAD, 0xD8, 0xAA, 0xD8, 0xA7, 0xD8, 0xAC, 0x20] @ print_int wanted @
      [0x20, 0xD9, 0x85, 0xD8, 0xB9, 0xD8, 0xA7, 0xD9, 0x85, 0xD9, 0x84, 0xD8, 0xA7, 0xD8,
     0xAA, 0x20, 0xD8, 0xB9, 0xD9, 0x84, 0xD9, 0x89, 0x20, 0xD8, 0xA7, 0xD9, 0x84, 0xD8,
     0xA3, 0xD9, 0x82, 0xD9, 0x84, 0xD8, 0x8C, 0x20, 0xD9, 0x84, 0xD9, 0x83, 0xD9, 0x86,
     0x20, 0xD8, 0xA7, 0xD9, 0x84, 0xD9, 0x85, 0xD9, 0x88, 0xD8, 0xAC, 0xD9, 0x88, 0xD8,
     0xAF, 0x20] @ print_int found)"

definition too_many_message :: "int \<Rightarrow> int \<Rightarrow> cstr" where
  "too_many_message wanted found = snprintf 160
     ([0xD8, 0xA7, 0xD9, 0x84, 0xD8, 0xAA, 0xD8, 0xB9, 0xD9, 0x84, 0xD9, 0x8A, 0xD9, 0x85,
     0xD8, 0xA9, 0x20, 0xD8, 0xAA, 0xD9, 0x82, 0xD8, 0xA8, 0xD9, 0x84, 0x20] @ print_int wanted @
      [0x20, 0xD9, 0x85, 0xD8, 0xB9, 0xD8, 0xA7, 0xD9, 0x85, 0xD9, 0x84, 0xD8, 0xA7, 0xD8,
     0xAA, 0x20, 0xD9, 0x83, 0xD8, 0xAD, 0xD8, 0xAF, 0x20, 0xD8, 0xA3, 0xD9, 0x82, 0xD8,
     0xB5, 0xD9, 0x89, 0xD8, 0x8C, 0x20, 0xD9, 0x84, 0xD9, 0x83, 0xD9, 0x86, 0x20, 0xD8,
     0xA7, 0xD9, 0x84, 0xD9, 0x85, 0xD9, 0x88, 0xD8, 0xAC, 0xD9, 0x88, 0xD8, 0xAF, 0x20] @ print_int found)"

definition line_start_message :: "cstr \<Rightarrow> TokenType \<Rightarrow> cstr" where
  "line_start_message spelling ty = snprintf 180
     ([0xD8, 0xAA, 0xD9, 0x88, 0xD9, 0x82, 0xD8, 0xB9, 0xD8, 0xAA, 0x20, 0xD8, 0xAA, 0xD8,
     0xB9, 0xD9, 0x84, 0xD9, 0x8A, 0xD9, 0x85, 0xD8, 0xA9, 0x20, 0xD8, 0xA3, 0xD9, 0x88,
     0x20, 0xD8, 0xAA, 0xD9, 0x88, 0xD8, 0xAC, 0xD9, 0x8A, 0xD9, 0x87, 0xD8, 0xA7, 0xD9,
     0x8B, 0xD8, 0x8C, 0x20, 0xD9, 0x84, 0xD9, 0x83, 0xD9, 0x86, 0xD9, 0x86, 0xD9, 0x8A,
     0x20, 0xD9, 0x88, 0xD8, 0xAC, 0xD8, 0xAF, 0xD8, 0xAA, 0x20, 0x27] @ c_str spelling @
      [0x27, 0x20, 0x28] @ token_type_name ty @ [0x29])"

definition unknown_mnemonic_message :: "cstr \<Rightarrow> cstr" where
  "unknown_mnemonic_message spelling = snprintf 160
     ([0xD8, 0xAA, 0xD8, 0xB9, 0xD9, 0x84, 0xD9, 0x8A, 0xD9, 0x85, 0xD8, 0xA9, 0x20, 0xD8,
     0xBA, 0xD9, 0x8A, 0xD8, 0xB1, 0x20, 0xD9, 0x85, 0xD8, 0xB9, 0xD8, 0xB1, 0xD9, 0x88,
     0xD9, 0x81, 0xD8, 0xA9, 0x3A, 0x20, 0x27] @ c_str spelling @ [0x27])"

section \<open>State and cursor\<close>

record Parser =
  ps_tokens :: "Token list"
  ps_pos :: nat
  ps_errors :: "cstr ErrorList"
  ps_out :: "Instruction list"
  ps_src_name :: cstr

definition push_instr :: "Parser \<Rightarrow> Instruction \<Rightarrow> Parser" where
  "push_instr p instr = p\<lparr>ps_out := ps_out p @ [instr]\<rparr>"

definition cur :: "Parser \<Rightarrow> Token" where
  "cur p = (if ps_pos p < length (ps_tokens p) then ps_tokens p ! ps_pos p
            else make_token TOKEN_EOF [] 0 0 0)"

definition cur_type :: "Parser \<Rightarrow> TokenType" where
  "cur_type p = tok_type (cur p)"

definition advance :: "Parser \<Rightarrow> Parser" where
  "advance p = (if cur_type p \<noteq> TOKEN_EOF then p\<lparr>ps_pos := ps_pos p + 1\<rparr> else p)"

definition ps_remaining :: "Parser \<Rightarrow> nat" where
  "ps_remaining p = length (ps_tokens p) - ps_pos p"

lemma advance_remaining [simp]:
  "cur_type p \<noteq> TOKEN_EOF \<Longrightarrow> ps_remaining (advance p) < ps_remaining p"
  by (auto simp: advance_def ps_remaining_def cur_type_def cur_def make_token_def split: if_splits)

function skip_newlines :: "Parser \<Rightarrow> Parser" where
  "skip_newlines p = (if cur_type p = TOKEN_NEWLINE then skip_newlines (advance p) else p)"
  by pat_completeness auto
termination by (relation "measure ps_remaining") simp_all

function sync_to_newline :: "Parser \<Rightarrow> Parser" where
  "sync_to_newline p =
     (if cur_type p \<noteq> TOKEN_NEWLINE \<and> cur_type p \<noteq> TOKEN_EOF then sync_to_newline (advance p) else p)"
  by pat_completeness auto
termination by (relation "measure ps_remaining") simp_all

declare skip_newlines.simps [simp del] sync_to_newline.simps [simp del]

definition token_error :: "Parser \<Rightarrow> Token \<Rightarrow> cstr \<Rightarrow> Parser" where
  "token_error p t msg = p\<lparr>ps_errors := error_add_span (ps_errors p) (Some (ps_src_name p))
     (tok_line t) (tok_col t) (tok_end_col t) msg\<rparr>"

definition parse_error :: "Parser \<Rightarrow> cstr \<Rightarrow> Parser" where
  "parse_error p msg = token_error p (cur p) msg"

definition replacement_error :: "Parser \<Rightarrow> Token \<Rightarrow> cstr \<Rightarrow> cstr \<Rightarrow> Parser" where
  "replacement_error p t category replacement =
     token_error p t (removed_message category (tok_value t) replacement)"

section \<open>Directive names\<close>

definition DIRECTIVE_TABLE :: "(cstr \<times> DirectiveKind) list" where
  "DIRECTIVE_TABLE = [
     ([0x2E, 0xD9, 0x86, 0xD8, 0xB5],
      DIRECTIVE_TEXT),
     ([0x2E, 0xD8, 0xA8, 0xD9, 0x8A, 0xD8, 0xA7, 0xD9, 0x86, 0xD8, 0xA7, 0xD8, 0xAA],
      DIRECTIVE_DATA),
     ([0x2E, 0xD8, 0xA8, 0xD9, 0x8A, 0xD8, 0xA7, 0xD9, 0x86, 0xD8, 0xA7, 0xD8, 0xAA, 0x5F,
      0xD9, 0x84, 0xD9, 0x84, 0xD9, 0x82, 0xD8, 0xB1, 0xD8, 0xA7, 0xD8, 0xA1, 0xD8, 0xA9],
      DIRECTIVE_READ_ONLY_DATA),
     ([0x2E, 0xD8, 0xBA, 0xD9, 0x8A, 0xD8, 0xB1, 0x5F, 0xD9, 0x85, 0xD9, 0x87, 0xD9, 0x8A,
      0xD8, 0xA3, 0xD8, 0xA9],
      DIRECTIVE_BSS),
     ([0x2E, 0xD8, 0xB9, 0xD8, 0xAF, 0xD8, 0xAF, 0xD9, 0xA8],
      DIRECTIVE_INT8),
     ([0x2E, 0xD8, 0xB9, 0xD8, 0xAF, 0xD8, 0xAF, 0xD9, 0xA1, 0xD9, 0xA6],
      DIRECTIVE_INT16),
     ([0x2E, 0xD8, 0xB9, 0xD8, 0xAF, 0xD8, 0xAF, 0xD9, 0xA3, 0xD9, 0xA2],
      DIRECTIVE_INT32),
     ([0x2E, 0xD8, 0xB9, 0xD8, 0xAF, 0xD8, 0xAF, 0xD9, 0xA6, 0xD9, 0xA4],
      DIRECTIVE_INT64),
     ([0x2E, 0xD9, 0x85, 0xD8, 0xAD, 0xD8, 0xA7, 0xD8, 0xB0, 0xD8, 0xA7, 0xD8, 0xA9],
      DIRECTIVE_ALIGNMENT),
     ([0x2E, 0xD9, 0x85, 0xD8, 0xB3, 0xD8, 0xA7, 0xD8, 0xAD, 0xD8, 0xA9, 0x5F, 0xD8, 0xB5,
      0xD9, 0x81, 0xD8, 0xB1, 0xD9, 0x8A, 0xD8, 0xA9],
      DIRECTIVE_ZERO_SPACE),
     ([0x2E, 0xD8, 0xB3, 0xD9, 0x84, 0xD8, 0xB3, 0xD9, 0x84, 0xD8, 0xA9, 0x5F, 0xD9, 0x85,
      0xD9, 0x86, 0xD8, 0xAA, 0xD9, 0x87, 0xD9, 0x8A, 0xD8, 0xA9, 0x5F, 0xD8, 0xA8, 0xD8,
      0xB5, 0xD9, 0x81, 0xD8, 0xB1],
      DIRECTIVE_NUL_STRING),
     ([0x2E, 0xD8, 0xB9, 0xD8, 0xA7, 0xD9, 0x85],
      DIRECTIVE_GLOBAL),
     ([0x2E, 0xD9, 0x85, 0xD8, 0xAD, 0xD9, 0x84, 0xD9, 0x8A],
      DIRECTIVE_LOCAL),
     ([0x2E, 0xD8, 0xAE, 0xD8, 0xA7, 0xD8, 0xB1, 0xD8, 0xAC, 0xD9, 0x8A],
      DIRECTIVE_EXTERNAL),
     ([0x2E, 0xD9, 0x85, 0xD9, 0x84, 0xD9, 0x81],
      DIRECTIVE_DEBUG_FILE),
     ([0x2E, 0xD9, 0x85, 0xD9, 0x84, 0xD9, 0x81, 0x5F, 0xD8, 0xA8, 0xD8, 0xA7, 0xD9, 0x8A,
      0xD8, 0xAA, 0xD8, 0xA7, 0xD8, 0xAA],
      DIRECTIVE_DEBUG_FILE_BYTES),
     ([0x2E, 0xD9, 0x85, 0xD9, 0x88, 0xD8, 0xB6, 0xD8, 0xB9],
      DIRECTIVE_DEBUG_LOCATION)]"

definition LEGACY_DIRECTIVES :: "(cstr \<times> cstr) list" where
  "LEGACY_DIRECTIVES = [
     ([0x2E, 0xD8, 0xA8, 0xD8, 0xA7, 0xD9, 0x8A, 0xD8, 0xAA],
      [0x2E, 0xD8, 0xB9, 0xD8, 0xAF, 0xD8, 0xAF, 0xD9, 0xA8]),
     ([0x2E, 0xD9, 0x85, 0xD8, 0xB3, 0xD8, 0xA7, 0xD8, 0xAD, 0xD8, 0xA9],
      [0x2E, 0xD9, 0x85, 0xD8, 0xB3, 0xD8, 0xA7, 0xD8, 0xAD, 0xD8, 0xA9, 0x5F, 0xD8, 0xB5,
      0xD9, 0x81, 0xD8, 0xB1, 0xD9, 0x8A, 0xD8, 0xA9]),
     ([0x2E, 0xD8, 0xB3, 0xD9, 0x84, 0xD8, 0xB3, 0xD9, 0x84, 0xD8, 0xA9],
      [0x2E, 0xD8, 0xB3, 0xD9, 0x84, 0xD8, 0xB3, 0xD9, 0x84, 0xD8, 0xA9, 0x5F, 0xD9, 0x85,
      0xD9, 0x86, 0xD8, 0xAA, 0xD9, 0x87, 0xD9, 0x8A, 0xD8, 0xA9, 0x5F, 0xD8, 0xA8, 0xD8,
      0xB5, 0xD9, 0x81, 0xD8, 0xB1])]"

definition directive_lookup :: "cstr \<Rightarrow> DirectiveKind" where
  "directive_lookup spelling =
     (case map_of DIRECTIVE_TABLE spelling of Some kind \<Rightarrow> kind | None \<Rightarrow> DIRECTIVE_INVALID)"

definition directive_legacy_replacement :: "cstr \<Rightarrow> cstr option" where
  "directive_legacy_replacement spelling = map_of LEGACY_DIRECTIVES spelling"

section \<open>Operands\<close>

text \<open>A result next to the state: \<open>None\<close> is the return value \<^verbatim>\<open>false\<close>.\<close>

definition expect_comma :: "Parser \<Rightarrow> bool \<times> Parser" where
  "expect_comma p =
     (if cur_type p = TOKEN_COMMA then (True, advance p)
      else (False, token_error p (cur p) (comma_message (tok_type (cur p)))))"

text \<open>\<^verbatim>\<open>strtoll\<close> with base 10: white space, a sign, digits, and saturation at the 64-bit limits.\<close>

definition is_space :: "u8 \<Rightarrow> bool" where
  "is_space b \<longleftrightarrow> b = 0x20 \<or> 0x09 \<le> b \<and> b \<le> 0x0D"

definition ascii_digits :: "u8 list \<Rightarrow> nat" where
  "ascii_digits bs = foldl (\<lambda>n b. n * 10 + unat (b - 0x30)) 0 (takeWhile (\<lambda>b. 0x30 \<le> b \<and> b \<le> 0x39) bs)"

definition strtoll :: "u8 list \<Rightarrow> int" where
  "strtoll bs =
     (let v = (case dropWhile is_space bs of
          b # r \<Rightarrow> if b = 0x2D then - int (ascii_digits r)
                   else if b = 0x2B then int (ascii_digits r) else int (ascii_digits (b # r))
        | [] \<Rightarrow> 0)
      in max (- (2 ^ 63)) (min (2 ^ 63 - 1) v))"

definition set_memory_displacement :: "Parser \<Rightarrow> RegId \<Rightarrow> int \<Rightarrow> Token \<Rightarrow> Operand option \<times> Parser" where
  "set_memory_displacement p base displacement t =
     (if displacement < - (2 ^ 31) \<or> displacement > 2 ^ 31 - 1 then
        (None, sync_to_newline (token_error p t PARSE_DISP_RANGE))
      else (Some (OP_MEM_DISP base (word_of_int displacement)), p))"

definition token_value_equals :: "Token \<Rightarrow> cstr \<Rightarrow> bool" where
  "token_value_equals t expected \<longleftrightarrow> tok_value t = expected"

text \<open>An operand that spans from the opening token to the closing one.\<close>

definition spanning :: "Operand \<Rightarrow> Token \<Rightarrow> Token \<Rightarrow> LocOperand" where
  "spanning k first final = \<lparr>opnd = k, op_line = tok_line first, op_col = tok_col first,
     op_end_col = tok_end_col final\<rparr>"

definition fail_and_sync :: "Parser \<Rightarrow> 'a option \<times> Parser" where
  "fail_and_sync p = (None, sync_to_newline p)"

definition parse_rip_operand :: "Parser \<Rightarrow> Token \<Rightarrow> LocOperand option \<times> Parser" where
  "parse_rip_operand p open_tok =
     (let p = advance p in
      if cur_type p \<noteq> TOKEN_PLUS then fail_and_sync (parse_error p PARSE_RIP_PLUS)
      else let p = advance p in
        if cur_type p \<noteq> TOKEN_LABEL_REF \<and> cur_type p \<noteq> TOKEN_MNEMONIC then
          fail_and_sync (parse_error p PARSE_RIP_SYMBOL)
        else let label_token = cur p; p = advance p in
          if cur_type p \<noteq> TOKEN_RBRACKET then fail_and_sync (parse_error p PARSE_RIP_CLOSE)
          else (Some (spanning (OP_MEM_RIP_LABEL (c_str (tok_value label_token))) open_tok (cur p)), advance p))"

definition parse_mem_displacement :: "Parser \<Rightarrow> RegId \<Rightarrow> Operand option \<times> Parser" where
  "parse_mem_displacement p base =
     (if cur_type p = TOKEN_PLUS \<or> cur_type p = TOKEN_MINUS then
        let negative = (cur_type p = TOKEN_MINUS); p = advance p in
        if cur_type p \<noteq> TOKEN_IMMEDIATE then fail_and_sync (parse_error p PARSE_DISP_NUMBER)
        else let imm_tok = cur p; disp = strtoll (tok_value imm_tok);
                 disp = (if negative then if disp = - (2 ^ 63) then 2 ^ 63 - 1 else - disp else disp)
             in set_memory_displacement (advance p) base disp imm_tok
      else if cur_type p = TOKEN_IMMEDIATE then
        let imm_tok = cur p in set_memory_displacement (advance p) base (strtoll (tok_value imm_tok)) imm_tok
      else (Some (OP_MEM_REG base), p))"

definition parse_base_operand :: "Parser \<Rightarrow> Token \<Rightarrow> LocOperand option \<times> Parser" where
  "parse_base_operand p open_tok =
     (let reg_tok = cur p; p = advance p; rid = lexer_register_id (tok_value reg_tok) in
      if rid < 0 then fail_and_sync (token_error p reg_tok (unknown_register_message (tok_value reg_tok)))
      else if reg_width_bits (reg_of_code (nat rid)) \<noteq> 64 then
        fail_and_sync (token_error p reg_tok PARSE_BASE_WIDTH)
      else case parse_mem_displacement p (reg_of_code (nat rid)) of
          (None, p) \<Rightarrow> (None, p)
        | (Some k, p) \<Rightarrow>
            if cur_type p \<noteq> TOKEN_RBRACKET then fail_and_sync (parse_error p PARSE_MEM_CLOSE)
            else (Some (spanning k open_tok (cur p)), advance p))"

definition parse_mem_operand :: "Parser \<Rightarrow> Token \<Rightarrow> LocOperand option \<times> Parser" where
  "parse_mem_operand p open_tok =
     (if cur_type p = TOKEN_LABEL_REF \<and> token_value_equals (cur p) INSTRUCTION_POINTER_NAME then
        parse_rip_operand p open_tok
      else if cur_type p \<noteq> TOKEN_REGISTER then
        case (if cur_type p = TOKEN_LABEL_REF then lexer_register_legacy_replacement (tok_value (cur p))
              else None) of
            Some replacement \<Rightarrow> fail_and_sync (replacement_error p (cur p) PARSE_REGISTER_WORD replacement)
          | None \<Rightarrow> fail_and_sync (parse_error p PARSE_MEM_BASE)
      else parse_base_operand p open_tok)"

definition parse_operand :: "Parser \<Rightarrow> LocOperand option \<times> Parser" where
  "parse_operand p =
     (let t = cur p in
      case tok_type t of
        TOKEN_REGISTER \<Rightarrow>
          let p = advance p; rid = lexer_register_id (tok_value t) in
          if rid < 0 then (None, token_error p t (unknown_register_message (tok_value t)))
          else (Some (spanning (OP_REG (reg_of_code (nat rid))) t t), p)
      | TOKEN_IMMEDIATE \<Rightarrow>
          (Some (spanning (OP_IMM (word_of_int (strtoll (tok_value t)))) t t), advance p)
      | TOKEN_LBRACKET \<Rightarrow> parse_mem_operand (advance p) t
      | TOKEN_LABEL_REF \<Rightarrow>
          (case lexer_register_legacy_replacement (tok_value t) of
             Some replacement \<Rightarrow> (None, advance (replacement_error p t PARSE_REGISTER_WORD replacement))
           | None \<Rightarrow> (Some (spanning (OP_LABEL (c_str (tok_value t))) t t), advance p))
      | TOKEN_MNEMONIC \<Rightarrow> (Some (spanning (OP_LABEL (c_str (tok_value t))) t t), advance p)
      | TOKEN_STRING \<Rightarrow> (Some (spanning (OP_STRING (tok_value t)) t t), advance p)
      | _ \<Rightarrow> (None, token_error p t (operand_message (tok_type t))))"

section \<open>Operand counts\<close>

definition ARITY_TABLE :: "(OpcodeEnum \<times> int \<times> int) list" where
  "ARITY_TABLE = [
     (OPCODE_MOV, 2, 2), (OPCODE_LEA, 2, 2), (OPCODE_PUSH, 1, 1), (OPCODE_POP, 1, 1),
     (OPCODE_ADD, 2, 2), (OPCODE_SUB, 2, 2), (OPCODE_IMUL, 2, 3), (OPCODE_IDIV, 1, 1),
     (OPCODE_INC, 1, 1), (OPCODE_DEC, 1, 1), (OPCODE_NEG, 1, 1), (OPCODE_ADDSD, 2, 2),
     (OPCODE_SUBSD, 2, 2), (OPCODE_MULSD, 2, 2), (OPCODE_DIVSD, 2, 2),
     (OPCODE_UCOMISD, 2, 2), (OPCODE_XORPD, 2, 2), (OPCODE_CVTSI2SD, 2, 2),
     (OPCODE_CVTTSD2SI, 2, 2), (OPCODE_AND, 2, 2), (OPCODE_OR, 2, 2), (OPCODE_XOR, 2, 2),
     (OPCODE_NOT, 1, 1), (OPCODE_SHL, 2, 2), (OPCODE_SHR, 2, 2), (OPCODE_SAR, 2, 2),
     (OPCODE_CMP, 2, 2), (OPCODE_TEST, 2, 2), (OPCODE_JMP, 1, 1), (OPCODE_CALL, 1, 1),
     (OPCODE_RET, 0, 0), (OPCODE_JE, 1, 1), (OPCODE_JNE, 1, 1), (OPCODE_JG, 1, 1),
     (OPCODE_JGE, 1, 1), (OPCODE_JL, 1, 1), (OPCODE_JLE, 1, 1), (OPCODE_JZ, 1, 1),
     (OPCODE_JNZ, 1, 1), (OPCODE_JS, 1, 1), (OPCODE_JNS, 1, 1), (OPCODE_SYSCALL, 0, 0),
     (OPCODE_NOP, 0, 0), (OPCODE_RDTSC, 0, 0), (OPCODE_HLT, 0, 0), (OPCODE_INT, 1, 1)]"

definition get_arity :: "OpcodeEnum \<Rightarrow> int \<times> int" where
  "get_arity op = (case map_of ARITY_TABLE op of Some a \<Rightarrow> a | None \<Rightarrow> (0, int MAX_OPERANDS))"

definition set_instruction_span :: "Instruction \<Rightarrow> Token \<Rightarrow> Instruction" where
  "set_instruction_span instr t = instr\<lparr>line := tok_line t, col := tok_col t, end_col := tok_end_col t\<rparr>"

definition instruction_error :: "Parser \<Rightarrow> Instruction \<Rightarrow> cstr \<Rightarrow> Parser" where
  "instruction_error p instr msg = p\<lparr>ps_errors := error_add_span (ps_errors p) (Some (ps_src_name p))
     (line instr) (col instr) (end_col instr) msg\<rparr>"

definition check_arity :: "Parser \<Rightarrow> Instruction \<Rightarrow> int \<Rightarrow> int \<Rightarrow> Parser" where
  "check_arity p instr min_ops max_ops =
     (let op_count = int (length (ops instr)) in
      if op_count < min_ops then instruction_error p instr (too_few_message min_ops op_count)
      else if op_count > max_ops then instruction_error p instr (too_many_message max_ops op_count)
      else p)"

section \<open>Progress\<close>

text \<open>
  \<open>ps_moves\<close>: the same tokens and output, an index not smaller and still at a token, and no error
  forgotten. An operand that fails has been reported; one that succeeds has consumed a token.
\<close>

definition ps_inside :: "Parser \<Rightarrow> bool" where
  "ps_inside p \<longleftrightarrow> ps_pos p < length (ps_tokens p) \<and> tok_type (last (ps_tokens p)) = TOKEN_EOF"

definition ps_moves :: "Parser \<Rightarrow> Parser \<Rightarrow> bool" where
  "ps_moves p p' \<longleftrightarrow> ps_tokens p' = ps_tokens p \<and> ps_out p' = ps_out p \<and> ps_src_name p' = ps_src_name p
     \<and> ps_pos p \<le> ps_pos p' \<and> (ps_inside p \<longrightarrow> ps_inside p')
     \<and> (errors (ps_errors p') = [] \<longrightarrow> ps_errors p' = ps_errors p)"

definition operand_result :: "Parser \<Rightarrow> 'a option \<times> Parser \<Rightarrow> bool" where
  "operand_result p r \<longleftrightarrow> ps_moves p (snd r)
     \<and> (fst r = None \<longrightarrow> errors (ps_errors (snd r)) \<noteq> [])
     \<and> (fst r \<noteq> None \<longrightarrow> ps_remaining (snd r) < ps_remaining p)"

lemma ps_moves_refl [simp]: "ps_moves p p"
  by (simp add: ps_moves_def)

lemma ps_moves_trans [trans]: "ps_moves a b \<Longrightarrow> ps_moves b c \<Longrightarrow> ps_moves a c"
  unfolding ps_moves_def by auto

lemma ps_moves_remaining: "ps_moves p p' \<Longrightarrow> ps_remaining p' \<le> ps_remaining p"
  by (auto simp: ps_moves_def ps_remaining_def)

lemma ps_moves_advance [simp]: "ps_moves p (advance p)"
proof -
  have "ps_pos p + 1 < length (ps_tokens p)" if "ps_inside p" "cur_type p \<noteq> TOKEN_EOF"
  proof (rule ccontr)
    assume c: "\<not> ps_pos p + 1 < length (ps_tokens p)"
    have "ps_tokens p ! ps_pos p = last (ps_tokens p)"
    proof -
      have "ps_pos p = length (ps_tokens p) - 1" "ps_tokens p \<noteq> []"
        using that(1) c by (auto simp: ps_inside_def)
      then show ?thesis by (simp add: last_conv_nth)
    qed
    then show False using that by (simp add: ps_inside_def cur_type_def cur_def)
  qed
  then show ?thesis by (auto simp: ps_moves_def advance_def ps_inside_def)
qed

lemma ps_moves_error:
  "ps_moves p p' \<Longrightarrow> ps_moves p (token_error p' t m)"
  by (auto simp: ps_moves_def token_error_def ps_inside_def)

lemma token_error_reported [simp]: "errors (ps_errors (token_error p t m)) \<noteq> []"
  by (simp add: token_error_def)

lemma token_error_cursor [simp]:
  "ps_remaining (token_error p t m) = ps_remaining p" "cur (token_error p t m) = cur p"
  "cur_type (token_error p t m) = cur_type p"
  by (simp_all add: token_error_def ps_remaining_def cur_def cur_type_def)

lemma ps_moves_sync: "ps_moves p (sync_to_newline p) \<and> ps_errors (sync_to_newline p) = ps_errors p
    \<and> (cur_type (sync_to_newline p) = TOKEN_NEWLINE \<or> cur_type (sync_to_newline p) = TOKEN_EOF)"
proof (induction p rule: sync_to_newline.induct)
  case (1 p)
  show ?case
  proof (cases "cur_type p \<noteq> TOKEN_NEWLINE \<and> cur_type p \<noteq> TOKEN_EOF")
    case True
    then show ?thesis
      using 1 ps_moves_trans [of p "advance p" "sync_to_newline (advance p)"]
      by (simp add: sync_to_newline.simps [of p]) (simp add: advance_def)
  next
    case False
    then have "sync_to_newline p = p" by (subst sync_to_newline.simps) auto
    then show ?thesis using False by simp
  qed
qed

lemma ps_moves_sync2: "ps_moves p p' \<Longrightarrow> ps_moves p (sync_to_newline p')"
  using ps_moves_sync [of p'] ps_moves_trans by blast

lemma operand_fails:
  "ps_moves p p' \<Longrightarrow> operand_result p (fail_and_sync (token_error p' t m))"
  using ps_moves_sync [of "token_error p' t m"] ps_moves_trans [OF ps_moves_error]
  by (auto simp: operand_result_def fail_and_sync_def)

lemma operand_done:
  "ps_moves p p' \<Longrightarrow> ps_remaining p' < ps_remaining p \<Longrightarrow> operand_result p (Some x, advance p')"
  using ps_moves_trans [OF _ ps_moves_advance, of p p'] ps_moves_remaining [OF ps_moves_advance, of p']
  by (simp add: operand_result_def)

lemma ps_moves_advance2: "ps_moves p p' \<Longrightarrow> ps_moves p (advance p')"
  by (rule ps_moves_trans [OF _ ps_moves_advance])

lemma remaining_advance2: "ps_remaining p' < ps_remaining p \<Longrightarrow> ps_remaining (advance p') < ps_remaining p"
  using ps_moves_remaining [OF ps_moves_advance, of p'] by simp

lemma parse_rip_operand_result:
  assumes "cur_type p \<noteq> TOKEN_EOF"
  shows "operand_result p (parse_rip_operand p t)"
proof -
  have r: "ps_remaining (advance p) < ps_remaining p" using assms by simp
  note r2 = remaining_advance2 [OF r] and m2 = ps_moves_advance2 [OF ps_moves_advance [of p]]
  note r3 = remaining_advance2 [OF r2] and m3 = ps_moves_advance2 [OF m2]
  show ?thesis
    by (simp add: parse_rip_operand_def Let_def parse_error_def operand_fails m2 m3
        operand_done [OF m3 r3])
qed

lemma set_memory_displacement_result:
  "ps_moves p p' \<Longrightarrow> ps_remaining p' < ps_remaining p \<Longrightarrow> operand_result p (set_memory_displacement p' b d t)"
  using operand_fails [of p p' t PARSE_DISP_RANGE]
  by (auto simp: set_memory_displacement_def fail_and_sync_def operand_result_def)

lemma parse_mem_displacement_moves:
  "ps_moves p (snd (parse_mem_displacement p b))
   \<and> (fst (parse_mem_displacement p b) = None \<longrightarrow> errors (ps_errors (snd (parse_mem_displacement p b))) \<noteq> [])"
proof -
  have f: "operand_result p (fail_and_sync (parse_error (advance p) m) :: Operand option \<times> Parser)" for m
    by (simp add: parse_error_def operand_fails)
  have "operand_result p (set_memory_displacement (advance (advance p)) b d t)"
    if "cur_type p \<noteq> TOKEN_EOF" for d t
    using that by (intro set_memory_displacement_result ps_moves_advance2 ps_moves_advance
        remaining_advance2 advance_remaining)
  moreover have "operand_result p (set_memory_displacement (advance p) b d t)"
    if "cur_type p \<noteq> TOKEN_EOF" for d t
    using that by (intro set_memory_displacement_result) simp_all
  ultimately show ?thesis
    using f by (auto simp: parse_mem_displacement_def Let_def operand_result_def)
qed

lemma parse_base_operand_result:
  assumes "cur_type p \<noteq> TOKEN_EOF"
  shows "operand_result p (parse_base_operand p t)"
proof -
  let ?p = "advance p"
  have r: "ps_remaining ?p < ps_remaining p" using assms by simp
  have f: "operand_result p (fail_and_sync (token_error ?p t m) :: LocOperand option \<times> Parser)" for t m by (simp add: operand_fails)
  show ?thesis
  proof (cases "parse_mem_displacement ?p (reg_of_code (nat (lexer_register_id (tok_value (cur p)))))")
    case (Pair k p')
    have m: "ps_moves ?p p'" "k = None \<longrightarrow> errors (ps_errors p') \<noteq> []"
      using parse_mem_displacement_moves [of ?p] Pair by (metis fst_conv snd_conv)+
    have m': "ps_moves p p'" by (rule ps_moves_trans [OF ps_moves_advance m(1)])
    have r': "ps_remaining p' < ps_remaining p" using r ps_moves_remaining [OF m(1)] by simp
    have "k = None \<Longrightarrow> operand_result p (None, p')" using m m' by (simp add: operand_result_def)
    then show ?thesis
      using f operand_fails [OF m'] operand_done [OF m' r']
      by (auto simp: parse_base_operand_def Let_def Pair parse_error_def split: option.split)
  qed
qed

lemma parse_mem_operand_result:
  assumes "cur_type p \<noteq> TOKEN_EOF"
  shows "operand_result p (parse_mem_operand p t)"
  using assms parse_rip_operand_result parse_base_operand_result operand_fails [OF ps_moves_refl]
  by (auto simp: parse_mem_operand_def replacement_error_def parse_error_def split: option.split)

lemma parse_operand_result: "operand_result p (parse_operand p)"
proof -
  have e: "operand_result p (None, token_error p' t m)" if "ps_moves p p'" for p' t m
    using that by (simp add: operand_result_def ps_moves_error)
  have d: "cur_type p \<noteq> TOKEN_EOF \<Longrightarrow> operand_result p (Some x, advance p)" for x :: LocOperand
    by (simp add: operand_result_def)
  have a: "operand_result p (None, advance (token_error p t m))" for t m
    using ps_moves_advance2 [OF ps_moves_error [OF ps_moves_refl]]
    by (auto simp: operand_result_def advance_def token_error_def)
  have m: "operand_result p (parse_mem_operand (advance p) t)" if "tok_type (cur p) = TOKEN_LBRACKET" for t
  proof -
    have r: "ps_remaining (advance p) < ps_remaining p" using that by (simp add: cur_type_def)
    show ?thesis
    proof (cases "cur_type (advance p) = TOKEN_EOF")
      case True
      then have "parse_mem_operand (advance p) t = fail_and_sync (parse_error (advance p) PARSE_MEM_BASE)"
        by (simp add: parse_mem_operand_def)
      then show ?thesis by (simp add: parse_error_def operand_fails)
    next
      case False
      note parse_mem_operand_result [OF this, of t]
      then show ?thesis
        using r ps_moves_trans [OF ps_moves_advance [of p]] by (auto simp: operand_result_def)
    qed
  qed
  show ?thesis
    using e [OF ps_moves_refl] e [OF ps_moves_advance] d a m
    by (auto simp: parse_operand_def Let_def cur_type_def replacement_error_def
        split: TokenType.split option.split)
qed

lemma parse_operand_remaining:
  "(Some k, p') = parse_operand p \<Longrightarrow> ps_remaining p' < ps_remaining p"
  using parse_operand_result [of p] by (auto simp: operand_result_def dest: sym)

section \<open>Lines\<close>

text \<open>The operands of a directive: commas are skipped wherever they stand.\<close>

function parse_directive_operands :: "Parser \<Rightarrow> Instruction \<Rightarrow> Instruction \<times> Parser" where
  "parse_directive_operands p instr =
     (if cur_type p = TOKEN_NEWLINE \<or> cur_type p = TOKEN_EOF then (instr, p)
      else if cur_type p = TOKEN_COMMA then parse_directive_operands (advance p) instr
      else if length (ops instr) \<ge> MAX_OPERANDS then
        (instr, sync_to_newline (parse_error p PARSE_TOO_MANY))
      else case parse_operand p of
          (None, p') \<Rightarrow> (instr, sync_to_newline p')
        | (Some op, p') \<Rightarrow> parse_directive_operands p' (instr\<lparr>ops := ops instr @ [op]\<rparr>))"
  by pat_completeness auto
termination by (relation "measure (\<lambda>(p, i). ps_remaining p)") (auto dest: parse_operand_remaining)

text \<open>The operands of an instruction, separated by commas; the flag is \<^verbatim>\<open>syntax_ok\<close>.\<close>

lemma expect_comma_moves: "ps_moves p (snd (expect_comma p))
    \<and> (\<not> fst (expect_comma p) \<longrightarrow> errors (ps_errors (snd (expect_comma p))) \<noteq> [])"
  by (simp add: expect_comma_def ps_moves_error)

lemma separator_remaining:
  assumes "(ok, p1) = (if c then expect_comma p else (True, p))" "(Some k, p') = parse_operand p1"
  shows "ps_remaining p' < ps_remaining p"
proof -
  have "ps_moves p p1" using assms(1) expect_comma_moves [of p] by (metis ps_moves_refl snd_conv)
  then show ?thesis using parse_operand_remaining [OF assms(2)] ps_moves_remaining [of p p1] by simp
qed

function parse_operands :: "Parser \<Rightarrow> Instruction \<Rightarrow> bool \<times> Instruction \<times> Parser" where
  "parse_operands p instr =
     (if cur_type p = TOKEN_NEWLINE \<or> cur_type p = TOKEN_EOF then (True, instr, p)
      else case (if ops instr \<noteq> [] then expect_comma p else (True, p)) of (ok, p1) \<Rightarrow>
        if \<not> ok then (False, instr, sync_to_newline p1)
        else if length (ops instr) \<ge> MAX_OPERANDS then
          (False, instr, sync_to_newline (parse_error p1 PARSE_TOO_MANY))
        else case parse_operand p1 of
            (None, p') \<Rightarrow> (False, instr, sync_to_newline p')
          | (Some op, p') \<Rightarrow> parse_operands p' (instr\<lparr>ops := ops instr @ [op]\<rparr>))"
  by pat_completeness auto
termination by (relation "measure (\<lambda>(p, i). ps_remaining p)") 
  (auto dest: parse_operand_remaining separator_remaining simp del: split_paired_All)

declare parse_directive_operands.simps [simp del] parse_operands.simps [simp del]

definition end_line :: "Parser \<Rightarrow> Parser" where
  "end_line p = (if cur_type p = TOKEN_NEWLINE then advance p else p)"

definition empty_instruction :: Instruction where
  "empty_instruction = \<lparr>opcode = OPCODE_INVALID, ops = [], label = None, directive = None,
     directive_kind = DIRECTIVE_NONE, line = 0, col = 0, end_col = 0, label_line = 0, label_col = 0,
     label_end_col = 0\<rparr>"

definition parse_directive_line :: "Parser \<Rightarrow> Instruction \<Rightarrow> Parser" where
  "parse_directive_line p instr =
     (let t = cur p; name = c_str (tok_value t);
          instr = instr\<lparr>directive := Some name, directive_kind := directive_lookup name\<rparr>
      in case directive_legacy_replacement name of
          Some replacement \<Rightarrow>
            end_line (sync_to_newline (replacement_error p t PARSE_DIRECTIVE_WORD replacement))
        | None \<Rightarrow> (case parse_directive_operands (advance p) instr of
            (instr, p) \<Rightarrow> push_instr (end_line p) instr))"

definition parse_instruction_line :: "Parser \<Rightarrow> Instruction \<Rightarrow> Parser" where
  "parse_instruction_line p instr =
     (let t = cur p; op = keywords_lookup (tok_value t); instr = instr\<lparr>opcode := op\<rparr> in
      if op = OPCODE_INVALID then
        end_line (sync_to_newline (token_error p t (unknown_mnemonic_message (tok_value t))))
      else let p = advance p; (min_ops, max_ops) = get_arity op;
               (syntax_ok, instr, p) = parse_operands p instr;
               p = (if syntax_ok then check_arity p instr min_ops max_ops else p)
           in push_instr (end_line p) instr)"

text \<open>A line that starts with neither a directive nor a mnemonic.\<close>

definition reject_line :: "Parser \<Rightarrow> Parser" where
  "reject_line p =
     (let t = cur p in
      end_line (sync_to_newline (case keywords_legacy_replacement (tok_value t) of
          Some replacement \<Rightarrow> replacement_error p t PARSE_MNEMONIC_WORD replacement
        | None \<Rightarrow> token_error p t (line_start_message (tok_value t) (tok_type t)))))"

definition parse_statement :: "Parser \<Rightarrow> Instruction \<Rightarrow> Parser" where
  "parse_statement p instr =
     (if cur_type p = TOKEN_DIRECTIVE then parse_directive_line p instr
      else if cur_type p \<noteq> TOKEN_MNEMONIC then reject_line p
      else parse_instruction_line p instr)"

definition parse_line :: "Parser \<Rightarrow> Parser" where
  "parse_line p =
     (let t = cur p in
      if tok_type t = TOKEN_EOF then p
      else if tok_type t = TOKEN_NEWLINE then advance p
      else let instr = set_instruction_span empty_instruction t in
        if tok_type t = TOKEN_LABEL_DEF then
          let instr = instr\<lparr>label := Some (c_str (tok_value t)), label_line := tok_line t,
                            label_col := tok_col t, label_end_col := tok_end_col t\<rparr>;
              p = advance p; t = cur p
          in if tok_type t = TOKEN_NEWLINE \<or> tok_type t = TOKEN_EOF then push_instr (end_line p) instr
             else parse_statement p (set_instruction_span instr t)
        else parse_statement p instr)"

section \<open>The whole token array\<close>

lemma ps_moves_end_line [simp]: "ps_moves p p' \<Longrightarrow> ps_moves p (end_line p')"
  by (simp add: end_line_def ps_moves_advance2)

lemma directive_operands_moves: "ps_moves p (snd (parse_directive_operands p instr))"
proof (induction p instr rule: parse_directive_operands.induct)
  case (1 p instr)
  have s: "ps_moves p (sync_to_newline (parse_error p m))" for m
    unfolding parse_error_def by (intro ps_moves_sync2 ps_moves_error ps_moves_refl)
  consider "cur_type p = TOKEN_NEWLINE \<or> cur_type p = TOKEN_EOF" | "cur_type p = TOKEN_COMMA"
    | "\<not> (cur_type p = TOKEN_NEWLINE \<or> cur_type p = TOKEN_EOF)" "cur_type p \<noteq> TOKEN_COMMA"
      "length (ops instr) \<ge> MAX_OPERANDS"
    | "\<not> (cur_type p = TOKEN_NEWLINE \<or> cur_type p = TOKEN_EOF)" "cur_type p \<noteq> TOKEN_COMMA"
      "\<not> length (ops instr) \<ge> MAX_OPERANDS" by blast
  then show ?case
  proof cases
    case 1
    then have "parse_directive_operands p instr = (instr, p)"
      by (simp add: parse_directive_operands.simps [of p])
    then show ?thesis by simp
  next
    case 2
    then have "parse_directive_operands p instr = parse_directive_operands (advance p) instr"
      by (simp add: parse_directive_operands.simps [of p])
    then show ?thesis using "1.IH"(1) 2 ps_moves_trans [OF ps_moves_advance] by simp
  next
    case 3
    then have "parse_directive_operands p instr = (instr, sync_to_newline (parse_error p PARSE_TOO_MANY))"
      by (simp add: parse_directive_operands.simps [of p])
    then show ?thesis using s by simp
  next
    case 4
    obtain k p' where o: "parse_operand p = (k, p')" by fastforce
    then have m: "ps_moves p p'" using parse_operand_result [of p] by (simp add: operand_result_def)
    then have "ps_moves p (sync_to_newline p')" using ps_moves_sync [of p'] ps_moves_trans by blast
    then show ?thesis
      using 4 o "1.IH"(2) [OF 4 o [symmetric]] ps_moves_trans [OF m]
      by (cases k) (simp_all add: parse_directive_operands.simps [of p])
  qed
qed

lemma operands_moves: "ps_moves p (snd (snd (parse_operands p instr)))
    \<and> (\<not> fst (parse_operands p instr) \<longrightarrow> errors (ps_errors (snd (snd (parse_operands p instr)))) \<noteq> [])"
proof (induction p instr rule: parse_operands.induct)
  case (1 p instr)
  show ?case
  proof (cases "cur_type p = TOKEN_NEWLINE \<or> cur_type p = TOKEN_EOF")
    case True
    then show ?thesis by (auto simp: parse_operands.simps [of p])
  next
    case False
    obtain ok p1 where c: "(if ops instr \<noteq> [] then expect_comma p else (True, p)) = (ok, p1)" by fastforce
    then have m1: "ps_moves p p1" "\<not> ok \<longrightarrow> errors (ps_errors p1) \<noteq> []"
      using expect_comma_moves [of p] by (auto split: if_splits)
    have s1: "ps_moves p (sync_to_newline p1)" using ps_moves_sync [of p1] ps_moves_trans m1(1) by blast
    have e1: "ps_moves p (sync_to_newline (parse_error p1 m))" for m
      unfolding parse_error_def by (intro ps_moves_sync2 ps_moves_error m1(1))
    have e2: "errors (ps_errors (sync_to_newline (parse_error p1 m))) \<noteq> []" for m
      using ps_moves_sync [of "parse_error p1 m"] by (simp add: parse_error_def)
    have s2: "errors (ps_errors (sync_to_newline p1)) \<noteq> []" if "\<not> ok"
      using ps_moves_sync [of p1] m1(2) that by simp
    obtain k p2 where o: "parse_operand p1 = (k, p2)" by fastforce
    then have m2: "ps_moves p p2" "k = None \<longrightarrow> errors (ps_errors p2) \<noteq> []"
      using parse_operand_result [of p1] ps_moves_trans [OF m1(1)] by (auto simp: operand_result_def)
    have s3: "ps_moves p (sync_to_newline p2)" using ps_moves_sync [of p2] ps_moves_trans m2(1) by blast
    have s4: "errors (ps_errors (sync_to_newline p2)) \<noteq> []" if "k = None"
      using ps_moves_sync [of p2] m2(2) that by simp
    show ?thesis
    proof (cases "ok \<and> \<not> MAX_OPERANDS \<le> length (ops instr) \<and> k \<noteq> None")
      case True
      then obtain op where k: "k = Some op" by blast
      have "parse_operands p instr = parse_operands p2 (instr\<lparr>ops := ops instr @ [op]\<rparr>)"
        using False c o True k by (simp add: parse_operands.simps [of p instr])
      then show ?thesis
        using 1 [OF False c [symmetric] _ _ o [symmetric] k] True ps_moves_trans [OF m2(1)] by simp
    next
      case fail: False
      then show ?thesis
        using False c o s1 s2 s3 s4 e1 e2
        by (auto simp: parse_operands.simps [of p instr] split: option.splits)
    qed
  qed
qed

text \<open>A line: the same without the output, and always a token further.\<close>

definition ps_steps :: "Parser \<Rightarrow> Parser \<Rightarrow> bool" where
  "ps_steps p p' \<longleftrightarrow> ps_tokens p' = ps_tokens p \<and> ps_src_name p' = ps_src_name p
     \<and> ps_pos p \<le> ps_pos p' \<and> (ps_inside p \<longrightarrow> ps_inside p')
     \<and> (errors (ps_errors p') = [] \<longrightarrow> ps_errors p' = ps_errors p)"

lemma ps_steps_trans: "ps_steps a b \<Longrightarrow> ps_steps b c \<Longrightarrow> ps_steps a c"
  unfolding ps_steps_def by auto

lemma ps_moves_steps: "ps_moves p p' \<Longrightarrow> ps_steps p p'"
  by (simp add: ps_moves_def ps_steps_def)

lemma ps_steps_push [simp]: "ps_steps p (push_instr p' i) = ps_steps p p'"
  by (auto simp: ps_steps_def push_instr_def ps_inside_def)

lemma ps_remaining_push [simp]: "ps_remaining (push_instr p i) = ps_remaining p"
  by (simp add: ps_remaining_def push_instr_def)

lemma ps_remaining_moves: "ps_moves p p' \<Longrightarrow> ps_remaining p < n \<Longrightarrow> ps_remaining p' < n"
  using ps_moves_remaining by fastforce

text \<open>Skipping the rest of a line that does not begin with its end.\<close>

lemma skip_line_progress:
  assumes "ps_moves p p'" "cur_type p' \<noteq> TOKEN_EOF" "cur_type p' \<noteq> TOKEN_NEWLINE" "ps_remaining p' \<le> ps_remaining p"
  shows "ps_moves p (end_line (sync_to_newline p')) \<and> ps_remaining (end_line (sync_to_newline p')) < ps_remaining p"
proof -
  have m: "ps_moves (advance p') (end_line (sync_to_newline (advance p')))"
    by (intro ps_moves_end_line ps_moves_sync2 ps_moves_refl)
  have s: "sync_to_newline p' = sync_to_newline (advance p')"
    using assms by (simp add: sync_to_newline.simps [of p'])
  have "ps_remaining (advance p') < ps_remaining p" using advance_remaining [OF assms(2)] assms(4) by linarith
  from ps_remaining_moves [OF m this] show ?thesis
    using assms(1) m unfolding s by (auto intro: ps_moves_trans ps_moves_advance2)
qed

lemma check_arity_moves: "ps_moves p p' \<Longrightarrow> ps_moves p (check_arity p' i a b)"
  by (auto simp: check_arity_def Let_def instruction_error_def ps_moves_def ps_inside_def)

lemma parse_directive_line_steps:
  assumes "cur_type p \<noteq> TOKEN_EOF" "cur_type p \<noteq> TOKEN_NEWLINE"
  shows "ps_steps p (parse_directive_line p i) \<and> ps_remaining (parse_directive_line p i) < ps_remaining p"
proof -
  let ?name = "c_str (tok_value (cur p))"
  have l: "ps_steps p (end_line (sync_to_newline (token_error p (cur p) m)))
      \<and> ps_remaining (end_line (sync_to_newline (token_error p (cur p) m))) < ps_remaining p" for m
    using skip_line_progress [OF ps_moves_error [OF ps_moves_refl], of p "cur p" m] assms ps_moves_steps by simp
  obtain i' p' where o: "parse_directive_operands (advance p)
      (i\<lparr>directive := Some ?name, directive_kind := directive_lookup ?name\<rparr>) = (i', p')" by fastforce
  then have m: "ps_moves (advance p) p'"
    using directive_operands_moves by (metis snd_conv)
  have "ps_moves p (end_line p')" using ps_moves_trans [OF ps_moves_advance m] by (rule ps_moves_end_line)
  moreover have "ps_remaining (end_line p') < ps_remaining p"
    using ps_remaining_moves [OF ps_moves_end_line [OF m] advance_remaining [OF assms(1)]] .
  ultimately show ?thesis
    using l o ps_moves_steps
    by (auto simp: parse_directive_line_def Let_def replacement_error_def split: option.split)
qed

lemma parse_instruction_line_steps:
  assumes "cur_type p \<noteq> TOKEN_EOF" "cur_type p \<noteq> TOKEN_NEWLINE"
  shows "ps_steps p (parse_instruction_line p i) \<and> ps_remaining (parse_instruction_line p i) < ps_remaining p"
proof -
  let ?op = "keywords_lookup (tok_value (cur p))"
  have l: "ps_steps p (end_line (sync_to_newline (token_error p (cur p) m)))
      \<and> ps_remaining (end_line (sync_to_newline (token_error p (cur p) m))) < ps_remaining p" for m
    using skip_line_progress [OF ps_moves_error [OF ps_moves_refl], of p "cur p" m] assms ps_moves_steps by simp
  obtain ok i' p' where o: "parse_operands (advance p) (i\<lparr>opcode := ?op\<rparr>) = (ok, i', p')" by (metis prod_cases3)
  then have m: "ps_moves (advance p) p'" using operands_moves by (metis snd_conv)
  then have c: "ps_moves (advance p) (check_arity p' i' a b)" for a b by (rule check_arity_moves)
  have s: "ps_steps p (end_line q) \<and> ps_remaining (end_line q) < ps_remaining p" if "ps_moves (advance p) q" for q
    using ps_moves_steps [OF ps_moves_trans [OF ps_moves_advance ps_moves_end_line [OF that]]]
      ps_remaining_moves [OF ps_moves_end_line [OF that] advance_remaining [OF assms(1)]] by simp
  show ?thesis
    using l o s [OF m] s [OF c]
    by (auto simp: parse_instruction_line_def Let_def split: prod.split)
qed

lemma parse_statement_steps:
  assumes "cur_type p \<noteq> TOKEN_EOF" "cur_type p \<noteq> TOKEN_NEWLINE"
  shows "ps_steps p (parse_statement p i) \<and> ps_remaining (parse_statement p i) < ps_remaining p"
proof -
  have "ps_steps p (reject_line p) \<and> ps_remaining (reject_line p) < ps_remaining p"
    using skip_line_progress [OF ps_moves_error [OF ps_moves_refl], of p "cur p"] assms ps_moves_steps
    by (simp add: reject_line_def Let_def replacement_error_def split: option.split)
  then show ?thesis
    using parse_directive_line_steps [OF assms] parse_instruction_line_steps [OF assms]
    by (simp add: parse_statement_def)
qed

lemma parse_line_steps:
  assumes "cur_type p \<noteq> TOKEN_EOF"
  shows "ps_steps p (parse_line p) \<and> ps_remaining (parse_line p) < ps_remaining p"
proof -
  have a: "ps_steps p (advance p)" "ps_remaining (advance p) < ps_remaining p"
    using assms ps_moves_steps [OF ps_moves_advance] by simp_all
  have e: "ps_steps p (end_line (advance p))" "ps_remaining (end_line (advance p)) < ps_remaining p"
    using ps_moves_steps [OF ps_moves_end_line [OF ps_moves_advance]]
      ps_remaining_moves [OF ps_moves_end_line [OF ps_moves_refl] a(2)] by simp_all
  have s: "ps_steps p (parse_statement (advance p) i)" "ps_remaining (parse_statement (advance p) i) < ps_remaining p"
    if "cur_type (advance p) \<noteq> TOKEN_EOF" "cur_type (advance p) \<noteq> TOKEN_NEWLINE" for i
    using parse_statement_steps [OF that, of i] ps_steps_trans [OF a(1)] a(2) by simp_all
  show ?thesis
    using assms a e s parse_statement_steps [of p]
    by (auto simp: parse_line_def Let_def cur_type_def)
qed

lemma skip_newlines_moves: "ps_moves p (skip_newlines p) \<and> ps_errors (skip_newlines p) = ps_errors p
    \<and> cur_type (skip_newlines p) \<noteq> TOKEN_NEWLINE"
proof (induction p rule: skip_newlines.induct)
  case (1 p)
  then show ?case
    using ps_moves_trans [OF ps_moves_advance, of p "skip_newlines (advance p)"]
    by (cases "cur_type p = TOKEN_NEWLINE")
      (simp_all add: skip_newlines.simps [of p], simp add: advance_def)
qed

lemma line_remaining [simp]:
  "cur_type p \<noteq> TOKEN_EOF \<Longrightarrow> ps_remaining (skip_newlines (parse_line p)) < ps_remaining p"
  using parse_line_steps [of p] skip_newlines_moves [of "parse_line p"] ps_remaining_moves by blast

function parse_lines :: "Parser \<Rightarrow> Parser" where
  "parse_lines p = (if cur_type p \<noteq> TOKEN_EOF then parse_lines (skip_newlines (parse_line p)) else p)"
  by pat_completeness auto
termination by (relation "measure ps_remaining") simp_all

declare parse_lines.simps [simp del]

record ParseResult =
  pr_instructions :: InstructionList
  pr_errors :: "cstr ErrorList"

definition parser_start :: "TokenArray \<Rightarrow> Parser" where
  "parser_start ta =
     \<lparr>ps_tokens = ta_tokens ta, ps_pos = 0,
      ps_errors = error_list_set_source error_list_init (ta_source_name ta) (Some (ta_source_data ta)),
      ps_out = [],
      ps_src_name = (case ta_source_name ta of Some n \<Rightarrow> n | None \<Rightarrow> ascii ''unknown'')\<rparr>"

definition parser_parse :: "TokenArray \<Rightarrow> ParseResult" where
  "parser_parse ta =
     (let p = parse_lines (skip_newlines (parser_start ta)) in
      \<lparr>pr_instructions = \<lparr>instrs = ps_out p, source_name = ta_source_name ta,
         source_data = Some (ta_source_data ta)\<rparr>,
       pr_errors = ps_errors p\<rparr>)"

end
