(* ===== verification/Parser_Facts.thy ===== *)
theory Parser_Facts
  imports Parser Lexer_Facts
begin

text \<open>
  What the parser promises the passes: the shape of every instruction it pushes, the operand counts
  when it reports nothing, and that it reads the token array to its end and never past it.
\<close>

section \<open>Shape of instructions\<close>

definition operand_ok :: "Token set \<Rightarrow> Operand \<Rightarrow> bool" where
  "operand_ok ts k \<longleftrightarrow> (case k of
      OP_NONE \<Rightarrow> False
    | OP_REG r \<Rightarrow> r \<noteq> REG_INVALID
    | OP_MEM_REG r \<Rightarrow> r \<noteq> REG_INVALID \<and> reg_width_bits r = 64
    | OP_MEM_DISP r d \<Rightarrow> r \<noteq> REG_INVALID \<and> reg_width_bits r = 64
    | OP_STRING s \<Rightarrow> (\<exists>t \<in> ts. tok_type t = TOKEN_STRING \<and> tok_value t = s)
    | _ \<Rightarrow> True)"

definition ops_ok :: "Token set \<Rightarrow> LocOperand list \<Rightarrow> bool" where
  "ops_ok ts os \<longleftrightarrow> length os \<le> MAX_OPERANDS \<and> (\<forall>o' \<in> set os. operand_ok ts (opnd o'))"

definition arity_ok :: "Instruction \<Rightarrow> bool" where
  "arity_ok i \<longleftrightarrow> opcode i \<noteq> OPCODE_INVALID \<longrightarrow>
     fst (get_arity (opcode i)) \<le> int (length (ops i)) \<and> int (length (ops i)) \<le> snd (get_arity (opcode i))"

definition instr_ok :: "Token set \<Rightarrow> Instruction \<Rightarrow> bool" where
  "instr_ok ts i \<longleftrightarrow> ops_ok ts (ops i)
     \<and> (directive i = None \<longleftrightarrow> directive_kind i = DIRECTIVE_NONE)
     \<and> (directive i \<noteq> None \<longrightarrow> opcode i = OPCODE_INVALID)
     \<and> (opcode i = OPCODE_INVALID \<and> directive i = None \<longrightarrow> ops i = [] \<and> label i \<noteq> None)"

lemma directive_lookup_kind: "directive_lookup s \<noteq> DIRECTIVE_NONE"
proof -
  have n: "DIRECTIVE_NONE \<notin> set (map snd DIRECTIVE_TABLE)" by (simp add: DIRECTIVE_TABLE_def)
  show ?thesis
  proof (cases "map_of DIRECTIVE_TABLE s")
    case (Some k)
    then have "k \<in> set (map snd DIRECTIVE_TABLE)" by (intro in_snd map_of_SomeD)
    then have "k \<noteq> DIRECTIVE_NONE" using n by metis
    then show ?thesis using Some by (simp add: directive_lookup_def)
  qed (simp add: directive_lookup_def)
qed

lemma register_operand:
  assumes "\<not> lexer_register_id s < 0"
  shows "reg_of_code (nat (lexer_register_id s)) \<noteq> REG_INVALID"
proof -
  have "REG_INVALID \<notin> set all_regs" by (simp add: all_regs_def)
  moreover have "nat (lexer_register_id s) < 80"
  proof (cases s rule: register_cases)
    case 1
    then show ?thesis using assms by (simp add: lexer_register_id_def)
  next
    case (2 r)
    have "int (reg_code r) \<in> set (map snd REG_TABLE)" unfolding register_numbers using 2(1) by simp
    then have "reg_code r \<in> set (map reg_code all_regs)" unfolding register_ids by auto
    moreover have "list_all (\<lambda>n. n < 80) (map reg_code all_regs)" by (simp add: all_regs_def)
    ultimately have "reg_code r < 80" unfolding list_all_iff by blast
    then show ?thesis using 2(2) by (simp add: lexer_register_id_def)
  qed
  ultimately show ?thesis by (metis length_all_regs nth_mem reg_of_code_def)
qed

lemma cur_member: "cur_type p \<noteq> TOKEN_EOF \<Longrightarrow> cur p \<in> set (ps_tokens p)"
  by (auto simp: cur_type_def cur_def make_token_def split: if_splits)

lemma set_memory_displacement_kind:
  "set_memory_displacement p b d t = (Some k, p') \<Longrightarrow> \<exists>w. k = OP_MEM_DISP b w"
  by (auto simp: set_memory_displacement_def split: if_splits)

lemma parse_mem_displacement_kind:
  "parse_mem_displacement p b = (Some k, p') \<Longrightarrow> k = OP_MEM_REG b \<or> (\<exists>w. k = OP_MEM_DISP b w)"
  by (auto simp: parse_mem_displacement_def Let_def fail_and_sync_def split: if_splits
      dest: set_memory_displacement_kind)

lemma parse_operand_ok:
  assumes "parse_operand p = (Some k, p')"
  shows "operand_ok (set (ps_tokens p)) (opnd k)"
proof -
  have base: "operand_ok ts (opnd k)" if "parse_base_operand q t = (Some k, p')" for q t ts
    using that register_operand
    by (auto simp: parse_base_operand_def Let_def fail_and_sync_def spanning_def operand_ok_def
        split: if_splits prod.splits option.splits dest!: parse_mem_displacement_kind)
  have rip: "operand_ok ts (opnd k)" if "parse_rip_operand q t = (Some k, p')" for q t ts
    using that by (auto simp: parse_rip_operand_def Let_def fail_and_sync_def spanning_def operand_ok_def
        split: if_splits)
  have mem: "operand_ok ts (opnd k)" if "parse_mem_operand q t = (Some k, p')" for q t ts
    using that base rip by (auto simp: parse_mem_operand_def fail_and_sync_def split: if_splits option.splits)
  show ?thesis
    using assms mem register_operand cur_member [of p]
    by (auto simp: parse_operand_def Let_def spanning_def operand_ok_def cur_type_def
        split: TokenType.splits if_splits option.splits)
qed

lemma ops_ok_snoc:
  "ops_ok ts os \<Longrightarrow> \<not> MAX_OPERANDS \<le> length os \<Longrightarrow> operand_ok ts (opnd k) \<Longrightarrow> ops_ok ts (os @ [k])"
  by (auto simp: ops_ok_def)

lemma parse_directive_operands_ok:
  "\<exists>os. fst (parse_directive_operands p instr) = instr\<lparr>ops := os\<rparr>
     \<and> (ops_ok (set (ps_tokens p)) (ops instr) \<longrightarrow> ops_ok (set (ps_tokens p)) os)"
proof (induction p instr rule: parse_directive_operands.induct)
  case (1 p instr)
  have same: "\<exists>os. instr = instr\<lparr>ops := os\<rparr>
      \<and> (ops_ok (set (ps_tokens p)) (ops instr) \<longrightarrow> ops_ok (set (ps_tokens p)) os)"
    by (rule exI [of _ "ops instr"]) simp
  consider "cur_type p = TOKEN_NEWLINE \<or> cur_type p = TOKEN_EOF" | "cur_type p = TOKEN_COMMA"
    | "\<not> (cur_type p = TOKEN_NEWLINE \<or> cur_type p = TOKEN_EOF)" "cur_type p \<noteq> TOKEN_COMMA"
      "length (ops instr) \<ge> MAX_OPERANDS"
    | "\<not> (cur_type p = TOKEN_NEWLINE \<or> cur_type p = TOKEN_EOF)" "cur_type p \<noteq> TOKEN_COMMA"
      "\<not> length (ops instr) \<ge> MAX_OPERANDS" by blast
  then show ?case
  proof cases
    case 1
    then show ?thesis using same by (simp add: parse_directive_operands.simps [of p])
  next
    case 2
    then show ?thesis using "1.IH"(1)
      by (simp add: parse_directive_operands.simps [of p]) (simp add: advance_def)
  next
    case 3
    then show ?thesis using same by (simp add: parse_directive_operands.simps [of p])
  next
    case 4
    show ?thesis
    proof (cases "parse_operand p")
      case (Pair k p')
      show ?thesis
      proof (cases k)
        case None
        then show ?thesis using 4 Pair same by (simp add: parse_directive_operands.simps [of p])
      next
        case (Some op)
        have t: "ps_tokens p' = ps_tokens p"
          using parse_operand_result [of p] Pair by (simp add: operand_result_def ps_moves_def)
        have "operand_ok (set (ps_tokens p)) (opnd op)" using parse_operand_ok Pair Some by simp
        then have "ops_ok (set (ps_tokens p)) (ops instr) \<longrightarrow> ops_ok (set (ps_tokens p)) (ops instr @ [op])"
          using 4(3) ops_ok_snoc by blast
        then show ?thesis
          using "1.IH"(2) [OF 4 Pair [symmetric] Some] 4 Pair Some t
          by (auto simp: parse_directive_operands.simps [of p])
      qed
    qed
  qed
qed

lemma parse_operands_ok:
  "\<exists>os. fst (snd (parse_operands p instr)) = instr\<lparr>ops := os\<rparr>
     \<and> (ops_ok (set (ps_tokens p)) (ops instr) \<longrightarrow> ops_ok (set (ps_tokens p)) os)"
proof (induction p instr rule: parse_operands.induct)
  case (1 p instr)
  have same: "\<exists>os. instr = instr\<lparr>ops := os\<rparr>
      \<and> (ops_ok (set (ps_tokens p)) (ops instr) \<longrightarrow> ops_ok (set (ps_tokens p)) os)"
    by (rule exI [of _ "ops instr"]) simp
  obtain ok p1 where c: "(if ops instr \<noteq> [] then expect_comma p else (True, p)) = (ok, p1)" by fastforce
  obtain k p2 where o: "parse_operand p1 = (k, p2)" by fastforce
  have "ps_moves p p1" using c expect_comma_moves [of p] by (auto split: if_splits)
  moreover have "ps_moves p1 p2" using o parse_operand_result [of p1] by (simp add: operand_result_def)
  ultimately have t: "ps_tokens p1 = ps_tokens p" "ps_tokens p2 = ps_tokens p" by (simp_all add: ps_moves_def)
  show ?case
  proof (cases "cur_type p = TOKEN_NEWLINE \<or> cur_type p = TOKEN_EOF")
    case True
    then show ?thesis using same by (simp add: parse_operands.simps [of p])
  next
    case False
    show ?thesis
    proof (cases "ok \<and> \<not> MAX_OPERANDS \<le> length (ops instr) \<and> k \<noteq> None")
      case True
      then obtain op where k: "k = Some op" by blast
      have u: "parse_operands p instr = parse_operands p2 (instr\<lparr>ops := ops instr @ [op]\<rparr>)"
        using False c o True k by (simp add: parse_operands.simps [of p instr])
      have "operand_ok (set (ps_tokens p)) (opnd op)" using parse_operand_ok [of p1] o k t by simp
      then have "ops_ok (set (ps_tokens p)) (ops instr) \<longrightarrow> ops_ok (set (ps_tokens p)) (ops instr @ [op])"
        using True ops_ok_snoc by blast
      then show ?thesis
        using 1 [OF False c [symmetric] _ _ o [symmetric] k] True t unfolding u by auto
    next
      case fail: False
      then have "fst (snd (parse_operands p instr)) = instr"
        using False c o by (auto simp: parse_operands.simps [of p instr] split: option.splits)
      then show ?thesis using same by simp
    qed
  qed
qed

section \<open>The instruction a line pushes\<close>

definition line_pushes :: "Parser \<Rightarrow> Parser \<Rightarrow> bool" where
  "line_pushes p p' \<longleftrightarrow> ps_out p' = ps_out p \<or> (\<exists>i. ps_out p' = ps_out p @ [i]
     \<and> instr_ok (set (ps_tokens p)) i \<and> (errors (ps_errors p') = [] \<longrightarrow> arity_ok i))"

lemma line_pushes_moves: "ps_moves p p' \<Longrightarrow> line_pushes p p'"
  by (simp add: line_pushes_def ps_moves_def)

lemma line_pushes_push:
  assumes "ps_moves p p'" "instr_ok (set (ps_tokens p)) i" "errors (ps_errors p') = [] \<longrightarrow> arity_ok i"
  shows "line_pushes p (push_instr p' i)"
  using assms by (simp add: line_pushes_def ps_moves_def push_instr_def)

definition fresh :: "Instruction \<Rightarrow> bool" where
  "fresh i \<longleftrightarrow> ops i = [] \<and> opcode i = OPCODE_INVALID \<and> directive i = None \<and> directive_kind i = DIRECTIVE_NONE"

lemma parse_directive_line_pushes:
  assumes "fresh i"
  shows "line_pushes p (parse_directive_line p i)"
proof -
  let ?name = "c_str (tok_value (cur p))"
  let ?i = "i\<lparr>directive := Some ?name, directive_kind := directive_lookup ?name\<rparr>"
  have l: "line_pushes p (end_line (sync_to_newline (token_error p t m)))" for t m
    by (intro line_pushes_moves ps_moves_end_line ps_moves_sync2 ps_moves_error ps_moves_refl)
  obtain i' p' where o: "parse_directive_operands (advance p) ?i = (i', p')" by fastforce
  have t: "ps_tokens (advance p) = ps_tokens p" by (simp add: advance_def)
  have "ps_moves (advance p) p'" using o directive_operands_moves [of "advance p" ?i] by simp
  then have m: "ps_moves p (end_line p')" by (rule ps_moves_end_line [OF ps_moves_trans [OF ps_moves_advance]])
  have "instr_ok (set (ps_tokens p)) i'"
    using parse_directive_operands_ok [of "advance p" ?i] assms o directive_lookup_kind
    by (auto simp: instr_ok_def fresh_def t ops_ok_def)
  moreover have "arity_ok i'"
    using parse_directive_operands_ok [of "advance p" ?i] assms o by (auto simp: arity_ok_def fresh_def)
  ultimately have "line_pushes p (push_instr (end_line p') i')" by (intro line_pushes_push m) simp_all
  then show ?thesis
    using l o by (auto simp: parse_directive_line_def Let_def replacement_error_def split: option.split)
qed

lemma check_arity_ok:
  "errors (ps_errors (check_arity p i (fst (get_arity (opcode i))) (snd (get_arity (opcode i))))) = [] \<Longrightarrow> arity_ok i"
  by (auto simp: check_arity_def Let_def arity_ok_def instruction_error_def split: if_splits)

lemma end_line_errors [simp]: "ps_errors (end_line p) = ps_errors p"
  by (simp add: end_line_def advance_def)

lemma parse_instruction_line_pushes:
  assumes "fresh i"
  shows "line_pushes p (parse_instruction_line p i)"
proof -
  let ?op = "keywords_lookup (tok_value (cur p))"
  obtain ok i' p' where o: "parse_operands (advance p) (i\<lparr>opcode := ?op\<rparr>) = (ok, i', p')" by (metis prod_cases3)
  have t: "ps_tokens (advance p) = ps_tokens p" by (simp add: advance_def)
  let ?p = "if ok then check_arity p' i' (fst (get_arity ?op)) (snd (get_arity ?op)) else p'"
  have m': "ps_moves (advance p) p'" and e: "\<not> ok \<longrightarrow> errors (ps_errors p') \<noteq> []"
    using o operands_moves [of "advance p" "i\<lparr>opcode := ?op\<rparr>"] by simp_all
  have m: "ps_moves p (end_line ?p)"
    using ps_moves_trans [OF ps_moves_advance m'] check_arity_moves by (intro ps_moves_end_line) simp
  obtain os where os: "i' = i\<lparr>opcode := ?op, ops := os\<rparr>" "ops_ok (set (ps_tokens p)) os"
    using parse_operands_ok [of "advance p" "i\<lparr>opcode := ?op\<rparr>"] assms o
    by (auto simp: t fresh_def ops_ok_def)
  show ?thesis
  proof (cases "?op = OPCODE_INVALID")
    case True
    have "line_pushes p (end_line (sync_to_newline (token_error p q m)))" for q m
      by (intro line_pushes_moves ps_moves_end_line ps_moves_sync2 ps_moves_error ps_moves_refl)
    then show ?thesis using True by (simp add: parse_instruction_line_def Let_def)
  next
    case False
    have "instr_ok (set (ps_tokens p)) i'" using os False assms by (simp add: instr_ok_def fresh_def)
    moreover have "errors (ps_errors (end_line ?p)) = [] \<longrightarrow> arity_ok i'"
      using e check_arity_ok [of p' i'] os(1) by auto
    ultimately have "line_pushes p (push_instr (end_line ?p) i')" by (intro line_pushes_push m)
    then show ?thesis
      using False o by (cases ok) (simp_all add: parse_instruction_line_def Let_def case_prod_unfold)
  qed
qed

lemma parse_statement_pushes:
  assumes "fresh i"
  shows "line_pushes p (parse_statement p i)"
proof -
  have "line_pushes p (end_line (sync_to_newline (token_error p t m)))" for t m
    by (intro line_pushes_moves ps_moves_end_line ps_moves_sync2 ps_moves_error ps_moves_refl)
  then have "line_pushes p (reject_line p)"
    by (simp add: reject_line_def Let_def replacement_error_def split: option.split)
  then show ?thesis
    using parse_directive_line_pushes [OF assms] parse_instruction_line_pushes [OF assms]
    by (simp add: parse_statement_def)
qed

lemma fresh_updates [simp]:
  "fresh (set_instruction_span i t) = fresh i"
  "fresh (i\<lparr>label := l, label_line := a, label_col := b, label_end_col := c\<rparr>) = fresh i"
  "fresh empty_instruction"
  by (simp_all add: fresh_def set_instruction_span_def empty_instruction_def)

lemma parse_line_pushes: "line_pushes p (parse_line p)"
proof -
  let ?t = "cur p"
  let ?i = "set_instruction_span empty_instruction ?t\<lparr>label := Some (c_str (tok_value ?t)),
    label_line := tok_line ?t, label_col := tok_col ?t, label_end_col := tok_end_col ?t\<rparr>"
  have t: "ps_tokens (advance p) = ps_tokens p" "ps_out (advance p) = ps_out p" by (simp_all add: advance_def)
  have l: "line_pushes p (push_instr (end_line (advance p)) ?i)"
    by (intro line_pushes_push ps_moves_end_line ps_moves_advance)
      (simp_all add: instr_ok_def ops_ok_def arity_ok_def set_instruction_span_def empty_instruction_def)
  have s: "line_pushes p (parse_statement (advance p) (set_instruction_span ?i u))" for u
    using parse_statement_pushes [of "set_instruction_span ?i u" "advance p"] t
    by (simp add: line_pushes_def)
  show ?thesis
    using l s parse_statement_pushes [of "set_instruction_span empty_instruction ?t" p]
      line_pushes_moves [OF ps_moves_refl] line_pushes_moves [OF ps_moves_advance]
    by (simp add: parse_line_def Let_def)
qed

section \<open>The whole array\<close>

definition parser_inv :: "Token list \<Rightarrow> Parser \<Rightarrow> bool" where
  "parser_inv ts p \<longleftrightarrow> ps_tokens p = ts \<and> ps_inside p
     \<and> (\<forall>i \<in> set (ps_out p). instr_ok (set ts) i \<and> (errors (ps_errors p) = [] \<longrightarrow> arity_ok i))"

lemma parser_inv_moves: "parser_inv ts p \<Longrightarrow> ps_moves p p' \<Longrightarrow> parser_inv ts p'"
  by (auto simp: parser_inv_def ps_moves_def)

lemma parser_inv_line:
  assumes "parser_inv ts p" "cur_type p \<noteq> TOKEN_EOF"
  shows "parser_inv ts (parse_line p)"
  using assms(1) parse_line_steps [OF assms(2)] parse_line_pushes [of p]
  by (auto simp: parser_inv_def ps_steps_def line_pushes_def)

lemma parse_lines_inv:
  "parser_inv ts p \<Longrightarrow> parser_inv ts (parse_lines p) \<and> cur_type (parse_lines p) = TOKEN_EOF"
proof (induction p rule: parse_lines.induct)
  case (1 p)
  show ?case
  proof (cases "cur_type p = TOKEN_EOF")
    case False
    have "parser_inv ts (skip_newlines (parse_line p))"
      using parser_inv_moves [OF parser_inv_line [OF 1(2) False]] skip_newlines_moves [of "parse_line p"] by simp
    then show ?thesis using 1(1) [OF False] False by (simp add: parse_lines.simps [of p])
  qed (use 1(2) in \<open>simp add: parse_lines.simps [of p]\<close>)
qed

lemma parser_parse_facts:
  assumes "ta_tokens ta \<noteq> []" "tok_type (last (ta_tokens ta)) = TOKEN_EOF"
  obtains p where "parser_inv (ta_tokens ta) p" "cur_type p = TOKEN_EOF"
    "p = parse_lines (skip_newlines (parser_start ta))"
proof -
  have "parser_inv (ta_tokens ta) (parser_start ta)"
    using assms by (simp add: parser_inv_def parser_start_def ps_inside_def)
  then have "parser_inv (ta_tokens ta) (skip_newlines (parser_start ta))"
    by (rule parser_inv_moves) (simp add: skip_newlines_moves)
  from parse_lines_inv [OF this] show ?thesis
    using that [of "parse_lines (skip_newlines (parser_start ta))"] by simp
qed

text \<open>The tokens of the lexer end with their only end-of-file token.\<close>

lemma lexer_tokens_end:
  obtains ts t where "ta_tokens (lr_tokens (lexer_lex src)) = ts @ [t]" "tok_type t = TOKEN_EOF"
    "\<forall>u \<in> set ts. tok_type u \<noteq> TOKEN_EOF"
proof -
  obtain lx where lx: "lex_all (lexer_start src)
      = push_token_value lx TOKEN_EOF [] (lx_line lx) (lx_col lx) (lx_col lx)" "wf_lexer lx"
    by (rule lexer_lex_facts)
  show ?thesis
    by (rule that [of "lx_out lx" "make_token TOKEN_EOF [] (lx_line lx) (lx_col lx) (lx_col lx)"])
      (use lx in \<open>auto simp: lexer_lex_def Let_def wf_lexer_def make_token_def\<close>)
qed

text \<open>
  C34. On the tokens of the lexer the parser stops exactly at the end-of-file token: it consumes
  every token before it and its index never leaves the array.
\<close>

theorem parser_reads_all_tokens:
  "ps_pos (parse_lines (skip_newlines (parser_start (lr_tokens (lexer_lex src)))))
     = length (ta_tokens (lr_tokens (lexer_lex src))) - 1"
proof -
  obtain ts t where e: "ta_tokens (lr_tokens (lexer_lex src)) = ts @ [t]" "tok_type t = TOKEN_EOF"
    "\<forall>u \<in> set ts. tok_type u \<noteq> TOKEN_EOF" by (rule lexer_tokens_end)
  then obtain p where p: "parser_inv (ts @ [t]) p" "cur_type p = TOKEN_EOF"
    "p = parse_lines (skip_newlines (parser_start (lr_tokens (lexer_lex src))))"
    using parser_parse_facts [of "lr_tokens (lexer_lex src)"] by auto
  have q: "ps_tokens p = ts @ [t]" "ps_pos p < length (ts @ [t])"
    using p(1) by (auto simp: parser_inv_def ps_inside_def)
  then have "tok_type ((ts @ [t]) ! ps_pos p) = TOKEN_EOF"
    using p(2) by (simp add: cur_type_def cur_def)
  then have "ps_pos p = length ts" using e(3) q(2) by (auto simp: nth_append split: if_splits)
  then show ?thesis using e(1) p(3) by simp
qed

lemma parser_shape:
  assumes "ta_tokens ta \<noteq> []" "tok_type (last (ta_tokens ta)) = TOKEN_EOF"
    "i \<in> set (instrs (pr_instructions (parser_parse ta)))"
  shows "instr_ok (set (ta_tokens ta)) i
    \<and> (errors (pr_errors (parser_parse ta)) = [] \<longrightarrow> arity_ok i)"
proof -
  obtain p where "parser_inv (ta_tokens ta) p" "p = parse_lines (skip_newlines (parser_start ta))"
    using parser_parse_facts [OF assms(1,2)] by metis
  then show ?thesis using assms(3) by (simp add: parser_inv_def parser_parse_def Let_def)
qed

text \<open>
  C35. Every instruction the parser pushes has at most three operands, each with a real register and
  a 64-bit base where it addresses memory; it is a directive, or an opcode, or a bare label, and
  never two of them. When the parser reports no error, every opcode has a number of operands its
  arity table allows.
\<close>

theorem parser_instructions_well_shaped:
  assumes "ta_tokens ta \<noteq> []" "tok_type (last (ta_tokens ta)) = TOKEN_EOF"
    "i \<in> set (instrs (pr_instructions (parser_parse ta)))"
  shows "instr_ok (set (ta_tokens ta)) i
    \<and> (errors (pr_errors (parser_parse ta)) = [] \<longrightarrow> arity_ok i)"
  by (rule parser_shape [OF assms])

definition sample_tokens :: TokenArray where
  "sample_tokens = \<lparr>ta_tokens = [make_token TOKEN_LABEL_DEF [0x61] 1 1 2, make_token TOKEN_EOF [] 1 3 3],
     ta_source_name = None, ta_source_data = [0x61, 0x3A]\<rparr>"

theorem parser_instructions_well_shaped_witness:
  "instr_ok (set (ta_tokens sample_tokens)) (hd (instrs (pr_instructions (parser_parse sample_tokens))))"
proof -
  have "hd (instrs (pr_instructions (parser_parse sample_tokens)))
      \<in> set (instrs (pr_instructions (parser_parse sample_tokens)))"
  proof -
    have "length (instrs (pr_instructions (parser_parse sample_tokens))) = 1" by code_simp
    then have "instrs (pr_instructions (parser_parse sample_tokens)) \<noteq> []" by auto
    then show ?thesis by simp
  qed
  then show ?thesis
    using parser_instructions_well_shaped [of sample_tokens]
    by (simp add: sample_tokens_def make_token_def)
qed

end
