(* ===== verification/String_Tokens.thy ===== *)
theory String_Tokens
  imports Lexer_Facts
begin

text \<open>
  The size of what the lexer produces: the tokens that carry text of the source are together no
  longer than the source, and every token is paid for by a byte of it.
\<close>

section \<open>Text a token carries\<close>

definition text_token :: "TokenType \<Rightarrow> bool" where
  "text_token ty \<longleftrightarrow> ty \<in> {TOKEN_LABEL_DEF, TOKEN_LABEL_REF, TOKEN_MNEMONIC, TOKEN_STRING}"

definition tok_text :: "Token \<Rightarrow> nat" where
  "tok_text t = (if text_token (tok_type t) then length (tok_value t) else 0)"

lemma lex_string_loop_length:
  assumes "lx_pos lx \<le> length (sb_data (lx_src lx))"
  shows "lx_out (lex_string_loop lx line col buf ok) = lx_out lx
   \<or> (\<exists>v e. lx_out (lex_string_loop lx line col buf ok) = lx_out lx @ [make_token TOKEN_STRING v line col e]
        \<and> length v + lx_pos lx \<le> length buf + lx_pos (lex_string_loop lx line col buf ok))"
  using assms
proof (induction lx line col buf ok rule: lex_string_loop.induct)
  case (1 lx line col buf ok)
  let ?lx = "skip_cp lx"
  have in1: "lx_pos ?lx \<le> length (sb_data (lx_src lx))" "lx_pos lx \<le> lx_pos ?lx"
    using lx_moves_skip [of lx] 1(5) by (simp_all add: lx_moves_def)
  have in2: "lx_pos (skip_cp q) \<le> length (sb_data (lx_src q))" "lx_pos q \<le> lx_pos (skip_cp q)"
    if "lx_pos q \<le> length (sb_data (lx_src q))" for q
    using lx_moves_skip [of q] that by (simp_all add: lx_moves_def)
  have ill: "lx_pos (lex_ill_formed_utf8 lx) \<le> length (sb_data (lx_src lx))"
    "lx_pos lx \<le> lx_pos (lex_ill_formed_utf8 lx)" "lx_src (lex_ill_formed_utf8 lx) = lx_src lx"
    using ill_formed_reads [of lx] 1(5) by (simp_all add: lx_reads_def lx_moves_def)
  show ?case
  proof (cases "\<not> at_end lx \<and> \<not> at_ill_formed_utf8 lx")
    case False
    then show ?thesis using 1(1) ill
      by (force simp: lex_string_loop.simps [of lx])
  next
    case True
    have strict: "lx_pos lx < lx_pos ?lx"
      using lx_consumes_skip [of lx] True by (simp add: lx_consumes_def)
    consider "peek_cp lx = 0x22" | "peek_cp lx = 0x0A \<or> peek_cp lx = 0x0D" | "peek_cp lx = 0x5C"
      | "peek_cp lx \<noteq> 0x22" "peek_cp lx \<noteq> 0x0A" "peek_cp lx \<noteq> 0x0D" "peek_cp lx \<noteq> 0x5C" by blast
    then show ?thesis
    proof cases
      case a: 1
      then show ?thesis using True in1(2) by (auto simp: lex_string_loop.simps [of lx] Let_def make_token_def)
    next
      case 2
      then show ?thesis using True by (auto simp: lex_string_loop.simps [of lx] Let_def)
    next
      case b: 3
      show ?thesis
      proof (cases "at_end ?lx")
        case True
        then show ?thesis using b \<open>\<not> at_end lx \<and> \<not> at_ill_formed_utf8 lx\<close>
          by (simp add: lex_string_loop.simps [of lx] Let_def)
      next
        case inside: False
        show ?thesis
        proof (cases "string_escape (peek_cp ?lx)")
          case None
          let ?q = "lex_error_at ?lx (lx_line ?lx) (lx_col ?lx) (lx_col ?lx + 1) LEX_BAD_ESCAPE"
          have u: "lex_string_loop lx line col buf ok = lex_string_loop (skip_cp ?q) line col buf False"
            using True b inside None by (simp add: lex_string_loop.simps [of lx] Let_def)
          have "lx_pos (skip_cp ?q) \<le> length (sb_data (lx_src lx))" "lx_pos ?lx \<le> lx_pos (skip_cp ?q)"
            using in2 [of ?q] in1(1) by simp_all
          then show ?thesis unfolding u
            using True b inside None 1(2,3) in1 by (fastforce simp: Let_def)
        next
          case (Some c)
          have u: "lex_string_loop lx line col buf ok = lex_string_loop (skip_cp ?lx) line col (buf @ [c]) ok"
            using True b inside Some by (simp add: lex_string_loop.simps [of lx] Let_def)
          have "lx_pos (skip_cp ?lx) \<le> length (sb_data (lx_src lx))" "lx_pos ?lx \<le> lx_pos (skip_cp ?lx)"
            using in2 [of ?lx] in1(1) by simp_all
          then show ?thesis unfolding u
            using True b inside Some 1(2,3) in1 strict by (fastforce simp: Let_def)
        qed
      qed
    next
      case c: 4
      have u: "lex_string_loop lx line col buf ok
          = lex_string_loop ?lx line col (buf @ source_slice ?lx (lx_pos lx)) ok"
        using True c by (simp add: lex_string_loop.simps [of lx] Let_def)
      have "length (source_slice ?lx (lx_pos lx)) \<le> lx_pos ?lx - lx_pos lx"
        by (simp add: source_slice_def)
      then show ?thesis unfolding u
        using True c 1(4) in1 by (fastforce simp: Let_def)
    qed
  qed
qed

section \<open>One step\<close>

text \<open>At most one token is added, and its text is covered by the bytes read.\<close>

definition adds_text :: "Lexer \<Rightarrow> Lexer \<Rightarrow> bool" where
  "adds_text lx lx' \<longleftrightarrow> lx_out lx' = lx_out lx
     \<or> (\<exists>t. lx_out lx' = lx_out lx @ [t] \<and> (tok_text t = 0 \<or> tok_text t + lx_pos lx \<le> lx_pos lx'))"

lemma adds_none [simp]: "lx_out lx' = lx_out lx \<Longrightarrow> adds_text lx lx'"
  by (simp add: adds_text_def)

lemma adds_push [simp]:
  "lx_out lx' = lx_out lx \<Longrightarrow> \<not> text_token ty \<Longrightarrow> adds_text lx (push_token_value lx' ty v l c e)"
  by (auto simp: adds_text_def tok_text_def make_token_def)

lemma not_text [simp]:
  "\<not> text_token TOKEN_IMMEDIATE" "\<not> text_token TOKEN_MINUS" "\<not> text_token TOKEN_NEWLINE"
  "\<not> text_token TOKEN_DIRECTIVE" "\<not> text_token TOKEN_LBRACKET" "\<not> text_token TOKEN_RBRACKET"
  "\<not> text_token TOKEN_PLUS" "\<not> text_token TOKEN_COMMA" "\<not> text_token TOKEN_COLON"
  "\<not> text_token TOKEN_EOF" "\<not> text_token TOKEN_REGISTER"
  by (simp_all add: text_token_def)

lemma number_adds:
  assumes "\<not> at_end lx" "is_number_start (peek_cp lx)"
  shows "adds_text lx (lex_number lx line col)"
proof -
  obtain val ok fits lx' where p: "parse_number lx = (val, ok, fits, lx')" by (metis prod_cases4)
  then have "lx_out lx' = lx_out lx" using parse_number_row [OF assms] by (simp add: lx_row_def)
  then show ?thesis by (simp add: lex_number_def p lex_number_too_large_def push_immediate_token_def)
qed

lemma minus_adds: "adds_text lx (lex_minus_or_negative_number lx line col)"
proof (cases "is_number_start (peek_cp (skip_cp lx))")
  case True
  then have "\<not> at_end (skip_cp lx)"
    by (intro not_at_end_peek) (auto simp: is_number_start_def nazm_is_arabic_digit_def)
  then have "lx_out (state_of (parse_number (skip_cp lx))) = lx_out lx"
    using parse_number_row [OF _ True] by (simp add: lx_row_def)
  then show ?thesis
    using True by (auto simp: lex_minus_or_negative_number_def Let_def lex_number_too_large_def
        push_immediate_token_def split: prod.split)
qed (simp add: lex_minus_or_negative_number_def Let_def)



lemma identifier_adds: "adds_text lx (lex_identifier lx line col)"
proof -
  let ?lx = "scan_while is_ident_continue lx"
  have skip: "lx_pos q \<le> lx_pos (skip_cp q)" for q using lx_moves_skip [of q] by (simp add: lx_moves_def)
  have m: "lx_pos lx \<le> lx_pos ?lx"
    using scan_while_reads [of is_ident_continue lx] by (simp add: lx_reads_def lx_moves_def)
  have "length (source_slice ?lx (lx_pos lx)) \<le> lx_pos ?lx - lx_pos lx" by (simp add: source_slice_def)
  then have le: "length (source_slice ?lx (lx_pos lx)) + lx_pos lx \<le> lx_pos ?lx" using m by linarith
  have p: "adds_text lx (push_token_value lx' ty (source_slice ?lx (lx_pos lx)) l c e)"
    if "lx_out lx' = lx_out lx" "lx_pos ?lx \<le> lx_pos lx'" for lx' ty l c e
    using that le by (auto simp: adds_text_def tok_text_def make_token_def)
  show ?thesis
    using skip [of ?lx] skip [of "lex_error_at ?lx l c e m" for l c e m]
    by (simp add: lex_identifier_def scan_ident_def Let_def lex_reserved_prefix_error_def p)
qed

lemma string_adds:
  assumes "\<not> at_end lx"
  shows "adds_text lx (lex_string lx line col)"
proof -
  have "lx_pos (skip_cp lx) \<le> length (sb_data (lx_src (skip_cp lx)))" "lx_pos lx \<le> lx_pos (skip_cp lx)"
    using lx_moves_skip [of lx] assms by (simp_all add: lx_moves_def at_end_def)
  from lex_string_loop_length [OF this(1), of line col "[]" True] this(2) show ?thesis
    by (auto simp: lex_string_def adds_text_def tok_text_def make_token_def)
qed

lemma lex_step_adds:
  assumes "\<not> at_end lx"
  shows "adds_text lx (lex_step lx)"
proof (cases "lex_single_char_token lx (peek_cp lx) (lx_line lx) (lx_col lx)")
  case (Some lx')
  then have "lex_step lx = lx'" by (auto simp: lex_step_def lex_single_char_token_def split: if_splits)
  moreover have "adds_text lx lx'" using Some by (auto simp: lex_single_char_token_def split: if_splits)
  ultimately show ?thesis by simp
next
  case None
  then show ?thesis
    using assms number_adds minus_adds identifier_adds string_adds
    by (simp add: lex_step_def Let_def lex_error_def lex_newline_def lex_directive_def scan_directive_def)
qed

section \<open>The whole source\<close>

text \<open>
  \<open>a\<close> for each token and \<open>b\<close> for each byte of its text: with (1, 0) the number of tokens, with (0, 1)
  the size of their texts.
\<close>

definition token_weight :: "nat \<Rightarrow> nat \<Rightarrow> Token \<Rightarrow> nat" where
  "token_weight a b t = a + b * tok_text t"

definition tokens_weight :: "nat \<Rightarrow> nat \<Rightarrow> Token list \<Rightarrow> nat" where
  "tokens_weight a b ts = sum_list (map (token_weight a b) ts)"

lemma adds_text_weight:
  assumes "adds_text lx lx'" "lx_pos lx < lx_pos lx'"
  shows "tokens_weight a b (lx_out lx') \<le> tokens_weight a b (lx_out lx) + (a + b) * (lx_pos lx' - lx_pos lx)"
proof -
  have w: "a + b * n \<le> (a + b) * k" if "n \<le> k" "0 < k" for n k
  proof -
    have "a \<le> a * k" "b * n \<le> b * k" using that by simp_all
    then show ?thesis unfolding add_mult_distrib by (rule add_mono)
  qed
  have "token_weight a b t \<le> (a + b) * (lx_pos lx' - lx_pos lx)"
    if "tok_text t = 0 \<or> tok_text t + lx_pos lx \<le> lx_pos lx'" for t
    unfolding token_weight_def using that assms(2) by (intro w) auto
  then show ?thesis using assms(1) by (auto simp: adds_text_def tokens_weight_def)
qed

lemma lex_all_weight:
  "lx_pos lx \<le> length (sb_data (lx_src lx)) \<Longrightarrow>
     tokens_weight a b (lx_out (lex_all lx))
       \<le> tokens_weight a b (lx_out lx) + (a + b) * (length (sb_data (lx_src lx)) - lx_pos lx) + a"
proof (induction lx rule: lex_all.induct)
  case (1 lx)
  show ?case
  proof (cases "at_end lx")
    case True
    then show ?thesis
      by (simp add: lex_all.simps [of lx] tokens_weight_def token_weight_def tok_text_def make_token_def)
  next
    case False
    let ?n = "length (sb_data (lx_src lx))" and ?lx = "lex_step lx"
    have m: "lx_src ?lx = lx_src lx" "lx_pos ?lx \<le> ?n" "lx_pos lx < lx_pos ?lx"
      using lex_step_consumes [OF False] 1(2) by (simp_all add: lx_consumes_def lx_reads_def lx_moves_def)
    have "(a + b) * (?n - lx_pos lx) = (a + b) * (?n - lx_pos ?lx) + (a + b) * (lx_pos ?lx - lx_pos lx)"
      using m by (simp flip: distrib_left)
    then show ?thesis
      using 1(1) [OF False] adds_text_weight [OF lex_step_adds [OF False] m(3), of a b] m False
      by (simp add: lex_all.simps [of lx])
  qed
qed

lemma lexer_weight:
  "tokens_weight a b (ta_tokens (lr_tokens (lexer_lex src))) \<le> (a + b) * length (sb_data src) + a"
  using lex_all_weight [of "lexer_start src" a b]
  by (simp add: lexer_lex_def Let_def lexer_start_def tokens_weight_def)

lemma string_token_length:
  assumes "t \<in> set (ta_tokens (lr_tokens (lexer_lex src)))" "tok_type t = TOKEN_STRING"
  shows "length (tok_value t) \<le> length (sb_data src)"
proof -
  have "tok_text t \<le> tokens_weight 0 1 (ta_tokens (lr_tokens (lexer_lex src)))"
    using assms(1) member_le_sum_list by (force simp: tokens_weight_def token_weight_def)
  then show ?thesis
    using lexer_weight [of 0 1 src] assms(2) by (simp add: tok_text_def text_token_def)
qed

end
