(* ===== verification/Front_End.thy ===== *)
theory Front_End
  imports Parser_Facts String_Tokens Passes_Theorems Alignment
begin

text \<open>
  The phases as \<^verbatim>\<open>src/src/main.c\<close> and \<^verbatim>\<open>src/src/api/api.c\<close> compose them: lexer, parser, first and second
  pass, each entered only when the one before it reported nothing. What the passes assume of their
  instructions holds of every source text the first two phases accept.
\<close>

section \<open>The pipeline\<close>

text \<open>The errors of the first phase that reports any, or the instructions with both results.\<close>

datatype FrontResult =
    Rejected "cstr ErrorList"
  | Pass1_rejected PassErrors
  | Pass2_rejected PassErrors
  | Assembled InstructionList Pass1Result Pass2Result

definition nazm_front :: "SourceBuffer \<Rightarrow> FrontResult" where
  "nazm_front src =
     (let lex = lexer_lex src in
      if error_has_any (lr_errors lex) then Rejected (lr_errors lex)
      else let parse = parser_parse (lr_tokens lex) in
        if error_has_any (pr_errors parse) then Rejected (pr_errors parse)
        else let pass1 = pass1_run (pr_instructions parse) in
          if error_has_any (p1_errors pass1) then Pass1_rejected (p1_errors pass1)
          else let pass2 = pass2_run (pr_instructions parse) pass1 in
            if error_has_any (p2_errors pass2) then Pass2_rejected (p2_errors pass2)
            else Assembled (pr_instructions parse) pass1 pass2)"

text \<open>Opcodes without operands have an arity of zero.\<close>

lemma bare_arity: "bare_opcode op \<Longrightarrow> get_arity op = (0, 0)"
  by (auto simp: bare_opcode_def get_arity_def ARITY_TABLE_def)

lemma shaped_well_formed:
  assumes "instr_ok ts i" "arity_ok i" "\<forall>t \<in> ts. tok_type t = TOKEN_STRING \<longrightarrow> length (tok_value t) < 2 ^ 31"
  shows "well_formed i"
proof -
  have "ops i = []" if "bare_opcode (opcode i)"
    using assms(2) that bare_arity [OF that] by (auto simp: arity_ok_def bare_opcode_def)
  moreover have "int (length s) < 2 ^ 31" if "OP_STRING s \<in> set (op_kinds i)" for s
  proof -
    from that obtain k where "k \<in> set (ops i)" "opnd k = OP_STRING s" by (auto simp: op_kinds_def)
    then obtain t where "t \<in> ts" "tok_type t = TOKEN_STRING" "tok_value t = s"
      using assms(1) by (force simp: instr_ok_def ops_ok_def operand_ok_def)
    then show ?thesis using assms(3) by force
  qed
  then have "strings_small i" by (auto simp: strings_small_def split: Operand.split)
  ultimately show ?thesis by (simp add: well_formed_def)
qed

lemma front_assembled:
  assumes "nazm_front src = Assembled il p1 p2" "length (sb_data src) < 2 ^ 31"
  shows "assembled il \<and> p1 = pass1_run il \<and> p2 = pass2_run il p1"
proof -
  let ?lex = "lexer_lex src"
  let ?parse = "parser_parse (lr_tokens ?lex)"
  have n: "\<not> error_has_any (lr_errors ?lex)" "\<not> error_has_any (pr_errors ?parse)"
    "\<not> error_has_any (p1_errors p1)" "\<not> error_has_any (p2_errors p2)" "il = pr_instructions ?parse"
    "p1 = pass1_run il" "p2 = pass2_run il p1"
    using assms(1) by (auto simp: nazm_front_def Let_def split: if_splits)
  have e: "errors (pr_errors ?parse) = []" using n(2) by (simp add: error_has_any_def)
  obtain ts t where "ta_tokens (lr_tokens ?lex) = ts @ [t]" "tok_type t = TOKEN_EOF" by (rule lexer_tokens_end)
  then have tok: "ta_tokens (lr_tokens ?lex) \<noteq> []" "tok_type (last (ta_tokens (lr_tokens ?lex))) = TOKEN_EOF"
    by simp_all
  have "well_formed i" if "i \<in> set (instrs il)" for i
  proof (rule shaped_well_formed)
    show "instr_ok (set (ta_tokens (lr_tokens ?lex))) i" "arity_ok i"
      using parser_shape [OF tok, of i] that n(5) e by simp_all
    show "\<forall>t \<in> set (ta_tokens (lr_tokens ?lex)). tok_type t = TOKEN_STRING \<longrightarrow> length (tok_value t) < 2 ^ 31"
      using string_token_length [of _ src] assms(2) by fastforce
  qed
  then show ?thesis using n by (simp add: assembled_def accepted_source_def  error_has_any_def)
qed

text \<open>
  C36. Every source shorter than 2 GiB that the four phases accept satisfies what the theorems on the
  passes assume: the first pass accepted the instructions the parser read, each of them is
  well-formed (operand counts and string lengths in range), and the results are those of the two
  passes on these instructions.
\<close>

theorem front_end_assembles:
  assumes "nazm_front src = Assembled il p1 p2" "length (sb_data src) < 2 ^ 31"
  shows "assembled il \<and> p1 = pass1_run il \<and> p2 = pass2_run il p1"
  using front_assembled [OF assms] .

text \<open>The source is a return and a line break.\<close>

definition sample_source :: SourceBuffer where
  "sample_source = \<lparr>sb_data = [0xD8, 0xA7, 0xD8, 0xB1, 0xD8, 0xAC, 0xD8, 0xB9, 0x0A], sb_name = None\<rparr>"

definition sample_instructions :: InstructionList where
  "sample_instructions =
     \<lparr>instrs = [\<lparr>opcode = OPCODE_RET, ops = [], label = None, directive = None,
        directive_kind = DIRECTIVE_NONE, line = 1, col = 1, end_col = 5,
        label_line = 0, label_col = 0, label_end_col = 0\<rparr>],
      source_name = None, source_data = Some (sb_data sample_source)\<rparr>"

lemma sample_source_front:
  "nazm_front sample_source
     = Assembled sample_instructions (pass1_run sample_instructions)
         (pass2_run sample_instructions (pass1_run sample_instructions))"
proof -
  have "\<not> error_has_any (lr_errors (lexer_lex sample_source))"
    "\<not> error_has_any (pr_errors (parser_parse (lr_tokens (lexer_lex sample_source))))"
    "pr_instructions (parser_parse (lr_tokens (lexer_lex sample_source))) = sample_instructions"
    "\<not> error_has_any (p1_errors (pass1_run sample_instructions))"
    "\<not> error_has_any (p2_errors (pass2_run sample_instructions (pass1_run sample_instructions)))"
    by code_simp+
  then show ?thesis by (simp add: nazm_front_def Let_def)
qed

theorem front_end_assembles_witness:
  "assembled sample_instructions
   \<and> text_bytes (pass2_run sample_instructions (pass1_run sample_instructions)) = [0xC3]"
proof -
  have "length (sb_data sample_source) < 2 ^ 31" by (simp add: sample_source_def)
  moreover have "text_bytes (pass2_run sample_instructions (pass1_run sample_instructions)) = [0xC3]"
    by code_simp
  ultimately show ?thesis using front_end_assembles [OF sample_source_front] by simp
qed

end
