(* ===== verification/Output_Symbols.thy ===== *)
theory Output_Symbols
  imports Symtable
begin

text \<open>
  The symbols the object writers see (\<^verbatim>\<open>src/src/output/symbols.c\<close>): every defined or external entry
  of the table in bucket order, the local ones first. The array is a list; it is built by one pass
  per binding and searched linearly for the index of a relocation's symbol.
\<close>

section \<open>Messages of the writers\<close>

datatype OutputMessage =
    MSG_DWARF_INVALID
  | MSG_DWARF_LIMITS
  | MSG_DWARF_FILE
  | MSG_DWARF_SIZE
  | MSG_CODEVIEW_INVALID
  | MSG_CODEVIEW_LIMITS
  | MSG_CODEVIEW_STRINGS
  | MSG_CODEVIEW_BLOCK
  | MSG_ELF_SYMBOLS
  | MSG_ELF_STRTAB
  | MSG_ELF_RELOCATION
  | MSG_COFF_SYMBOLS
  | MSG_COFF_STRTAB
  | MSG_COFF_RELOCATION
  | MSG_COFF_TEXT_RELOCATIONS
  | MSG_COFF_DATA_RELOCATIONS
  | MSG_COFF_READ_ONLY_RELOCATIONS
  | MSG_COFF_DEBUG_SYMBOLS

section \<open>Collection and lookup\<close>

record OutputSymbol =
  os_name :: cstr
  os_offset :: int
  os_section :: SymbolSection
  os_binding :: SymbolBinding
  name_offset :: u32

record OutputSymbolList =
  os_data :: "OutputSymbol list"
  local_count :: nat

definition UINT32_MAX :: nat where "UINT32_MAX = 0xFFFFFFFF"

text \<open>The two nested loops visit the chains of the buckets in order.\<close>

definition all_entries :: "SymbolTable \<Rightarrow> SymEntry list" where
  "all_entries st = concat (buckets st)"

definition count_output_symbols :: "SymbolTable \<Rightarrow> nat" where
  "count_output_symbols st =
     foldl (\<lambda>n e. if sym_defined e \<or> external_declared e then n + 1 else n) 0 (all_entries st)"

definition collect_binding ::
  "SymbolTable \<Rightarrow> SymbolBinding \<Rightarrow> OutputSymbol list \<Rightarrow> OutputSymbol list" where
  "collect_binding st b symbols =
     foldl (\<lambda>out e.
         if \<not> sym_defined e \<and> \<not> external_declared e \<or> sym_binding e \<noteq> b then out
         else out @ [\<lparr>os_name = sym_name e, os_offset = sym_offset e, os_section = sym_section e,
                      os_binding = sym_binding e, name_offset = 0\<rparr>])
       symbols (all_entries st)"

text \<open>\<open>None\<close> is the result \<^verbatim>\<open>false\<close>; \<^verbatim>\<open>SIZE_MAX / sizeof(OutputSymbol)\<close> with the 40 bytes of the entry.\<close>

definition output_symbols_collect :: "SymbolTable \<Rightarrow> OutputSymbolList option" where
  "output_symbols_collect st =
     (let count = count_output_symbols st in
      if count > UINT32_MAX - 1 \<or> count > (2 ^ 64 - 1) div 40 then None
      else
        let symbols = collect_binding st SYMBOL_BINDING_LOCAL [];
            locals = length symbols;
            symbols = collect_binding st SYMBOL_BINDING_GLOBAL symbols
        in if length symbols \<noteq> count then None
           else Some \<lparr>os_data = symbols, local_count = locals\<rparr>)"

text \<open>One-based: entry zero belongs to the writer.\<close>

fun find_index_from :: "OutputSymbol list \<Rightarrow> cstr \<Rightarrow> nat \<Rightarrow> u32 option" where
  "find_index_from [] s i = None"
| "find_index_from (x # xs) s i =
     (if os_name x = s then Some (word_of_nat (i + 1)) else find_index_from xs s (i + 1))"

definition output_symbols_find_index :: "OutputSymbolList \<Rightarrow> cstr \<Rightarrow> u32 option" where
  "output_symbols_find_index syms s = find_index_from (os_data syms) s 0"

definition output_symbol_link_name :: "OutputSymbol \<Rightarrow> cstr" where
  "output_symbol_link_name osym = os_name osym"

section \<open>What is collected\<close>

definition emitted :: "SymEntry \<Rightarrow> bool" where
  "emitted e \<longleftrightarrow> sym_defined e \<or> external_declared e"

definition output_symbol :: "SymEntry \<Rightarrow> OutputSymbol" where
  "output_symbol e = \<lparr>os_name = sym_name e, os_offset = sym_offset e, os_section = sym_section e,
     os_binding = sym_binding e, name_offset = 0\<rparr>"

lemma count_output_symbols: "count_output_symbols st = length (filter emitted (all_entries st))"
proof -
  have "foldl (\<lambda>n e. if sym_defined e \<or> external_declared e then n + 1 else n) n es
      = n + length (filter emitted es)" for n :: nat and es
    by (induction es arbitrary: n) (auto simp: emitted_def)
  then show ?thesis by (simp add: count_output_symbols_def)
qed

lemma collect_binding:
  "collect_binding st b out =
     out @ map output_symbol (filter (\<lambda>e. emitted e \<and> sym_binding e = b) (all_entries st))"
proof -
  have "foldl (\<lambda>out e.
         if \<not> sym_defined e \<and> \<not> external_declared e \<or> sym_binding e \<noteq> b then out
         else out @ [\<lparr>os_name = sym_name e, os_offset = sym_offset e, os_section = sym_section e,
                      os_binding = sym_binding e, name_offset = 0\<rparr>]) out es
      = out @ map output_symbol (filter (\<lambda>e. emitted e \<and> sym_binding e = b) es)" for es
    by (induction es arbitrary: out) (auto simp: emitted_def output_symbol_def)
  then show ?thesis by (simp add: collect_binding_def)
qed

lemma split_by_binding:
  "length (filter (\<lambda>e. emitted e \<and> sym_binding e = SYMBOL_BINDING_LOCAL) es)
     + length (filter (\<lambda>e. emitted e \<and> sym_binding e = SYMBOL_BINDING_GLOBAL) es)
   = length (filter emitted es)"
proof (induction es)
  case (Cons e es)
  then show ?case by (cases "sym_binding e") auto
qed simp

definition local_symbols :: "SymbolTable \<Rightarrow> OutputSymbol list" where
  "local_symbols st =
     map output_symbol (filter (\<lambda>e. emitted e \<and> sym_binding e = SYMBOL_BINDING_LOCAL) (all_entries st))"

definition global_symbols :: "SymbolTable \<Rightarrow> OutputSymbol list" where
  "global_symbols st =
     map output_symbol (filter (\<lambda>e. emitted e \<and> sym_binding e = SYMBOL_BINDING_GLOBAL) (all_entries st))"

lemma length_symbols:
  "length (local_symbols st) + length (global_symbols st) = count_output_symbols st"
  by (simp add: local_symbols_def global_symbols_def split_by_binding count_output_symbols)

text \<open>Collection fails only for the size of the table.\<close>

lemma output_symbols_collect:
  "output_symbols_collect st =
     (if count_output_symbols st > UINT32_MAX - 1 then None
      else Some \<lparr>os_data = local_symbols st @ global_symbols st, local_count = length (local_symbols st)\<rparr>)"
proof -
  have "count_output_symbols st \<le> UINT32_MAX - 1 \<Longrightarrow> \<not> count_output_symbols st > (2 ^ 64 - 1) div 40"
    by (simp add: UINT32_MAX_def)
  then show ?thesis
    using length_symbols [of st]
    by (auto simp: output_symbols_collect_def Let_def collect_binding local_symbols_def global_symbols_def)
qed

lemma emitted_symbols:
  "set (local_symbols st @ global_symbols st) = output_symbol ` {e \<in> set (all_entries st). emitted e}"
proof -
  have "sym_binding e = SYMBOL_BINDING_LOCAL \<or> sym_binding e = SYMBOL_BINDING_GLOBAL" for e
    by (cases "sym_binding e") auto
  then show ?thesis by (auto simp: local_symbols_def global_symbols_def)
qed

section \<open>In a well-formed table\<close>

lemma entries_find:
  assumes "wf_symtable st"
  shows "e \<in> set (all_entries st) \<longleftrightarrow> find_entry st (sym_name e) = Some e"
proof
  assume "e \<in> set (all_entries st)"
  then obtain i where i: "i < length (buckets st)" "e \<in> set (buckets st ! i)"
    unfolding all_entries_def set_concat by (metis (no_types, lifting) UN_E in_set_conv_nth)
  then have b: "bucket_index (sym_name e) = i" "distinct (map sym_name (buckets st ! i))"
    using assms by (auto simp: wf_symtable_def)
  have "find (\<lambda>x. sym_name x = sym_name e) es = Some e"
    if "distinct (map sym_name es)" "e \<in> set es" for es
    using that by (induction es) (auto simp: rev_image_eqI)
  then show "find_entry st (sym_name e) = Some e" using b i by (simp add: find_entry_def)
next
  assume "find_entry st (sym_name e) = Some e"
  then have "e \<in> set (buckets st ! bucket_index (sym_name e))"
    unfolding find_entry_def find_Some_iff by (metis nth_mem)
  moreover have "bucket_index (sym_name e) < length (buckets st)"
    using assms bucket_index_less by (simp add: wf_symtable_def)
  ultimately show "e \<in> set (all_entries st)"
    unfolding all_entries_def set_concat by (blast intro: nth_mem)
qed

lemma distinct_entry_names:
  assumes "wf_symtable st"
  shows "distinct (map sym_name (all_entries st))"
proof -
  have "distinct (map sym_name (concat bs))"
    if "\<forall>i < length bs. distinct (map sym_name (bs ! i)) \<and> (\<forall>e \<in> set (bs ! i). bucket_index (sym_name e) = i + k)"
    for bs k
    using that
  proof (induction bs arbitrary: k)
    case (Cons b bs)
    have b: "distinct (map sym_name b)" "\<forall>e \<in> set b. bucket_index (sym_name e) = k"
      using Cons.prems by (auto dest: spec [of _ 0])
    have "\<forall>i < length bs. distinct (map sym_name (bs ! i))
        \<and> (\<forall>e \<in> set (bs ! i). bucket_index (sym_name e) = i + Suc k)"
      using Cons.prems by (auto dest: spec [of _ "Suc i" for i])
    then have d: "distinct (map sym_name (concat bs))"
      and r: "\<forall>e \<in> set (concat bs). bucket_index (sym_name e) > k"
      using Cons.IH [of "Suc k"] by (simp, force simp: in_set_conv_nth [of _ bs])
    have "sym_name ` set b \<inter> sym_name ` set (concat bs) = {}" using b(2) r by fastforce
    then show ?case using b(1) d by simp
  qed simp
  from this [of "buckets st" 0] show ?thesis
    using assms by (simp add: all_entries_def wf_symtable_def)
qed

lemma distinct_symbol_names:
  assumes "wf_symtable st"
  shows "distinct (map os_name (local_symbols st @ global_symbols st))"
proof -
  have n: "map os_name (map output_symbol es) = map sym_name es" for es by (simp add: output_symbol_def)
  have "distinct (map sym_name (filter P (all_entries st)))" for P
    using distinct_entry_names [OF assms] by (rule distinct_map_filter)
  moreover have "sym_name e \<noteq> sym_name e'"
    if "e \<in> set (all_entries st)" "e' \<in> set (all_entries st)" "sym_binding e \<noteq> sym_binding e'" for e e'
    using that entries_find [OF assms] by (metis option.inject)
  ultimately show ?thesis
    unfolding local_symbols_def global_symbols_def map_append n distinct_append by fastforce
qed

text \<open>The index of a name is one more than the place of the symbol.\<close>

lemma find_index_from:
  "find_index_from xs s i = (if s \<in> os_name ` set xs
     then Some (word_of_nat (i + 1 + length (takeWhile (\<lambda>x. os_name x \<noteq> s) xs))) else None)"
  by (induction xs arbitrary: i) auto

lemma find_index_nth:
  assumes "distinct (map os_name xs)" "j < length xs"
  shows "find_index_from xs (os_name (xs ! j)) i = Some (word_of_nat (i + 1 + j))"
  using assms
proof (induction xs arbitrary: i j)
  case (Cons x xs)
  then show ?case by (cases j) (auto simp: rev_image_eqI)
qed simp

lemma find_index_some:
  assumes "find_index_from xs s i = Some k"
  obtains j where "j < length xs" "os_name (xs ! j) = s" "k = word_of_nat (i + 1 + j)"
proof -
  have "\<exists>j < length xs. os_name (xs ! j) = s \<and> k = word_of_nat (i + 1 + j)"
    using assms
  proof (induction xs arbitrary: i)
    case (Cons x xs)
    show ?case
    proof (cases "os_name x = s")
      case True
      then show ?thesis using Cons.prems by (intro exI [of _ 0]) simp
    next
      case False
      then obtain j where "j < length xs" "os_name (xs ! j) = s" "k = word_of_nat (i + 1 + 1 + j)"
        using Cons.IH [of "i + 1"] Cons.prems by auto
      then show ?thesis by (intro exI [of _ "Suc j"]) simp
    qed
  qed simp
  then show thesis using that by blast
qed

text \<open>
  C37. The object's symbol list of a well-formed table holds exactly the defined and the external
  labels, each once and with its offset, section and binding, all local ones before all global ones
  with \<^verbatim>\<open>local_count\<close> their number; and the index a relocation's symbol is looked up with is the
  position of its entry, counted from one.
\<close>

theorem symbols_collected:
  assumes "wf_symtable st" "output_symbols_collect st = Some syms"
  shows "distinct (map os_name (os_data syms))
   \<and> (osym \<in> set (os_data syms) \<longleftrightarrow>
        (\<exists>e. find_entry st (sym_name e) = Some e \<and> (sym_defined e \<or> external_declared e)
           \<and> osym = \<lparr>os_name = sym_name e, os_offset = sym_offset e, os_section = sym_section e,
                    os_binding = sym_binding e, name_offset = 0\<rparr>))
   \<and> (\<forall>j < length (os_data syms).
        (os_binding (os_data syms ! j) = SYMBOL_BINDING_LOCAL \<longleftrightarrow> j < local_count syms)
        \<and> map_option unat (output_symbols_find_index syms (os_name (os_data syms ! j))) = Some (j + 1))"
proof -
  have c: "count_output_symbols st \<le> UINT32_MAX - 1"
    and s: "os_data syms = local_symbols st @ global_symbols st" "local_count syms = length (local_symbols st)"
    using assms(2) by (auto simp: output_symbols_collect split: if_splits)
  have d: "distinct (map os_name (os_data syms))"
    unfolding s by (rule distinct_symbol_names [OF assms(1)])
  moreover have "osym \<in> set (os_data syms) \<longleftrightarrow>
        (\<exists>e. find_entry st (sym_name e) = Some e \<and> (sym_defined e \<or> external_declared e)
           \<and> osym = \<lparr>os_name = sym_name e, os_offset = sym_offset e, os_section = sym_section e,
                    os_binding = sym_binding e, name_offset = 0\<rparr>)"
    unfolding s(1) emitted_symbols by (auto simp: entries_find [OF assms(1)] emitted_def output_symbol_def)
  moreover have "os_binding (os_data syms ! j) = SYMBOL_BINDING_LOCAL \<longleftrightarrow> j < local_count syms"
    if "j < length (os_data syms)" for j
  proof -
    have l: "os_binding x = SYMBOL_BINDING_LOCAL" if "x \<in> set (local_symbols st)" for x
      using that by (auto simp: local_symbols_def output_symbol_def)
    have g: "os_binding x = SYMBOL_BINDING_GLOBAL" if "x \<in> set (global_symbols st)" for x
      using that by (auto simp: global_symbols_def output_symbol_def)
    show ?thesis
      using that l [of "local_symbols st ! j"] g [of "global_symbols st ! (j - length (local_symbols st))"]
      by (auto simp: s nth_append)
  qed
  moreover have "map_option unat (output_symbols_find_index syms (os_name (os_data syms ! j))) = Some (j + 1)"
    if "j < length (os_data syms)" for j
  proof -
    have "length (os_data syms) = count_output_symbols st" by (simp add: s length_symbols)
    then have "1 + j < 2 ^ 32" using that c by (simp add: UINT32_MAX_def)
    then have "unat (word_of_nat (0 + 1 + j) :: u32) = j + 1"
      by (subst unat_of_nat) (simp add: take_bit_nat_eq_self)
    then show ?thesis
      unfolding output_symbols_find_index_def find_index_nth [OF d that, of 0] by simp
  qed
  ultimately show ?thesis by blast
qed

theorem symbols_collected_witness:
  "\<exists>syms. output_symbols_collect (symtable_run [External [0x62], Define [0x61] SYMBOL_SECTION_TEXT 5])
       = Some syms \<and> map_option unat (output_symbols_find_index syms (os_name (os_data syms ! 1))) = Some 2"
proof -
  let ?st = "symtable_run [External [0x62], Define [0x61] SYMBOL_SECTION_TEXT 5]"
  have l: "count_output_symbols ?st = 2" by code_simp
  then obtain syms where s: "output_symbols_collect ?st = Some syms"
    by (simp add: output_symbols_collect UINT32_MAX_def)
  then have "length (os_data syms) = 2"
    using length_symbols [of ?st] l by (auto simp: output_symbols_collect UINT32_MAX_def)
  then show ?thesis
    using symbols_collected [OF _ s] run_facts(1) s
    by (metis one_add_one one_less_numeral_iff semiring_norm(76))
qed

end
