(* ===== verification/Debug_Line.thy ===== *)
theory Debug_Line
  imports Instruction Output_Symbols
begin

text \<open>
  The line tables of \<^verbatim>\<open>src/src/output/debug_line.c\<close>: a DWARF 4 line-number section for ELF objects
  and a CodeView C13 section for COFF objects. The growing buffer is the list of its bytes; a write
  appends, and the offset the C function returns is the length before it.
\<close>

section \<open>Buffers\<close>

type_synonym DebugBuffer = "u8 list"

definition debug_buffer_write :: "DebugBuffer \<Rightarrow> u8 list \<Rightarrow> DebugBuffer" where
  "debug_buffer_write b bytes = b @ bytes"

definition debug_buffer_u8 :: "DebugBuffer \<Rightarrow> u8 \<Rightarrow> DebugBuffer" where
  "debug_buffer_u8 b v = debug_buffer_write b [v]"

definition debug_buffer_u16 :: "DebugBuffer \<Rightarrow> u16 \<Rightarrow> DebugBuffer" where
  "debug_buffer_u16 b v = debug_buffer_write b [ucast v, ucast (drop_bit 8 v)]"

definition debug_buffer_u32 :: "DebugBuffer \<Rightarrow> u32 \<Rightarrow> DebugBuffer" where
  "debug_buffer_u32 b v = debug_buffer_write b
     [ucast v, ucast (drop_bit 8 v), ucast (drop_bit 16 v), ucast (drop_bit 24 v)]"

definition debug_buffer_u64 :: "DebugBuffer \<Rightarrow> u64 \<Rightarrow> DebugBuffer" where
  "debug_buffer_u64 b v = debug_buffer_write b (map (\<lambda>i. ucast (drop_bit (i * 8) v)) [0..<8])"

definition debug_buffer_patch_u32 :: "DebugBuffer \<Rightarrow> nat \<Rightarrow> u32 \<Rightarrow> DebugBuffer" where
  "debug_buffer_patch_u32 b off v =
     b[off := ucast v, off + 1 := ucast (drop_bit 8 v),
       off + 2 := ucast (drop_bit 16 v), off + 3 := ucast (drop_bit 24 v)]"

function debug_buffer_align4 :: "DebugBuffer \<Rightarrow> DebugBuffer" where
  "debug_buffer_align4 b =
     (if length b mod 4 \<noteq> 0 then debug_buffer_align4 (debug_buffer_u8 b 0) else b)"
  by pat_completeness auto
termination
proof (relation "measure (\<lambda>b. (4 - length b mod 4) mod 4)", simp)
  fix b :: DebugBuffer
  assume "length b mod 4 \<noteq> 0"
  moreover have "length b mod 4 < 4" by simp
  ultimately have "length b mod 4 = 1 \<or> length b mod 4 = 2 \<or> length b mod 4 = 3" by linarith
  then show "(debug_buffer_u8 b 0, b) \<in> measure (\<lambda>b. (4 - length b mod 4) mod 4)"
    by (auto simp: debug_buffer_u8_def debug_buffer_write_def mod_Suc)
qed

declare debug_buffer_align4.simps [simp del]

function debug_buffer_uleb :: "DebugBuffer \<Rightarrow> u64 \<Rightarrow> DebugBuffer" where
  "debug_buffer_uleb b v =
     (let byte = ucast (v AND 0x7F); v' = drop_bit 7 v in
      if v' \<noteq> 0 then debug_buffer_uleb (debug_buffer_u8 b (byte OR 0x80)) v'
      else debug_buffer_u8 b byte)"
  by pat_completeness auto
termination
proof (relation "measure (\<lambda>(b, v). unat v)", simp)
  fix b :: DebugBuffer and v v' :: u64 and byte :: u8
  assume v: "v' = drop_bit 7 v" "v' \<noteq> 0"
  then have "unat v \<noteq> 0" by (auto simp: unat_eq_zero)
  then have "unat v' < unat v" by (simp only: v(1) unat_drop_bit_eq) (simp add: drop_bit_eq_div)
  then show "((debug_buffer_u8 b (byte OR 0x80), v'), b, v) \<in> measure (\<lambda>(b, v). unat v)" by simp
qed

declare debug_buffer_uleb.simps [simp del]

text \<open>\<^verbatim>\<open>value >>= 7\<close> on \<^verbatim>\<open>int64_t\<close> is an arithmetic shift.\<close>

lemma sint_shift_7: "sint (signed_drop_bit 7 (v :: i64)) = sint v div 128"
  by (simp add: sint_signed_drop_bit_eq drop_bit_eq_div)

function debug_buffer_sleb :: "DebugBuffer \<Rightarrow> i64 \<Rightarrow> DebugBuffer" where
  "debug_buffer_sleb b v =
     (let byte = ucast (v AND 0x7F); sign = byte AND (0x40 :: u8) \<noteq> 0; v' = signed_drop_bit 7 v;
          more = \<not> (v' = 0 \<and> \<not> sign \<or> v' = - 1 \<and> sign)
      in if more then debug_buffer_sleb (debug_buffer_u8 b (byte OR 0x80)) v'
         else debug_buffer_u8 b byte)"
  by pat_completeness auto
termination
proof (relation "measure (\<lambda>(b, v). nat (if sint v \<ge> 0 then 2 * sint v else - 2 * sint v - 1))", simp)
  fix b :: DebugBuffer and v v' :: i64 and byte :: u8 and sign more :: bool
  assume d: "byte = ucast (v AND 0x7F)" "sign = (byte AND 0x40 \<noteq> 0)" "v' = signed_drop_bit 7 v"
    "more = (\<not> (v' = 0 \<and> \<not> sign \<or> v' = - 1 \<and> sign))" "more"
  have "v \<noteq> 0" "v \<noteq> - 1" using d by auto
  then have "sint v \<noteq> 0" "sint v \<noteq> - 1" using signed_word_eqI [of v 0] signed_word_eqI [of v "-1"] by auto
  moreover have "sint v' = sint v div 128" by (simp add: d(3) sint_shift_7)
  ultimately have "nat (if sint v' \<ge> 0 then 2 * sint v' else - 2 * sint v' - 1)
      < nat (if sint v \<ge> 0 then 2 * sint v else - 2 * sint v - 1)"
    by (auto simp: pos_imp_zdiv_nonneg_iff)
  then show "((debug_buffer_u8 b (byte OR 0x80), v'), b, v)
      \<in> measure (\<lambda>(b, v). nat (if sint v \<ge> 0 then 2 * sint v else - 2 * sint v - 1))" by simp
qed

declare debug_buffer_sleb.simps [simp del]

section \<open>The contract of the line records\<close>

text \<open>The index of the first file with this number; \<open>None\<close> is \<^verbatim>\<open>NULL\<close>.\<close>

fun debug_file_index_from :: "DebugFile list \<Rightarrow> u32 \<Rightarrow> nat \<Rightarrow> nat option" where
  "debug_file_index_from [] id' i = None"
| "debug_file_index_from (f # fs) id' i =
     (if df_id f = id' then Some i else debug_file_index_from fs id' (i + 1))"

definition debug_file_index :: "DebugFile list \<Rightarrow> u32 \<Rightarrow> nat option" where
  "debug_file_index files id' = debug_file_index_from files id' 0"

fun debug_lines_valid :: "DebugFile list \<Rightarrow> nat \<Rightarrow> nat \<Rightarrow> nat \<Rightarrow> DebugLine list \<Rightarrow> bool" where
  "debug_lines_valid files text_size i last_offset [] = True"
| "debug_lines_valid files text_size i last_offset (l # ls) =
     (if dl_offset l > text_size \<or> i > 0 \<and> dl_offset l < last_offset \<or> dl_line l = 0
         \<or> debug_file_index files (dl_file_id l) = None
      then False
      else debug_lines_valid files text_size (i + 1) (dl_offset l) ls)"

definition debug_contract_is_valid :: "DebugFile list \<Rightarrow> DebugLine list \<Rightarrow> nat \<Rightarrow> bool" where
  "debug_contract_is_valid files lines text_size =
     (if length files = 0 \<or> length lines = 0 then False
      else debug_lines_valid files text_size 0 0 lines)"

section \<open>DWARF\<close>

record DwarfLineSection =
  dwarf_data :: "u8 list"
  address_relocation_offset :: nat

definition standard_opcode_lengths :: "u8 list" where
  "standard_opcode_lengths = [0, 1, 1, 1, 1, 0, 0, 0, 1, 0, 0, 1]"

text \<open>One entry of the file table: the path with its zero, directory, timestamp and size.\<close>

definition dwarf_file_entry :: "DebugBuffer \<Rightarrow> DebugFile \<Rightarrow> DebugBuffer" where
  "dwarf_file_entry out f =
     (let out = debug_buffer_write out (df_path f @ [0]);
          out = debug_buffer_uleb out 0;
          out = debug_buffer_uleb out 0
      in debug_buffer_uleb out 0)"

definition dwarf_header :: "DebugFile list \<Rightarrow> DebugBuffer" where
  "dwarf_header files =
     (let out = debug_buffer_u32 [] 0;
          out = debug_buffer_u16 out 4;
          header_length_offset = length out;
          out = debug_buffer_u32 out 0;
          header_start = length out;
          out = debug_buffer_u8 out 1;
          out = debug_buffer_u8 out 1;
          out = debug_buffer_u8 out 1;
          out = debug_buffer_u8 out (- 5);
          out = debug_buffer_u8 out 14;
          out = debug_buffer_u8 out 13;
          out = debug_buffer_write out standard_opcode_lengths;
          out = debug_buffer_u8 out 0;
          out = foldl dwarf_file_entry out files;
          out = debug_buffer_u8 out 0
      in debug_buffer_patch_u32 out header_length_offset (word_of_nat (length out - header_start)))"

record DwarfState =
  dwarf_out :: DebugBuffer
  current_address :: u64
  current_line :: i64
  current_file :: u32
  current_column :: u32

text \<open>The extended opcode that sets the address; its operand is the relocated field.\<close>

definition dwarf_set_address :: "DebugBuffer \<Rightarrow> DebugBuffer" where
  "dwarf_set_address out = debug_buffer_u8 (debug_buffer_uleb (debug_buffer_u8 out 0) 9) 2"

definition dwarf_line_step ::
  "DebugFile list \<Rightarrow> DwarfState \<Rightarrow> DebugLine \<Rightarrow> OutputMessage + DwarfState" where
  "dwarf_line_step files st l =
     (case debug_file_index files (dl_file_id l) of
        None \<Rightarrow> Inl MSG_DWARF_FILE
      | Some file_index \<Rightarrow>
          let dwarf_file = word_of_nat file_index + 1;
              st = (if dwarf_file \<noteq> current_file st
                    then st\<lparr>dwarf_out := debug_buffer_uleb (debug_buffer_u8 (dwarf_out st) 4) (ucast dwarf_file),
                            current_file := dwarf_file\<rparr> else st);
              st = (if dl_column l \<noteq> current_column st
                    then st\<lparr>dwarf_out := debug_buffer_uleb (debug_buffer_u8 (dwarf_out st) 5) (ucast (dl_column l)),
                            current_column := dl_column l\<rparr> else st);
              st = (if ucast (dl_line l) \<noteq> current_line st
                    then st\<lparr>dwarf_out := debug_buffer_sleb (debug_buffer_u8 (dwarf_out st) 3)
                                            (ucast (dl_line l) - current_line st),
                            current_line := ucast (dl_line l)\<rparr> else st);
              st = (if word_of_nat (dl_offset l) \<noteq> current_address st
                    then st\<lparr>dwarf_out := debug_buffer_uleb (debug_buffer_u8 (dwarf_out st) 2)
                                            (word_of_nat (dl_offset l) - current_address st),
                            current_address := word_of_nat (dl_offset l)\<rparr> else st)
          in Inr (st\<lparr>dwarf_out := debug_buffer_u8 (dwarf_out st) 1\<rparr>))"

fun dwarf_lines :: "DebugFile list \<Rightarrow> DwarfState \<Rightarrow> DebugLine list \<Rightarrow> OutputMessage + DwarfState" where
  "dwarf_lines files st [] = Inr st"
| "dwarf_lines files st (l # ls) =
     (case dwarf_line_step files st l of Inl m \<Rightarrow> Inl m | Inr st \<Rightarrow> dwarf_lines files st ls)"

definition dwarf_end_sequence :: "DwarfState \<Rightarrow> nat \<Rightarrow> DebugBuffer" where
  "dwarf_end_sequence st text_size =
     (let out = (if word_of_nat text_size > current_address st
                 then debug_buffer_uleb (debug_buffer_u8 (dwarf_out st) 2)
                        (word_of_nat text_size - current_address st)
                 else dwarf_out st);
          out = debug_buffer_u8 out 0;
          out = debug_buffer_uleb out 1
      in debug_buffer_u8 out 1)"

definition output_build_dwarf_line ::
  "DebugFile list \<Rightarrow> DebugLine list \<Rightarrow> nat \<Rightarrow> OutputMessage + DwarfLineSection" where
  "output_build_dwarf_line files lines text_size =
     (if \<not> debug_contract_is_valid files lines text_size then Inl MSG_DWARF_INVALID
      else if length files > UINT32_MAX then Inl MSG_DWARF_LIMITS
      else
        let out = dwarf_set_address (dwarf_header files);
            relocation = length out;
            out = debug_buffer_u64 out 0
        in case dwarf_lines files \<lparr>dwarf_out = out, current_address = 0, current_line = 1,
                   current_file = 1, current_column = 0\<rparr> lines of
             Inl m \<Rightarrow> Inl m
           | Inr st \<Rightarrow>
               let out = dwarf_end_sequence st text_size in
               if length out - 4 > UINT32_MAX then Inl MSG_DWARF_SIZE
               else Inr \<lparr>dwarf_data = debug_buffer_patch_u32 out 0 (word_of_nat (length out - 4)),
                         address_relocation_offset = relocation\<rparr>)"

section \<open>CodeView\<close>

record CodeViewLineSection =
  codeview_data :: "u8 list"
  section_offset_relocation :: nat
  section_index_relocation :: nat

text \<open>The header of a subsection, and where its length is filled in.\<close>

definition codeview_write_subsection_header :: "DebugBuffer \<Rightarrow> u32 \<Rightarrow> DebugBuffer \<times> nat" where
  "codeview_write_subsection_header out kind =
     (let out = debug_buffer_u32 out kind in (debug_buffer_u32 out 0, length out))"

definition codeview_finish_subsection :: "DebugBuffer \<Rightarrow> nat \<Rightarrow> nat \<Rightarrow> DebugBuffer" where
  "codeview_finish_subsection out length_offset payload_start =
     debug_buffer_align4
       (debug_buffer_patch_u32 out length_offset (word_of_nat (length out - payload_start)))"

text \<open>The string table, and the offset of each path in it.\<close>

fun codeview_strings ::
  "DebugBuffer \<Rightarrow> nat \<Rightarrow> u32 list \<Rightarrow> DebugFile list \<Rightarrow> OutputMessage + DebugBuffer \<times> u32 list" where
  "codeview_strings out strings_start offsets [] = Inr (out, offsets)"
| "codeview_strings out strings_start offsets (f # fs) =
     (if length out - strings_start > UINT32_MAX then Inl MSG_CODEVIEW_STRINGS
      else codeview_strings (debug_buffer_write out (df_path f @ [0])) strings_start
             (offsets @ [word_of_nat (length out - strings_start)]) fs)"

text \<open>One checksum record without bytes for each file, and its offset.\<close>

fun codeview_checksums ::
  "DebugBuffer \<Rightarrow> nat \<Rightarrow> u32 list \<Rightarrow> u32 list \<Rightarrow> DebugBuffer \<times> u32 list" where
  "codeview_checksums out checksums_start offsets [] = (out, offsets)"
| "codeview_checksums out checksums_start offsets (s # ss) =
     (let o' = word_of_nat (length out - checksums_start);
          out = debug_buffer_u32 out s;
          out = debug_buffer_u8 out 0;
          out = debug_buffer_u8 out 0;
          out = debug_buffer_align4 out
      in codeview_checksums out checksums_start (offsets @ [o']) ss)"

definition codeview_line :: "DebugBuffer \<Rightarrow> DebugLine \<Rightarrow> DebugBuffer" where
  "codeview_line out l =
     debug_buffer_u32 (debug_buffer_u32 out (word_of_nat (dl_offset l)))
       (dl_line l AND 0x00FFFFFF OR 0x80000000)"

text \<open>The blocks of the line subsection, one for each file that has lines.\<close>

fun codeview_blocks ::
  "DebugLine list \<Rightarrow> DebugBuffer \<Rightarrow> (DebugFile \<times> u32) list \<Rightarrow> OutputMessage + DebugBuffer" where
  "codeview_blocks lines out [] = Inr out"
| "codeview_blocks lines out ((f, checksum) # fs) =
     (let mine = filter (\<lambda>l. dl_file_id l = df_id f) lines;
          line_count = length mine
      in if line_count = 0 then codeview_blocks lines out fs
         else if line_count > UINT32_MAX \<or> line_count > (UINT32_MAX - 12) div 8 then Inl MSG_CODEVIEW_BLOCK
         else
           let out = debug_buffer_u32 out checksum;
               out = debug_buffer_u32 out (word_of_nat line_count);
               out = debug_buffer_u32 out (word_of_nat (12 + line_count * 8))
           in codeview_blocks lines (foldl codeview_line out mine) fs)"

definition output_build_codeview_line ::
  "DebugFile list \<Rightarrow> DebugLine list \<Rightarrow> nat \<Rightarrow> OutputMessage + CodeViewLineSection" where
  "output_build_codeview_line files lines text_size =
     (if \<not> debug_contract_is_valid files lines text_size then Inl MSG_CODEVIEW_INVALID
      else if length files > UINT32_MAX \<or> length lines > UINT32_MAX \<or> text_size > UINT32_MAX
      then Inl MSG_CODEVIEW_LIMITS
      else
        let out = debug_buffer_u32 [] 4;
            (out, strings_length) = codeview_write_subsection_header out 0xF3;
            strings_start = length out;
            out = debug_buffer_u8 out 0
        in case codeview_strings out strings_start [] files of
             Inl m \<Rightarrow> Inl m
           | Inr (out, string_offsets) \<Rightarrow>
               let out = codeview_finish_subsection out strings_length strings_start;
                   (out, checksums_length) = codeview_write_subsection_header out 0xF4;
                   checksums_start = length out;
                   (out, checksum_offsets) = codeview_checksums out checksums_start [] string_offsets;
                   out = codeview_finish_subsection out checksums_length checksums_start;
                   (out, lines_length) = codeview_write_subsection_header out 0xF2;
                   lines_start = length out;
                   offset_relocation = length out;
                   out = debug_buffer_u32 out 0;
                   index_relocation = length out;
                   out = debug_buffer_u16 out 0;
                   out = debug_buffer_u16 out 0;
                   out = debug_buffer_u32 out (word_of_nat text_size)
               in case codeview_blocks lines out (zip files checksum_offsets) of
                    Inl m \<Rightarrow> Inl m
                  | Inr out \<Rightarrow>
                      Inr \<lparr>codeview_data = codeview_finish_subsection out lines_length lines_start,
                           section_offset_relocation = offset_relocation,
                           section_index_relocation = index_relocation\<rparr>)"

end
