(* ===== verification/Dwarf_Read.thy ===== *)
theory Dwarf_Read
  imports Debug_Line
begin

text \<open>
  An independent reader of DWARF 4 line sections: LEB128 numbers, the header with its file table,
  and the line-number machine that turns the program into rows. The section the assembler builds
  is read back by it as exactly the line records, at whatever address the linker places the text.
\<close>

section \<open>LEB128\<close>

fun uleb_read :: "u8 list \<Rightarrow> (nat \<times> u8 list) option" where
  "uleb_read [] = None"
| "uleb_read (b # bs) =
     (if unat b < 128 then Some (unat b, bs)
      else case uleb_read bs of None \<Rightarrow> None | Some (n, r) \<Rightarrow> Some (unat b - 128 + 128 * n, r))"

fun sleb_read :: "u8 list \<Rightarrow> (int \<times> u8 list) option" where
  "sleb_read [] = None"
| "sleb_read (b # bs) =
     (if unat b < 128 then Some (if unat b < 64 then int (unat b) else int (unat b) - 128, bs)
      else case sleb_read bs of None \<Rightarrow> None
           | Some (n, r) \<Rightarrow> Some (int (unat b - 128) + 128 * n, r))"

lemma low_byte: "unat (ucast (v AND 0x7F :: u64) :: u8) = unat v mod 128"
proof -
  have "v AND 0x7F = take_bit 7 v" by (simp add: take_bit_eq_mask mask_eq_exp_minus_1)
  then have "unat (v AND 0x7F) = unat v mod 128"
    by (simp only: unsigned_take_bit_eq) (simp add: take_bit_eq_mod)
  then show ?thesis by (simp add: unat_ucast_u8)
qed

lemma more_byte: "n < 128 \<Longrightarrow> unat ((word_of_nat n :: u8) OR 0x80) = n + 128"
proof -
  have "list_all (\<lambda>n. n < 128 \<longrightarrow> unat ((word_of_nat n :: u8) OR 0x80) = n + 128) [0..<256]"
    by code_simp
  then show "n < 128 \<Longrightarrow> ?thesis" unfolding list_all_iff by force
qed

lemma low_byte_more: "unat ((ucast (v AND 0x7F :: u64) :: u8) OR 0x80) = unat v mod 128 + 128"
proof -
  have "(ucast (v AND 0x7F) :: u8) = word_of_nat (unat v mod 128)"
    by (simp flip: low_byte)
  then show ?thesis by (simp add: more_byte)
qed

lemma shifted_7: "unat (drop_bit 7 (v :: u64)) = unat v div 128"
  by (simp only: unat_drop_bit_eq) (simp add: drop_bit_eq_div)

lemma shifted_7_zero: "drop_bit 7 (v :: u64) = 0 \<longleftrightarrow> unat v < 128"
  using shifted_7 [of v] by (simp add: unat_eq_zero [symmetric] div_eq_0_iff)

text \<open>One byte, and the rest when there is more.\<close>

lemma uleb_bytes:
  "debug_buffer_uleb b v = b @ (if unat v < 128 then [word_of_nat (unat v)]
     else word_of_nat (unat v mod 128 + 128) # debug_buffer_uleb [] (drop_bit 7 v))"
proof (induction "unat v" arbitrary: b v rule: less_induct)
  case less
  let ?x = "ucast (v AND 0x7F) :: u8"
  have x: "?x = word_of_nat (unat v mod 128)" "?x OR 0x80 = word_of_nat (unat v mod 128 + 128)"
  proof -
    have "word_of_nat (unat ?x) = ?x" "word_of_nat (unat (?x OR 0x80)) = ?x OR 0x80" by simp_all
    then show "?x = word_of_nat (unat v mod 128)" "?x OR 0x80 = word_of_nat (unat v mod 128 + 128)"
      by (simp_all only: low_byte low_byte_more)
  qed
  show ?case
  proof (cases "unat v < 128")
    case True
    then show ?thesis using shifted_7_zero [of v] x
      by (simp add: debug_buffer_uleb.simps [of _ v] debug_buffer_u8_def debug_buffer_write_def)
  next
    case False
    then have "unat (drop_bit 7 v) < unat v" by (simp add: shifted_7)
    note h = less [OF this]
    have "debug_buffer_uleb (debug_buffer_u8 b (?x OR 0x80)) (drop_bit 7 v)
        = debug_buffer_u8 b (?x OR 0x80) @ debug_buffer_uleb [] (drop_bit 7 v)"
      using h [of "debug_buffer_u8 b (?x OR 0x80)"] h [of "[]"] by simp
    then show ?thesis using False shifted_7_zero [of v] x
      by (simp add: debug_buffer_uleb.simps [of _ v] debug_buffer_u8_def debug_buffer_write_def)
  qed
qed

lemma uleb_append: "debug_buffer_uleb b v = b @ debug_buffer_uleb [] v"
  by (subst (1 2) uleb_bytes) simp

lemma uleb_read_back: "uleb_read (debug_buffer_uleb [] v @ r) = Some (unat v, r)"
proof (induction "unat v" arbitrary: v rule: less_induct)
  case less
  have m: "unat (word_of_nat (unat v mod 128 + 128) :: u8) = unat v mod 128 + 128"
    by (subst unat_of_nat) (simp add: take_bit_nat_eq_self)
  show ?case
  proof (cases "unat v < 128")
    case True
    then have "unat (word_of_nat (unat v) :: u8) = unat v"
      by (subst unat_of_nat) (simp add: take_bit_nat_eq_self)
    then show ?thesis using True by (subst uleb_bytes) simp
  next
    case False
    then have "unat (drop_bit 7 v) < unat v" by (simp add: shifted_7)
    from less [OF this] show ?thesis using False m by (subst uleb_bytes) (simp add: shifted_7)
  qed
qed

lemma signed_low: "int (unat (v :: i64) mod 128) = sint v mod 128"
proof -
  have "(128 :: int) dvd 2 ^ 64" by simp
  then have "sint v mod 2 ^ 64 mod 128 = sint v mod 128" by (rule mod_mod_cancel)
  moreover have "uint v = sint v mod 2 ^ 64" by (simp add: uint_sint take_bit_eq_mod)
  ultimately show ?thesis by (simp add: zmod_int)
qed

lemma sign_bit: "n < 128 \<Longrightarrow> (word_of_nat n :: u8) AND 0x40 \<noteq> 0 \<longleftrightarrow> n \<ge> 64"
proof -
  have "list_all (\<lambda>n. n < 128 \<longrightarrow> ((word_of_nat n :: u8) AND 0x40 \<noteq> 0 \<longleftrightarrow> n \<ge> 64)) [0..<128]"
    by code_simp
  then show "n < 128 \<Longrightarrow> ?thesis" unfolding list_all_iff by force
qed

lemma sleb_stops:
  fixes v :: i64
  defines "byte \<equiv> ucast (v AND 0x7F) :: u8"
  shows "(signed_drop_bit 7 v = 0 \<and> \<not> (byte AND 0x40 \<noteq> 0) \<or> signed_drop_bit 7 v = - 1 \<and> byte AND 0x40 \<noteq> 0)
     \<longleftrightarrow> - 64 \<le> sint v \<and> sint v < 64"
proof -
  have b: "byte = word_of_nat (unat v mod 128)"
    by (simp only: byte_def flip: low_byte) simp
  have s: "byte AND 0x40 \<noteq> 0 \<longleftrightarrow> sint v mod 128 \<ge> 64"
    unfolding b using sign_bit [of "unat v mod 128"] by (simp flip: signed_low)
  have z: "signed_drop_bit 7 v = 0 \<longleftrightarrow> sint v div 128 = 0"
    using sint_shift_7 [of v] signed_word_eqI [of "signed_drop_bit 7 v" 0] by auto
  have m: "signed_drop_bit 7 v = - 1 \<longleftrightarrow> sint v div 128 = - 1"
    using sint_shift_7 [of v] signed_word_eqI [of "signed_drop_bit 7 v" "- 1"] by auto
  show ?thesis unfolding s z m by presburger
qed

lemma sleb_bytes:
  "debug_buffer_sleb b v = b @ (if - 64 \<le> sint v \<and> sint v < 64 then [word_of_nat (unat v mod 128)]
     else word_of_nat (unat v mod 128 + 128) # debug_buffer_sleb [] (signed_drop_bit 7 v))"
proof (induction "nat (if sint v \<ge> 0 then 2 * sint v else - 2 * sint v - 1)" arbitrary: b v rule: less_induct)
  case less
  let ?x = "ucast (v AND 0x7F) :: u8"
  have x: "?x = word_of_nat (unat v mod 128)" "?x OR 0x80 = word_of_nat (unat v mod 128 + 128)"
  proof -
    have "word_of_nat (unat ?x) = ?x" "word_of_nat (unat (?x OR 0x80)) = ?x OR 0x80" by simp_all
    then show "?x = word_of_nat (unat v mod 128)" "?x OR 0x80 = word_of_nat (unat v mod 128 + 128)"
      by (simp_all only: low_byte low_byte_more)
  qed
  show ?case
  proof (cases "- 64 \<le> sint v \<and> sint v < 64")
    case True
    then show ?thesis using sleb_stops [of v] x(1)
      by (subst debug_buffer_sleb.simps) (auto simp: Let_def debug_buffer_u8_def debug_buffer_write_def)
  next
    case False
    let ?v = "signed_drop_bit 7 v"
    have "nat (if sint ?v \<ge> 0 then 2 * sint ?v else - 2 * sint ?v - 1)
        < nat (if sint v \<ge> 0 then 2 * sint v else - 2 * sint v - 1)"
      using False by (auto simp: sint_shift_7 pos_imp_zdiv_nonneg_iff)
    note h = less [OF this]
    have "debug_buffer_sleb (debug_buffer_u8 b (?x OR 0x80)) ?v
        = debug_buffer_u8 b (?x OR 0x80) @ debug_buffer_sleb [] ?v"
      using h [of "debug_buffer_u8 b (?x OR 0x80)"] h [of "[]"] by simp
    then show ?thesis using False sleb_stops [of v] x(2)
      by (subst debug_buffer_sleb.simps) (auto simp: Let_def debug_buffer_u8_def debug_buffer_write_def)
  qed
qed

lemma sleb_append: "debug_buffer_sleb b v = b @ debug_buffer_sleb [] v"
  by (subst (1 2) sleb_bytes) simp

lemma sleb_read_back: "sleb_read (debug_buffer_sleb [] v @ r) = Some (sint v, r)"
proof (induction "nat (if sint v \<ge> 0 then 2 * sint v else - 2 * sint v - 1)" arbitrary: v rule: less_induct)
  case less
  have m: "unat (word_of_nat (unat v mod 128 + 128) :: u8) = unat v mod 128 + 128"
    "unat (word_of_nat (unat v mod 128) :: u8) = unat v mod 128"
    by (subst unat_of_nat, simp add: take_bit_nat_eq_self)+
  show ?case
  proof (cases "- 64 \<le> sint v \<and> sint v < 64")
    case True
    have "(if unat v mod 128 < 64 then int (unat v mod 128) else int (unat v mod 128) - 128) = sint v"
    proof -
      have "unat v mod 128 < 64 \<longleftrightarrow> sint v mod 128 < 64" by (simp flip: signed_low)
      moreover have "sint v mod 128 = (if sint v \<ge> 0 then sint v else sint v + 128)"
        using True mod_pos_pos_trivial [of "sint v + 128" 128] by auto
      ultimately show ?thesis unfolding signed_low using True by auto
    qed
    then show ?thesis using True m by (subst sleb_bytes) auto
  next
    case False
    let ?v = "signed_drop_bit 7 v"
    have "nat (if sint ?v \<ge> 0 then 2 * sint ?v else - 2 * sint ?v - 1)
        < nat (if sint v \<ge> 0 then 2 * sint v else - 2 * sint v - 1)"
      using False by (auto simp: sint_shift_7 pos_imp_zdiv_nonneg_iff)
    from less [OF this] show ?thesis using False m
      by (subst sleb_bytes) (auto simp: sint_shift_7 signed_low)
  qed
qed

section \<open>The line-number machine\<close>

text \<open>
  The registers of the machine, which are also the rows it emits: an opcode changes the registers
  and may append a row. Only the opcodes of the standard that need no header field appear.
\<close>

record LineRow =
  row_address :: u64
  row_file :: nat
  row_line :: int
  row_column :: nat
  row_end :: bool

definition initial_row :: LineRow where
  "initial_row = \<lparr>row_address = 0, row_file = 1, row_line = 1, row_column = 0, row_end = False\<rparr>"

definition line_op :: "LineRow \<Rightarrow> u8 list \<Rightarrow> (LineRow list \<times> LineRow \<times> u8 list) option" where
  "line_op r bytes = (case bytes of
     [] \<Rightarrow> None
   | b # bs \<Rightarrow>
       if b = 0 then
         (case uleb_read bs of
            None \<Rightarrow> None
          | Some (n, bs) \<Rightarrow>
              if n = 9 \<and> length bs \<ge> 9 \<and> hd bs = 2 then
                Some ([], r\<lparr>row_address := word_of_nat (le_nat (take 8 (tl bs)))\<rparr>, drop 9 bs)
              else if n = 1 \<and> bs \<noteq> [] \<and> hd bs = 1 then
                Some ([r\<lparr>row_end := True\<rparr>], initial_row, tl bs)
              else None)
       else if b = 1 then Some ([r], r, bs)
       else if b = 2 then
         map_option (\<lambda>(n, bs). ([], r\<lparr>row_address := row_address r + word_of_nat n\<rparr>, bs)) (uleb_read bs)
       else if b = 3 then
         map_option (\<lambda>(n, bs). ([], r\<lparr>row_line := row_line r + n\<rparr>, bs)) (sleb_read bs)
       else if b = 4 then map_option (\<lambda>(n, bs). ([], r\<lparr>row_file := n\<rparr>, bs)) (uleb_read bs)
       else if b = 5 then map_option (\<lambda>(n, bs). ([], r\<lparr>row_column := n\<rparr>, bs)) (uleb_read bs)
       else None)"

function line_program :: "LineRow \<Rightarrow> u8 list \<Rightarrow> LineRow list option" where
  "line_program r bytes =
     (if bytes = [] then Some []
      else case line_op r bytes of
        None \<Rightarrow> None
      | Some (rows, r', rest) \<Rightarrow>
          if length rest < length bytes then map_option ((@) rows) (line_program r' rest) else None)"
  by pat_completeness auto
termination by (relation "measure (\<lambda>(r, bytes). length bytes)") auto

declare line_program.simps [simp del]

lemma program_op:
  assumes "line_op r (xs @ rest) = Some (rows, r', rest)" "xs \<noteq> []"
  shows "line_program r (xs @ rest) = map_option ((@) rows) (line_program r' rest)"
  using assms by (subst line_program.simps) simp

section \<open>The section\<close>

text \<open>A table of zero-terminated names that an empty name ends, each followed by \<open>extra\<close>.\<close>

definition cstr_read :: "u8 list \<Rightarrow> (cstr \<times> u8 list) option" where
  "cstr_read bs = (case dropWhile (\<lambda>b. b \<noteq> 0) bs of
     [] \<Rightarrow> None | _ # r \<Rightarrow> Some (takeWhile (\<lambda>b. b \<noteq> 0) bs, r))"

definition file_entry_read :: "u8 list \<Rightarrow> (cstr \<times> u8 list) option" where
  "file_entry_read bs =
     (case cstr_read bs of None \<Rightarrow> None | Some (s, bs) \<Rightarrow>
      case uleb_read bs of None \<Rightarrow> None | Some (_, bs) \<Rightarrow>
      case uleb_read bs of None \<Rightarrow> None | Some (_, bs) \<Rightarrow>
      case uleb_read bs of None \<Rightarrow> None | Some (_, bs) \<Rightarrow> Some (s, bs))"

function table_read :: "(u8 list \<Rightarrow> (cstr \<times> u8 list) option) \<Rightarrow> u8 list \<Rightarrow> (cstr list \<times> u8 list) option" where
  "table_read entry bytes =
     (case bytes of
        [] \<Rightarrow> None
      | b # rest \<Rightarrow>
          if b = 0 then Some ([], rest)
          else case entry bytes of
            None \<Rightarrow> None
          | Some (s, rest) \<Rightarrow>
              if length rest < length bytes
              then map_option (\<lambda>(ss, r). (s # ss, r)) (table_read entry rest) else None)"
  by pat_completeness auto
termination by (relation "measure (\<lambda>(e, bytes). length bytes)") auto

declare table_read.simps [simp del]

text \<open>
  The file names and the rows of a section that is one unit of DWARF 4 in the 32-bit format, with
  one-byte instructions and the operand counts of the twelve standard opcodes.
\<close>

definition dwarf_read :: "u8 list \<Rightarrow> (cstr list \<times> LineRow list) option" where
  "dwarf_read bs =
     (let body = drop 10 bs in
      if le_nat (take 4 bs) + 4 \<noteq> length bs \<or> le_nat (take 2 (drop 4 bs)) \<noteq> 4
         \<or> take 3 body \<noteq> [1, 1, 1] \<or> take 1 (drop 5 body) \<noteq> [13]
         \<or> take 12 (drop 6 body) \<noteq> [0, 1, 1, 1, 1, 0, 0, 0, 1, 0, 0, 1]
      then None
      else case table_read cstr_read (drop 18 body) of
        None \<Rightarrow> None
      | Some (directories, rest) \<Rightarrow>
          (case table_read file_entry_read rest of
             None \<Rightarrow> None
           | Some (files, program) \<Rightarrow>
               if drop (le_nat (take 4 (drop 6 bs))) body \<noteq> program then None
               else map_option (Pair files) (line_program initial_row program)))"

text \<open>What the linker does to a 64-bit field.\<close>

definition relocate64 :: "u8 list \<Rightarrow> nat \<Rightarrow> u64 \<Rightarrow> u8 list" where
  "relocate64 bs off v = take off bs @ le_bytes 8 v @ drop (off + 8) bs"

lemma relocate64_at:
  "length xs = n \<Longrightarrow> length zs = 8 \<Longrightarrow> relocate64 (xs @ zs @ ys) n v = xs @ le_bytes 8 v @ ys"
  by (simp add: relocate64_def)

section \<open>The steps of the writer\<close>

lemma prepend_maps [simp]:
  "map_option ((@) []) x = x" "(@) [r] = (#) r" "map_option (\<lambda>y. rs @ qs @ y) z = map_option ((@) (rs @ qs)) z"
  by (cases x) (auto simp: fun_eq_iff intro: option.map_cong0)

lemma unat_wide [simp]: "unat (ucast (v :: u32) :: u64) = unat v"
  using unsigned_less [of v, where ?'a = nat] by (simp add: unsigned_ucast_eq take_bit_nat_eq_self)

lemma sint_wide: "sint (ucast (v :: u32) :: i64) = uint v"
proof -
  have "uint v < 2 ^ 32" using unsigned_less [of v, where ?'a = int] by simp
  then have "uint (ucast v :: i64) = uint v" by (simp add: unsigned_ucast_eq take_bit_int_eq_self)
  moreover have "signed_take_bit 63 (uint v) = uint v"
    using \<open>uint v < 2 ^ 32\<close> by (intro signed_take_bit_int_eq_self) (auto intro: order_trans [of _ 0])
  ultimately show ?thesis by (simp add: sint_uint)
qed

text \<open>The registers after the bytes written so far, in a text placed at \<open>base\<close>.\<close>

definition dwarf_regs :: "u64 \<Rightarrow> DwarfState \<Rightarrow> LineRow" where
  "dwarf_regs base st =
     \<lparr>row_address = base + current_address st, row_file = unat (current_file st),
      row_line = sint (current_line st), row_column = unat (current_column st), row_end = False\<rparr>"

definition line_row :: "DebugFile list \<Rightarrow> u64 \<Rightarrow> DebugLine \<Rightarrow> LineRow" where
  "line_row files base l =
     \<lparr>row_address = base + word_of_nat (dl_offset l), row_file = the (debug_file_index files (dl_file_id l)) + 1,
      row_line = uint (dl_line l), row_column = unat (dl_column l), row_end = False\<rparr>"

lemma uleb_nonempty [simp]: "debug_buffer_uleb [] v \<noteq> []" "debug_buffer_sleb [] w \<noteq> []"
  by (subst uleb_bytes, simp) (subst sleb_bytes, simp)

text \<open>The effect of each opcode the writer emits.\<close>

lemma op_effects:
  "line_program r (4 # debug_buffer_uleb [] v @ rest) = line_program (r\<lparr>row_file := unat v\<rparr>) rest"
  "line_program r (5 # debug_buffer_uleb [] v @ rest) = line_program (r\<lparr>row_column := unat v\<rparr>) rest"
  "line_program r (3 # debug_buffer_sleb [] w @ rest) = line_program (r\<lparr>row_line := row_line r + sint w\<rparr>) rest"
  "line_program r (2 # debug_buffer_uleb [] v @ rest) = line_program (r\<lparr>row_address := row_address r + v\<rparr>) rest"
  "line_program r (1 # rest) = map_option ((#) r) (line_program r rest)"
  "line_program r (0 # debug_buffer_uleb [] 9 @ 2 # le_bytes 8 v @ rest)
     = line_program (r\<lparr>row_address := v\<rparr>) rest"
  "line_program r (0 # debug_buffer_uleb [] 1 @ 1 # rest)
     = map_option ((#) (r\<lparr>row_end := True\<rparr>)) (line_program initial_row rest)"
proof -
  show "line_program r (4 # debug_buffer_uleb [] v @ rest) = line_program (r\<lparr>row_file := unat v\<rparr>) rest"
    using program_op [of r "4 # debug_buffer_uleb [] v" rest "[]" "r\<lparr>row_file := unat v\<rparr>"]
    by (simp add: line_op_def uleb_read_back)
  show "line_program r (5 # debug_buffer_uleb [] v @ rest) = line_program (r\<lparr>row_column := unat v\<rparr>) rest"
    using program_op [of r "5 # debug_buffer_uleb [] v" rest "[]" "r\<lparr>row_column := unat v\<rparr>"]
    by (simp add: line_op_def uleb_read_back)
  show "line_program r (3 # debug_buffer_sleb [] w @ rest) = line_program (r\<lparr>row_line := row_line r + sint w\<rparr>) rest"
    using program_op [of r "3 # debug_buffer_sleb [] w" rest "[]" "r\<lparr>row_line := row_line r + sint w\<rparr>"]
    by (simp add: line_op_def sleb_read_back)
  show "line_program r (2 # debug_buffer_uleb [] v @ rest) = line_program (r\<lparr>row_address := row_address r + v\<rparr>) rest"
    using program_op [of r "2 # debug_buffer_uleb [] v" rest "[]" "r\<lparr>row_address := row_address r + v\<rparr>"]
    by (simp add: line_op_def uleb_read_back)
  show "line_program r (1 # rest) = map_option ((#) r) (line_program r rest)"
    using program_op [of r "[1]" rest "[r]" r] by (simp add: line_op_def)
  show "line_program r (0 # debug_buffer_uleb [] 9 @ 2 # le_bytes 8 v @ rest)
     = line_program (r\<lparr>row_address := v\<rparr>) rest"
    using program_op [of r "0 # debug_buffer_uleb [] 9 @ 2 # le_bytes 8 v" rest "[]" "r\<lparr>row_address := v\<rparr>"]
      uleb_read_back [of 9 "2 # le_bytes 8 v @ rest"] word_of_le_bytes [of 8 v]
    by (simp add: line_op_def)
  show "line_program r (0 # debug_buffer_uleb [] 1 @ 1 # rest)
     = map_option ((#) (r\<lparr>row_end := True\<rparr>)) (line_program initial_row rest)"
    using program_op [of r "0 # debug_buffer_uleb [] 1 @ [1]" rest "[r\<lparr>row_end := True\<rparr>]" initial_row]
      uleb_read_back [of 1 "1 # rest"]
    by (simp add: line_op_def)
qed

lemmas buffer_defs = debug_buffer_u8_def debug_buffer_write_def

text \<open>Each of the four register updates as a function of its own.\<close>

definition put_file :: "u32 \<Rightarrow> DwarfState \<Rightarrow> DwarfState" where
  "put_file v st = (if v \<noteq> current_file st
     then st\<lparr>dwarf_out := debug_buffer_uleb (debug_buffer_u8 (dwarf_out st) 4) (ucast v),
             current_file := v\<rparr> else st)"

definition put_column :: "u32 \<Rightarrow> DwarfState \<Rightarrow> DwarfState" where
  "put_column v st = (if v \<noteq> current_column st
     then st\<lparr>dwarf_out := debug_buffer_uleb (debug_buffer_u8 (dwarf_out st) 5) (ucast v),
             current_column := v\<rparr> else st)"

definition put_line :: "i64 \<Rightarrow> DwarfState \<Rightarrow> DwarfState" where
  "put_line v st = (if v \<noteq> current_line st
     then st\<lparr>dwarf_out := debug_buffer_sleb (debug_buffer_u8 (dwarf_out st) 3) (v - current_line st),
             current_line := v\<rparr> else st)"

definition put_address :: "u64 \<Rightarrow> DwarfState \<Rightarrow> DwarfState" where
  "put_address v st = (if v \<noteq> current_address st
     then st\<lparr>dwarf_out := debug_buffer_uleb (debug_buffer_u8 (dwarf_out st) 2) (v - current_address st),
             current_address := v\<rparr> else st)"

definition put_copy :: "DwarfState \<Rightarrow> DwarfState" where
  "put_copy st = st\<lparr>dwarf_out := debug_buffer_u8 (dwarf_out st) 1\<rparr>"

lemma line_step_put:
  "dwarf_line_step files st l = (case debug_file_index files (dl_file_id l) of
     None \<Rightarrow> Inl MSG_DWARF_FILE
   | Some i \<Rightarrow> Inr (put_copy (put_address (word_of_nat (dl_offset l)) (put_line (ucast (dl_line l))
       (put_column (dl_column l) (put_file (word_of_nat i + 1) st))))))"
  unfolding dwarf_line_step_def put_copy_def put_address_def put_line_def put_column_def put_file_def Let_def
  by (rule refl)

text \<open>
  A step of the writer: the machine reads the bytes it appended as the change of the registers and
  the rows \<open>rs\<close>, whatever follows.
\<close>

definition writes :: "u64 \<Rightarrow> DwarfState \<Rightarrow> LineRow list \<Rightarrow> DwarfState \<Rightarrow> bool" where
  "writes base st rs st' \<longleftrightarrow> (\<exists>bs. dwarf_out st' = dwarf_out st @ bs
     \<and> (\<forall>rest. line_program (dwarf_regs base st) (bs @ rest)
          = map_option ((@) rs) (line_program (dwarf_regs base st') rest)))"

lemma writes_trans:
  assumes "writes base st rs st'" "writes base st' rs' st''"
  shows "writes base st (rs @ rs') st''"
proof -
  obtain bs bs' where "dwarf_out st' = dwarf_out st @ bs" "dwarf_out st'' = dwarf_out st' @ bs'"
    "\<forall>rest. line_program (dwarf_regs base st) (bs @ rest) = map_option ((@) rs) (line_program (dwarf_regs base st') rest)"
    "\<forall>rest. line_program (dwarf_regs base st') (bs' @ rest) = map_option ((@) rs') (line_program (dwarf_regs base st'') rest)"
    using assms by (auto simp: writes_def)
  then show ?thesis
    by (auto simp: writes_def option.map_comp o_def intro!: exI [of _ "bs @ bs'"])
qed

lemma writes_refl [simp]: "writes base st [] st"
  by (simp add: writes_def)

lemma writesI:
  assumes "dwarf_out st' = dwarf_out st @ bs"
    "\<And>rest. line_program (dwarf_regs base st) (bs @ rest) = line_program (dwarf_regs base st') rest"
  shows "writes base st [] st'"
  using assms by (auto simp: writes_def)

lemma writes_file: "writes base st [] (put_file v st)"
proof (cases "v = current_file st")
  case False
  have o: "dwarf_out (put_file v st) = dwarf_out st @ 4 # debug_buffer_uleb [] (ucast v)"
    using False by (simp add: put_file_def buffer_defs) (subst uleb_append, simp)
  have g: "dwarf_regs base (put_file v st) = (dwarf_regs base st)\<lparr>row_file := unat (ucast v :: u64)\<rparr>"
    using False by (simp add: put_file_def dwarf_regs_def)
  show ?thesis by (rule writesI [OF o]) (simp only: g append_Cons op_effects)
qed (simp add: put_file_def)

lemma writes_column: "writes base st [] (put_column v st)"
proof (cases "v = current_column st")
  case False
  have o: "dwarf_out (put_column v st) = dwarf_out st @ 5 # debug_buffer_uleb [] (ucast v)"
    using False by (simp add: put_column_def buffer_defs) (subst uleb_append, simp)
  have g: "dwarf_regs base (put_column v st) = (dwarf_regs base st)\<lparr>row_column := unat (ucast v :: u64)\<rparr>"
    using False by (simp add: put_column_def dwarf_regs_def)
  show ?thesis by (rule writesI [OF o]) (simp only: g append_Cons op_effects)
qed (simp add: put_column_def)

lemma writes_address: "writes base st [] (put_address v st)"
proof (cases "v = current_address st")
  case False
  have o: "dwarf_out (put_address v st) = dwarf_out st @ 2 # debug_buffer_uleb [] (v - current_address st)"
    using False by (simp add: put_address_def buffer_defs) (subst uleb_append, simp)
  have g: "dwarf_regs base (put_address v st)
      = (dwarf_regs base st)\<lparr>row_address := row_address (dwarf_regs base st) + (v - current_address st)\<rparr>"
    using False by (simp add: put_address_def dwarf_regs_def)
  show ?thesis by (rule writesI [OF o]) (simp only: g append_Cons op_effects)
qed (simp add: put_address_def)

text \<open>Line numbers are 32-bit values in 64-bit registers, so their difference does not wrap.\<close>

lemma writes_line:
  assumes "sint (current_line st) \<in> {0 ..< 2 ^ 32}" "sint v \<in> {0 ..< 2 ^ 32}"
  shows "writes base st [] (put_line v st)"
proof (cases "v = current_line st")
  case False
  have d: "sint (v - current_line st) = sint v - sint (current_line st)"
  proof -
    have "v - current_line st = word_of_int (sint v - sint (current_line st))" by simp
    then have "sint (v - current_line st) = signed_take_bit 63 (sint v - sint (current_line st))"
      by (simp only: sint_sbintrunc') simp
    then show ?thesis using assms by (simp add: signed_take_bit_int_eq_self)
  qed
  have o: "dwarf_out (put_line v st) = dwarf_out st @ 3 # debug_buffer_sleb [] (v - current_line st)"
    using False by (simp add: put_line_def buffer_defs) (subst sleb_append, simp)
  have g: "dwarf_regs base (put_line v st)
      = (dwarf_regs base st)\<lparr>row_line := row_line (dwarf_regs base st) + sint (v - current_line st)\<rparr>"
    using False d by (simp add: put_line_def dwarf_regs_def)
  show ?thesis by (rule writesI [OF o]) (simp only: g append_Cons op_effects)
qed (simp add: put_line_def)

lemma writes_copy: "writes base st [dwarf_regs base st] (put_copy st)"
  unfolding writes_def
  by (rule exI [of _ "[1]"])
    (simp add: put_copy_def buffer_defs op_effects(5) dwarf_regs_def)

section \<open>The program of a section\<close>

lemma find_file_less: "debug_file_index files id' = Some i \<Longrightarrow> i < length files"
proof -
  have "debug_file_index_from fs id' k = Some i \<Longrightarrow> i < k + length fs" for fs k
    by (induction fs arbitrary: k) (force split: if_splits)+
  then show "debug_file_index files id' = Some i \<Longrightarrow> ?thesis" by (force simp: debug_file_index_def)
qed

lemma line_step_writes:
  assumes "dwarf_line_step files st l = Inr st'" "length files \<le> UINT32_MAX"
    "sint (current_line st) \<in> {0 ..< 2 ^ 32}"
  shows "writes base st [line_row files base l] st'" "dwarf_regs base st' = line_row files base l"
    "sint (current_line st') \<in> {0 ..< 2 ^ 32}" "current_address st' = word_of_nat (dl_offset l)"
proof -
  obtain i where i: "debug_file_index files (dl_file_id l) = Some i"
    and st': "st' = put_copy (put_address (word_of_nat (dl_offset l)) (put_line (ucast (dl_line l))
       (put_column (dl_column l) (put_file (word_of_nat i + 1) st))))"
    using assms(1) by (auto simp: line_step_put split: option.splits)
  define s2 where "s2 = put_column (dl_column l) (put_file (word_of_nat i + 1) st)"
  define s4 where "s4 = put_address (word_of_nat (dl_offset l)) (put_line (ucast (dl_line l)) s2)"
  have c2: "current_line s2 = current_line st" "current_file s2 = word_of_nat i + 1"
    "current_column s2 = dl_column l"
    by (simp_all add: s2_def put_column_def put_file_def)
  have c4: "current_line s4 = ucast (dl_line l)" "current_file s4 = word_of_nat i + 1"
    "current_column s4 = dl_column l" "current_address s4 = word_of_nat (dl_offset l)"
    using c2 by (simp_all add: s4_def put_address_def put_line_def)
  have u: "uint (dl_line l) \<in> {0 ..< 2 ^ 32}" using unsigned_less [of "dl_line l", where ?'a = int] by simp
  have "i + 1 < 2 ^ 32" using find_file_less [OF i] assms(2) by (simp add: UINT32_MAX_def)
  then have "unat (word_of_nat (i + 1) :: u32) = i + 1"
    by (subst unat_of_nat) (simp add: take_bit_nat_eq_self)
  then have f: "unat (word_of_nat i + 1 :: u32) = i + 1" by (simp only: of_nat_add of_nat_1)
  have r: "dwarf_regs base s4 = line_row files base l"
    using c4 f i by (simp add: dwarf_regs_def line_row_def sint_wide)
  have "writes base st [] s2"
    using writes_trans [OF writes_file writes_column] by (simp add: s2_def)
  moreover have "writes base s2 [] s4"
    using writes_trans [OF writes_line writes_address] assms(3) c2 u by (simp add: s4_def sint_wide)
  ultimately have "writes base st [] s4" using writes_trans by fastforce
  then show "writes base st [line_row files base l] st'"
    using writes_trans [OF _ writes_copy, of base st "[]" s4] r by (simp add: st' flip: s2_def s4_def)
  show "dwarf_regs base st' = line_row files base l"
    using r by (simp add: st' put_copy_def dwarf_regs_def flip: s2_def s4_def)
  show "sint (current_line st') \<in> {0 ..< 2 ^ 32}" "current_address st' = word_of_nat (dl_offset l)"
    using c4 u by (simp_all add: st' put_copy_def sint_wide flip: s2_def s4_def)
qed

lemma lines_writes:
  assumes "dwarf_lines files st ls = Inr st'" "length files \<le> UINT32_MAX"
    "sint (current_line st) \<in> {0 ..< 2 ^ 32}"
  shows "writes base st (map (line_row files base) ls) st'
    \<and> (ls \<noteq> [] \<longrightarrow> dwarf_regs base st' = line_row files base (last ls)
                 \<and> current_address st' = word_of_nat (dl_offset (last ls)))"
  using assms
proof (induction ls arbitrary: st)
  case (Cons l ls)
  then obtain st1 where st1: "dwarf_line_step files st l = Inr st1" "dwarf_lines files st1 ls = Inr st'"
    by (auto split: sum.splits)
  note step = line_step_writes [OF st1(1) Cons.prems(2,3)]
  note rest = Cons.IH [OF st1(2) Cons.prems(2) step(3)]
  show ?case
  proof (cases "ls = []")
    case True
    then show ?thesis using st1(2) step by simp
  next
    case False
    then show ?thesis using rest writes_trans [OF step(1), where rs' = "map (line_row files base) ls" and st'' = st'] by simp
  qed
qed simp

lemma end_sequence_program:
  assumes "current_address st \<le> word_of_nat text_size"
  obtains bs where "dwarf_end_sequence st text_size = dwarf_out st @ bs"
    "line_program (dwarf_regs base st) bs
       = Some [(dwarf_regs base st)\<lparr>row_address := base + word_of_nat text_size, row_end := True\<rparr>]"
proof -
  let ?n = "word_of_nat text_size - current_address st"
  let ?bs = "(if word_of_nat text_size > current_address st then 2 # debug_buffer_uleb [] ?n else [])
     @ 0 # debug_buffer_uleb [] 1 @ [1]"
  have e: "dwarf_end_sequence st text_size = dwarf_out st @ ?bs"
    using uleb_append [of "dwarf_out st @ [2]" ?n]
      uleb_append [of "(dwarf_out st @ 2 # debug_buffer_uleb [] ?n) @ [0]" 1]
      uleb_append [of "dwarf_out st @ [0]" 1]
    by (simp add: dwarf_end_sequence_def buffer_defs)
  have z: "line_program initial_row [] = Some []" by (simp add: line_program.simps)
  have "line_program (dwarf_regs base st) ?bs
       = Some [(dwarf_regs base st)\<lparr>row_address := base + word_of_nat text_size, row_end := True\<rparr>]"
  proof (cases "word_of_nat text_size > current_address st")
    case True
    then show ?thesis using z by (simp add: op_effects dwarf_regs_def)
  next
    case False
    then have "current_address st = word_of_nat text_size" using assms by simp
    then show ?thesis using False z by (simp add: op_effects dwarf_regs_def)
  qed
  with e show thesis by (rule that)
qed

section \<open>The header\<close>

lemma patch_u32_at:
  "length xs = n \<Longrightarrow> debug_buffer_patch_u32 (xs @ a # b # c # d # ys) n v = xs @ le_bytes 4 v @ ys"
proof -
  assume n: "length xs = n"
  have "le_bytes 4 v = [ucast v, ucast (drop_bit 8 v), ucast (drop_bit 16 v), ucast (drop_bit 24 v)]"
    by (simp add: numeral_eq_Suc)
  then show ?thesis using n by (simp add: debug_buffer_patch_u32_def list_update_append)
qed

lemma uleb_zero: "debug_buffer_uleb out 0 = out @ [0]"
  by (subst uleb_bytes) simp

definition file_entry_bytes :: "DebugFile \<Rightarrow> u8 list" where
  "file_entry_bytes f = df_path f @ [0, 0, 0, 0]"

lemma file_entries: "foldl dwarf_file_entry out files = out @ concat (map file_entry_bytes files)"
proof (induction files arbitrary: out)
  case (Cons f files)
  have "dwarf_file_entry out f = out @ file_entry_bytes f"
    by (simp add: dwarf_file_entry_def uleb_zero debug_buffer_write_def file_entry_bytes_def Let_def)
  then show ?case using Cons by simp
qed simp

definition header_body :: "DebugFile list \<Rightarrow> u8 list" where
  "header_body files = [1, 1, 1, - 5, 14, 13] @ standard_opcode_lengths @ [0]
     @ concat (map file_entry_bytes files) @ [0]"

lemma dwarf_header_bytes:
  "dwarf_header files = [0, 0, 0, 0, 4, 0] @ le_bytes 4 (word_of_nat (length (header_body files)) :: u32)
     @ header_body files"
proof -
  have "dwarf_header files = debug_buffer_patch_u32 ([0, 0, 0, 0, 4, 0] @ 0 # 0 # 0 # 0 # header_body files)
      (length [0, 0, 0, 0, 4, 0 :: u8])
      (word_of_nat (length (header_body files)))"
    by (simp add: dwarf_header_def Let_def debug_buffer_u32_def debug_buffer_u16_def buffer_defs
        file_entries header_body_def)
  then show ?thesis by (subst (asm) patch_u32_at) simp_all
qed

lemma file_table:
  assumes "\<forall>f \<in> set files. df_path f \<noteq> [] \<and> 0 \<notin> set (df_path f)"
  shows "table_read file_entry_read (concat (map file_entry_bytes files) @ 0 # rest)
    = Some (map df_path files, rest)"
  using assms
proof (induction files)
  case Nil
  then show ?case by (simp add: table_read.simps)
next
  case (Cons f files)
  obtain b bs where p: "df_path f = b # bs" "b \<noteq> 0" "0 \<notin> set bs" using Cons.prems by (cases "df_path f") auto
  let ?r = "concat (map file_entry_bytes files) @ 0 # rest"
  have n: "x \<noteq> 0" if "x \<in> set (df_path f)" for x using Cons.prems that by auto
  have "dropWhile (\<lambda>x. x \<noteq> 0) (df_path f @ 0 # ys) = 0 # ys" "takeWhile (\<lambda>x. x \<noteq> 0) (df_path f @ 0 # ys) = df_path f"
    for ys using n by (subst dropWhile_append2; simp) (use n in \<open>subst takeWhile_append2; simp\<close>)
  then have "file_entry_read (file_entry_bytes f @ ?r) = Some (df_path f, ?r)"
    by (simp add: file_entry_read_def cstr_read_def file_entry_bytes_def)
  moreover have "file_entry_bytes f = b # bs @ [0, 0, 0, 0]" by (simp add: file_entry_bytes_def p)
  ultimately show ?case using Cons.IH Cons.prems p by (subst table_read.simps) simp
qed

section \<open>Reading a section back\<close>

lemma lines_within:
  "debug_lines_valid files n i prev ls \<Longrightarrow> l \<in> set ls \<Longrightarrow> dl_offset l \<le> n"
  by (induction ls arbitrary: i prev) (auto split: if_splits)

lemma word_of_nat_le:
  assumes "m \<le> n" "n < 2 ^ 64"
  shows "(word_of_nat m :: u64) \<le> word_of_nat n"
proof -
  have "unat (word_of_nat k :: u64) = k" if "k < 2 ^ 64" for k
    using that by (subst unat_of_nat) (simp add: take_bit_nat_eq_self)
  then show ?thesis using assms by (simp add: word_le_nat_alt)
qed

lemma le_nat_u32: "n \<le> UINT32_MAX \<Longrightarrow> le_nat (le_bytes 4 (word_of_nat n :: u32)) = n"
  unfolding le_nat_le_bytes UINT32_MAX_def by (subst unat_of_nat) (simp add: take_bit_nat_eq_self)

text \<open>The reader on a section laid out as header, file table and program.\<close>

lemma dwarf_read_parts:
  assumes "\<forall>f \<in> set files. df_path f \<noteq> [] \<and> 0 \<notin> set (df_path f)"
    "n = 6 + length (header_body files) + length program" "n \<le> UINT32_MAX"
  shows "dwarf_read (le_bytes 4 (word_of_nat n :: u32) @ [4, 0]
      @ le_bytes 4 (word_of_nat (length (header_body files)) :: u32) @ header_body files @ program)
    = map_option (Pair (map df_path files)) (line_program initial_row program)"
proof -
  have h: "le_nat (le_bytes 4 (word_of_nat (length (header_body files)) :: u32)) = length (header_body files)"
    using assms(2,3) by (intro le_nat_u32) simp
  note n = le_nat_u32 [OF assms(3)]
  have b: "header_body files = [1, 1, 1, - 5, 14] @ [13] @ [0, 1, 1, 1, 1, 0, 0, 0, 1, 0, 0, 1] @ [0]
      @ concat (map file_entry_bytes files) @ [0]"
    by (simp add: header_body_def standard_opcode_lengths_def)
  have t: "table_read cstr_read (0 # rest) = Some ([], rest)" for rest by (simp add: table_read.simps)
  define body where "body = header_body files @ program"
  have body: "drop 18 body = 0 # concat (map file_entry_bytes files) @ 0 # program"
    "take 3 body = [1, 1, 1]" "take 1 (drop 5 body) = [13]"
    "take 12 (drop 6 body) = [0, 1, 1, 1, 1, 0, 0, 0, 1, 0, 0, 1]"
    by (simp_all add: body_def b)
  have d: "drop (length (header_body files)) body = program" by (simp add: body_def)
  show ?thesis
    unfolding dwarf_read_def Let_def body_def [symmetric]
    using assms(2) n h body d file_table [OF assms(1), of program] t
    by (simp add: body_def)
qed

text \<open>
  C38. The DWARF section of an object describes its lines: once the linker has written the address
  of the text into the relocated field, the reader finds the paths of the source's debug files and
  one row for each line record, in order and with its address, file number, line and column, and
  the end of the sequence at the end of the text.
\<close>

theorem dwarf_reads_back:
  assumes "output_build_dwarf_line files lines text_size = Inr d" "text_size < 2 ^ 64"
    "\<forall>f \<in> set files. df_path f \<noteq> [] \<and> 0 \<notin> set (df_path f)"
  shows "dwarf_read (relocate64 (dwarf_data d) (address_relocation_offset d) base)
    = Some (map df_path files,
        map (\<lambda>l. \<lparr>row_address = base + word_of_nat (dl_offset l),
                 row_file = the (debug_file_index files (dl_file_id l)) + 1, row_line = uint (dl_line l),
                 row_column = unat (dl_column l), row_end = False\<rparr>) lines
        @ [(line_row files base (last lines))\<lparr>row_address := base + word_of_nat text_size, row_end := True\<rparr>])"
proof -
  define pre where "pre = dwarf_header files @ 0 # debug_buffer_uleb [] 9 @ [2]"
  define st0 where "st0 = \<lparr>dwarf_out = pre @ replicate 8 0, current_address = 0, current_line = 1,
                   current_file = 1, current_column = 0\<rparr>"
  have pre: "dwarf_set_address (dwarf_header files) = pre"
    by (simp add: dwarf_set_address_def pre_def buffer_defs) (subst uleb_append, simp)
  have "debug_buffer_u64 pre 0 = pre @ replicate 8 0"
    by (simp add: debug_buffer_u64_def debug_buffer_write_def numeral_eq_Suc upt_rec)
  then obtain st where c: "debug_contract_is_valid files lines text_size" "length files \<le> UINT32_MAX"
    "dwarf_lines files st0 lines = Inr st" "length (dwarf_end_sequence st text_size) - 4 \<le> UINT32_MAX"
    and d: "dwarf_data d = debug_buffer_patch_u32 (dwarf_end_sequence st text_size) 0
              (word_of_nat (length (dwarf_end_sequence st text_size) - 4))"
      "address_relocation_offset d = length pre"
    using assms(1) by (auto simp: output_build_dwarf_line_def Let_def pre st0_def split: if_splits sum.splits)
  have l: "lines \<noteq> []" "dl_offset (last lines) \<le> text_size"
    using c(1) lines_within [of files text_size 0 0 lines "last lines"]
    by (auto simp: debug_contract_is_valid_def split: if_splits)
  have "sint (current_line st0) \<in> {0 ..< 2 ^ 32}" by (simp add: st0_def)
  note run = lines_writes [OF c(3,2) this, of base]
  obtain bs where bs: "dwarf_out st = pre @ replicate 8 0 @ bs"
    "\<And>rest. line_program (dwarf_regs base st0) (bs @ rest)
       = map_option ((@) (map (line_row files base) lines)) (line_program (dwarf_regs base st) rest)"
    using run by (auto simp: writes_def st0_def)
  have "current_address st \<le> word_of_nat text_size" using run l word_of_nat_le assms(2) by simp
  then obtain es where es: "dwarf_end_sequence st text_size = dwarf_out st @ es"
    "line_program (dwarf_regs base st) es
       = Some [(dwarf_regs base st)\<lparr>row_address := base + word_of_nat text_size, row_end := True\<rparr>]"
    by (rule end_sequence_program)
  have regs: "dwarf_regs base st = line_row files base (last lines)"
    using run l by simp_all
  have regs0: "dwarf_regs base st0 = initial_row\<lparr>row_address := base\<rparr>"
    by (simp add: dwarf_regs_def st0_def initial_row_def)
  define program where "program = 0 # debug_buffer_uleb [] 9 @ 2 # le_bytes 8 base @ bs @ es"
  define hl where "hl = le_bytes 4 (word_of_nat (length (header_body files)) :: u32)"
  define n where "n = length (dwarf_end_sequence st text_size) - 4"
  have out: "dwarf_end_sequence st text_size = [0, 0, 0, 0] @ [4, 0] @ hl @ header_body files
      @ 0 # debug_buffer_uleb [] 9 @ 2 # replicate 8 0 @ bs @ es"
    by (simp add: es(1) bs(1) pre_def dwarf_header_bytes hl_def)
  then have n: "n = 6 + length (header_body files) + length program"
    by (simp add: n_def program_def hl_def)
  have "dwarf_data d = debug_buffer_patch_u32 ([] @ 0 # 0 # 0 # 0 # [4, 0] @ hl @ header_body files
      @ 0 # debug_buffer_uleb [] 9 @ 2 # replicate 8 0 @ bs @ es) 0 (word_of_nat n)"
    unfolding d(1) n_def [symmetric] unfolding out by simp
  also have "\<dots> = (le_bytes 4 (word_of_nat n :: u32) @ [4, 0] @ hl @ header_body files
      @ 0 # debug_buffer_uleb [] 9 @ [2]) @ replicate 8 0 @ bs @ es"
    by (subst patch_u32_at) simp_all
  finally have D: "dwarf_data d = (le_bytes 4 (word_of_nat n :: u32) @ [4, 0] @ hl @ header_body files
      @ 0 # debug_buffer_uleb [] 9 @ [2]) @ replicate 8 0 @ bs @ es" .
  have "relocate64 (dwarf_data d) (address_relocation_offset d) base
      = le_bytes 4 (word_of_nat n :: u32) @ [4, 0] @ hl @ header_body files @ program"
    unfolding D by (subst relocate64_at) (simp_all add: d(2) pre_def dwarf_header_bytes program_def hl_def)
  then have "dwarf_read (relocate64 (dwarf_data d) (address_relocation_offset d) base)
      = map_option (Pair (map df_path files)) (line_program initial_row program)"
    using dwarf_read_parts [OF assms(3) n] c(4) by (simp add: hl_def n_def)
  also have "line_program initial_row program = Some (map (line_row files base) lines
      @ [(line_row files base (last lines))\<lparr>row_address := base + word_of_nat text_size, row_end := True\<rparr>])"
    unfolding program_def op_effects using bs(2) [of es] es(2) by (simp add: regs regs0)
  finally show ?thesis by (simp add: line_row_def [abs_def])
qed

theorem dwarf_reads_back_witness:
  "\<exists>d :: DwarfLineSection. dwarf_read (relocate64 (dwarf_data d) (address_relocation_offset d) 0x1000)
    = Some ([[0x61]], [\<lparr>row_address = 0x1002, row_file = 1, row_line = 7, row_column = 3, row_end = False\<rparr>,
                      \<lparr>row_address = 0x1005, row_file = 1, row_line = 7, row_column = 3, row_end = True\<rparr>])"
proof -
  let ?f = "[\<lparr>df_id = 9, df_path = [0x61]\<rparr>]"
  let ?l = "[\<lparr>dl_offset = 2, dl_file_id = 9, dl_line = 7, dl_column = 3\<rparr>]"
  let ?st = "\<lparr>dwarf_out = debug_buffer_u64 (dwarf_set_address (dwarf_header ?f)) 0, current_address = 0,
      current_line = 1, current_file = 1, current_column = 0\<rparr>"
  have "debug_contract_is_valid ?f ?l 5" by code_simp
  moreover have "case dwarf_lines ?f ?st ?l of Inl m \<Rightarrow> False
      | Inr st \<Rightarrow> length (dwarf_end_sequence st 5) < 100" by code_simp
  ultimately have "\<exists>d. output_build_dwarf_line ?f ?l 5 = Inr d"
    by (auto simp: output_build_dwarf_line_def Let_def UINT32_MAX_def split: sum.splits if_splits)
  then obtain d where d: "output_build_dwarf_line ?f ?l 5 = Inr d" ..
  have "dwarf_read (relocate64 (dwarf_data d) (address_relocation_offset d) 0x1000)
    = Some ([[0x61]], [\<lparr>row_address = 0x1002, row_file = 1, row_line = 7, row_column = 3, row_end = False\<rparr>,
                      \<lparr>row_address = 0x1005, row_file = 1, row_line = 7, row_column = 3, row_end = True\<rparr>])"
    by (subst dwarf_reads_back [OF d]) (simp_all add: line_row_def debug_file_index_def)
  then show ?thesis by blast
qed

end
