(* ===== verification/Elf64.thy ===== *)
theory Elf64
  imports Pass2 Debug_Line
begin

text \<open>
  The ELF64 relocatable object writer of \<^verbatim>\<open>src/src/output/elf64.c\<close>. The output buffer and the string
  tables are the lists of the bytes written so far; the fixed arrays of the headers are lists of
  their size into which the \<^verbatim>\<open>w16\<close>, \<^verbatim>\<open>w32\<close> and \<^verbatim>\<open>w64\<close> helpers write. The stages of
  \<^verbatim>\<open>output_write_elf64\<close> are definitions of their own, composed at the end in the order of the code.
\<close>

section \<open>The input of the writers\<close>

text \<open>A section with its size is a byte list; no bytes stand for \<^verbatim>\<open>NULL\<close> or size zero.\<close>

record OutputInput =
  oi_text :: "u8 list"
  oi_data :: "u8 list"
  oi_read_only_data :: "u8 list"
  oi_bss_size :: nat
  oi_data_alignment :: nat
  oi_read_only_data_alignment :: nat
  oi_bss_alignment :: nat
  oi_symtable :: SymbolTable
  oi_relocations :: "Relocation list option"
  oi_debug_files :: "DebugFile list option"
  oi_debug_lines :: "DebugLine list option"
  oi_source_name :: "cstr option"

definition has_data :: "OutputInput \<Rightarrow> bool" where
  "has_data inp \<longleftrightarrow> length (oi_data inp) > 0"

definition has_read_only_data :: "OutputInput \<Rightarrow> bool" where
  "has_read_only_data inp \<longleftrightarrow> length (oi_read_only_data inp) > 0"

definition has_bss :: "OutputInput \<Rightarrow> bool" where
  "has_bss inp \<longleftrightarrow> oi_bss_size inp > 0"

definition has_debug :: "OutputInput \<Rightarrow> bool" where
  "has_debug inp \<longleftrightarrow> oi_debug_files inp \<noteq> None
     \<and> (case oi_debug_lines inp of None \<Rightarrow> False | Some ls \<Rightarrow> length ls > 0)"

section \<open>Constants\<close>

abbreviation (input) SHT_NULL :: u32 where "SHT_NULL \<equiv> 0"
abbreviation (input) SHT_PROGBITS :: u32 where "SHT_PROGBITS \<equiv> 1"
abbreviation (input) SHT_SYMTAB :: u32 where "SHT_SYMTAB \<equiv> 2"
abbreviation (input) SHT_STRTAB :: u32 where "SHT_STRTAB \<equiv> 3"
abbreviation (input) SHT_RELA :: u32 where "SHT_RELA \<equiv> 4"
abbreviation (input) SHT_NOBITS :: u32 where "SHT_NOBITS \<equiv> 8"

abbreviation (input) SHF_WRITE :: u64 where "SHF_WRITE \<equiv> 1"
abbreviation (input) SHF_ALLOC :: u64 where "SHF_ALLOC \<equiv> 2"
abbreviation (input) SHF_EXECINSTR :: u64 where "SHF_EXECINSTR \<equiv> 4"

abbreviation (input) STB_LOCAL :: u8 where "STB_LOCAL \<equiv> 0"
abbreviation (input) STB_GLOBAL :: u8 where "STB_GLOBAL \<equiv> 1"
abbreviation (input) STT_NOTYPE :: u8 where "STT_NOTYPE \<equiv> 0"
abbreviation (input) STT_SECTION :: u8 where "STT_SECTION \<equiv> 3"
abbreviation (input) STV_DEFAULT :: u8 where "STV_DEFAULT \<equiv> 0"

abbreviation (input) R_X86_64_64 :: u32 where "R_X86_64_64 \<equiv> 1"
abbreviation (input) R_X86_64_PC32 :: u32 where "R_X86_64_PC32 \<equiv> 2"

section \<open>Buffers\<close>

definition w16 :: "nat \<Rightarrow> u16 \<Rightarrow> u8 list \<Rightarrow> u8 list" where
  "w16 off v p = p[off := ucast v, off + 1 := ucast (drop_bit 8 v)]"

definition w32 :: "nat \<Rightarrow> u32 \<Rightarrow> u8 list \<Rightarrow> u8 list" where
  "w32 off v p = p[off := ucast v, off + 1 := ucast (drop_bit 8 v),
     off + 2 := ucast (drop_bit 16 v), off + 3 := ucast (drop_bit 24 v)]"

definition w64 :: "nat \<Rightarrow> u64 \<Rightarrow> u8 list \<Rightarrow> u8 list" where
  "w64 off v p = foldl (\<lambda>p i. p[off + i := ucast (drop_bit (i * 8) v)]) p [0..<8]"

type_synonym StrTab = "u8 list"

definition strtab_init :: StrTab where
  "strtab_init = [0]"

definition strtab_add :: "StrTab \<Rightarrow> cstr \<Rightarrow> StrTab \<times> u32" where
  "strtab_add st s = (st @ s @ [0], word_of_nat (length st))"

type_synonym OutBuf = "u8 list"

definition outbuf_write :: "OutBuf \<Rightarrow> u8 list \<Rightarrow> OutBuf" where
  "outbuf_write ob src = ob @ src"

definition outbuf_zeros :: "OutBuf \<Rightarrow> nat \<Rightarrow> OutBuf" where
  "outbuf_zeros ob n = ob @ replicate n 0"

definition outbuf_patch :: "OutBuf \<Rightarrow> nat \<Rightarrow> u8 list \<Rightarrow> OutBuf" where
  "outbuf_patch ob off src = take off ob @ src @ drop (off + length src) ob"

function align_outbuf :: "OutBuf \<Rightarrow> nat \<Rightarrow> OutBuf" where
  "align_outbuf ob alignment =
     (if alignment > 0 \<and> length ob mod alignment \<noteq> 0 then align_outbuf (outbuf_zeros ob 1) alignment
      else ob)"
  by pat_completeness auto
termination
proof (relation "measure (\<lambda>(ob, a). (a - length ob mod a) mod a)", simp)
  fix ob :: OutBuf and a :: nat
  assume a: "a > 0 \<and> length ob mod a \<noteq> 0"
  have d: "a - Suc r < a - r" if "r < a" for r using that by simp
  show "((outbuf_zeros ob 1, a), ob, a) \<in> measure (\<lambda>(ob, a). (a - length ob mod a) mod a)"
    using a by (auto simp: outbuf_zeros_def mod_Suc intro!: d)
qed

declare align_outbuf.simps [simp del]

definition data_section_alignment :: "nat \<Rightarrow> u64" where
  "data_section_alignment requested = (if requested > 8 then word_of_nat requested else 8)"

section \<open>Records of the file\<close>

definition write_shdr ::
  "OutBuf \<Rightarrow> u32 \<Rightarrow> u32 \<Rightarrow> u64 \<Rightarrow> u64 \<Rightarrow> u64 \<Rightarrow> u64 \<Rightarrow> u32 \<Rightarrow> u32 \<Rightarrow> u64 \<Rightarrow> u64 \<Rightarrow> OutBuf" where
  "write_shdr ob nm ty flags addr off sz link info addralign entsize =
     (let sh = replicate 64 0;
          sh = w32 0 nm sh;
          sh = w32 4 ty sh;
          sh = w64 8 flags sh;
          sh = w64 16 addr sh;
          sh = w64 24 off sh;
          sh = w64 32 sz sh;
          sh = w32 40 link sh;
          sh = w32 44 info sh;
          sh = w64 48 addralign sh;
          sh = w64 56 entsize sh
      in outbuf_write ob sh)"

definition write_sym :: "OutBuf \<Rightarrow> u32 \<Rightarrow> u8 \<Rightarrow> u8 \<Rightarrow> u16 \<Rightarrow> u64 \<Rightarrow> u64 \<Rightarrow> OutBuf" where
  "write_sym ob nm info other shndx v sz =
     (let s = replicate 24 0;
          s = w32 0 nm s;
          s = s[4 := info];
          s = s[5 := other];
          s = w16 6 shndx s;
          s = w64 8 v s;
          s = w64 16 sz s
      in outbuf_write ob s)"

definition write_rela :: "OutBuf \<Rightarrow> u64 \<Rightarrow> u32 \<Rightarrow> u32 \<Rightarrow> int \<Rightarrow> OutBuf" where
  "write_rela ob off symbol_index ty addend =
     (let r = replicate 24 0;
          info = push_bit 32 (ucast symbol_index) OR ucast ty;
          r = w64 0 off r;
          r = w64 8 info r;
          r = w64 16 (word_of_int addend) r
      in outbuf_write ob r)"

definition symbol_section_index :: "SymbolSection \<Rightarrow> nat \<Rightarrow> nat \<Rightarrow> nat \<Rightarrow> nat \<Rightarrow> u16" where
  "symbol_section_index sec text_index data_index read_only_data_index bss_index =
     (if sec = SYMBOL_SECTION_UNKNOWN then 0
      else if sec = SYMBOL_SECTION_DATA \<and> data_index > 0 then word_of_nat data_index
      else if sec = SYMBOL_SECTION_READ_ONLY_DATA \<and> read_only_data_index > 0
      then word_of_nat read_only_data_index
      else if sec = SYMBOL_SECTION_BSS \<and> bss_index > 0 then word_of_nat bss_index
      else word_of_nat text_index)"

fun names_fit_from :: "nat \<Rightarrow> OutputSymbol list \<Rightarrow> bool" where
  "names_fit_from n [] = True"
| "names_fit_from n (x # xs) =
     (let name_len = length (output_symbol_link_name x) in
      if name_len \<ge> UINT32_MAX \<or> n > UINT32_MAX - name_len - 1 then False
      else names_fit_from (n + (name_len + 1)) xs)"

definition symbol_names_fit_elf_strtab :: "OutputSymbolList \<Rightarrow> bool" where
  "symbol_names_fit_elf_strtab symbols = names_fit_from 1 (os_data symbols)"

definition elf_relocations_have_symbols :: "Relocation list option \<Rightarrow> OutputSymbolList \<Rightarrow> bool" where
  "elf_relocations_have_symbols relocs symbols =
     (case relocs of None \<Rightarrow> True
      | Some rs \<Rightarrow> list_all (\<lambda>r. output_symbols_find_index symbols (rel_symbol r) \<noteq> None) rs)"

definition has_relocations_in_section :: "Relocation list option \<Rightarrow> RelocationSection \<Rightarrow> bool" where
  "has_relocations_in_section relocs sec =
     (case relocs of None \<Rightarrow> False | Some rs \<Rightarrow> list_ex (\<lambda>r. rel_section r = sec) rs)"

definition elf_relocation_type :: "RelocationKind \<Rightarrow> u32" where
  "elf_relocation_type k = (case k of RELOC_ABS64 \<Rightarrow> R_X86_64_64 | RELOC_PC32 \<Rightarrow> R_X86_64_PC32)"

section \<open>Section numbers\<close>

record ElfIndices =
  sh_data :: nat
  sh_read_only_data :: nat
  sh_bss :: nat
  sh_debug_line :: nat
  sh_symtab :: nat
  sh_strtab :: nat
  sh_shstrtab :: nat
  sh_count :: nat

abbreviation (input) sh_text :: nat where "sh_text \<equiv> 1"

text \<open>\<^verbatim>\<open>has ? next_section++ : 0\<close>, with the next free number.\<close>

definition take_index :: "bool \<Rightarrow> nat \<Rightarrow> nat \<times> nat" where
  "take_index has n = (if has then (n, n + 1) else (0, n))"

definition elf_indices :: "OutputInput \<Rightarrow> ElfIndices" where
  "elf_indices inp =
     (let relocs = oi_relocations inp;
          n = 2;
          (i_data, n) = take_index (has_data inp) n;
          (i_read_only_data, n) = take_index (has_read_only_data inp) n;
          (i_bss, n) = take_index (has_bss inp) n;
          (i_rela_text, n) = take_index (has_relocations_in_section relocs RELOC_SECTION_TEXT) n;
          (i_rela_data, n) = take_index (has_relocations_in_section relocs RELOC_SECTION_DATA) n;
          (i_rela_read_only_data, n) =
            take_index (has_relocations_in_section relocs RELOC_SECTION_READ_ONLY_DATA) n;
          (i_debug_line, n) = take_index (has_debug inp) n;
          (i_rela_debug_line, n) = take_index (has_debug inp) n;
          (i_symtab, n) = take_index True n;
          (i_strtab, n) = take_index True n;
          (i_shstrtab, n) = take_index True n;
          (i_note_gnu_stack, n) = take_index True n
      in \<lparr>sh_data = i_data, sh_read_only_data = i_read_only_data, sh_bss = i_bss,
          sh_debug_line = i_debug_line, sh_symtab = i_symtab, sh_strtab = i_strtab,
          sh_shstrtab = i_shstrtab, sh_count = n\<rparr>)"

section \<open>The stages of the writer\<close>

definition elf_header :: "ElfIndices \<Rightarrow> u8 list" where
  "elf_header ix =
     (let h = (replicate 64 0)[0 := 0x7F, 1 := 0x45, 2 := 0x4C, 3 := 0x46, 4 := 2, 5 := 1, 6 := 1, 7 := 0];
          h = w16 16 1 h;
          h = w16 18 62 h;
          h = w32 20 1 h;
          h = w16 52 64 h;
          h = w16 54 56 h;
          h = w16 58 64 h;
          h = w16 60 (word_of_nat (sh_count ix)) h
      in w16 62 (word_of_nat (sh_shstrtab ix)) h)"

text \<open>The bytes of the sections from the given end of the file, with their offsets.\<close>

definition elf_contents :: "OutputInput \<Rightarrow> OutBuf \<Rightarrow> OutBuf \<times> nat \<times> nat \<times> nat" where
  "elf_contents inp ob =
     (let text_off = length ob;
          ob = (if length (oi_text inp) > 0 then outbuf_write ob (oi_text inp) else ob);
          ob = (if has_data inp then align_outbuf ob 8 else ob);
          data_off = (if has_data inp then length ob else 0);
          ob = (if has_data inp then outbuf_write ob (oi_data inp) else ob);
          ob = (if has_read_only_data inp then align_outbuf ob 8 else ob);
          read_only_data_off = (if has_read_only_data inp then length ob else 0);
          ob = (if has_read_only_data inp then outbuf_write ob (oi_read_only_data inp) else ob)
      in (ob, text_off, data_off, read_only_data_off))"

text \<open>The name table, and the symbols with the offsets of their names in it.\<close>

fun elf_symbol_names :: "StrTab \<Rightarrow> OutputSymbol list \<Rightarrow> StrTab \<times> OutputSymbol list" where
  "elf_symbol_names st [] = (st, [])"
| "elf_symbol_names st (x # xs) =
     (let (st, off) = strtab_add st (output_symbol_link_name x);
          (st, ys) = elf_symbol_names st xs
      in (st, x\<lparr>name_offset := off\<rparr> # ys))"

definition elf_write_symbol :: "ElfIndices \<Rightarrow> OutBuf \<Rightarrow> OutputSymbol \<Rightarrow> OutBuf" where
  "elf_write_symbol ix ob x =
     (let binding = (if os_binding x = SYMBOL_BINDING_GLOBAL then STB_GLOBAL else STB_LOCAL);
          info = push_bit 4 binding OR STT_NOTYPE
      in write_sym ob (name_offset x) info STV_DEFAULT
           (symbol_section_index (os_section x) sh_text (sh_data ix) (sh_read_only_data ix) (sh_bss ix))
           (word_of_int (os_offset x)) 0)"

definition elf_write_symbols :: "OutputInput \<Rightarrow> ElfIndices \<Rightarrow> OutBuf \<Rightarrow> OutputSymbol list \<Rightarrow> OutBuf" where
  "elf_write_symbols inp ix ob xs =
     (let ob = write_sym ob 0 0 0 0 0 0;
          ob = (if has_debug inp
                then write_sym ob 0 (push_bit 4 STB_LOCAL OR STT_SECTION) STV_DEFAULT (word_of_nat sh_text) 0 0
                else ob)
      in foldl (elf_write_symbol ix) ob xs)"

text \<open>The entries of one section's relocations.\<close>

fun elf_write_relas ::
  "RelocationSection \<Rightarrow> OutputSymbolList \<Rightarrow> u32 \<Rightarrow> OutBuf \<Rightarrow> Relocation list \<Rightarrow> OutputMessage + OutBuf" where
  "elf_write_relas sec symbols bias ob [] = Inr ob"
| "elf_write_relas sec symbols bias ob (r # rs) =
     (if rel_section r \<noteq> sec then elf_write_relas sec symbols bias ob rs
      else case output_symbols_find_index symbols (rel_symbol r) of
        None \<Rightarrow> Inl MSG_ELF_RELOCATION
      | Some symbol_index \<Rightarrow>
          elf_write_relas sec symbols bias
            (write_rela ob (word_of_nat (rel_offset r)) (symbol_index + bias)
               (elf_relocation_type (rel_kind r)) (rel_addend r)) rs)"

text \<open>The buffer after the section's entries, their offset and size, and whether it has any.\<close>

definition elf_rela_section ::
  "RelocationSection \<Rightarrow> OutputInput \<Rightarrow> OutputSymbolList \<Rightarrow> OutBuf \<Rightarrow>
     OutputMessage + OutBuf \<times> nat \<times> nat \<times> bool" where
  "elf_rela_section sec inp symbols ob =
     (case oi_relocations inp of
        None \<Rightarrow> Inr (ob, 0, 0, False)
      | Some rs \<Rightarrow>
          if \<not> has_relocations_in_section (Some rs) sec then Inr (ob, 0, 0, False)
          else
            let ob = align_outbuf ob 8; off = length ob in
            case elf_write_relas sec symbols (if has_debug inp then 1 else 0) ob rs of
              Inl m \<Rightarrow> Inl m
            | Inr ob \<Rightarrow> Inr (ob, off, length ob - off, length ob - off > 0))"

definition elf_rela_text :: "OutputInput \<Rightarrow> OutputSymbolList \<Rightarrow> OutBuf \<Rightarrow> OutputMessage + OutBuf \<times> nat \<times> nat \<times> bool" where
  "elf_rela_text = elf_rela_section RELOC_SECTION_TEXT"
definition elf_rela_data :: "OutputInput \<Rightarrow> OutputSymbolList \<Rightarrow> OutBuf \<Rightarrow> OutputMessage + OutBuf \<times> nat \<times> nat \<times> bool" where
  "elf_rela_data = elf_rela_section RELOC_SECTION_DATA"
definition elf_rela_read_only_data :: "OutputInput \<Rightarrow> OutputSymbolList \<Rightarrow> OutBuf \<Rightarrow> OutputMessage + OutBuf \<times> nat \<times> nat \<times> bool" where
  "elf_rela_read_only_data = elf_rela_section RELOC_SECTION_READ_ONLY_DATA"

definition elf_rela_debug_line :: "OutputInput \<Rightarrow> DwarfLineSection \<Rightarrow> OutBuf \<Rightarrow> OutBuf \<times> nat \<times> nat" where
  "elf_rela_debug_line inp d ob =
     (if has_debug inp
      then let ob = align_outbuf ob 8; off = length ob;
               ob = write_rela ob (word_of_nat (address_relocation_offset d)) 1 R_X86_64_64 0
           in (ob, off, length ob - off)
      else (ob, 0, 0))"

section \<open>Section names and headers\<close>

text \<open>Add a name when the section exists; \<open>0\<close> otherwise.\<close>

definition add_name :: "bool \<Rightarrow> StrTab \<Rightarrow> cstr \<Rightarrow> StrTab \<times> u32" where
  "add_name has st s = (if has then strtab_add st s else (st, 0))"

text \<open>The names ".text", ".data", ".rodata", ".bss" and so on as bytes.\<close>

definition name_text :: cstr where "name_text = [0x2E, 0x74, 0x65, 0x78, 0x74]"
definition name_data :: cstr where "name_data = [0x2E, 0x64, 0x61, 0x74, 0x61]"
definition name_rodata :: cstr where "name_rodata = [0x2E, 0x72, 0x6F, 0x64, 0x61, 0x74, 0x61]"
definition name_bss :: cstr where "name_bss = [0x2E, 0x62, 0x73, 0x73]"
definition name_rela :: cstr where "name_rela = [0x2E, 0x72, 0x65, 0x6C, 0x61]"
definition name_debug_line :: cstr where
  "name_debug_line = [0x2E, 0x64, 0x65, 0x62, 0x75, 0x67, 0x5F, 0x6C, 0x69, 0x6E, 0x65]"
definition name_symtab :: cstr where "name_symtab = [0x2E, 0x73, 0x79, 0x6D, 0x74, 0x61, 0x62]"
definition name_strtab :: cstr where "name_strtab = [0x2E, 0x73, 0x74, 0x72, 0x74, 0x61, 0x62]"
definition name_shstrtab :: cstr where
  "name_shstrtab = [0x2E, 0x73, 0x68, 0x73, 0x74, 0x72, 0x74, 0x61, 0x62]"
definition name_note :: cstr where
  "name_note = [0x2E, 0x6E, 0x6F, 0x74, 0x65, 0x2E, 0x47, 0x4E, 0x55, 0x2D, 0x73, 0x74, 0x61, 0x63, 0x6B]"

record ElfNames =
  nm_text :: u32
  nm_data :: u32
  nm_read_only_data :: u32
  nm_bss :: u32
  nm_rela_text :: u32
  nm_rela_data :: u32
  nm_rela_read_only_data :: u32
  nm_debug_line :: u32
  nm_rela_debug_line :: u32
  nm_symtab :: u32
  nm_strtab :: u32
  nm_shstrtab :: u32
  nm_note :: u32

definition elf_section_names :: "OutputInput \<Rightarrow> bool \<Rightarrow> bool \<Rightarrow> bool \<Rightarrow> StrTab \<times> ElfNames" where
  "elf_section_names inp has_rela_text has_rela_data has_rela_read_only_data =
     (let st = strtab_init;
          (st, n_text) = strtab_add st name_text;
          (st, n_data) = add_name (has_data inp) st name_data;
          (st, n_read_only_data) = add_name (has_read_only_data inp) st name_rodata;
          (st, n_bss) = add_name (has_bss inp) st name_bss;
          (st, n_rela_text) = add_name has_rela_text st (name_rela @ name_text);
          (st, n_rela_data) = add_name has_rela_data st (name_rela @ name_data);
          (st, n_rela_read_only_data) = add_name has_rela_read_only_data st (name_rela @ name_rodata);
          (st, n_debug_line) = add_name (has_debug inp) st name_debug_line;
          (st, n_rela_debug_line) = add_name (has_debug inp) st (name_rela @ name_debug_line);
          (st, n_symtab) = strtab_add st name_symtab;
          (st, n_strtab) = strtab_add st name_strtab;
          (st, n_shstrtab) = strtab_add st name_shstrtab;
          (st, n_note) = strtab_add st name_note
      in (st, \<lparr>nm_text = n_text, nm_data = n_data, nm_read_only_data = n_read_only_data, nm_bss = n_bss,
          nm_rela_text = n_rela_text, nm_rela_data = n_rela_data,
          nm_rela_read_only_data = n_rela_read_only_data, nm_debug_line = n_debug_line,
          nm_rela_debug_line = n_rela_debug_line, nm_symtab = n_symtab, nm_strtab = n_strtab,
          nm_shstrtab = n_shstrtab, nm_note = n_note\<rparr>))"

text \<open>Where the stages put their bytes.\<close>

record ElfPlaces =
  text_off :: nat
  data_off :: nat
  read_only_data_off :: nat
  debug_line_off :: nat
  debug_line_size :: nat
  symtab_off :: nat
  symtab_size :: nat
  rela_text_place :: "nat \<times> nat \<times> bool"
  rela_data_place :: "nat \<times> nat \<times> bool"
  rela_read_only_data_place :: "nat \<times> nat \<times> bool"
  rela_debug_line_off :: nat
  rela_debug_line_size :: nat
  strtab_off :: nat
  strtab_size :: nat
  shstrtab_off :: nat
  shstrtab_size :: nat
  note_gnu_stack_off :: nat

definition if_shdr :: "bool \<Rightarrow> (OutBuf \<Rightarrow> OutBuf) \<Rightarrow> OutBuf \<Rightarrow> OutBuf" where
  "if_shdr has wr ob = (if has then wr ob else ob)"

text \<open>A \<^verbatim>\<open>.rela\<close> header of the section \<open>target\<close>.\<close>

definition rela_shdr :: "ElfIndices \<Rightarrow> u32 \<Rightarrow> nat \<Rightarrow> nat \<Rightarrow> nat \<Rightarrow> OutBuf \<Rightarrow> OutBuf" where
  "rela_shdr ix nm off sz target ob =
     write_shdr ob nm SHT_RELA 0 0 (word_of_nat off) (word_of_nat sz) (word_of_nat (sh_symtab ix))
       (word_of_nat target) 8 24"

definition elf_section_headers ::
  "OutputInput \<Rightarrow> ElfIndices \<Rightarrow> ElfNames \<Rightarrow> ElfPlaces \<Rightarrow> nat \<Rightarrow> OutBuf \<Rightarrow> OutBuf" where
  "elf_section_headers inp ix nm pl locals ob =
     (let (rt_off, rt_size, has_rt) = rela_text_place pl;
          (rd_off, rd_size, has_rd) = rela_data_place pl;
          (rr_off, rr_size, has_rr) = rela_read_only_data_place pl;
          ob = write_shdr ob 0 SHT_NULL 0 0 0 0 0 0 0 0;
          ob = write_shdr ob (nm_text nm) SHT_PROGBITS (SHF_ALLOC OR SHF_EXECINSTR) 0
                 (word_of_nat (text_off pl)) (word_of_nat (length (oi_text inp))) 0 0 16 0;
          ob = if_shdr (has_data inp) (\<lambda>ob.
                 write_shdr ob (nm_data nm) SHT_PROGBITS (SHF_ALLOC OR SHF_WRITE) 0
                   (word_of_nat (data_off pl)) (word_of_nat (length (oi_data inp))) 0 0
                   (data_section_alignment (oi_data_alignment inp)) 0) ob;
          ob = if_shdr (has_read_only_data inp) (\<lambda>ob.
                 write_shdr ob (nm_read_only_data nm) SHT_PROGBITS SHF_ALLOC 0
                   (word_of_nat (read_only_data_off pl)) (word_of_nat (length (oi_read_only_data inp))) 0 0
                   (data_section_alignment (oi_read_only_data_alignment inp)) 0) ob;
          ob = if_shdr (has_bss inp) (\<lambda>ob.
                 write_shdr ob (nm_bss nm) SHT_NOBITS (SHF_ALLOC OR SHF_WRITE) 0
                   (word_of_nat (length ob)) (word_of_nat (oi_bss_size inp)) 0 0
                   (data_section_alignment (oi_bss_alignment inp)) 0) ob;
          ob = if_shdr has_rt (rela_shdr ix (nm_rela_text nm) rt_off rt_size sh_text) ob;
          ob = if_shdr has_rd (rela_shdr ix (nm_rela_data nm) rd_off rd_size (sh_data ix)) ob;
          ob = if_shdr has_rr (rela_shdr ix (nm_rela_read_only_data nm) rr_off rr_size (sh_read_only_data ix)) ob;
          ob = if_shdr (has_debug inp) (\<lambda>ob.
                 write_shdr ob (nm_debug_line nm) SHT_PROGBITS 0 0
                   (word_of_nat (debug_line_off pl)) (word_of_nat (debug_line_size pl)) 0 0 1 0) ob;
          ob = if_shdr (has_debug inp) (rela_shdr ix (nm_rela_debug_line nm) (rela_debug_line_off pl)
                 (rela_debug_line_size pl) (sh_debug_line ix)) ob;
          ob = write_shdr ob (nm_symtab nm) SHT_SYMTAB 0 0
                 (word_of_nat (symtab_off pl)) (word_of_nat (symtab_size pl)) (word_of_nat (sh_strtab ix))
                 (word_of_nat (locals + 1 + (if has_debug inp then 1 else 0))) 8 24;
          ob = write_shdr ob (nm_strtab nm) SHT_STRTAB 0 0
                 (word_of_nat (strtab_off pl)) (word_of_nat (strtab_size pl)) 0 0 1 0;
          ob = write_shdr ob (nm_shstrtab nm) SHT_STRTAB 0 0
                 (word_of_nat (shstrtab_off pl)) (word_of_nat (shstrtab_size pl)) 0 0 1 0
      in write_shdr ob (nm_note nm) SHT_PROGBITS 0 0 (word_of_nat (note_gnu_stack_off pl)) 0 0 0 1 0)"

section \<open>The writer\<close>

text \<open>The file once its symbols and line section have been accepted.\<close>

definition elf_write_file ::
  "OutputInput \<Rightarrow> OutputSymbolList \<Rightarrow> DwarfLineSection \<Rightarrow> OutputMessage + u8 list" where
  "elf_write_file inp symbols d =
     (let ix = elf_indices inp;
          ob = outbuf_write [] (elf_header ix);
          (ob, t_off, d_off, r_off) = elf_contents inp ob;
          debug_off = (if has_debug inp then length ob else 0);
          ob = (if has_debug inp then outbuf_write ob (dwarf_data d) else ob);
          (strtab, named) = elf_symbol_names strtab_init (os_data symbols);
          ob = align_outbuf ob 8;
          s_off = length ob;
          ob = elf_write_symbols inp ix ob named;
          s_size = length ob - s_off
      in case elf_rela_text inp symbols ob of Inl m \<Rightarrow> Inl m | Inr (ob, rt) \<Rightarrow>
         case elf_rela_data inp symbols ob of Inl m \<Rightarrow> Inl m | Inr (ob, rd) \<Rightarrow>
         case elf_rela_read_only_data inp symbols ob of Inl m \<Rightarrow> Inl m | Inr (ob, rr) \<Rightarrow>
         let (ob, rl_off, rl_size) = elf_rela_debug_line inp d ob;
             st_off = length ob;
             ob = outbuf_write ob strtab;
             (shstrtab, nm) = elf_section_names inp (snd (snd rt)) (snd (snd rd)) (snd (snd rr));
             sh_off = length ob;
             ob = outbuf_write ob shstrtab;
             note_off = length ob;
             ob = align_outbuf ob 8;
             shoff = length ob;
             ob = elf_section_headers inp ix nm
                    \<lparr>text_off = t_off, data_off = d_off, read_only_data_off = r_off,
                     debug_line_off = debug_off, debug_line_size = length (dwarf_data d),
                     symtab_off = s_off, symtab_size = s_size, rela_text_place = rt,
                     rela_data_place = rd, rela_read_only_data_place = rr,
                     rela_debug_line_off = rl_off, rela_debug_line_size = rl_size,
                     strtab_off = st_off, strtab_size = length strtab, shstrtab_off = sh_off,
                     shstrtab_size = length shstrtab, note_gnu_stack_off = note_off\<rparr>
                    (local_count symbols) ob
         in Inr (outbuf_patch ob 40 (w64 0 (word_of_nat shoff) (replicate 8 0))))"

definition elf_debug_line :: "OutputInput \<Rightarrow> OutputMessage + DwarfLineSection" where
  "elf_debug_line inp =
     (if has_debug inp
      then output_build_dwarf_line (the (oi_debug_files inp)) (the (oi_debug_lines inp)) (length (oi_text inp))
      else Inr \<lparr>dwarf_data = [], address_relocation_offset = 0\<rparr>)"

definition output_write_elf64 :: "OutputInput \<Rightarrow> OutputMessage + u8 list" where
  "output_write_elf64 inp =
     (case elf_debug_line inp of
        Inl m \<Rightarrow> Inl m
      | Inr d \<Rightarrow>
          case output_symbols_collect (oi_symtable inp) of
            None \<Rightarrow> Inl MSG_ELF_SYMBOLS
          | Some symbols \<Rightarrow>
              if \<not> symbol_names_fit_elf_strtab symbols then Inl MSG_ELF_STRTAB
              else if \<not> elf_relocations_have_symbols (oi_relocations inp) symbols then Inl MSG_ELF_RELOCATION
              else elf_write_file inp symbols d)"

end
