(* ===== verification/Elf_Bytes.thy ===== *)
theory Elf_Bytes
  imports Elf64 "HOL-Library.Sublist"
begin

text \<open>
  Closed forms of the stages of the ELF writer: the records it writes as byte sequences, and where
  in the finished file each section's bytes lie. The buffer only grows, so what lies at an offset
  once stays there; the final patch changes bytes 40 to 47 of the header only.
\<close>

section \<open>Records\<close>

lemma le_bytes_u16: "le_bytes 2 (v :: u16) = [ucast v, ucast (drop_bit 8 v)]"
  by (simp add: numeral_eq_Suc)

lemma le_bytes_u32: "le_bytes 4 (v :: u32) = [ucast v, ucast (drop_bit 8 v), ucast (drop_bit 16 v), ucast (drop_bit 24 v)]"
  by (simp add: numeral_eq_Suc)

lemma le_bytes_u64: "le_bytes 8 (v :: u64) = map (\<lambda>i. ucast (drop_bit (i * 8) v)) [0..<8]"
  by (simp add: numeral_eq_Suc upt_rec)

lemma replicate_split: "k \<le> n \<Longrightarrow> replicate n x = replicate k x @ replicate (n - k) x"
  by (simp flip: replicate_add)

lemma w16_at: "length xs = n \<Longrightarrow> w16 n v (xs @ a # b # ys) = xs @ le_bytes 2 v @ ys"
  by (simp add: w16_def le_bytes_u16 list_update_append)

lemma w32_at: "length xs = n \<Longrightarrow> w32 n v (xs @ a # b # c # d # ys) = xs @ le_bytes 4 v @ ys"
  by (simp add: w32_def le_bytes_u32 list_update_append)

lemma w64_at:
  "length xs = n \<Longrightarrow> w64 n v (xs @ a # b # c # d # e # f # g # h # ys) = xs @ le_bytes 8 v @ ys"
proof -
  have "[0..<8] = [0, 1, 2, 3, 4, 5, 6, 7 :: nat]" by (simp add: upt_rec)
  then show "length xs = n \<Longrightarrow> ?thesis"
    by (simp add: w64_def le_bytes_u64 list_update_append numeral_eq_Suc)
qed

lemma w16_next:
  assumes "n = length xs" "2 \<le> k"
  shows "w16 n v (xs @ replicate k 0) = (xs @ le_bytes 2 v) @ replicate (k - 2) 0"
  using w16_at [of xs n v 0 0 "replicate (k - 2) 0"] assms replicate_split [of 2 k "0 :: u8"]
  by (simp add: numeral_eq_Suc)

lemma w32_next:
  assumes "n = length xs" "4 \<le> k"
  shows "w32 n v (xs @ replicate k 0) = (xs @ le_bytes 4 v) @ replicate (k - 4) 0"
  using w32_at [of xs n v 0 0 0 0 "replicate (k - 4) 0"] assms replicate_split [of 4 k "0 :: u8"]
  by (simp add: numeral_eq_Suc)

lemma w64_next:
  assumes "n = length xs" "8 \<le> k"
  shows "w64 n v (xs @ replicate k 0) = (xs @ le_bytes 8 v) @ replicate (k - 8) 0"
  using w64_at [of xs n v 0 0 0 0 0 0 0 0 "replicate (k - 8) 0"] assms replicate_split [of 8 k "0 :: u8"]
  by (simp add: numeral_eq_Suc)

lemma byte_next:
  assumes "n = length xs" "1 \<le> k"
  shows "(xs @ replicate k 0)[n := v :: u8] = (xs @ [v]) @ replicate (k - 1) 0"
  using assms replicate_split [of 1 k "0 :: u8"] by (simp add: list_update_append)

text \<open>A record is written field by field into its zeroed array.\<close>

lemma write_shdr_bytes:
  "write_shdr ob nm ty flags addr off sz link info align entsize
     = ob @ le_bytes 4 nm @ le_bytes 4 ty @ le_bytes 8 flags @ le_bytes 8 addr @ le_bytes 8 off
          @ le_bytes 8 sz @ le_bytes 4 link @ le_bytes 4 info @ le_bytes 8 align @ le_bytes 8 entsize"
proof -
  note first = w32_next [of 0 "[]" 64 nm, simplified]
  show ?thesis
    unfolding write_shdr_def Let_def outbuf_write_def
    by (simp add: first w32_next w64_next del: append_assoc)
qed

lemma write_sym_bytes:
  "write_sym ob nm info other shndx v sz
     = ob @ le_bytes 4 nm @ [info, other] @ le_bytes 2 shndx @ le_bytes 8 v @ le_bytes 8 sz"
proof -
  note first = w32_next [of 0 "[]" 24 nm, simplified]
  show ?thesis
    unfolding write_sym_def Let_def outbuf_write_def
    by (simp add: first w32_next w16_next w64_next byte_next del: append_assoc)
qed

lemma write_rela_bytes:
  "write_rela ob off i ty addend
     = ob @ le_bytes 8 off @ le_bytes 8 (push_bit 32 (ucast i) OR ucast ty :: u64)
          @ le_bytes 8 (word_of_int addend :: u64)"
proof -
  note first = w64_next [of 0 "[]" 24 off, simplified]
  show ?thesis
    unfolding write_rela_def Let_def outbuf_write_def
    by (simp add: first w64_next del: append_assoc)
qed

lemma elf_header_bytes:
  "elf_header ix = [0x7F, 0x45, 0x4C, 0x46, 2, 1, 1, 0] @ replicate 8 0 @ le_bytes 2 (1 :: u16)
     @ le_bytes 2 (62 :: u16) @ le_bytes 4 (1 :: u32) @ replicate 28 0 @ le_bytes 2 (64 :: u16)
     @ le_bytes 2 (56 :: u16) @ replicate 2 0 @ le_bytes 2 (64 :: u16)
     @ le_bytes 2 (word_of_nat (sh_count ix) :: u16) @ le_bytes 2 (word_of_nat (sh_shstrtab ix) :: u16)"
  by (simp add: elf_header_def Let_def w16_def w32_def le_bytes_u16 le_bytes_u32 numeral_eq_Suc)

section \<open>Bytes that stay in place\<close>

definition has_at :: "u8 list \<Rightarrow> nat \<Rightarrow> u8 list \<Rightarrow> bool" where
  "has_at f off c \<longleftrightarrow> off + length c \<le> length f \<and> take (length c) (drop off f) = c"

lemma has_at_end: "has_at (ob @ c) (length ob) c"
  by (simp add: has_at_def)

lemma has_at_grow: "has_at f off c \<Longrightarrow> prefix f f' \<Longrightarrow> has_at f' off c"
  by (auto simp: has_at_def prefix_def)

lemma has_at_patch:
  assumes "has_at f off c" "48 \<le> off" "length b = 8"
  shows "has_at (outbuf_patch f 40 b) off c"
  using assms by (auto simp: has_at_def outbuf_patch_def drop_take)

lemma aligned:
  assumes "a > 0"
  shows "\<exists>k. align_outbuf ob a = ob @ replicate k 0 \<and> length (align_outbuf ob a) mod a = 0"
  using assms
proof (induction ob a rule: align_outbuf.induct)
  case (1 ob a)
  show ?case
  proof (cases "length ob mod a = 0")
    case True
    then show ?thesis by (intro exI [of _ 0]) (simp add: align_outbuf.simps [of ob])
  next
    case False
    then obtain k where "align_outbuf (outbuf_zeros ob 1) a = outbuf_zeros ob 1 @ replicate k 0"
      "length (align_outbuf (outbuf_zeros ob 1) a) mod a = 0"
      using 1 by auto
    then show ?thesis using False 1(2)
      by (intro exI [of _ "Suc k"]) (simp add: align_outbuf.simps [of ob] outbuf_zeros_def)
  qed
qed

lemma prefix_align: "prefix ob (align_outbuf ob 8)" "length (align_outbuf ob 8) mod 8 = 0"
  using aligned [of 8 ob] by auto

section \<open>The stages\<close>

lemma contents_places:
  assumes "elf_contents inp ob = (ob', t, d, r)"
  shows "prefix ob ob'" "t = length ob" "has_at ob' t (oi_text inp)"
    "has_data inp \<Longrightarrow> has_at ob' d (oi_data inp) \<and> d \<ge> length ob"
    "has_read_only_data inp \<Longrightarrow> has_at ob' r (oi_read_only_data inp) \<and> r \<ge> length ob"
proof -
  define ob1 where "ob1 = (if length (oi_text inp) > 0 then outbuf_write ob (oi_text inp) else ob)"
  define ob2 where "ob2 = (if has_data inp then align_outbuf ob1 8 else ob1)"
  define ob3 where "ob3 = (if has_data inp then outbuf_write ob2 (oi_data inp) else ob2)"
  define ob4 where "ob4 = (if has_read_only_data inp then align_outbuf ob3 8 else ob3)"
  have e: "ob' = (if has_read_only_data inp then outbuf_write ob4 (oi_read_only_data inp) else ob4)"
    "t = length ob" "d = (if has_data inp then length ob2 else 0)"
    "r = (if has_read_only_data inp then length ob4 else 0)"
    using assms unfolding elf_contents_def Let_def ob4_def ob3_def ob2_def ob1_def by (simp_all split: if_splits)
  have p1: "prefix ob ob1" by (simp add: ob1_def outbuf_write_def)
  have p2: "prefix ob1 ob2" by (simp add: ob2_def prefix_align)
  have p3: "prefix ob2 ob3" by (simp add: ob3_def outbuf_write_def)
  have p4: "prefix ob3 ob4" by (simp add: ob4_def prefix_align)
  have p5: "prefix ob4 ob'" by (simp add: e(1) outbuf_write_def)
  have q3: "prefix ob3 ob'" using p4 p5 by (rule prefix_order.trans)
  have q1: "prefix ob1 ob'" using prefix_order.trans [OF p2 prefix_order.trans [OF p3 q3]] .
  show "prefix ob ob'" using p1 q1 by (rule prefix_order.trans)
  show "t = length ob" by (rule e(2))
  have "has_at ob1 t (oi_text inp)"
    by (cases "oi_text inp") (simp_all add: ob1_def e(2) outbuf_write_def has_at_end, simp add: has_at_def)
  then show "has_at ob' t (oi_text inp)" using q1 by (rule has_at_grow)
  show "has_at ob' d (oi_data inp) \<and> d \<ge> length ob" if "has_data inp"
  proof -
    have "has_at ob3 d (oi_data inp)" using that by (simp add: ob3_def e(3) outbuf_write_def has_at_end)
    then have "has_at ob' d (oi_data inp)" using q3 by (rule has_at_grow)
    moreover have "length ob \<le> length ob2"
      using prefix_length_le [OF prefix_order.trans [OF p1 p2]] .
    ultimately show ?thesis using that by (simp add: e(3))
  qed
  show "has_at ob' r (oi_read_only_data inp) \<and> r \<ge> length ob" if "has_read_only_data inp"
  proof -
    have "has_at ob' r (oi_read_only_data inp)" using that by (simp add: e(1,4) outbuf_write_def has_at_end)
    moreover have "length ob \<le> length ob4"
      using prefix_length_le [OF prefix_order.trans [OF prefix_order.trans [OF p1 p2] prefix_order.trans [OF p3 p4]]] .
    ultimately show ?thesis using that by (simp add: e(4))
  qed
qed

text \<open>The symbol table entries.\<close>

definition sym_bytes :: "u32 \<Rightarrow> u8 \<Rightarrow> u16 \<Rightarrow> u64 \<Rightarrow> u8 list" where
  "sym_bytes nm info shndx v = le_bytes 4 nm @ [info, 0] @ le_bytes 2 shndx @ le_bytes 8 v @ le_bytes 8 (0 :: u64)"

definition symbol_bytes :: "ElfIndices \<Rightarrow> OutputSymbol \<Rightarrow> u8 list" where
  "symbol_bytes ix x = sym_bytes (name_offset x) (if os_binding x = SYMBOL_BINDING_GLOBAL then 0x10 else 0)
     (symbol_section_index (os_section x) 1 (sh_data ix) (sh_read_only_data ix) (sh_bss ix))
     (word_of_int (os_offset x))"

definition symtab_bytes :: "OutputInput \<Rightarrow> ElfIndices \<Rightarrow> OutputSymbol list \<Rightarrow> u8 list" where
  "symtab_bytes inp ix xs = sym_bytes 0 0 0 0 @ (if has_debug inp then sym_bytes 0 3 1 0 else [])
     @ concat (map (symbol_bytes ix) xs)"

lemma elf_write_symbols_bytes: "elf_write_symbols inp ix ob xs = ob @ symtab_bytes inp ix xs"
proof -
  have "elf_write_symbol ix ob x = ob @ symbol_bytes ix x" for ob x
    by (simp add: elf_write_symbol_def Let_def write_sym_bytes symbol_bytes_def sym_bytes_def)
  then have "foldl (elf_write_symbol ix) ob xs = ob @ concat (map (symbol_bytes ix) xs)" for ob
    by (induction xs arbitrary: ob) simp_all
  then show ?thesis
    by (simp add: elf_write_symbols_def Let_def write_sym_bytes symtab_bytes_def sym_bytes_def)
qed

text \<open>The relocations of one section.\<close>

definition rela_bytes :: "u64 \<Rightarrow> u32 \<Rightarrow> u32 \<Rightarrow> int \<Rightarrow> u8 list" where
  "rela_bytes off i ty addend = le_bytes 8 off @ le_bytes 8 (push_bit 32 (ucast i) OR ucast ty :: u64)
     @ le_bytes 8 (word_of_int addend :: u64)"

lemma write_rela_is: "write_rela ob off i ty addend = ob @ rela_bytes off i ty addend"
  by (simp add: write_rela_bytes rela_bytes_def)

definition relas_in :: "OutputInput \<Rightarrow> RelocationSection \<Rightarrow> Relocation list" where
  "relas_in inp sec = (case oi_relocations inp of None \<Rightarrow> [] | Some rs \<Rightarrow> filter (\<lambda>r. rel_section r = sec) rs)"

definition reloc_bytes :: "OutputSymbolList \<Rightarrow> u32 \<Rightarrow> Relocation \<Rightarrow> u8 list" where
  "reloc_bytes symbols bias r = rela_bytes (word_of_nat (rel_offset r))
     (the (output_symbols_find_index symbols (rel_symbol r)) + bias) (elf_relocation_type (rel_kind r)) (rel_addend r)"

abbreviation debug_bias :: "OutputInput \<Rightarrow> u32" where
  "debug_bias inp \<equiv> if has_debug inp then 1 else 0"

definition relas_bytes :: "OutputInput \<Rightarrow> OutputSymbolList \<Rightarrow> RelocationSection \<Rightarrow> u8 list" where
  "relas_bytes inp symbols sec = concat (map (reloc_bytes symbols (debug_bias inp)) (relas_in inp sec))"

lemma length_rela_bytes [simp]: "length (rela_bytes off i ty addend) = 24"
  by (simp add: rela_bytes_def)

lemma length_sym_bytes [simp]: "length (sym_bytes nm info shndx v) = 24" "length (symbol_bytes ix x) = 24"
  by (simp_all add: sym_bytes_def symbol_bytes_def)

lemma length_reloc_bytes [simp]: "length (reloc_bytes symbols bias r) = 24"
  by (simp add: reloc_bytes_def)

lemma write_relas_bytes:
  assumes "elf_write_relas sec symbols bias ob rs = Inr ob'"
  shows "ob' = ob @ concat (map (reloc_bytes symbols bias) (filter (\<lambda>r. rel_section r = sec) rs))"
  using assms
proof (induction rs arbitrary: ob)
  case (Cons r rs)
  then show ?case
    by (force split: if_splits option.splits simp: write_rela_is reloc_bytes_def)
qed simp

lemma rela_section_places:
  assumes "elf_rela_section sec inp symbols ob = Inr (ob', off, sz, has)"
  shows "prefix ob ob' \<and> has = has_relocations_in_section (oi_relocations inp) sec
    \<and> (has \<longrightarrow> has_at ob' off (relas_bytes inp symbols sec) \<and> off \<ge> length ob
         \<and> sz = length (relas_bytes inp symbols sec))"
proof (cases "has_relocations_in_section (oi_relocations inp) sec")
  case False
  then show ?thesis
    using assms by (auto simp: elf_rela_section_def has_relocations_in_section_def split: option.splits)
next
  case True
  then obtain rs where rs: "oi_relocations inp = Some rs"
    by (auto simp: has_relocations_in_section_def split: option.splits)
  let ?ob = "align_outbuf ob 8"
  have w: "elf_write_relas sec symbols (debug_bias inp) ?ob rs = Inr ob'" "off = length ?ob"
    "sz = length ob' - off" "has \<longleftrightarrow> length ob' - off > 0"
    using assms True rs by (auto simp: elf_rela_section_def Let_def split: sum.splits)
  have e: "ob' = ?ob @ relas_bytes inp symbols sec"
    using write_relas_bytes [OF w(1)] by (simp add: relas_bytes_def relas_in_def rs)
  have "\<exists>r \<in> set rs. rel_section r = sec"
    using True by (auto simp: has_relocations_in_section_def rs list_ex_iff)
  then have n: "relas_in inp sec \<noteq> []" by (auto simp: relas_in_def rs filter_empty_conv)
  then have "length (relas_bytes inp symbols sec) > 0"
    by (cases "relas_in inp sec") (auto simp: relas_bytes_def)
  then have "has = has_relocations_in_section (oi_relocations inp) sec"
    using w e True by simp
  moreover have "prefix ob ob'" unfolding e using prefix_align(1) by (rule prefix_prefix)
  ultimately show ?thesis
    using e w prefix_length_le [OF prefix_align(1) [of ob]] by (simp add: has_at_end)
qed

lemma rela_debug_places:
  assumes "elf_rela_debug_line inp d ob = (ob', off, sz)"
  shows "prefix ob ob' \<and> (has_debug inp \<longrightarrow>
    has_at ob' off (rela_bytes (word_of_nat (address_relocation_offset d)) 1 1 0) \<and> off \<ge> length ob \<and> sz = 24)"
proof (cases "has_debug inp")
  case True
  then have "ob' = align_outbuf ob 8 @ rela_bytes (word_of_nat (address_relocation_offset d)) 1 1 0"
    "off = length (align_outbuf ob 8)" "sz = length ob' - off"
    using assms by (auto simp: elf_rela_debug_line_def Let_def write_rela_is)
  then show ?thesis
    using prefix_length_le [OF prefix_align(1) [of ob]] prefix_prefix [OF prefix_align(1)] by (simp add: has_at_end)
qed (use assms in \<open>simp add: elf_rela_debug_line_def\<close>)

section \<open>Optional entries\<close>

text \<open>A list whose entries carry whether they are there.\<close>

definition present :: "(bool \<times> 'a) list \<Rightarrow> 'a list" where
  "present xs = map snd (filter fst xs)"

definition index_of :: "(bool \<times> 'a) list \<Rightarrow> nat \<Rightarrow> nat" where
  "index_of xs k = length (present (take k xs))"

lemma present_Nil [simp]: "present [] = []"
  by (simp add: present_def)

lemma present_Cons: "present ((b, x) # xs) = (if b then x # present xs else present xs)"
  by (simp add: present_def)

lemma length_present_Cons [simp]: "length (present ((b, x) # xs)) = of_bool b + length (present xs)"
  by (simp add: present_def)

lemma present_nth:
  assumes "k < length xs" "fst (xs ! k)"
  shows "index_of xs k < length (present xs)" "present xs ! index_of xs k = snd (xs ! k)"
proof -
  have "present xs = present (take k xs) @ snd (xs ! k) # present (drop (Suc k) xs)"
    unfolding present_def using assms
    by (subst id_take_nth_drop [OF assms(1)]) simp
  then show "index_of xs k < length (present xs)" "present xs ! index_of xs k = snd (xs ! k)"
    by (simp_all add: index_of_def)
qed

lemma map_present:
  assumes "list_all2 (\<lambda>p q. fst p = fst q \<and> (fst p \<longrightarrow> g (snd p) = snd q)) xs ys"
  shows "map g (present xs) = present ys"
  using assms by (induction xs ys rule: list_all2_induct) (auto simp: present_def)

section \<open>Section names\<close>

definition str_at :: "u8 list \<Rightarrow> nat \<Rightarrow> cstr \<Rightarrow> bool" where
  "str_at st off s \<longleftrightarrow> has_at st off (s @ [0])"

fun add_all :: "StrTab \<Rightarrow> (bool \<times> cstr) list \<Rightarrow> StrTab \<times> u32 list" where
  "add_all st [] = (st, [])"
| "add_all st ((b, s) # xs) =
     (let (st, o') = add_name b st s; (st, os) = add_all st xs in (st, o' # os))"

lemma unat_of_small: "n < 2 ^ 32 \<Longrightarrow> unat (word_of_nat n :: u32) = n"
  by (subst unat_of_nat) (simp add: take_bit_nat_eq_self)

lemma add_all_names:
  assumes "add_all st xs = (st', os)" "length st + sum_list (map (\<lambda>p. length (snd p) + 1) xs) < 2 ^ 32"
  shows "prefix st st' \<and> length os = length xs
    \<and> length st' \<le> length st + sum_list (map (\<lambda>p. length (snd p) + 1) xs)
    \<and> (\<forall>i < length xs. fst (xs ! i) \<longrightarrow> str_at st' (unat (os ! i)) (snd (xs ! i)))"
  using assms
proof (induction xs arbitrary: st os)
  case (Cons p xs)
  obtain b s where p: "p = (b, s)" by (cases p)
  obtain st1 o1 where n: "add_name b st s = (st1, o1)" by fastforce
  obtain os1 where r: "add_all st1 xs = (st', os1)" "os = o1 # os1"
    using Cons.prems(1) n p by (auto split: prod.splits)
  have s1: "prefix st st1" "length st1 \<le> length st + length s + 1"
    "b \<Longrightarrow> st1 = st @ s @ [0] \<and> o1 = word_of_nat (length st)"
    using n by (auto simp: add_name_def strtab_add_def split: if_splits)
  have IH: "prefix st1 st'" "length os1 = length xs"
    "length st' \<le> length st1 + sum_list (map (\<lambda>p. length (snd p) + 1) xs)"
    "\<forall>i < length xs. fst (xs ! i) \<longrightarrow> str_at st' (unat (os1 ! i)) (snd (xs ! i))"
    using Cons.IH [OF r(1)] Cons.prems(2) s1(2) p by simp_all
  have "str_at st' (unat o1) s" if b
  proof -
    have "unat o1 = length st" using s1(3) that Cons.prems(2) by (simp add: unat_of_small)
    then have "has_at st1 (unat o1) (s @ [0])" using s1(3) that has_at_end [of st "s @ [0]"] by simp
    then show ?thesis using IH(1) by (simp add: str_at_def has_at_grow)
  qed
  then show ?case
    using IH r(2) p s1 prefix_order.trans [OF s1(1) IH(1)] by (auto simp: nth_Cons split: nat.splits)
qed simp

definition name_slots :: "OutputInput \<Rightarrow> bool \<Rightarrow> bool \<Rightarrow> bool \<Rightarrow> (bool \<times> cstr) list" where
  "name_slots inp rt rd rr =
     [(True, name_text), (has_data inp, name_data), (has_read_only_data inp, name_rodata),
      (has_bss inp, name_bss), (rt, name_rela @ name_text), (rd, name_rela @ name_data),
      (rr, name_rela @ name_rodata), (has_debug inp, name_debug_line),
      (has_debug inp, name_rela @ name_debug_line), (True, name_symtab), (True, name_strtab),
      (True, name_shstrtab), (True, name_note)]"

lemmas name_defs = name_text_def name_data_def name_rodata_def name_bss_def name_rela_def
  name_debug_line_def name_symtab_def name_strtab_def name_shstrtab_def name_note_def

lemma section_names_all:
  assumes "elf_section_names inp rt rd rr = (st, nm)"
  shows "add_all [0] (name_slots inp rt rd rr) = (st, [nm_text nm, nm_data nm, nm_read_only_data nm,
    nm_bss nm, nm_rela_text nm, nm_rela_data nm, nm_rela_read_only_data nm, nm_debug_line nm,
    nm_rela_debug_line nm, nm_symtab nm, nm_strtab nm, nm_shstrtab nm, nm_note nm])"
proof -
  have t: "strtab_add st s = add_name True st s" for st s by (simp add: add_name_def)
  show ?thesis using assms unfolding elf_section_names_def t name_slots_def strtab_init_def
    by (auto simp: Let_def split: prod.splits)
qed

definition names_ok :: "OutputInput \<Rightarrow> bool \<Rightarrow> bool \<Rightarrow> bool \<Rightarrow> StrTab \<Rightarrow> ElfNames \<Rightarrow> bool" where
  "names_ok inp rt rd rr st nm \<longleftrightarrow>
     str_at st 0 [] \<and> str_at st (unat (nm_text nm)) name_text
     \<and> (has_data inp \<longrightarrow> str_at st (unat (nm_data nm)) name_data)
     \<and> (has_read_only_data inp \<longrightarrow> str_at st (unat (nm_read_only_data nm)) name_rodata)
     \<and> (has_bss inp \<longrightarrow> str_at st (unat (nm_bss nm)) name_bss)
     \<and> (rt \<longrightarrow> str_at st (unat (nm_rela_text nm)) (name_rela @ name_text))
     \<and> (rd \<longrightarrow> str_at st (unat (nm_rela_data nm)) (name_rela @ name_data))
     \<and> (rr \<longrightarrow> str_at st (unat (nm_rela_read_only_data nm)) (name_rela @ name_rodata))
     \<and> (has_debug inp \<longrightarrow> str_at st (unat (nm_debug_line nm)) name_debug_line
          \<and> str_at st (unat (nm_rela_debug_line nm)) (name_rela @ name_debug_line))
     \<and> str_at st (unat (nm_symtab nm)) name_symtab \<and> str_at st (unat (nm_strtab nm)) name_strtab
     \<and> str_at st (unat (nm_shstrtab nm)) name_shstrtab \<and> str_at st (unat (nm_note nm)) name_note"

lemma section_names_ok:
  assumes "elf_section_names inp rt rd rr = (st, nm)"
  shows "names_ok inp rt rd rr st nm"
proof -
  note a = add_all_names [OF section_names_all [OF assms]]
  have l: "length [0 :: u8] + sum_list (map (\<lambda>p. length (snd p) + 1) (name_slots inp rt rd rr)) < 2 ^ 32"
    by (simp add: name_slots_def name_defs)
  have p: "prefix [0] st" using a [OF l] by simp
  have "str_at st 0 []"
    using has_at_grow [OF _ p, of 0 "[0]"] by (simp add: str_at_def has_at_def)
  moreover have "\<forall>i \<in> set [0..<13]. fst (name_slots inp rt rd rr ! i)
      \<longrightarrow> str_at st (unat ([nm_text nm, nm_data nm, nm_read_only_data nm,
    nm_bss nm, nm_rela_text nm, nm_rela_data nm, nm_rela_read_only_data nm, nm_debug_line nm,
    nm_rela_debug_line nm, nm_symtab nm, nm_strtab nm, nm_shstrtab nm, nm_note nm] ! i)) (snd (name_slots inp rt rd rr ! i))"
    using a [OF l] by (simp add: name_slots_def)
  ultimately show ?thesis
    by (simp add: names_ok_def name_slots_def upt_rec)
qed

end
