(* ===== verification/Elf_Read.thy ===== *)
theory Elf_Read
  imports Elf_Bytes
begin

text \<open>
  An independent reader of ELF64 relocatable files and what it finds in the files of the writer:
  every section with its name, flags and contents, the links between the sections, the symbols and
  the relocations.
\<close>

section \<open>The reader\<close>

definition field :: "nat \<Rightarrow> nat \<Rightarrow> u8 list \<Rightarrow> nat" where
  "field off n bs = le_nat (take n (drop off bs))"

record ElfShdr =
  h_name :: nat
  h_type :: nat
  h_flags :: nat
  h_offset :: nat
  h_size :: nat
  h_link :: nat
  h_info :: nat
  h_align :: nat
  h_entsize :: nat

definition read_shdr :: "u8 list \<Rightarrow> ElfShdr" where
  "read_shdr bs = \<lparr>h_name = field 0 4 bs, h_type = field 4 4 bs, h_flags = field 8 8 bs,
     h_offset = field 24 8 bs, h_size = field 32 8 bs, h_link = field 40 4 bs, h_info = field 44 4 bs,
     h_align = field 48 8 bs, h_entsize = field 56 8 bs\<rparr>"

text \<open>The headers, from the offset and the count of the file header.\<close>

definition elf_shdrs :: "u8 list \<Rightarrow> ElfShdr list" where
  "elf_shdrs f = map (\<lambda>i. read_shdr (drop (field 40 8 f + 64 * i) f)) [0..<field 60 2 f]"

definition elf_content :: "u8 list \<Rightarrow> ElfShdr \<Rightarrow> u8 list" where
  "elf_content f h = (if h_type h = 8 then [] else take (h_size h) (drop (h_offset h) f))"

definition string_at :: "u8 list \<Rightarrow> nat \<Rightarrow> cstr" where
  "string_at strings off = takeWhile (\<lambda>b. b \<noteq> 0) (drop off strings)"

definition elf_name :: "u8 list \<Rightarrow> ElfShdr \<Rightarrow> cstr" where
  "elf_name f h = string_at (elf_content f (elf_shdrs f ! field 62 2 f)) (h_name h)"

text \<open>
  A section as a linker sees it, with the sections it refers to by name: the section in \<open>sh_link\<close>
  and, for relocations, the section they apply to in \<open>sh_info\<close>.
\<close>

record ElfSection =
  es_name :: cstr
  es_type :: nat
  es_flags :: nat
  es_content :: "u8 list"
  es_size :: nat
  es_link :: cstr
  es_target :: cstr
  es_align :: nat
  es_entsize :: nat

definition elf_section :: "u8 list \<Rightarrow> ElfShdr \<Rightarrow> ElfSection" where
  "elf_section f h = \<lparr>es_name = elf_name f h, es_type = h_type h, es_flags = h_flags h,
     es_content = elf_content f h, es_size = h_size h, es_link = elf_name f (elf_shdrs f ! h_link h),
     es_target = (if h_type h = 4 then elf_name f (elf_shdrs f ! h_info h) else []),
     es_align = h_align h, es_entsize = h_entsize h\<rparr>"

definition elf_valid :: "u8 list \<Rightarrow> bool" where
  "elf_valid f \<longleftrightarrow> take 8 f = [0x7F, 0x45, 0x4C, 0x46, 2, 1, 1, 0] \<and> field 16 2 f = 1 \<and> field 18 2 f = 62
     \<and> field 20 4 f = 1 \<and> field 52 2 f = 64 \<and> field 58 2 f = 64
     \<and> field 40 8 f mod 8 = 0 \<and> field 40 8 f + 64 * field 60 2 f \<le> length f \<and> field 62 2 f < field 60 2 f
     \<and> list_all (\<lambda>h. (h_type h = 8 \<or> h_offset h + h_size h \<le> length f) \<and> h_link h < field 60 2 f
          \<and> (h_type h = 4 \<longrightarrow> h_info h < field 60 2 f)) (elf_shdrs f)"

definition elf_read :: "u8 list \<Rightarrow> ElfSection list option" where
  "elf_read f = (if elf_valid f then Some (map (elf_section f) (elf_shdrs f)) else None)"

section \<open>Headers as records\<close>

record Shdr =
  s_name :: u32
  s_type :: u32
  s_flags :: u64
  s_offset :: u64
  s_size :: u64
  s_link :: u32
  s_info :: u32
  s_align :: u64
  s_entsize :: u64

definition shdr_bytes :: "Shdr \<Rightarrow> u8 list" where
  "shdr_bytes s = le_bytes 4 (s_name s) @ le_bytes 4 (s_type s) @ le_bytes 8 (s_flags s) @ le_bytes 8 (0 :: u64)
     @ le_bytes 8 (s_offset s) @ le_bytes 8 (s_size s) @ le_bytes 4 (s_link s) @ le_bytes 4 (s_info s)
     @ le_bytes 8 (s_align s) @ le_bytes 8 (s_entsize s)"

definition shdr_view :: "Shdr \<Rightarrow> ElfShdr" where
  "shdr_view s = \<lparr>h_name = unat (s_name s), h_type = unat (s_type s), h_flags = unat (s_flags s),
     h_offset = unat (s_offset s), h_size = unat (s_size s), h_link = unat (s_link s),
     h_info = unat (s_info s), h_align = unat (s_align s), h_entsize = unat (s_entsize s)\<rparr>"

lemma length_shdr_bytes [simp]: "length (shdr_bytes s) = 64"
  by (simp add: shdr_bytes_def)

lemma field_at: "length xs = off \<Longrightarrow> length c = n \<Longrightarrow> field off n (xs @ c @ ys) = le_nat c"
  by (simp add: field_def)

lemma le_nat_full:
  "le_nat (le_bytes 2 (v :: u16)) = unat v" "le_nat (le_bytes 4 (w :: u32)) = unat w"
  "le_nat (le_bytes 8 (x :: u64)) = unat x"
  using unsigned_less [of v, where ?'a = nat] unsigned_less [of w, where ?'a = nat]
    unsigned_less [of x, where ?'a = nat]
  by (simp_all add: le_nat_le_bytes)

lemma read_shdr_bytes: "read_shdr (shdr_bytes s @ rest) = shdr_view s"
  by (simp add: read_shdr_def shdr_view_def field_def shdr_bytes_def le_nat_full)

section \<open>The headers the writer writes\<close>

definition elf_slots ::
  "OutputInput \<Rightarrow> ElfIndices \<Rightarrow> ElfNames \<Rightarrow> ElfPlaces \<Rightarrow> nat \<Rightarrow> nat \<Rightarrow> (bool \<times> Shdr) list" where
  "elf_slots inp ix nm pl locals k =
     (let (rt_off, rt_size, has_rt) = rela_text_place pl;
          (rd_off, rd_size, has_rd) = rela_data_place pl;
          (rr_off, rr_size, has_rr) = rela_read_only_data_place pl;
          hdr = (\<lambda>n ty fl off sz link info al ent. \<lparr>s_name = n, s_type = ty, s_flags = fl,
            s_offset = word_of_nat off, s_size = word_of_nat sz, s_link = word_of_nat link,
            s_info = word_of_nat info, s_align = al, s_entsize = ent\<rparr>)
      in [(True, hdr 0 0 0 0 0 0 0 0 0),
          (True, hdr (nm_text nm) 1 6 (text_off pl) (length (oi_text inp)) 0 0 16 0),
          (has_data inp, hdr (nm_data nm) 1 3 (data_off pl) (length (oi_data inp)) 0 0
             (data_section_alignment (oi_data_alignment inp)) 0),
          (has_read_only_data inp, hdr (nm_read_only_data nm) 1 2 (read_only_data_off pl)
             (length (oi_read_only_data inp)) 0 0 (data_section_alignment (oi_read_only_data_alignment inp)) 0),
          (has_bss inp, hdr (nm_bss nm) 8 3 k (oi_bss_size inp) 0 0
             (data_section_alignment (oi_bss_alignment inp)) 0),
          (has_rt, hdr (nm_rela_text nm) 4 0 rt_off rt_size (sh_symtab ix) 1 8 24),
          (has_rd, hdr (nm_rela_data nm) 4 0 rd_off rd_size (sh_symtab ix) (sh_data ix) 8 24),
          (has_rr, hdr (nm_rela_read_only_data nm) 4 0 rr_off rr_size (sh_symtab ix) (sh_read_only_data ix) 8 24),
          (has_debug inp, hdr (nm_debug_line nm) 1 0 (debug_line_off pl) (debug_line_size pl) 0 0 1 0),
          (has_debug inp, hdr (nm_rela_debug_line nm) 4 0 (rela_debug_line_off pl) (rela_debug_line_size pl)
             (sh_symtab ix) (sh_debug_line ix) 8 24),
          (True, hdr (nm_symtab nm) 2 0 (symtab_off pl) (symtab_size pl) (sh_strtab ix)
             (locals + 1 + (if has_debug inp then 1 else 0)) 8 24),
          (True, hdr (nm_strtab nm) 3 0 (strtab_off pl) (strtab_size pl) 0 0 1 0),
          (True, hdr (nm_shstrtab nm) 3 0 (shstrtab_off pl) (shstrtab_size pl) 0 0 1 0),
          (True, hdr (nm_note nm) 1 0 (note_gnu_stack_off pl) 0 0 0 1 0)])"

lemma write_shdr_is:
  "write_shdr ob n ty fl 0 off sz link info al ent = ob @ shdr_bytes \<lparr>s_name = n, s_type = ty, s_flags = fl,
     s_offset = off, s_size = sz, s_link = link, s_info = info, s_align = al, s_entsize = ent\<rparr>"
  by (simp add: write_shdr_bytes shdr_bytes_def)

lemma section_headers_bytes:
  "\<exists>k. elf_section_headers inp ix nm pl locals ob
     = ob @ concat (map shdr_bytes (present (elf_slots inp ix nm pl locals k)))"
proof -
  obtain rt_off rt_size has_rt where rt: "rela_text_place pl = (rt_off, rt_size, has_rt)" by (rule prod_cases3)
  obtain rd_off rd_size has_rd where rd: "rela_data_place pl = (rd_off, rd_size, has_rd)" by (rule prod_cases3)
  obtain rr_off rr_size has_rr where rr: "rela_read_only_data_place pl = (rr_off, rr_size, has_rr)" by (rule prod_cases3)
  have if_s: "if_shdr b (\<lambda>ob. ob @ c ob) ob = ob @ (if b then c ob else [])" for b c ob by (simp add: if_shdr_def)
  have p: "concat (map shdr_bytes (present ((b, x) # xs))) = (if b then shdr_bytes x else []) @ concat (map shdr_bytes (present xs))"
    for b x xs by (simp add: present_def)
  have fl: "SHF_ALLOC OR SHF_EXECINSTR = 6" "SHF_ALLOC OR SHF_WRITE = 3" by simp_all
  show ?thesis
    unfolding elf_section_headers_def elf_slots_def rt rd rr Let_def prod.case write_shdr_is rela_shdr_def if_s p fl
      append_assoc present_Nil list.map concat.simps append_Nil2
      semiring_1_class.of_nat_0 of_nat_1 if_True
    by (rule exI) (rule refl)
qed

section \<open>Where everything lies\<close>

text \<open>Bytes before the section headers and after the file header.\<close>

definition in_place :: "u8 list \<Rightarrow> nat \<Rightarrow> u8 list \<Rightarrow> bool" where
  "in_place f off c \<longleftrightarrow> has_at f off c \<and> 64 \<le> off"

definition rela_placed :: "OutputInput \<Rightarrow> OutputSymbolList \<Rightarrow> u8 list \<Rightarrow> RelocationSection \<Rightarrow> nat \<times> nat \<times> bool \<Rightarrow> bool" where
  "rela_placed inp symbols pre sec place \<longleftrightarrow>
     snd (snd place) = has_relocations_in_section (oi_relocations inp) sec
     \<and> (snd (snd place) \<longrightarrow> in_place pre (fst place) (relas_bytes inp symbols sec)
          \<and> fst (snd place) = length (relas_bytes inp symbols sec))"

definition elf_placed ::
  "OutputInput \<Rightarrow> OutputSymbolList \<Rightarrow> DwarfLineSection \<Rightarrow> u8 list \<Rightarrow> ElfPlaces \<Rightarrow> StrTab \<Rightarrow> StrTab \<Rightarrow> ElfNames
     \<Rightarrow> OutputSymbol list \<Rightarrow> bool" where
  "elf_placed inp symbols d pre pl strtab st nm named \<longleftrightarrow>
     in_place pre (text_off pl) (oi_text inp)
     \<and> (has_data inp \<longrightarrow> in_place pre (data_off pl) (oi_data inp))
     \<and> (has_read_only_data inp \<longrightarrow> in_place pre (read_only_data_off pl) (oi_read_only_data inp))
     \<and> (has_debug inp \<longrightarrow> in_place pre (debug_line_off pl) (dwarf_data d))
     \<and> debug_line_size pl = length (dwarf_data d)
     \<and> in_place pre (symtab_off pl) (symtab_bytes inp (elf_indices inp) named)
     \<and> symtab_size pl = length (symtab_bytes inp (elf_indices inp) named)
     \<and> rela_placed inp symbols pre RELOC_SECTION_TEXT (rela_text_place pl)
     \<and> rela_placed inp symbols pre RELOC_SECTION_DATA (rela_data_place pl)
     \<and> rela_placed inp symbols pre RELOC_SECTION_READ_ONLY_DATA (rela_read_only_data_place pl)
     \<and> (has_debug inp \<longrightarrow>
          in_place pre (rela_debug_line_off pl) (rela_bytes (word_of_nat (address_relocation_offset d)) 1 1 0)
          \<and> rela_debug_line_size pl = 24)
     \<and> in_place pre (strtab_off pl) strtab \<and> strtab_size pl = length strtab
     \<and> in_place pre (shstrtab_off pl) st \<and> shstrtab_size pl = length st
     \<and> in_place pre (note_gnu_stack_off pl) []
     \<and> names_ok inp (snd (snd (rela_text_place pl))) (snd (snd (rela_data_place pl)))
         (snd (snd (rela_read_only_data_place pl))) st nm"

lemma in_place_grow: "in_place f off c \<Longrightarrow> prefix f f' \<Longrightarrow> in_place f' off c"
  by (auto simp: in_place_def intro: has_at_grow)

lemma in_place_end: "64 \<le> length ob \<Longrightarrow> in_place (ob @ c) (length ob) c"
  by (simp add: in_place_def has_at_end)

lemma length_elf_header [simp]: "length (elf_header ix) = 64"
  by (simp add: elf_header_bytes)

lemma rela_stage:
  assumes "elf_rela_section sec inp symbols ob = Inr (ob', place)" "64 \<le> length ob"
  shows "prefix ob ob' \<and> rela_placed inp symbols ob' sec place"
proof -
  obtain off sz has where p: "place = (off, sz, has)" by (rule prod_cases3)
  show ?thesis using rela_section_places [OF assms(1) [unfolded p]] assms(2) p
    by (auto simp: rela_placed_def in_place_def)
qed

lemma rela_placed_grow:
  "rela_placed inp symbols pre sec place \<Longrightarrow> prefix pre pre' \<Longrightarrow> rela_placed inp symbols pre' sec place"
  by (auto simp: rela_placed_def intro: in_place_grow)

lemma elf_file_shape:
  assumes "elf_write_file inp symbols d = Inr f"
  shows "\<exists>pre k pl strtab st nm named.
     f = outbuf_patch (pre @ concat (map shdr_bytes
           (present (elf_slots inp (elf_indices inp) nm pl (local_count symbols) k)))) 40
           (le_bytes 8 (word_of_nat (length pre) :: u64))
     \<and> prefix (elf_header (elf_indices inp)) pre \<and> length pre mod 8 = 0
     \<and> elf_symbol_names strtab_init (os_data symbols) = (strtab, named)
     \<and> elf_placed inp symbols d pre pl strtab st nm named"
proof -
  define ix where "ix = elf_indices inp"
  obtain ob1 t_off d_off r_off where c: "elf_contents inp (elf_header ix) = (ob1, t_off, d_off, r_off)"
    by (metis prod_cases4)
  define ob2 where "ob2 = (if has_debug inp then outbuf_write ob1 (dwarf_data d) else ob1)"
  obtain strtab named where sn: "elf_symbol_names strtab_init (os_data symbols) = (strtab, named)" by fastforce
  define ob3 where "ob3 = align_outbuf ob2 8"
  define ob4 where "ob4 = elf_write_symbols inp ix ob3 named"
  obtain ob5 rt where rt: "elf_rela_text inp symbols ob4 = Inr (ob5, rt)"
    using assms c sn by (auto simp: elf_write_file_def Let_def outbuf_write_def ob4_def ob3_def ob2_def ix_def
        split: sum.splits)
  obtain ob6 rd where rd: "elf_rela_data inp symbols ob5 = Inr (ob6, rd)"
    using assms c sn rt by (auto simp: elf_write_file_def Let_def outbuf_write_def ob4_def ob3_def ob2_def ix_def
        split: sum.splits)
  obtain ob7 rr where rr: "elf_rela_read_only_data inp symbols ob6 = Inr (ob7, rr)"
    using assms c sn rt rd by (auto simp: elf_write_file_def Let_def outbuf_write_def ob4_def ob3_def ob2_def ix_def
        split: sum.splits)
  obtain ob8 l_off l_size where rl: "elf_rela_debug_line inp d ob7 = (ob8, l_off, l_size)" by (metis prod_cases3)
  obtain st nm where nm: "elf_section_names inp (snd (snd rt)) (snd (snd rd)) (snd (snd rr)) = (st, nm)" by fastforce
  define ob9 where "ob9 = (ob8 @ strtab) @ st"
  define pre where "pre = align_outbuf ob9 8"
  define pl where "pl = \<lparr>text_off = t_off, data_off = d_off, read_only_data_off = r_off,
                     debug_line_off = (if has_debug inp then length ob1 else 0), debug_line_size = length (dwarf_data d),
                     symtab_off = length ob3, symtab_size = length ob4 - length ob3, rela_text_place = rt,
                     rela_data_place = rd, rela_read_only_data_place = rr,
                     rela_debug_line_off = l_off, rela_debug_line_size = l_size,
                     strtab_off = length ob8, strtab_size = length strtab, shstrtab_off = length (ob8 @ strtab),
                     shstrtab_size = length st, note_gnu_stack_off = length ob9\<rparr>"
  obtain k where k: "elf_section_headers inp ix nm pl (local_count symbols) pre
     = pre @ concat (map shdr_bytes (present (elf_slots inp ix nm pl (local_count symbols) k)))"
    using section_headers_bytes by blast
  have w: "w64 0 v (replicate 8 0) = le_bytes 8 v" for v
    using w64_next [of 0 "[]" 8 v] by simp
  have f: "f = outbuf_patch (elf_section_headers inp ix nm pl (local_count symbols) pre) 40
      (le_bytes 8 (word_of_nat (length pre) :: u64))"
    using assms c sn rt rd rr rl nm w
    by - (rule sym, simp split del: if_split add: add.assoc elf_write_file_def Let_def outbuf_write_def ob4_def [symmetric] ob3_def [symmetric]
        ob2_def [symmetric] ix_def [symmetric] ob9_def pre_def pl_def)
  note c = contents_places [OF c]
  have p1: "prefix (elf_header ix) ob1" by (rule c)
  have p2: "prefix ob1 ob2" by (simp add: ob2_def outbuf_write_def)
  have p3: "prefix ob2 ob3" by (simp add: ob3_def prefix_align)
  have e4: "ob4 = ob3 @ symtab_bytes inp ix named" by (simp add: ob4_def elf_write_symbols_bytes)
  then have p4: "prefix ob3 ob4" by simp
  have l: "64 \<le> length ob1" "64 \<le> length ob2" "64 \<le> length ob3" "64 \<le> length ob4"
    using prefix_length_le [OF p1] prefix_length_le [OF p2] prefix_length_le [OF p3] prefix_length_le [OF p4] by simp_all
  note s5 = rela_stage [OF rt [unfolded elf_rela_text_def] l(4)]
  then have l5: "64 \<le> length ob5" using prefix_length_le [of ob4 ob5] l(4) by simp
  note s6 = rela_stage [OF rd [unfolded elf_rela_data_def] l5]
  then have l6: "64 \<le> length ob6" using prefix_length_le [of ob5 ob6] l5 by simp
  note s7 = rela_stage [OF rr [unfolded elf_rela_read_only_data_def] l6]
  then have l7: "64 \<le> length ob7" using prefix_length_le [of ob6 ob7] l6 by simp
  note s8 = rela_debug_places [OF rl]
  then have l8: "64 \<le> length ob8" using prefix_length_le [of ob7 ob8] l7 by simp
  have p9: "prefix ob8 ob9" "prefix (ob8 @ strtab) ob9" by (simp_all add: ob9_def)
  have q9: "prefix ob9 pre" by (simp add: pre_def prefix_align)
  have q8: "prefix ob8 pre" "prefix (ob8 @ strtab) pre" using p9 q9 by (meson prefix_order.trans)+
  have q7: "prefix ob7 pre" using s8 q8(1) by (meson prefix_order.trans)
  have q6: "prefix ob6 pre" using s7 q7 by (meson prefix_order.trans)
  have q5: "prefix ob5 pre" using s6 q6 by (meson prefix_order.trans)
  have q4: "prefix ob4 pre" using s5 q5 by (meson prefix_order.trans)
  have q2: "prefix ob2 pre" using p3 p4 q4 by (meson prefix_order.trans)
  have q1: "prefix ob1 pre" using p2 q2 by (meson prefix_order.trans)
  have h: "prefix (elf_header ix) pre" using p1 q1 by (rule prefix_order.trans)
  have "in_place pre t_off (oi_text inp)"
    using has_at_grow [OF c(3) q1] c(2) by (simp add: in_place_def)
  moreover have "in_place pre d_off (oi_data inp)" if "has_data inp"
    using has_at_grow [OF _ q1] c(4) [OF that] by (simp add: in_place_def)
  moreover have "in_place pre r_off (oi_read_only_data inp)" if "has_read_only_data inp"
    using has_at_grow [OF _ q1] c(5) [OF that] by (simp add: in_place_def)
  moreover have "in_place pre (length ob1) (dwarf_data d)" if "has_debug inp"
    using in_place_grow [OF in_place_end [OF l(1), of "dwarf_data d"]] q2 that by (simp add: ob2_def outbuf_write_def)
  moreover have "in_place pre (length ob3) (symtab_bytes inp ix named)"
    using in_place_grow [OF in_place_end [OF l(3)]] q4 e4 by simp
  moreover have "length ob4 - length ob3 = length (symtab_bytes inp ix named)" by (simp add: e4)
  moreover have "rela_placed inp symbols pre RELOC_SECTION_TEXT rt" using s5 q5 rela_placed_grow by blast
  moreover have "rela_placed inp symbols pre RELOC_SECTION_DATA rd" using s6 q6 rela_placed_grow by blast
  moreover have "rela_placed inp symbols pre RELOC_SECTION_READ_ONLY_DATA rr" using s7 q7 rela_placed_grow by blast
  moreover have "has_debug inp \<longrightarrow>
      in_place pre l_off (rela_bytes (word_of_nat (address_relocation_offset d)) 1 1 0) \<and> l_size = 24"
    using s8 l7 has_at_grow [OF _ q8(1)] by (auto simp: in_place_def)
  moreover have "in_place pre (length ob8) strtab" using in_place_grow [OF in_place_end [OF l8] q8(2)] .
  moreover have "in_place pre (length (ob8 @ strtab)) st"
    using in_place_grow [OF in_place_end [of "ob8 @ strtab" st]] l8 q9 by (simp add: ob9_def)
  moreover have "in_place pre (length ob9) []"
    using prefix_length_le [OF p9(1)] prefix_length_le [OF q9] l8 by (simp add: in_place_def has_at_def)
  ultimately have "elf_placed inp symbols d pre pl strtab st nm named"
    using section_names_ok [OF nm] by (simp add: elf_placed_def pl_def ix_def)
  moreover have "length pre mod 8 = 0" by (simp add: pre_def prefix_align)
  ultimately show ?thesis using f [unfolded k] h sn unfolding ix_def by - (intro exI conjI; assumption)
qed

end
