(* ===== verification/Elf_Sections.thy ===== *)
theory Elf_Sections
  imports Elf_Read
begin

text \<open>
  The reader on the writer's files: the file header, the section headers and every section with
  its name, its bytes and the sections it refers to.
\<close>

section \<open>The shape of a written file\<close>

text \<open>
  The facts about a written file the lemmas below share: the bytes before the section headers, the
  places of the sections in them, the tables of names and the named symbols.
\<close>

record ElfFile =
  ef_pre :: "u8 list"
  ef_bss :: nat
  ef_places :: ElfPlaces
  ef_strtab :: StrTab
  ef_shstrtab :: StrTab
  ef_names :: ElfNames
  ef_named :: "OutputSymbol list"

definition slots_of :: "OutputInput \<Rightarrow> OutputSymbolList \<Rightarrow> ElfFile \<Rightarrow> (bool \<times> Shdr) list" where
  "slots_of inp symbols e =
     elf_slots inp (elf_indices inp) (ef_names e) (ef_places e) (local_count symbols) (ef_bss e)"

definition elf_shape :: "OutputInput \<Rightarrow> OutputSymbolList \<Rightarrow> DwarfLineSection \<Rightarrow> u8 list \<Rightarrow> ElfFile \<Rightarrow> bool" where
  "elf_shape inp symbols d f e \<longleftrightarrow>
     f = outbuf_patch (ef_pre e @ concat (map shdr_bytes (present (slots_of inp symbols e)))) 40
           (le_bytes 8 (word_of_nat (length (ef_pre e)) :: u64))
     \<and> prefix (elf_header (elf_indices inp)) (ef_pre e) \<and> length (ef_pre e) mod 8 = 0
     \<and> elf_symbol_names strtab_init (os_data symbols) = (ef_strtab e, ef_named e)
     \<and> elf_placed inp symbols d (ef_pre e) (ef_places e) (ef_strtab e) (ef_shstrtab e) (ef_names e) (ef_named e)
     \<and> length f < 2 ^ 32"

lemma elf_write_shape:
  assumes "elf_write_file inp symbols d = Inr f" "length f < 2 ^ 32"
  obtains e where "elf_shape inp symbols d f e"
proof -
  obtain pre k pl strtab st nm named where
    "f = outbuf_patch (pre @ concat (map shdr_bytes
           (present (elf_slots inp (elf_indices inp) nm pl (local_count symbols) k)))) 40
           (le_bytes 8 (word_of_nat (length pre) :: u64))"
    "prefix (elf_header (elf_indices inp)) pre" "length pre mod 8 = 0"
    "elf_symbol_names strtab_init (os_data symbols) = (strtab, named)"
    "elf_placed inp symbols d pre pl strtab st nm named"
    using elf_file_shape [OF assms(1)] by (elim exE conjE) (rule that; assumption)
  then have "elf_shape inp symbols d f \<lparr>ef_pre = pre, ef_bss = k, ef_places = pl, ef_strtab = strtab,
      ef_shstrtab = st, ef_names = nm, ef_named = named\<rparr>"
    using assms(2) unfolding elf_shape_def slots_of_def ElfFile.select_convs by simp
  then show thesis by (rule that)
qed

section \<open>Section numbers\<close>

definition flags_of :: "OutputInput \<Rightarrow> bool list" where
  "flags_of inp =
     [True, True, has_data inp, has_read_only_data inp, has_bss inp,
      has_relocations_in_section (oi_relocations inp) RELOC_SECTION_TEXT,
      has_relocations_in_section (oi_relocations inp) RELOC_SECTION_DATA,
      has_relocations_in_section (oi_relocations inp) RELOC_SECTION_READ_ONLY_DATA,
      has_debug inp, has_debug inp, True, True, True, True]"

lemma slot_flags:
  assumes "elf_placed inp symbols d pre pl strtab st nm named"
  shows "map fst (elf_slots inp ix nm pl n k) = flags_of inp"
proof -
  obtain t1 t2 t3 where t: "rela_text_place pl = (t1, t2, t3)" by (rule prod_cases3)
  obtain d1 d2 d3 where dd: "rela_data_place pl = (d1, d2, d3)" by (rule prod_cases3)
  obtain r1 r2 r3 where r: "rela_read_only_data_place pl = (r1, r2, r3)" by (rule prod_cases3)
  have "rela_placed inp symbols pre RELOC_SECTION_TEXT (t1, t2, t3)"
    "rela_placed inp symbols pre RELOC_SECTION_DATA (d1, d2, d3)"
    "rela_placed inp symbols pre RELOC_SECTION_READ_ONLY_DATA (r1, r2, r3)"
    using assms unfolding elf_placed_def t dd r by blast+
  then have "t3 = has_relocations_in_section (oi_relocations inp) RELOC_SECTION_TEXT"
    "d3 = has_relocations_in_section (oi_relocations inp) RELOC_SECTION_DATA"
    "r3 = has_relocations_in_section (oi_relocations inp) RELOC_SECTION_READ_ONLY_DATA"
    unfolding rela_placed_def by simp_all
  then show ?thesis unfolding elf_slots_def t dd r Let_def prod.case flags_of_def by simp
qed

lemma index_of_flags: "index_of xs k = length (filter id (take k (map fst xs)))"
proof -
  have "length (present ys) = length (filter id (map fst ys))" for ys :: "(bool \<times> 'a) list"
    by (induction ys) (auto simp: present_def)
  then show ?thesis by (simp add: index_of_def take_map)
qed

lemma length_present_flags: "length (present xs) = length (filter id (map fst xs))"
  by (induction xs) (auto simp: present_def)

lemma filter_count: "length (filter id (b # bs)) = of_bool b + length (filter id bs)"
  by simp

text \<open>The number of the section of a slot: the sections before it that exist.\<close>

definition number_of :: "OutputInput \<Rightarrow> nat \<Rightarrow> nat" where
  "number_of inp k = length (filter id (take k (flags_of inp)))"

lemma section_numbers:
  "sh_symtab (elf_indices inp) = number_of inp 10" "sh_strtab (elf_indices inp) = number_of inp 11"
  "sh_shstrtab (elf_indices inp) = number_of inp 12" "sh_count (elf_indices inp) = number_of inp 14"
  "has_data inp \<Longrightarrow> sh_data (elf_indices inp) = number_of inp 2"
  "has_read_only_data inp \<Longrightarrow> sh_read_only_data (elf_indices inp) = number_of inp 3"
  "has_bss inp \<Longrightarrow> sh_bss (elf_indices inp) = number_of inp 4"
  "has_debug inp \<Longrightarrow> sh_debug_line (elf_indices inp) = number_of inp 8"
  "\<not> has_data inp \<Longrightarrow> sh_data (elf_indices inp) = 0"
  "\<not> has_read_only_data inp \<Longrightarrow> sh_read_only_data (elf_indices inp) = 0"
  "\<not> has_bss inp \<Longrightarrow> sh_bss (elf_indices inp) = 0"
  "number_of inp 0 = 0" "number_of inp 1 = 1"
proof -
  have t: "take_index b n = (if b then n else 0, n + of_bool b)" for b n by (simp add: take_index_def)
  note d = elf_indices_def t number_of_def flags_of_def filter_count take_Cons'
  show "sh_symtab (elf_indices inp) = number_of inp 10" "sh_strtab (elf_indices inp) = number_of inp 11"
    "sh_shstrtab (elf_indices inp) = number_of inp 12" "sh_count (elf_indices inp) = number_of inp 14"
    "has_data inp \<Longrightarrow> sh_data (elf_indices inp) = number_of inp 2"
    "has_read_only_data inp \<Longrightarrow> sh_read_only_data (elf_indices inp) = number_of inp 3"
    "has_bss inp \<Longrightarrow> sh_bss (elf_indices inp) = number_of inp 4"
    "has_debug inp \<Longrightarrow> sh_debug_line (elf_indices inp) = number_of inp 8"
    "\<not> has_data inp \<Longrightarrow> sh_data (elf_indices inp) = 0"
    "\<not> has_read_only_data inp \<Longrightarrow> sh_read_only_data (elf_indices inp) = 0"
    "\<not> has_bss inp \<Longrightarrow> sh_bss (elf_indices inp) = 0"
    "number_of inp 0 = 0" "number_of inp 1 = 1"
    by (simp_all add: d Let_def)
qed

lemma number_of_bound: "number_of inp k \<le> 14"
proof -
  have "number_of inp k \<le> length (take k (flags_of inp))" unfolding number_of_def by (rule length_filter_le)
  also have "\<dots> \<le> 14" by (simp add: flags_of_def)
  finally show ?thesis .
qed

section \<open>The front of the file\<close>

lemma elf_front:
  assumes "elf_shape inp symbols d f e"
  shows "\<exists>z. f = [0x7F, 0x45, 0x4C, 0x46, 2, 1, 1, 0] @ replicate 8 0 @ le_bytes 2 (1 :: u16)
     @ le_bytes 2 (62 :: u16) @ le_bytes 4 (1 :: u32) @ replicate 16 0
     @ le_bytes 8 (word_of_nat (length (ef_pre e)) :: u64) @ replicate 4 0 @ le_bytes 2 (64 :: u16)
     @ le_bytes 2 (56 :: u16) @ replicate 2 0 @ le_bytes 2 (64 :: u16)
     @ le_bytes 2 (word_of_nat (number_of inp 14) :: u16) @ le_bytes 2 (word_of_nat (number_of inp 12) :: u16) @ z
     \<and> length (ef_pre e) \<ge> 64
     \<and> drop 48 f = drop 48 (ef_pre e @ concat (map shdr_bytes (present (slots_of inp symbols e))))"
proof -
  obtain z where z: "ef_pre e = elf_header (elf_indices inp) @ z"
    using assms by (auto simp: elf_shape_def prefix_def)
  have f: "f = outbuf_patch (ef_pre e @ concat (map shdr_bytes (present (slots_of inp symbols e)))) 40
           (le_bytes 8 (word_of_nat (length (ef_pre e)) :: u64))"
    using assms by (simp add: elf_shape_def)
  have r: "replicate 28 (0 :: u8) = replicate 16 0 @ replicate 8 0 @ replicate 4 0"
    by (simp flip: replicate_add)
  show ?thesis
    apply (intro exI [of _ "z @ concat (map shdr_bytes (present (slots_of inp symbols e)))"] conjI)
    subgoal by (subst f, subst z, subst elf_header_bytes)
      (simp add: outbuf_patch_def r section_numbers)
    subgoal by (simp add: z)
    subgoal by (subst f, subst z, subst elf_header_bytes) (simp add: outbuf_patch_def z elf_header_bytes)
    done
qed

lemma shape_bounds:
  assumes "elf_shape inp symbols d f e"
  shows "length f = length (ef_pre e) + 64 * length (present (slots_of inp symbols e))"
    "length (ef_pre e) < 2 ^ 32" "length (ef_pre e) mod 8 = 0" "64 \<le> length (ef_pre e)"
    "length (present (slots_of inp symbols e)) = number_of inp 14"
proof -
  let ?H = "concat (map shdr_bytes (present (slots_of inp symbols e)))"
  have l: "length ?H = 64 * length (present (slots_of inp symbols e))"
    by (induction "present (slots_of inp symbols e)") (simp_all add: length_concat comp_def sum_list_triv)
  show p: "64 \<le> length (ef_pre e)" using elf_front [OF assms] by blast
  have "length f = length (ef_pre e @ ?H)"
    using assms p by (simp add: elf_shape_def outbuf_patch_def)
  then show "length f = length (ef_pre e) + 64 * length (present (slots_of inp symbols e))" using l by simp
  moreover have "length f < 2 ^ 32" using assms unfolding elf_shape_def by (elim conjE)
  ultimately show "length (ef_pre e) < 2 ^ 32" by linarith
  show "length (ef_pre e) mod 8 = 0" using assms unfolding elf_shape_def by (elim conjE)
  have "map fst (slots_of inp symbols e) = flags_of inp"
    using assms slot_flags unfolding elf_shape_def slots_of_def by blast
  then show "length (present (slots_of inp symbols e)) = number_of inp 14"
    by (simp add: length_present_flags number_of_def flags_of_def)
qed

lemma elf_front_fields:
  assumes "elf_shape inp symbols d f e"
  shows "take 8 f = [0x7F, 0x45, 0x4C, 0x46, 2, 1, 1, 0]" "field 16 2 f = 1" "field 18 2 f = 62"
    "field 20 4 f = 1" "field 52 2 f = 64" "field 58 2 f = 64" "field 40 8 f = length (ef_pre e)"
    "field 60 2 f = number_of inp 14" "field 62 2 f = number_of inp 12"
proof -
  obtain z where z: "f = [0x7F, 0x45, 0x4C, 0x46, 2, 1, 1, 0] @ replicate 8 0 @ le_bytes 2 (1 :: u16)
     @ le_bytes 2 (62 :: u16) @ le_bytes 4 (1 :: u32) @ replicate 16 0
     @ le_bytes 8 (word_of_nat (length (ef_pre e)) :: u64) @ replicate 4 0 @ le_bytes 2 (64 :: u16)
     @ le_bytes 2 (56 :: u16) @ replicate 2 0 @ le_bytes 2 (64 :: u16)
     @ le_bytes 2 (word_of_nat (number_of inp 14) :: u16) @ le_bytes 2 (word_of_nat (number_of inp 12) :: u16) @ z"
    using elf_front [OF assms] by blast
  have n: "unat (word_of_nat (number_of inp k) :: u16) = number_of inp k" for k
    using number_of_bound [of inp k] by (subst unat_of_nat) (simp add: take_bit_nat_eq_self)
  have p: "unat (word_of_nat (length (ef_pre e)) :: u64) = length (ef_pre e)"
    using shape_bounds(2) [OF assms] by (subst unat_of_nat) (simp add: take_bit_nat_eq_self)
  show "take 8 f = [0x7F, 0x45, 0x4C, 0x46, 2, 1, 1, 0]" by (simp add: z)
  show "field 16 2 f = 1" "field 18 2 f = 62" "field 20 4 f = 1" "field 52 2 f = 64" "field 58 2 f = 64"
    "field 40 8 f = length (ef_pre e)" "field 60 2 f = number_of inp 14" "field 62 2 f = number_of inp 12"
    by (simp_all add: z field_def le_nat_full n p)
qed

lemma drop_records:
  assumes "i < length xs" "\<And>x. length (g x) = n"
  shows "drop (n * i) (concat (map g xs)) = g (xs ! i) @ concat (map g (drop (Suc i) xs))"
  using assms(1)
proof (induction xs arbitrary: i)
  case (Cons x xs)
  then show ?case using assms(2) by (cases i) (simp_all add: drop_append)
qed simp

lemma elf_shdrs_present:
  assumes "elf_shape inp symbols d f e"
  shows "elf_shdrs f = map shdr_view (present (slots_of inp symbols e))"
proof (rule nth_equalityI)
  let ?hs = "present (slots_of inp symbols e)"
  note b = shape_bounds [OF assms]
  show l: "length (elf_shdrs f) = length (map shdr_view ?hs)"
    by (simp add: elf_shdrs_def elf_front_fields [OF assms] b(5))
  fix i assume "i < length (elf_shdrs f)"
  then have i: "i < length ?hs" using l by simp
  have "drop (length (ef_pre e) + 64 * i) f = drop (length (ef_pre e) + 64 * i - 48) (drop 48 f)"
    using b(4) by simp
  also have "\<dots> = drop (64 * i) (concat (map shdr_bytes ?hs))"
    using elf_front [OF assms] b(4) by auto
  also have "\<dots> = shdr_bytes (?hs ! i) @ concat (map shdr_bytes (drop (Suc i) ?hs))"
    by (rule drop_records [OF i]) simp
  finally show "elf_shdrs f ! i = map shdr_view ?hs ! i"
    using i by (simp add: elf_shdrs_def elf_front_fields [OF assms] b(5) read_shdr_bytes)
qed

section \<open>What the headers refer to\<close>

lemma lies:
  assumes "elf_shape inp symbols d f e" "in_place (ef_pre e) off c"
  shows "has_at f off c" "unat (word_of_nat off :: u64) = off" "unat (word_of_nat (length c) :: u64) = length c"
proof -
  note b = shape_bounds [OF assms(1)]
  have "off + length c \<le> length (ef_pre e)" using assms(2) by (simp add: in_place_def has_at_def)
  then have "off < 2 ^ 32" "length c < 2 ^ 32" using b(2) by simp_all
  then show "unat (word_of_nat off :: u64) = off" "unat (word_of_nat (length c) :: u64) = length c"
    by (subst unat_of_nat, simp add: take_bit_nat_eq_self)+
  have "has_at (ef_pre e @ concat (map shdr_bytes (present (slots_of inp symbols e)))) off c"
    using assms(2) unfolding in_place_def by (blast intro: has_at_grow prefixI)
  then show "has_at f off c"
    using assms unfolding elf_shape_def in_place_def by (simp add: has_at_patch)
qed

text \<open>The bytes of the sections by slot.\<close>

definition slot_contents ::
  "OutputInput \<Rightarrow> OutputSymbolList \<Rightarrow> DwarfLineSection \<Rightarrow> ElfFile \<Rightarrow> u8 list list" where
  "slot_contents inp symbols d e =
     [[], oi_text inp, oi_data inp, oi_read_only_data inp, [],
      relas_bytes inp symbols RELOC_SECTION_TEXT, relas_bytes inp symbols RELOC_SECTION_DATA,
      relas_bytes inp symbols RELOC_SECTION_READ_ONLY_DATA, dwarf_data d,
      rela_bytes (word_of_nat (address_relocation_offset d)) 1 1 0,
      symtab_bytes inp (elf_indices inp) (ef_named e), ef_strtab e, ef_shstrtab e, []]"

definition slot_names :: "cstr list" where
  "slot_names = [[], name_text, name_data, name_rodata, name_bss, name_rela @ name_text,
     name_rela @ name_data, name_rela @ name_rodata, name_debug_line, name_rela @ name_debug_line,
     name_symtab, name_strtab, name_shstrtab, name_note]"

definition slot_ok :: "u8 list \<Rightarrow> StrTab \<Rightarrow> Shdr \<Rightarrow> u8 list \<Rightarrow> cstr \<Rightarrow> bool" where
  "slot_ok f st s c n \<longleftrightarrow> str_at st (unat (s_name s)) n
     \<and> (s_type s = 8 \<or> has_at f (unat (s_offset s)) c \<and> unat (s_size s) = length c)"

lemma slots_ok:
  assumes "elf_shape inp symbols d f e" "k < 14" "flags_of inp ! k"
  shows "slot_ok f (ef_shstrtab e) (snd (slots_of inp symbols e ! k)) (slot_contents inp symbols d e ! k) (slot_names ! k)"
proof -
  obtain t1 t2 t3 where t: "rela_text_place (ef_places e) = (t1, t2, t3)" by (rule prod_cases3)
  obtain d1 d2 d3 where dd: "rela_data_place (ef_places e) = (d1, d2, d3)" by (rule prod_cases3)
  obtain r1 r2 r3 where r: "rela_read_only_data_place (ef_places e) = (r1, r2, r3)" by (rule prod_cases3)
  have pl: "elf_placed inp symbols d (ef_pre e) (ef_places e) (ef_strtab e) (ef_shstrtab e) (ef_names e) (ef_named e)"
    using assms(1) unfolding elf_shape_def by (elim conjE)
  note p = pl [unfolded elf_placed_def names_ok_def rela_placed_def t dd r fst_conv snd_conv]
  have here: "slot_ok f st \<lparr>s_name = n, s_type = ty, s_flags = fl, s_offset = word_of_nat off,
      s_size = word_of_nat sz, s_link = li, s_info = nf, s_align = al, s_entsize = es\<rparr> c n'"
    if "in_place (ef_pre e) off c" "sz = length c" "str_at st (unat n) n'" for st n ty fl off sz li nf al es c n'
    using that lies [OF assms(1) that(1)] by (simp add: slot_ok_def)
  have none: "slot_ok f st \<lparr>s_name = n, s_type = ty, s_flags = fl, s_offset = word_of_nat off,
      s_size = word_of_nat sz, s_link = li, s_info = nf, s_align = al, s_entsize = es\<rparr> c n'"
    if "ty = 8 \<or> off = 0 \<and> sz = 0 \<and> c = []" "str_at st (unat n) n'" for st n ty fl off sz li nf al es c n'
    using that by (auto simp: slot_ok_def has_at_def)
  have all: "list_all (\<lambda>((b, s), c, n). b \<longrightarrow> slot_ok f (ef_shstrtab e) s c n)
    (zip (slots_of inp symbols e) (zip (slot_contents inp symbols d e) slot_names))"
    unfolding slots_of_def elf_slots_def t dd r Let_def prod.case slot_contents_def slot_names_def
      zip_Cons_Cons zip_Nil list.pred_inject fst_conv snd_conv
    using p by (intro conjI impI TrueI) ((rule here; simp; fail) | (rule none; simp; fail) | simp; fail)+
  have len: "length (slots_of inp symbols e) = 14" "length (slot_contents inp symbols d e) = 14" "length slot_names = 14"
    by (simp_all add: slots_of_def elf_slots_def t dd r slot_contents_def slot_names_def)
  have "fst (slots_of inp symbols e ! k)"
    using assms(2,3) slot_flags [OF pl, of "elf_indices inp" "local_count symbols" "ef_bss e"] len
    by (metis nth_map slots_of_def)
  moreover have "slots_of inp symbols e ! k = (fst (slots_of inp symbols e ! k), snd (slots_of inp symbols e ! k))"
    by simp
  ultimately show ?thesis using all assms(2) len by (auto simp: list_all_length split_beta)
qed

lemma slot_fields:
  assumes "elf_shape inp symbols d f e"
  defines "xs \<equiv> map snd (slots_of inp symbols e)" and "ix \<equiv> elf_indices inp"
  shows "map s_type xs = [0, 1, 1, 1, 8, 4, 4, 4, 1, 4, 2, 3, 3, 1]"
    "map s_flags xs = [0, 6, 3, 2, 3, 0, 0, 0, 0, 0, 0, 0, 0, 0]"
    "map s_link xs = map word_of_nat [0, 0, 0, 0, 0, sh_symtab ix, sh_symtab ix, sh_symtab ix, 0, sh_symtab ix,
       sh_strtab ix, 0, 0, 0]"
    "map s_info xs = map word_of_nat [0, 0, 0, 0, 0, 1, sh_data ix, sh_read_only_data ix, 0, sh_debug_line ix,
       local_count symbols + 1 + (if has_debug inp then 1 else 0), 0, 0, 0]"
    "map s_align xs = [0, 16, data_section_alignment (oi_data_alignment inp),
       data_section_alignment (oi_read_only_data_alignment inp), data_section_alignment (oi_bss_alignment inp),
       8, 8, 8, 1, 8, 8, 1, 1, 1]"
    "map s_entsize xs = [0, 0, 0, 0, 0, 24, 24, 24, 0, 24, 24, 0, 0, 0]"
    "s_size (xs ! 4) = word_of_nat (oi_bss_size inp)"
    "length (slots_of inp symbols e) = 14"
  by (simp_all add: xs_def ix_def slots_of_def elf_slots_def Let_def split_beta)

lemma slot_header:
  assumes "elf_shape inp symbols d f e" "k < 14" "flags_of inp ! k"
  shows "number_of inp k < number_of inp 14"
    "elf_shdrs f ! number_of inp k = shdr_view (snd (slots_of inp symbols e ! k))"
proof -
  let ?xs = "slots_of inp symbols e"
  have m: "map fst ?xs = flags_of inp"
    using assms(1) slot_flags unfolding elf_shape_def slots_of_def by blast
  have l: "length ?xs = 14" using slot_fields(8) [OF assms(1)] .
  have k: "k < length ?xs" "fst (?xs ! k)" using assms(2,3) l by (simp_all flip: m)
  have n: "index_of ?xs k = number_of inp k" by (simp add: index_of_flags m number_of_def)
  show "number_of inp k < number_of inp 14"
    using present_nth(1) [OF k] shape_bounds(5) [OF assms(1)] n by simp
  show "elf_shdrs f ! number_of inp k = shdr_view (snd (?xs ! k))"
    using present_nth [OF k] n by (simp add: elf_shdrs_present [OF assms(1)])
qed

lemma str_at_string: "str_at st off s \<Longrightarrow> 0 \<notin> set s \<Longrightarrow> string_at st off = s"
proof -
  assume a: "str_at st off s" "0 \<notin> set s"
  then have "drop off st = (s @ [0]) @ drop (length s + 1) (drop off st)"
    by (metis append_take_drop_id has_at_def length_append_singleton str_at_def Suc_eq_plus1)
  then have "string_at st off = takeWhile (\<lambda>b. b \<noteq> 0) (s @ 0 # drop (length s + 1) (drop off st))"
    unfolding string_at_def by simp
  also have "\<dots> = s" using a(2) by (subst takeWhile_append2) auto
  finally show "string_at st off = s" .
qed

lemma unat_numeral_8: "unat v = 8 \<Longrightarrow> v = (8 :: u32)"
  by (simp add: word_unat_eq_iff)

lemma slot_content:
  assumes "elf_shape inp symbols d f e" "k < 14" "flags_of inp ! k" "k \<noteq> 4"
  shows "elf_content f (shdr_view (snd (slots_of inp symbols e ! k))) = slot_contents inp symbols d e ! k"
    "h_size (shdr_view (snd (slots_of inp symbols e ! k))) = length (slot_contents inp symbols d e ! k)"
proof -
  let ?s = "snd (slots_of inp symbols e ! k)"
  have l: "length (slots_of inp symbols e) = 14" using slot_fields(8) [OF assms(1)] .
  have "map s_type (map snd (slots_of inp symbols e)) ! k = [0, 1, 1, 1, 8, 4, 4, 4, 1, 4, 2, 3, 3, 1] ! k"
    using slot_fields(1) [OF assms(1)] by simp
  then have "s_type ?s = [0, 1, 1, 1, 8, 4, 4, 4, 1, 4, 2, 3, 3, 1] ! k" using assms(2) l by simp
  moreover have "\<forall>k \<in> set [0..<14]. k \<noteq> 4 \<longrightarrow> [0, 1, 1, 1, 8, 4, 4, 4, 1, 4, 2, 3, 3, 1 :: u32] ! k \<noteq> 8"
    by (simp add: upt_rec)
  ultimately have t: "s_type ?s \<noteq> 8" using assms(2,4) by auto
  then have t': "unat (s_type ?s) \<noteq> 8" by (metis unat_numeral_8)
  have "has_at f (unat (s_offset ?s)) (slot_contents inp symbols d e ! k)"
    "unat (s_size ?s) = length (slot_contents inp symbols d e ! k)"
    using slots_ok [OF assms(1-3)] t by (simp_all add: slot_ok_def)
  then show "elf_content f (shdr_view ?s) = slot_contents inp symbols d e ! k"
    "h_size (shdr_view ?s) = length (slot_contents inp symbols d e ! k)"
    using t' by (simp_all add: elf_content_def shdr_view_def has_at_def)
qed

lemma slot_name:
  assumes "elf_shape inp symbols d f e" "k < 14" "flags_of inp ! k"
  shows "elf_name f (shdr_view (snd (slots_of inp symbols e ! k))) = slot_names ! k"
    "elf_name f (elf_shdrs f ! number_of inp k) = slot_names ! k"
proof -
  have st: "elf_content f (elf_shdrs f ! number_of inp 12) = ef_shstrtab e"
    using slot_header(2) [OF assms(1), of 12] slot_content(1) [OF assms(1), of 12]
    by (simp add: flags_of_def slot_contents_def)
  have "length slot_names = 14" "\<forall>n \<in> set slot_names. 0 \<notin> set n" by (simp_all add: slot_names_def name_defs)
  then have "0 \<notin> set (slot_names ! k)" using assms(2) by simp
  then show n: "elf_name f (shdr_view (snd (slots_of inp symbols e ! k))) = slot_names ! k"
    using slots_ok [OF assms] st
    by (simp add: elf_name_def elf_front_fields [OF assms(1)] shdr_view_def slot_ok_def str_at_string)
  show "elf_name f (elf_shdrs f ! number_of inp k) = slot_names ! k"
    using n by (simp add: slot_header(2) [OF assms])
qed

section \<open>The sections of a written file\<close>

text \<open>What a linker should find, from the input of the writer.\<close>

definition section_view :: "cstr \<Rightarrow> nat \<Rightarrow> nat \<Rightarrow> u8 list \<Rightarrow> cstr \<Rightarrow> cstr \<Rightarrow> nat \<Rightarrow> nat \<Rightarrow> ElfSection" where
  "section_view n ty fl c link target al ent = \<lparr>es_name = n, es_type = ty, es_flags = fl, es_content = c,
     es_size = length c, es_link = link, es_target = target, es_align = al, es_entsize = ent\<rparr>"

definition sections_view ::
  "OutputInput \<Rightarrow> OutputSymbolList \<Rightarrow> DwarfLineSection \<Rightarrow> u8 list \<Rightarrow> u8 list \<Rightarrow> u8 list \<Rightarrow> (bool \<times> ElfSection) list" where
  "sections_view inp symbols d symtab strtab shstrtab =
     [(True, section_view [] 0 0 [] [] [] 0 0),
      (True, section_view name_text 1 6 (oi_text inp) [] [] 16 0),
      (has_data inp, section_view name_data 1 3 (oi_data inp) [] [] (max 8 (oi_data_alignment inp)) 0),
      (has_read_only_data inp,
         section_view name_rodata 1 2 (oi_read_only_data inp) [] [] (max 8 (oi_read_only_data_alignment inp)) 0),
      (has_bss inp, (section_view name_bss 8 3 [] [] [] (max 8 (oi_bss_alignment inp)) 0)\<lparr>es_size := oi_bss_size inp\<rparr>),
      (has_relocations_in_section (oi_relocations inp) RELOC_SECTION_TEXT,
         section_view (name_rela @ name_text) 4 0 (relas_bytes inp symbols RELOC_SECTION_TEXT)
           name_symtab name_text 8 24),
      (has_relocations_in_section (oi_relocations inp) RELOC_SECTION_DATA,
         section_view (name_rela @ name_data) 4 0 (relas_bytes inp symbols RELOC_SECTION_DATA)
           name_symtab (if has_data inp then name_data else []) 8 24),
      (has_relocations_in_section (oi_relocations inp) RELOC_SECTION_READ_ONLY_DATA,
         section_view (name_rela @ name_rodata) 4 0 (relas_bytes inp symbols RELOC_SECTION_READ_ONLY_DATA)
           name_symtab (if has_read_only_data inp then name_rodata else []) 8 24),
      (has_debug inp, section_view name_debug_line 1 0 (dwarf_data d) [] [] 1 0),
      (has_debug inp, section_view (name_rela @ name_debug_line) 4 0
         (rela_bytes (word_of_nat (address_relocation_offset d)) 1 1 0) name_symtab name_debug_line 8 24),
      (True, section_view name_symtab 2 0 symtab name_strtab [] 8 24),
      (True, section_view name_strtab 3 0 strtab [] [] 1 0),
      (True, section_view name_shstrtab 3 0 shstrtab [] [] 1 0),
      (True, section_view name_note 1 0 [] [] [] 1 0)]"

lemma unat_alignment: "n < 2 ^ 64 \<Longrightarrow> unat (data_section_alignment n) = max 8 n"
  by (auto simp: data_section_alignment_def unat_of_nat take_bit_nat_eq_self)

lemma shdr_view_fields:
  "h_type (shdr_view s) = unat (s_type s)" "h_flags (shdr_view s) = unat (s_flags s)"
  "h_link (shdr_view s) = unat (s_link s)" "h_info (shdr_view s) = unat (s_info s)"
  "h_align (shdr_view s) = unat (s_align s)" "h_entsize (shdr_view s) = unat (s_entsize s)"
  by (simp_all add: shdr_view_def)

text \<open>The names behind the links of the headers.\<close>

lemma unat_number_of: "unat (word_of_nat (number_of inp k) :: u32) = number_of inp k"
  using number_of_bound [of inp k] by (subst unat_of_nat) (simp add: take_bit_nat_eq_self)

lemma link_names:
  assumes "elf_shape inp symbols d f e"
  shows "elf_name f (elf_shdrs f ! number_of inp 10) = name_symtab"
    "elf_name f (elf_shdrs f ! number_of inp 11) = name_strtab" "elf_name f (elf_shdrs f ! 0) = []"
    "elf_name f (elf_shdrs f ! Suc 0) = name_text"
    "elf_name f (elf_shdrs f ! unat (word_of_nat (sh_data (elf_indices inp)) :: u32))
      = (if has_data inp then name_data else [])"
    "elf_name f (elf_shdrs f ! unat (word_of_nat (sh_read_only_data (elf_indices inp)) :: u32))
      = (if has_read_only_data inp then name_rodata else [])"
    "has_debug inp \<Longrightarrow> elf_name f (elf_shdrs f ! number_of inp 8) = name_debug_line"
proof -
  note nm = slot_name(2) [OF assms]
  show "elf_name f (elf_shdrs f ! number_of inp 10) = name_symtab"
    "elf_name f (elf_shdrs f ! number_of inp 11) = name_strtab"
    "has_debug inp \<Longrightarrow> elf_name f (elf_shdrs f ! number_of inp 8) = name_debug_line"
    using nm [of 10] nm [of 11] nm [of 8] by (simp_all add: flags_of_def slot_names_def)
  show z: "elf_name f (elf_shdrs f ! 0) = []" "elf_name f (elf_shdrs f ! Suc 0) = name_text"
    using nm [of 0] nm [of 1] section_numbers(12,13) [of inp] by (simp_all add: flags_of_def slot_names_def)
  show "elf_name f (elf_shdrs f ! unat (word_of_nat (sh_data (elf_indices inp)) :: u32))
      = (if has_data inp then name_data else [])"
    "elf_name f (elf_shdrs f ! unat (word_of_nat (sh_read_only_data (elf_indices inp)) :: u32))
      = (if has_read_only_data inp then name_rodata else [])"
    using nm [of 2] nm [of 3] z(1) by (simp_all add: flags_of_def slot_names_def section_numbers unat_number_of)
qed

text \<open>A section read through its header, from the lists of the fields.\<close>

lemma slot_section_lists:
  assumes "elf_shape inp symbols d f e" "k < 14" "flags_of inp ! k" "oi_bss_size inp < 2 ^ 64"
  defines "xs \<equiv> slots_of inp symbols e"
  shows "elf_section f (shdr_view (snd (xs ! k))) = \<lparr>es_name = slot_names ! k,
      es_type = unat (map s_type (map snd xs) ! k),
      es_flags = unat (map s_flags (map snd xs) ! k), es_content = slot_contents inp symbols d e ! k,
      es_size = (if k = 4 then oi_bss_size inp else length (slot_contents inp symbols d e ! k)),
      es_link = elf_name f (elf_shdrs f ! unat (map s_link (map snd xs) ! k)),
      es_target = (if unat (map s_type (map snd xs) ! k) = 4
        then elf_name f (elf_shdrs f ! unat (map s_info (map snd xs) ! k)) else []),
      es_align = unat (map s_align (map snd xs) ! k), es_entsize = unat (map s_entsize (map snd xs) ! k)\<rparr>"
proof -
  note fl = slot_fields [OF assms(1), folded xs_def]
  have g: "h (snd (xs ! k)) = map h (map snd xs) ! k" for h :: "Shdr \<Rightarrow> 'a"
    using assms(2) fl(8) by simp
  have b: "elf_content f (shdr_view (snd (xs ! k))) = slot_contents inp symbols d e ! k
      \<and> h_size (shdr_view (snd (xs ! k))) = (if k = 4 then oi_bss_size inp else length (slot_contents inp symbols d e ! k))"
  proof (cases "k = 4")
    case True
    moreover have "unat (word_of_nat (oi_bss_size inp) :: u64) = oi_bss_size inp"
      using assms(4) by (subst unat_of_nat) (simp add: take_bit_nat_eq_self)
    moreover have "s_type (snd (xs ! k)) = 8" using True g [of s_type, unfolded fl(1)] by simp
    ultimately show ?thesis using fl(7,8)
      by (simp add: elf_content_def shdr_view_def slot_contents_def)
  qed (use slot_content [OF assms(1-3), folded xs_def] in simp)
  show ?thesis
    unfolding elf_section_def shdr_view_fields conjunct1 [OF b] conjunct2 [OF b]
      slot_name(1) [OF assms(1-3), folded xs_def] g [of s_type] g [of s_flags] g [of s_link]
      g [of s_info] g [of s_align] g [of s_entsize]
    by (rule refl)
qed

lemma slot_section:
  assumes "elf_shape inp symbols d f e" "k < 14" "flags_of inp ! k"
    "oi_bss_size inp < 2 ^ 64" "oi_data_alignment inp < 2 ^ 64" "oi_read_only_data_alignment inp < 2 ^ 64"
    "oi_bss_alignment inp < 2 ^ 64"
  shows "elf_section f (shdr_view (snd (slots_of inp symbols e ! k)))
    = snd (sections_view inp symbols d (symtab_bytes inp (elf_indices inp) (ef_named e)) (ef_strtab e) (ef_shstrtab e) ! k)"
proof -
  let ?xs = "slots_of inp symbols e"
  note fl = slot_fields [OF assms(1)]
  have "\<forall>k \<in> set [0..<14]. flags_of inp ! k \<longrightarrow> \<lparr>es_name = slot_names ! k,
      es_type = unat (map s_type (map snd ?xs) ! k),
      es_flags = unat (map s_flags (map snd ?xs) ! k), es_content = slot_contents inp symbols d e ! k,
      es_size = (if k = 4 then oi_bss_size inp else length (slot_contents inp symbols d e ! k)),
      es_link = elf_name f (elf_shdrs f ! unat (map s_link (map snd ?xs) ! k)),
      es_target = (if unat (map s_type (map snd ?xs) ! k) = 4
        then elf_name f (elf_shdrs f ! unat (map s_info (map snd ?xs) ! k)) else []),
      es_align = unat (map s_align (map snd ?xs) ! k), es_entsize = unat (map s_entsize (map snd ?xs) ! k)\<rparr>
    = snd (sections_view inp symbols d (symtab_bytes inp (elf_indices inp) (ef_named e)) (ef_strtab e) (ef_shstrtab e) ! k)"
    unfolding fl(1-6) sections_view_def slot_names_def slot_contents_def section_view_def
    by (simp add: upt_rec flags_of_def link_names [OF assms(1)] section_numbers unat_number_of
        unat_alignment [OF assms(5)] unat_alignment [OF assms(6)] unat_alignment [OF assms(7)])
  then show ?thesis using assms(2,3) by (simp add: slot_section_lists [OF assms(1-4)])
qed

lemma present_set: "x \<in> set (present xs) \<Longrightarrow> \<exists>k < length xs. fst (xs ! k) \<and> x = snd (xs ! k)"
  by (auto simp: present_def in_set_conv_nth)

lemma headers_in_range:
  assumes "elf_shape inp symbols d f e" "k < 14" "flags_of inp ! k"
  defines "h \<equiv> shdr_view (snd (slots_of inp symbols e ! k))"
  shows "h_type h = 8 \<or> h_offset h + h_size h \<le> length f" "h_link h < number_of inp 14"
    "h_type h = 4 \<longrightarrow> h_info h < number_of inp 14"
proof -
  let ?xs = "slots_of inp symbols e"
  note fl = slot_fields [OF assms(1)]
  have g: "h' (snd (?xs ! k)) = map h' (map snd ?xs) ! k" for h' :: "Shdr \<Rightarrow> 'a"
    using assms(2) fl(8) by simp
  show "h_type h = 8 \<or> h_offset h + h_size h \<le> length f"
    using slots_ok [OF assms(1-3)] by (auto simp: h_def slot_ok_def shdr_view_def has_at_def)
  note lt = slot_header(1) [OF assms(1)]
  have lt': "number_of inp 10 < number_of inp 14" "number_of inp 11 < number_of inp 14" "0 < number_of inp 14"
    "Suc 0 < number_of inp 14" "has_data inp \<Longrightarrow> number_of inp 2 < number_of inp 14"
    "has_read_only_data inp \<Longrightarrow> number_of inp 3 < number_of inp 14"
    "has_debug inp \<Longrightarrow> number_of inp 8 < number_of inp 14"
    using lt [of 10] lt [of 11] lt [of 0] lt [of 1] lt [of 2] lt [of 3] lt [of 8] section_numbers(12,13) [of inp]
    by (simp_all add: flags_of_def)
  have dat: "unat (word_of_nat (sh_data (elf_indices inp)) :: u32) < number_of inp 14"
    "unat (word_of_nat (sh_read_only_data (elf_indices inp)) :: u32) < number_of inp 14"
    using lt' by (cases "has_data inp"; simp add: section_numbers unat_number_of)
      (cases "has_read_only_data inp"; simp add: section_numbers unat_number_of lt')
  have "\<forall>k \<in> set [0..<14]. flags_of inp ! k \<longrightarrow> unat (map s_link (map snd ?xs) ! k) < number_of inp 14
     \<and> (unat (map s_type (map snd ?xs) ! k) = 4 \<longrightarrow> unat (map s_info (map snd ?xs) ! k) < number_of inp 14)"
    unfolding fl(1,3,4) by (simp add: upt_rec flags_of_def section_numbers unat_number_of lt' dat)
  then show "h_link h < number_of inp 14" "h_type h = 4 \<longrightarrow> h_info h < number_of inp 14"
    using assms(2,3) g [of s_type] g [of s_link] g [of s_info] by (simp_all add: h_def shdr_view_fields)
qed

lemma elf_read_shape:
  assumes "elf_shape inp symbols d f e"
    "oi_bss_size inp < 2 ^ 64" "oi_data_alignment inp < 2 ^ 64" "oi_read_only_data_alignment inp < 2 ^ 64"
    "oi_bss_alignment inp < 2 ^ 64"
  shows "elf_read f = Some (present
    (sections_view inp symbols d (symtab_bytes inp (elf_indices inp) (ef_named e)) (ef_strtab e) (ef_shstrtab e)))"
proof -
  let ?xs = "slots_of inp symbols e"
  let ?vs = "sections_view inp symbols d (symtab_bytes inp (elf_indices inp) (ef_named e)) (ef_strtab e) (ef_shstrtab e)"
  note b = shape_bounds [OF assms(1)]
  have l: "length ?xs = 14" by (rule slot_fields(8) [OF assms(1)])
  have m: "map fst ?xs = flags_of inp"
    using assms(1) slot_flags unfolding elf_shape_def slots_of_def by blast
  have k: "fst (?xs ! k) = flags_of inp ! k" if "k < 14" for k using that l by (simp flip: m)
  have "number_of inp 12 < number_of inp 14" using slot_header(1) [OF assms(1), of 12] by (simp add: flags_of_def)
  moreover have "list_all (\<lambda>h. (h_type h = 8 \<or> h_offset h + h_size h \<le> length f) \<and> h_link h < number_of inp 14
      \<and> (h_type h = 4 \<longrightarrow> h_info h < number_of inp 14)) (map shdr_view (present ?xs))"
    unfolding list_all_iff
  proof
    fix h assume "h \<in> set (map shdr_view (present ?xs))"
    then obtain s where "s \<in> set (present ?xs)" "h = shdr_view s" by auto
    then obtain i where "i < 14" "flags_of inp ! i" "h = shdr_view (snd (?xs ! i))"
      using present_set [OF \<open>s \<in> _\<close>] k l by auto
    then show "(h_type h = 8 \<or> h_offset h + h_size h \<le> length f) \<and> h_link h < number_of inp 14
        \<and> (h_type h = 4 \<longrightarrow> h_info h < number_of inp 14)"
      using headers_in_range [OF assms(1), of i] by simp
  qed
  ultimately have v: "elf_valid f"
    using b unfolding elf_valid_def elf_shdrs_present [OF assms(1)] elf_front_fields [OF assms(1)] by simp
  have lv: "length ?vs = 14" "map fst ?vs = flags_of inp" by (simp_all add: sections_view_def flags_of_def)
  have "list_all2 (\<lambda>p q. fst p = fst q \<and> (fst p \<longrightarrow> elf_section f (shdr_view (snd p)) = snd q)) ?xs ?vs"
    unfolding list_all2_conv_all_nth
  proof (intro conjI allI impI)
    fix i assume "i < length ?xs"
    then have i: "i < 14" by (simp add: l)
    then show "fst (?xs ! i) = fst (?vs ! i)" using k lv by (metis nth_map)
    assume "fst (?xs ! i)"
    then show "elf_section f (shdr_view (snd (?xs ! i))) = snd (?vs ! i)"
      using slot_section [OF assms(1) i _ assms(2-5)] k [OF i] by simp
  qed (simp add: l lv)
  from map_present [OF this, of] have "map (elf_section f) (map shdr_view (present ?xs)) = present ?vs"
    by (simp add: comp_def)
  then show ?thesis using v by (simp add: elf_read_def elf_shdrs_present [OF assms(1)])
qed

lemma elf_written_shape:
  assumes "output_write_elf64 inp = Inr f" "length f < 2 ^ 32"
  obtains d symbols e where "elf_debug_line inp = Inr d"
    "output_symbols_collect (oi_symtable inp) = Some symbols" "symbol_names_fit_elf_strtab symbols"
    "elf_relocations_have_symbols (oi_relocations inp) symbols" "elf_shape inp symbols d f e"
proof -
  obtain d symbols where "elf_debug_line inp = Inr d"
    "output_symbols_collect (oi_symtable inp) = Some symbols" "symbol_names_fit_elf_strtab symbols"
    "elf_relocations_have_symbols (oi_relocations inp) symbols" "elf_write_file inp symbols d = Inr f"
    using assms(1) by (auto simp: output_write_elf64_def split: sum.splits option.splits if_splits)
  then show thesis using that elf_write_shape [OF _ assms(2)] by metis
qed

text \<open>The numbers of the input are values of \<^verbatim>\<open>size_t\<close>.\<close>

definition size_t_input :: "OutputInput \<Rightarrow> bool" where
  "size_t_input inp \<longleftrightarrow> oi_bss_size inp < 2 ^ 64 \<and> oi_data_alignment inp < 2 ^ 64
     \<and> oi_read_only_data_alignment inp < 2 ^ 64 \<and> oi_bss_alignment inp < 2 ^ 64"

text \<open>
  A small object: a call of the external label "b" in the text, eight bytes of data under the local
  label "a", and sixteen bytes of bss.
\<close>

definition sample_object :: OutputInput where
  "sample_object = \<lparr>oi_text = [0xE8, 0, 0, 0, 0, 0xC3], oi_data = [0, 0, 0, 0, 0, 0, 0, 0], oi_read_only_data = [],
     oi_bss_size = 16, oi_data_alignment = 0, oi_read_only_data_alignment = 0, oi_bss_alignment = 32,
     oi_symtable = symtable_run [External [0x62], Define [0x61] SYMBOL_SECTION_DATA 0],
     oi_relocations = Some [\<lparr>rel_section = RELOC_SECTION_TEXT, rel_kind = RELOC_PC32, rel_offset = 1,
        rel_symbol = [0x62], rel_addend = - 4\<rparr>],
     oi_debug_files = None, oi_debug_lines = None, oi_source_name = None\<rparr>"

definition sample_symbols :: OutputSymbolList where
  "sample_symbols = \<lparr>os_data =
     [\<lparr>os_name = [0x61], os_offset = 0, os_section = SYMBOL_SECTION_DATA, os_binding = SYMBOL_BINDING_LOCAL,
        name_offset = 0\<rparr>,
      \<lparr>os_name = [0x62], os_offset = 0, os_section = SYMBOL_SECTION_UNKNOWN, os_binding = SYMBOL_BINDING_GLOBAL,
        name_offset = 0\<rparr>],
     local_count = 1\<rparr>"

lemma sample_symbols_collected: "output_symbols_collect (oi_symtable sample_object) = Some sample_symbols"
proof -
  have "local_symbols (oi_symtable sample_object) @ global_symbols (oi_symtable sample_object) = os_data sample_symbols"
    "length (local_symbols (oi_symtable sample_object)) = 1" "count_output_symbols (oi_symtable sample_object) = 2"
    by code_simp+
  then show ?thesis by (simp add: output_symbols_collect UINT32_MAX_def sample_symbols_def)
qed

lemma sample_object_written:
  obtains f where "output_write_elf64 sample_object = Inr f" "length f = 832"
proof -
  let ?d = "\<lparr>dwarf_data = [], address_relocation_offset = 0\<rparr>"
  have "map_sum (\<lambda>_. ()) length (elf_write_file sample_object sample_symbols ?d) = Inr 832" by code_simp
  then obtain f where f: "elf_write_file sample_object sample_symbols ?d = Inr f" "length f = 832"
    by (cases "elf_write_file sample_object sample_symbols ?d") auto
  have "elf_debug_line sample_object = Inr ?d"
    by (simp add: elf_debug_line_def has_debug_def sample_object_def)
  moreover have "symbol_names_fit_elf_strtab sample_symbols"
    by (simp add: symbol_names_fit_elf_strtab_def sample_symbols_def output_symbol_link_name_def UINT32_MAX_def)
  moreover have "elf_relocations_have_symbols (oi_relocations sample_object) sample_symbols" by code_simp
  ultimately have "output_write_elf64 sample_object = Inr f"
    using f(1) sample_symbols_collected by (simp add: output_write_elf64_def)
  then show thesis using f(2) by (rule that)
qed

lemma sample_object_sizes: "size_t_input sample_object"
  by (simp add: size_t_input_def sample_object_def)

text \<open>
  C8. An independent ELF reader finds in a written file exactly the sections the input asks for, in
  order: each with its name, its type and flags, its bytes, its alignment, its link to the symbol or
  string table and, for relocations, the section they apply to. A file the writer returns below 4 GiB
  is always a well-formed relocatable object.
\<close>

theorem elf_sections_read_back:
  assumes "output_write_elf64 inp = Inr f" "length f < 2 ^ 32" "size_t_input inp"
  shows "\<exists>d symbols strtab named shstrtab.
    elf_debug_line inp = Inr d \<and> output_symbols_collect (oi_symtable inp) = Some symbols
    \<and> elf_symbol_names strtab_init (os_data symbols) = (strtab, named)
    \<and> elf_read f = Some (present
         (sections_view inp symbols d (symtab_bytes inp (elf_indices inp) named) strtab shstrtab))"
proof -
  obtain d symbols e where e: "elf_debug_line inp = Inr d"
    "output_symbols_collect (oi_symtable inp) = Some symbols" "symbol_names_fit_elf_strtab symbols"
    "elf_relocations_have_symbols (oi_relocations inp) symbols" "elf_shape inp symbols d f e"
    by (rule elf_written_shape [OF assms(1,2)])
  have n: "elf_symbol_names strtab_init (os_data symbols) = (ef_strtab e, ef_named e)"
    using e(5) unfolding elf_shape_def by (elim conjE)
  have r: "elf_read f = Some (present (sections_view inp symbols d
      (symtab_bytes inp (elf_indices inp) (ef_named e)) (ef_strtab e) (ef_shstrtab e)))"
    using assms(3) unfolding size_t_input_def by (intro elf_read_shape [OF e(5)]) simp_all
  show ?thesis by (intro exI conjI) (rule e(1), rule e(2), rule n, rule r)
qed

theorem elf_sections_read_back_witness:
  "\<exists>f secs. output_write_elf64 sample_object = Inr f \<and> elf_read f = Some secs
     \<and> map es_name secs = [[], name_text, name_data, name_bss, name_rela @ name_text, name_symtab, name_strtab,
         name_shstrtab, name_note]"
proof -
  obtain f where f: "output_write_elf64 sample_object = Inr f" "length f = 832"
    by (rule sample_object_written)
  have l: "length f < 2 ^ 32" using f(2) by simp
  obtain d symbols symtab strtab st where
    "elf_read f = Some (present (sections_view sample_object symbols d symtab strtab st))"
    using elf_sections_read_back [OF f(1) l sample_object_sizes] by blast
  then show ?thesis using f(1)
    by (simp add: sections_view_def section_view_def present_def sample_object_def has_data_def has_read_only_data_def
        has_bss_def has_debug_def has_relocations_in_section_def)
qed

end
