(* ===== verification/Elf_Symbols.thy ===== *)
theory Elf_Symbols
  imports Elf_Sections
begin

text \<open>
  The symbols and relocations of a written ELF file: an independent reader finds in the symbol table
  the symbols of the assembler with their names, bindings, sections and values, and in every
  relocation section the relocations of that section, each on the symbol it names.
\<close>

section \<open>The reader\<close>

definition elf_entries :: "nat \<Rightarrow> u8 list \<Rightarrow> u8 list list" where
  "elf_entries n c = map (\<lambda>i. take n (drop (n * i) c)) [0..<length c div n]"

record ElfSym =
  y_name :: cstr
  y_binding :: nat
  y_type :: nat
  y_section :: cstr
  y_value :: nat

definition elf_symbol :: "ElfSection list \<Rightarrow> u8 list \<Rightarrow> u8 list \<Rightarrow> ElfSym" where
  "elf_symbol secs strings b = \<lparr>y_name = string_at strings (field 0 4 b), y_binding = field 4 1 b div 16,
     y_type = field 4 1 b mod 16, y_section = es_name (secs ! field 6 2 b), y_value = field 8 8 b\<rparr>"

text \<open>The symbols of the only symbol table, with the names in the string table it links to.\<close>

definition elf_symbols :: "ElfSection list \<Rightarrow> ElfSym list option" where
  "elf_symbols secs =
     (case find (\<lambda>s. es_type s = 2) secs of None \<Rightarrow> None
      | Some t \<Rightarrow>
          case find (\<lambda>s. es_name s = es_link t) secs of None \<Rightarrow> None
          | Some st \<Rightarrow>
              let bs = elf_entries 24 (es_content t) in
              if list_all (\<lambda>b. field 6 2 b < length secs) bs
              then Some (map (elf_symbol secs (es_content st)) bs) else None)"

record ElfReloc =
  er_offset :: nat
  er_symbol :: cstr
  er_type :: nat
  er_addend :: int

definition elf_relocation :: "ElfSym list \<Rightarrow> u8 list \<Rightarrow> ElfReloc" where
  "elf_relocation syms b = \<lparr>er_offset = field 0 8 b, er_symbol = y_name (syms ! field 12 4 b),
     er_type = field 8 4 b, er_addend = sint (word_of_nat (field 16 8 b) :: u64)\<rparr>"

definition elf_relocations :: "ElfSection list \<Rightarrow> ElfSym list \<Rightarrow> cstr \<Rightarrow> ElfReloc list" where
  "elf_relocations secs syms n =
     (case find (\<lambda>s. es_name s = n) secs of None \<Rightarrow> []
      | Some s \<Rightarrow> map (elf_relocation syms) (elf_entries 24 (es_content s)))"

section \<open>Entries\<close>

lemma elf_entries_concat:
  assumes "\<forall>c \<in> set cs. length c = n" "n > 0"
  shows "elf_entries n (concat cs) = cs"
proof -
  have "length (concat cs) = n * length cs" using assms(1) by (induction cs) auto
  then have l: "length (concat cs) div n = length cs" using assms(2) by simp
  have "take n (drop (n * i) (concat cs)) = cs ! i" if "i < length cs" for i
    using assms(1) that
  proof (induction cs arbitrary: i)
    case (Cons c cs)
    then show ?case by (cases i) auto
  qed simp
  then show ?thesis unfolding elf_entries_def l by (intro nth_equalityI) simp_all
qed

lemma field_byte: "length xs = off \<Longrightarrow> field off 1 (xs @ b # ys) = unat b"
  by (simp add: field_def)

lemma unat_section_index:
  "unat (word_of_nat (number_of inp k) :: u16) = number_of inp k"
  using number_of_bound [of inp k] by (subst unat_of_nat) (simp add: take_bit_nat_eq_self)

lemma read_sym_bytes:
  "elf_symbol secs strings (sym_bytes nm info shndx v) = \<lparr>y_name = string_at strings (unat nm),
     y_binding = unat info div 16, y_type = unat info mod 16, y_section = es_name (secs ! unat shndx), y_value = unat v\<rparr>"
  "field 6 2 (sym_bytes nm info shndx v) = unat shndx"
  by (simp_all add: elf_symbol_def sym_bytes_def field_def le_nat_full)

lemma rela_info:
  "le_bytes 8 (push_bit 32 (ucast (i :: u32)) OR ucast (ty :: u32) :: u64) = le_bytes 4 ty @ le_bytes 4 i"
  unfolding le_bytes_u64 le_bytes_u32
  by (simp add: upt_rec) (intro conjI; rule bit_word_eqI; auto simp: bit_simps dest: bit_imp_le_length)

lemma read_rela_bytes:
  assumes "- (2 ^ 63) \<le> a" "a < 2 ^ 63"
  shows "elf_relocation syms (rela_bytes off i ty a) = \<lparr>er_offset = unat off, er_symbol = y_name (syms ! unat i),
    er_type = unat ty, er_addend = a\<rparr>"
proof -
  have "sint (word_of_int a :: u64) = a"
    using assms by (subst signed_of_int) (simp add: signed_take_bit_int_eq_self)
  moreover have "(word_of_nat (unat (word_of_int a :: u64)) :: u64) = word_of_int a" by simp
  ultimately show ?thesis
    by (simp add: elf_relocation_def rela_bytes_def rela_info field_def le_nat_full)
qed

section \<open>Names of symbols\<close>

lemma elf_symbol_names_ok:
  assumes "elf_symbol_names st xs = (st', ys)" "names_fit_from (length st) xs"
  shows "prefix st st' \<and> list_all2 (\<lambda>x y. y = x\<lparr>name_offset := name_offset y\<rparr>
    \<and> str_at st' (unat (name_offset y)) (os_name x)) xs ys"
  using assms
proof (induction xs arbitrary: st ys)
  case (Cons x xs)
  let ?st1 = "st @ os_name x @ [0]"
  obtain zs where z: "elf_symbol_names ?st1 xs = (st', zs)" "ys = x\<lparr>name_offset := word_of_nat (length st)\<rparr> # zs"
    using Cons.prems(1) by (auto simp: strtab_add_def output_symbol_link_name_def split: prod.splits)
  have f: "names_fit_from (length ?st1) xs" "length st < 2 ^ 32"
    using Cons.prems(2) by (auto simp: Let_def output_symbol_link_name_def UINT32_MAX_def split: if_splits)
  have IH: "prefix ?st1 st'" "list_all2 (\<lambda>x y. y = x\<lparr>name_offset := name_offset y\<rparr>
      \<and> str_at st' (unat (name_offset y)) (os_name x)) xs zs"
    using Cons.IH [OF z(1) f(1)] by simp_all
  have "has_at ?st1 (length st) (os_name x @ [0])" by (rule has_at_end)
  then have "str_at st' (length st) (os_name x)" unfolding str_at_def using IH(1) by (rule has_at_grow)
  moreover have "prefix st st'" using IH(1) by (rule append_prefixD)
  ultimately show ?case using z(2) IH(2) f(2) by (simp add: unat_of_small)
qed simp

section \<open>The views in the list of sections\<close>

lemma find_present:
  "find P (present xs) = map_option snd (find (\<lambda>p. fst p \<and> P (snd p)) xs)"
  by (induction xs) (auto simp: present_def)

lemma view_at:
  fixes inp symbols d symtab strtab st
  assumes "k < 14" "flags_of inp ! k"
  defines "vs \<equiv> sections_view inp symbols d symtab strtab st"
  shows "number_of inp k < length (present vs)" "present vs ! number_of inp k = snd (vs ! k)"
proof -
  have v: "length vs = 14" "map fst vs = flags_of inp" by (simp_all add: vs_def sections_view_def flags_of_def)
  have f: "fst (vs ! k)" using assms(1,2) v by (metis nth_map)
  have n: "index_of vs k = number_of inp k" by (simp add: index_of_flags v number_of_def)
  show "number_of inp k < length (present vs)" "present vs ! number_of inp k = snd (vs ! k)"
    using present_nth [of k vs] f assms(1) v(1) n by simp_all
qed

text \<open>
  The section of a label by its name. The file has no section for one without bytes; a label of such
  a section is attributed to the text, which the documentation of the program excludes.
\<close>

definition elf_section_name :: "SymbolSection \<Rightarrow> cstr" where
  "elf_section_name sec =
     (case sec of
        SYMBOL_SECTION_UNKNOWN \<Rightarrow> []
      | SYMBOL_SECTION_TEXT \<Rightarrow> name_text
      | SYMBOL_SECTION_DATA \<Rightarrow> name_data
      | SYMBOL_SECTION_READ_ONLY_DATA \<Rightarrow> name_rodata
      | SYMBOL_SECTION_BSS \<Rightarrow> name_bss)"

definition section_present :: "OutputInput \<Rightarrow> SymbolSection \<Rightarrow> bool" where
  "section_present inp sec =
     (case sec of
        SYMBOL_SECTION_UNKNOWN \<Rightarrow> True
      | SYMBOL_SECTION_TEXT \<Rightarrow> True
      | SYMBOL_SECTION_DATA \<Rightarrow> oi_data inp \<noteq> []
      | SYMBOL_SECTION_READ_ONLY_DATA \<Rightarrow> oi_read_only_data inp \<noteq> []
      | SYMBOL_SECTION_BSS \<Rightarrow> oi_bss_size inp \<noteq> 0)"

definition symbol_home :: "OutputInput \<Rightarrow> SymbolSection \<Rightarrow> cstr" where
  "symbol_home inp sec = (if section_present inp sec then elf_section_name sec else name_text)"

lemma symbol_home_cases:
  "symbol_home inp sec =
     (case sec of SYMBOL_SECTION_UNKNOWN \<Rightarrow> []
      | SYMBOL_SECTION_TEXT \<Rightarrow> name_text
      | SYMBOL_SECTION_DATA \<Rightarrow> if has_data inp then name_data else name_text
      | SYMBOL_SECTION_READ_ONLY_DATA \<Rightarrow> if has_read_only_data inp then name_rodata else name_text
      | SYMBOL_SECTION_BSS \<Rightarrow> if has_bss inp then name_bss else name_text)"
  by (cases sec) (simp_all add: symbol_home_def section_present_def elf_section_name_def has_data_def
      has_read_only_data_def has_bss_def)

lemma symbol_home:
  fixes inp symbols d symtab strtab st sec
  defines "ix \<equiv> elf_indices inp"
  defines "i \<equiv> unat (symbol_section_index sec 1 (sh_data ix) (sh_read_only_data ix) (sh_bss ix))"
    and "vs \<equiv> sections_view inp symbols d symtab strtab st"
  shows "i < length (present vs)" "es_name (present vs ! i) = symbol_home inp sec"
proof -
  note va = view_at [of _ inp symbols d symtab strtab st, folded vs_def]
  have pos: "has_data inp \<Longrightarrow> 0 < number_of inp 2" "has_read_only_data inp \<Longrightarrow> 0 < number_of inp 3"
    "has_bss inp \<Longrightarrow> 0 < number_of inp 4"
    by (simp_all add: number_of_def flags_of_def take_Cons')
  have one: "number_of inp (Suc 0) = 1" "number_of inp 0 = 0" using section_numbers(12,13) [of inp] by simp_all
  have va1: "1 < length (present vs)" "present vs ! 1 = snd (vs ! 1)" "0 < length (present vs)"
    "present vs ! 0 = snd (vs ! 0)"
    using va [of 1] va [of 0] one by (simp_all add: flags_of_def)
  have nm: "es_name (snd (vs ! k)) = slot_names ! k" if "k < 5" for k
    using that by (auto simp: vs_def sections_view_def slot_names_def section_view_def less_Suc_eq numeral_eq_Suc)
  consider "i = 0" "sec = SYMBOL_SECTION_UNKNOWN" | "i = 1" "symbol_home inp sec = name_text"
    | "has_data inp" "i = number_of inp 2" "symbol_home inp sec = name_data"
    | "has_read_only_data inp" "i = number_of inp 3" "symbol_home inp sec = name_rodata"
    | "has_bss inp" "i = number_of inp 4" "symbol_home inp sec = name_bss"
    by (cases sec; cases "has_data inp"; cases "has_read_only_data inp"; cases "has_bss inp")
      (simp_all add: i_def ix_def symbol_section_index_def section_numbers pos unat_section_index symbol_home_cases)
  then have "i < length (present vs) \<and> es_name (present vs ! i) = symbol_home inp sec"
  proof cases
    case 1 then show ?thesis using va1 nm [of 0] by (simp add: symbol_home_cases slot_names_def)
  next
    case 2 then show ?thesis using va1 nm [of 1] by (simp add: slot_names_def)
  next
    case 3 then show ?thesis using va [of 2] nm [of 2] by (simp add: slot_names_def flags_of_def)
  next
    case 4 then show ?thesis using va [of 3] nm [of 3] by (simp add: slot_names_def flags_of_def)
  next
    case 5 then show ?thesis using va [of 4] nm [of 4] by (simp add: slot_names_def flags_of_def)
  qed
  then show "i < length (present vs)" "es_name (present vs ! i) = symbol_home inp sec" by simp_all
qed

section \<open>Symbols read back\<close>

definition symbol_view :: "OutputInput \<Rightarrow> OutputSymbol \<Rightarrow> ElfSym" where
  "symbol_view inp x = \<lparr>y_name = os_name x, y_binding = (if os_binding x = SYMBOL_BINDING_GLOBAL then 1 else 0),
     y_type = 0, y_section = symbol_home inp (os_section x), y_value = nat (os_offset x)\<rparr>"

text \<open>The null symbol and, with debug lines, the symbol of the text section come first.\<close>

definition symbols_view :: "OutputInput \<Rightarrow> OutputSymbolList \<Rightarrow> ElfSym list" where
  "symbols_view inp symbols =
     \<lparr>y_name = [], y_binding = 0, y_type = 0, y_section = [], y_value = 0\<rparr>
     # (if has_debug inp then [\<lparr>y_name = [], y_binding = 0, y_type = 3, y_section = name_text, y_value = 0\<rparr>] else [])
     @ map (symbol_view inp) (os_data symbols)"

lemma symbol_rows:
  assumes "secs = present (sections_view inp symbols d symtab strtab st)" "str_at strtab 0 []"
    "list_all2 (\<lambda>x y. y = x\<lparr>name_offset := name_offset y\<rparr>
       \<and> str_at strtab (unat (name_offset y)) (os_name x)) (os_data symbols) named"
    "\<forall>x \<in> set (os_data symbols). 0 \<notin> set (os_name x) \<and> 0 \<le> os_offset x \<and> os_offset x < 2 ^ 64"
  defines "bs \<equiv> elf_entries 24 (symtab_bytes inp (elf_indices inp) named)"
  shows "list_all (\<lambda>b. field 6 2 b < length secs) bs"
    "map (elf_symbol secs strtab) bs = symbols_view inp symbols"
proof -
  have bs: "bs = sym_bytes 0 0 0 0 # (if has_debug inp then [sym_bytes 0 3 1 0] else [])
      @ map (symbol_bytes (elf_indices inp)) named"
    using elf_entries_concat [of "sym_bytes 0 0 0 0 # (if has_debug inp then [sym_bytes 0 3 1 0] else [])
      @ map (symbol_bytes (elf_indices inp)) named" 24]
    by (auto simp: bs_def symtab_bytes_def)
  have va: "0 < length secs" "es_name (secs ! 0) = []" "Suc 0 < length secs" "es_name (secs ! Suc 0) = name_text"
    by (simp_all add: assms(1) sections_view_def present_Cons section_view_def)
  have e: "string_at strtab 0 = []" using assms(2) by (simp add: str_at_string)
  have row: "field 6 2 (symbol_bytes (elf_indices inp) y) < length secs
      \<and> elf_symbol secs strtab (symbol_bytes (elf_indices inp) y) = symbol_view inp x"
    if "y = x\<lparr>name_offset := name_offset y\<rparr>" "str_at strtab (unat (name_offset y)) (os_name x)"
      "0 \<notin> set (os_name x)" "0 \<le> os_offset x" "os_offset x < 2 ^ 64" for x y
  proof -
    have o: "os_section y = os_section x" "os_binding y = os_binding x" "os_offset y = os_offset x"
      by (subst that(1), simp)+
    have v: "unat (word_of_int (os_offset x) :: u64) = nat (os_offset x)"
      using that(4,5) by (simp add: unat_eq_nat_uint uint_word_of_int)
    note h = symbol_home [where inp = inp and sec = "os_section x" and symbols = symbols and d = d and symtab = symtab
        and strtab = strtab and st = st, folded assms(1)]
    show ?thesis
      using h v str_at_string [OF that(2,3)] by (simp add: symbol_bytes_def read_sym_bytes symbol_view_def o)
  qed
  have rows: "list_all2 (\<lambda>x y. field 6 2 (symbol_bytes (elf_indices inp) y) < length secs
      \<and> elf_symbol secs strtab (symbol_bytes (elf_indices inp) y) = symbol_view inp x) (os_data symbols) named"
    using assms(3,4) row by (auto simp: list_all2_conv_all_nth)
  show "list_all (\<lambda>b. field 6 2 b < length secs) bs"
    using rows va by (auto simp: bs read_sym_bytes list_all_iff list_all2_conv_all_nth in_set_conv_nth)
  have "map (\<lambda>y. elf_symbol secs strtab (symbol_bytes (elf_indices inp) y)) named = map (symbol_view inp) (os_data symbols)"
    using rows by (auto simp: list_all2_conv_all_nth intro!: nth_equalityI)
  then show "map (elf_symbol secs strtab) bs = symbols_view inp symbols"
    using va e by (simp add: bs symbols_view_def read_sym_bytes comp_def)
qed

lemma find_sections:
  "find (\<lambda>s. es_type s = 2) (present (sections_view inp symbols d symtab strtab st))
     = Some (section_view name_symtab 2 0 symtab name_strtab [] 8 24)"
  "find (\<lambda>s. es_name s = name_strtab) (present (sections_view inp symbols d symtab strtab st))
     = Some (section_view name_strtab 3 0 strtab [] [] 1 0)"
  by (simp_all add: find_present sections_view_def section_view_def name_defs)

lemma elf_symbols_shape:
  assumes "elf_shape inp symbols d f e" "symbol_names_fit_elf_strtab symbols"
    "oi_bss_size inp < 2 ^ 64" "oi_data_alignment inp < 2 ^ 64" "oi_read_only_data_alignment inp < 2 ^ 64"
    "oi_bss_alignment inp < 2 ^ 64"
    "\<forall>x \<in> set (os_data symbols). 0 \<notin> set (os_name x) \<and> 0 \<le> os_offset x \<and> os_offset x < 2 ^ 64"
  shows "Option.bind (elf_read f) elf_symbols = Some (symbols_view inp symbols)"
proof -
  have n: "elf_symbol_names [0] (os_data symbols) = (ef_strtab e, ef_named e)"
    using assms(1) unfolding elf_shape_def strtab_init_def by (elim conjE)
  note ok = elf_symbol_names_ok [OF n] 
  have ok: "prefix [0] (ef_strtab e)" "list_all2 (\<lambda>x y. y = x\<lparr>name_offset := name_offset y\<rparr>
    \<and> str_at (ef_strtab e) (unat (name_offset y)) (os_name x)) (os_data symbols) (ef_named e)"
    using ok assms(2) by (simp_all add: symbol_names_fit_elf_strtab_def)
  have z: "str_at (ef_strtab e) 0 []"
    using has_at_grow [OF _ ok(1), of 0 "[0]"] by (simp add: str_at_def has_at_def)
  show ?thesis
    using symbol_rows [OF refl z ok(2) assms(7), of inp d "symtab_bytes inp (elf_indices inp) (ef_named e)" "ef_shstrtab e"]
    by (simp add: elf_read_shape [OF assms(1,3-6)] elf_symbols_def find_sections section_view_def Let_def)
qed

section \<open>Relocations read back\<close>

definition relocation_view :: "Relocation \<Rightarrow> ElfReloc" where
  "relocation_view r = \<lparr>er_offset = rel_offset r, er_symbol = rel_symbol r,
     er_type = (case rel_kind r of RELOC_ABS64 \<Rightarrow> 1 | RELOC_PC32 \<Rightarrow> 2), er_addend = rel_addend r\<rparr>"

definition relocation_section_name :: "RelocationSection \<Rightarrow> cstr" where
  "relocation_section_name sec = name_rela @ (case sec of RELOC_SECTION_TEXT \<Rightarrow> name_text
     | RELOC_SECTION_DATA \<Rightarrow> name_data | RELOC_SECTION_READ_ONLY_DATA \<Rightarrow> name_rodata)"

definition relocation_fits :: "Relocation \<Rightarrow> bool" where
  "relocation_fits r \<longleftrightarrow> rel_offset r < 2 ^ 64 \<and> - (2 ^ 63) \<le> rel_addend r \<and> rel_addend r < 2 ^ 63"

lemma read_relocation:
  assumes "output_symbols_find_index symbols (rel_symbol r) = Some i" "length (os_data symbols) < 2 ^ 32 - 1"
    "relocation_fits r"
  shows "elf_relocation (symbols_view inp symbols) (reloc_bytes symbols (debug_bias inp) r) = relocation_view r"
proof -
  obtain j where j: "j < length (os_data symbols)" "os_name (os_data symbols ! j) = rel_symbol r"
    "i = word_of_nat (j + 1)"
    using find_index_some [OF assms(1) [unfolded output_symbols_find_index_def]] by auto
  have "(i + debug_bias inp :: u32) = word_of_nat (j + 1 + (if has_debug inp then 1 else 0))"
    using j(3) by simp
  then have u: "unat (i + debug_bias inp) = j + 1 + (if has_debug inp then 1 else 0)"
    using j(1) assms(2) by (simp add: unat_of_small del: of_nat_add of_nat_Suc)
  have y: "y_name (symbols_view inp symbols ! (j + 1 + (if has_debug inp then 1 else 0))) = rel_symbol r"
    using j(1,2) by (simp add: symbols_view_def symbol_view_def)
  have o: "unat (word_of_nat (rel_offset r) :: u64) = rel_offset r"
    using assms(3) by (subst unat_of_nat) (simp add: take_bit_nat_eq_self relocation_fits_def)
  have t: "unat (elf_relocation_type (rel_kind r)) = (case rel_kind r of RELOC_ABS64 \<Rightarrow> 1 | RELOC_PC32 \<Rightarrow> 2)"
    by (simp add: elf_relocation_type_def split: RelocationKind.split)
  show ?thesis
    using assms(1,3) read_rela_bytes [of "rel_addend r"]
    by (simp add: reloc_bytes_def relocation_view_def u [simplified] y [simplified] o t relocation_fits_def
        del: One_nat_def)
qed

lemma find_relocations:
  "find (\<lambda>s. es_name s = relocation_section_name sec) (present (sections_view inp symbols d symtab strtab st))
     = (if has_relocations_in_section (oi_relocations inp) sec
        then Some (section_view (relocation_section_name sec) 4 0 (relas_bytes inp symbols sec) name_symtab
          (case sec of RELOC_SECTION_TEXT \<Rightarrow> name_text | RELOC_SECTION_DATA \<Rightarrow> if has_data inp then name_data else []
           | RELOC_SECTION_READ_ONLY_DATA \<Rightarrow> if has_read_only_data inp then name_rodata else []) 8 24)
        else None)"
  by (cases sec)
    (simp_all add: find_present sections_view_def section_view_def name_defs relocation_section_name_def)

lemma elf_relocations_view:
  assumes "secs = present (sections_view inp symbols d symtab strtab st)"
    "elf_relocations_have_symbols (oi_relocations inp) symbols" "length (os_data symbols) < 2 ^ 32 - 1"
    "\<forall>r \<in> set (relas_in inp sec). relocation_fits r"
  shows "elf_relocations secs (symbols_view inp symbols) (relocation_section_name sec)
    = map relocation_view (relas_in inp sec)"
proof (cases "has_relocations_in_section (oi_relocations inp) sec")
  case True
  have "output_symbols_find_index symbols (rel_symbol r) \<noteq> None" if "r \<in> set (relas_in inp sec)" for r
    using that assms(2)
    by (auto simp: relas_in_def elf_relocations_have_symbols_def list_all_iff split: option.splits)
  then have "elf_relocation (symbols_view inp symbols) (reloc_bytes symbols (debug_bias inp) r) = relocation_view r"
    if "r \<in> set (relas_in inp sec)" for r
    using that read_relocation [OF _ assms(3)] assms(4) by blast
  moreover have "elf_entries 24 (relas_bytes inp symbols sec)
      = map (reloc_bytes symbols (debug_bias inp)) (relas_in inp sec)"
    unfolding relas_bytes_def by (rule elf_entries_concat) auto
  ultimately show ?thesis
    using True by (simp add: elf_relocations_def assms(1) find_relocations section_view_def)
next
  case False
  then have "relas_in inp sec = []"
    by (auto simp: relas_in_def has_relocations_in_section_def list_ex_iff filter_empty_conv split: option.splits)
  then show ?thesis using False by (simp add: elf_relocations_def assms(1) find_relocations)
qed

section \<open>The written file\<close>

text \<open>Names of symbols are C strings, and their offsets are those of a section.\<close>

definition symbols_fit :: "OutputSymbolList \<Rightarrow> bool" where
  "symbols_fit symbols \<longleftrightarrow>
     (\<forall>x \<in> set (os_data symbols). 0 \<notin> set (os_name x) \<and> 0 \<le> os_offset x \<and> os_offset x < 2 ^ 64)"

lemma elf_symbols_written:
  assumes "output_write_elf64 inp = Inr f" "length f < 2 ^ 32" "size_t_input inp"
    "output_symbols_collect (oi_symtable inp) = Some symbols" "symbols_fit symbols"
  shows "Option.bind (elf_read f) elf_symbols = Some (symbols_view inp symbols)"
proof -
  obtain d syms e where e: "elf_debug_line inp = Inr d"
    "output_symbols_collect (oi_symtable inp) = Some syms" "symbol_names_fit_elf_strtab syms"
    "elf_relocations_have_symbols (oi_relocations inp) syms" "elf_shape inp syms d f e"
    by (rule elf_written_shape [OF assms(1,2)])
  then have "syms = symbols" using assms(4) by simp
  then show ?thesis
    using elf_symbols_shape [OF e(5,3)] assms(3,5) by (simp add: size_t_input_def symbols_fit_def)
qed

text \<open>
  C10. The symbol table of a written ELF file, read back through its string table and section
  headers, is the null symbol, the text section's symbol when there are debug lines, and then exactly
  the collected symbols in their order, each with its name, binding and value, and with its own
  section whenever that section is in the file. A label of a data, read-only data or bss section
  without bytes is the one exception: it reads back as a symbol of the text.
\<close>

theorem elf_symbols_read_back:
  assumes "output_write_elf64 inp = Inr f" "length f < 2 ^ 32" "size_t_input inp"
    "output_symbols_collect (oi_symtable inp) = Some symbols" "symbols_fit symbols"
  shows "Option.bind (elf_read f) elf_symbols = Some (symbols_view inp symbols)"
  using assms by (rule elf_symbols_written)

text \<open>
  C9. The relocation section of each section of a written ELF file, read back with the symbols the
  file itself holds, is exactly the list of that section's relocations in order: offset, symbol by
  name, type and addend.
\<close>

theorem elf_relocations_read_back:
  assumes "output_write_elf64 inp = Inr f" "length f < 2 ^ 32" "size_t_input inp"
    "output_symbols_collect (oi_symtable inp) = Some symbols" "symbols_fit symbols"
    "\<forall>r \<in> set (relas_in inp sec). relocation_fits r"
  shows "\<exists>secs syms. elf_read f = Some secs \<and> elf_symbols secs = Some syms
    \<and> elf_relocations secs syms (relocation_section_name sec) = map relocation_view (relas_in inp sec)"
proof -
  obtain d syms e where e: "elf_debug_line inp = Inr d"
    "output_symbols_collect (oi_symtable inp) = Some syms" "symbol_names_fit_elf_strtab syms"
    "elf_relocations_have_symbols (oi_relocations inp) syms" "elf_shape inp syms d f e"
    by (rule elf_written_shape [OF assms(1,2)])
  then have s: "syms = symbols" using assms(4) by simp
  have "count_output_symbols (oi_symtable inp) \<le> UINT32_MAX - 1"
    "length (os_data symbols) = count_output_symbols (oi_symtable inp)"
    using assms(4) length_symbols by (auto simp: output_symbols_collect split: if_splits)
  then have l: "length (os_data symbols) < 2 ^ 32 - 1" by (simp add: UINT32_MAX_def)
  obtain secs where secs: "elf_read f = Some secs"
    "secs = present (sections_view inp syms d (symtab_bytes inp (elf_indices inp) (ef_named e)) (ef_strtab e) (ef_shstrtab e))"
    using elf_read_shape [OF e(5)] assms(3) by (simp add: size_t_input_def)
  moreover have "elf_symbols secs = Some (symbols_view inp symbols)"
    using elf_symbols_shape [OF e(5,3)] assms(3,5) secs(1) s by (simp add: size_t_input_def symbols_fit_def)
  ultimately show ?thesis
    using elf_relocations_view [OF secs(2) e(4)] s l assms(6) by blast
qed

lemma sample_symbols_fit: "symbols_fit sample_symbols"
  by (simp add: symbols_fit_def sample_symbols_def)

theorem elf_symbols_read_back_witness:
  "\<exists>f syms. output_write_elf64 sample_object = Inr f \<and> Option.bind (elf_read f) elf_symbols = Some syms
     \<and> map y_name syms = [[], [0x61], [0x62]] \<and> map y_section syms = [[], name_data, []]"
proof -
  obtain f where f: "output_write_elf64 sample_object = Inr f" "length f = 832"
    by (rule sample_object_written)
  have l: "length f < 2 ^ 32" using f(2) by simp
  have "Option.bind (elf_read f) elf_symbols = Some (symbols_view sample_object sample_symbols)"
    using elf_symbols_read_back [OF f(1) l sample_object_sizes sample_symbols_collected sample_symbols_fit] .
  then show ?thesis using f(1)
    by (simp add: symbols_view_def symbol_view_def sample_symbols_def symbol_home_cases sample_object_def has_data_def
        has_debug_def)
qed

theorem elf_relocations_read_back_witness:
  "\<exists>f secs syms. output_write_elf64 sample_object = Inr f \<and> elf_read f = Some secs \<and> elf_symbols secs = Some syms
     \<and> elf_relocations secs syms (name_rela @ name_text)
         = [\<lparr>er_offset = 1, er_symbol = [0x62], er_type = 2, er_addend = - 4\<rparr>]"
proof -
  obtain f where f: "output_write_elf64 sample_object = Inr f" "length f = 832"
    by (rule sample_object_written)
  have l: "length f < 2 ^ 32" using f(2) by simp
  have r: "\<forall>r \<in> set (relas_in sample_object RELOC_SECTION_TEXT). relocation_fits r"
    by (simp add: relas_in_def sample_object_def relocation_fits_def)
  obtain secs syms where "elf_read f = Some secs" "elf_symbols secs = Some syms"
    "elf_relocations secs syms (relocation_section_name RELOC_SECTION_TEXT)
       = map relocation_view (relas_in sample_object RELOC_SECTION_TEXT)"
    using elf_relocations_read_back [OF f(1) l sample_object_sizes sample_symbols_collected sample_symbols_fit r] by blast
  then show ?thesis using f(1)
    by (simp add: relocation_section_name_def relas_in_def sample_object_def relocation_view_def)
qed

end
