(* ===== verification/Coff.thy ===== *)
theory Coff
  imports Elf64
begin

text \<open>
  The PE/COFF object writer of \<^verbatim>\<open>src/src/output/coff.c\<close>. Its input is the record of the ELF writer.
  Sizes and places are 32-bit words as in the code, so an overflowing size wraps; buffers and string
  tables are the bytes written so far.
\<close>

section \<open>Constants\<close>

abbreviation (input) COFF_MACHINE_AMD64 :: u16 where "COFF_MACHINE_AMD64 \<equiv> 0x8664"
abbreviation (input) COFF_SCN_CNT_CODE :: u32 where "COFF_SCN_CNT_CODE \<equiv> 0x20"
abbreviation (input) COFF_SCN_CNT_INIT_DATA :: u32 where "COFF_SCN_CNT_INIT_DATA \<equiv> 0x40"
abbreviation (input) COFF_SCN_CNT_UNINIT_DATA :: u32 where "COFF_SCN_CNT_UNINIT_DATA \<equiv> 0x80"
abbreviation (input) COFF_SCN_MEM_DISCARDABLE :: u32 where "COFF_SCN_MEM_DISCARDABLE \<equiv> 0x02000000"
abbreviation (input) COFF_SCN_MEM_EXECUTE :: u32 where "COFF_SCN_MEM_EXECUTE \<equiv> 0x20000000"
abbreviation (input) COFF_SCN_MEM_READ :: u32 where "COFF_SCN_MEM_READ \<equiv> 0x40000000"
abbreviation (input) COFF_SCN_MEM_WRITE :: u32 where "COFF_SCN_MEM_WRITE \<equiv> 0x80000000"
abbreviation (input) COFF_SCN_ALIGN_1 :: u32 where "COFF_SCN_ALIGN_1 \<equiv> 0x00100000"
abbreviation (input) COFF_SCN_ALIGN_16 :: u32 where "COFF_SCN_ALIGN_16 \<equiv> 0x00500000"

abbreviation (input) COFF_SYM_CLASS_EXTERNAL :: u8 where "COFF_SYM_CLASS_EXTERNAL \<equiv> 2"
abbreviation (input) COFF_SYM_CLASS_STATIC :: u8 where "COFF_SYM_CLASS_STATIC \<equiv> 3"
abbreviation (input) COFF_SYM_TYPE_NULL :: u16 where "COFF_SYM_TYPE_NULL \<equiv> 0"
abbreviation (input) COFF_REL_AMD64_ADDR64 :: u16 where "COFF_REL_AMD64_ADDR64 \<equiv> 1"
abbreviation (input) COFF_REL_AMD64_REL32 :: u16 where "COFF_REL_AMD64_REL32 \<equiv> 4"
abbreviation (input) COFF_REL_AMD64_SECTION :: u16 where "COFF_REL_AMD64_SECTION \<equiv> 0x0A"
abbreviation (input) COFF_REL_AMD64_SECREL :: u16 where "COFF_REL_AMD64_SECREL \<equiv> 0x0B"

text \<open>The loop over the exponent stops at 13, 8192 bytes.\<close>

function coff_alignment_exponent :: "nat \<Rightarrow> nat \<Rightarrow> nat" where
  "coff_alignment_exponent requested e =
     (if 2 ^ e < requested \<and> e < 13 then coff_alignment_exponent requested (e + 1) else e)"
  by pat_completeness auto
termination by (relation "measure (\<lambda>(r, e). 13 - e)") auto

declare coff_alignment_exponent.simps [simp del]

definition coff_data_alignment_flag :: "nat \<Rightarrow> u32" where
  "coff_data_alignment_flag requested =
     push_bit 20 (word_of_nat (coff_alignment_exponent requested 0) + 1)"

section \<open>Buffers and records\<close>

definition coff_w16 :: "nat \<Rightarrow> u16 \<Rightarrow> u8 list \<Rightarrow> u8 list" where
  "coff_w16 off v p = p[off := ucast v, off + 1 := ucast (drop_bit 8 v)]"

definition coff_w32 :: "nat \<Rightarrow> u32 \<Rightarrow> u8 list \<Rightarrow> u8 list" where
  "coff_w32 off v p = p[off := ucast v, off + 1 := ucast (drop_bit 8 v),
     off + 2 := ucast (drop_bit 16 v), off + 3 := ucast (drop_bit 24 v)]"

type_synonym Buf = "u8 list"

definition buf_write :: "Buf \<Rightarrow> u8 list \<Rightarrow> Buf" where
  "buf_write b src = b @ src"

definition buf_zero :: "Buf \<Rightarrow> nat \<Rightarrow> Buf" where
  "buf_zero b n = b @ replicate n 0"

definition buf_patch :: "Buf \<Rightarrow> nat \<Rightarrow> u8 list \<Rightarrow> Buf" where
  "buf_patch b off src = take off b @ src @ drop (off + length src) b"

text \<open>The string table starts with its size, filled in at the end.\<close>

definition coff_strtab_init :: Buf where
  "coff_strtab_init = buf_zero [] 4"

definition coff_strtab_add :: "Buf \<Rightarrow> cstr \<Rightarrow> Buf \<times> u32" where
  "coff_strtab_add st s = (buf_write st (s @ [0]), word_of_nat (length st))"

definition strtab_finalise :: "Buf \<Rightarrow> Buf" where
  "strtab_finalise st = buf_patch st 0 (coff_w32 0 (word_of_nat (length st)) (replicate 4 0))"

definition coff_write_shdr :: "Buf \<Rightarrow> u8 list \<Rightarrow> u32 \<Rightarrow> u32 \<Rightarrow> u32 \<Rightarrow> u32 \<Rightarrow> u32 \<Rightarrow> Buf" where
  "coff_write_shdr out nm raw_size raw_ptr reloc_ptr reloc_count characteristics =
     (let sh = nm @ replicate 32 0;
          sh = coff_w32 16 raw_size sh;
          sh = coff_w32 20 raw_ptr sh;
          sh = coff_w32 24 reloc_ptr sh;
          sh = coff_w32 28 0 sh;
          sh = coff_w16 32 (ucast reloc_count) sh;
          sh = coff_w16 34 0 sh;
          sh = coff_w32 36 characteristics sh
      in buf_write out sh)"

definition coff_write_sym :: "Buf \<Rightarrow> cstr \<Rightarrow> u32 \<Rightarrow> u32 \<Rightarrow> u16 \<Rightarrow> u16 \<Rightarrow> u8 \<Rightarrow> Buf" where
  "coff_write_sym out nm name_off v sec ty storage =
     (let sym = replicate 18 0;
          sym = (if length nm \<le> 8 then nm @ drop (length nm) sym else coff_w32 4 name_off sym);
          sym = coff_w32 8 v sym;
          sym = coff_w16 12 sec sym;
          sym = coff_w16 14 ty sym;
          sym = sym[16 := storage]
      in buf_write out sym)"

definition write_reloc :: "Buf \<Rightarrow> u32 \<Rightarrow> u32 \<Rightarrow> u16 \<Rightarrow> Buf" where
  "write_reloc out off symbol_index ty =
     (let r = replicate 10 0;
          r = coff_w32 0 off r;
          r = coff_w32 4 symbol_index r;
          r = coff_w16 8 ty r
      in buf_write out r)"

definition coff_section_number :: "SymbolSection \<Rightarrow> nat \<Rightarrow> nat \<Rightarrow> nat \<Rightarrow> u16" where
  "coff_section_number sec data_section read_only_data_section bss_section =
     (if sec = SYMBOL_SECTION_UNKNOWN then 0
      else if sec = SYMBOL_SECTION_DATA \<and> data_section > 0 then word_of_nat data_section
      else if sec = SYMBOL_SECTION_READ_ONLY_DATA \<and> read_only_data_section > 0
      then word_of_nat read_only_data_section
      else if sec = SYMBOL_SECTION_BSS \<and> bss_section > 0 then word_of_nat bss_section
      else 1)"

definition coff_relocation_type :: "RelocationKind \<Rightarrow> u16" where
  "coff_relocation_type k =
     (case k of RELOC_ABS64 \<Rightarrow> COFF_REL_AMD64_ADDR64 | RELOC_PC32 \<Rightarrow> COFF_REL_AMD64_REL32)"

definition count_relocations_in_section :: "Relocation list option \<Rightarrow> RelocationSection \<Rightarrow> nat" where
  "count_relocations_in_section relocs sec =
     (case relocs of None \<Rightarrow> 0
      | Some rs \<Rightarrow> foldl (\<lambda>n r. if rel_section r = sec then n + 1 else n) 0 rs)"

fun coff_names_fit_from :: "nat \<Rightarrow> OutputSymbol list \<Rightarrow> bool" where
  "coff_names_fit_from sz [] = True"
| "coff_names_fit_from sz (x # xs) =
     (let name_len = length (output_symbol_link_name x) in
      if name_len \<le> 8 then coff_names_fit_from sz xs
      else if name_len \<ge> UINT32_MAX \<or> sz > UINT32_MAX - name_len - 1 then False
      else coff_names_fit_from (sz + (name_len + 1)) xs)"

definition symbol_names_fit_coff_strtab :: "OutputSymbolList \<Rightarrow> cstr \<Rightarrow> bool" where
  "symbol_names_fit_coff_strtab symbols fname =
     (let sz = 4; source_len = length fname in
      if source_len > 8 \<and> (source_len \<ge> UINT32_MAX \<or> sz > UINT32_MAX - source_len - 1) then False
      else
        let sz = (if source_len > 8 then sz + (source_len + 1) else sz)
        in coff_names_fit_from sz (os_data symbols))"

definition coff_relocations_have_symbols :: "Relocation list option \<Rightarrow> OutputSymbolList \<Rightarrow> bool" where
  "coff_relocations_have_symbols relocs symbols =
     (case relocs of None \<Rightarrow> True
      | Some rs \<Rightarrow> list_all (\<lambda>r. output_symbols_find_index symbols (rel_symbol r) \<noteq> None) rs)"

section \<open>The layout\<close>

text \<open>The numbers of the sections, counted from one, and their total.\<close>

record CoffSections =
  nsections :: nat
  data_section :: nat
  read_only_data_section :: nat
  bss_section :: nat

definition coff_sections :: "OutputInput \<Rightarrow> CoffSections" where
  "coff_sections inp =
     (let n = 2;
          (i_data, n) = take_index (has_data inp) n;
          (i_read_only_data, n) = take_index (has_read_only_data inp) n;
          (i_bss, n) = take_index (has_bss inp) n;
          (i_debug, n) = take_index (has_debug inp) n
      in \<lparr>nsections = 1 + of_bool (has_data inp) + of_bool (has_read_only_data inp)
            + of_bool (has_bss inp) + of_bool (has_debug inp),
          data_section = i_data, read_only_data_section = i_read_only_data, bss_section = i_bss\<rparr>)"

record CoffCounts =
  text_relocs :: u32
  data_relocs :: u32
  read_only_data_relocs :: u32

text \<open>Every count is checked against the 16-bit field of the section header.\<close>

definition coff_counts :: "OutputInput \<Rightarrow> OutputMessage + CoffCounts" where
  "coff_counts inp =
     (let t = count_relocations_in_section (oi_relocations inp) RELOC_SECTION_TEXT;
          d = count_relocations_in_section (oi_relocations inp) RELOC_SECTION_DATA;
          r = count_relocations_in_section (oi_relocations inp) RELOC_SECTION_READ_ONLY_DATA
      in if t > 0xFFFF then Inl MSG_COFF_TEXT_RELOCATIONS
         else if d > 0xFFFF then Inl MSG_COFF_DATA_RELOCATIONS
         else if r > 0xFFFF then Inl MSG_COFF_READ_ONLY_RELOCATIONS
         else Inr \<lparr>text_relocs = word_of_nat t, data_relocs = word_of_nat d, read_only_data_relocs = word_of_nat r\<rparr>)"

record CoffLayout =
  text_raw_ptr :: u32
  data_raw_ptr :: u32
  read_only_data_raw_ptr :: u32
  debug_raw_ptr :: u32
  text_reloc_ptr :: u32
  data_reloc_ptr :: u32
  read_only_data_reloc_ptr :: u32
  debug_reloc_ptr :: u32
  symtab_ptr :: u32

definition coff_layout :: "OutputInput \<Rightarrow> CodeViewLineSection \<Rightarrow> CoffCounts \<Rightarrow> CoffLayout" where
  "coff_layout inp cv n =
     (let hdr_size = 20;
          shdrs_size = word_of_nat (nsections (coff_sections inp) * 40);
          text_raw = hdr_size + shdrs_size;
          raw_cursor = text_raw + word_of_nat (length (oi_text inp));
          data_raw = (if has_data inp then raw_cursor else 0);
          raw_cursor = (if has_data inp then raw_cursor + word_of_nat (length (oi_data inp)) else raw_cursor);
          read_only_data_raw = (if has_read_only_data inp then raw_cursor else 0);
          raw_cursor = (if has_read_only_data inp
                        then raw_cursor + word_of_nat (length (oi_read_only_data inp)) else raw_cursor);
          debug_raw = (if has_debug inp then raw_cursor else 0);
          raw_cursor = (if has_debug inp then raw_cursor + word_of_nat (length (codeview_data cv)) else raw_cursor);
          after_raw = raw_cursor
      in \<lparr>text_raw_ptr = text_raw, data_raw_ptr = data_raw, read_only_data_raw_ptr = read_only_data_raw,
          debug_raw_ptr = debug_raw,
          text_reloc_ptr = (if text_relocs n > 0 then after_raw else 0),
          data_reloc_ptr = (if data_relocs n > 0 then after_raw + text_relocs n * 10 else 0),
          read_only_data_reloc_ptr =
            (if read_only_data_relocs n > 0 then after_raw + (text_relocs n + data_relocs n) * 10 else 0),
          debug_reloc_ptr =
            (if has_debug inp
             then after_raw + (text_relocs n + data_relocs n + read_only_data_relocs n) * 10 else 0),
          symtab_ptr = after_raw + (text_relocs n + data_relocs n + read_only_data_relocs n
            + (if has_debug inp then 2 else 0)) * 10\<rparr>)"

section \<open>The stages of the writer\<close>

definition coff_header :: "nat \<Rightarrow> u32 \<Rightarrow> u32 \<Rightarrow> u8 list" where
  "coff_header n symtab total_symbols =
     (let h = replicate 20 0;
          h = coff_w16 0 COFF_MACHINE_AMD64 h;
          h = coff_w16 2 (word_of_nat n) h;
          h = coff_w32 4 0 h;
          h = coff_w32 8 symtab h;
          h = coff_w32 12 total_symbols h;
          h = coff_w16 16 0 h
      in coff_w16 18 0 h)"

text \<open>The names ".text", ".data", ".rdata", ".bss" and ".debug$S", padded to eight bytes.\<close>

definition coff_name_text :: "u8 list" where "coff_name_text = [0x2E, 0x74, 0x65, 0x78, 0x74, 0, 0, 0]"
definition coff_name_data :: "u8 list" where "coff_name_data = [0x2E, 0x64, 0x61, 0x74, 0x61, 0, 0, 0]"
definition coff_name_rdata :: "u8 list" where "coff_name_rdata = [0x2E, 0x72, 0x64, 0x61, 0x74, 0x61, 0, 0]"
definition coff_name_bss :: "u8 list" where "coff_name_bss = [0x2E, 0x62, 0x73, 0x73, 0, 0, 0, 0]"
definition coff_name_debug :: "u8 list" where "coff_name_debug = [0x2E, 0x64, 0x65, 0x62, 0x75, 0x67, 0x24, 0x53]"

definition coff_section_headers ::
  "OutputInput \<Rightarrow> CodeViewLineSection \<Rightarrow> CoffCounts \<Rightarrow> CoffLayout \<Rightarrow> Buf \<Rightarrow> Buf" where
  "coff_section_headers inp cv n lay out =
     (let out = coff_write_shdr out coff_name_text (word_of_nat (length (oi_text inp))) (text_raw_ptr lay)
                  (text_reloc_ptr lay) (text_relocs n)
                  (COFF_SCN_CNT_CODE OR COFF_SCN_MEM_EXECUTE OR COFF_SCN_MEM_READ OR COFF_SCN_ALIGN_16);
          out = (if has_data inp
                 then coff_write_shdr out coff_name_data (word_of_nat (length (oi_data inp))) (data_raw_ptr lay)
                        (data_reloc_ptr lay) (data_relocs n)
                        (COFF_SCN_CNT_INIT_DATA OR COFF_SCN_MEM_READ OR COFF_SCN_MEM_WRITE
                          OR coff_data_alignment_flag (oi_data_alignment inp))
                 else out);
          out = (if has_read_only_data inp
                 then coff_write_shdr out coff_name_rdata (word_of_nat (length (oi_read_only_data inp)))
                        (read_only_data_raw_ptr lay) (read_only_data_reloc_ptr lay) (read_only_data_relocs n)
                        (COFF_SCN_CNT_INIT_DATA OR COFF_SCN_MEM_READ
                          OR coff_data_alignment_flag (oi_read_only_data_alignment inp))
                 else out);
          out = (if has_bss inp
                 then coff_write_shdr out coff_name_bss (word_of_nat (oi_bss_size inp)) 0 0 0
                        (COFF_SCN_CNT_UNINIT_DATA OR COFF_SCN_MEM_READ OR COFF_SCN_MEM_WRITE
                          OR coff_data_alignment_flag (oi_bss_alignment inp))
                 else out)
      in if has_debug inp
         then coff_write_shdr out coff_name_debug (word_of_nat (length (codeview_data cv))) (debug_raw_ptr lay)
                (debug_reloc_ptr lay) 2
                (COFF_SCN_CNT_INIT_DATA OR COFF_SCN_MEM_DISCARDABLE OR COFF_SCN_MEM_READ OR COFF_SCN_ALIGN_1)
         else out)"

definition coff_contents :: "OutputInput \<Rightarrow> CodeViewLineSection \<Rightarrow> Buf \<Rightarrow> Buf" where
  "coff_contents inp cv out =
     (let out = (if length (oi_text inp) > 0 then buf_write out (oi_text inp) else out);
          out = (if has_data inp then buf_write out (oi_data inp) else out);
          out = (if has_read_only_data inp then buf_write out (oi_read_only_data inp) else out)
      in if has_debug inp then buf_write out (codeview_data cv) else out)"

text \<open>The loop over the relocations of one section.\<close>

fun coff_write_relocs ::
  "RelocationSection \<Rightarrow> OutputSymbolList \<Rightarrow> Buf \<Rightarrow> Relocation list \<Rightarrow> OutputMessage + Buf" where
  "coff_write_relocs sec symbols out [] = Inr out"
| "coff_write_relocs sec symbols out (r # rs) =
     (if rel_section r \<noteq> sec then coff_write_relocs sec symbols out rs
      else case output_symbols_find_index symbols (rel_symbol r) of
        None \<Rightarrow> Inl MSG_COFF_RELOCATION
      | Some symbol_index \<Rightarrow>
          coff_write_relocs sec symbols
            (write_reloc out (word_of_nat (rel_offset r)) symbol_index (coff_relocation_type (rel_kind r))) rs)"

definition coff_text_relocs :: "OutputInput \<Rightarrow> CoffCounts \<Rightarrow> OutputSymbolList \<Rightarrow> Buf \<Rightarrow> OutputMessage + Buf" where
  "coff_text_relocs inp n symbols out =
     (if text_relocs n > 0 then coff_write_relocs RELOC_SECTION_TEXT symbols out (the (oi_relocations inp)) else Inr out)"
definition coff_data_relocs :: "OutputInput \<Rightarrow> CoffCounts \<Rightarrow> OutputSymbolList \<Rightarrow> Buf \<Rightarrow> OutputMessage + Buf" where
  "coff_data_relocs inp n symbols out =
     (if data_relocs n > 0 then coff_write_relocs RELOC_SECTION_DATA symbols out (the (oi_relocations inp)) else Inr out)"
definition coff_read_only_data_relocs ::
  "OutputInput \<Rightarrow> CoffCounts \<Rightarrow> OutputSymbolList \<Rightarrow> Buf \<Rightarrow> OutputMessage + Buf" where
  "coff_read_only_data_relocs inp n symbols out =
     (if read_only_data_relocs n > 0
      then coff_write_relocs RELOC_SECTION_READ_ONLY_DATA symbols out (the (oi_relocations inp)) else Inr out)"

definition coff_debug_relocs :: "OutputInput \<Rightarrow> CodeViewLineSection \<Rightarrow> OutputSymbolList \<Rightarrow> Buf \<Rightarrow> Buf" where
  "coff_debug_relocs inp cv symbols out =
     (if has_debug inp
      then let i = word_of_nat (1 + length (os_data symbols));
               out = write_reloc out (word_of_nat (section_offset_relocation cv)) i COFF_REL_AMD64_SECREL
           in write_reloc out (word_of_nat (section_index_relocation cv)) i COFF_REL_AMD64_SECTION
      else out)"

text \<open>Names of more than eight bytes go to the string table.\<close>

fun coff_symbol_names :: "Buf \<Rightarrow> OutputSymbol list \<Rightarrow> Buf \<times> OutputSymbol list" where
  "coff_symbol_names st [] = (st, [])"
| "coff_symbol_names st (x # xs) =
     (let link_name = output_symbol_link_name x;
          (st, off) = (if length link_name > 8 then coff_strtab_add st link_name else (st, 0));
          (st, ys) = coff_symbol_names st xs
      in (st, x\<lparr>name_offset := off\<rparr> # ys))"

definition coff_write_symbol :: "OutputInput \<Rightarrow> Buf \<Rightarrow> OutputSymbol \<Rightarrow> Buf" where
  "coff_write_symbol inp out x =
     (let secs = coff_sections inp;
          storage = (if os_binding x = SYMBOL_BINDING_GLOBAL then COFF_SYM_CLASS_EXTERNAL else COFF_SYM_CLASS_STATIC)
      in coff_write_sym out (output_symbol_link_name x) (name_offset x) (word_of_int (os_offset x))
           (coff_section_number (os_section x) (data_section secs) (read_only_data_section secs) (bss_section secs))
           COFF_SYM_TYPE_NULL storage)"

definition coff_write_symbols :: "OutputInput \<Rightarrow> cstr \<Rightarrow> u32 \<Rightarrow> OutputSymbol list \<Rightarrow> Buf \<Rightarrow> Buf" where
  "coff_write_symbols inp fname fname_offset named out =
     (let out = coff_write_sym out fname fname_offset 0 (- 2) COFF_SYM_TYPE_NULL COFF_SYM_CLASS_STATIC;
          out = foldl (coff_write_symbol inp) out named
      in if has_debug inp
         then coff_write_sym out (take 5 coff_name_text) 0 0 1 COFF_SYM_TYPE_NULL COFF_SYM_CLASS_STATIC
         else out)"

section \<open>The writer\<close>

definition coff_write_file ::
  "OutputInput \<Rightarrow> cstr \<Rightarrow> CodeViewLineSection \<Rightarrow> OutputSymbolList \<Rightarrow> CoffCounts \<Rightarrow> OutputMessage + u8 list" where
  "coff_write_file inp fname cv symbols n =
     (let (st, fname_offset) = (if length fname > 8 then coff_strtab_add coff_strtab_init fname
                                else (coff_strtab_init, 0));
          (st, named) = coff_symbol_names st (os_data symbols);
          strtab = strtab_finalise st
      in if has_debug inp \<and> length (os_data symbols) > UINT32_MAX - 2 then Inl MSG_COFF_DEBUG_SYMBOLS
         else
           let total_symbols = word_of_nat (1 + length (os_data symbols) + (if has_debug inp then 1 else 0));
               lay = coff_layout inp cv n;
               out = buf_write [] (coff_header (nsections (coff_sections inp)) (symtab_ptr lay) total_symbols);
               out = coff_section_headers inp cv n lay out;
               out = coff_contents inp cv out
           in case coff_text_relocs inp n symbols out of Inl m \<Rightarrow> Inl m | Inr out \<Rightarrow>
              case coff_data_relocs inp n symbols out of Inl m \<Rightarrow> Inl m | Inr out \<Rightarrow>
              case coff_read_only_data_relocs inp n symbols out of Inl m \<Rightarrow> Inl m | Inr out \<Rightarrow>
              let out = coff_debug_relocs inp cv symbols out;
                  out = coff_write_symbols inp fname fname_offset named out
              in Inr (buf_write out strtab))"

definition coff_codeview_line :: "OutputInput \<Rightarrow> OutputMessage + CodeViewLineSection" where
  "coff_codeview_line inp =
     (if has_debug inp
      then output_build_codeview_line (the (oi_debug_files inp)) (the (oi_debug_lines inp)) (length (oi_text inp))
      else Inr \<lparr>codeview_data = [], section_offset_relocation = 0, section_index_relocation = 0\<rparr>)"

text \<open>The name "unknown" of a source without one.\<close>

definition unknown_source :: cstr where
  "unknown_source = [0x75, 0x6E, 0x6B, 0x6E, 0x6F, 0x77, 0x6E]"

definition output_write_coff :: "OutputInput \<Rightarrow> OutputMessage + u8 list" where
  "output_write_coff inp =
     (case coff_codeview_line inp of
        Inl m \<Rightarrow> Inl m
      | Inr cv \<Rightarrow>
          case output_symbols_collect (oi_symtable inp) of
            None \<Rightarrow> Inl MSG_COFF_SYMBOLS
          | Some symbols \<Rightarrow>
              let fname = (case oi_source_name inp of None \<Rightarrow> unknown_source | Some s \<Rightarrow> s) in
              if \<not> symbol_names_fit_coff_strtab symbols fname then Inl MSG_COFF_STRTAB
              else if \<not> coff_relocations_have_symbols (oi_relocations inp) symbols then Inl MSG_COFF_RELOCATION
              else case coff_counts inp of
                Inl m \<Rightarrow> Inl m
              | Inr n \<Rightarrow> coff_write_file inp fname cv symbols n)"

section \<open>The choice of the format\<close>

datatype OutputFormat = OUTPUT_FORMAT_ELF64 | OUTPUT_FORMAT_COFF

definition output_write :: "OutputFormat \<Rightarrow> OutputInput \<Rightarrow> OutputMessage + u8 list" where
  "output_write format inp =
     (case format of
        OUTPUT_FORMAT_ELF64 \<Rightarrow> output_write_elf64 inp
      | OUTPUT_FORMAT_COFF \<Rightarrow> output_write_coff inp)"

end
