(* ===== verification/Coff_Read.thy ===== *)
theory Coff_Read
  imports Coff Elf_Symbols
begin

text \<open>
  Closed forms of the stages of the COFF writer, an independent reader of COFF object files, and what
  it finds in the files of the writer: sections with their bytes and relocations, and symbols with
  their names, short ones in their entry and long ones in the string table.
\<close>

section \<open>Records as bytes\<close>

lemma coff_w16_eq: "coff_w16 = w16" and coff_w32_eq: "coff_w32 = w32"
  by (simp_all add: fun_eq_iff coff_w16_def w16_def coff_w32_def w32_def)

record CoffShdr =
  k_name :: "u8 list"
  k_size :: u32
  k_ptr :: u32
  k_reloc_ptr :: u32
  k_relocs :: u32
  k_flags :: u32

definition coff_shdr_bytes :: "CoffShdr \<Rightarrow> u8 list" where
  "coff_shdr_bytes s = k_name s @ replicate 8 0 @ le_bytes 4 (k_size s) @ le_bytes 4 (k_ptr s)
     @ le_bytes 4 (k_reloc_ptr s) @ le_bytes 4 (0 :: u32) @ le_bytes 2 (ucast (k_relocs s) :: u16)
     @ le_bytes 2 (0 :: u16) @ le_bytes 4 (k_flags s)"

lemma coff_write_shdr_bytes:
  assumes "length nm = 8"
  shows "coff_write_shdr out nm sz ptr rptr n fl = out @ coff_shdr_bytes
    \<lparr>k_name = nm, k_size = sz, k_ptr = ptr, k_reloc_ptr = rptr, k_relocs = n, k_flags = fl\<rparr>"
proof -
  have "nm @ replicate 32 0 = (nm @ replicate 8 0) @ replicate 24 (0 :: u8)"
    by (simp flip: replicate_add)
  then show ?thesis
    unfolding coff_write_shdr_def Let_def buf_write_def coff_shdr_bytes_def coff_w16_eq coff_w32_eq
    using assms by (simp add: w32_next w16_next del: append_assoc)
qed

definition coff_sym_bytes :: "cstr \<Rightarrow> u32 \<Rightarrow> u32 \<Rightarrow> u16 \<Rightarrow> u8 \<Rightarrow> u8 list" where
  "coff_sym_bytes nm off v sec storage =
     (if length nm \<le> 8 then nm @ replicate (8 - length nm) 0 else replicate 4 0 @ le_bytes 4 off)
     @ le_bytes 4 v @ le_bytes 2 sec @ le_bytes 2 (0 :: u16) @ [storage, 0]"

lemma coff_write_sym_bytes:
  "coff_write_sym out nm off v sec 0 storage = out @ coff_sym_bytes nm off v sec storage"
proof -
  define n8 :: "u8 list" where
    "n8 = (if length nm \<le> 8 then nm @ replicate (8 - length nm) 0 else replicate 4 0 @ le_bytes 4 off)"
  have l: "length n8 = 8" by (simp add: n8_def)
  have "nm @ drop (length nm) (replicate 18 0) = n8 @ replicate 10 0" if "length nm \<le> 8"
    using that by (simp add: n8_def flip: replicate_add)
  moreover have "coff_w32 4 off (replicate 18 0) = n8 @ replicate 10 0" if "\<not> length nm \<le> 8"
  proof -
    have "replicate 18 0 = replicate 4 0 @ replicate 14 (0 :: u8)" by (simp flip: replicate_add)
    then show ?thesis using that by (simp add: n8_def coff_w32_eq w32_next)
  qed
  ultimately have "(if length nm \<le> 8 then nm @ drop (length nm) (replicate 18 0) else coff_w32 4 off (replicate 18 0))
      = n8 @ replicate 10 0" by simp
  then have "coff_write_sym out nm off v sec 0 storage
      = out @ (coff_w16 14 0 (coff_w16 12 sec (coff_w32 8 v (n8 @ replicate 10 0))))[16 := storage]"
    unfolding coff_write_sym_def Let_def buf_write_def by (simp only:)
  also have "coff_w16 14 0 (coff_w16 12 sec (coff_w32 8 v (n8 @ replicate 10 0)))
      = (n8 @ le_bytes 4 v @ le_bytes 2 sec @ le_bytes 2 (0 :: u16)) @ replicate 2 0"
    unfolding coff_w16_eq coff_w32_eq using l by (simp add: w32_next w16_next del: append_assoc)
  also have "((n8 @ le_bytes 4 v @ le_bytes 2 sec @ le_bytes 2 (0 :: u16)) @ replicate 2 0)[16 := storage]
      = n8 @ le_bytes 4 v @ le_bytes 2 sec @ le_bytes 2 (0 :: u16) @ [storage, 0]"
    using l by (simp add: list_update_append numeral_eq_Suc)
  finally show ?thesis unfolding coff_sym_bytes_def n8_def by simp
qed

definition coff_reloc_bytes :: "u32 \<Rightarrow> u32 \<Rightarrow> u16 \<Rightarrow> u8 list" where
  "coff_reloc_bytes off i ty = le_bytes 4 off @ le_bytes 4 i @ le_bytes 2 ty"

lemma write_reloc_bytes: "write_reloc out off i ty = out @ coff_reloc_bytes off i ty"
proof -
  note first = w32_next [of 0 "[]" 10 off, simplified]
  show ?thesis
    unfolding write_reloc_def Let_def buf_write_def coff_reloc_bytes_def coff_w16_eq coff_w32_eq
    by (simp add: first w32_next w16_next del: append_assoc)
qed

lemma coff_header_bytes:
  "coff_header n symtab tot = le_bytes 2 (0x8664 :: u16) @ le_bytes 2 (word_of_nat n :: u16) @ le_bytes 4 (0 :: u32)
     @ le_bytes 4 symtab @ le_bytes 4 tot @ le_bytes 2 (0 :: u16) @ le_bytes 2 (0 :: u16)"
proof -
  note first = w16_next [of 0 "[]" 20 "0x8664", simplified]
  show ?thesis
    unfolding coff_header_def Let_def coff_w16_eq coff_w32_eq
    by (simp add: first w32_next w16_next del: append_assoc)
qed

lemma coff_lengths [simp]:
  "length (k_name s) = 8 \<Longrightarrow> length (coff_shdr_bytes s) = 40" "length (coff_sym_bytes nm off v sec storage) = 18"
  "length (coff_reloc_bytes a b c) = 10" "length (coff_header n symtab tot) = 20"
  by (simp_all add: coff_shdr_bytes_def coff_sym_bytes_def coff_reloc_bytes_def coff_header_bytes)

section \<open>The reader\<close>

record CoffSym =
  cy_name :: cstr
  cy_value :: nat
  cy_section :: cstr
  cy_class :: nat

record CoffReloc =
  cr_offset :: nat
  cr_symbol :: cstr
  cr_type :: nat

record CoffSection =
  cs_name :: cstr
  cs_flags :: nat
  cs_size :: nat
  cs_content :: "u8 list"
  cs_relocs :: "CoffReloc list"

text \<open>
  A name of up to eight bytes is in the entry, a longer one in the string table. A section number is
  read as the name of the section; zero and the special numbers have none.
\<close>

definition coff_section_name :: "u8 list \<Rightarrow> nat \<Rightarrow> cstr" where
  "coff_section_name f k = (if k = 0 \<or> k > field 2 2 f then []
     else takeWhile (\<lambda>x. x \<noteq> 0) (take 8 (drop (20 + 40 * (k - 1)) f)))"

definition coff_symbol :: "u8 list \<Rightarrow> u8 list \<Rightarrow> u8 list \<Rightarrow> CoffSym" where
  "coff_symbol f strings b = \<lparr>cy_name = (if field 0 4 b = 0 then string_at strings (field 4 4 b)
       else takeWhile (\<lambda>x. x \<noteq> 0) (take 8 b)),
     cy_value = field 8 4 b, cy_section = coff_section_name f (field 12 2 b), cy_class = field 16 1 b\<rparr>"

definition coff_strings :: "u8 list \<Rightarrow> u8 list" where
  "coff_strings f = drop (field 8 4 f + 18 * field 12 4 f) f"

definition coff_symbols :: "u8 list \<Rightarrow> CoffSym list" where
  "coff_symbols f =
     map (coff_symbol f (coff_strings f)) (elf_entries 18 (take (18 * field 12 4 f) (drop (field 8 4 f) f)))"

definition coff_relocation :: "CoffSym list \<Rightarrow> u8 list \<Rightarrow> CoffReloc" where
  "coff_relocation syms b = \<lparr>cr_offset = field 0 4 b, cr_symbol = cy_name (syms ! field 4 4 b), cr_type = field 8 2 b\<rparr>"

definition coff_section :: "u8 list \<Rightarrow> u8 list \<Rightarrow> CoffSection" where
  "coff_section f h = \<lparr>cs_name = takeWhile (\<lambda>x. x \<noteq> 0) (take 8 h), cs_flags = field 36 4 h, cs_size = field 16 4 h,
     cs_content = (if field 20 4 h = 0 then [] else take (field 16 4 h) (drop (field 20 4 h) f)),
     cs_relocs = map (coff_relocation (coff_symbols f))
       (elf_entries 10 (take (10 * field 32 2 h) (drop (field 24 4 h) f)))\<rparr>"

definition coff_valid :: "u8 list \<Rightarrow> bool" where
  "coff_valid f \<longleftrightarrow> field 0 2 f = 0x8664 \<and> field 16 2 f = 0 \<and> 20 + 40 * field 2 2 f \<le> length f
     \<and> field 8 4 f + 18 * field 12 4 f + 4 \<le> length f \<and> field 0 4 (coff_strings f) = length (coff_strings f)"

definition coff_read :: "u8 list \<Rightarrow> (CoffSection list \<times> CoffSym list) option" where
  "coff_read f = (if coff_valid f
     then Some (map (\<lambda>i. coff_section f (drop (20 + 40 * i) f)) [0..<field 2 2 f], coff_symbols f) else None)"

section \<open>The stages\<close>

definition coff_slots :: "OutputInput \<Rightarrow> CodeViewLineSection \<Rightarrow> CoffCounts \<Rightarrow> CoffLayout \<Rightarrow> (bool \<times> CoffShdr) list" where
  "coff_slots inp cv n lay =
     [(True, \<lparr>k_name = coff_name_text, k_size = word_of_nat (length (oi_text inp)), k_ptr = text_raw_ptr lay,
         k_reloc_ptr = text_reloc_ptr lay, k_relocs = text_relocs n, k_flags = 0x60500020\<rparr>),
      (has_data inp, \<lparr>k_name = coff_name_data, k_size = word_of_nat (length (oi_data inp)), k_ptr = data_raw_ptr lay,
         k_reloc_ptr = data_reloc_ptr lay, k_relocs = data_relocs n,
         k_flags = 0xC0000040 OR coff_data_alignment_flag (oi_data_alignment inp)\<rparr>),
      (has_read_only_data inp, \<lparr>k_name = coff_name_rdata, k_size = word_of_nat (length (oi_read_only_data inp)),
         k_ptr = read_only_data_raw_ptr lay, k_reloc_ptr = read_only_data_reloc_ptr lay,
         k_relocs = read_only_data_relocs n,
         k_flags = 0x40000040 OR coff_data_alignment_flag (oi_read_only_data_alignment inp)\<rparr>),
      (has_bss inp, \<lparr>k_name = coff_name_bss, k_size = word_of_nat (oi_bss_size inp), k_ptr = 0, k_reloc_ptr = 0,
         k_relocs = 0, k_flags = 0xC0000080 OR coff_data_alignment_flag (oi_bss_alignment inp)\<rparr>),
      (has_debug inp, \<lparr>k_name = coff_name_debug, k_size = word_of_nat (length (codeview_data cv)),
         k_ptr = debug_raw_ptr lay, k_reloc_ptr = debug_reloc_ptr lay, k_relocs = 2, k_flags = 0x42100040\<rparr>)]"

lemmas coff_name_defs = coff_name_text_def coff_name_data_def coff_name_rdata_def coff_name_bss_def coff_name_debug_def

lemma coff_section_headers_bytes:
  "coff_section_headers inp cv n lay out = out @ concat (map coff_shdr_bytes (present (coff_slots inp cv n lay)))"
proof -
  have "length coff_name_text = 8" "length coff_name_data = 8" "length coff_name_rdata = 8"
    "length coff_name_bss = 8" "length coff_name_debug = 8"
    by (simp_all add: coff_name_defs)
  then show ?thesis
    by (simp add: coff_section_headers_def Let_def coff_slots_def coff_write_shdr_bytes present_Cons or.assoc [symmetric])
qed

lemma coff_slot_names: "\<forall>p \<in> set (coff_slots inp cv n lay). length (k_name (snd p)) = 8"
  by (simp add: coff_slots_def coff_name_defs)

lemma coff_contents_bytes:
  "coff_contents inp cv out = out @ oi_text inp @ oi_data inp @ oi_read_only_data inp
     @ (if has_debug inp then codeview_data cv else [])"
  by (auto simp: coff_contents_def Let_def buf_write_def has_data_def has_read_only_data_def)

definition coff_reloc :: "OutputSymbolList \<Rightarrow> Relocation \<Rightarrow> u8 list" where
  "coff_reloc symbols r = coff_reloc_bytes (word_of_nat (rel_offset r))
     (the (output_symbols_find_index symbols (rel_symbol r))) (coff_relocation_type (rel_kind r))"

definition coff_relocs :: "OutputInput \<Rightarrow> OutputSymbolList \<Rightarrow> RelocationSection \<Rightarrow> u8 list" where
  "coff_relocs inp symbols sec = concat (map (coff_reloc symbols) (relas_in inp sec))"

lemma coff_write_relocs_bytes:
  assumes "coff_write_relocs sec symbols out rs = Inr out'"
  shows "out' = out @ concat (map (coff_reloc symbols) (filter (\<lambda>r. rel_section r = sec) rs))"
  using assms
proof (induction rs arbitrary: out)
  case (Cons r rs)
  then show ?case
    by (force split: if_splits option.splits simp: write_reloc_bytes coff_reloc_def)
qed simp

lemma count_relocations: "count_relocations_in_section (oi_relocations inp) sec = length (relas_in inp sec)"
proof -
  have "foldl (\<lambda>n r. if rel_section r = sec then n + 1 else n) n rs
      = n + length (filter (\<lambda>r. rel_section r = sec) rs)" for n and rs :: "Relocation list"
    by (induction rs arbitrary: n) auto
  then show ?thesis by (simp add: count_relocations_in_section_def relas_in_def split: option.split)
qed

lemma coff_counts_small:
  assumes "coff_counts inp = Inr n"
  shows "n = \<lparr>text_relocs = word_of_nat (length (relas_in inp RELOC_SECTION_TEXT)),
      data_relocs = word_of_nat (length (relas_in inp RELOC_SECTION_DATA)),
      read_only_data_relocs = word_of_nat (length (relas_in inp RELOC_SECTION_READ_ONLY_DATA))\<rparr>"
    "length (relas_in inp sec) \<le> 0xFFFF"
  using assms by (cases sec; auto simp: coff_counts_def Let_def count_relocations split: if_splits)+

lemma coff_relocs_stage:
  assumes "(if (word_of_nat (length (relas_in inp sec)) :: u32) > 0
    then coff_write_relocs sec symbols out (the (oi_relocations inp)) else Inr out) = Inr out'"
    "length (relas_in inp sec) \<le> 0xFFFF"
  shows "out' = out @ coff_relocs inp symbols sec"
proof (cases "relas_in inp sec = []")
  case True
  then show ?thesis using assms(1) by (simp add: coff_relocs_def)
next
  case False
  have "unat (word_of_nat (length (relas_in inp sec)) :: u32) = length (relas_in inp sec)"
    using assms(2) by (simp add: unat_of_small)
  then have "(word_of_nat (length (relas_in inp sec)) :: u32) > 0"
    using False by (simp add: word_less_nat_alt)
  moreover obtain rs where "oi_relocations inp = Some rs"
    using False by (auto simp: relas_in_def split: option.splits)
  ultimately show ?thesis
    using assms(1) coff_write_relocs_bytes [of sec symbols out rs out'] by (simp add: coff_relocs_def relas_in_def)
qed

definition coff_debug_reloc_bytes :: "OutputInput \<Rightarrow> CodeViewLineSection \<Rightarrow> OutputSymbolList \<Rightarrow> u8 list list" where
  "coff_debug_reloc_bytes inp cv symbols = (if has_debug inp then
     [coff_reloc_bytes (word_of_nat (section_offset_relocation cv)) (word_of_nat (1 + length (os_data symbols))) 0x0B,
      coff_reloc_bytes (word_of_nat (section_index_relocation cv)) (word_of_nat (1 + length (os_data symbols))) 0x0A]
     else [])"

definition coff_symbol_bytes :: "OutputInput \<Rightarrow> OutputSymbol \<Rightarrow> u8 list" where
  "coff_symbol_bytes inp x = coff_sym_bytes (os_name x) (name_offset x) (word_of_int (os_offset x))
     (coff_section_number (os_section x) (data_section (coff_sections inp))
        (read_only_data_section (coff_sections inp)) (bss_section (coff_sections inp)))
     (if os_binding x = SYMBOL_BINDING_GLOBAL then 2 else 3)"

definition coff_symtab :: "OutputInput \<Rightarrow> cstr \<Rightarrow> u32 \<Rightarrow> OutputSymbol list \<Rightarrow> u8 list list" where
  "coff_symtab inp fname fname_offset named =
     coff_sym_bytes fname fname_offset 0 0xFFFE 3 # map (coff_symbol_bytes inp) named
     @ (if has_debug inp then [coff_sym_bytes name_text 0 0 1 3] else [])"

lemma coff_write_symbols_bytes:
  "coff_write_symbols inp fname fname_offset named out = out @ concat (coff_symtab inp fname fname_offset named)"
proof -
  have "coff_write_symbol inp out x = out @ coff_symbol_bytes inp x" for out x
    by (simp add: coff_write_symbol_def Let_def coff_write_sym_bytes coff_symbol_bytes_def output_symbol_link_name_def)
  then have "foldl (coff_write_symbol inp) out named = out @ concat (map (coff_symbol_bytes inp) named)" for out
    by (induction named arbitrary: out) simp_all
  moreover have "take 5 coff_name_text = name_text" by (simp add: coff_name_text_def name_text_def)
  moreover have m: "(- 2 :: u16) = 0xFFFE" by simp
  ultimately show ?thesis
    unfolding coff_write_symbols_def Let_def coff_write_sym_bytes coff_symtab_def m by simp
qed

text \<open>The parts of the file in their order.\<close>

definition coff_parts ::
  "OutputInput \<Rightarrow> cstr \<Rightarrow> CodeViewLineSection \<Rightarrow> OutputSymbolList \<Rightarrow> CoffCounts \<Rightarrow> u32 \<Rightarrow> OutputSymbol list \<Rightarrow> u8 list
     \<Rightarrow> u8 list list" where
  "coff_parts inp fname cv symbols n fname_offset named strtab =
     [coff_header (nsections (coff_sections inp)) (symtab_ptr (coff_layout inp cv n))
        (word_of_nat (1 + length (os_data symbols) + (if has_debug inp then 1 else 0))),
      concat (map coff_shdr_bytes (present (coff_slots inp cv n (coff_layout inp cv n)))),
      oi_text inp, oi_data inp, oi_read_only_data inp, (if has_debug inp then codeview_data cv else []),
      coff_relocs inp symbols RELOC_SECTION_TEXT, coff_relocs inp symbols RELOC_SECTION_DATA,
      coff_relocs inp symbols RELOC_SECTION_READ_ONLY_DATA, concat (coff_debug_reloc_bytes inp cv symbols),
      concat (coff_symtab inp fname fname_offset named), strtab]"

lemma coff_file_parts:
  assumes "coff_write_file inp fname cv symbols n = Inr f" "coff_counts inp = Inr n"
  obtains st0 fname_offset st named where
    "(st0, fname_offset) = (if length fname > 8 then coff_strtab_add coff_strtab_init fname else (coff_strtab_init, 0))"
    "coff_symbol_names st0 (os_data symbols) = (st, named)"
    "f = concat (coff_parts inp fname cv symbols n fname_offset named (strtab_finalise st))"
proof -
  obtain st0 fname_offset where s0:
    "(st0, fname_offset) = (if length fname > 8 then coff_strtab_add coff_strtab_init fname else (coff_strtab_init, 0))"
    by (metis surj_pair)
  obtain st named where s1: "coff_symbol_names st0 (os_data symbols) = (st, named)" by fastforce
  note c = coff_counts_small [OF assms(2)]
  define out0 where "out0 = coff_contents inp cv (coff_section_headers inp cv n (coff_layout inp cv n)
    (coff_header (nsections (coff_sections inp)) (symtab_ptr (coff_layout inp cv n))
      (word_of_nat (1 + length (os_data symbols) + (if has_debug inp then 1 else 0)))))"
  obtain out1 out2 out3 where o: "coff_text_relocs inp n symbols out0 = Inr out1"
    "coff_data_relocs inp n symbols out1 = Inr out2" "coff_read_only_data_relocs inp n symbols out2 = Inr out3"
    "f = coff_write_symbols inp fname fname_offset named (coff_debug_relocs inp cv symbols out3) @ strtab_finalise st"
    using assms(1) s1 unfolding coff_write_file_def Let_def s0 [symmetric] out0_def
    by (auto simp: buf_write_def split: if_splits sum.splits)
  have "out1 = out0 @ coff_relocs inp symbols RELOC_SECTION_TEXT"
    using o(1) coff_relocs_stage [OF _ c(2)] by (auto simp: coff_text_relocs_def c(1))
  moreover have "out2 = out1 @ coff_relocs inp symbols RELOC_SECTION_DATA"
    using o(2) coff_relocs_stage [OF _ c(2)] by (auto simp: coff_data_relocs_def c(1))
  moreover have "out3 = out2 @ coff_relocs inp symbols RELOC_SECTION_READ_ONLY_DATA"
    using o(3) coff_relocs_stage [OF _ c(2)] by (auto simp: coff_read_only_data_relocs_def c(1))
  moreover have "coff_debug_relocs inp cv symbols out3 = out3 @ concat (coff_debug_reloc_bytes inp cv symbols)"
    by (simp add: coff_debug_relocs_def Let_def write_reloc_bytes coff_debug_reloc_bytes_def)
  ultimately have "f = concat (coff_parts inp fname cv symbols n fname_offset named (strtab_finalise st))"
    unfolding o(4) coff_write_symbols_bytes coff_parts_def
    by (simp add: out0_def coff_contents_bytes coff_section_headers_bytes)
  then show thesis by (rule that [OF s0 s1])
qed

section \<open>Where the parts lie\<close>

definition part_at :: "u8 list list \<Rightarrow> nat \<Rightarrow> nat" where
  "part_at ps k = length (concat (take k ps))"

lemma has_part:
  assumes "k < length ps"
  shows "has_at (concat ps) (part_at ps k) (ps ! k)"
proof -
  have "concat ps = concat (take k ps) @ ps ! k @ concat (drop (Suc k) ps)"
    using id_take_nth_drop [OF assms] by (metis concat.simps(2) concat_append)
  then show ?thesis unfolding has_at_def part_at_def by simp
qed

lemma has_at_take: "has_at f off c \<Longrightarrow> take (length c) (drop off f) = c \<and> off + length c \<le> length f"
  by (simp add: has_at_def)

lemma coff_nsections: "length (present (coff_slots inp cv n lay)) = nsections (coff_sections inp)"
  by (simp add: coff_slots_def coff_sections_def take_index_def Let_def split_beta)

lemma length_coff_parts:
  "length (concat (map coff_shdr_bytes (present (coff_slots inp cv n lay)))) = 40 * nsections (coff_sections inp)"
  "length (coff_relocs inp symbols sec) = 10 * length (relas_in inp sec)"
  "length (concat (coff_debug_reloc_bytes inp cv symbols)) = (if has_debug inp then 20 else 0)"
  "length (concat (coff_symtab inp fname fo named)) = 18 * (1 + length named + (if has_debug inp then 1 else 0))"
proof -
  have "\<forall>s \<in> set (present (coff_slots inp cv n lay)). length (coff_shdr_bytes s) = 40"
    using coff_slot_names [of inp cv n lay] by (auto simp: present_def)
  then have "length (concat (map coff_shdr_bytes (present (coff_slots inp cv n lay))))
      = 40 * length (present (coff_slots inp cv n lay))"
    by (induction "present (coff_slots inp cv n lay)") (simp_all add: length_concat comp_def sum_list_triv cong: map_cong)
  then show "length (concat (map coff_shdr_bytes (present (coff_slots inp cv n lay)))) = 40 * nsections (coff_sections inp)"
    by (simp add: coff_nsections)
  show "length (coff_relocs inp symbols sec) = 10 * length (relas_in inp sec)"
    by (simp add: coff_relocs_def length_concat coff_reloc_def comp_def sum_list_triv)
  show "length (concat (coff_debug_reloc_bytes inp cv symbols)) = (if has_debug inp then 20 else 0)"
    by (simp add: coff_debug_reloc_bytes_def)
  show "length (concat (coff_symtab inp fname fo named)) = 18 * (1 + length named + (if has_debug inp then 1 else 0))"
    by (simp add: coff_symtab_def length_concat comp_def coff_symbol_bytes_def sum_list_triv)
qed

lemma coff_layout_places:
  fixes inp fname cv symbols n fo named strtab
  assumes "coff_counts inp = Inr n"
  defines "ps \<equiv> coff_parts inp fname cv symbols n fo named strtab" and "lay \<equiv> coff_layout inp cv n"
  shows "text_raw_ptr lay = word_of_nat (part_at ps 2)"
    "data_raw_ptr lay = (if has_data inp then word_of_nat (part_at ps 3) else 0)"
    "read_only_data_raw_ptr lay = (if has_read_only_data inp then word_of_nat (part_at ps 4) else 0)"
    "debug_raw_ptr lay = (if has_debug inp then word_of_nat (part_at ps 5) else 0)"
    "text_reloc_ptr lay = (if text_relocs n > 0 then word_of_nat (part_at ps 6) else 0)"
    "data_reloc_ptr lay = (if data_relocs n > 0 then word_of_nat (part_at ps 7) else 0)"
    "read_only_data_reloc_ptr lay = (if read_only_data_relocs n > 0 then word_of_nat (part_at ps 8) else 0)"
    "debug_reloc_ptr lay = (if has_debug inp then word_of_nat (part_at ps 9) else 0)"
    "symtab_ptr lay = word_of_nat (part_at ps 10)"
proof -
  note c = coff_counts_small(1) [OF assms(1)]
  have d: "\<not> has_data inp \<Longrightarrow> oi_data inp = []" "\<not> has_read_only_data inp \<Longrightarrow> oi_read_only_data inp = []"
    by (simp_all add: has_data_def has_read_only_data_def)
  note at = part_at_def ps_def coff_parts_def take_Cons' length_coff_parts
  show "text_raw_ptr lay = word_of_nat (part_at ps 2)"
    "data_raw_ptr lay = (if has_data inp then word_of_nat (part_at ps 3) else 0)"
    "read_only_data_raw_ptr lay = (if has_read_only_data inp then word_of_nat (part_at ps 4) else 0)"
    "debug_raw_ptr lay = (if has_debug inp then word_of_nat (part_at ps 5) else 0)"
    "text_reloc_ptr lay = (if text_relocs n > 0 then word_of_nat (part_at ps 6) else 0)"
    "data_reloc_ptr lay = (if data_relocs n > 0 then word_of_nat (part_at ps 7) else 0)"
    "read_only_data_reloc_ptr lay = (if read_only_data_relocs n > 0 then word_of_nat (part_at ps 8) else 0)"
    "debug_reloc_ptr lay = (if has_debug inp then word_of_nat (part_at ps 9) else 0)"
    "symtab_ptr lay = word_of_nat (part_at ps 10)"
    by (simp_all add: lay_def coff_layout_def Let_def c at d algebra_simps)
qed

section \<open>A written file\<close>

definition coff_shape ::
  "OutputInput \<Rightarrow> cstr \<Rightarrow> CodeViewLineSection \<Rightarrow> OutputSymbolList \<Rightarrow> CoffCounts \<Rightarrow> u32 \<Rightarrow> OutputSymbol list \<Rightarrow> Buf
     \<Rightarrow> u8 list \<Rightarrow> bool" where
  "coff_shape inp fname cv symbols n fo named st f \<longleftrightarrow>
     f = concat (coff_parts inp fname cv symbols n fo named (strtab_finalise st)) \<and> coff_counts inp = Inr n
     \<and> length f < 2 ^ 32 \<and> length named = length (os_data symbols) \<and> 4 \<le> length st"

lemma length_finalise [simp]: "4 \<le> length st \<Longrightarrow> length (strtab_finalise st) = length st"
  by (simp add: strtab_finalise_def buf_patch_def coff_w32_def)

lemma finalise_bytes: "strtab_finalise st = le_bytes 4 (word_of_nat (length st) :: u32) @ drop 4 st"
  using w32_next [of 0 "[]" 4 "word_of_nat (length st)"]
  by (simp add: strtab_finalise_def buf_patch_def coff_w32_eq)

lemma coff_positions:
  assumes "coff_shape inp fname cv symbols n fo named st f"
  defines "ps \<equiv> coff_parts inp fname cv symbols n fo named (strtab_finalise st)"
  shows "k < 12 \<Longrightarrow> has_at f (part_at ps k) (ps ! k)" "k < 12 \<Longrightarrow> part_at ps k < 2 ^ 32"
    "k < 12 \<Longrightarrow> length (ps ! k) < 2 ^ 32" "k < 12 \<Longrightarrow> unat (word_of_nat (part_at ps k) :: u32) = part_at ps k"
    "k < 12 \<Longrightarrow> unat (word_of_nat (length (ps ! k)) :: u32) = length (ps ! k)"
    "part_at ps 11 + length (strtab_finalise st) = length f"
proof -
  have l: "length ps = 12" by (simp add: ps_def coff_parts_def)
  have f: "f = concat ps" "length f < 2 ^ 32"
    using assms(1) unfolding coff_shape_def ps_def by - (elim conjE, assumption)+
  have h: "has_at f (part_at ps k) (ps ! k)" if "k < 12" for k using has_part [of k ps] that l f(1) by simp
  then have b: "part_at ps k + length (ps ! k) < 2 ^ 32" if "k < 12" for k
    using h [OF that] f(2) unfolding has_at_def by linarith
  show "k < 12 \<Longrightarrow> has_at f (part_at ps k) (ps ! k)" "k < 12 \<Longrightarrow> part_at ps k < 2 ^ 32"
    "k < 12 \<Longrightarrow> length (ps ! k) < 2 ^ 32" "k < 12 \<Longrightarrow> unat (word_of_nat (part_at ps k) :: u32) = part_at ps k"
    "k < 12 \<Longrightarrow> unat (word_of_nat (length (ps ! k)) :: u32) = length (ps ! k)"
    using h b [of k] by (simp_all add: unat_of_small)
  have "length ps = Suc 11" using l by simp
  then have "ps = take 11 ps @ [ps ! 11]" by (metis lessI take_Suc_conv_app_nth take_all order_refl)
  then have "length f = part_at ps 11 + length (ps ! 11)" unfolding f(1) part_at_def
    by (metis concat.simps concat_append append_Nil2 length_append)
  then show "part_at ps 11 + length (strtab_finalise st) = length f" by (simp add: ps_def coff_parts_def)
qed

lemma coff_front_fields:
  assumes "coff_shape inp fname cv symbols n fo named st f"
  defines "ps \<equiv> coff_parts inp fname cv symbols n fo named (strtab_finalise st)"
  shows "field 0 2 f = 0x8664" "field 16 2 f = 0" "field 2 2 f = nsections (coff_sections inp)"
    "field 8 4 f = part_at ps 10"
    "field 12 4 f = 1 + length (os_data symbols) + (if has_debug inp then 1 else 0)"
    "part_at ps 1 = 20" "part_at ps 2 = 20 + 40 * nsections (coff_sections inp)"
    "part_at ps 11 = part_at ps 10 + 18 * field 12 4 f"
proof -
  have c: "coff_counts inp = Inr n" and f: "f = concat ps" and ln: "length named = length (os_data symbols)"
    using assms(1) by (simp_all add: coff_shape_def ps_def)
  note pos = coff_positions [OF assms(1), folded ps_def]
  have sym: "symtab_ptr (coff_layout inp cv n) = word_of_nat (part_at ps 10)"
    using coff_layout_places(9) [OF c] unfolding ps_def .
  have "nsections (coff_sections inp) \<le> 5"
    by (simp add: coff_sections_def Let_def take_index_def split_beta)
  then have ns: "unat (word_of_nat (nsections (coff_sections inp)) :: u16) = nsections (coff_sections inp)"
    by (subst unat_of_nat) (simp add: take_bit_nat_eq_self)
  have "length (ps ! 10) = 18 * (1 + length (os_data symbols) + (if has_debug inp then 1 else 0))"
    using length_coff_parts(4) [of inp fname fo named] ln by (simp add: ps_def coff_parts_def)
  then have tot: "unat (word_of_nat (1 + length (os_data symbols) + (if has_debug inp then 1 else 0)) :: u32)
      = 1 + length (os_data symbols) + (if has_debug inp then 1 else 0)"
    using pos(3) [of 10] by (intro unat_of_small) simp
  have tot2: "has_debug inp \<Longrightarrow> unat (word_of_nat (Suc (Suc (length (os_data symbols)))) :: u32) = Suc (Suc (length (os_data symbols)))"
    "\<not> has_debug inp \<Longrightarrow> unat (word_of_nat (Suc (length (os_data symbols))) :: u32) = Suc (length (os_data symbols))"
    using tot by (simp_all del: of_nat_Suc of_nat_add)
  have "f = coff_header (nsections (coff_sections inp)) (symtab_ptr (coff_layout inp cv n))
      (word_of_nat (1 + length (os_data symbols) + (if has_debug inp then 1 else 0))) @ concat (tl ps)"
    unfolding f by (simp add: ps_def coff_parts_def)
  then have z: "f = coff_header (nsections (coff_sections inp)) (word_of_nat (part_at ps 10))
      (word_of_nat (1 + length (os_data symbols) + (if has_debug inp then 1 else 0))) @ concat (tl ps)"
    unfolding sym .
  show fs: "field 0 2 f = 0x8664" "field 16 2 f = 0" "field 2 2 f = nsections (coff_sections inp)"
    "field 8 4 f = part_at ps 10"
    "field 12 4 f = 1 + length (os_data symbols) + (if has_debug inp then 1 else 0)"
    unfolding z coff_header_bytes field_def
    using pos(4) [of 10] by (simp_all add: le_nat_full ns tot2 del: of_nat_Suc of_nat_add)
  show "part_at ps 1 = 20" by (simp add: part_at_def ps_def coff_parts_def)
  show "part_at ps 2 = 20 + 40 * nsections (coff_sections inp)"
    by (simp add: part_at_def ps_def coff_parts_def take_Cons' length_coff_parts)
  show "part_at ps 11 = part_at ps 10 + 18 * field 12 4 f"
    unfolding fs(5) using ln by (simp add: part_at_def ps_def coff_parts_def take_Cons' length_coff_parts)
qed

section \<open>Section headers\<close>

lemma drop_chunks:
  assumes "\<forall>c \<in> set cs. length c = n" "i < length cs"
  shows "drop (n * i) (concat cs) = cs ! i @ concat (drop (Suc i) cs)"
  using assms
proof (induction cs arbitrary: i)
  case (Cons c cs)
  then show ?case by (cases i) auto
qed simp

lemma coff_header_at:
  assumes "coff_shape inp fname cv symbols n fo named st f"
  defines "hs \<equiv> present (coff_slots inp cv n (coff_layout inp cv n))"
  assumes "i < length hs"
  shows "\<exists>rest. drop (20 + 40 * i) f = coff_shdr_bytes (hs ! i) @ rest" "length (k_name (hs ! i)) = 8"
proof -
  define cs where "cs = map coff_shdr_bytes hs"
  have nm: "\<forall>s \<in> set hs. length (k_name s) = 8"
    using coff_slot_names [of inp cv n "coff_layout inp cv n"] by (auto simp: hs_def present_def)
  then have l: "\<forall>c \<in> set cs. length c = 40" by (simp add: cs_def)
  have "has_at f 20 (concat cs)"
    using coff_positions(1) [OF assms(1), of 1] coff_front_fields(6) [OF assms(1)]
    by (simp add: coff_parts_def cs_def hs_def)
  then obtain rest where "drop 20 f = concat cs @ rest"
    unfolding has_at_def by (metis append_take_drop_id)
  then have "drop (20 + 40 * i) f = drop (40 * i) (concat cs @ rest)" by (metis drop_drop add.commute)
  moreover have "40 * i \<le> length (concat cs)"
    using assms(3) l by (simp add: length_coff_parts(1) cs_def hs_def coff_nsections)
  ultimately have "drop (20 + 40 * i) f = (cs ! i @ concat (drop (Suc i) cs)) @ rest"
    using drop_chunks [OF l, of i] assms(3) by (simp add: cs_def)
  then show "\<exists>rest. drop (20 + 40 * i) f = coff_shdr_bytes (hs ! i) @ rest"
    using assms(3) by (simp add: cs_def)
  show "length (k_name (hs ! i)) = 8" using nm assms(3) by simp
qed

lemma coff_section_bytes:
  assumes "length (k_name s) = 8"
  shows "coff_section f (coff_shdr_bytes s @ rest) = \<lparr>cs_name = takeWhile (\<lambda>x. x \<noteq> 0) (k_name s),
     cs_flags = unat (k_flags s), cs_size = unat (k_size s),
     cs_content = (if unat (k_ptr s) = 0 then [] else take (unat (k_size s)) (drop (unat (k_ptr s)) f)),
     cs_relocs = map (coff_relocation (coff_symbols f))
       (elf_entries 10 (take (10 * unat (ucast (k_relocs s) :: u16)) (drop (unat (k_reloc_ptr s)) f)))\<rparr>"
  using assms by (simp add: coff_section_def coff_shdr_bytes_def field_def le_nat_full)

section \<open>Symbols\<close>

lemma coff_read_sym_bytes:
  assumes "nm \<noteq> []" "0 \<notin> set nm" "length nm > 8 \<longrightarrow> str_at strings (unat off) nm"
  shows "coff_symbol f strings (coff_sym_bytes nm off v sec storage) = \<lparr>cy_name = nm, cy_value = unat v,
    cy_section = coff_section_name f (unat sec), cy_class = unat storage\<rparr>"
proof (cases "length nm \<le> 8")
  case True
  obtain b bs where nm: "nm = b # bs" "b \<noteq> 0" using assms(1,2) by (cases nm) auto
  let ?n = "nm @ replicate (8 - length nm) 0"
  have l: "length ?n = 8" using True by simp
  have "takeWhile (\<lambda>x. x \<noteq> 0) ?n = nm"
    using assms(2) by (subst takeWhile_append2) (auto simp: takeWhile_eq_Nil_iff replicate_eq_replicate)
  moreover have "le_nat (take 4 ?n) \<noteq> 0" using nm by (simp add: unat_gt_0)
  moreover have "take 4 (?n @ ys) = take 4 ?n" for ys using l by simp
  ultimately show ?thesis
    unfolding coff_symbol_def coff_sym_bytes_def field_def using True l
    by (simp add: le_nat_full del: take_append drop_append append_assoc)
      (simp add: l le_nat_full)
next
  case False
  then have "string_at strings (unat off) = nm" using assms(2,3) by (simp add: str_at_string)
  moreover have "le_nat (replicate 4 (0 :: u8)) = 0" by (simp add: numeral_eq_Suc)
  ultimately show ?thesis
    unfolding coff_symbol_def coff_sym_bytes_def field_def using False by (simp add: le_nat_full)
qed

text \<open>
  The section of a label by its name. As in ELF files, a label of a section without bytes is
  attributed to the text, because the file has no section for it.
\<close>

definition coff_label :: "u8 list \<Rightarrow> cstr" where
  "coff_label = takeWhile (\<lambda>x. x \<noteq> 0)"

definition coff_own_section :: "SymbolSection \<Rightarrow> cstr" where
  "coff_own_section sec =
     (case sec of
        SYMBOL_SECTION_UNKNOWN \<Rightarrow> []
      | SYMBOL_SECTION_TEXT \<Rightarrow> name_text
      | SYMBOL_SECTION_DATA \<Rightarrow> name_data
      | SYMBOL_SECTION_READ_ONLY_DATA \<Rightarrow> coff_label coff_name_rdata
      | SYMBOL_SECTION_BSS \<Rightarrow> name_bss)"

definition coff_home :: "OutputInput \<Rightarrow> SymbolSection \<Rightarrow> cstr" where
  "coff_home inp sec = (if section_present inp sec then coff_own_section sec else name_text)"

lemma coff_home_cases:
  "coff_home inp sec =
     (case sec of SYMBOL_SECTION_UNKNOWN \<Rightarrow> []
      | SYMBOL_SECTION_TEXT \<Rightarrow> name_text
      | SYMBOL_SECTION_DATA \<Rightarrow> if has_data inp then name_data else name_text
      | SYMBOL_SECTION_READ_ONLY_DATA \<Rightarrow> if has_read_only_data inp then coff_label coff_name_rdata else name_text
      | SYMBOL_SECTION_BSS \<Rightarrow> if has_bss inp then name_bss else name_text)"
  by (cases sec) (simp_all add: coff_home_def section_present_def coff_own_section_def has_data_def
      has_read_only_data_def has_bss_def)

lemma coff_section_name_nth:
  assumes "coff_shape inp fname cv symbols n fo named st f"
  defines "hs \<equiv> present (coff_slots inp cv n (coff_layout inp cv n))"
  assumes "i < length hs"
  shows "coff_section_name f (Suc i) = coff_label (k_name (hs ! i))"
proof -
  have "Suc i \<le> field 2 2 f"
    using assms(3) coff_front_fields(3) [OF assms(1)] by (simp add: hs_def coff_nsections)
  then show ?thesis
    using coff_header_at [OF assms(1), of i, folded hs_def] assms(3)
    by (auto simp: coff_section_name_def coff_shdr_bytes_def coff_label_def)
qed

lemma coff_home:
  assumes "coff_shape inp fname cv symbols n fo named st f"
  defines "secs \<equiv> coff_sections inp"
  shows "coff_section_name f (unat (coff_section_number sec (data_section secs) (read_only_data_section secs) (bss_section secs)))
    = coff_home inp sec" "coff_section_name f 1 = name_text" "coff_section_name f 0xFFFE = []"
proof -
  let ?hs = "present (coff_slots inp cv n (coff_layout inp cv n))"
  note nth = coff_section_name_nth [OF assms(1)]
  have nm: "coff_label coff_name_text = name_text" "coff_label coff_name_data = name_data"
    "coff_label coff_name_bss = name_bss"
    by (simp_all add: coff_label_def coff_name_defs name_defs)
  have n1: "coff_section_name f (Suc 0) = name_text"
    using nth [of 0] by (simp add: coff_slots_def present_Cons nm)
  show "coff_section_name f 1 = name_text" using n1 by simp
  have "nsections (coff_sections inp) \<le> 5"
    by (simp add: coff_sections_def Let_def take_index_def split_beta)
  then show "coff_section_name f 0xFFFE = []"
    by (simp add: coff_section_name_def coff_front_fields(3) [OF assms(1)])
  have nth': "coff_section_name f k = coff_label (k_name (?hs ! (k - 1)))" if "0 < k" "k \<le> length ?hs" for k
    using nth [of "k - 1"] that by simp
  note slots = secs_def coff_sections_def take_index_def Let_def coff_slots_def present_Cons nm
  have n2: "coff_section_name f 2 = name_data" if "has_data inp"
    using nth' [of 2] that by (simp add: slots)
  have n3: "coff_section_name f (unat (word_of_nat (read_only_data_section secs) :: u16)) = coff_label coff_name_rdata
      \<and> read_only_data_section secs > 0" if "has_read_only_data inp"
    using nth' [of 2] nth' [of 3] that by (cases "has_data inp") (simp_all add: slots)
  have n4: "coff_section_name f (unat (word_of_nat (bss_section secs) :: u16)) = name_bss \<and> bss_section secs > 0"
    if "has_bss inp"
    using nth' [of 2] nth' [of 3] nth' [of 4] that
    by (cases "has_data inp"; cases "has_read_only_data inp") (simp_all add: slots)
  have z: "data_section secs = (if has_data inp then 2 else 0)"
    "\<not> has_read_only_data inp \<Longrightarrow> read_only_data_section secs = 0" "\<not> has_bss inp \<Longrightarrow> bss_section secs = 0"
    by (simp_all add: secs_def coff_sections_def take_index_def Let_def split_beta)
  have u: "coff_section_name f 0 = []" by (simp add: coff_section_name_def)
  show "coff_section_name f (unat (coff_section_number sec (data_section secs) (read_only_data_section secs) (bss_section secs)))
    = coff_home inp sec"
    using n1 n2 n3 n4 z u by (cases sec) (auto simp: coff_section_number_def coff_home_cases)
qed

definition coff_symbol_view :: "OutputInput \<Rightarrow> OutputSymbol \<Rightarrow> CoffSym" where
  "coff_symbol_view inp x = \<lparr>cy_name = os_name x, cy_value = nat (os_offset x),
     cy_section = coff_home inp (os_section x), cy_class = (if os_binding x = SYMBOL_BINDING_GLOBAL then 2 else 3)\<rparr>"

definition coff_symbols_view :: "OutputInput \<Rightarrow> cstr \<Rightarrow> OutputSymbolList \<Rightarrow> CoffSym list" where
  "coff_symbols_view inp fname symbols =
     \<lparr>cy_name = fname, cy_value = 0, cy_section = [], cy_class = 3\<rparr>
     # map (coff_symbol_view inp) (os_data symbols)
     @ (if has_debug inp then [\<lparr>cy_name = name_text, cy_value = 0, cy_section = name_text, cy_class = 3\<rparr>] else [])"

text \<open>The names in the string table.\<close>

definition coff_named :: "Buf \<Rightarrow> OutputSymbol \<Rightarrow> OutputSymbol \<Rightarrow> bool" where
  "coff_named st x y \<longleftrightarrow> y = x\<lparr>name_offset := name_offset y\<rparr>
     \<and> (length (os_name x) > 8 \<longrightarrow> 4 \<le> unat (name_offset y) \<and> str_at st (unat (name_offset y)) (os_name x))"

lemma coff_symbol_names_ok:
  assumes "coff_symbol_names st xs = (st', ys)" "coff_names_fit_from (length st) xs" "4 \<le> length st"
  shows "prefix st st' \<and> list_all2 (coff_named st') xs ys"
  using assms
proof (induction xs arbitrary: st ys)
  case (Cons x xs)
  define st1 where "st1 = (if length (os_name x) > 8 then st @ os_name x @ [0] else st)"
  obtain o1 zs where z: "coff_symbol_names st1 xs = (st', zs)" "ys = x\<lparr>name_offset := o1\<rparr> # zs"
    "length (os_name x) > 8 \<Longrightarrow> o1 = word_of_nat (length st)"
    using Cons.prems(1) unfolding st1_def
    by (auto simp: coff_strtab_add_def buf_write_def output_symbol_link_name_def Let_def split: prod.splits if_splits)
  have f: "coff_names_fit_from (length st1) xs" "length (os_name x) > 8 \<Longrightarrow> length st < 2 ^ 32"
    using Cons.prems(2) unfolding st1_def
    by (auto simp: Let_def output_symbol_link_name_def UINT32_MAX_def split: if_splits)
  have p: "prefix st st1" by (simp add: st1_def)
  have IH: "prefix st1 st'" "list_all2 (coff_named st') xs zs"
    using Cons.IH [OF z(1) f(1)] Cons.prems(3) by (simp_all add: st1_def)
  have "4 \<le> unat o1 \<and> str_at st' (unat o1) (os_name x)" if "length (os_name x) > 8"
  proof -
    have "has_at st1 (length st) (os_name x @ [0])"
      using that has_at_end [of st "os_name x @ [0]"] by (simp add: st1_def)
    then have "str_at st' (length st) (os_name x)" unfolding str_at_def using IH(1) by (rule has_at_grow)
    then show ?thesis using z(3) f(2) that Cons.prems(3) by (simp add: unat_of_small)
  qed
  then have "coff_named st' x (x\<lparr>name_offset := o1\<rparr>)" by (simp add: coff_named_def)
  then show ?case using z(2) IH prefix_order.trans [OF p IH(1)] by simp
qed simp

lemma str_at_finalise:
  assumes "str_at st off s" "4 \<le> off" "4 \<le> length st"
  shows "str_at (strtab_finalise st) off s"
proof -
  have "drop off (strtab_finalise st) = drop off st" using assms by (simp add: finalise_bytes)
  then show ?thesis using assms by (simp add: str_at_def has_at_def)
qed

section \<open>The symbols of a written file\<close>

text \<open>Names are C strings and not empty; offsets have 32 bits in COFF.\<close>

definition coff_symbols_fit :: "cstr \<Rightarrow> OutputSymbolList \<Rightarrow> bool" where
  "coff_symbols_fit fname symbols \<longleftrightarrow> fname \<noteq> [] \<and> 0 \<notin> set fname
     \<and> (\<forall>x \<in> set (os_data symbols). os_name x \<noteq> [] \<and> 0 \<notin> set (os_name x) \<and> 0 \<le> os_offset x \<and> os_offset x < 2 ^ 32)"

definition coff_names :: "cstr \<Rightarrow> OutputSymbolList \<Rightarrow> u32 \<Rightarrow> OutputSymbol list \<Rightarrow> Buf \<Rightarrow> bool" where
  "coff_names fname symbols fo named st \<longleftrightarrow> list_all2 (coff_named st) (os_data symbols) named
     \<and> (length fname > 8 \<longrightarrow> 4 \<le> unat fo \<and> str_at st (unat fo) fname)"

lemma coff_tables:
  assumes "coff_shape inp fname cv symbols n fo named st f"
  shows "coff_strings f = strtab_finalise st"
    "elf_entries 18 (take (18 * field 12 4 f) (drop (field 8 4 f) f)) = coff_symtab inp fname fo named"
proof -
  let ?ps = "coff_parts inp fname cv symbols n fo named (strtab_finalise st)"
  note pos = coff_positions [OF assms] and fr = coff_front_fields [OF assms]
  have "has_at f (part_at ?ps 11) (strtab_finalise st)" using pos(1) [of 11] by (simp add: coff_parts_def)
  then have "take (length (strtab_finalise st)) (drop (part_at ?ps 11) f) = strtab_finalise st"
    unfolding has_at_def by (elim conjE)
  moreover have "length (drop (part_at ?ps 11) f) = length (strtab_finalise st)" using pos(6) by simp
  ultimately show "coff_strings f = strtab_finalise st"
    unfolding coff_strings_def fr(4) using fr(8) by simp
  have "has_at f (part_at ?ps 10) (concat (coff_symtab inp fname fo named))"
    using pos(1) [of 10] by (simp add: coff_parts_def)
  moreover have "length (concat (coff_symtab inp fname fo named)) = 18 * field 12 4 f"
    using assms unfolding fr(5) length_coff_parts(4) coff_shape_def by (elim conjE) simp
  ultimately have "take (18 * field 12 4 f) (drop (field 8 4 f) f) = concat (coff_symtab inp fname fo named)"
    unfolding fr(4) by (simp add: has_at_def)
  moreover have "elf_entries 18 (concat (coff_symtab inp fname fo named)) = coff_symtab inp fname fo named"
    by (rule elf_entries_concat) (auto simp: coff_symtab_def coff_symbol_bytes_def)
  ultimately show "elf_entries 18 (take (18 * field 12 4 f) (drop (field 8 4 f) f)) = coff_symtab inp fname fo named"
    by simp
qed

lemma coff_symbols_shape:
  assumes "coff_shape inp fname cv symbols n fo named st f" "coff_names fname symbols fo named st"
    "coff_symbols_fit fname symbols"
  shows "coff_symbols f = coff_symbols_view inp fname symbols"
proof -
  let ?st = "strtab_finalise st"
  have st: "4 \<le> length st" using assms(1) unfolding coff_shape_def by (elim conjE)
  note home = coff_home [OF assms(1)]
  have fn: "coff_symbol f ?st (coff_sym_bytes fname fo 0 0xFFFE 3)
      = \<lparr>cy_name = fname, cy_value = 0, cy_section = [], cy_class = 3\<rparr>"
    using assms(2,3) st home(3) by (subst coff_read_sym_bytes)
      (auto simp: coff_names_def coff_symbols_fit_def str_at_finalise)
  have tx: "coff_symbol f ?st (coff_sym_bytes name_text 0 0 1 3)
      = \<lparr>cy_name = name_text, cy_value = 0, cy_section = name_text, cy_class = 3\<rparr>"
    using home(2) by (subst coff_read_sym_bytes) (auto simp: name_text_def)
  have row: "coff_symbol f ?st (coff_symbol_bytes inp y) = coff_symbol_view inp x"
    if "coff_named st x y" "x \<in> set (os_data symbols)" for x y
  proof -
    have y: "y = x\<lparr>name_offset := name_offset y\<rparr>" using that(1) unfolding coff_named_def by (elim conjE)
    have o: "os_name y = os_name x" "os_section y = os_section x" "os_binding y = os_binding x" "os_offset y = os_offset x"
      by (subst y, simp)+
    have fit: "os_name x \<noteq> []" "0 \<notin> set (os_name x)" "0 \<le> os_offset x" "os_offset x < 2 ^ 32"
      using assms(3) that(2) by (auto simp: coff_symbols_fit_def)
    then have v: "unat (word_of_int (os_offset x) :: u32) = nat (os_offset x)"
      by (simp add: unat_eq_nat_uint uint_word_of_int)
    have "length (os_name x) > 8 \<longrightarrow> str_at ?st (unat (name_offset y)) (os_name x)"
      using that(1) st by (auto simp: coff_named_def str_at_finalise)
    then show ?thesis
      unfolding coff_symbol_bytes_def o using fit v home(1)
      by (subst coff_read_sym_bytes) (auto simp: coff_symbol_view_def)
  qed
  have "list_all2 (coff_named st) (os_data symbols) named" using assms(2) by (simp add: coff_names_def)
  then have "map (coff_symbol f ?st \<circ> coff_symbol_bytes inp) named = map (coff_symbol_view inp) (os_data symbols)"
    using row by (auto simp: list_all2_conv_all_nth intro!: nth_equalityI)
  then show ?thesis
    unfolding coff_symbols_def coff_tables [OF assms(1)] coff_symtab_def coff_symbols_view_def
    using fn tx by (simp del: map_map add: map_map [symmetric])
qed

section \<open>Relocations and sections\<close>

definition coff_relocation_view :: "Relocation \<Rightarrow> CoffReloc" where
  "coff_relocation_view r = \<lparr>cr_offset = rel_offset r, cr_symbol = rel_symbol r,
     cr_type = (case rel_kind r of RELOC_ABS64 \<Rightarrow> 1 | RELOC_PC32 \<Rightarrow> 4)\<rparr>"

lemma coff_read_relocation:
  assumes "output_symbols_find_index symbols (rel_symbol r) = Some i" "length (os_data symbols) < 2 ^ 32 - 1"
    "rel_offset r < 2 ^ 32"
  shows "coff_relocation (coff_symbols_view inp fname symbols) (coff_reloc symbols r) = coff_relocation_view r"
proof -
  obtain j where j: "j < length (os_data symbols)" "os_name (os_data symbols ! j) = rel_symbol r"
    "i = word_of_nat (j + 1)"
    using find_index_some [OF assms(1) [unfolded output_symbols_find_index_def]] by auto
  then have u: "unat i = Suc j" using assms(2) by (simp add: unat_of_small del: of_nat_Suc)
  have y: "cy_name (coff_symbols_view inp fname symbols ! Suc j) = rel_symbol r"
    using j(1,2) by (simp add: coff_symbols_view_def nth_append coff_symbol_view_def)
  have t: "unat (coff_relocation_type (rel_kind r)) = (case rel_kind r of RELOC_ABS64 \<Rightarrow> 1 | RELOC_PC32 \<Rightarrow> 4)"
    by (simp add: coff_relocation_type_def split: RelocationKind.split)
  show ?thesis
    using assms(1,3) y t u
    by (simp add: coff_relocation_def coff_reloc_def coff_reloc_bytes_def field_def le_nat_full unat_of_small
        coff_relocation_view_def)
qed

lemma coff_entries_at:
  assumes "coff_shape inp fname cv symbols n fo named st f"
  defines "ps \<equiv> coff_parts inp fname cv symbols n fo named (strtab_finalise st)"
  assumes "k < 12" "ps ! k = coff_relocs inp symbols sec"
  defines "m \<equiv> word_of_nat (length (relas_in inp sec)) :: u32"
  shows "elf_entries 10 (take (10 * unat (ucast m :: u16)) (drop (unat (if m > 0 then word_of_nat (part_at ps k) else 0 :: u32)) f))
    = map (coff_reloc symbols) (relas_in inp sec)"
proof -
  have c: "coff_counts inp = Inr n" using assms(1) unfolding coff_shape_def by (elim conjE)
  have b: "length (relas_in inp sec) \<le> 0xFFFF" by (rule coff_counts_small(2) [OF c])
  have m: "unat (ucast m :: u16) = length (relas_in inp sec)"
    using b by (simp add: m_def unsigned_ucast_eq unat_of_nat take_bit_nat_eq_self)
  have um: "unat m = length (relas_in inp sec)" using b by (simp add: m_def unat_of_small)
  show ?thesis
  proof (cases "m > 0")
    case False
    then have "relas_in inp sec = []" using um by (simp add: word_less_nat_alt)
    then show ?thesis using m by (simp add: elf_entries_def)
  next
    case True
    have "has_at f (part_at ps k) (coff_relocs inp symbols sec)" "unat (word_of_nat (part_at ps k) :: u32) = part_at ps k"
      using coff_positions(1,4) [OF assms(1), folded ps_def, of k] assms(3,4) by simp_all
    then have "take (10 * unat (ucast m :: u16)) (drop (unat (word_of_nat (part_at ps k) :: u32)) f)
        = concat (map (coff_reloc symbols) (relas_in inp sec))"
      unfolding m has_at_def length_coff_parts(2) by (simp add: coff_relocs_def)
    moreover have "elf_entries 10 (concat (map (coff_reloc symbols) (relas_in inp sec)))
        = map (coff_reloc symbols) (relas_in inp sec)"
      by (rule elf_entries_concat) (auto simp: coff_reloc_def)
    ultimately show ?thesis using True by simp
  qed
qed

text \<open>What a linker should find, from the input of the writer.\<close>

definition coff_sections_view :: "OutputInput \<Rightarrow> CodeViewLineSection \<Rightarrow> (bool \<times> CoffSection) list" where
  "coff_sections_view inp cv =
     [(True, \<lparr>cs_name = name_text, cs_flags = 0x60500020, cs_size = length (oi_text inp), cs_content = oi_text inp,
         cs_relocs = map coff_relocation_view (relas_in inp RELOC_SECTION_TEXT)\<rparr>),
      (has_data inp, \<lparr>cs_name = name_data,
         cs_flags = unat (0xC0000040 OR coff_data_alignment_flag (oi_data_alignment inp)),
         cs_size = length (oi_data inp), cs_content = oi_data inp,
         cs_relocs = map coff_relocation_view (relas_in inp RELOC_SECTION_DATA)\<rparr>),
      (has_read_only_data inp, \<lparr>cs_name = coff_label coff_name_rdata,
         cs_flags = unat (0x40000040 OR coff_data_alignment_flag (oi_read_only_data_alignment inp)),
         cs_size = length (oi_read_only_data inp), cs_content = oi_read_only_data inp,
         cs_relocs = map coff_relocation_view (relas_in inp RELOC_SECTION_READ_ONLY_DATA)\<rparr>),
      (has_bss inp, \<lparr>cs_name = name_bss,
         cs_flags = unat (0xC0000080 OR coff_data_alignment_flag (oi_bss_alignment inp)),
         cs_size = oi_bss_size inp, cs_content = [], cs_relocs = []\<rparr>),
      (has_debug inp, \<lparr>cs_name = coff_name_debug, cs_flags = 0x42100040, cs_size = length (codeview_data cv),
         cs_content = codeview_data cv,
         cs_relocs = [\<lparr>cr_offset = unat (word_of_nat (section_offset_relocation cv) :: u32), cr_symbol = name_text,
             cr_type = 0x0B\<rparr>,
           \<lparr>cr_offset = unat (word_of_nat (section_index_relocation cv) :: u32), cr_symbol = name_text,
             cr_type = 0x0A\<rparr>]\<rparr>)]"

lemma coff_debug_relocations:
  assumes "coff_shape inp fname cv symbols n fo named st f" "has_debug inp"
    "coff_symbols f = coff_symbols_view inp fname symbols"
  defines "ps \<equiv> coff_parts inp fname cv symbols n fo named (strtab_finalise st)"
  shows "map (coff_relocation (coff_symbols f)) (elf_entries 10 (take 20 (drop (part_at ps 9) f)))
    = [\<lparr>cr_offset = unat (word_of_nat (section_offset_relocation cv) :: u32), cr_symbol = name_text, cr_type = 0x0B\<rparr>,
       \<lparr>cr_offset = unat (word_of_nat (section_index_relocation cv) :: u32), cr_symbol = name_text, cr_type = 0x0A\<rparr>]"
proof -
  note pos = coff_positions [OF assms(1), folded ps_def]
  have "has_at f (part_at ps 9) (concat (coff_debug_reloc_bytes inp cv symbols))"
    using pos(1) [of 9] by (simp add: ps_def coff_parts_def)
  then have e: "elf_entries 10 (take 20 (drop (part_at ps 9) f)) = coff_debug_reloc_bytes inp cv symbols"
    using elf_entries_concat [of "coff_debug_reloc_bytes inp cv symbols" 10] length_coff_parts(3) [of inp cv symbols] assms(2)
    by (simp add: has_at_def coff_debug_reloc_bytes_def)
  have "length named = length (os_data symbols)" using assms(1) unfolding coff_shape_def by (elim conjE)
  then have "length (os_data symbols) + 2 < 2 ^ 32"
    using pos(3) [of 10] length_coff_parts(4) [of inp fname fo named] assms(2) by (simp add: ps_def coff_parts_def)
  then have u: "unat (word_of_nat (Suc (length (os_data symbols))) :: u32) = Suc (length (os_data symbols))"
    by (intro unat_of_small) simp
  have y: "cy_name (coff_symbols_view inp fname symbols ! Suc (length (os_data symbols))) = name_text"
    using assms(2) by (simp add: coff_symbols_view_def nth_append)
  show ?thesis
    unfolding e assms(3) using assms(2) u y
    by (simp add: coff_debug_reloc_bytes_def coff_relocation_def coff_reloc_bytes_def field_def le_nat_full
        del: of_nat_Suc)
qed

text \<open>The raw bytes and the relocations behind a section header.\<close>

lemma coff_content_at:
  assumes "coff_shape inp fname cv symbols n fo named st f"
  defines "ps \<equiv> coff_parts inp fname cv symbols n fo named (strtab_finalise st)"
  assumes "k < 12" "2 \<le> k" "ps ! k = c"
  shows "unat (word_of_nat (length c) :: u32) = length c \<and> unat (word_of_nat (part_at ps k) :: u32) = part_at ps k
    \<and> part_at ps k \<noteq> 0 \<and> take (length c) (drop (part_at ps k) f) = c"
proof -
  note pos = coff_positions [OF assms(1), folded ps_def]
  have "part_at ps 2 \<le> part_at ps k" unfolding part_at_def using assms(4)
    by (metis concat_append le_add_diff_inverse length_append le_add1 take_add)
  then show ?thesis
    using pos(1,4,5) [OF assms(3)] assms(5) coff_front_fields(7) [OF assms(1)] by (simp add: has_at_def ps_def)
qed

lemma coff_relocs_read:
  assumes "coff_symbols f = coff_symbols_view inp fname symbols"
    "coff_relocations_have_symbols (oi_relocations inp) symbols" "length (os_data symbols) < 2 ^ 32 - 1"
    "\<forall>r \<in> set (relas_in inp sec). rel_offset r < 2 ^ 32"
  shows "map (coff_relocation (coff_symbols f)) (map (coff_reloc symbols) (relas_in inp sec))
    = map coff_relocation_view (relas_in inp sec)"
proof -
  have "\<exists>i. output_symbols_find_index symbols (rel_symbol r) = Some i" if "r \<in> set (relas_in inp sec)" for r
    using that assms(2)
    by (auto simp: relas_in_def coff_relocations_have_symbols_def list_all_iff split: option.splits)
  then show ?thesis using coff_read_relocation [OF _ assms(3)] assms(4) unfolding assms(1) by fastforce
qed

lemma coff_headers_read:
  assumes "coff_shape inp fname cv symbols n fo named st f"
  shows "map (\<lambda>i. coff_section f (drop (20 + 40 * i) f)) [0..<field 2 2 f]
    = map (\<lambda>s. coff_section f (coff_shdr_bytes s)) (present (coff_slots inp cv n (coff_layout inp cv n)))"
proof (rule nth_equalityI)
  let ?hs = "present (coff_slots inp cv n (coff_layout inp cv n))"
  show l: "length (map (\<lambda>i. coff_section f (drop (20 + 40 * i) f)) [0..<field 2 2 f])
      = length (map (\<lambda>s. coff_section f (coff_shdr_bytes s)) ?hs)"
    by (simp add: coff_front_fields(3) [OF assms(1)] coff_nsections)
  fix i assume "i < length (map (\<lambda>i. coff_section f (drop (20 + 40 * i) f)) [0..<field 2 2 f])"
  then have i: "i < length ?hs" "i < field 2 2 f" using l by simp_all
  then show "map (\<lambda>i. coff_section f (drop (20 + 40 * i) f)) [0..<field 2 2 f] ! i
      = map (\<lambda>s. coff_section f (coff_shdr_bytes s)) ?hs ! i"
    using coff_header_at [OF assms(1), of i] coff_section_bytes [of "?hs ! i" f "[]"]
    by (auto simp: coff_section_bytes)
qed

lemma coff_sections_shape:
  assumes "coff_shape inp fname cv symbols n fo named st f" "coff_symbols f = coff_symbols_view inp fname symbols"
    "coff_relocations_have_symbols (oi_relocations inp) symbols" "length (os_data symbols) < 2 ^ 32 - 1"
    "\<forall>sec. \<forall>r \<in> set (relas_in inp sec). rel_offset r < 2 ^ 32" "oi_bss_size inp < 2 ^ 32"
  shows "map (\<lambda>i. coff_section f (drop (20 + 40 * i) f)) [0..<field 2 2 f] = present (coff_sections_view inp cv)"
  unfolding coff_headers_read [OF assms(1)]
proof (rule map_present)
  define ps where "ps = coff_parts inp fname cv symbols n fo named (strtab_finalise st)"
  have c: "coff_counts inp = Inr n" using assms(1) unfolding coff_shape_def by (elim conjE)
  note lay = coff_layout_places [OF c, where fname = fname and cv = cv and symbols = symbols and fo = fo
      and named = named and strtab = "strtab_finalise st", folded ps_def]
  have parts: "ps ! 2 = oi_text inp" "ps ! 3 = oi_data inp" "ps ! 4 = oi_read_only_data inp"
    "has_debug inp \<Longrightarrow> ps ! 5 = codeview_data cv"
    "ps ! 6 = coff_relocs inp symbols RELOC_SECTION_TEXT" "ps ! 7 = coff_relocs inp symbols RELOC_SECTION_DATA"
    "ps ! 8 = coff_relocs inp symbols RELOC_SECTION_READ_ONLY_DATA"
    by (simp_all add: ps_def coff_parts_def)
  note at = coff_content_at [OF assms(1), folded ps_def]
  note content = at [of 2, OF _ _ parts(1)] at [of 3, OF _ _ parts(2)] at [of 4, OF _ _ parts(3)]
    at [of 5, OF _ _ parts(4)] coff_positions(4) [OF assms(1), of 9, folded ps_def]
  note ent = coff_entries_at [OF assms(1), folded ps_def] and rd = coff_relocs_read [OF assms(2-4) spec [OF assms(5)]]
  have r: "map (coff_relocation (coff_symbols f)) (elf_entries 10 (take (10 * unat (ucast (text_relocs n) :: u16))
        (drop (unat (text_reloc_ptr (coff_layout inp cv n))) f))) = map coff_relocation_view (relas_in inp RELOC_SECTION_TEXT)"
    "map (coff_relocation (coff_symbols f)) (elf_entries 10 (take (10 * unat (ucast (data_relocs n) :: u16))
        (drop (unat (data_reloc_ptr (coff_layout inp cv n))) f))) = map coff_relocation_view (relas_in inp RELOC_SECTION_DATA)"
    "map (coff_relocation (coff_symbols f)) (elf_entries 10 (take (10 * unat (ucast (read_only_data_relocs n) :: u16))
        (drop (unat (read_only_data_reloc_ptr (coff_layout inp cv n))) f)))
      = map coff_relocation_view (relas_in inp RELOC_SECTION_READ_ONLY_DATA)"
    unfolding lay(5-7) using ent [of 6, OF _ parts(5)] ent [of 7, OF _ parts(6)] ent [of 8, OF _ parts(7)] rd
      coff_counts_small(1) [OF c] by simp_all
  have nm: "takeWhile (\<lambda>x. x \<noteq> 0) coff_name_text = name_text" "takeWhile (\<lambda>x. x \<noteq> 0) coff_name_data = name_data"
    "takeWhile (\<lambda>x. x \<noteq> 0) coff_name_bss = name_bss" "takeWhile (\<lambda>x. x \<noteq> 0) coff_name_debug = coff_name_debug"
    "length coff_name_text = 8" "length coff_name_data = 8" "length coff_name_rdata = 8" "length coff_name_bss = 8"
    "length coff_name_debug = 8"
    by (simp_all add: coff_name_defs name_defs)
  have sz: "unat (word_of_nat (oi_bss_size inp) :: u32) = oi_bss_size inp" using assms(6) by (simp add: unat_of_small)
  have e0: "elf_entries 10 [] = []" by (simp add: elf_entries_def)
  note sec = coff_section_bytes [of _ f "[]", unfolded append_Nil2]
  show "list_all2 (\<lambda>p q. fst p = fst q \<and> (fst p \<longrightarrow> coff_section f (coff_shdr_bytes (snd p)) = snd q))
      (coff_slots inp cv n (coff_layout inp cv n)) (coff_sections_view inp cv)"
    unfolding coff_slots_def coff_sections_view_def list_all2_Cons
    using content r sz coff_debug_relocations [OF assms(1) _ assms(2), folded ps_def]
    by (cases "has_debug inp") (simp_all add: sec nm lay(1-4,8) coff_label_def e0)
qed

section \<open>The written file\<close>

definition coff_source_name :: "OutputInput \<Rightarrow> cstr" where
  "coff_source_name inp = (case oi_source_name inp of None \<Rightarrow> unknown_source | Some s \<Rightarrow> s)"

lemma coff_file_shape:
  assumes "coff_write_file inp fname cv symbols n = Inr f" "coff_counts inp = Inr n" "length f < 2 ^ 32"
    "symbol_names_fit_coff_strtab symbols fname"
  obtains fo named st where "coff_shape inp fname cv symbols n fo named st f" "coff_names fname symbols fo named st"
proof -
  obtain st0 fo st named where p:
    "(st0, fo) = (if length fname > 8 then coff_strtab_add coff_strtab_init fname else (coff_strtab_init, 0))"
    "coff_symbol_names st0 (os_data symbols) = (st, named)"
    "f = concat (coff_parts inp fname cv symbols n fo named (strtab_finalise st))"
    by (rule coff_file_parts [OF assms(1,2)])
  have st0: "4 \<le> length st0" "coff_names_fit_from (length st0) (os_data symbols)"
    "length fname > 8 \<longrightarrow> fo = 4 \<and> str_at st0 4 fname"
    using p(1) assms(4)
    by (auto simp: coff_strtab_add_def coff_strtab_init_def buf_zero_def buf_write_def str_at_def has_at_def
        symbol_names_fit_coff_strtab_def Let_def split: if_splits)
  note ok = coff_symbol_names_ok [OF p(2) st0(2,1)]
  have "4 \<le> length st" using ok st0(1) prefix_length_le by fastforce
  moreover have "length named = length (os_data symbols)" using ok list_all2_lengthD by metis
  ultimately have "coff_shape inp fname cv symbols n fo named st f"
    using p(3) assms(2,3) unfolding coff_shape_def by (intro conjI)
  moreover have "coff_names fname symbols fo named st"
    using ok st0(3) has_at_grow [of st0 4 "fname @ [0]" st] by (auto simp: coff_names_def str_at_def)
  ultimately show thesis by (rule that)
qed

lemma coff_file_read:
  assumes "output_write_coff inp = Inr f" "length f < 2 ^ 32" "oi_bss_size inp < 2 ^ 32"
    "output_symbols_collect (oi_symtable inp) = Some symbols"
    "coff_symbols_fit (coff_source_name inp) symbols"
    "\<forall>sec. \<forall>r \<in> set (relas_in inp sec). rel_offset r < 2 ^ 32"
  shows "\<exists>cv. coff_codeview_line inp = Inr cv
    \<and> coff_read f = Some (present (coff_sections_view inp cv), coff_symbols_view inp (coff_source_name inp) symbols)"
proof -
  let ?fname = "coff_source_name inp"
  obtain cv n where w: "coff_codeview_line inp = Inr cv" "symbol_names_fit_coff_strtab symbols ?fname"
    "coff_relocations_have_symbols (oi_relocations inp) symbols" "coff_counts inp = Inr n"
    "coff_write_file inp ?fname cv symbols n = Inr f"
    using assms(1,4) unfolding output_write_coff_def Let_def coff_source_name_def
    by (auto split: sum.splits if_splits)
  obtain fo named st where e: "coff_shape inp ?fname cv symbols n fo named st f" "coff_names ?fname symbols fo named st"
    by (rule coff_file_shape [OF w(5,4) assms(2) w(2)])
  have sy: "coff_symbols f = coff_symbols_view inp ?fname symbols" by (rule coff_symbols_shape [OF e assms(5)])
  have "count_output_symbols (oi_symtable inp) \<le> UINT32_MAX - 1"
    "length (os_data symbols) = count_output_symbols (oi_symtable inp)"
    using assms(4) length_symbols by (auto simp: output_symbols_collect split: if_splits)
  then have l: "length (os_data symbols) < 2 ^ 32 - 1" by (simp add: UINT32_MAX_def)
  note se = coff_sections_shape [OF e(1) sy w(3) l assms(6,3)]
  have st: "4 \<le> length st" using e(1) unfolding coff_shape_def by (elim conjE)
  note pos = coff_positions [OF e(1)] and fr = coff_front_fields [OF e(1)]
  have "length st < 2 ^ 32" using pos(6) assms(2) st by simp
  then have "field 0 4 (strtab_finalise st) = length (strtab_finalise st)"
    using st by (simp add: field_def finalise_bytes le_nat_full unat_of_small)
  moreover have "20 + 40 * field 2 2 f \<le> length f"
    using pos(1) [of 2] unfolding fr(3) fr(7) [symmetric] has_at_def by simp
  moreover have "field 8 4 f + 18 * field 12 4 f + 4 \<le> length f" using pos(6) st fr(4,8) by simp
  ultimately have "coff_valid f"
    using fr(1,2) unfolding coff_valid_def coff_tables(1) [OF e(1)] by simp
  then show ?thesis using w(1) se sy by (simp add: coff_read_def)
qed

text \<open>
  C11. An independent COFF reader finds in a written object exactly the sections the input asks for,
  with their bytes, flags and relocations by symbol name, and after the file symbol exactly the
  collected symbols, short names in their entries and long ones in the string table, each with its
  binding and value, and with its own section whenever that section is in the file. A label of a
  data, read-only data or bss section without bytes is the one exception: it reads back as a symbol
  of the text.
\<close>

theorem coff_reads_back:
  assumes "output_write_coff inp = Inr f" "length f < 2 ^ 32" "oi_bss_size inp < 2 ^ 32"
    "output_symbols_collect (oi_symtable inp) = Some symbols"
    "coff_symbols_fit (coff_source_name inp) symbols"
    "\<forall>sec. \<forall>r \<in> set (relas_in inp sec). rel_offset r < 2 ^ 32"
  shows "\<exists>cv. coff_codeview_line inp = Inr cv
    \<and> coff_read f = Some (present (coff_sections_view inp cv), coff_symbols_view inp (coff_source_name inp) symbols)"
  using assms by (rule coff_file_read)

lemma sample_coff_written:
  obtains f where "output_write_coff sample_object = Inr f" "length f = 222"
proof -
  let ?cv = "\<lparr>codeview_data = [], section_offset_relocation = 0, section_index_relocation = 0\<rparr>"
  let ?n = "\<lparr>text_relocs = 1, data_relocs = 0, read_only_data_relocs = 0\<rparr>"
  have "map_sum (\<lambda>_. ()) length (coff_write_file sample_object unknown_source ?cv sample_symbols ?n) = Inr 222"
    by code_simp
  then obtain f where f: "coff_write_file sample_object unknown_source ?cv sample_symbols ?n = Inr f" "length f = 222"
    by (cases "coff_write_file sample_object unknown_source ?cv sample_symbols ?n") auto
  have "coff_codeview_line sample_object = Inr ?cv"
    by (simp add: coff_codeview_line_def has_debug_def sample_object_def)
  moreover have "symbol_names_fit_coff_strtab sample_symbols unknown_source"
    by (simp add: symbol_names_fit_coff_strtab_def sample_symbols_def unknown_source_def output_symbol_link_name_def)
  moreover have "coff_relocations_have_symbols (oi_relocations sample_object) sample_symbols" by code_simp
  moreover have "coff_counts sample_object = Inr ?n"
    by (simp add: coff_counts_def Let_def count_relocations_in_section_def sample_object_def)
  moreover have "oi_source_name sample_object = None" by (simp add: sample_object_def)
  ultimately have "output_write_coff sample_object = Inr f"
    using f(1) sample_symbols_collected by (simp add: output_write_coff_def Let_def)
  then show thesis using f(2) by (rule that)
qed

theorem coff_reads_back_witness:
  "\<exists>f secs syms. output_write_coff sample_object = Inr f \<and> coff_read f = Some (secs, syms)
     \<and> map cs_name secs = [name_text, name_data, name_bss]
     \<and> cs_relocs (hd secs) = [\<lparr>cr_offset = 1, cr_symbol = [0x62], cr_type = 4\<rparr>]
     \<and> map cy_name syms = [unknown_source, [0x61], [0x62]]"
proof -
  obtain f where f: "output_write_coff sample_object = Inr f" "length f = 222" by (rule sample_coff_written)
  have l: "length f < 2 ^ 32" using f(2) by simp
  have b: "oi_bss_size sample_object < 2 ^ 32" "coff_source_name sample_object = unknown_source"
    by (simp_all add: sample_object_def coff_source_name_def)
  have s: "coff_symbols_fit (coff_source_name sample_object) sample_symbols"
    unfolding b(2) by (simp add: coff_symbols_fit_def sample_symbols_def unknown_source_def)
  have r: "\<forall>sec. \<forall>r \<in> set (relas_in sample_object sec). rel_offset r < 2 ^ 32"
    by (auto simp: relas_in_def sample_object_def)
  show ?thesis
    using coff_reads_back [OF f(1) l b(1) sample_symbols_collected s r] f(1) unfolding b(2)
    by (auto simp: coff_sections_view_def present_def coff_symbols_view_def coff_symbol_view_def sample_symbols_def
        sample_object_def has_data_def has_read_only_data_def has_bss_def has_debug_def relas_in_def coff_relocation_view_def)
qed

end
