(* ===== verification/Debug_Contract.thy ===== *)
theory Debug_Contract
  imports Passes_Theorems Debug_Line
begin

text \<open>
  What the passes guarantee of the debug records of an assembled source: every line record refers to
  a registered file and a line, and the records follow the text, so the builders of the line tables
  never reject their input.
\<close>

section \<open>Lines and files\<close>

lemma debug_file_index: "debug_file_index files f = None \<longleftrightarrow> debug_file_find files f = None"
proof -
  have "debug_file_index_from fs f k = None \<longleftrightarrow> find (\<lambda>x. df_id x = f) fs = None" for fs k
    by (induction fs arbitrary: k) auto
  then show ?thesis by (simp add: debug_file_index_def debug_file_find_def)
qed

text \<open>The text only grows under a step that is not a location, and such a step keeps the location.\<close>

definition keeps_lines :: "Pass2State \<Rightarrow> Pass2State \<Rightarrow> bool" where
  "keeps_lines st st' \<longleftrightarrow> debug_lines st' = debug_lines st \<and> debug_file st' = debug_file st
     \<and> debug_line st' = debug_line st \<and> length (text_bytes st) \<le> length (text_bytes st')"

lemma keeps_refl [simp]: "keeps_lines st st"
  by (simp add: keeps_lines_def)

lemma keeps_trans: "keeps_lines a b \<Longrightarrow> keeps_lines b c \<Longrightarrow> keeps_lines a c"
  by (auto simp: keeps_lines_def)

lemma keeps_simple [simp]:
  "keeps_lines st (put_span sec off n st')  = keeps_lines st st'"
  "keeps_lines st (st'\<lparr>p2_errors := es\<rparr>) = keeps_lines st st'"
  "keeps_lines st (push_relocation st' r) = keeps_lines st st'"
  "keeps_lines st (st'\<lparr>relocations := rs\<rparr>) = keeps_lines st st'"
  "keeps_lines st (add_internal_error st' il i m) = keeps_lines st st'"
  "keeps_lines st (put_section_bytes sec bs st') = keeps_lines st st'"
  "keeps_lines st (st'\<lparr>bss_size := n\<rparr>) = keeps_lines st st'"
  "keeps_lines st (st'\<lparr>p2_section := sec\<rparr>) = keeps_lines st st'"
  by (simp_all add: keeps_lines_def put_span_def push_relocation_def add_internal_error_def put_section_bytes_def)

lemma keeps_data_relocations: "keeps_lines st (data_relocations il p1 i sec before k ps st') = keeps_lines st st'"
proof (induction ps arbitrary: k st')
  case (Cons p ps)
  then show ?case by (simp split: Operand.split)
qed simp

lemma keeps_resolve: "keeps_lines st (res_state (resolve_operands il p1 i sz j ps r)) = keeps_lines st (res_state r)"
proof (induction ps arbitrary: j r)
  case (Cons p ps)
  have "keeps_lines st (res_state (resolve_operand il p1 i sz j p r)) = keeps_lines st (res_state r)"
    by (simp add: resolve_operand_def resolve_label_def Let_def res_fail_def res_reloc_def
        split: Operand.split option.split prod.split)
  then show ?case using Cons.IH by simp
qed simp

lemma keeps_pad: "pass2_pad il p1 st i sz = res \<Longrightarrow> keeps_lines st (case_sum id id res)"
  by (auto simp: pass2_pad_def buffer_fill_def Let_def) (simp add: keeps_lines_def)

lemma keeps_encode: "pass2_encode il p1 st i sz v = res \<Longrightarrow> keeps_lines st (case_sum id id res)"
proof -
  assume r: "pass2_encode il p1 st i sz v = res"
  have p: "keeps_lines st (case_sum id id (pass2_pad il p1 (st\<lparr>p2_errors := es\<rparr>) i sz))" for es
    using keeps_pad [of il p1 "st\<lparr>p2_errors := es\<rparr>" i sz] by (auto simp: keeps_lines_def)
  show ?thesis
    unfolding r [symmetric] pass2_encode_def Let_def buffer_append_def
    by (simp add: p) (simp add: keeps_lines_def put_span_def)
qed

lemma keeps_data: "keeps_lines st (case_sum id id (pass2_data il p1 st i))"
  by (simp add: pass2_data_def Let_def keeps_data_relocations split: prod.split)

section \<open>The invariant\<close>

definition lines_ok :: "DebugFile list \<Rightarrow> Pass2State \<Rightarrow> bool" where
  "lines_ok files st \<longleftrightarrow> (debug_file st \<noteq> 0 \<longrightarrow> debug_file_find files (debug_file st) \<noteq> None)
     \<and> sorted (map dl_offset (debug_lines st))
     \<and> (\<forall>l \<in> set (debug_lines st). dl_offset l \<le> length (text_bytes st) \<and> dl_line l \<noteq> 0
          \<and> debug_file_find files (dl_file_id l) \<noteq> None)"

lemma lines_ok_keeps: "lines_ok files st \<Longrightarrow> keeps_lines st st' \<Longrightarrow> lines_ok files st'"
  by (fastforce simp: lines_ok_def keeps_lines_def)

lemma lines_ok_note: "lines_ok files st \<Longrightarrow> lines_ok files (note_debug_line st)"
  by (auto simp: lines_ok_def note_debug_line_def push_debug_line_def sorted_append)

text \<open>The file of a location an accepted source sets.\<close>

definition location_known :: "DebugFile list \<Rightarrow> Instruction \<Rightarrow> bool" where
  "location_known files i \<longleftrightarrow> directive_kind i = DIRECTIVE_DEBUG_LOCATION \<longrightarrow>
     (case op_kinds i of [OP_IMM f, OP_IMM l, OP_IMM c] \<Rightarrow>
        (ucast f :: u32) = 0 \<or> debug_file_find files (ucast f) \<noteq> None | _ \<Rightarrow> True)"

lemma lines_ok_location:
  assumes "lines_ok files st" "location_known files i" "directive_kind i = DIRECTIVE_DEBUG_LOCATION"
  shows "lines_ok files (pass2_location st i)"
proof -
  have s: "lines_ok files (pass2_skip st') = lines_ok files st'" for st'
    by (simp add: pass2_skip_def put_span_def lines_ok_def)
  show ?thesis
  proof (cases "\<exists>f l c. op_kinds i = [OP_IMM f, OP_IMM l, OP_IMM c]")
    case True
    then show ?thesis using assms by (auto simp: pass2_location_def s location_known_def) (auto simp: lines_ok_def)
  next
    case False
    then show ?thesis using assms(1) by (auto simp: pass2_location_def s split: list.split Operand.split)
  qed
qed

lemma lines_ok_step:
  assumes "lines_ok files st" "location_known files i"
  shows "lines_ok files (case_sum id id (pass2_step il p1 st i))"
proof (cases "directive_kind i = DIRECTIVE_NONE")
  case True
  show ?thesis
  proof (cases "opcode i = OPCODE_INVALID \<or> p2_section st \<noteq> SYMBOL_SECTION_TEXT")
    case skip: True
    then show ?thesis
      using True assms(1) by (simp add: pass2_step_def pass2_instruction_def pass2_skip_def put_span_def lines_ok_def)
  next
    case False
    define r where "r = resolve_operands il p1 i (layout_size i) 0 (ops i)
      \<lparr>res_state = note_debug_line st, resolved_target = 0, resolution_error = False\<rparr>"
    have "keeps_lines (note_debug_line st) (res_state r)" by (simp add: r_def keeps_resolve)
    then have "lines_ok files (res_state r)" using lines_ok_note [OF assms(1)] lines_ok_keeps by blast
    then have "lines_ok files (case_sum id id (pass2_pad il p1 (res_state r) i (layout_size i)))"
      "lines_ok files (case_sum id id (pass2_encode il p1 (res_state r) i (layout_size i) (resolved_target r)))"
      using keeps_pad [OF refl] keeps_encode [OF refl] lines_ok_keeps by blast+
    then show ?thesis
      using True False by (simp add: pass2_step_def pass2_instruction_def Let_def r_def)
  qed
next
  case False
  have "keeps_lines st (pass2_skip st)" "keeps_lines st (pass2_switch st sec)" for sec
    by (simp_all add: pass2_skip_def pass2_switch_def)
  then have k: "lines_ok files (pass2_skip st)" "lines_ok files (pass2_switch st sec)"
    "lines_ok files (case_sum id id (pass2_data il p1 st i))" for sec
    using assms(1) lines_ok_keeps keeps_data by blast+
  show ?thesis
    using False k lines_ok_location [OF assms]
    by (cases "directive_kind i") (simp_all add: pass2_step_def pass2_directive_def)
qed

lemma lines_ok_loop:
  assumes "lines_ok files st" "\<forall>i \<in> set is. location_known files i"
  shows "lines_ok files (case_sum id id (pass2_loop il p1 st is))"
  using assms
proof (induction "is" arbitrary: st)
  case (Cons i "is")
  have "lines_ok files (case_sum id id (pass2_step il p1 st i))" using Cons.prems by (intro lines_ok_step) simp_all
  then show ?case using Cons by (cases "pass2_step il p1 st i") simp_all
qed simp

section \<open>Accepted sources\<close>

text \<open>The location directives of a source without errors have been checked against its files.\<close>

lemma location_checked:
  assumes "clean (p1_errors (pass1_run il))" "instrs il = js @ i # ks"
  shows "location_known (debug_files (pass1_run il)) i"
proof -
  let ?files = "debug_files (pass1_run il)" and ?st = "pass1_walk il js"
  define es where "es = report_undefined_visibility_symbols il (p1_table (pass1_walk il (instrs il)))
    (p1_errs (pass1_walk il (instrs il)))"
  have fl: "clean (foldl (location_file_error il ?files) es (js @ i # ks))"
    using assms by (simp add: pass1_run_def Let_def validate_debug_location_files_def es_def)
  have keep: "foldl (location_file_error il ?files) e xs = e" if "clean (foldl (location_file_error il ?files) e xs)" for e xs
    using that by (rule foldl_clean [rotated])
      (auto simp: location_file_error_def split: if_splits list.splits Operand.splits)
  have pre: "clean (foldl (location_file_error il ?files) e xs) \<Longrightarrow> clean e" for e xs
    using keep [of e xs] by simp
  have "clean (location_file_error il ?files (foldl (location_file_error il ?files) es js) i)"
    using pre fl by simp
  then have known: "clean (location_file_error il ?files e i)" if "clean e" for e
    using that by (auto simp: location_file_error_def split: if_splits list.splits Operand.splits)
  have c: "clean_step ?st i (pass1_step il ?st i)" by (rule walk_clean_step(1) [OF assms])
  have ce: "clean (p1_errs ?st)"
    using pass1_walk_clean_prefix [of il js "i # ks"] pass1_run_clean [OF assms(1)] assms(2) by simp
  show ?thesis
  proof (cases "directive_kind i = DIRECTIVE_DEBUG_LOCATION \<and> (\<exists>f l k. op_kinds i = [OP_IMM f, OP_IMM l, OP_IMM k])")
    case True
    then obtain f l k where i: "directive_kind i = DIRECTIVE_DEBUG_LOCATION" "op_kinds i = [OP_IMM f, OP_IMM l, OP_IMM k]"
      by blast
    have "snd (validate_debug_location_directive il i (p1_errs ?st)) = p1_errs ?st"
      using c i(1) by (simp add: clean_step_def pass1_step_def pass1_directive_def)
    moreover have "add_directive_error (p1_errs ?st) il i n m \<noteq> p1_errs ?st" for n m
      using ce by (metis add_error_not_clean(2))
    ultimately have "f = 0 \<or> \<not> (sint f \<le> 0 \<or> uint f > 0xFFFFFFFF)"
      using i(2) by (auto simp: validate_debug_location_directive_def reject_def split: if_splits)
    then show ?thesis
      using known [OF ce] i by (auto simp: location_known_def location_file_error_def split: if_splits)
  qed (auto simp: location_known_def split: list.split Operand.split)
qed

lemma debug_contract:
  assumes "assembled il" "debug_lines (pass2_run il (pass1_run il)) \<noteq> []"
  shows "debug_contract_is_valid (debug_files (pass1_run il)) (debug_lines (pass2_run il (pass1_run il)))
    (length (text_bytes (pass2_run il (pass1_run il))))"
proof -
  let ?files = "debug_files (pass1_run il)" and ?p2 = "pass2_run il (pass1_run il)"
  have c: "clean (p1_errors (pass1_run il))" using assembled_source [OF assms(1)] by simp
  have "location_known ?files i" if "i \<in> set (instrs il)" for i
    using that location_checked [OF c] by (metis in_set_conv_decomp)
  then have inv: "lines_ok ?files (case_sum id id (pass2_loop il (pass1_run il) (pass2_start il) (instrs il)))"
    by (intro lines_ok_loop) (simp_all add: lines_ok_def pass2_start_def)
  define st where "st = case_sum id (pass2_totals il (pass1_run il)) (pass2_loop il (pass1_run il) (pass2_start il) (instrs il))"
  have "lines_ok ?files st"
    using inv unfolding st_def
    by (auto simp: pass2_totals_def add_internal_error_def lines_ok_def split: sum.splits)
  moreover have "debug_lines ?p2 = debug_lines st" "text_bytes ?p2 = text_bytes st"
    unfolding pass2_run_def Let_def st_def by (auto simp: Pass2Result.truncate_def split: sum.splits)
  ultimately have l: "sorted (map dl_offset (debug_lines ?p2))"
    "\<forall>l \<in> set (debug_lines ?p2). dl_offset l \<le> length (text_bytes ?p2) \<and> dl_line l \<noteq> 0
       \<and> debug_file_find ?files (dl_file_id l) \<noteq> None"
    by (simp_all add: lines_ok_def)
  have valid: "debug_lines_valid ?files n k last ls"
    if "sorted (map dl_offset ls)" "k > 0 \<longrightarrow> (\<forall>l \<in> set ls. last \<le> dl_offset l)"
      "\<forall>l \<in> set ls. dl_offset l \<le> n \<and> dl_line l \<noteq> 0 \<and> debug_file_find ?files (dl_file_id l) \<noteq> None" for n k last ls
    using that
  proof (induction ls arbitrary: k last)
    case (Cons l ls)
    then show ?case by (auto simp: debug_file_index)
  qed simp
  obtain x where "x \<in> set (debug_lines ?p2)" using assms(2) by (cases "debug_lines ?p2") auto
  then have "?files \<noteq> []" using l(2) by (auto simp: debug_file_find_def)
  then show ?thesis
    using valid [OF l(1), of 0] l(2) assms(2) by (simp add: debug_contract_is_valid_def)
qed

text \<open>
  The debug records of an assembled source satisfy the contract the builders of the DWARF and
  CodeView line tables check: each record has a line and a file the source registered, and the
  records are in the order of the text and inside it.
\<close>

theorem debug_contract_holds:
  assumes "assembled il" "debug_lines (pass2_run il (pass1_run il)) \<noteq> []"
  shows "debug_contract_is_valid (debug_files (pass1_run il)) (debug_lines (pass2_run il (pass1_run il)))
    (length (text_bytes (pass2_run il (pass1_run il))))"
  using debug_contract [OF assms] .

text \<open>Two instructions at lines of one file, in the sections of a small source.\<close>

definition debug_sample :: InstructionList where
  "debug_sample = \<lparr>instrs =
     [dir DIRECTIVE_DEBUG_FILE [OP_IMM 3, OP_STRING [0x61]] None,
      dir DIRECTIVE_DEBUG_LOCATION [OP_IMM 3, OP_IMM 7, OP_IMM 1] None,
      ins OPCODE_RET [] None,
      dir DIRECTIVE_DEBUG_LOCATION [OP_IMM 3, OP_IMM 9, OP_IMM 1] None,
      ins OPCODE_RET [] None],
    source_name = None, source_data = None\<rparr>"

lemma debug_sample_assembled: "assembled debug_sample"
  unfolding assembled_def accepted_source_def by code_simp

theorem debug_contract_holds_witness:
  "map dl_offset (debug_lines (pass2_run debug_sample (pass1_run debug_sample))) = [0, 1]
   \<and> debug_contract_is_valid (debug_files (pass1_run debug_sample))
       (debug_lines (pass2_run debug_sample (pass1_run debug_sample)))
       (length (text_bytes (pass2_run debug_sample (pass1_run debug_sample))))"
proof -
  have o: "map dl_offset (debug_lines (pass2_run debug_sample (pass1_run debug_sample))) = [0, 1]" by code_simp
  then have "debug_lines (pass2_run debug_sample (pass1_run debug_sample)) \<noteq> []" by auto
  then show ?thesis using o debug_contract_holds [OF debug_sample_assembled] by blast
qed

end
