(* ===== verification/Api.thy ===== *)
theory Api
  imports Front_End Coff Debug_Contract
begin

text \<open>
  The C interface of \<^verbatim>\<open>src/src/api/api.c\<close> and the choice of the output format. A result is a status
  with the object's bytes and the diagnostics; freeing it, and running out of memory, are not
  modelled. \<^verbatim>\<open>nazm_assemble_file\<close> takes what the file system answers as a parameter.
\<close>

section \<open>Options and results\<close>

datatype NazmStatus =
    NAZM_STATUS_OK
  | NAZM_STATUS_SOURCE_ERROR
  | NAZM_STATUS_INVALID_ARGUMENT
  | NAZM_STATUS_IO_ERROR
  | NAZM_STATUS_OUT_OF_MEMORY
  | NAZM_STATUS_INTERNAL_ERROR

text \<open>An enumeration of C can hold any number, which \<^verbatim>\<open>nazm_options_valid\<close> checks.\<close>

abbreviation (input) NAZM_FORMAT_ELF64 :: u32 where "NAZM_FORMAT_ELF64 \<equiv> 0"
abbreviation (input) NAZM_FORMAT_COFF :: u32 where "NAZM_FORMAT_COFF \<equiv> 1"

record NazmOptions =
  opt_struct_size :: u32
  opt_format :: u32
  opt_flags :: u32
  opt_reserved :: "u32 list"

text \<open>The texts of the interface, of the lexer and parser, of the passes and of the writers.\<close>

datatype ApiMessage =
    API_TEXT cstr
  | API_PASS PassMessage
  | API_OUTPUT OutputMessage
  | API_INVALID_ARGUMENT
  | API_NO_PATH
  | API_OPEN_FAILED
  | API_SIZE_UNKNOWN
  | API_SIZE_INVALID
  | API_READ_FAILED

record NazmDiagnostic =
  nd_file :: cstr
  nd_line :: int
  nd_col :: int
  nd_end_col :: int
  nd_message :: ApiMessage

record NazmResult =
  status :: NazmStatus
  object_data :: "u8 list"
  diagnostics :: "NazmDiagnostic list"

definition nazm_empty_result :: "NazmStatus \<Rightarrow> NazmResult" where
  "nazm_empty_result s = \<lparr>status = s, object_data = [], diagnostics = []\<rparr>"

definition nazm_add_single_diagnostic ::
  "NazmResult \<Rightarrow> cstr \<Rightarrow> int \<Rightarrow> int \<Rightarrow> int \<Rightarrow> ApiMessage \<Rightarrow> NazmResult" where
  "nazm_add_single_diagnostic result file l c e m =
     result\<lparr>diagnostics := [\<lparr>nd_file = file, nd_line = l, nd_col = c, nd_end_col = e, nd_message = m\<rparr>]\<rparr>"

definition nazm_diagnostic_result :: "NazmStatus \<Rightarrow> cstr \<Rightarrow> ApiMessage \<Rightarrow> NazmResult" where
  "nazm_diagnostic_result s file m = nazm_add_single_diagnostic (nazm_empty_result s) file 0 0 0 m"

definition nazm_copy_diagnostics :: "('m \<Rightarrow> ApiMessage) \<Rightarrow> NazmResult \<Rightarrow> 'm ErrorList \<Rightarrow> NazmResult" where
  "nazm_copy_diagnostics msg result es =
     (if length (errors es) = 0 then result
      else result\<lparr>diagnostics := map (\<lambda>e. \<lparr>nd_file = err_file e, nd_line = err_line e, nd_col = err_col e,
             nd_end_col = err_end_col e, nd_message = msg (err_message e)\<rparr>) (errors es)\<rparr>)"

definition nazm_source_error :: "('m \<Rightarrow> ApiMessage) \<Rightarrow> 'm ErrorList \<Rightarrow> NazmResult" where
  "nazm_source_error msg es = nazm_copy_diagnostics msg (nazm_empty_result NAZM_STATUS_SOURCE_ERROR) es"

text \<open>\<^verbatim>\<open>sizeof(NazmOptions)\<close> is 28.\<close>

definition nazm_options_valid :: "NazmOptions \<Rightarrow> bool" where
  "nazm_options_valid opts =
     (if opt_struct_size opts \<noteq> 28 \<or> opt_flags opts \<noteq> 0 then False
      else if opt_format opts \<noteq> NAZM_FORMAT_ELF64 \<and> opt_format opts \<noteq> NAZM_FORMAT_COFF then False
      else list_all (\<lambda>r. r = 0) (opt_reserved opts))"

text \<open>The defaults outside Windows.\<close>

definition nazm_default_options :: NazmOptions where
  "nazm_default_options =
     \<lparr>opt_struct_size = 28, opt_format = NAZM_FORMAT_ELF64, opt_flags = 0, opt_reserved = replicate 4 0\<rparr>"

section \<open>Assembling\<close>

definition output_input :: "Pass1Result \<Rightarrow> Pass2Result \<Rightarrow> cstr \<Rightarrow> OutputInput" where
  "output_input pass1 pass2 logical_name =
     \<lparr>oi_text = text_bytes pass2, oi_data = data_bytes pass2, oi_read_only_data = read_only_data_bytes pass2,
      oi_bss_size = bss_size pass2, oi_data_alignment = data_alignment pass1,
      oi_read_only_data_alignment = read_only_data_alignment pass1, oi_bss_alignment = bss_alignment pass1,
      oi_symtable = symtable pass1, oi_relocations = Some (relocations pass2),
      oi_debug_files = Some (debug_files pass1), oi_debug_lines = Some (debug_lines pass2),
      oi_source_name = Some logical_name\<rparr>"

definition nazm_assemble_caught :: "u8 list \<Rightarrow> cstr \<Rightarrow> NazmOptions \<Rightarrow> NazmResult" where
  "nazm_assemble_caught source_bytes logical_name opts =
     (case nazm_front \<lparr>sb_data = source_bytes, sb_name = Some logical_name\<rparr> of
        Rejected es \<Rightarrow> nazm_source_error API_TEXT es
      | Pass1_rejected es \<Rightarrow> nazm_source_error API_PASS es
      | Pass2_rejected es \<Rightarrow> nazm_source_error API_PASS es
      | Assembled il pass1 pass2 \<Rightarrow>
          let format = (if opt_format opts = NAZM_FORMAT_COFF then OUTPUT_FORMAT_COFF else OUTPUT_FORMAT_ELF64)
          in case output_write format (output_input pass1 pass2 logical_name) of
               Inl m \<Rightarrow> nazm_diagnostic_result NAZM_STATUS_INTERNAL_ERROR logical_name (API_OUTPUT m)
             | Inr object \<Rightarrow> (nazm_empty_result NAZM_STATUS_OK)\<lparr>object_data := object\<rparr>)"

text \<open>The name of a source in memory, between angle brackets.\<close>

definition memory_source :: cstr where
  "memory_source = [0x3C, 0xD8, 0xB0, 0xD8, 0xA7, 0xD9, 0x83, 0xD8, 0xB1, 0xD8, 0xA9, 0x3E]"

text \<open>A null source is \<open>None\<close> with its length; it is empty or refused.\<close>

definition nazm_assemble_buffer ::
  "u8 list option \<Rightarrow> nat \<Rightarrow> cstr option \<Rightarrow> NazmOptions \<Rightarrow> NazmResult" where
  "nazm_assemble_buffer src source_len name opts =
     (let logical_name = (case name of None \<Rightarrow> memory_source | Some n \<Rightarrow> n) in
      if src = None \<and> source_len \<noteq> 0 \<or> \<not> nazm_options_valid opts
      then nazm_diagnostic_result NAZM_STATUS_INVALID_ARGUMENT logical_name API_INVALID_ARGUMENT
      else nazm_assemble_caught (take source_len (case src of None \<Rightarrow> [] | Some bs \<Rightarrow> bs)) logical_name opts)"

definition NAZM_API_MAX_SOURCE_SIZE :: int where "NAZM_API_MAX_SOURCE_SIZE = 100 * 1024 * 1024"

text \<open>What the file system answers: opening, seeking to the end, telling, seeking back, reading.\<close>

datatype FileAnswer =
    OPEN_FAILED
  | OPEN_NO_MEMORY
  | SEEK_END_FAILED
  | FILE_SIZE int bool "u8 list"

definition nazm_assemble_file :: "(cstr \<Rightarrow> FileAnswer) \<Rightarrow> cstr option \<Rightarrow> NazmOptions \<Rightarrow> NazmResult" where
  "nazm_assemble_file io path opts =
     (case path of
        None \<Rightarrow> nazm_diagnostic_result NAZM_STATUS_INVALID_ARGUMENT [] API_NO_PATH
      | Some source_path \<Rightarrow>
          if source_path = [] then nazm_diagnostic_result NAZM_STATUS_INVALID_ARGUMENT [] API_NO_PATH
          else case io source_path of
            OPEN_NO_MEMORY \<Rightarrow> nazm_empty_result NAZM_STATUS_OUT_OF_MEMORY
          | OPEN_FAILED \<Rightarrow> nazm_diagnostic_result NAZM_STATUS_IO_ERROR source_path API_OPEN_FAILED
          | SEEK_END_FAILED \<Rightarrow> nazm_diagnostic_result NAZM_STATUS_IO_ERROR source_path API_SIZE_UNKNOWN
          | FILE_SIZE sz sought_back bytes \<Rightarrow>
              if sz < 0 \<or> sz > NAZM_API_MAX_SOURCE_SIZE \<or> \<not> sought_back
              then nazm_diagnostic_result NAZM_STATUS_IO_ERROR source_path API_SIZE_INVALID
              else if sz \<noteq> 0 \<and> length (take (nat sz) bytes) \<noteq> nat sz
              then nazm_diagnostic_result NAZM_STATUS_IO_ERROR source_path API_READ_FAILED
              else nazm_assemble_buffer (Some (take (nat sz) bytes)) (nat sz) (Some source_path) opts)"

end
