(* ===== verification/Api_Theorems.thy ===== *)
theory Api_Theorems
  imports Api Coff_Read
begin

text \<open>
  What a caller of the C interface gets. The writers have error paths for malformed input; on the
  results of the two passes only those for the limits of the formats remain.
\<close>

section \<open>Relocations and symbols\<close>

text \<open>Every relocation of an assembled source is found in the collected symbols.\<close>

lemma relocation_symbols:
  assumes "assembled il" "r \<in> set (relocations (pass2_run il (pass1_run il)))"
    "output_symbols_collect (symtable (pass1_run il)) = Some syms"
  shows "output_symbols_find_index syms (rel_symbol r) \<noteq> None"
proof -
  let ?tab = "symtable (pass1_run il)"
  obtain sec off i where "r \<in> set (step_relocs (pass1_run il) sec off i)" "resolved (pass1_run il) sec off i"
    by (rule relocation_step [OF assms(1,2)])
  then have "symbol_known ?tab (rel_symbol r)" by (simp add: resolved_def)
  then obtain e where e: "find_entry ?tab (rel_symbol r) = Some e" "sym_defined e \<or> external_declared e"
    by (auto simp: symbol_known_def symtable_lookup_ex_def symtable_is_external_def split: option.splits if_splits)
  have "?tab = symtable_run (declarations (instrs il))"
    using pass1_sections(2) assembled_source [OF assms(1)] by blast
  then have wf: "wf_symtable ?tab" by (simp add: run_facts)
  have n: "sym_name e = rel_symbol r" using e(1) by (auto simp: find_entry_def find_Some_iff)
  then have "e \<in> set (all_entries ?tab)" using e(1) by (simp add: entries_find [OF wf])
  then have "output_symbol e \<in> set (os_data syms)"
    using assms(3) e(2) by (auto simp: output_symbols_collect emitted_symbols Output_Symbols.emitted_def split: if_splits
        simp del: set_append)
  then have "rel_symbol r \<in> os_name ` set (os_data syms)" using n by (force simp: output_symbol_def)
  then show ?thesis by (simp add: output_symbols_find_index_def find_index_from)
qed

section \<open>Limits of the formats\<close>

text \<open>The messages about the size of a table, a count or a section.\<close>

definition limit_message :: "OutputMessage \<Rightarrow> bool" where
  "limit_message m \<longleftrightarrow> m \<notin> {MSG_DWARF_INVALID, MSG_DWARF_FILE, MSG_CODEVIEW_INVALID, MSG_ELF_RELOCATION, MSG_COFF_RELOCATION}"

lemma dwarf_lines_total:
  assumes "\<forall>l \<in> set ls. debug_file_index files (dl_file_id l) \<noteq> None"
  shows "dwarf_lines files st ls \<noteq> Inl m"
  using assms
proof (induction ls arbitrary: st)
  case (Cons l ls)
  then show ?case by (auto simp: dwarf_line_step_def Let_def)
qed simp

lemma debug_lines_files:
  "debug_lines_valid files n k off ls \<Longrightarrow> \<forall>l \<in> set ls. debug_file_index files (dl_file_id l) \<noteq> None"
  by (induction ls arbitrary: k off) (auto split: if_splits)

lemma dwarf_fails:
  assumes "debug_contract_is_valid files lines n" "output_build_dwarf_line files lines n = Inl m"
  shows "limit_message m"
proof -
  have "\<forall>l \<in> set lines. debug_file_index files (dl_file_id l) \<noteq> None"
    using assms(1) debug_lines_files by (fastforce simp: debug_contract_is_valid_def split: if_splits)
  then have "dwarf_lines files st lines \<noteq> Inl m" for st m by (rule dwarf_lines_total)
  then show ?thesis
    using assms by (auto simp: output_build_dwarf_line_def Let_def limit_message_def split: if_splits sum.splits)
qed

lemma codeview_fails:
  assumes "debug_contract_is_valid files lines n" "output_build_codeview_line files lines n = Inl m"
  shows "limit_message m"
proof -
  have s: "codeview_strings out k offs fs \<noteq> Inl m" if "\<not> limit_message m" for m out k offs fs
    using that by (induction fs arbitrary: out offs) (auto simp: limit_message_def)
  have b: "codeview_blocks lines out fs \<noteq> Inl m" if "\<not> limit_message m" for m out fs
    using that
  proof (induction fs arbitrary: out)
    case (Cons f fs)
    then show ?case by (cases f) (auto simp: limit_message_def Let_def)
  qed simp
  show ?thesis
  proof (rule ccontr)
    assume n: "\<not> limit_message m"
    then show False
      using assms s [OF n] b [OF n]
      by (auto simp: output_build_codeview_line_def Let_def limit_message_def split: if_splits sum.splits prod.splits)
  qed
qed

lemma elf_relas_total:
  assumes "\<forall>r \<in> set rs. output_symbols_find_index symbols (rel_symbol r) \<noteq> None"
  shows "elf_write_relas sec symbols bias ob rs \<noteq> Inl m"
  using assms by (induction rs arbitrary: ob) auto

lemma coff_relocs_total:
  assumes "\<forall>r \<in> set rs. output_symbols_find_index symbols (rel_symbol r) \<noteq> None"
  shows "coff_write_relocs sec symbols out rs \<noteq> Inl m"
  using assms by (induction rs arbitrary: out) auto

lemma elf_file_total:
  assumes "elf_relocations_have_symbols (oi_relocations inp) symbols"
  shows "elf_write_file inp symbols d \<noteq> Inl m"
proof -
  have "elf_rela_section sec inp symbols ob \<noteq> Inl m" for sec ob m
  proof (cases "oi_relocations inp")
    case (Some rs)
    then have "\<forall>r \<in> set rs. output_symbols_find_index symbols (rel_symbol r) \<noteq> None"
      using assms by (auto simp: elf_relocations_have_symbols_def list_all_iff)
    then have "elf_write_relas sec symbols bias ob rs \<noteq> Inl m" for bias ob m by (rule elf_relas_total)
    then show ?thesis using Some by (auto simp: elf_rela_section_def Let_def split: sum.splits)
  qed (simp add: elf_rela_section_def)
  then show ?thesis
    by (auto simp: elf_write_file_def Let_def elf_rela_text_def elf_rela_data_def elf_rela_read_only_data_def
        split: sum.splits prod.splits)
qed

lemma coff_file_fails:
  assumes "coff_relocations_have_symbols (oi_relocations inp) symbols" "coff_counts inp = Inr n"
    "coff_write_file inp fname cv symbols n = Inl m"
  shows "limit_message m"
proof -
  have t: "(if (word_of_nat (length (relas_in inp sec)) :: u32) > 0
      then coff_write_relocs sec symbols out (the (oi_relocations inp)) else Inr out) \<noteq> Inl m" for sec out m
  proof (cases "oi_relocations inp")
    case None
    then show ?thesis by (simp add: relas_in_def)
  next
    case (Some rs)
    then have "\<forall>r \<in> set rs. output_symbols_find_index symbols (rel_symbol r) \<noteq> None"
      using assms(1) by (auto simp: coff_relocations_have_symbols_def list_all_iff)
    then show ?thesis using coff_relocs_total Some by auto
  qed
  then have r: "coff_text_relocs inp n symbols out \<noteq> Inl m" "coff_data_relocs inp n symbols out \<noteq> Inl m"
    "coff_read_only_data_relocs inp n symbols out \<noteq> Inl m" for out m
    unfolding coff_text_relocs_def coff_data_relocs_def coff_read_only_data_relocs_def coff_counts_small(1) [OF assms(2)]
    by simp_all
  show ?thesis
    using assms(3) r by (auto simp: coff_write_file_def Let_def limit_message_def split: if_splits sum.splits prod.splits)
qed

lemma writer_fails:
  assumes "assembled il" "p1 = pass1_run il" "p2 = pass2_run il p1"
    "output_write format (output_input p1 p2 name) = Inl m"
  shows "limit_message m"
proof -
  let ?inp = "output_input p1 p2 name"
  have c: "debug_contract_is_valid (the (oi_debug_files ?inp)) (the (oi_debug_lines ?inp)) (length (oi_text ?inp))"
    if "has_debug ?inp"
    using that debug_contract [OF assms(1)] assms(2,3) by (simp add: has_debug_def output_input_def)
  have s: "elf_relocations_have_symbols (oi_relocations ?inp) syms" "coff_relocations_have_symbols (oi_relocations ?inp) syms"
    if "output_symbols_collect (oi_symtable ?inp) = Some syms" for syms
    using that relocation_symbols [OF assms(1)] assms(2,3)
    by (simp_all add: elf_relocations_have_symbols_def coff_relocations_have_symbols_def output_input_def list_all_iff)
  show ?thesis
  proof (cases format)
    case OUTPUT_FORMAT_ELF64
    have "elf_debug_line ?inp = Inl m \<Longrightarrow> limit_message m"
      using dwarf_fails [OF c] by (auto simp: elf_debug_line_def split: if_splits)
    then show ?thesis
      using assms(4) s(1) elf_file_total [of ?inp]
      unfolding OUTPUT_FORMAT_ELF64 output_write_def output_write_elf64_def
      by (auto simp: limit_message_def split: sum.splits option.splits if_splits)
  next
    case OUTPUT_FORMAT_COFF
    have d: "coff_codeview_line ?inp = Inl m \<Longrightarrow> limit_message m"
      using codeview_fails [OF c] by (auto simp: coff_codeview_line_def split: if_splits)
    have n: "coff_counts ?inp = Inl m \<Longrightarrow> limit_message m"
      by (auto simp: coff_counts_def Let_def limit_message_def split: if_splits)
    show ?thesis
      using assms(4) s(2) d n coff_file_fails [of ?inp]
      unfolding OUTPUT_FORMAT_COFF output_write_def output_write_coff_def Let_def
      by (auto split: sum.splits option.splits if_splits) (simp_all add: limit_message_def)
  qed
qed

section \<open>Answers of the interface\<close>

lemma source_rejected [simp]:
  "status (nazm_source_error msg es) = NAZM_STATUS_SOURCE_ERROR"
  "object_data (nazm_source_error msg es) = []"
  "error_has_any es \<Longrightarrow> diagnostics (nazm_source_error msg es) \<noteq> []"
  by (auto simp: nazm_source_error_def nazm_copy_diagnostics_def nazm_empty_result_def error_has_any_def)

lemma front_rejects:
  "nazm_front src = Rejected es \<Longrightarrow> error_has_any es"
  "nazm_front src = Pass1_rejected es' \<Longrightarrow> error_has_any es'"
  "nazm_front src = Pass2_rejected es' \<Longrightarrow> error_has_any es'"
  by (auto simp: nazm_front_def Let_def split: if_splits)

text \<open>
  The specification of an answer: the source under its name, what each of the four phases reports on
  it in the order of the phases, and the object of the instructions.
\<close>

definition api_source :: "u8 list option \<Rightarrow> nat \<Rightarrow> cstr option \<Rightarrow> SourceBuffer" where
  "api_source src source_len name =
     \<lparr>sb_data = take source_len (case src of None \<Rightarrow> [] | Some bs \<Rightarrow> bs),
      sb_name = Some (case name of None \<Rightarrow> memory_source | Some n \<Rightarrow> n)\<rparr>"

definition api_reports :: "('m \<Rightarrow> ApiMessage) \<Rightarrow> 'm ErrorList \<Rightarrow> NazmDiagnostic list" where
  "api_reports msg es = map (\<lambda>e. \<lparr>nd_file = err_file e, nd_line = err_line e, nd_col = err_col e,
     nd_end_col = err_end_col e, nd_message = msg (err_message e)\<rparr>) (errors es)"

definition source_instructions :: "SourceBuffer \<Rightarrow> InstructionList" where
  "source_instructions src = pr_instructions (parser_parse (lr_tokens (lexer_lex src)))"

definition phase_reports :: "SourceBuffer \<Rightarrow> NazmDiagnostic list list" where
  "phase_reports src =
     [api_reports API_TEXT (lr_errors (lexer_lex src)),
      api_reports API_TEXT (pr_errors (parser_parse (lr_tokens (lexer_lex src)))),
      api_reports API_PASS (p1_errors (pass1_run (source_instructions src))),
      api_reports API_PASS (p2_errors (pass2_run (source_instructions src) (pass1_run (source_instructions src))))]"

definition source_object :: "OutputFormat \<Rightarrow> SourceBuffer \<Rightarrow> cstr \<Rightarrow> OutputMessage + u8 list" where
  "source_object format src name =
     output_write format (output_input (pass1_run (source_instructions src))
       (pass2_run (source_instructions src) (pass1_run (source_instructions src))) name)"

lemma source_error_reports:
  "nazm_source_error msg es = \<lparr>status = NAZM_STATUS_SOURCE_ERROR, object_data = [], diagnostics = api_reports msg es\<rparr>"
  by (simp add: nazm_source_error_def nazm_copy_diagnostics_def nazm_empty_result_def api_reports_def)

lemma api_reports_any: "api_reports msg es \<noteq> [] \<longleftrightarrow> error_has_any es"
  by (simp add: api_reports_def error_has_any_def)

lemma front_reports:
  "case nazm_front src of
     Rejected es \<Rightarrow> find (\<lambda>ds. ds \<noteq> []) (phase_reports src) = Some (api_reports API_TEXT es)
   | Pass1_rejected es \<Rightarrow> find (\<lambda>ds. ds \<noteq> []) (phase_reports src) = Some (api_reports API_PASS es)
   | Pass2_rejected es \<Rightarrow> find (\<lambda>ds. ds \<noteq> []) (phase_reports src) = Some (api_reports API_PASS es)
   | Assembled il p1 p2 \<Rightarrow> find (\<lambda>ds. ds \<noteq> []) (phase_reports src) = None
       \<and> il = source_instructions src \<and> p1 = pass1_run il \<and> p2 = pass2_run il p1"
  by (simp add: nazm_front_def phase_reports_def source_instructions_def Let_def api_reports_any)

text \<open>
  C12. The answer of the interface to valid arguments, in full. When a phase reports anything, the
  result is a source error without an object whose diagnostics are exactly the reports of the first
  such phase, in order, with their files, lines, columns and messages. Otherwise the result is the
  complete object the writer of the chosen format makes of the passes' results, without diagnostics;
  or, when the writer refuses, an internal error whose one diagnostic is the writer's message, and
  that message is always about a limit of the object format: the writers never find a missing symbol,
  an unknown file or an invalid line record in the results of the passes.
\<close>

theorem nazm_answers:
  assumes "nazm_options_valid opts" "src \<noteq> None \<or> source_len = 0" "source_len < 2 ^ 31"
    "format = (if opt_format opts = NAZM_FORMAT_COFF then OUTPUT_FORMAT_COFF else OUTPUT_FORMAT_ELF64)"
    "logical_name = (case name of None \<Rightarrow> memory_source | Some n \<Rightarrow> n)"
  shows "case find (\<lambda>ds. ds \<noteq> []) (phase_reports (api_source src source_len name)) of
      Some ds \<Rightarrow> nazm_assemble_buffer src source_len name opts
        = \<lparr>status = NAZM_STATUS_SOURCE_ERROR, object_data = [], diagnostics = ds\<rparr>
    | None \<Rightarrow> (case source_object format (api_source src source_len name) logical_name of
        Inr object \<Rightarrow> nazm_assemble_buffer src source_len name opts
          = \<lparr>status = NAZM_STATUS_OK, object_data = object, diagnostics = []\<rparr>
      | Inl m \<Rightarrow> limit_message m \<and> nazm_assemble_buffer src source_len name opts
          = \<lparr>status = NAZM_STATUS_INTERNAL_ERROR, object_data = [],
             diagnostics = [\<lparr>nd_file = logical_name, nd_line = 0, nd_col = 0, nd_end_col = 0, nd_message = API_OUTPUT m\<rparr>]\<rparr>)"
proof -
  let ?src = "api_source src source_len name"
  have r: "nazm_assemble_buffer src source_len name opts = nazm_assemble_caught (sb_data ?src) logical_name opts"
    "\<lparr>sb_data = sb_data ?src, sb_name = Some logical_name\<rparr> = ?src"
    using assms(1,2,5) by (auto simp: nazm_assemble_buffer_def api_source_def Let_def)
  have l: "length (sb_data ?src) < 2 ^ 31"
    unfolding api_source_def SourceBuffer.select_convs length_take using assms(3) by linarith
  note reports = front_reports [of ?src]
  show ?thesis
  proof (cases "nazm_front ?src")
    case (Assembled il p1 p2)
    have p: "assembled il" "p1 = pass1_run il" "p2 = pass2_run il p1" using front_assembled [OF Assembled l] by simp_all
    have f: "find (\<lambda>ds. ds \<noteq> []) (phase_reports ?src) = None" "il = source_instructions ?src"
      using reports Assembled by simp_all
    have o: "source_object format ?src logical_name = output_write format (output_input p1 p2 logical_name)"
      using f(2) p(2,3) by (simp add: source_object_def)
    have c: "nazm_assemble_caught (sb_data ?src) logical_name opts =
      (case output_write format (output_input p1 p2 logical_name) of
         Inl m \<Rightarrow> nazm_diagnostic_result NAZM_STATUS_INTERNAL_ERROR logical_name (API_OUTPUT m)
       | Inr object \<Rightarrow> (nazm_empty_result NAZM_STATUS_OK)\<lparr>object_data := object\<rparr>)"
      by (simp add: nazm_assemble_caught_def r(2) Assembled assms(4) Let_def)
    show ?thesis
      using writer_fails [OF p, of format logical_name]
      unfolding f(1) option.case o r(1) c
      by (auto simp: nazm_empty_result_def nazm_diagnostic_result_def nazm_add_single_diagnostic_def split: sum.split)
  qed (use reports in \<open>simp_all add: r nazm_assemble_caught_def source_error_reports\<close>)
qed

text \<open>An ill-formed byte as the source, and the diagnostic of the lexer at its place.\<close>

theorem nazm_answers_witness:
  "status (nazm_assemble_buffer (Some [0xFF]) 1 (Some [0x61]) nazm_default_options) = NAZM_STATUS_SOURCE_ERROR
   \<and> map (\<lambda>d. (nd_file d, nd_line d, nd_col d, nd_message d))
       (diagnostics (nazm_assemble_buffer (Some [0xFF]) 1 (Some [0x61]) nazm_default_options))
     = [([0x61], 1, 1, API_TEXT LEX_ILL_FORMED)]"
proof -
  let ?src = "api_source (Some [0xFF]) 1 (Some [0x61])"
  have v: "nazm_options_valid nazm_default_options" by code_simp
  have "map (\<lambda>e. (err_file e, err_line e, err_col e, err_message e)) (errors (lr_errors (lexer_lex ?src)))
      = [([0x61], 1, 1, LEX_ILL_FORMED)]"
    by code_simp
  then obtain e where e: "errors (lr_errors (lexer_lex ?src)) = [e]" "err_file e = [0x61]" "err_line e = 1"
    "err_col e = 1" "err_message e = LEX_ILL_FORMED"
    by auto
  then have f: "find (\<lambda>ds. ds \<noteq> []) (phase_reports ?src) = Some (api_reports API_TEXT (lr_errors (lexer_lex ?src)))"
    by (simp add: phase_reports_def api_reports_def)
  show ?thesis
    using nazm_answers [OF v, where src = "Some [0xFF]" and source_len = 1 and name = "Some [0x61]", OF _ _ refl refl] e
    unfolding f by (simp add: api_reports_def)
qed

end
