(* ===== verification/Source_Bounds.thy ===== *)
theory Source_Bounds
  imports Parser_Facts String_Tokens
begin

text \<open>
  The size of what the parser produces, in terms of the tokens it reads and so of the source: each
  instruction and each operand is paid for by a token of its own, and each name and string by the
  text of one.
\<close>

section \<open>Weights\<close>

definition operand_text :: "Operand \<Rightarrow> nat" where
  "operand_text k = (case k of OP_LABEL s \<Rightarrow> length s | OP_MEM_RIP_LABEL s \<Rightarrow> length s
     | OP_STRING s \<Rightarrow> length s | _ \<Rightarrow> 0)"

definition operands_weight :: "nat \<Rightarrow> nat \<Rightarrow> LocOperand list \<Rightarrow> nat" where
  "operands_weight a b os = sum_list (map (\<lambda>k. a + b * operand_text (opnd k)) os)"

definition label_text :: "Instruction \<Rightarrow> nat" where
  "label_text i = (case label i of None \<Rightarrow> 0 | Some s \<Rightarrow> length s)"

definition instruction_weight :: "nat \<Rightarrow> nat \<Rightarrow> Instruction \<Rightarrow> nat" where
  "instruction_weight a b i = a + b * label_text i + operands_weight a b (ops i)"

definition source_weight :: "nat \<Rightarrow> nat \<Rightarrow> Instruction list \<Rightarrow> nat" where
  "source_weight a b is = sum_list (map (instruction_weight a b) is)"

text \<open>The tokens not yet read.\<close>

definition tokens_left :: "nat \<Rightarrow> nat \<Rightarrow> Parser \<Rightarrow> nat" where
  "tokens_left a b p = tokens_weight a b (drop (ps_pos p) (ps_tokens p))"

lemma tokens_left_later:
  assumes "ps_tokens p' = ps_tokens p" "ps_pos p \<le> ps_pos p'"
  shows "tokens_left a b p' \<le> tokens_left a b p"
proof -
  have "drop (ps_pos p) (ps_tokens p) =
      take (ps_pos p' - ps_pos p) (drop (ps_pos p) (ps_tokens p)) @ drop (ps_pos p') (ps_tokens p)"
    using assms(2) append_take_drop_id [of "ps_pos p' - ps_pos p" "drop (ps_pos p) (ps_tokens p)"] by simp
  then have "tokens_left a b p = tokens_weight a b (take (ps_pos p' - ps_pos p) (drop (ps_pos p) (ps_tokens p)))
      + tokens_left a b p'"
    unfolding tokens_left_def tokens_weight_def using assms(1) by (metis map_append sum_list_append)
  then show ?thesis by simp
qed

lemma tokens_left_at:
  assumes "ps_tokens p' = ps_tokens p" "ps_pos p \<le> q" "q < ps_pos p'" "q < length (ps_tokens p)"
  shows "token_weight a b (ps_tokens p ! q) + tokens_left a b p' \<le> tokens_left a b p"
proof -
  have "tokens_left a b (p\<lparr>ps_pos := q\<rparr>) = token_weight a b (ps_tokens p ! q) + tokens_left a b (p\<lparr>ps_pos := Suc q\<rparr>)"
    using assms(4) by (simp add: tokens_left_def tokens_weight_def Cons_nth_drop_Suc [symmetric])
  moreover have "tokens_left a b (p\<lparr>ps_pos := q\<rparr>) \<le> tokens_left a b p"
    using assms(2) by (intro tokens_left_later) simp_all
  moreover have "tokens_left a b p' \<le> tokens_left a b (p\<lparr>ps_pos := Suc q\<rparr>)"
    using assms(1,3) by (intro tokens_left_later) simp_all
  ultimately show ?thesis by simp
qed

lemma tokens_left_moves: "ps_moves p p' \<Longrightarrow> tokens_left a b p' \<le> tokens_left a b p"
  by (intro tokens_left_later) (simp_all add: ps_moves_def)

text \<open>The current token pays for what is built when it has been passed.\<close>

lemma tokens_left_cur:
  assumes "cur_type p \<noteq> TOKEN_EOF" "ps_moves (advance p) p'"
  shows "token_weight a b (cur p) + tokens_left a b p' \<le> tokens_left a b p"
proof -
  have q: "ps_pos p < length (ps_tokens p)" "cur p = ps_tokens p ! ps_pos p"
    using assms(1) by (auto simp: cur_type_def cur_def make_token_def split: if_splits)
  show ?thesis unfolding q(2)
    using assms q(1) by (intro tokens_left_at) (simp_all add: ps_moves_def advance_def)
qed

section \<open>Operands\<close>

lemma c_str_length: "length (c_str s) \<le> length s"
  by (simp add: c_str_def length_takeWhile_le)

text \<open>An operand is paid for by one of the tokens it was read from.\<close>

definition paid_by :: "Parser \<Rightarrow> Parser \<Rightarrow> Operand \<Rightarrow> bool" where
  "paid_by p p' k \<longleftrightarrow> (\<exists>q. ps_pos p \<le> q \<and> q < ps_pos p' \<and> q < length (ps_tokens p)
     \<and> operand_text k \<le> tok_text (ps_tokens p ! q))"

lemma cur_index: "cur_type p \<noteq> TOKEN_EOF \<Longrightarrow> ps_pos p < length (ps_tokens p) \<and> cur p = ps_tokens p ! ps_pos p"
  by (auto simp: cur_type_def cur_def make_token_def split: if_splits)

lemma advance_fields [simp]:
  "ps_tokens (advance p) = ps_tokens p"
  "cur_type p \<noteq> TOKEN_EOF \<Longrightarrow> ps_pos (advance p) = ps_pos p + 1"
  by (simp_all add: advance_def)

lemma paid_no_text:
  assumes "operand_text k = 0" "cur_type p \<noteq> TOKEN_EOF" "ps_pos p < ps_pos p'"
  shows "paid_by p p' k"
  using assms cur_index [of p] by (auto simp: paid_by_def intro!: exI [of _ "ps_pos p"])

lemma parse_rip_operand_paid:
  assumes "parse_rip_operand p t = (Some k, p')" "cur_type p \<noteq> TOKEN_EOF"
  shows "paid_by p p' (opnd k)"
proof -
  define q where "q = advance (advance p)"
  have c: "cur_type (advance p) = TOKEN_PLUS" "cur_type q = TOKEN_LABEL_REF \<or> cur_type q = TOKEN_MNEMONIC"
    "cur_type (advance q) = TOKEN_RBRACKET" "opnd k = OP_MEM_RIP_LABEL (c_str (tok_value (cur q)))" "p' = advance (advance q)"
    using assms(1) by (auto simp: parse_rip_operand_def Let_def fail_and_sync_def spanning_def q_def split: if_splits)
  have q: "cur_type q \<noteq> TOKEN_EOF" using c(2) by auto
  have pos: "ps_pos q = ps_pos p + 2" "ps_tokens q = ps_tokens p" using c(1) assms(2) by (simp_all add: q_def)
  have "tok_text (cur q) = length (tok_value (cur q))"
    using c(2) by (auto simp: tok_text_def text_token_def cur_type_def)
  then have "operand_text (opnd k) \<le> tok_text (ps_tokens p ! ps_pos q)"
    using cur_index [OF q] c(4) c_str_length pos by (simp add: operand_text_def)
  then show ?thesis
    using cur_index [OF q] c(3,5) q pos unfolding paid_by_def by (intro exI [of _ "ps_pos q"]) simp
qed

lemma parse_base_operand_text:
  "parse_base_operand p t = (Some k, p') \<Longrightarrow> operand_text (opnd k) = 0"
  by (auto simp: parse_base_operand_def Let_def fail_and_sync_def spanning_def operand_text_def
      split: if_splits prod.splits option.splits dest!: parse_mem_displacement_kind)

lemma parse_operand_paid:
  assumes "parse_operand p = (Some k, p')" "cur_type p \<noteq> TOKEN_EOF"
  shows "paid_by p p' (opnd k)"
proof -
  have m: "ps_tokens p' = ps_tokens p" "ps_remaining p' < ps_remaining p"
    using parse_operand_result [of p] assms(1) by (simp_all add: operand_result_def ps_moves_def)
  then have pos: "ps_pos p < ps_pos p'" by (simp add: ps_remaining_def)
  show ?thesis
  proof (cases "cur_type p = TOKEN_LBRACKET")
    case True
    then have o: "parse_mem_operand (advance p) (cur p) = (Some k, p')"
      using assms(1) by (simp add: parse_operand_def cur_type_def)
    show ?thesis
    proof (cases "cur_type (advance p) = TOKEN_LABEL_REF \<and> token_value_equals (cur (advance p)) INSTRUCTION_POINTER_NAME")
      case rip: True
      then have "paid_by (advance p) p' (opnd k)"
        using o by (intro parse_rip_operand_paid) (simp_all add: parse_mem_operand_def)
      then show ?thesis using assms(2) by (auto simp: paid_by_def) (metis Suc_leD)
    next
      case False
      then have "operand_text (opnd k) = 0"
        using o parse_base_operand_text
        by (auto simp: parse_mem_operand_def fail_and_sync_def split: if_splits option.splits)
      then show ?thesis using assms(2) pos by (rule paid_no_text)
    qed
  next
    case False
    then have "operand_text (opnd k) \<le> tok_text (cur p)"
      using assms(1) c_str_length
      by (auto simp: parse_operand_def Let_def spanning_def operand_text_def tok_text_def text_token_def cur_type_def
          split: TokenType.splits if_splits option.splits)
    then show ?thesis
      using cur_index [OF assms(2)] pos unfolding paid_by_def by (intro exI [of _ "ps_pos p"]) simp
  qed
qed

lemma parse_operand_weight:
  assumes "parse_operand p = (Some k, p')" "cur_type p \<noteq> TOKEN_EOF"
  shows "a + b * operand_text (opnd k) + tokens_left a b p' \<le> tokens_left a b p"
proof -
  obtain q where q: "ps_pos p \<le> q" "q < ps_pos p'" "q < length (ps_tokens p)"
    "operand_text (opnd k) \<le> tok_text (ps_tokens p ! q)"
    using parse_operand_paid [OF assms] by (auto simp: paid_by_def)
  have "ps_tokens p' = ps_tokens p"
    using parse_operand_result [of p] assms(1) by (simp add: operand_result_def ps_moves_def)
  then have "token_weight a b (ps_tokens p ! q) + tokens_left a b p' \<le> tokens_left a b p"
    using q by (intro tokens_left_at)
  moreover have "b * operand_text (opnd k) \<le> b * tok_text (ps_tokens p ! q)" using q(4) by simp
  ultimately show ?thesis unfolding token_weight_def by linarith
qed

lemma operand_at_end: "cur_type p = TOKEN_EOF \<Longrightarrow> parse_operand p \<noteq> (Some k, p')"
  by (simp add: parse_operand_def cur_type_def)

lemma directive_operands_weight:
  "instruction_weight a b (fst (parse_directive_operands p instr)) + tokens_left a b (snd (parse_directive_operands p instr))
     \<le> instruction_weight a b instr + tokens_left a b p"
proof (induction p instr rule: parse_directive_operands.induct)
  case (1 p instr)
  consider "cur_type p = TOKEN_NEWLINE \<or> cur_type p = TOKEN_EOF" | "cur_type p = TOKEN_COMMA"
    | "\<not> (cur_type p = TOKEN_NEWLINE \<or> cur_type p = TOKEN_EOF)" "cur_type p \<noteq> TOKEN_COMMA"
      "length (ops instr) \<ge> MAX_OPERANDS"
    | "\<not> (cur_type p = TOKEN_NEWLINE \<or> cur_type p = TOKEN_EOF)" "cur_type p \<noteq> TOKEN_COMMA"
      "\<not> length (ops instr) \<ge> MAX_OPERANDS" by blast
  then show ?case
  proof cases
    case 1
    then show ?thesis by (auto simp: parse_directive_operands.simps [of p])
  next
    case 2
    have "tokens_left a b (advance p) \<le> tokens_left a b p" by (intro tokens_left_moves ps_moves_advance)
    then show ?thesis using 2 "1.IH"(1) by (simp add: parse_directive_operands.simps [of p])
  next
    case 3
    have "ps_moves p (sync_to_newline (parse_error p PARSE_TOO_MANY))"
      unfolding parse_error_def by (intro ps_moves_sync2 ps_moves_error ps_moves_refl)
    then show ?thesis using 3 tokens_left_moves by (simp add: parse_directive_operands.simps [of p])
  next
    case 4
    obtain k p' where o: "parse_operand p = (k, p')" by fastforce
    show ?thesis
    proof (cases k)
      case None
      have "ps_moves p (sync_to_newline p')"
        using parse_operand_result [of p] o by (intro ps_moves_sync2) (simp add: operand_result_def)
      then show ?thesis using 4 o None tokens_left_moves by (simp add: parse_directive_operands.simps [of p])
    next
      case (Some op)
      have "a + b * operand_text (opnd op) + tokens_left a b p' \<le> tokens_left a b p"
        using 4(1) o Some by (intro parse_operand_weight) simp_all
      then show ?thesis
        using "1.IH"(2) [OF 4 o [symmetric] Some] 4 o Some
        by (simp add: parse_directive_operands.simps [of p] instruction_weight_def operands_weight_def label_text_def)
    qed
  qed
qed

lemma operands_weight:
  "instruction_weight a b (fst (snd (parse_operands p instr))) + tokens_left a b (snd (snd (parse_operands p instr)))
     \<le> instruction_weight a b instr + tokens_left a b p"
proof (induction p instr rule: parse_operands.induct)
  case (1 p instr)
  obtain ok p1 where c: "(if ops instr \<noteq> [] then expect_comma p else (True, p)) = (ok, p1)" by fastforce
  obtain k p2 where o: "parse_operand p1 = (k, p2)" by fastforce
  have m1: "ps_moves p p1" using c expect_comma_moves [of p] by (auto split: if_splits)
  have m2: "ps_moves p1 p2" using o parse_operand_result [of p1] by (simp add: operand_result_def)
  show ?case
  proof (cases "cur_type p = TOKEN_NEWLINE \<or> cur_type p = TOKEN_EOF")
    case True
    then show ?thesis by (auto simp: parse_operands.simps [of p])
  next
    case False
    show ?thesis
    proof (cases "ok \<and> \<not> MAX_OPERANDS \<le> length (ops instr) \<and> k \<noteq> None")
      case True
      then obtain op where k: "k = Some op" by blast
      have u: "parse_operands p instr = parse_operands p2 (instr\<lparr>ops := ops instr @ [op]\<rparr>)"
        using False c o True k by (simp add: parse_operands.simps [of p instr])
      have "cur_type p1 \<noteq> TOKEN_EOF" using o k operand_at_end by metis
      then have "a + b * operand_text (opnd op) + tokens_left a b p2 \<le> tokens_left a b p1"
        using o k by (intro parse_operand_weight) simp_all
      then show ?thesis
        using 1 [OF False c [symmetric] _ _ o [symmetric] k] True tokens_left_moves [OF m1, of a b] unfolding u
        by (simp add: instruction_weight_def operands_weight_def label_text_def)
    next
      case fail: False
      have "ps_moves p (sync_to_newline p1)" "ps_moves p (sync_to_newline p2)"
        "ps_moves p (sync_to_newline (parse_error p1 m))" for m
        unfolding parse_error_def
        using m1 ps_moves_trans [OF m1 m2] by (auto intro: ps_moves_sync2 ps_moves_error)
      then show ?thesis
        using False fail c o tokens_left_moves by (auto simp: parse_operands.simps [of p instr] split: option.splits)
    qed
  qed
qed

section \<open>Lines\<close>

definition line_weight :: "nat \<Rightarrow> nat \<Rightarrow> nat \<Rightarrow> Parser \<Rightarrow> Parser \<Rightarrow> bool" where
  "line_weight a b w p p' \<longleftrightarrow> tokens_left a b p' \<le> w + tokens_left a b p \<and>
     (ps_out p' = ps_out p \<or> (\<exists>i. ps_out p' = ps_out p @ [i]
        \<and> instruction_weight a b i + tokens_left a b p' \<le> w + tokens_left a b p))"

lemma line_weight_moves: "ps_moves p p' \<Longrightarrow> line_weight a b w p p'"
  using tokens_left_moves [of p p' a b] by (simp add: line_weight_def ps_moves_def)

lemma tokens_left_push [simp]: "tokens_left a b (push_instr p i) = tokens_left a b p"
  by (simp add: tokens_left_def push_instr_def)

lemma line_weight_push:
  assumes "ps_moves p p'" "instruction_weight a b i + tokens_left a b p' \<le> w + tokens_left a b p"
  shows "line_weight a b w p (push_instr p' i)"
  using assms by (auto simp: line_weight_def ps_moves_def push_instr_def tokens_left_def)

lemma parse_directive_line_weight:
  assumes "ops i = []" "cur_type p \<noteq> TOKEN_EOF"
  shows "line_weight a b (b * label_text i) p (parse_directive_line p i)"
proof -
  let ?name = "c_str (tok_value (cur p))"
  let ?i = "i\<lparr>directive := Some ?name, directive_kind := directive_lookup ?name\<rparr>"
  have l: "line_weight a b w p (end_line (sync_to_newline (token_error p t m)))" for t m w
    by (intro line_weight_moves ps_moves_end_line ps_moves_sync2 ps_moves_error ps_moves_refl)
  obtain i' p' where o: "parse_directive_operands (advance p) ?i = (i', p')" by fastforce
  have "ps_moves (advance p) p'" using o directive_operands_moves [of "advance p" ?i] by simp
  then have m: "ps_moves p (end_line p')" by (rule ps_moves_end_line [OF ps_moves_trans [OF ps_moves_advance]])
  have "tokens_left a b (end_line p') \<le> tokens_left a b p'"
    by (intro tokens_left_moves ps_moves_end_line ps_moves_refl)
  then have "instruction_weight a b i' + tokens_left a b (end_line p') \<le> b * label_text i + tokens_left a b p"
    using directive_operands_weight [of a b "advance p" ?i] o assms(1) tokens_left_cur [OF assms(2) ps_moves_refl, of a b]
    by (simp add: instruction_weight_def operands_weight_def label_text_def token_weight_def)
  then have "line_weight a b (b * label_text i) p (push_instr (end_line p') i')" by (rule line_weight_push [OF m])
  then show ?thesis
    using l o by (auto simp: parse_directive_line_def Let_def replacement_error_def split: option.split)
qed

lemma parse_instruction_line_weight:
  assumes "ops i = []" "cur_type p \<noteq> TOKEN_EOF"
  shows "line_weight a b (b * label_text i) p (parse_instruction_line p i)"
proof -
  let ?op = "keywords_lookup (tok_value (cur p))"
  obtain ok i' p' where o: "parse_operands (advance p) (i\<lparr>opcode := ?op\<rparr>) = (ok, i', p')" by (metis prod_cases3)
  let ?p = "if ok then check_arity p' i' (fst (get_arity ?op)) (snd (get_arity ?op)) else p'"
  have m': "ps_moves (advance p) p'" using o operands_moves [of "advance p" "i\<lparr>opcode := ?op\<rparr>"] by simp
  have m: "ps_moves p (end_line ?p)"
    using ps_moves_trans [OF ps_moves_advance m'] check_arity_moves by (intro ps_moves_end_line) simp
  have "ps_moves p' ?p" using check_arity_moves [OF ps_moves_refl] by simp
  then have "tokens_left a b (end_line ?p) \<le> tokens_left a b p'"
    by (intro tokens_left_moves ps_moves_end_line)
  then have "instruction_weight a b i' + tokens_left a b (end_line ?p) \<le> b * label_text i + tokens_left a b p"
    using operands_weight [of a b "advance p" "i\<lparr>opcode := ?op\<rparr>"] o assms(1) tokens_left_cur [OF assms(2) ps_moves_refl, of a b]
    by (simp add: instruction_weight_def operands_weight_def label_text_def token_weight_def)
  then have w: "line_weight a b (b * label_text i) p (push_instr (end_line ?p) i')" by (rule line_weight_push [OF m])
  have "line_weight a b w p (end_line (sync_to_newline (token_error p q m)))" for q m w
    by (intro line_weight_moves ps_moves_end_line ps_moves_sync2 ps_moves_error ps_moves_refl)
  then show ?thesis
    using w o by (cases ok) (simp_all add: parse_instruction_line_def Let_def case_prod_unfold)
qed

lemma parse_statement_weight:
  assumes "ops i = []" "cur_type p \<noteq> TOKEN_EOF"
  shows "line_weight a b (b * label_text i) p (parse_statement p i)"
proof -
  have "line_weight a b w p (end_line (sync_to_newline (token_error p t m)))" for t m w
    by (intro line_weight_moves ps_moves_end_line ps_moves_sync2 ps_moves_error ps_moves_refl)
  then have "line_weight a b w p (reject_line p)" for w
    by (simp add: reject_line_def Let_def replacement_error_def split: option.split)
  then show ?thesis
    using parse_directive_line_weight [OF assms] parse_instruction_line_weight [OF assms]
    by (simp add: parse_statement_def)
qed

lemma parse_line_weight:
  assumes "cur_type p \<noteq> TOKEN_EOF"
  shows "line_weight a b 0 p (parse_line p)"
proof -
  let ?t = "cur p"
  let ?i = "set_instruction_span empty_instruction ?t\<lparr>label := Some (c_str (tok_value ?t)),
    label_line := tok_line ?t, label_col := tok_col ?t, label_end_col := tok_end_col ?t\<rparr>"
  have i: "ops (set_instruction_span ?i u) = []" "label_text (set_instruction_span ?i u) = length (c_str (tok_value ?t))"
    "label_text ?i = length (c_str (tok_value ?t))" "ops ?i = []" for u
    by (simp_all add: set_instruction_span_def empty_instruction_def label_text_def)
  have l: "b * length (c_str (tok_value ?t)) + a + tokens_left a b (advance p) \<le> tokens_left a b p"
    if "tok_type ?t = TOKEN_LABEL_DEF"
  proof -
    have "b * length (c_str (tok_value ?t)) \<le> b * tok_text ?t"
      using that c_str_length by (simp add: tok_text_def text_token_def)
    then show ?thesis using tokens_left_cur [OF assms ps_moves_refl, of a b] unfolding token_weight_def by linarith
  qed
  have bare: "line_weight a b 0 p (push_instr (end_line (advance p)) ?i)" if "tok_type ?t = TOKEN_LABEL_DEF"
  proof (rule line_weight_push)
    have "tokens_left a b (end_line (advance p)) \<le> tokens_left a b (advance p)"
      by (intro tokens_left_moves ps_moves_end_line ps_moves_refl)
    then show "instruction_weight a b ?i + tokens_left a b (end_line (advance p)) \<le> 0 + tokens_left a b p"
      using l [OF that] by (simp add: instruction_weight_def i operands_weight_def)
  qed (intro ps_moves_end_line ps_moves_advance)
  have stm: "line_weight a b 0 p (parse_statement (advance p) (set_instruction_span ?i u))"
    if "tok_type ?t = TOKEN_LABEL_DEF" "cur_type (advance p) \<noteq> TOKEN_EOF" for u
  proof -
    have "ps_out (advance p) = ps_out p" by (simp add: advance_def)
    then show ?thesis
      using parse_statement_weight [OF i(1) that(2), of a b u] l [OF that(1)] unfolding i(2) by (auto simp: line_weight_def)
  qed
  have "ops (set_instruction_span empty_instruction ?t) = []" "label_text (set_instruction_span empty_instruction ?t) = 0"
    by (simp_all add: set_instruction_span_def empty_instruction_def label_text_def)
  then have "line_weight a b 0 p (parse_statement p (set_instruction_span empty_instruction ?t))"
    using parse_statement_weight [OF _ assms, of "set_instruction_span empty_instruction ?t" a b] by simp
  then show ?thesis
    using bare stm line_weight_moves [OF ps_moves_refl] line_weight_moves [OF ps_moves_advance]
    by (auto simp: parse_line_def Let_def cur_type_def)
qed

section \<open>The whole source\<close>

lemma parse_lines_weight:
  "source_weight a b (ps_out (parse_lines p)) \<le> source_weight a b (ps_out p) + tokens_left a b p"
proof (induction p rule: parse_lines.induct)
  case (1 p)
  show ?case
  proof (cases "cur_type p = TOKEN_EOF")
    case False
    let ?p = "skip_newlines (parse_line p)"
    have "ps_moves (parse_line p) ?p" using skip_newlines_moves by blast
    then have "ps_out ?p = ps_out (parse_line p)" "tokens_left a b ?p \<le> tokens_left a b (parse_line p)"
      using tokens_left_moves by (simp_all add: ps_moves_def)
    then have "source_weight a b (ps_out ?p) + tokens_left a b ?p \<le> source_weight a b (ps_out p) + tokens_left a b p"
      using parse_line_weight [OF False, of a b] by (auto simp: line_weight_def source_weight_def)
    then show ?thesis using 1 [OF False] False by (simp add: parse_lines.simps [of p])
  qed (simp add: parse_lines.simps [of p])
qed

lemma parser_weight:
  "source_weight a b (instrs (pr_instructions (parser_parse ta))) \<le> tokens_weight a b (ta_tokens ta)"
proof -
  let ?p = "skip_newlines (parser_start ta)"
  have m: "ps_moves (parser_start ta) ?p" using skip_newlines_moves by blast
  have "tokens_left a b (parser_start ta) = tokens_weight a b (ta_tokens ta)"
    by (simp add: tokens_left_def parser_start_def)
  moreover have "ps_out ?p = []" using m by (simp add: ps_moves_def parser_start_def)
  ultimately show ?thesis
    using parse_lines_weight [of a b ?p] tokens_left_moves [OF m, of a b]
    by (simp add: parser_parse_def Let_def source_weight_def)
qed

text \<open>Instructions, operands and names of a source are bounded by its length.\<close>

lemma source_weight_bound:
  "source_weight a b (instrs (pr_instructions (parser_parse (lr_tokens (lexer_lex src)))))
     \<le> (a + b) * length (sb_data src) + a"
  using parser_weight lexer_weight le_trans by blast

end
