(* ===== verification/Object_Limits.thy ===== *)
theory Object_Limits
  imports Source_Bounds Api_Theorems Dwarf_Read
begin

text \<open>
  A source the interface reads from a file never reaches a limit of the ELF format: the tables of
  the object are bounded by the instructions, and these by the length of the source.
\<close>

section \<open>Names of symbols\<close>

fun op_name :: "sym_op \<Rightarrow> cstr" where
  "op_name (Define s sec off) = s"
| "op_name (Bind s b) = s"
| "op_name (External s) = s"

lemma map_run_names:
  "foldl map_step m ps s = Some e \<Longrightarrow> m s \<noteq> None \<or> s \<in> op_name ` set ps"
proof (induction ps arbitrary: m)
  case (Cons p ps)
  have "map_step m p s \<noteq> None \<Longrightarrow> m s \<noteq> None \<or> s = op_name p"
    by (cases p) (auto split: if_splits)
  then show ?case using Cons.IH [of "map_step m p"] Cons.prems by auto
qed simp

definition name_weight :: "cstr \<Rightarrow> nat" where
  "name_weight s = length s + 1"

lemma declares_weight:
  "sum_list (map (\<lambda>p. name_weight (op_name p)) (declares sec off i)) \<le> instruction_weight 1 1 i"
proof (cases "directive_kind i = DIRECTIVE_NONE \<or> is_data_directive (directive_kind i)")
  case True
  then show ?thesis
    by (simp add: declares_def instruction_weight_def label_text_def name_weight_def split: option.split)
next
  case False
  show ?thesis
  proof (cases "\<exists>s. op_kinds i = [OP_LABEL s]")
    case True
    then obtain s k where "ops i = [k]" "opnd k = OP_LABEL s" by (auto simp: op_kinds_def)
    then show ?thesis using False
      by (simp add: declares_def instruction_weight_def operands_weight_def operand_text_def op_kinds_def
          name_weight_def split: option.split)
  next
    case no: False
    then have "declares sec off i = []" using False
      by (auto simp: declares_def split: list.split Operand.split)
    then show ?thesis by simp
  qed
qed

lemma declarations_weight:
  "sum_list (map (\<lambda>p. name_weight (op_name p)) (declarations_from l is)) \<le> source_weight 1 1 is"
proof (induction "is" arbitrary: l)
  case (Cons i "is")
  show ?case
    using declares_weight [of "lay_section l" "lay_size l (lay_section l)" i] Cons [of "layout_step l i"]
    by (simp add: source_weight_def)
qed (simp add: source_weight_def)

lemma distinct_sum_le:
  fixes f :: "'a \<Rightarrow> nat"
  assumes "distinct xs" "set xs \<subseteq> set ys"
  shows "sum_list (map f xs) \<le> sum_list (map f ys)"
proof -
  have "sum f (set xs) \<le> sum f (set ys)" using assms(2) by (intro sum_mono2) simp_all
  also have "\<dots> \<le> sum_list (map f ys)" by (induction ys) (auto simp: sum.insert_if)
  finally show ?thesis using assms(1) by (simp add: sum_list_distinct_conv_sum_set)
qed

lemma declared_names_weight:
  assumes "assembled il" "distinct ns" "\<forall>n \<in> set ns. find_entry (symtable (pass1_run il)) n \<noteq> None"
  shows "sum_list (map name_weight ns) \<le> source_weight 1 1 (instrs il)"
proof -
  let ?d = "declarations (instrs il)"
  have "symtable (pass1_run il) = symtable_run ?d"
    using pass1_sections(2) assembled_source [OF assms(1)] by blast
  then have "set ns \<subseteq> set (map op_name ?d)"
    using assms(3) map_run_names [of Map.empty ?d] by (fastforce simp: run_facts)
  from distinct_sum_le [OF assms(2) this, of name_weight] show ?thesis
    using declarations_weight [of layout_start "instrs il"] by (simp add: comp_def)
qed

lemma table_well_formed: "assembled il \<Longrightarrow> wf_symtable (symtable (pass1_run il))"
  using pass1_sections(2) assembled_source run_facts(1) by metis

lemma symbols_weight:
  assumes "assembled il" "output_symbols_collect (symtable (pass1_run il)) = Some syms"
  shows "sum_list (map (\<lambda>x. name_weight (os_name x)) (os_data syms)) \<le> source_weight 1 1 (instrs il)"
proof -
  note wf = table_well_formed [OF assms(1)]
  have s: "os_data syms = local_symbols (symtable (pass1_run il)) @ global_symbols (symtable (pass1_run il))"
    using assms(2) by (auto simp: output_symbols_collect split: if_splits)
  have "\<forall>n \<in> set (map os_name (os_data syms)). find_entry (symtable (pass1_run il)) n \<noteq> None"
    unfolding s set_map emitted_symbols using entries_find [OF wf] by (auto simp: output_symbol_def)
  moreover have "distinct (map os_name (os_data syms))" unfolding s by (rule distinct_symbol_names [OF wf])
  ultimately show ?thesis using declared_names_weight [OF assms(1)] by (force simp: comp_def)
qed

text \<open>The number of entries is that of the declared names.\<close>

lemma count_symbols_weight:
  assumes "assembled il"
  shows "count_output_symbols (symtable (pass1_run il)) \<le> source_weight 1 1 (instrs il)"
proof -
  note wf = table_well_formed [OF assms]
  let ?es = "filter Output_Symbols.emitted (all_entries (symtable (pass1_run il)))"
  have "distinct (map sym_name ?es)" using distinct_entry_names [OF wf] by (rule distinct_map_filter)
  moreover have "\<forall>n \<in> set (map sym_name ?es). find_entry (symtable (pass1_run il)) n \<noteq> None"
    using entries_find [OF wf] by auto
  ultimately have "sum_list (map name_weight (map sym_name ?es)) \<le> source_weight 1 1 (instrs il)"
    by (rule declared_names_weight [OF assms])
  moreover have "length es \<le> sum_list (map name_weight (map sym_name es))" for es
    by (induction es) (simp_all add: name_weight_def)
  ultimately show ?thesis unfolding count_output_symbols using le_trans by blast
qed

lemma names_fit_weight:
  "n + sum_list (map (\<lambda>x. name_weight (os_name x)) xs) \<le> UINT32_MAX \<Longrightarrow> names_fit_from n xs"
proof (induction xs arbitrary: n)
  case (Cons x xs)
  have "n + (length (os_name x) + 1) + sum_list (map (\<lambda>x. name_weight (os_name x)) xs) \<le> UINT32_MAX"
    using Cons.prems by (simp add: name_weight_def)
  then have "names_fit_from (n + (length (os_name x) + 1)) xs" by (rule Cons.IH)
  then show ?case using Cons.prems by (simp add: output_symbol_link_name_def name_weight_def Let_def)
qed simp

section \<open>Files and lines of the debug records\<close>

lemma path_elements_length:
  "path_elements enc offset decoded ended = Inr (d, e) \<Longrightarrow> offset \<le> length enc
     \<Longrightarrow> length d + offset \<le> length decoded + length enc"
proof (induction enc offset decoded ended rule: path_elements.induct)
  case (1 enc offset decoded ended)
  show ?case
  proof (cases "offset < length enc")
    case True
    then obtain nxt v n e' where p: "path_digits enc offset 0 0 ended = Some (nxt, v, n, e')"
      and q: "path_elements enc nxt (decoded @ [word_of_int v]) e' = Inr (d, e)" "\<not> (n = 0 \<or> v > 255 \<or> v = 0)"
      using "1.prems"(1) by (auto simp: path_elements.simps [of enc offset] split: option.splits if_splits)
    have "offset < nxt" "nxt \<le> length enc" using path_digits_progress [OF p True] by simp_all
    then show ?thesis using "1.IH" [of "(nxt, v, n, e')" nxt "(v, n, e')" v "(n, e')" n e'] True p q by simp
  next
    case False
    then show ?thesis using "1.prems" by (subst (asm) path_elements.simps) simp
  qed
qed

lemma decoded_path_length:
  assumes "decode_debug_path_bytes s = Inr path"
  shows "length path \<le> length s"
proof -
  obtain e where "path_elements s 0 [] False = Inr (path, e)"
    using assms unfolding decode_debug_path_bytes_def by (auto split: sum.splits if_splits)
  from path_elements_length [OF this] show ?thesis by simp
qed

text \<open>A step of the first pass registers at most one file, named by a string of the directive.\<close>

lemma debug_file_directive_files:
  "snd (snd (validate_debug_file_directive errs files il i)) = files
   \<or> (\<exists>f. snd (snd (validate_debug_file_directive errs files il i)) = files @ [f]
        \<and> length (df_path f) + 4 \<le> instruction_weight 4 1 i)"
proof (cases "\<exists>v s. op_kinds i = [OP_IMM v, OP_STRING s]")
  case True
  then obtain v s j k where k: "ops i = [j, k]" "opnd j = OP_IMM v" "opnd k = OP_STRING s"
    by (auto simp: op_kinds_def)
  have w: "length path + 4 \<le> instruction_weight 4 1 i" if "length path \<le> length s" for path :: cstr
    using that k by (simp add: instruction_weight_def operands_weight_def operand_text_def)
  show ?thesis
    using k w w [OF decoded_path_length]
    by (auto simp: validate_debug_file_directive_def Let_def op_kinds_def debug_file_push_def split: sum.split)
next
  case False
  then show ?thesis by (auto simp: validate_debug_file_directive_def Let_def split: list.split Operand.split)
qed

lemma pass1_files_kept [simp]:
  "p1_files (pass1_label il st i off) = p1_files st"
  "p1_files (pass1_external il st i) = p1_files st"
  "p1_files (pass1_visibility il st i b) = p1_files st"
  "p1_files (pass1_note_alignment st sec i) = p1_files st"
  "p1_files (pass1_advance st sec n) = p1_files st"
  by (simp_all add: pass1_label_def pass1_external_def pass1_visibility_def pass1_note_alignment_def
      pass1_advance_def Let_def split: option.split prod.split list.split Operand.split DirectiveKind.split SymbolSection.split)

lemma pass1_step_files:
  "p1_files (pass1_step il st i) = p1_files st
   \<or> (\<exists>f. p1_files (pass1_step il st i) = p1_files st @ [f] \<and> length (df_path f) + 4 \<le> instruction_weight 4 1 i)"
proof -
  have e: "p1_files (pass1_emit il st i) = p1_files st" for st
    by (simp add: pass1_emit_def Let_def split: option.split)
  have d: "p1_files (pass1_data il st i) = p1_files st" for st
    by (simp add: pass1_data_def e split: prod.split)
  have n: "p1_files (pass1_instruction il st i) = p1_files st"
    by (simp add: pass1_instruction_def Let_def split: option.split)
  show ?thesis
    using debug_file_directive_files [of "p1_errs st" "p1_files st" il i]
    by (cases "directive_kind i")
      (auto simp: pass1_step_def n pass1_directive_def d case_prod_unfold Let_def split: option.split)
qed

lemma debug_files_weight:
  "sum_list (map (\<lambda>f. length (df_path f) + 4) (debug_files (pass1_run il))) \<le> source_weight 4 1 (instrs il)"
proof -
  have "sum_list (map (\<lambda>f. length (df_path f) + 4) (p1_files (foldl (pass1_step il) st is)))
      \<le> sum_list (map (\<lambda>f. length (df_path f) + 4) (p1_files st)) + source_weight 4 1 is" for st "is"
  proof (induction "is" arbitrary: st)
    case (Cons i "is")
    show ?case
      using Cons [of "pass1_step il st i"] pass1_step_files [of il st i] by (auto simp: source_weight_def)
  qed (simp add: source_weight_def)
  from this [of "pass1_start il" "instrs il"] show ?thesis
    by (simp add: pass1_run_def Let_def pass1_walk_def pass1_start_def)
qed

text \<open>A step of the second pass records at most one line.\<close>

lemma pass2_step_lines:
  "length (debug_lines (case_sum id id (pass2_step il p1 st i))) \<le> length (debug_lines st) + 1"
proof -
  have noted: "length (debug_lines (note_debug_line st)) \<le> length (debug_lines st) + 1"
    by (simp add: note_debug_line_def push_debug_line_def)
  have keep: "length (debug_lines st') \<le> length (debug_lines st) + 1" if "keeps_lines st st'" for st'
    using that by (simp add: keeps_lines_def)
  have skip: "keeps_lines st (pass2_skip st)" "keeps_lines st (pass2_switch st sec)" for sec
    by (simp_all add: pass2_skip_def pass2_switch_def)
  show ?thesis
  proof (cases "directive_kind i = DIRECTIVE_NONE")
    case True
    define r where "r = resolve_operands il p1 i (layout_size i) 0 (ops i)
      \<lparr>res_state = note_debug_line st, resolved_target = 0, resolution_error = False\<rparr>"
    have "keeps_lines (note_debug_line st) (res_state r)" by (simp add: r_def keeps_resolve)
    moreover have "keeps_lines (res_state r) (case_sum id id (pass2_pad il p1 (res_state r) i (layout_size i)))"
      by (rule keeps_pad [OF refl])
    moreover have "keeps_lines (res_state r) (case_sum id id (pass2_encode il p1 (res_state r) i (layout_size i) (resolved_target r)))"
      by (rule keeps_encode [OF refl])
    ultimately have "length (debug_lines (case_sum id id (pass2_pad il p1 (res_state r) i (layout_size i)))) \<le> length (debug_lines st) + 1"
      "length (debug_lines (case_sum id id (pass2_encode il p1 (res_state r) i (layout_size i) (resolved_target r)))) \<le> length (debug_lines st) + 1"
      using noted by (simp_all add: keeps_lines_def)
    then show ?thesis
      using True keep [OF skip(1)] by (simp add: pass2_step_def pass2_instruction_def Let_def r_def)
  next
    case False
    have "length (debug_lines (pass2_location st i)) \<le> length (debug_lines st) + 1"
      by (simp add: pass2_location_def pass2_skip_def put_span_def split: list.split Operand.split)
    then show ?thesis
      using False keep [OF skip(1)] keep [OF skip(2)] keep [OF keeps_data]
      by (cases "directive_kind i") (simp_all add: pass2_step_def pass2_directive_def)
  qed
qed

lemma pass2_loop_lines:
  "length (debug_lines (case_sum id id (pass2_loop il p1 st js))) \<le> length (debug_lines st) + length js"
proof (induction js arbitrary: st)
  case (Cons i js)
  show ?case
    using pass2_step_lines [of il p1 st i] Cons [of "projr (pass2_step il p1 st i)"]
    by (cases "pass2_step il p1 st i") simp_all
qed simp

lemma debug_lines_count: "length (debug_lines (pass2_run il (pass1_run il))) \<le> length (instrs il)"
proof -
  define st where "st = case_sum id (pass2_totals il (pass1_run il)) (pass2_loop il (pass1_run il) (pass2_start il) (instrs il))"
  have "length (debug_lines st) \<le> length (instrs il)"
    using pass2_loop_lines [of il "pass1_run il" "pass2_start il" "instrs il"] unfolding st_def
    by (auto simp: pass2_totals_def add_internal_error_def pass2_start_def split: sum.splits)
  moreover have "debug_lines (pass2_run il (pass1_run il)) = debug_lines st"
    unfolding pass2_run_def Let_def st_def by (auto simp: Pass2Result.truncate_def split: sum.splits)
  ultimately show ?thesis by simp
qed

lemma instructions_weight: "a * length js \<le> source_weight a b js"
  by (induction js) (simp_all add: source_weight_def instruction_weight_def)

section \<open>Size of the line section\<close>

lemma uleb_length: "unat v < 128 ^ Suc k \<Longrightarrow> length (debug_buffer_uleb [] v) \<le> Suc k"
proof (induction k arbitrary: v)
  case 0
  then show ?case by (subst uleb_bytes) simp
next
  case (Suc k)
  have "unat v div 128 < 128 ^ Suc k" using Suc.prems by (simp add: less_mult_imp_div_less)
  then have "length (debug_buffer_uleb [] (drop_bit 7 v)) \<le> Suc k" by (intro Suc.IH) (simp add: shifted_7)
  then show ?case by (subst uleb_bytes) simp
qed

lemma sleb_length: "- 64 * 128 ^ k \<le> sint v \<Longrightarrow> sint v < 64 * 128 ^ k \<Longrightarrow> length (debug_buffer_sleb [] v) \<le> Suc k"
proof (induction k arbitrary: v)
  case 0
  then show ?case by (subst sleb_bytes) simp
next
  case (Suc k)
  have "- 64 * 128 ^ k \<le> sint v div 128" "sint v div 128 < 64 * 128 ^ k"
    using Suc.prems unfolding power_Suc by arith+
  then have "length (debug_buffer_sleb [] (signed_drop_bit 7 v)) \<le> Suc k"
    by (intro Suc.IH) (simp_all add: sint_shift_7)
  then show ?case by (subst sleb_bytes) simp
qed

lemma leb_lengths:
  "length (debug_buffer_uleb [] (ucast (c :: u32))) \<le> 5" "length (debug_buffer_uleb [] v) \<le> 10"
  "length (debug_buffer_sleb [] w) \<le> 10"
proof -
  have "unat (ucast c :: u64) < 128 ^ Suc 4"
    using unsigned_less [of c, where ?'a = nat] by (simp add: unsigned_ucast_eq take_bit_nat_eq_self)
  from uleb_length [OF this] show "length (debug_buffer_uleb [] (ucast c)) \<le> 5" by simp
  have "unat v < 128 ^ Suc 9" using unsigned_less [of v, where ?'a = nat] by simp
  from uleb_length [OF this] show "length (debug_buffer_uleb [] v) \<le> 10" by simp
  have "- 64 * 128 ^ 9 \<le> sint w" "sint w < 64 * 128 ^ 9"
    using sint_greater_eq [of w] sint_less [of w] by simp_all
  from sleb_length [OF this] show "length (debug_buffer_sleb [] w) \<le> 10" by simp
qed

lemma length_leb_append:
  "length (debug_buffer_uleb (b @ [x]) v) = length b + 1 + length (debug_buffer_uleb [] v)"
  "length (debug_buffer_sleb (b @ [x]) w) = length b + 1 + length (debug_buffer_sleb [] w)"
  by (subst uleb_append, simp) (subst sleb_append, simp)

lemma line_step_length:
  assumes "dwarf_line_step files st l = Inr st'"
  shows "length (dwarf_out st') \<le> length (dwarf_out st) + 35"
proof -
  have p: "length (dwarf_out (put_file f st)) \<le> length (dwarf_out st) + 6"
    "length (dwarf_out (put_column f st)) \<le> length (dwarf_out st) + 6"
    "length (dwarf_out (put_line w st)) \<le> length (dwarf_out st) + 11"
    "length (dwarf_out (put_address v st)) \<le> length (dwarf_out st) + 11" for f v w st
    using leb_lengths by (simp_all add: put_file_def put_column_def put_line_def put_address_def buffer_defs length_leb_append)
  obtain i where i: "st' = put_copy (put_address (word_of_nat (dl_offset l)) (put_line (ucast (dl_line l))
       (put_column (dl_column l) (put_file (word_of_nat i + 1) st))))"
    using assms unfolding line_step_put by (auto split: option.splits)
  show ?thesis
    unfolding i using p(1) [of "word_of_nat i + 1" st]
      p(2) [of "dl_column l" "put_file (word_of_nat i + 1) st"]
      p(3) [of "ucast (dl_line l)" "put_column (dl_column l) (put_file (word_of_nat i + 1) st)"]
      p(4) [of "word_of_nat (dl_offset l)" "put_line (ucast (dl_line l)) (put_column (dl_column l) (put_file (word_of_nat i + 1) st))"]
    by (simp add: put_copy_def buffer_defs)
qed

lemma dwarf_lines_length:
  "dwarf_lines files st ls = Inr st' \<Longrightarrow> length (dwarf_out st') \<le> length (dwarf_out st) + 35 * length ls"
proof (induction ls arbitrary: st)
  case (Cons l ls)
  then obtain st1 where s: "dwarf_line_step files st l = Inr st1" "dwarf_lines files st1 ls = Inr st'"
    by (auto split: sum.splits)
  show ?case using Cons.IH [OF s(2)] line_step_length [OF s(1)] by simp
qed simp

lemma dwarf_header_length:
  "length (dwarf_header files) = 30 + sum_list (map (\<lambda>f. length (df_path f) + 4) files)"
proof -
  have "length (dwarf_header files) = 10 + length (header_body files)" by (simp add: dwarf_header_bytes)
  moreover have "length (concat (map file_entry_bytes fs)) = sum_list (map (\<lambda>f. length (df_path f) + 4) fs)" for fs
    by (induction fs) (simp_all add: file_entry_bytes_def)
  ultimately show ?thesis by (simp add: header_body_def standard_opcode_lengths_def)
qed

lemma dwarf_end_length: "length (dwarf_end_sequence st n) \<le> length (dwarf_out st) + 30"
  using leb_lengths(2) [of 1] leb_lengths(2) [of "word_of_nat n - current_address st"]
  by (simp add: dwarf_end_sequence_def Let_def buffer_defs length_leb_append)

lemma dwarf_fits:
  assumes "debug_contract_is_valid files lines n" "length files \<le> UINT32_MAX"
    "sum_list (map (\<lambda>f. length (df_path f) + 4) files) + 35 * length lines + 100 \<le> UINT32_MAX"
  shows "\<exists>d. output_build_dwarf_line files lines n = Inr d"
proof -
  let ?st = "\<lparr>dwarf_out = debug_buffer_u64 (dwarf_set_address (dwarf_header files)) 0,
    current_address = 0, current_line = 1, current_file = 1, current_column = 0\<rparr>"
  have "\<forall>l \<in> set lines. debug_file_index files (dl_file_id l) \<noteq> None"
    using assms(1) debug_lines_files by (fastforce simp: debug_contract_is_valid_def split: if_splits)
  then obtain st where st: "dwarf_lines files ?st lines = Inr st"
    using dwarf_lines_total by (metis sum.exhaust_sel sum.collapse(1) sum.collapse(2))
  have "length (debug_buffer_u64 (dwarf_set_address (dwarf_header files)) 0) \<le> length (dwarf_header files) + 20"
    using leb_lengths(2) [of 9] by (simp add: dwarf_set_address_def debug_buffer_u64_def buffer_defs length_leb_append)
  then have "length (dwarf_end_sequence st n) - 4 \<le> UINT32_MAX"
    using dwarf_lines_length [OF st] dwarf_end_length [of st n] assms(3) by (simp add: dwarf_header_length)
  then show ?thesis using assms(1,2) st by (simp add: output_build_dwarf_line_def Let_def)
qed

section \<open>Every source has an object\<close>

text \<open>\<^verbatim>\<open>NAZM_API_MAX_SOURCE_SIZE\<close>, which also bounds the sources of the driver.\<close>

lemma source_within:
  assumes "nazm_front src = Assembled il p1 p2" "int (length (sb_data src)) \<le> NAZM_API_MAX_SOURCE_SIZE"
  shows "source_weight a b (instrs il) \<le> (a + b) * 104857600 + a"
proof -
  have "il = pr_instructions (parser_parse (lr_tokens (lexer_lex src)))"
    using assms(1) by (auto simp: nazm_front_def Let_def split: if_splits)
  then have "source_weight a b (instrs il) \<le> (a + b) * length (sb_data src) + a" by (simp add: source_weight_bound)
  also have "\<dots> \<le> (a + b) * 104857600 + a"
    using assms(2) by (intro add_right_mono mult_le_mono2) (simp add: NAZM_API_MAX_SOURCE_SIZE_def)
  finally show ?thesis .
qed

lemma elf_object_written:
  assumes "nazm_front src = Assembled il p1 p2" "int (length (sb_data src)) \<le> NAZM_API_MAX_SOURCE_SIZE"
  shows "\<exists>f. output_write_elf64 (output_input p1 p2 name) = Inr f"
proof -
  have src: "length (sb_data src) < 2 ^ 31" using assms(2) by (simp add: NAZM_API_MAX_SOURCE_SIZE_def)
  note fr = front_assembled [OF assms(1) src]
  have p: "assembled il" "p1 = pass1_run il" "p2 = pass2_run il p1" using fr by simp_all
  note bound = source_within [OF assms]
  let ?inp = "output_input p1 p2 name"
  have "count_output_symbols (symtable p1) \<le> 2 * 104857600 + 1"
    using count_symbols_weight [OF p(1)] bound [of 1 1] p(2) by simp
  then obtain syms where syms: "output_symbols_collect (symtable p1) = Some syms"
    by (simp add: output_symbols_collect UINT32_MAX_def)
  have "1 + sum_list (map (\<lambda>x. name_weight (os_name x)) (os_data syms)) \<le> UINT32_MAX"
    using symbols_weight [OF p(1), of syms] syms bound [of 1 1] p(2) by (simp add: UINT32_MAX_def)
  then have names: "symbol_names_fit_elf_strtab syms"
    unfolding symbol_names_fit_elf_strtab_def by (rule names_fit_weight)
  have rel: "elf_relocations_have_symbols (oi_relocations ?inp) syms"
    using relocation_symbols [OF p(1), of _ syms] syms p(2,3)
    by (simp add: elf_relocations_have_symbols_def output_input_def list_all_iff)
  have "\<exists>d. elf_debug_line ?inp = Inr d"
  proof (cases "has_debug ?inp")
    case True
    have files: "sum_list (map (\<lambda>f. length (df_path f) + 4) (debug_files p1)) \<le> 5 * 104857600 + 4"
      using debug_files_weight [of il] bound [of 4 1] p(2) by simp
    have "length fs \<le> sum_list (map (\<lambda>f. length (df_path f) + 4) fs)" for fs by (induction fs) simp_all
    then have count: "length (debug_files p1) \<le> 5 * 104857600 + 4" using files le_trans by blast
    have lines: "35 * length (debug_lines p2) \<le> 35 * 104857600 + 35"
      using debug_lines_count [of il] instructions_weight [of 35 "instrs il" 0] bound [of 35 0] p(2,3) by simp
    have "debug_contract_is_valid (debug_files p1) (debug_lines p2) (length (text_bytes p2))"
      using True debug_contract [OF p(1)] p(2,3) by (simp add: has_debug_def output_input_def)
    then have "\<exists>d. output_build_dwarf_line (debug_files p1) (debug_lines p2) (length (text_bytes p2)) = Inr d"
      using files lines count by (intro dwarf_fits) (simp_all add: UINT32_MAX_def)
    then show ?thesis using True by (simp add: elf_debug_line_def output_input_def)
  qed (simp add: elf_debug_line_def)
  then obtain d where d: "elf_debug_line ?inp = Inr d" ..
  obtain f where "elf_write_file ?inp syms d = Inr f"
    using elf_file_total [OF rel] by (metis sum.exhaust_sel sum.collapse(1) sum.collapse(2))
  moreover have "oi_symtable ?inp = symtable p1" by (simp add: output_input_def)
  ultimately show ?thesis using d names rel syms by (simp add: output_write_elf64_def)
qed

text \<open>
  C7. Every source file gets an answer: when a file of at most 100 MiB is read, assembling it to ELF
  never ends in an internal error. Either the four phases accept it and the result is the object of
  their results without diagnostics, or one of them rejects it and the result has a diagnostic and
  no object.
\<close>

theorem nazm_file_delivers:
  assumes "nazm_options_valid opts" "opt_format opts = NAZM_FORMAT_ELF64" "source_path \<noteq> []"
    "io source_path = FILE_SIZE sz True bytes" "0 \<le> sz" "sz \<le> NAZM_API_MAX_SOURCE_SIZE" "nat sz \<le> length bytes"
  shows "(\<exists>il p1 p2. nazm_front \<lparr>sb_data = take (nat sz) bytes, sb_name = Some source_path\<rparr> = Assembled il p1 p2
            \<and> status (nazm_assemble_file io (Some source_path) opts) = NAZM_STATUS_OK
            \<and> diagnostics (nazm_assemble_file io (Some source_path) opts) = []
            \<and> output_write_elf64 (output_input p1 p2 source_path)
                = Inr (object_data (nazm_assemble_file io (Some source_path) opts)))
       \<or> (\<not> (\<exists>il p1 p2. nazm_front \<lparr>sb_data = take (nat sz) bytes, sb_name = Some source_path\<rparr> = Assembled il p1 p2)
            \<and> status (nazm_assemble_file io (Some source_path) opts) = NAZM_STATUS_SOURCE_ERROR
            \<and> diagnostics (nazm_assemble_file io (Some source_path) opts) \<noteq> []
            \<and> object_data (nazm_assemble_file io (Some source_path) opts) = [])"
proof -
  let ?src = "\<lparr>sb_data = take (nat sz) bytes, sb_name = Some source_path\<rparr>"
  have asm: "nazm_assemble_file io (Some source_path) opts = nazm_assemble_caught (take (nat sz) bytes) source_path opts"
    using assms by (simp add: nazm_assemble_file_def nazm_assemble_buffer_def Let_def)
  have l: "int (length (sb_data ?src)) \<le> NAZM_API_MAX_SOURCE_SIZE" using assms(5-7) by simp
  show ?thesis
  proof (cases "nazm_front ?src")
    case (Assembled il p1 p2)
    obtain f where "output_write_elf64 (output_input p1 p2 source_path) = Inr f"
      using elf_object_written [OF Assembled l] by blast
    then show ?thesis
      unfolding asm using Assembled assms(2)
      by (simp add: nazm_assemble_caught_def output_write_def nazm_empty_result_def)
  qed (use front_rejects [of ?src] in \<open>simp_all add: asm nazm_assemble_caught_def\<close>)
qed

text \<open>The empty file.\<close>

theorem nazm_file_delivers_witness:
  "status (nazm_assemble_file (\<lambda>_. FILE_SIZE 0 True []) (Some [0x61]) nazm_default_options) = NAZM_STATUS_OK"
proof -
  let ?src = "\<lparr>sb_data = take (nat 0) [], sb_name = Some [0x61]\<rparr>"
  have "nazm_options_valid nazm_default_options" "opt_format nazm_default_options = 0" by code_simp+
  note r = nazm_file_delivers [OF this, of "[0x61]" "\<lambda>_. FILE_SIZE 0 True []" 0 "[]"]
  have "\<not> error_has_any (lr_errors (lexer_lex ?src))"
    "\<not> error_has_any (pr_errors (parser_parse (lr_tokens (lexer_lex ?src))))"
    "\<not> error_has_any (p1_errors (pass1_run (pr_instructions (parser_parse (lr_tokens (lexer_lex ?src))))))"
    "\<not> error_has_any (p2_errors (pass2_run (pr_instructions (parser_parse (lr_tokens (lexer_lex ?src))))
       (pass1_run (pr_instructions (parser_parse (lr_tokens (lexer_lex ?src)))))))"
    by code_simp+
  then have "\<exists>il p1 p2. nazm_front ?src = Assembled il p1 p2" by (simp add: nazm_front_def Let_def)
  then show ?thesis using r by (auto simp: NAZM_API_MAX_SOURCE_SIZE_def)
qed

end
