(* ===== verification/Divergences.thy ===== *)
theory Divergences
  imports Api_Theorems
begin

text \<open>
  Where the code departs from the documentation of the program, as theorems about a concrete source.
  The labels of a section without bytes: \<^verbatim>\<open>Docs/CONCERNS.md\<close> says that labels of the data section are
  not emitted as symbols of the text, but both writers fall back to the text for a section they do
  not write. The label a section directive carries is in \<open>Passes_Theorems.label_on_directive_dropped\<close>.
\<close>

section \<open>A label at the start of an empty data section\<close>

definition stray_source :: InstructionList where
  "stray_source = \<lparr>instrs = [ins OPCODE_RET [] None, dir DIRECTIVE_DATA [] None, ins OPCODE_INVALID [] (Some [0x64])],
     source_name = None, source_data = None\<rparr>"

definition stray_input :: OutputInput where
  "stray_input = output_input (pass1_run stray_source) (pass2_run stray_source (pass1_run stray_source)) [0x73]"

definition stray_symbols :: OutputSymbolList where
  "stray_symbols = \<lparr>os_data =
     [\<lparr>os_name = [0x64], os_offset = 0, os_section = SYMBOL_SECTION_DATA, os_binding = SYMBOL_BINDING_LOCAL, name_offset = 0\<rparr>],
     local_count = 1\<rparr>"

lemma stray_assembled: "assembled stray_source"
  unfolding assembled_def accepted_source_def by code_simp

lemma stray_fields:
  "oi_text stray_input = [0xC3]" "oi_data stray_input = []" "oi_read_only_data stray_input = []" "oi_bss_size stray_input = 0"
  "oi_relocations stray_input = Some []" "oi_debug_lines stray_input = Some []" "oi_data_alignment stray_input \<le> 16"
  "oi_read_only_data_alignment stray_input \<le> 16" "oi_bss_alignment stray_input \<le> 16"
  by code_simp+

lemma stray_label:
  "symtable_lookup_ex (symtable (pass1_run stray_source)) [0x64] = Some (0, SYMBOL_SECTION_DATA)"
  by code_simp

lemma stray_collected: "output_symbols_collect (oi_symtable stray_input) = Some stray_symbols"
proof -
  have "local_symbols (oi_symtable stray_input) @ global_symbols (oi_symtable stray_input) = os_data stray_symbols"
    "length (local_symbols (oi_symtable stray_input)) = 1" "count_output_symbols (oi_symtable stray_input) = 1"
    by code_simp+
  then show ?thesis by (simp add: output_symbols_collect UINT32_MAX_def stray_symbols_def)
qed

lemma stray_no_debug: "\<not> has_debug stray_input"
  by (simp add: has_debug_def stray_fields)

lemma stray_elf:
  obtains f where "output_write_elf64 stray_input = Inr f" "length f < 2 ^ 32"
proof -
  let ?d = "\<lparr>dwarf_data = [], address_relocation_offset = 0\<rparr>"
  have "map_sum (\<lambda>_. ()) (\<lambda>f. length f < 1000) (elf_write_file stray_input stray_symbols ?d) = Inr True" by code_simp
  then obtain f where f: "elf_write_file stray_input stray_symbols ?d = Inr f" "length f < 1000"
    by (cases "elf_write_file stray_input stray_symbols ?d") auto
  have "elf_debug_line stray_input = Inr ?d" using stray_no_debug by (simp add: elf_debug_line_def)
  moreover have "symbol_names_fit_elf_strtab stray_symbols"
    by (simp add: symbol_names_fit_elf_strtab_def stray_symbols_def output_symbol_link_name_def UINT32_MAX_def)
  moreover have "elf_relocations_have_symbols (oi_relocations stray_input) stray_symbols"
    by (simp add: stray_fields elf_relocations_have_symbols_def)
  ultimately have "output_write_elf64 stray_input = Inr f"
    using f(1) stray_collected by (simp add: output_write_elf64_def)
  then show thesis using f(2) that by simp
qed

lemma stray_coff:
  obtains f where "output_write_coff stray_input = Inr f" "length f < 2 ^ 32"
proof -
  let ?cv = "\<lparr>codeview_data = [], section_offset_relocation = 0, section_index_relocation = 0\<rparr>"
  let ?n = "\<lparr>text_relocs = 0, data_relocs = 0, read_only_data_relocs = 0\<rparr>"
  have "map_sum (\<lambda>_. ()) (\<lambda>f. length f < 1000) (coff_write_file stray_input [0x73] ?cv stray_symbols ?n) = Inr True"
    by code_simp
  then obtain f where f: "coff_write_file stray_input [0x73] ?cv stray_symbols ?n = Inr f" "length f < 1000"
    by (cases "coff_write_file stray_input [0x73] ?cv stray_symbols ?n") auto
  have "coff_codeview_line stray_input = Inr ?cv" using stray_no_debug by (simp add: coff_codeview_line_def)
  moreover have "symbol_names_fit_coff_strtab stray_symbols [0x73]"
    by (simp add: symbol_names_fit_coff_strtab_def stray_symbols_def output_symbol_link_name_def)
  moreover have "coff_relocations_have_symbols (oi_relocations stray_input) stray_symbols"
    by (simp add: stray_fields coff_relocations_have_symbols_def)
  moreover have "coff_counts stray_input = Inr ?n"
    by (simp add: coff_counts_def Let_def count_relocations_in_section_def stray_fields)
  moreover have "oi_source_name stray_input = Some [0x73]" by (simp add: stray_input_def output_input_def)
  ultimately have "output_write_coff stray_input = Inr f"
    using f(1) stray_collected by (simp add: output_write_coff_def Let_def)
  then show thesis using f(2) that by simp
qed

text \<open>
  The label is in the data section at its start, both passes accept the source, and in the object a
  symbol of its name stands at the start of the text.
\<close>

theorem empty_section_label_elf:
  "\<exists>f. assembled stray_source
    \<and> symtable_lookup_ex (symtable (pass1_run stray_source)) [0x64] = Some (0, SYMBOL_SECTION_DATA)
    \<and> output_write_elf64 stray_input = Inr f
    \<and> map_option (map (\<lambda>y. (y_name y, y_section y, y_value y))) (Option.bind (elf_read f) elf_symbols)
        = Some [([], [], 0), ([0x64], name_text, 0)]"
proof -
  obtain f where f: "output_write_elf64 stray_input = Inr f" "length f < 2 ^ 32" by (rule stray_elf)
  have "size_t_input stray_input" "symbols_fit stray_symbols"
    using stray_fields(7-9) by (simp_all add: size_t_input_def symbols_fit_def stray_symbols_def stray_fields(4))
  then have "Option.bind (elf_read f) elf_symbols = Some (symbols_view stray_input stray_symbols)"
    by (rule elf_symbols_written [OF f _ stray_collected])
  then show ?thesis
    using f(1) stray_assembled stray_label stray_no_debug
    by (simp add: symbols_view_def symbol_view_def stray_symbols_def symbol_home_def section_present_def stray_fields)
qed

theorem empty_section_label_coff:
  "\<exists>f secs syms. assembled stray_source
    \<and> symtable_lookup_ex (symtable (pass1_run stray_source)) [0x64] = Some (0, SYMBOL_SECTION_DATA)
    \<and> output_write_coff stray_input = Inr f \<and> coff_read f = Some (secs, syms)
    \<and> map (\<lambda>y. (cy_name y, cy_section y, cy_value y)) syms = [([0x73], [], 0), ([0x64], name_text, 0)]"
proof -
  obtain f where f: "output_write_coff stray_input = Inr f" "length f < 2 ^ 32" by (rule stray_coff)
  have n: "coff_source_name stray_input = [0x73]" by (simp add: coff_source_name_def stray_input_def output_input_def)
  have s: "coff_symbols_fit (coff_source_name stray_input) stray_symbols" "oi_bss_size stray_input < 2 ^ 32"
    "\<forall>sec. \<forall>r \<in> set (relas_in stray_input sec). rel_offset r < 2 ^ 32"
    by (simp_all add: n coff_symbols_fit_def stray_symbols_def stray_fields relas_in_def)
  show ?thesis
    using coff_file_read [OF f s(2) stray_collected s(1,3)] f(1) stray_assembled stray_label stray_no_debug
    unfolding n
    by (auto simp: coff_symbols_view_def coff_symbol_view_def stray_symbols_def coff_home_def section_present_def stray_fields)
qed

end
