(* ===== verification/File_Paths.thy ===== *)
theory File_Paths
  imports Prelude
begin

text \<open>
  When two paths name the same file: the half of \<^verbatim>\<open>src/src/io/file.c\<close> for systems other than Windows.
  The operating system is a parameter: the working directory, and what \<^verbatim>\<open>stat\<close> answers. Allocation
  inside these functions succeeds; running out of memory is only an answer of \<^verbatim>\<open>getcwd\<close>'s loop.
\<close>

section \<open>Normalized paths\<close>

datatype IoPathIdentity = IO_PATH_IDENTITY_DIFFERENT | IO_PATH_IDENTITY_UNKNOWN | IO_PATH_IDENTITY_SAME

text \<open>The directory, an error of \<^verbatim>\<open>getcwd\<close>, or no memory for its buffer.\<close>

datatype WorkingDirectory = CWD "u8 list" | CWD_FAILED | CWD_NO_MEMORY

abbreviation (input) SLASH :: u8 where "SLASH \<equiv> 0x2F"
abbreviation (input) DOT :: u8 where "DOT \<equiv> 0x2E"

text \<open>A result is the path, or \<open>None\<close> with the flag that memory was exhausted.\<close>

definition absolute_posix_path :: "WorkingDirectory \<Rightarrow> u8 list \<Rightarrow> bool + u8 list" where
  "absolute_posix_path wd path =
     (if path \<noteq> [] \<and> hd path = SLASH then Inr path
      else case wd of
        CWD_FAILED \<Rightarrow> Inl False
      | CWD_NO_MEMORY \<Rightarrow> Inl True
      | CWD cwd \<Rightarrow>
          if length cwd > 2 ^ 64 - 1 - length path - 2 then Inl False
          else Inr (cwd @ SLASH # path))"

text \<open>
  The buffer is the list of its first \<^verbatim>\<open>output\<close> bytes. For a parent segment the code walks back to the
  slash before the last segment and drops it, but never the first one.
\<close>

function walk_to_slash :: "u8 list \<Rightarrow> u8 list" where
  "walk_to_slash out = (if length out > 1 \<and> last out \<noteq> SLASH then walk_to_slash (butlast out) else out)"
  by pat_completeness auto
termination by (relation "measure length") auto

declare walk_to_slash.simps [simp del]

definition parent_path :: "u8 list \<Rightarrow> u8 list" where
  "parent_path out = (let out = walk_to_slash out in if length out > 1 then butlast out else out)"

definition append_segment :: "u8 list \<Rightarrow> u8 list \<Rightarrow> u8 list" where
  "append_segment out seg = (if length out > 1 then out @ [SLASH] else out) @ seg"

lemma segment_shorter:
  assumes "dropWhile (\<lambda>b. b = SLASH) inp \<noteq> []"
  shows "length (dropWhile (\<lambda>b. b \<noteq> SLASH) (dropWhile (\<lambda>b. b = SLASH) inp)) < length inp"
proof -
  let ?i = "dropWhile (\<lambda>b. b = SLASH) inp"
  obtain x xs where i: "?i = x # xs" using assms by (cases ?i) auto
  have "x \<noteq> SLASH" using hd_dropWhile [OF assms] i by simp
  then have "length (dropWhile (\<lambda>b. b \<noteq> SLASH) ?i) \<le> length xs" by (simp add: i length_dropWhile_le)
  moreover have "length ?i \<le> length inp" by (rule length_dropWhile_le)
  ultimately show ?thesis by (simp add: i)
qed

text \<open>The loop over the segments of the rest of the absolute path.\<close>

function normalize_from :: "u8 list \<Rightarrow> u8 list \<Rightarrow> u8 list" where
  "normalize_from out inp =
     (let inp = dropWhile (\<lambda>b. b = SLASH) inp in
      if inp = [] then out
      else let seg = takeWhile (\<lambda>b. b \<noteq> SLASH) inp; inp' = dropWhile (\<lambda>b. b \<noteq> SLASH) inp in
        if seg = [DOT] then normalize_from out inp'
        else if seg = [DOT, DOT] then normalize_from (parent_path out) inp'
        else normalize_from (append_segment out seg) inp')"
  by pat_completeness auto

termination by (relation "measure (\<lambda>(out, inp). length inp)") (simp_all add: segment_shorter)

declare normalize_from.simps [simp del]

definition normalized_posix_path :: "WorkingDirectory \<Rightarrow> u8 list \<Rightarrow> bool + u8 list" where
  "normalized_posix_path wd path =
     (case absolute_posix_path wd path of Inl e \<Rightarrow> Inl e | Inr absolute \<Rightarrow> Inr (normalize_from [SLASH] absolute))"

text \<open>Whether one of the two results, computed in order, ran out of memory.\<close>

definition noting_exhaustion :: "bool + u8 list \<Rightarrow> bool \<Rightarrow> bool" where
  "noting_exhaustion result exhausted = (case result of Inl e \<Rightarrow> e \<or> exhausted | Inr _ \<Rightarrow> exhausted)"

definition io_path_identity ::
  "WorkingDirectory \<Rightarrow> (u8 list \<Rightarrow> (nat \<times> nat) option) \<Rightarrow> u8 list \<Rightarrow> u8 list \<Rightarrow> IoPathIdentity" where
  "io_path_identity wd stat left right =
     (if left = [] \<or> right = [] then IO_PATH_IDENTITY_DIFFERENT
      else if left = right then IO_PATH_IDENTITY_SAME
      else if stat left \<noteq> None \<and> stat left = stat right then IO_PATH_IDENTITY_SAME
      else
        let full_left = normalized_posix_path wd left;
            full_right = normalized_posix_path wd right;
            exhausted = noting_exhaustion full_right (noting_exhaustion full_left False);
            same = (case (full_left, full_right) of (Inr l, Inr r) \<Rightarrow> l = r | _ \<Rightarrow> False)
        in if same then IO_PATH_IDENTITY_SAME
           else if exhausted then IO_PATH_IDENTITY_UNKNOWN else IO_PATH_IDENTITY_DIFFERENT)"

section \<open>The meaning of a path\<close>

text \<open>The segments between slashes, and the directories they lead through from the root.\<close>

fun path_segments :: "u8 list \<Rightarrow> u8 list \<Rightarrow> u8 list list" where
  "path_segments seg [] = (if seg = [] then [] else [seg])"
| "path_segments seg (b # bs) =
     (if b = SLASH then (if seg = [] then [] else [seg]) @ path_segments [] bs else path_segments (seg @ [b]) bs)"

definition enter :: "u8 list list \<Rightarrow> u8 list \<Rightarrow> u8 list list" where
  "enter dirs seg = (if seg = [DOT] then dirs else if seg = [DOT, DOT] then butlast dirs else dirs @ [seg])"

definition resolve_path :: "u8 list \<Rightarrow> u8 list list" where
  "resolve_path path = foldl enter [] (path_segments [] path)"

text \<open>The path of a list of directories.\<close>

definition path_of :: "u8 list list \<Rightarrow> u8 list" where
  "path_of dirs = (if dirs = [] then [SLASH] else concat (map (\<lambda>d. SLASH # d) dirs))"

definition dirs_ok :: "u8 list list \<Rightarrow> bool" where
  "dirs_ok dirs \<longleftrightarrow> (\<forall>d \<in> set dirs. d \<noteq> [] \<and> SLASH \<notin> set d)"

lemma path_segments_seg:
  "SLASH \<notin> set seg \<Longrightarrow> seg \<noteq> [] \<Longrightarrow> path_segments seg bs
     = (seg @ takeWhile (\<lambda>b. b \<noteq> SLASH) bs) # path_segments [] (dropWhile (\<lambda>b. b \<noteq> SLASH) bs)"
  by (induction bs arbitrary: seg) auto

lemma path_segments_slashes: "path_segments [] (dropWhile (\<lambda>b. b = SLASH) bs) = path_segments [] bs"
  by (induction bs) auto

lemma path_segments_step:
  assumes "dropWhile (\<lambda>b. b = SLASH) bs = x # xs"
  shows "path_segments [] bs = takeWhile (\<lambda>b. b \<noteq> SLASH) (x # xs)
     # path_segments [] (dropWhile (\<lambda>b. b \<noteq> SLASH) (x # xs))"
proof -
  have "x \<noteq> SLASH" using assms hd_dropWhile [of "\<lambda>b. b = SLASH" bs] by simp
  then have "path_segments [] (x # xs) = takeWhile (\<lambda>b. b \<noteq> SLASH) (x # xs)
     # path_segments [] (dropWhile (\<lambda>b. b \<noteq> SLASH) (x # xs))" by (simp add: path_segments_seg)
  then show ?thesis using path_segments_slashes [of bs] assms by simp
qed

lemma walk_to_slash_segment:
  assumes "SLASH \<notin> set seg" "out \<noteq> []" "last out = SLASH"
  shows "walk_to_slash (out @ seg) = out"
  using assms
proof (induction seg rule: rev_induct)
  case Nil
  then show ?case by (simp add: walk_to_slash.simps [of out])
next
  case (snoc b seg)
  then show ?case
    by (subst walk_to_slash.simps) (auto simp: butlast_append Suc_le_eq)
qed

lemma path_of_snoc: "path_of (dirs @ [d]) = (if dirs = [] then [] else path_of dirs) @ SLASH # d"
  by (simp add: path_of_def)

lemma path_of_first: "hd (path_of dirs) = SLASH \<and> path_of dirs \<noteq> []"
  by (cases dirs) (simp_all add: path_of_def)

lemma long_path: "dirs_ok dirs \<Longrightarrow> length (path_of dirs) > 1 \<longleftrightarrow> dirs \<noteq> []"
  by (cases dirs) (auto simp: path_of_def dirs_ok_def)

lemma append_path_of:
  assumes "dirs_ok dirs"
  shows "append_segment (path_of dirs) seg = path_of (dirs @ [seg])"
  using long_path [OF assms] by (auto simp: append_segment_def path_of_snoc) (simp add: path_of_def)

lemma parent_path_of:
  assumes "dirs_ok dirs"
  shows "parent_path (path_of dirs) = path_of (butlast dirs)"
proof (cases dirs rule: rev_cases)
  case Nil
  then show ?thesis by (simp add: parent_path_def path_of_def walk_to_slash.simps [of "[_]"])
next
  case (snoc ds d)
  have d: "SLASH \<notin> set d" "dirs_ok ds" using assms snoc by (simp_all add: dirs_ok_def)
  show ?thesis
  proof (cases "ds = []")
    case True
    have "walk_to_slash ([SLASH] @ d) = [SLASH]" by (rule walk_to_slash_segment) (use d in simp_all)
    then show ?thesis using snoc True by (simp add: parent_path_def path_of_def)
  next
    case False
    have "walk_to_slash ((path_of ds @ [SLASH]) @ d) = path_of ds @ [SLASH]"
      by (rule walk_to_slash_segment) (use d in simp_all)
    then show ?thesis using snoc False path_of_first [of ds] by (simp add: parent_path_def path_of_snoc)
  qed
qed

lemma segment_ok: "takeWhile (\<lambda>b. b \<noteq> SLASH) bs \<noteq> [] \<Longrightarrow> dirs_ok dirs \<Longrightarrow>
    dirs_ok (dirs @ [takeWhile (\<lambda>b. b \<noteq> SLASH) bs])"
  using set_takeWhileD by (fastforce simp: dirs_ok_def)

lemma normalize_resolves:
  "dirs_ok dirs \<Longrightarrow> normalize_from (path_of dirs) inp = path_of (foldl enter dirs (path_segments [] inp))
     \<and> dirs_ok (foldl enter dirs (path_segments [] inp))"
proof (induction "path_of dirs" inp arbitrary: dirs rule: normalize_from.induct)
  case (1 inp)
  show ?case
  proof (cases "dropWhile (\<lambda>b. b = SLASH) inp")
    case Nil
    have "path_segments [] inp = []" using path_segments_slashes [of inp] unfolding Nil by simp
    then show ?thesis using Nil 1(4) by (simp add: normalize_from.simps [of _ inp])
  next
    case (Cons x xs)
    let ?i = "x # xs"
    let ?seg = "takeWhile (\<lambda>b. b \<noteq> SLASH) ?i" and ?r = "dropWhile (\<lambda>b. b \<noteq> SLASH) ?i"
    have ne: "?seg \<noteq> []" using Cons hd_dropWhile [of "\<lambda>b. b = SLASH" inp] by simp
    note seg = path_segments_step [OF Cons]
    note ih = 1(1-3) [OF Cons [symmetric] _ refl refl]
    show ?thesis
    proof (cases "?seg = [DOT]")
      case True
      then show ?thesis
        using ih(1) [OF _ True refl 1(4)] Cons seg
        by (simp add: normalize_from.simps [of _ inp] enter_def)
    next
      case dot: False
      show ?thesis
      proof (cases "?seg = [DOT, DOT]")
        case True
        have "dirs_ok (butlast dirs)" using 1(4) in_set_butlastD by (fastforce simp: dirs_ok_def)
        then show ?thesis
          using ih(2) [OF _ dot True, of "butlast dirs"] Cons seg dot True parent_path_of [OF 1(4)]
          by (simp add: normalize_from.simps [of _ inp] enter_def)
      next
        case False
        then show ?thesis
          using ih(3) [OF _ dot False, of "dirs @ [?seg]"] Cons seg dot append_path_of [OF 1(4)] segment_ok [OF ne 1(4)]
          by (simp add: normalize_from.simps [of _ inp] enter_def)
      qed
    qed
  qed
qed

lemma segments_path_of: "dirs_ok dirs \<Longrightarrow> path_segments [] (path_of dirs) = dirs"
proof -
  have "path_segments [] (concat (map (\<lambda>d. SLASH # d) ds)) = ds" if "dirs_ok ds" for ds
    using that
  proof (induction ds)
    case (Cons d ds)
    have d: "SLASH \<notin> set d" "d \<noteq> []" "dirs_ok ds" using Cons.prems by (auto simp: dirs_ok_def)
    let ?r = "concat (map (\<lambda>d. SLASH # d) ds)"
    have r: "takeWhile (\<lambda>b. b \<noteq> SLASH) ?r = []" "dropWhile (\<lambda>b. b \<noteq> SLASH) ?r = ?r" by (cases ds; simp)+
    have "\<forall>b \<in> set d. b \<noteq> SLASH" using d(1) by auto
    then have "takeWhile (\<lambda>b. b \<noteq> SLASH) (d @ ?r) = d" "dropWhile (\<lambda>b. b \<noteq> SLASH) (d @ ?r) = ?r"
      using r by (simp_all add: takeWhile_append2 dropWhile_append2)
    moreover obtain x xs where "d @ ?r = x # xs" "x \<noteq> SLASH" using d(1,2) by (cases d) auto
    ultimately show ?case using Cons.IH [OF d(3)] path_segments_step [of "d @ ?r" x xs] by simp
  qed simp
  then show "dirs_ok dirs \<Longrightarrow> ?thesis" by (simp add: path_of_def)
qed

lemma normalized_path:
  "normalized_posix_path wd path = (case absolute_posix_path wd path of Inl e \<Rightarrow> Inl e
     | Inr absolute \<Rightarrow> Inr (path_of (resolve_path absolute)))"
proof -
  have "normalize_from [SLASH] absolute = path_of (resolve_path absolute)" for absolute
    using normalize_resolves [of "[]" absolute] by (simp add: resolve_path_def dirs_ok_def path_of_def [of "[]"])
  then show ?thesis by (simp add: normalized_posix_path_def split: sum.split)
qed

lemma path_of_eq: "path_of (resolve_path a) = path_of (resolve_path b) \<longleftrightarrow> resolve_path a = resolve_path b"
proof -
  have "dirs_ok (resolve_path a)" for a
    using normalize_resolves [of "[]" a] by (simp add: resolve_path_def dirs_ok_def [of "[]"])
  then show ?thesis using segments_path_of by metis
qed

lemma path_identity_meaning:
  assumes "left \<noteq> []" "right \<noteq> []" "left \<noteq> right" "stat left = None \<or> stat left \<noteq> stat right"
  shows "io_path_identity wd stat left right =
    (case (absolute_posix_path wd left, absolute_posix_path wd right) of
       (Inr l, Inr r) \<Rightarrow> if resolve_path l = resolve_path r then IO_PATH_IDENTITY_SAME else IO_PATH_IDENTITY_DIFFERENT
     | _ \<Rightarrow> if wd = CWD_NO_MEMORY then IO_PATH_IDENTITY_UNKNOWN else IO_PATH_IDENTITY_DIFFERENT)"
proof -
  have "absolute_posix_path wd p = Inl e \<Longrightarrow> e = (wd = CWD_NO_MEMORY)" for p e
    by (cases wd) (auto simp: absolute_posix_path_def split: if_splits)
  then show ?thesis
    using assms
    by (cases "absolute_posix_path wd left"; cases "absolute_posix_path wd right")
      (auto simp: io_path_identity_def Let_def normalized_path noting_exhaustion_def path_of_eq)
qed

text \<open>
  C13. Two different paths that do not name one existing file are the same exactly when their
  absolute forms lead through the same directories, whatever slashes, single dots and parent
  segments they are written with; and when the working directory could not be had for lack of
  memory the answer is never that they differ.
\<close>

theorem path_identity_resolves:
  assumes "left \<noteq> []" "right \<noteq> []" "left \<noteq> right" "stat left = None \<or> stat left \<noteq> stat right"
  shows "io_path_identity wd stat left right =
    (case (absolute_posix_path wd left, absolute_posix_path wd right) of
       (Inr l, Inr r) \<Rightarrow> if resolve_path l = resolve_path r then IO_PATH_IDENTITY_SAME else IO_PATH_IDENTITY_DIFFERENT
     | _ \<Rightarrow> if wd = CWD_NO_MEMORY then IO_PATH_IDENTITY_UNKNOWN else IO_PATH_IDENTITY_DIFFERENT)"
  using assms by (rule path_identity_meaning)

text \<open>In the directory "/a", the paths "b/../c" and "//a/./c".\<close>

theorem path_identity_resolves_witness:
  "io_path_identity (CWD [0x2F, 0x61]) (\<lambda>_. None) [0x62, 0x2F, 0x2E, 0x2E, 0x2F, 0x63] [0x2F, 0x2F, 0x61, 0x2F, 0x2E, 0x2F, 0x63]
     = IO_PATH_IDENTITY_SAME"
  using path_identity_resolves [of "[0x62, 0x2F, 0x2E, 0x2E, 0x2F, 0x63]" "[0x2F, 0x2F, 0x61, 0x2F, 0x2E, 0x2F, 0x63]"
      "\<lambda>_. None" "CWD [0x2F, 0x61]"]
  by (simp add: absolute_posix_path_def resolve_path_def enter_def)

end
