(* ===== verification/Args.thy ===== *)
theory Args
  imports Coff
begin

text \<open>
  The command line (\<^verbatim>\<open>src/src/cli/args.c\<close>). An argument is a C string; \<^verbatim>\<open>argv\<close> is the list of all of
  them, the name of the program first. The messages are the constructors of a datatype; printing the
  usage, the version and the interface information is not modelled.
\<close>

section \<open>Spellings\<close>

definition OPT_HELP :: cstr where
  "OPT_HELP = [0x2D, 0x2D, 0xD9, 0x85, 0xD8, 0xB3, 0xD8, 0xA7, 0xD8, 0xB9, 0xD8, 0xAF, 0xD8, 0xA9]"
definition OPT_HELP_SHORT :: cstr where
  "OPT_HELP_SHORT = [0x2D, 0xD9, 0x85]"
definition OPT_VERSION :: cstr where
  "OPT_VERSION = [0x2D, 0x2D, 0xD8, 0xA5, 0xD8, 0xB5, 0xD8, 0xAF, 0xD8, 0xA7, 0xD8, 0xB1]"
definition OPT_API_INFO :: cstr where
  "OPT_API_INFO = [0x2D, 0x2D, 0xD9, 0x85, 0xD8, 0xB9, 0xD9, 0x84, 0xD9, 0x88, 0xD9, 0x85, 0xD8, 0xA7,
    0xD8, 0xAA, 0x2D, 0xD8, 0xA7, 0xD9, 0x84, 0xD9, 0x88, 0xD8, 0xA7, 0xD8, 0xAC, 0xD9, 0x87,
    0xD8, 0xA9, 0x3D, 0x6A, 0x73, 0x6F, 0x6E]"
definition OPT_VERBOSE :: cstr where
  "OPT_VERBOSE = [0x2D, 0x2D, 0xD8, 0xAA, 0xD9, 0x81, 0xD8, 0xB5, 0xD9, 0x8A, 0xD9, 0x84]"
definition OPT_VERBOSE_SHORT :: cstr where
  "OPT_VERBOSE_SHORT = [0x2D, 0xD8, 0xAA]"
definition OPT_OUTPUT :: cstr where
  "OPT_OUTPUT = [0x2D, 0x2D, 0xD8, 0xAE, 0xD8, 0xB1, 0xD8, 0xAC]"
definition OPT_OUTPUT_SHORT :: cstr where
  "OPT_OUTPUT_SHORT = [0x2D, 0xD8, 0xAE]"
definition OPT_LISTING :: cstr where
  "OPT_LISTING = [0x2D, 0x2D, 0xD9, 0x83, 0xD8, 0xB4, 0xD9, 0x81]"
definition OPT_LISTING_SHORT :: cstr where
  "OPT_LISTING_SHORT = [0x2D, 0xD9, 0x83]"
definition OPT_SOURCE_NAME :: cstr where
  "OPT_SOURCE_NAME = [0x2D, 0x2D, 0xD8, 0xA7, 0xD8, 0xB3, 0xD9, 0x85, 0x2D, 0xD8, 0xA7, 0xD9, 0x84, 0xD9,
    0x85, 0xD8, 0xB5, 0xD8, 0xAF, 0xD8, 0xB1]"
definition OPT_FORMAT :: cstr where
  "OPT_FORMAT = [0x2D, 0x2D, 0xD8, 0xB5, 0xD9, 0x8A, 0xD8, 0xBA, 0xD8, 0xA9]"
definition OPT_FORMAT_SHORT :: cstr where
  "OPT_FORMAT_SHORT = [0x2D, 0xD8, 0xB5]"
definition FORMAT_ELF64_NAME :: cstr where
  "FORMAT_ELF64_NAME = [0xD8, 0xA5, 0xD9, 0x84, 0xD9, 0x81, 0x36, 0x34]"
definition FORMAT_COFF_NAME :: cstr where
  "FORMAT_COFF_NAME = [0xD9, 0x83, 0xD9, 0x88, 0xD9, 0x81]"
definition SOURCE_SUFFIX :: cstr where
  "SOURCE_SUFFIX = [0x2E, 0xD9, 0x86, 0xD8, 0xB8, 0xD9, 0x85]"
definition LEGACY_SUFFIX :: cstr where
  "LEGACY_SUFFIX = [0x2E, 0xD9, 0x85, 0xD8, 0xAC, 0xD9, 0x85, 0xD8, 0xB9]"


section \<open>Arguments\<close>

datatype CliMessage =
    CLI_LEGACY_OUTPUT
  | CLI_LEGACY_LISTING
  | CLI_LEGACY_FORMAT
  | CLI_LEGACY_VERBOSE
  | CLI_LEGACY_HELP
  | CLI_LEGACY_VERSION
  | CLI_OUTPUT_VALUE
  | CLI_LISTING_VALUE
  | CLI_SOURCE_NAME_VALUE
  | CLI_FORMAT_VALUE
  | CLI_FORMAT_OLD_ELF64
  | CLI_FORMAT_OLD_COFF
  | CLI_FORMAT_UNKNOWN
  | CLI_UNKNOWN_OPTION
  | CLI_ONE_SOURCE
  | CLI_NO_SOURCE
  | CLI_OLD_SUFFIX
  | CLI_BAD_SUFFIX

record CliArgs =
  ca_source_path :: "cstr option"
  ca_logical_source_name :: "cstr option"
  ca_output_path :: "cstr option"
  ca_listing_path :: "cstr option"
  ca_format :: OutputFormat
  ca_verbose :: bool
  ca_help :: bool
  ca_version :: bool
  ca_api_info :: bool
  ca_valid :: bool
  ca_error_msg :: "CliMessage option"

definition path_has_suffix :: "cstr \<Rightarrow> cstr \<Rightarrow> bool" where
  "path_has_suffix path suffix \<longleftrightarrow>
     length path \<ge> length suffix \<and> drop (length path - length suffix) path = suffix"

definition legacy_option_error :: "cstr \<Rightarrow> CliMessage option" where
  "legacy_option_error option =
     (if option = ascii ''-o'' \<or> option = ascii ''--output'' then Some CLI_LEGACY_OUTPUT
      else if option = ascii ''-l'' \<or> option = ascii ''--listing'' then Some CLI_LEGACY_LISTING
      else if option = ascii ''-f'' \<or> option = ascii ''--format'' then Some CLI_LEGACY_FORMAT
      else if option = ascii ''-v'' \<or> option = ascii ''--verbose'' then Some CLI_LEGACY_VERBOSE
      else if option = ascii ''-h'' \<or> option = ascii ''--help'' then Some CLI_LEGACY_HELP
      else if option = ascii ''--version'' then Some CLI_LEGACY_VERSION
      else None)"

text \<open>The default format outside Windows.\<close>

definition cli_default :: CliArgs where
  "cli_default = \<lparr>ca_source_path = None, ca_logical_source_name = None, ca_output_path = None,
     ca_listing_path = None, ca_format = OUTPUT_FORMAT_ELF64, ca_verbose = False, ca_help = False,
     ca_version = False, ca_api_info = False, ca_valid = True, ca_error_msg = None\<rparr>"

definition cli_fail :: "CliArgs \<Rightarrow> CliMessage \<Rightarrow> CliArgs" where
  "cli_fail args m = args\<lparr>ca_valid := False, ca_error_msg := Some m\<rparr>"

text \<open>The checks after the loop.\<close>

definition cli_finish :: "CliArgs \<Rightarrow> CliArgs" where
  "cli_finish args =
     (case ca_source_path args of
        None \<Rightarrow> if \<not> ca_help args \<and> \<not> ca_version args \<and> \<not> ca_api_info args then cli_fail args CLI_NO_SOURCE else args
      | Some path \<Rightarrow>
          if \<not> path_has_suffix path SOURCE_SUFFIX
          then cli_fail args (if path_has_suffix path LEGACY_SUFFIX then CLI_OLD_SUFFIX else CLI_BAD_SUFFIX)
          else args)"

definition cli_format :: "CliArgs \<Rightarrow> cstr \<Rightarrow> CliMessage + CliArgs" where
  "cli_format args v =
     (if v = FORMAT_ELF64_NAME then Inr (args\<lparr>ca_format := OUTPUT_FORMAT_ELF64\<rparr>)
      else if v = FORMAT_COFF_NAME then Inr (args\<lparr>ca_format := OUTPUT_FORMAT_COFF\<rparr>)
      else if v = ascii ''elf64'' then Inl CLI_FORMAT_OLD_ELF64
      else if v = ascii ''coff'' then Inl CLI_FORMAT_OLD_COFF
      else Inl CLI_FORMAT_UNKNOWN)"

text \<open>
  One iteration on the argument \<open>a\<close>: the early return with its value, or the settings and the
  arguments the next iteration starts with.
\<close>

definition cli_step :: "CliArgs \<Rightarrow> cstr \<Rightarrow> cstr list \<Rightarrow> CliArgs + CliArgs \<times> cstr list" where
  "cli_step args a rest =
     (if a = OPT_HELP \<or> a = OPT_HELP_SHORT then Inl (args\<lparr>ca_help := True\<rparr>)
      else if a = OPT_VERSION then Inl (args\<lparr>ca_version := True\<rparr>)
      else if a = OPT_API_INFO then Inl (args\<lparr>ca_api_info := True\<rparr>)
      else if a = OPT_VERBOSE \<or> a = OPT_VERBOSE_SHORT then Inr (args\<lparr>ca_verbose := True\<rparr>, rest)
      else if a = OPT_OUTPUT \<or> a = OPT_OUTPUT_SHORT then
        (case rest of [] \<Rightarrow> Inl (cli_fail args CLI_OUTPUT_VALUE)
         | v # rest' \<Rightarrow> Inr (args\<lparr>ca_output_path := Some v\<rparr>, rest'))
      else if a = OPT_LISTING \<or> a = OPT_LISTING_SHORT then
        (case rest of [] \<Rightarrow> Inl (cli_fail args CLI_LISTING_VALUE)
         | v # rest' \<Rightarrow> Inr (args\<lparr>ca_listing_path := Some v\<rparr>, rest'))
      else if a = OPT_SOURCE_NAME then
        (case rest of [] \<Rightarrow> Inl (cli_fail args CLI_SOURCE_NAME_VALUE)
         | v # rest' \<Rightarrow> if v = [] then Inl (cli_fail args CLI_SOURCE_NAME_VALUE)
                       else Inr (args\<lparr>ca_logical_source_name := Some v\<rparr>, rest'))
      else if a = OPT_FORMAT \<or> a = OPT_FORMAT_SHORT then
        (case rest of [] \<Rightarrow> Inl (cli_fail args CLI_FORMAT_VALUE)
         | v # rest' \<Rightarrow> (case cli_format args v of Inl m \<Rightarrow> Inl (cli_fail args m) | Inr args \<Rightarrow> Inr (args, rest')))
      else case legacy_option_error a of
          Some m \<Rightarrow> Inl (cli_fail args m)
        | None \<Rightarrow>
            if a \<noteq> [] \<and> hd a = 0x2D then Inl (cli_fail args CLI_UNKNOWN_OPTION)
            else if ca_source_path args \<noteq> None then Inl (cli_fail args CLI_ONE_SOURCE)
            else Inr (args\<lparr>ca_source_path := Some a\<rparr>, rest))"

lemma cli_step_shorter: "cli_step args a rest = Inr (args', rest') \<Longrightarrow> length rest' < Suc (length rest)"
  by (auto simp: cli_step_def split: if_splits list.splits sum.splits option.splits)

text \<open>The loop over the arguments.\<close>

function cli_loop :: "CliArgs \<Rightarrow> cstr list \<Rightarrow> CliArgs" where
  "cli_loop args [] = cli_finish args"
| "cli_loop args (a # rest) =
     (case cli_step args a rest of Inl args \<Rightarrow> args | Inr (args, rest') \<Rightarrow> cli_loop args rest')"
  by pat_completeness auto
termination by (relation "measure (\<lambda>(args, rest). length rest)") (auto dest: cli_step_shorter)

definition cli_parse :: "cstr list \<Rightarrow> CliArgs" where
  "cli_parse argv = cli_loop cli_default (tl argv)"

section \<open>Reading back a command line\<close>

text \<open>What a user writes: an option in its long or short spelling, or the source file.\<close>

datatype CliItem =
    Verbose bool
  | Output bool cstr
  | Listing_file bool cstr
  | Source_name cstr
  | Format bool OutputFormat
  | Source cstr

fun item_text :: "CliItem \<Rightarrow> cstr list" where
  "item_text (Verbose long) = [if long then OPT_VERBOSE else OPT_VERBOSE_SHORT]"
| "item_text (Output long v) = [if long then OPT_OUTPUT else OPT_OUTPUT_SHORT, v]"
| "item_text (Listing_file long v) = [if long then OPT_LISTING else OPT_LISTING_SHORT, v]"
| "item_text (Source_name v) = [OPT_SOURCE_NAME, v]"
| "item_text (Format long f) = [if long then OPT_FORMAT else OPT_FORMAT_SHORT,
     case f of OUTPUT_FORMAT_ELF64 \<Rightarrow> FORMAT_ELF64_NAME | OUTPUT_FORMAT_COFF \<Rightarrow> FORMAT_COFF_NAME]"
| "item_text (Source v) = [v]"

fun item_effect :: "CliArgs \<Rightarrow> CliItem \<Rightarrow> CliArgs" where
  "item_effect args (Verbose long) = args\<lparr>ca_verbose := True\<rparr>"
| "item_effect args (Output long v) = args\<lparr>ca_output_path := Some v\<rparr>"
| "item_effect args (Listing_file long v) = args\<lparr>ca_listing_path := Some v\<rparr>"
| "item_effect args (Source_name v) = args\<lparr>ca_logical_source_name := Some v\<rparr>"
| "item_effect args (Format long f) = args\<lparr>ca_format := f\<rparr>"
| "item_effect args (Source v) = args\<lparr>ca_source_path := Some v\<rparr>"

fun item_ok :: "CliItem \<Rightarrow> bool" where
  "item_ok (Source_name v) = (v \<noteq> [])"
| "item_ok (Source v) = (path_has_suffix v SOURCE_SUFFIX \<and> hd v \<noteq> 0x2D)"
| "item_ok _ = True"

fun is_source :: "CliItem \<Rightarrow> bool" where
  "is_source (Source v) = True"
| "is_source _ = False"

lemmas option_texts = OPT_HELP_def OPT_HELP_SHORT_def OPT_VERSION_def OPT_API_INFO_def OPT_VERBOSE_def
  OPT_VERBOSE_SHORT_def OPT_OUTPUT_def OPT_OUTPUT_SHORT_def OPT_LISTING_def OPT_LISTING_SHORT_def
  OPT_SOURCE_NAME_def OPT_FORMAT_def OPT_FORMAT_SHORT_def

lemma ascii_dash: "ascii (CHR ''-'' # s) = 0x2D # ascii s"
  by (simp add: ascii_def)

text \<open>Every option begins with a dash, so a source path is none of them.\<close>

lemma options_dash: "\<forall>v \<in> {OPT_HELP, OPT_HELP_SHORT, OPT_VERSION, OPT_API_INFO, OPT_VERBOSE, OPT_VERBOSE_SHORT,
    OPT_OUTPUT, OPT_OUTPUT_SHORT, OPT_LISTING, OPT_LISTING_SHORT, OPT_SOURCE_NAME, OPT_FORMAT, OPT_FORMAT_SHORT}. hd v = 0x2D"
  by (simp add: option_texts)

lemma legacy_dash: "legacy_option_error v \<noteq> None \<Longrightarrow> hd v = 0x2D"
  by (auto simp: legacy_option_error_def ascii_dash split: if_splits)

lemma source_step:
  assumes "hd v \<noteq> 0x2D" "ca_source_path args = None"
  shows "cli_step args v rest = Inr (args\<lparr>ca_source_path := Some v\<rparr>, rest)"
proof -
  have "v \<noteq> OPT_HELP" "v \<noteq> OPT_HELP_SHORT" "v \<noteq> OPT_VERSION" "v \<noteq> OPT_API_INFO" "v \<noteq> OPT_VERBOSE"
    "v \<noteq> OPT_VERBOSE_SHORT" "v \<noteq> OPT_OUTPUT" "v \<noteq> OPT_OUTPUT_SHORT" "v \<noteq> OPT_LISTING" "v \<noteq> OPT_LISTING_SHORT"
    "v \<noteq> OPT_SOURCE_NAME" "v \<noteq> OPT_FORMAT" "v \<noteq> OPT_FORMAT_SHORT" "legacy_option_error v = None"
    using assms(1) options_dash legacy_dash by blast+
  then show ?thesis using assms by (simp add: cli_step_def)
qed

text \<open>The spellings are different from each other.\<close>

lemma options_distinct: "distinct [OPT_FORMAT_SHORT, OPT_FORMAT, OPT_SOURCE_NAME, OPT_LISTING_SHORT, OPT_LISTING,
    OPT_OUTPUT_SHORT, OPT_OUTPUT, OPT_VERBOSE_SHORT, OPT_VERBOSE, OPT_API_INFO, OPT_VERSION, OPT_HELP_SHORT, OPT_HELP]"
  by (simp add: option_texts)

lemma cli_step_options:
  "cli_step args (if long then OPT_VERBOSE else OPT_VERBOSE_SHORT) rest = Inr (args\<lparr>ca_verbose := True\<rparr>, rest)"
    "cli_step args (if long then OPT_OUTPUT else OPT_OUTPUT_SHORT) (v # rest) = Inr (args\<lparr>ca_output_path := Some v\<rparr>, rest)"
    "cli_step args (if long then OPT_LISTING else OPT_LISTING_SHORT) (v # rest) = Inr (args\<lparr>ca_listing_path := Some v\<rparr>, rest)"
    "v \<noteq> [] \<Longrightarrow> cli_step args OPT_SOURCE_NAME (v # rest) = Inr (args\<lparr>ca_logical_source_name := Some v\<rparr>, rest)"
    "cli_step args (if long then OPT_FORMAT else OPT_FORMAT_SHORT) (v # rest) =
       (case cli_format args v of Inl m \<Rightarrow> Inl (cli_fail args m) | Inr args \<Rightarrow> Inr (args, rest))"
  using options_distinct by (cases long; simp add: cli_step_def)+

lemma cli_loop_item:
  assumes "item_ok x" "is_source x \<longrightarrow> ca_source_path args = None"
  shows "cli_loop args (item_text x @ rest) = cli_loop (item_effect args x) rest"
proof (cases x)
  case (Source v)
  then show ?thesis using assms by (simp add: source_step)
next
  case (Format long f)
  then show ?thesis
    by (cases f) (simp_all add: cli_step_options cli_format_def FORMAT_ELF64_NAME_def FORMAT_COFF_NAME_def)
qed (use assms(1) in \<open>simp_all add: cli_step_options\<close>)

lemma item_effect_source: "\<not> is_source x \<Longrightarrow> ca_source_path (item_effect args x) = ca_source_path args"
  by (cases x) simp_all

lemma cli_loop_items:
  assumes "list_all item_ok xs" "length (filter is_source xs) + (if ca_source_path args = None then 0 else 1) \<le> 1"
  shows "cli_loop args (concat (map item_text xs)) = cli_finish (foldl item_effect args xs)"
  using assms
proof (induction xs arbitrary: args)
  case (Cons x xs)
  have s: "is_source x \<longrightarrow> ca_source_path args = None" using Cons.prems(2) by (auto split: if_splits)
  have "cli_loop (item_effect args x) (concat (map item_text xs)) = cli_finish (foldl item_effect (item_effect args x) xs)"
    using Cons.prems s item_effect_source [of x args]
    by (intro Cons.IH) (auto split: if_splits)
  then show ?case using cli_loop_item [of x args] Cons.prems(1) s by simp
qed simp

lemma source_of_items:
  "foldl item_effect args xs = args' \<Longrightarrow> ca_source_path args' \<noteq> None \<Longrightarrow>
     ca_source_path args' = ca_source_path args \<or> Source (the (ca_source_path args')) \<in> set xs"
proof (induction xs arbitrary: args)
  case (Cons x xs)
  then show ?case by (cases x) auto
qed simp

text \<open>
  C14. A command line reads back: options in any order and in either spelling, around exactly one
  source file with the suffix of the language that does not begin with a dash, are parsed to exactly
  the settings they name, the last one of each kind, and the result is valid.
\<close>

theorem cli_reads_back:
  assumes "list_all item_ok xs" "length (filter is_source xs) = 1"
  shows "cli_parse (prog # concat (map item_text xs)) = foldl item_effect cli_default xs
    \<and> ca_valid (cli_parse (prog # concat (map item_text xs)))"
proof -
  let ?r = "foldl item_effect cli_default xs"
  have p: "cli_parse (prog # concat (map item_text xs)) = cli_finish ?r"
    using assms by (simp add: cli_parse_def cli_loop_items cli_default_def)
  obtain v where v: "Source v \<in> set xs"
  proof -
    have "filter is_source xs \<noteq> []" using assms(2) by auto
    then obtain x where x: "x \<in> set xs" "is_source x" unfolding filter_empty_conv by blast
    from x(2) obtain v where "x = Source v" by (rule is_source.elims(2))
    then show thesis using that x(1) by blast
  qed
  have keep: "ca_source_path args \<noteq> None \<Longrightarrow> ca_source_path (foldl item_effect args ys) \<noteq> None" for args ys
  proof (induction ys arbitrary: args)
    case (Cons y ys)
    then show ?case by (cases y) auto
  qed simp
  obtain ys zs where "xs = ys @ Source v # zs" using v by (meson split_list)
  then have "ca_source_path ?r \<noteq> None" using keep [of "item_effect (foldl item_effect cli_default ys) (Source v)" zs] by simp
  then obtain s where s: "ca_source_path ?r = Some s" "Source s \<in> set xs"
    using source_of_items [OF refl, of cli_default xs] by (auto simp: cli_default_def)
  then have "path_has_suffix s SOURCE_SUFFIX" using assms(1) by (auto simp: list_all_iff)
  then have "cli_finish ?r = ?r" using s(1) by (simp add: cli_finish_def)
  moreover have "ca_valid (foldl item_effect args ys) = ca_valid args" for args ys
  proof (induction ys arbitrary: args)
    case (Cons y ys)
    then show ?case by (cases y) auto
  qed simp
  ultimately show ?thesis using p by (simp add: cli_default_def)
qed

theorem cli_reads_back_witness:
  "cli_parse [[0x6E], OPT_FORMAT_SHORT, FORMAT_COFF_NAME, 0x61 # SOURCE_SUFFIX, OPT_OUTPUT, [0x6F]]
   = cli_default\<lparr>ca_format := OUTPUT_FORMAT_COFF, ca_source_path := Some (0x61 # SOURCE_SUFFIX), ca_output_path := Some [0x6F]\<rparr>"
  using cli_reads_back [of "[Format False OUTPUT_FORMAT_COFF, Source (0x61 # SOURCE_SUFFIX), Output True [0x6F]]" "[0x6E]"]
  by (simp add: path_has_suffix_def)

end
