(* ===== verification/Listing.thy ===== *)
theory Listing
  imports Passes_Theorems Lexer
begin

text \<open>
  The assembly listing (\<^verbatim>\<open>src/src/cli/listing.c\<close>). The stream is the list of the bytes written; writing
  to it never fails, opening and closing it is not modelled. The lines of the source are found
  through a cursor that only moves forward while the line numbers do.
\<close>

section \<open>The source cursor\<close>

abbreviation (input) LINE_FEED :: u8 where "LINE_FEED \<equiv> 0x0A"
abbreviation (input) CARRIAGE_RETURN :: u8 where "CARRIAGE_RETURN \<equiv> 0x0D"

record SourceCursor =
  cur_data :: "u8 list option"
  cur_offset :: nat
  cur_line :: int

text \<open>The first line feed at or after an offset, or the end.\<close>

definition line_end_at :: "u8 list \<Rightarrow> nat \<Rightarrow> nat" where
  "line_end_at data off = off + length (takeWhile (\<lambda>b. b \<noteq> LINE_FEED) (drop off data))"

lemma line_end_bounds: "off \<le> length data \<Longrightarrow> off \<le> line_end_at data off \<and> line_end_at data off \<le> length data"
  using length_takeWhile_le [of "\<lambda>b. b \<noteq> LINE_FEED" "drop off data"] by (simp add: line_end_at_def)

text \<open>The outer \<^verbatim>\<open>while\<close>: line by line up to the wanted one or the end of the source.\<close>

function cursor_forward :: "u8 list \<Rightarrow> int \<Rightarrow> nat \<Rightarrow> int \<Rightarrow> nat \<times> int" where
  "cursor_forward data target off l =
     (if l < target \<and> off < length data
      then let e = line_end_at data off in cursor_forward data target (if e < length data then e + 1 else e) (l + 1)
      else (off, l))"
  by pat_completeness auto

termination
proof (relation "measure (\<lambda>(data, target, off, l). length data - off)", goal_cases)
  case (2 data target off l e)
  then show ?case using line_end_bounds [of off data] by auto
qed simp

declare cursor_forward.simps [simp del]

text \<open>The line without its line feed and carriage return; \<open>None\<close> is \<^verbatim>\<open>NULL\<close>.\<close>

definition source_line_at :: "SourceCursor \<Rightarrow> int \<Rightarrow> SourceCursor \<times> u8 list option" where
  "source_line_at c target =
     (case cur_data c of
        None \<Rightarrow> (c, None)
      | Some data \<Rightarrow>
          if target < 1 then (c, None)
          else
            let c = (if target < cur_line c then c\<lparr>cur_offset := 0, cur_line := 1\<rparr> else c);
                (off, l) = cursor_forward data target (cur_offset c) (cur_line c);
                c = c\<lparr>cur_offset := off, cur_line := l\<rparr>
            in if l \<noteq> target \<or> off \<ge> length data then (c, None)
               else
                 let e = line_end_at data off;
                     e = (if e > off \<and> data ! (e - 1) = CARRIAGE_RETURN then e - 1 else e)
                 in (c, Some (take (e - off) (drop off data))))"

section \<open>Rows\<close>

definition LISTING_BYTES_PER_ROW :: nat where "LISTING_BYTES_PER_ROW = 16"

definition listing_section_name :: "SymbolSection \<Rightarrow> cstr" where
  "listing_section_name sec = (case sec of
     SYMBOL_SECTION_TEXT \<Rightarrow> ascii ''.text''
   | SYMBOL_SECTION_DATA \<Rightarrow> ascii ''.data''
   | SYMBOL_SECTION_READ_ONLY_DATA \<Rightarrow> ascii ''.rodata''
   | SYMBOL_SECTION_BSS \<Rightarrow> ascii ''.bss''
   | SYMBOL_SECTION_UNKNOWN \<Rightarrow> ascii ''-----'')"

text \<open>The formats \<^verbatim>\<open>%6d\<close>, \<^verbatim>\<open>%-5s\<close>, \<^verbatim>\<open>%016llX\<close> and \<^verbatim>\<open>%02X\<close>.\<close>

definition pad_left :: "nat \<Rightarrow> u8 \<Rightarrow> u8 list \<Rightarrow> u8 list" where
  "pad_left n b s = replicate (n - length s) b @ s"

definition pad_right :: "nat \<Rightarrow> u8 \<Rightarrow> u8 list \<Rightarrow> u8 list" where
  "pad_right n b s = s @ replicate (n - length s) b"

text \<open>The program reports an invalid span or a mismatch by \<^verbatim>\<open>false\<close>; a read through \<^verbatim>\<open>NULL\<close> would crash it.\<close>

datatype ListingError = LISTING_REJECTED | LISTING_NULL_READ

definition write_row ::
  "u8 list \<Rightarrow> int \<Rightarrow> bool \<Rightarrow> SymbolSection \<Rightarrow> nat \<Rightarrow> u8 list option \<Rightarrow> nat \<Rightarrow> u8 list option \<Rightarrow> ListingError + u8 list" where
  "write_row stream source_line first_row sec off bytes byte_count src =
     (if byte_count > 0 \<and> bytes = None then Inl LISTING_NULL_READ
      else
        let stream = stream @ (if first_row then pad_left 6 0x20 (print_int source_line) else replicate 6 0x20);
            stream = stream @ [0x20, 0x20] @ pad_right 5 0x20 (listing_section_name sec) @ [0x20, 0x20]
                       @ pad_left 16 0x30 (print_hex off) @ [0x20, 0x20];
            stream = foldl (\<lambda>out i. if i < byte_count
                                    then out @ pad_left 2 0x30 (print_hex (unat (the bytes ! i))) @ [0x20]
                                    else out @ [0x20, 0x20, 0x20])
                       stream [0..<LISTING_BYTES_PER_ROW];
            stream = (case src of
                Some text \<Rightarrow> if first_row \<and> length text > 0 then stream @ text else stream
              | None \<Rightarrow> stream)
        in Inr (stream @ [LINE_FEED]))"

text \<open>The \<^verbatim>\<open>do\<close> loop over the bytes of one span: at least one row.\<close>

function write_rows ::
  "u8 list \<Rightarrow> int \<Rightarrow> EmissionSpan \<Rightarrow> u8 list option \<Rightarrow> u8 list option \<Rightarrow> nat \<Rightarrow> ListingError + u8 list" where
  "write_rows stream source_line em section_bytes src sent =
     (let remaining = em_size em - sent;
          row_size = (if remaining < LISTING_BYTES_PER_ROW then remaining else LISTING_BYTES_PER_ROW);
          row_bytes = (if row_size > 0 then map_option (drop (em_offset em + sent)) section_bytes else None)
      in case write_row stream source_line (sent = 0) (em_section em) (em_offset em + sent)
                row_bytes row_size src of
           Inl e \<Rightarrow> Inl e
         | Inr stream \<Rightarrow>
             if sent + row_size < em_size em
             then write_rows stream source_line em section_bytes src (sent + row_size)
             else Inr stream)"
  by pat_completeness auto
termination by (relation "measure (\<lambda>(stream, l, em, sb, src, sent). em_size em - sent)")
  (auto simp: LISTING_BYTES_PER_ROW_def)

declare write_rows.simps [simp del]

section \<open>The listing\<close>

text \<open>The bytes and the size of the section of a span.\<close>

definition span_section :: "Pass2Result \<Rightarrow> SymbolSection \<Rightarrow> u8 list option \<times> nat" where
  "span_section p2 sec = (case sec of
     SYMBOL_SECTION_TEXT \<Rightarrow> (Some (text_bytes p2), length (text_bytes p2))
   | SYMBOL_SECTION_DATA \<Rightarrow> (Some (data_bytes p2), length (data_bytes p2))
   | SYMBOL_SECTION_READ_ONLY_DATA \<Rightarrow> (Some (read_only_data_bytes p2), length (read_only_data_bytes p2))
   | SYMBOL_SECTION_BSS \<Rightarrow> (None, bss_size p2)
   | SYMBOL_SECTION_UNKNOWN \<Rightarrow> (None, 0))"

fun listing_loop ::
  "Pass2Result \<Rightarrow> SourceCursor \<Rightarrow> u8 list \<Rightarrow> (Instruction \<times> EmissionSpan) list \<Rightarrow> ListingError + u8 list" where
  "listing_loop p2 c stream [] = Inr stream"
| "listing_loop p2 c stream ((i, em) # rest) =
     (let (section_bytes, section_size) = span_section p2 (em_section em) in
      if em_offset em > section_size \<or> em_size em > section_size - em_offset em
         \<or> em_size em > 0 \<and> section_bytes = None \<and> em_section em \<noteq> SYMBOL_SECTION_BSS
      then Inl LISTING_REJECTED
      else let (c, src) = source_line_at c (line i) in
        case write_rows stream (line i) em section_bytes src 0 of
          Inl e \<Rightarrow> Inl e
        | Inr stream \<Rightarrow> listing_loop p2 c stream rest)"

text \<open>The title, the name of the source and the heads of the columns.\<close>

definition listing_header :: "InstructionList \<Rightarrow> u8 list" where
  "listing_header il =
     [0x3B, 0x20, 0xD9, 0x83, 0xD8, 0xB4, 0xD9, 0x81, 0x20, 0xD8, 0xAA, 0xD8, 0xAC, 0xD9, 0x85,
     0xD9, 0x8A, 0xD8, 0xB9, 0x20, 0xD9, 0x86, 0xD9, 0x8E, 0xD8, 0xB8, 0xD9, 0x92, 0xD9, 0x85,
     0x0A, 0x3B, 0x20, 0xD8, 0xA7, 0xD9, 0x84, 0xD9, 0x85, 0xD8, 0xB5, 0xD8, 0xAF, 0xD8, 0xB1,
     0x3A, 0x20]
     @ (case source_name il of Some n \<Rightarrow> n | None \<Rightarrow> ascii ''unknown'') @
     [0x0A, 0x3B, 0x20, 0xD8, 0xA7, 0xD9, 0x84, 0xD8, 0xB3, 0xD8, 0xB7, 0xD8, 0xB1, 0x20, 0x20,
     0xD8, 0xA7, 0xD9, 0x84, 0xD9, 0x82, 0xD8, 0xB3, 0xD9, 0x85, 0x20, 0x20, 0xD8, 0xA7, 0xD9,
     0x84, 0xD8, 0xA5, 0xD8, 0xB2, 0xD8, 0xA7, 0xD8, 0xAD, 0xD8, 0xA9, 0x20, 0x20, 0x20, 0x20,
     0x20, 0x20, 0x20, 0x20, 0x20, 0x20, 0x20, 0x20, 0xD8, 0xA7, 0xD9, 0x84, 0xD8, 0xA8, 0xD8,
     0xA7, 0xD9, 0x8A, 0xD8, 0xAA, 0xD8, 0xA7, 0xD8, 0xAA, 0x20, 0x20, 0x20, 0x20, 0x20, 0x20,
     0x20, 0x20, 0x20, 0x20, 0x20, 0x20, 0x20, 0x20, 0x20, 0x20, 0x20, 0x20, 0x20, 0x20, 0x20,
     0x20, 0x20, 0x20, 0x20, 0x20, 0x20, 0x20, 0x20, 0x20, 0x20, 0x20, 0x20, 0x20, 0x20, 0x20,
     0x20, 0x20, 0x20, 0x20, 0x20, 0xD8, 0xA7, 0xD9, 0x84, 0xD9, 0x85, 0xD8, 0xB5, 0xD8, 0xAF,
     0xD8, 0xB1, 0x0A]"

definition listing_write_stream :: "InstructionList \<Rightarrow> Pass2Result \<Rightarrow> ListingError + u8 list" where
  "listing_write_stream il p2 =
     (if length (emissions p2) \<noteq> length (instrs il) then Inl LISTING_REJECTED
      else listing_loop p2 \<lparr>cur_data = source_data il, cur_offset = 0, cur_line = 1\<rparr> (listing_header il)
             (zip (instrs il) (emissions p2)))"

end
