(* ===== verification/Listing_Theorems.thy ===== *)
theory Listing_Theorems
  imports Listing
begin

text \<open>
  What a listing shows: every line of the source with the text it has in the file, found without the
  cursor, and every byte of the loaded sections at its offset.
\<close>

section \<open>The lines of a source\<close>

text \<open>The source split at its line feeds; a last line needs none.\<close>

fun source_lines :: "u8 list \<Rightarrow> u8 list list" where
  "source_lines [] = []"
| "source_lines (b # bs) =
     (if b = LINE_FEED then [] # source_lines bs
      else case source_lines bs of [] \<Rightarrow> [[b]] | l # ls \<Rightarrow> if bs = [] then [[b]] else (b # l) # ls)"

definition chomp :: "u8 list \<Rightarrow> u8 list" where
  "chomp l = (if l \<noteq> [] \<and> last l = CARRIAGE_RETURN then butlast l else l)"

definition numbered_line :: "u8 list \<Rightarrow> int \<Rightarrow> u8 list" where
  "numbered_line data n =
     (if 1 \<le> n \<and> nat n \<le> length (source_lines data) then chomp (source_lines data ! (nat n - 1)) else [])"

lemma source_lines_Nil [simp]: "source_lines bs = [] \<longleftrightarrow> bs = []"
  by (cases bs) (auto split: list.splits)

lemma source_lines_first:
  "bs \<noteq> [] \<Longrightarrow> source_lines bs
     = takeWhile (\<lambda>b. b \<noteq> LINE_FEED) bs # source_lines (drop 1 (dropWhile (\<lambda>b. b \<noteq> LINE_FEED) bs))"
proof (induction bs)
  case (Cons b bs)
  then show ?case by (cases "bs = []") auto
qed simp

text \<open>The cursor stands at the start of its line, or at the end of the source.\<close>

definition at_line :: "u8 list \<Rightarrow> nat \<Rightarrow> int \<Rightarrow> bool" where
  "at_line data off l \<longleftrightarrow> off \<le> length data \<and> 1 \<le> l \<and> nat (l - 1) \<le> length (source_lines data)
     \<and> source_lines (drop off data) = drop (nat (l - 1)) (source_lines data)"

lemma line_end_drop:
  assumes "off < length data"
  shows "source_lines (drop off data) = take (line_end_at data off - off) (drop off data)
       # source_lines (drop (if line_end_at data off < length data then line_end_at data off + 1 else line_end_at data off) data)"
proof -
  let ?d = "drop off data" and ?n = "line_end_at data off - off"
  have n: "length (takeWhile (\<lambda>b. b \<noteq> LINE_FEED) ?d) = ?n" by (simp add: line_end_at_def)
  have t: "takeWhile (\<lambda>b. b \<noteq> LINE_FEED) ?d = take ?n ?d" "dropWhile (\<lambda>b. b \<noteq> LINE_FEED) ?d = drop ?n ?d"
    using takeWhile_eq_take [of "\<lambda>b. b \<noteq> LINE_FEED" ?d] dropWhile_eq_drop [of "\<lambda>b. b \<noteq> LINE_FEED" ?d] n by simp_all
  have "drop 1 (drop ?n ?d) = drop (if line_end_at data off < length data then line_end_at data off + 1 else line_end_at data off) data"
    using line_end_bounds [of off data] assms by auto
  then show ?thesis using source_lines_first [of ?d] assms t by simp
qed

lemma forward_at_line:
  assumes "at_line data off l" "l \<le> target" "cursor_forward data target off l = (off', l')"
  shows "at_line data off' l' \<and> l' \<le> target \<and> (l' = target \<or> off' = length data)"
  using assms
proof (induction data target off l rule: cursor_forward.induct)
  case (1 data target off l)
  show ?case
  proof (cases "l < target \<and> off < length data")
    case True
    let ?e = "line_end_at data off" let ?n = "if ?e < length data then ?e + 1 else ?e"
    have b: "?e \<le> length data" using line_end_bounds [of off data] True by simp
    have d: "source_lines (drop off data) = drop (nat (l - 1)) (source_lines data)" "1 \<le> l" "nat (l - 1) \<le> length (source_lines data)"
      using 1(2) by (simp_all add: at_line_def)
    have s: "Suc (nat (l - 1)) = nat l" using d(2) by simp
    have "source_lines (drop ?n data) = drop (Suc (nat (l - 1))) (source_lines data)"
      using line_end_drop [of off data] True d(1)
      by (metis drop_Suc drop_drop list.sel(3) plus_1_eq_Suc tl_drop)
    moreover have "Suc (nat (l - 1)) \<le> length (source_lines data)"
      using line_end_drop [of off data] True d(1) by (metis Suc_leI drop_all leI list.discI)
    ultimately have "at_line data ?n (l + 1)" using b d(2) by (simp add: at_line_def s)
    then show ?thesis using 1(1) [OF True refl] True 1(4) by (subst (asm) cursor_forward.simps) (simp add: Let_def)
  next
    case False
    then show ?thesis using 1(2-4) by (subst (asm) cursor_forward.simps) (auto simp: at_line_def)
  qed
qed

text \<open>A cursor of a source, between two lines.\<close>

definition good_cursor :: "u8 list option \<Rightarrow> SourceCursor \<Rightarrow> bool" where
  "good_cursor src c \<longleftrightarrow> cur_data c = src \<and> (\<forall>data. src = Some data \<longrightarrow> at_line data (cur_offset c) (cur_line c))"

definition shown :: "u8 list option \<Rightarrow> u8 list" where
  "shown t = (case t of None \<Rightarrow> [] | Some t \<Rightarrow> t)"

lemma cursor_start: "good_cursor src \<lparr>cur_data = src, cur_offset = 0, cur_line = 1\<rparr>"
  by (simp add: good_cursor_def at_line_def)

lemma line_at_cursor:
  assumes "good_cursor src c" "source_line_at c target = (c', t)"
  shows "good_cursor src c' \<and> shown t = (case src of None \<Rightarrow> [] | Some data \<Rightarrow> numbered_line data target)"
proof (cases src)
  case None
  then show ?thesis using assms by (auto simp: good_cursor_def source_line_at_def shown_def)
next
  case (Some data)
  have c: "cur_data c = Some data" "at_line data (cur_offset c) (cur_line c)"
    using assms(1) Some by (simp_all add: good_cursor_def)
  show ?thesis
  proof (cases "target < 1")
    case True
    then show ?thesis using assms Some c by (auto simp: source_line_at_def shown_def numbered_line_def)
  next
    case False
    define o1 where "o1 = (if target < cur_line c then 0 else cur_offset c)"
    define l1 where "l1 = (if target < cur_line c then 1 else cur_line c)"
    have st: "at_line data o1 l1" "l1 \<le> target" using c(2) False by (auto simp: o1_def l1_def at_line_def)
    obtain off l where f: "cursor_forward data target o1 l1 = (off, l)" by fastforce
    note fw = forward_at_line [OF st f]
    have r: "source_line_at c target = (let c' = c\<lparr>cur_offset := off, cur_line := l\<rparr> in
       if l \<noteq> target \<or> off \<ge> length data then (c', None)
       else let e = line_end_at data off; e' = (if e > off \<and> data ! (e - 1) = CARRIAGE_RETURN then e - 1 else e)
         in (c', Some (take (e' - off) (drop off data))))"
      using c(1) False f by (auto simp: source_line_at_def Let_def o1_def l1_def)
    have c': "good_cursor src c'"
      using assms(2) r fw c(1) Some by (auto simp: good_cursor_def Let_def split: if_splits)
    show ?thesis
    proof (cases "l \<noteq> target \<or> off \<ge> length data")
      case True
      have e: "off = length data" "nat (target - 1) \<ge> nat (l - 1)" using True fw by (auto simp: at_line_def)
      have "drop (nat (l - 1)) (source_lines data) = []" using fw e(1) by (simp add: at_line_def)
      then have "length (source_lines data) \<le> nat (target - 1)" using e(2) by simp
      then have "numbered_line data target = []" using False by (simp add: numbered_line_def)
      then show ?thesis using True r assms(2) c' Some by (simp add: Let_def shown_def)
    next
      case in_line: False
      let ?e = "line_end_at data off" let ?l = "take (?e - off) (drop off data)"
      have b: "off \<le> ?e" "?e \<le> length data" using line_end_bounds [of off data] fw by (auto simp: at_line_def)
      have d: "drop (nat (target - 1)) (source_lines data) = ?l # source_lines (drop (if ?e < length data then ?e + 1 else ?e) data)"
        using line_end_drop [of off data] in_line fw by (simp add: at_line_def)
      have k: "nat (target - 1) < length (source_lines data)" using d by (metis drop_all leI list.discI)
      have n: "source_lines data ! (nat target - 1) = ?l"
        using d nth_via_drop [OF d] False by (simp add: nat_diff_distrib')
      have len: "length ?l = ?e - off" using b by simp
      have "last ?l = data ! (?e - 1)" if "?e > off"
        using that b len by (simp add: last_conv_nth)
      moreover have "butlast ?l = take (?e - 1 - off) (drop off data)" using b by (simp add: butlast_take)
      moreover have "?l \<noteq> [] \<longleftrightarrow> ?e > off" using len by (metis length_0_conv zero_less_diff neq0_conv)
      ultimately have "chomp ?l = take ((if ?e > off \<and> data ! (?e - 1) = CARRIAGE_RETURN then ?e - 1 else ?e) - off) (drop off data)"
        by (auto simp: chomp_def)
      moreover have "numbered_line data target = chomp ?l" using k n False by (auto simp: numbered_line_def)
      ultimately show ?thesis using in_line r assms(2) c' Some by (auto simp: Let_def shown_def)
    qed
  qed
qed

section \<open>Rows\<close>

record ListRow =
  row_line :: int
  row_first :: bool
  row_section :: SymbolSection
  row_offset :: nat
  row_bytes :: "u8 list"
  row_source :: "u8 list"

definition hex_byte :: "u8 \<Rightarrow> u8 list" where
  "hex_byte b = [hex_char (unat b div 16), hex_char (unat b mod 16)]"

text \<open>The line number and the source stand in the first row of a line only.\<close>

definition row_text :: "ListRow \<Rightarrow> u8 list" where
  "row_text r = (if row_first r then pad_left 6 0x20 (print_int (row_line r)) else replicate 6 0x20)
     @ [0x20, 0x20] @ pad_right 5 0x20 (listing_section_name (row_section r)) @ [0x20, 0x20]
     @ pad_left 16 0x30 (print_hex (row_offset r)) @ [0x20, 0x20]
     @ concat (map (\<lambda>b. hex_byte b @ [0x20]) (row_bytes r)) @ replicate (3 * (16 - length (row_bytes r))) 0x20
     @ (if row_first r then row_source r else []) @ [LINE_FEED]"

function rows_from :: "int \<Rightarrow> SymbolSection \<Rightarrow> u8 list \<Rightarrow> bool \<Rightarrow> nat \<Rightarrow> u8 list \<Rightarrow> ListRow list" where
  "rows_from l sec src first off bs =
     \<lparr>row_line = l, row_first = first, row_section = sec, row_offset = off, row_bytes = take 16 bs, row_source = src\<rparr>
     # (if length bs > 16 then rows_from l sec src False (off + 16) (drop 16 bs) else [])"
  by pat_completeness auto
termination by (relation "measure (\<lambda>(l, sec, src, first, off, bs). length bs)") auto

declare rows_from.simps [simp del]

lemma hex_byte_printed: "pad_left 2 0x30 (print_hex (unat b)) = hex_byte b"
proof -
  have "unat b div 16 < 16" using unsigned_less [of b, where ?'a = nat] by simp
  then show ?thesis
    by (simp add: pad_left_def hex_byte_def print_hex.simps [of "unat b"] print_hex.simps [of "unat b div 16"] hex_char_def)
qed

lemma byte_columns:
  "foldl (\<lambda>out i. if i < n then out @ pad_left 2 0x30 (print_hex (unat (bs ! i))) @ [0x20] else out @ [0x20, 0x20, 0x20])
     out [0..<m]
   = out @ concat (map (\<lambda>i. hex_byte (bs ! i) @ [0x20]) [0..<min n m]) @ replicate (3 * (m - n)) 0x20"
proof (induction m)
  case (Suc m)
  show ?case
  proof (cases "m < n")
    case True
    then have "min n (Suc m) = Suc m" "min n m = m" by simp_all
    then show ?thesis using Suc.IH True by (simp add: hex_byte_printed)
  next
    case False
    then have "min n (Suc m) = n" "min n m = n" "3 * (Suc m - n) = 3 * (m - n) + 3" by simp_all
    then show ?thesis using Suc.IH False by (simp add: replicate_add) (simp add: numeral_3_eq_3)
  qed
qed simp

lemma write_row_text:
  assumes "n \<le> 16" "n > 0 \<Longrightarrow> bytes = Some bs" "n \<le> length bs"
  shows "write_row stream l first sec off bytes n src
    = Inr (stream @ row_text \<lparr>row_line = l, row_first = first, row_section = sec, row_offset = off,
         row_bytes = take n bs, row_source = shown src\<rparr>)"
proof -
  have "map (\<lambda>i. hex_byte (bs ! i) @ [0x20]) [0..<n] = map (\<lambda>b. hex_byte b @ [0x20]) (take n bs)"
    using assms(3) by (intro nth_equalityI) simp_all
  moreover have "foldl (\<lambda>out i. if i < n then out @ pad_left 2 0x30 (print_hex (unat (the bytes ! i))) @ [0x20] else out @ [0x20, 0x20, 0x20]) out [0..<16]
     = foldl (\<lambda>out i. if i < n then out @ pad_left 2 0x30 (print_hex (unat (bs ! i))) @ [0x20] else out @ [0x20, 0x20, 0x20]) out [0..<16]" for out
    by (intro foldl_cong) (use assms(2) in auto)
  ultimately show ?thesis
    using assms byte_columns [of n bs _ 16]
    by (auto simp: write_row_def Let_def row_text_def LISTING_BYTES_PER_ROW_def shown_def min_absorb1 split: option.split)
qed

lemma write_rows_text:
  assumes "sent = 0 \<or> sent < em_size em"
    "em_size em > 0 \<Longrightarrow> section_bytes = Some full \<and> em_offset em + em_size em \<le> length full"
  shows "write_rows stream l em section_bytes src sent
    = Inr (stream @ concat (map row_text (rows_from l (em_section em) (shown src) (sent = 0) (em_offset em + sent)
        (drop sent (if em_size em = 0 then [] else take (em_size em) (drop (em_offset em) full))))))"
  using assms
proof (induction stream l em section_bytes src sent rule: write_rows.induct)
  case (1 stream l em section_bytes src sent)
  let ?bs = "drop sent (if em_size em = 0 then [] else take (em_size em) (drop (em_offset em) full))"
  let ?n = "if em_size em - sent < 16 then em_size em - sent else 16"
  have len: "length ?bs = em_size em - sent"
  proof (cases "em_size em = 0")
    case False
    then have "em_size em \<le> length full - em_offset em" using 1(3) by linarith
    then show ?thesis by (simp add: min_absorb2)
  qed simp
  have tk: "take ?n (drop (em_offset em + sent) full) = take 16 ?bs" if "em_size em > 0"
    using 1(3) that by (simp add: drop_take min_def add.commute)
  have row: "write_row stream l (sent = 0) (em_section em) (em_offset em + sent)
      (if ?n > 0 then map_option (drop (em_offset em + sent)) section_bytes else None) ?n src
    = Inr (stream @ row_text \<lparr>row_line = l, row_first = (sent = 0), row_section = em_section em,
         row_offset = em_offset em + sent, row_bytes = take 16 ?bs, row_source = shown src\<rparr>)"
  proof (cases "em_size em = 0")
    case True
    then show ?thesis using write_row_text [of 0 _ "[]"] by simp
  next
    case False
    then show ?thesis
      using write_row_text [of ?n "if ?n > 0 then map_option (drop (em_offset em + sent)) section_bytes else None"
          "drop (em_offset em + sent) full"] 1(2,3) tk by (auto split: if_splits)
  qed
  let ?row = "\<lparr>row_line = l, row_first = (sent = 0), row_section = em_section em,
         row_offset = em_offset em + sent, row_bytes = take 16 ?bs, row_source = shown src\<rparr>"
  have wr: "write_rows stream l em section_bytes src sent = (if sent + ?n < em_size em
      then write_rows (stream @ row_text ?row) l em section_bytes src (sent + ?n) else Inr (stream @ row_text ?row))"
    by (subst write_rows.simps) (use row in \<open>simp only: LISTING_BYTES_PER_ROW_def Let_def sum.case\<close>)
  have rf: "rows_from l (em_section em) (shown src) (sent = 0) (em_offset em + sent) ?bs
      = ?row # (if length ?bs > 16 then rows_from l (em_section em) (shown src) False (em_offset em + sent + 16) (drop 16 ?bs) else [])"
    by (rule rows_from.simps)
  show ?case
  proof (cases "sent + ?n < em_size em")
    case True
    then have n: "?n = 16" "length ?bs > 16" using len by (auto split: if_splits)
    have "write_rows (stream @ row_text ?row) l em section_bytes src (sent + ?n)
       = Inr ((stream @ row_text ?row) @ concat (map row_text (rows_from l (em_section em) (shown src) (sent + ?n = 0)
          (em_offset em + (sent + ?n)) (drop (sent + ?n) (if em_size em = 0 then [] else take (em_size em) (drop (em_offset em) full))))))"
      by (rule 1(1) [OF refl _ refl]) (use row True 1(3) in \<open>simp_all add: LISTING_BYTES_PER_ROW_def\<close>)
    moreover have "drop (sent + ?n) (if em_size em = 0 then [] else take (em_size em) (drop (em_offset em) full)) = drop 16 ?bs"
      by (simp only: n(1) drop_drop add.commute)
    moreover have "(sent + ?n = 0) = False" "em_offset em + (sent + ?n) = em_offset em + sent + 16" by (simp_all only: n(1)) simp_all
    ultimately show ?thesis
      unfolding wr rf using True n(2) by (simp only: if_True list.map concat.simps append_assoc)
  next
    case False
    then have "\<not> length ?bs > 16" using len by (auto split: if_splits)
    then show ?thesis unfolding wr rf using False by (simp only: if_False list.map concat.simps append_Nil2)
  qed
qed

section \<open>The rows of a source\<close>

text \<open>The bytes of a span in its section; the sections without bytes have spans without any.\<close>

definition span_bytes :: "Pass2Result \<Rightarrow> EmissionSpan \<Rightarrow> u8 list" where
  "span_bytes p2 em = (if em_size em = 0 then [] else take (em_size em) (drop (em_offset em) (full_bytes p2 (em_section em))))"

definition source_text :: "InstructionList \<Rightarrow> int \<Rightarrow> u8 list" where
  "source_text il n = (case source_data il of None \<Rightarrow> [] | Some data \<Rightarrow> numbered_line data n)"

definition span_rows :: "InstructionList \<Rightarrow> Pass2Result \<Rightarrow> Instruction \<times> EmissionSpan \<Rightarrow> ListRow list" where
  "span_rows il p2 x = rows_from (line (fst x)) (em_section (snd x)) (source_text il (line (fst x))) True (em_offset (snd x))
     (span_bytes p2 (snd x))"

definition span_fits :: "Pass2Result \<Rightarrow> EmissionSpan \<Rightarrow> bool" where
  "span_fits p2 em \<longleftrightarrow> em_section em \<noteq> SYMBOL_SECTION_UNKNOWN
     \<and> em_offset em + em_size em \<le> pass2_section_size p2 (em_section em) \<and> (loaded (em_section em) \<or> em_size em = 0)"

lemma span_section_full:
  "span_section p2 sec = (if loaded sec then Some (full_bytes p2 sec) else None,
     if sec = SYMBOL_SECTION_UNKNOWN then 0 else pass2_section_size p2 sec)"
  by (cases sec) (simp_all add: span_section_def loaded_def full_bytes_def pass2_section_size_def)

lemma listing_loop_rows:
  assumes "good_cursor (source_data il) c" "\<forall>x \<in> set xs. span_fits p2 (snd x)"
  shows "listing_loop p2 c stream xs = Inr (stream @ concat (map row_text (concat (map (span_rows il p2) xs))))"
  using assms
proof (induction xs arbitrary: c stream)
  case (Cons x xs)
  obtain i em where x: "x = (i, em)" by fastforce
  have fit: "span_fits p2 em" using Cons.prems(2) x by simp
  have len: "loaded (em_section em) \<Longrightarrow> length (full_bytes p2 (em_section em)) = pass2_section_size p2 (em_section em)"
    by (auto simp: loaded_def full_bytes_def pass2_section_size_def)
  obtain c' src where s: "source_line_at c (line i) = (c', src)" by fastforce
  have g: "good_cursor (source_data il) c'" "shown src = source_text il (line i)"
    using line_at_cursor [OF Cons.prems(1) s] by (simp_all add: source_text_def)
  have w: "write_rows stream (line i) em (fst (span_section p2 (em_section em))) src 0
    = Inr (stream @ concat (map row_text (span_rows il p2 x)))"
    using write_rows_text [of 0 em "fst (span_section p2 (em_section em))" "full_bytes p2 (em_section em)" stream "line i" src]
      fit len by (auto simp: span_section_full span_fits_def span_rows_def x g(2) span_bytes_def)
  show ?case
    using Cons.IH [OF g(1)] Cons.prems(2) w s fit
    by (simp add: x split_def Let_def) (auto simp: span_section_full span_fits_def)
qed simp

section \<open>The place of every byte\<close>

text \<open>
  Rows are placed when in each loaded section every one begins where the bytes of the rows of the
  section before it end; \<open>fill\<close> are the bytes the sections have so far.
\<close>

fun rows_placed :: "(SymbolSection \<Rightarrow> nat) \<Rightarrow> ListRow list \<Rightarrow> bool" where
  "rows_placed fill [] = True"
| "rows_placed fill (r # rs) =
     ((loaded (row_section r) \<longrightarrow> row_offset r = fill (row_section r))
      \<and> rows_placed (fill(row_section r := fill (row_section r) + length (row_bytes r))) rs)"

definition section_rows :: "SymbolSection \<Rightarrow> ListRow list \<Rightarrow> u8 list" where
  "section_rows sec rows = concat (map row_bytes (filter (\<lambda>r. row_section r = sec) rows))"

lemma section_rows_append [simp]:
  "section_rows sec (xs @ ys) = section_rows sec xs @ section_rows sec ys" "section_rows sec [] = []"
  "section_rows sec (r # rs) = (if row_section r = sec then row_bytes r else []) @ section_rows sec rs"
  by (simp_all add: section_rows_def)

lemma rows_placed_append:
  "rows_placed fill (xs @ ys) \<longleftrightarrow> rows_placed fill xs \<and> rows_placed (\<lambda>s. fill s + length (section_rows s xs)) ys"
proof (induction xs arbitrary: fill)
  case (Cons x xs)
  have e: "(\<lambda>s. (fill(row_section x := fill (row_section x) + length (row_bytes x))) s + length (section_rows s xs))
      = (\<lambda>s. fill s + length (section_rows s (x # xs)))" by (auto simp: section_rows_def)
  show ?case unfolding append_Cons rows_placed.simps Cons.IH e by blast
qed simp

lemma rows_from_facts:
  "section_rows s (rows_from l sec src first off bs) = (if s = sec then bs else [])"
  "\<forall>r \<in> set (rows_from l sec src first off bs). length (row_bytes r) \<le> 16"
  "map (\<lambda>r. (row_line r, row_source r)) (filter row_first (rows_from l sec src first off bs)) = (if first then [(l, src)] else [])"
  "(loaded sec \<longrightarrow> fill sec = off) \<Longrightarrow> rows_placed fill (rows_from l sec src first off bs)"
proof (induction l sec src first off bs arbitrary: fill rule: rows_from.induct)
  case (1 l sec src first off bs)
  {
    case 1
    show ?case using "1.IH"(1) by (cases "s = sec"; subst rows_from.simps; simp)
  next
    case 2
    show ?case using "1.IH"(2) by (subst rows_from.simps) simp
  next
    case 3
    show ?case using "1.IH"(3) by (subst rows_from.simps) simp
  next
    case 4
    then show ?case using "1.IH"(4) [of "fill(sec := fill sec + 16)"] by (subst rows_from.simps) (simp add: min_def fun_upd_def)
  }
qed

lemma spans_placed:
  assumes "\<forall>x \<in> set xs. span_fits p2 (snd x)"
    "\<forall>k < length xs. loaded (em_section (snd (xs ! k))) \<longrightarrow> em_offset (snd (xs ! k)) =
       fill (em_section (snd (xs ! k))) + sum_list (map em_size (filter (\<lambda>e. em_section e = em_section (snd (xs ! k))) (take k (map snd xs))))"
  shows "rows_placed fill (concat (map (span_rows il p2) xs))
    \<and> (loaded sec \<longrightarrow> section_rows sec (concat (map (span_rows il p2) xs))
         = take (sum_list (map em_size (filter (\<lambda>e. em_section e = sec) (map snd xs)))) (drop (fill sec) (full_bytes p2 sec)))"
  using assms
proof (induction xs arbitrary: fill)
  case (Cons x xs)
  obtain i em where x: "x = (i, em)" by fastforce
  have fit: "span_fits p2 em" using Cons.prems(1) x by simp
  have off: "loaded (em_section em) \<longrightarrow> em_offset em = fill (em_section em)" using Cons.prems(2) x by force
  have len: "length (span_bytes p2 em) = em_size em"
    using fit by (auto simp: span_bytes_def span_fits_def loaded_def full_bytes_def pass2_section_size_def)
  let ?fill = "\<lambda>s. fill s + length (section_rows s (span_rows il p2 x))"
  have f: "?fill s = fill s + (if em_section em = s then em_size em else 0)" for s
    by (simp add: span_rows_def x rows_from_facts(1) len)
  have "loaded (em_section (snd (xs ! k))) \<longrightarrow> em_offset (snd (xs ! k)) = ?fill (em_section (snd (xs ! k)))
      + sum_list (map em_size (filter (\<lambda>e. em_section e = em_section (snd (xs ! k))) (take k (map snd xs))))"
    if "k < length xs" for k
    using Cons.prems(2) [rule_format, of "Suc k"] that unfolding f by (simp add: x)
  then have ih: "rows_placed ?fill (concat (map (span_rows il p2) xs))
    \<and> (loaded sec \<longrightarrow> section_rows sec (concat (map (span_rows il p2) xs))
         = take (sum_list (map em_size (filter (\<lambda>e. em_section e = sec) (map snd xs)))) (drop (?fill sec) (full_bytes p2 sec)))"
    using Cons.IH [of ?fill] Cons.prems(1) by simp
  have "rows_placed fill (span_rows il p2 x)"
    unfolding span_rows_def by (rule rows_from_facts(4)) (use off x in auto)
  then have p: "rows_placed fill (concat (map (span_rows il p2) (x # xs)))" using ih by (simp add: rows_placed_append)
  have "section_rows sec (concat (map (span_rows il p2) (x # xs)))
      = take (sum_list (map em_size (filter (\<lambda>e. em_section e = sec) (map snd (x # xs))))) (drop (fill sec) (full_bytes p2 sec))"
    if l: "loaded sec"
  proof (cases "em_section em = sec")
    case True
    have "span_bytes p2 em = take (em_size em) (drop (fill sec) (full_bytes p2 sec))"
      using off True l by (auto simp: span_bytes_def)
    then show ?thesis
      using ih l True f [of sec] by (simp add: x span_rows_def rows_from_facts(1) take_add add.commute)
  next
    case False
    then show ?thesis using ih l f [of sec] by (simp add: x span_rows_def rows_from_facts(1))
  qed
  then show ?case using p by blast
qed simp

lemma emission_fits:
  assumes "accepted_source il" "k < length (instrs il)"
  shows "span_fits (pass2_run il (pass1_run il)) (emissions (pass2_run il (pass1_run il)) ! k)"
proof -
  let ?js = "take k (instrs il)" and ?i = "instrs il ! k" and ?p2 = "pass2_run il (pass1_run il)"
  let ?l = "layout_of ?js" and ?em = "emissions ?p2 ! k"
  have split: "instrs il = ?js @ ?i # drop (Suc k) (instrs il)" by (rule split_at [OF assms(2)])
  have em: "?em = span_of ?l ?i" by (rule span_at(1) [OF assms])
  have size: "lay_size (layout_of (?js @ [?i])) sec \<le> pass2_section_size ?p2 sec" for sec
  proof -
    have c: "clean (p1_errors (pass1_run il))" using assms(1) by (simp add: accepted_source_def)
    have "pass2_section_size ?p2 sec = lay_size (layout_of (instrs il)) sec"
      by (simp add: sizes_agree [OF assms(1)] pass1_sections(1) [OF c])
    then show ?thesis using layout_mono [of "?js @ [?i]" sec "drop (Suc k) (instrs il)"] split by simp
  qed
  show ?thesis
  proof (cases "section_switch (directive_kind ?i)")
    case (Some s)
    then have "?em = \<lparr>em_section = s, em_offset = lay_size ?l s, em_size = 0\<rparr>"
      by (simp add: em span_of_def Let_def layout_step_def)
    moreover have "lay_size ?l s \<le> pass2_section_size ?p2 s"
      using size [of s] layout_step_mono [of ?l s ?i] by (simp add: layout_of_snoc)
    ultimately show ?thesis using switch_known [OF Some] by (simp add: span_fits_def)
  next
    case None
    have "here ?l + contribution (lay_section ?l) (here ?l) ?i \<le> pass2_section_size ?p2 (lay_section ?l)"
      using size [of "lay_section ?l"] by (simp add: layout_of_snoc here_layout_step [OF None])
    then show ?thesis
      using layout_section_known [of ?js]
      by (cases "lay_section ?l") (auto simp: em span_plain [OF None] span_fits_def loaded_def)
  qed
qed

lemma first_rows:
  "map (\<lambda>r. (row_line r, row_source r)) (filter row_first (concat (map (span_rows il p2) xs)))
     = map (\<lambda>x. (line (fst x), source_text il (line (fst x)))) xs"
  by (induction xs) (simp_all add: span_rows_def rows_from_facts(3))

lemma listing_rows:
  assumes "accepted_source il"
  shows "\<exists>rows. listing_write_stream il (pass2_run il (pass1_run il)) = Inr (listing_header il @ concat (map row_text rows))
    \<and> rows_placed (\<lambda>_. 0) rows
    \<and> (\<forall>sec. loaded sec \<longrightarrow> section_rows sec rows = full_bytes (pass2_run il (pass1_run il)) sec)
    \<and> (\<forall>r \<in> set rows. length (row_bytes r) \<le> 16)
    \<and> map (\<lambda>r. (row_line r, row_source r)) (filter row_first rows) = map (\<lambda>i. (line i, source_text il (line i))) (instrs il)"
proof -
  let ?p2 = "pass2_run il (pass1_run il)"
  let ?xs = "zip (instrs il) (emissions ?p2)"
  let ?rows = "concat (map (span_rows il ?p2) ?xs)"
  have len: "length (emissions ?p2) = length (instrs il)" by (rule emissions_length [OF assms])
  then have snd: "map snd ?xs = emissions ?p2" "map fst ?xs = instrs il" by simp_all
  have fits: "\<forall>x \<in> set ?xs. span_fits ?p2 (snd x)"
    using emission_fits [OF assms] len by (auto simp: set_zip)
  note placed = spans_placed [OF fits, of "\<lambda>_. 0" il]
  have adj: "\<forall>k < length ?xs. loaded (em_section (snd (?xs ! k))) \<longrightarrow> em_offset (snd (?xs ! k)) =
       0 + sum_list (map em_size (filter (\<lambda>e. em_section e = em_section (snd (?xs ! k))) (take k (map snd ?xs))))"
    unfolding snd(1) using spans_adjacent(1) [OF assms] len by simp
  have "listing_write_stream il ?p2 = Inr (listing_header il @ concat (map row_text ?rows))"
    using listing_loop_rows [OF cursor_start fits] len by (simp add: listing_write_stream_def)
  moreover have "rows_placed (\<lambda>_. 0) ?rows" using placed [OF adj] by blast
  moreover have "section_rows sec ?rows = full_bytes ?p2 sec" if "loaded sec" for sec
    using placed [OF adj, of sec] that spans_adjacent(2) [OF assms that] by (simp add: snd(1))
  moreover have "\<forall>r \<in> set ?rows. length (row_bytes r) \<le> 16"
    using rows_from_facts(2) by (auto simp: span_rows_def)
  moreover have "map (\<lambda>r. (row_line r, row_source r)) (filter row_first ?rows) = map (\<lambda>i. (line i, source_text il (line i))) (instrs il)"
    using arg_cong [OF snd(2), of "map (\<lambda>i. (line i, source_text il (line i)))"]
    by (simp only: first_rows map_map comp_def)
  ultimately show ?thesis by blast
qed

text \<open>
  C39. The listing of a source pass 1 accepts is complete: its rows of at most 16 bytes are placed one
  behind the other in each of the text, data and read-only data sections, their bytes are together
  exactly the bytes of the section, and the first row of each source line shows the number and the
  text of that line as the file has it, without its line end.
\<close>

theorem listing_complete:
  assumes "accepted_source il"
  shows "\<exists>rows. listing_write_stream il (pass2_run il (pass1_run il)) = Inr (listing_header il @ concat (map row_text rows))
    \<and> rows_placed (\<lambda>_. 0) rows
    \<and> (\<forall>sec. loaded sec \<longrightarrow> section_rows sec rows = full_bytes (pass2_run il (pass1_run il)) sec)
    \<and> (\<forall>r \<in> set rows. length (row_bytes r) \<le> 16)
    \<and> map (\<lambda>r. (row_line r, row_source r)) (filter row_first rows) = map (\<lambda>i. (line i, source_text il (line i))) (instrs il)"
  using assms by (rule listing_rows)

theorem listing_complete_witness:
  "\<exists>rows. listing_write_stream sample (pass2_run sample (pass1_run sample)) = Inr (listing_header sample @ concat (map row_text rows))
    \<and> section_rows SYMBOL_SECTION_TEXT rows = text_bytes (pass2_run sample (pass1_run sample))"
  using listing_complete [OF sample_accepted] by (fastforce simp: loaded_def full_bytes_def)

end
