(* ===== verification/Driver.thy ===== *)
theory Driver
  imports Object_Limits Listing_Theorems File_Paths Args
begin

text \<open>
  The command-line program of \<^verbatim>\<open>src/src/main.c\<close>. The operating system is a parameter: what reading a
  file, the working directory, \<^verbatim>\<open>stat\<close> and writing a file answer. The result is the exit code, the
  files written in their order, and what is printed.
\<close>

section \<open>Reading the source\<close>




section \<open>The path of the object\<close>

text \<open>The position of the last occurrence of a byte.\<close>

definition strrchr :: "u8 list \<Rightarrow> u8 \<Rightarrow> nat option" where
  "strrchr s b = (if b \<in> set s then Some (length s - 1 - length (takeWhile (\<lambda>x. x \<noteq> b) (rev s))) else None)"

definition make_output_path :: "cstr \<Rightarrow> OutputFormat \<Rightarrow> cstr" where
  "make_output_path source_path format =
     (let suffix = (if format = OUTPUT_FORMAT_COFF then ascii ''.obj'' else ascii ''.o'');
          path = source_path;
          dot = strrchr path 0x2E;
          slash = strrchr path 0x2F;
          backslash = strrchr path 0x5C;
          separator = (case backslash of
              None \<Rightarrow> slash
            | Some b \<Rightarrow> (case slash of None \<Rightarrow> backslash | Some s \<Rightarrow> if b > s then backslash else slash));
          path = (case dot of
              None \<Rightarrow> path
            | Some d \<Rightarrow> if d > 0 \<and> (case separator of None \<Rightarrow> True | Some s \<Rightarrow> d > s) then take d path else path)
      in path @ suffix)"

section \<open>The program\<close>






text \<open>The values of the enumeration are ordered by how much they forbid.\<close>

definition identity_rank :: "IoPathIdentity \<Rightarrow> nat" where
  "identity_rank i = (case i of
     IO_PATH_IDENTITY_DIFFERENT \<Rightarrow> 0 | IO_PATH_IDENTITY_UNKNOWN \<Rightarrow> 1 | IO_PATH_IDENTITY_SAME \<Rightarrow> 2)"

instantiation IoPathIdentity :: linorder
begin

definition less_eq_IoPathIdentity :: "IoPathIdentity \<Rightarrow> IoPathIdentity \<Rightarrow> bool" where
  "less_eq_IoPathIdentity a b \<longleftrightarrow> identity_rank a \<le> identity_rank b"

definition less_IoPathIdentity :: "IoPathIdentity \<Rightarrow> IoPathIdentity \<Rightarrow> bool" where
  "less_IoPathIdentity a b \<longleftrightarrow> identity_rank a < identity_rank b"

instance
  by standard (auto simp: less_eq_IoPathIdentity_def less_IoPathIdentity_def identity_rank_def split: IoPathIdentity.splits)

end










section \<open>The default path of the object\<close>

text \<open>It lies beside the source: the last extension of the file's name is replaced.\<close>

lemma strrchr_last: "b \<notin> set post \<Longrightarrow> strrchr (pre @ b # post) b = Some (length pre)"
proof -
  assume b: "b \<notin> set post"
  have "takeWhile (\<lambda>x. x \<noteq> b) (rev post @ b # rev pre) = rev post @ takeWhile (\<lambda>x. x \<noteq> b) (b # rev pre)"
    by (rule takeWhile_append2) (use b in auto)
  then show ?thesis by (simp add: strrchr_def)
qed

lemma strrchr_none: "b \<notin> set s \<Longrightarrow> strrchr s b = None"
  by (simp add: strrchr_def)

lemma strrchr_before:
  fixes b :: u8
  assumes "b \<notin> set post" "strrchr (pre @ post) b = Some k"
  shows "k < length pre"
proof -
  have "b \<in> set pre" using assms by (auto simp: strrchr_def split: if_splits)
  then obtain xs ys where p: "pre = xs @ b # ys" "b \<notin> set ys" by (metis split_list_last)
  then show ?thesis using strrchr_last [of b "ys @ post" xs] assms by simp
qed

lemma object_beside_source:
  assumes "0x2E \<notin> set ext" "0x2F \<notin> set ext" "0x5C \<notin> set ext" "stem \<noteq> []"
  shows "make_output_path (stem @ 0x2E # ext) format
    = stem @ (if format = OUTPUT_FORMAT_COFF then ascii ''.obj'' else ascii ''.o'')"
proof -
  let ?p = "stem @ 0x2E # ext"
  have d: "strrchr ?p 0x2E = Some (length stem)" using assms(1) by (rule strrchr_last)
  have s: "strrchr ?p 0x2F = Some k \<Longrightarrow> k < length stem" "strrchr ?p 0x5C = Some k \<Longrightarrow> k < length stem" for k
    using strrchr_before [where b = "0x2F" and post = "0x2E # ext" and pre = stem and k = k]
      strrchr_before [where b = "0x5C" and post = "0x2E # ext" and pre = stem and k = k] assms by auto
  show ?thesis
    using d s assms(4) by (auto simp: make_output_path_def Let_def split: option.splits)
qed

section \<open>No file of the user is overwritten by another\<close>















section \<open>The driver and the interface\<close>











end
