(* ===== verification/Spec2Isabelle.thy ===== *)
theory Spec2Isabelle
  imports Encoder_Theorems Alignment Lexer_Roundtrip Front_End Dwarf_Read Elf_Symbols Coff_Read
    Debug_Contract Api_Theorems Object_Limits Divergences File_Paths Args Listing_Theorems Driver
begin

text \<open>
  Nazm, an assembler for x86-64 with Arabic mnemonics: a verification development of its C code.

  \<^bold>\<open>The program.\<close> Nazm reads one UTF-8 source file and writes one relocatable object. The driver
  (\<^verbatim>\<open>src/src/main.c\<close>) and the C interface (\<^verbatim>\<open>src/src/api/api.c\<close>) run the same phases: the lexer turns
  bytes into tokens, the parser turns tokens into instructions, pass 1 lays the source out and builds
  the symbol table, pass 2 encodes into four sections and collects relocations and line records, and
  one of two writers makes an ELF64 or a COFF object. Every phase has a list of at most 64
  diagnostics; the next one runs only when that list is empty.

  \<^bold>\<open>Theories and code.\<close>

  Foundation:

  \<^item> \<open>Prelude\<close>: words for the C integer types, C strings as byte lists without the
  terminating zero, little-endian bytes, the shared \<^verbatim>\<open>named_theorems\<close>.
  \<^item> \<open>Unicode\<close>: \<^verbatim>\<open>unicode/arabic.c\<close>, decoding, prefix trimming and the character classes, with
  the UTF-8 encoding as specification.
  \<^item> \<open>Error\<close>: \<^verbatim>\<open>error/error.c\<close>, the bounded list of diagnostics and the text printed for one.
  \<^item> \<open>Instruction\<close>: \<^verbatim>\<open>parser/instruction.h\<close> and \<^verbatim>\<open>debug/debug.h\<close>, the data between parser and passes.

  Front end:

  \<^item> \<open>Keywords\<close>: \<^verbatim>\<open>lexer/keywords.c\<close> and the register tables of \<^verbatim>\<open>lexer/lexer.c\<close>.
  \<^item> \<open>Lexer\<close>: the rest of \<^verbatim>\<open>lexer/lexer.c\<close>; the \<^verbatim>\<open>Lexer\<close> struct is a record that every operation takes
  and returns. \<open>Lexer_Facts\<close> has the token stream invariant, \<open>Lexer_Roundtrip\<close> that written tokens
  are read back, \<open>String_Tokens\<close> that the tokens weigh no more than the source.
  \<^item> \<open>Parser\<close>: \<^verbatim>\<open>parser/parser.c\<close>; \<open>Parser_Facts\<close> has the shape of the instructions and that the parser
  reads exactly the token array, \<open>Source_Bounds\<close> the size of the instructions.

  Encoder:

  \<^item> \<open>Encoder_Types\<close>, \<open>ModRM\<close>, \<open>Immediate\<close>, \<open>Emit\<close>, \<open>Encoder_Families\<close>, \<open>Sse2\<close>, \<open>Encoder\<close>:
  \<^verbatim>\<open>encoder/encoder.h\<close>, \<^verbatim>\<open>modrm.c\<close> and \<^verbatim>\<open>rex.c\<close>, \<^verbatim>\<open>immediate.c\<close>, the helpers, the families and the entry
  points of \<^verbatim>\<open>table.c\<close>, and \<^verbatim>\<open>sse2.c\<close>.
  \<^item> \<open>X86_Decode\<close> is an independent decoder of x86-64 machine code, the specification of the encoder;
  \<open>Encoder_Decode\<close> and \<open>Encoder_Correct\<close> prove the round trip, \<open>Encoder_Accept\<close> what is accepted, and
  \<open>Encoder_Theorems\<close> states the results.

  Passes:

  \<^item> \<open>Symtable\<close>: \<^verbatim>\<open>symtable/symtable.c\<close>, a chained hash table with its locale \<open>symbol_store\<close>
  of the laws the passes use.
  \<^item> \<open>Pass1\<close> and \<open>Pass2\<close>: \<^verbatim>\<open>passes/pass1.c\<close> and \<^verbatim>\<open>passes/pass2.c\<close>, each a step over a state record.
  \<^item> \<open>Layout\<close> is the abstract layout both must follow, the locale \<open>layout_pass\<close> what a pass that follows
  it promises; \<open>Pass1_Correct\<close> and \<open>Pass2_Correct\<close> interpret it on the two passes. \<open>Data_Image\<close>,
  \<open>Reloc_Fields\<close> and \<open>Pass2_Resolve\<close> describe the bytes and relocations of one line; \<open>Passes\<close>
  puts them together, \<open>Passes_Theorems\<close> and \<open>Alignment\<close> state the results.
  \<^item> \<open>Front_End\<close>: the four phases composed as \<^verbatim>\<open>main.c\<close> and \<^verbatim>\<open>api.c\<close> compose them.

  Output:

  \<^item> \<open>Output_Symbols\<close>: \<^verbatim>\<open>output/symbols.c\<close>. \<open>Debug_Line\<close>: \<^verbatim>\<open>output/debug_line.c\<close>, the DWARF and
  CodeView line tables; \<open>Dwarf_Read\<close> reads the DWARF one back; \<open>Debug_Contract\<close> shows that the passes
  meet what the builders check.
  \<^item> \<open>Elf64\<close>: \<^verbatim>\<open>output/elf64.c\<close>. \<open>Elf_Bytes\<close> says where in the file what lies, \<open>Elf_Read\<close> is a reader of
  ELF files, \<open>Elf_Sections\<close> and \<open>Elf_Symbols\<close> what it finds in the writer's files.
  \<^item> \<open>Coff\<close>: \<^verbatim>\<open>output/coff.c\<close> with its reader and results in \<open>Coff_Read\<close>.
  \<^item> \<open>Api\<close>: \<^verbatim>\<open>api/api.c\<close> and \<^verbatim>\<open>output/output.c\<close>; \<open>Api_Theorems\<close> has the answers a caller can get,
  \<open>Object_Limits\<close> that a file within the size limit is never refused by a limit of the ELF format.

  Around it:

  \<^item> \<open>File_Paths\<close>: the path comparison of \<^verbatim>\<open>io/file.c\<close>. \<open>Args\<close>: \<^verbatim>\<open>cli/args.c\<close>.
  \<^item> \<open>Listing\<close>: \<^verbatim>\<open>cli/listing.c\<close>, with its results in \<open>Listing_Theorems\<close>.
  \<^item> \<open>Driver\<close>: \<^verbatim>\<open>main.c\<close>, the program as a function of its arguments and of what the operating system
  answers, to its exit code, the files it writes and its messages; compared with the interface.
  \<^item> \<open>Divergences\<close>: the documented behaviour the code departs from, shown on concrete sources.

  \<^bold>\<open>State and errors.\<close> A struct is a record, an enum a datatype, a growing array the list of its
  elements, a buffer with a length the list of the bytes written, \<^verbatim>\<open>NULL\<close> is \<open>None\<close>. Where C stores an
  integer of a fixed width that may wrap or be cut, the model has a word of the width (registers,
  immediates, displacements, every field of a file); sizes and offsets bounded by memory are \<open>nat\<close>, or
  \<open>int\<close> where C has \<^verbatim>\<open>int\<close>, with the code's own overflow checks written out. An error return is \<open>Inl\<close>.
  Messages are the bytes of their text in lexer and parser, constructors elsewhere.

  \<^bold>\<open>Termination and bounds.\<close> No definition uses fuel: loops are structural or come with a measure, the
  distance to the end of the source, of the tokens or of the list. Sources are shorter than 2 GiB where
  a theorem says so, because offsets and columns are \<^verbatim>\<open>int\<close> in C; the interface reads at most 100 MiB.
  The bounds of the object formats (32-bit string tables and symbol counts, 16-bit counts in COFF)
  are the code's.

  \<^bold>\<open>What is shown.\<close> Encoder: encode and decode are inverse, what is accepted, sizes. Passes: they agree on
  every offset and size, labels are addresses, branches reach them, relocations are sound, data and
  alignment are where they should be. Symbol table: refinement of a map, finality of definitions.
  Front end: tokens read back, UTF-8, shapes, termination. Output: sections, symbols, relocations and
  lines are what independent readers find. Whole program: every source file gets an ELF object or
  a diagnostic, never an internal error, the interface's answer is characterised in full, and the
  program agrees with the interface, lists every byte and line, and never writes over its source.

  \<^bold>\<open>Where the code departs from its documentation.\<close> A label before a section, visibility, external or
  debug directive is dropped without a report (\<open>label_on_directive_dropped\<close>); a label of a data,
  read-only data or bss section without bytes becomes a symbol of the text (\<open>empty_section_label_elf\<close>,
  \<open>empty_section_label_coff\<close>). The theorems on labels and on the symbols of objects state these cases.

  \<^bold>\<open>Not modelled.\<close> The allocator \<^verbatim>\<open>alloc/arena.c\<close> and every exit for lack of memory: values need no
  storage; only \<^verbatim>\<open>getcwd\<close> and the opening of files may answer that there is none. The Windows half
  of \<^verbatim>\<open>io/file.c\<close>, conversions to UTF-16 around Win32 calls, and the opening, reading and writing of
  files, whose answers are parameters. The texts of the driver's messages and the printing of usage,
  version and interface information. \<^verbatim>\<open>nazm_api_info\<close> and \<^verbatim>\<open>nazm_result_free\<close>, constants and memory. The
  copies of names into the arena are the names themselves.
\<close>

end
